(* ===== verification/ToolkitBase.thy ===== *)
theory ToolkitBase
  imports Complex_Main "HOL-Library.Multiset" "HOL-Library.Char_ord" "HOL-Library.List_Lexorder"
begin

text \<open>
  The prelude of the development: what the TypeScript sources take from the language and
  that every component shares.

  Strings are lists of Isabelle characters, read as the code units U+0000 to U+00FF. In that
  range UTF-16 code units, code points and characters coincide, the order of strings is the
  lexicographic order of the code units, and Unicode normal form C is the identity (there is
  no combining mark below U+0300 and the precomposed letters are stable).

  Numbers are the exact rationals, together with the values of a JavaScript number that are
  no rational: the two infinities, NaN and the negative zero. Rounding of IEEE doubles is not
  modelled. A thrown error is the left summand of a sum.
\<close>

named_theorems result_simps \<open>inversion of the sum-valued combinators\<close>

section \<open>Results: a thrown error or a value\<close>

fun and_then :: "'e + 'a \<Rightarrow> ('a \<Rightarrow> 'e + 'b) \<Rightarrow> 'e + 'b" where
  "and_then (Inl e) f = Inl e"
| "and_then (Inr a) f = f a"

definition ensure :: "'e \<Rightarrow> bool \<Rightarrow> 'e + unit" where
  "ensure e b = (if b then Inr () else Inl e)"

fun each_ok :: "('a \<Rightarrow> 'e + unit) \<Rightarrow> 'a list \<Rightarrow> 'e + unit" where
  "each_ok f [] = Inr ()"
| "each_ok f (x # xs) = and_then (f x) (\<lambda>_. each_ok f xs)"

fun map_ok :: "('a \<Rightarrow> 'e + 'b) \<Rightarrow> 'a list \<Rightarrow> 'e + 'b list" where
  "map_ok f [] = Inr []"
| "map_ok f (x # xs) = and_then (f x) (\<lambda>y. and_then (map_ok f xs) (\<lambda>ys. Inr (y # ys)))"

lemma and_then_Inr [result_simps]: "and_then m f = Inr b \<longleftrightarrow> (\<exists>a. m = Inr a \<and> f a = Inr b)"
  by (cases m) auto

lemma and_then_Inl [result_simps]:
  "and_then m f = Inl e \<longleftrightarrow> m = Inl e \<or> (\<exists>a. m = Inr a \<and> f a = Inl e)"
  by (cases m) auto

lemma ensure_Inr [result_simps]: "ensure e b = Inr u \<longleftrightarrow> b"
  by (simp add: ensure_def)

lemma ensure_Inl [result_simps]: "ensure e b = Inl e' \<longleftrightarrow> \<not> b \<and> e' = e"
  by (auto simp: ensure_def)

lemma ensure_True [simp]: "ensure e True = Inr ()"
  by (simp add: ensure_def)

lemma ensure_False [simp]: "ensure e False = Inl e"
  by (simp add: ensure_def)

lemma each_ok_Inr [result_simps]: "each_ok f xs = Inr u \<longleftrightarrow> (\<forall>x \<in> set xs. f x = Inr ())"
  by (induction xs) (auto simp: result_simps)

lemma map_ok_Inr [result_simps]:
  "map_ok f xs = Inr ys \<longleftrightarrow> list_all2 (\<lambda>x y. f x = Inr y) xs ys"
  by (induction xs arbitrary: ys) (auto simp: result_simps list_all2_Cons1)

lemma map_ok_total: "(\<And>x. x \<in> set xs \<Longrightarrow> f x = Inr (g x)) \<Longrightarrow> map_ok f xs = Inr (map g xs)"
  by (induction xs) auto

lemma map_ok_length: "map_ok f xs = Inr ys \<Longrightarrow> length ys = length xs"
  by (simp add: result_simps list_all2_lengthD)

section \<open>Numbers\<close>

datatype jnum = Fin rat | NegZero | NaN | PosInf | NegInf

definition max_safe :: int where
  "max_safe = 9007199254740991"

text \<open>The finite value of a number, if it has one (\<open>Number.isFinite\<close>); -0 counts as 0.\<close>

fun finite_of :: "jnum \<Rightarrow> rat option" where
  "finite_of (Fin q) = Some q"
| "finite_of NegZero = Some 0"
| "finite_of _ = None"

definition is_integral :: "rat \<Rightarrow> bool" where
  "is_integral q \<longleftrightarrow> of_int \<lfloor>q\<rfloor> = q"

text \<open>The integer of a number that passes \<open>Number.isSafeInteger\<close>.\<close>

definition safe_integer_of :: "jnum \<Rightarrow> int option" where
  "safe_integer_of x =
     (case finite_of x of
        None \<Rightarrow> None
      | Some q \<Rightarrow> if is_integral q \<and> \<bar>\<lfloor>q\<rfloor>\<bar> \<le> max_safe then Some \<lfloor>q\<rfloor> else None)"

lemma is_integral_of_int [simp]: "is_integral (of_int i)"
  by (simp add: is_integral_def)

lemma safe_integer_of_int: "safe_integer_of (Fin (of_int i)) = (if \<bar>i\<bar> \<le> max_safe then Some i else None)"
  by (simp add: safe_integer_of_def is_integral_def)

lemma safe_integer_of_bound: "safe_integer_of x = Some i \<Longrightarrow> \<bar>i\<bar> \<le> max_safe"
  by (auto simp: safe_integer_of_def split: option.splits if_splits)

section \<open>Decimal text of integers\<close>

fun show_nat :: "nat \<Rightarrow> string" where
  "show_nat n = (if n < 10 then [char_of (48 + n)] else show_nat (n div 10) @ [char_of (48 + n mod 10)])"

declare show_nat.simps [simp del]

definition show_int :: "int \<Rightarrow> string" where
  "show_int i = (if i < 0 then CHR ''-'' # show_nat (nat (- i)) else show_nat (nat i))"

fun read_digits :: "nat \<Rightarrow> string \<Rightarrow> nat" where
  "read_digits acc [] = acc"
| "read_digits acc (c # cs) = read_digits (10 * acc + (of_char c - 48)) cs"

lemma read_digits_append: "read_digits a (xs @ ys) = read_digits (read_digits a xs) ys"
  by (induction xs arbitrary: a) auto

lemma of_char_digit: "n < 10 \<Longrightarrow> of_char (char_of (48 + n) :: char) = (48 + n :: nat)"
  by simp

lemma read_show_nat: "read_digits 0 (show_nat n) = n"
proof (induction n rule: show_nat.induct)
  case (1 n)
  show ?case
  proof (cases "n < 10")
    case True
    then show ?thesis by (simp add: show_nat.simps [of n] del: of_char_of)
        (simp add: of_char_digit del: of_char_of)
  next
    case False
    with "1.IH" have ih: "read_digits 0 (show_nat (n div 10)) = n div 10" by simp
    have "n mod 10 < 10" by simp
    then have "of_char (char_of (48 + n mod 10) :: char) = (48 + n mod 10 :: nat)"
      by (rule of_char_digit)
    with False ih show ?thesis
      by (simp add: show_nat.simps [of n] read_digits_append del: of_char_of)
  qed
qed

lemma show_nat_inject: "show_nat m = show_nat n \<longleftrightarrow> m = n"
  by (metis read_show_nat)

section \<open>Sorting with a comparator\<close>

text \<open>
  \<open>Array.prototype.sort\<close> with a comparator is stable. For a comparator that is a total
  preorder every stable sort gives the same list, so insertion from the right is a model of it.
\<close>

fun sort_insert :: "('a \<Rightarrow> 'a \<Rightarrow> int) \<Rightarrow> 'a \<Rightarrow> 'a list \<Rightarrow> 'a list" where
  "sort_insert cmp x [] = [x]"
| "sort_insert cmp x (y # ys) = (if cmp x y \<le> 0 then x # y # ys else y # sort_insert cmp x ys)"

definition sort_by :: "('a \<Rightarrow> 'a \<Rightarrow> int) \<Rightarrow> 'a list \<Rightarrow> 'a list" where
  "sort_by cmp xs = foldr (sort_insert cmp) xs []"

lemma mset_sort_insert [simp]: "mset (sort_insert cmp x xs) = add_mset x (mset xs)"
  by (induction xs) auto

lemma sort_by_Nil [simp]: "sort_by cmp [] = []"
  by (simp add: sort_by_def)

lemma sort_by_Cons [simp]: "sort_by cmp (x # xs) = sort_insert cmp x (sort_by cmp xs)"
  by (simp add: sort_by_def)

lemma mset_sort_by [simp]: "mset (sort_by cmp xs) = mset xs"
  by (induction xs) auto

lemma set_sort_by [simp]: "set (sort_by cmp xs) = set xs"
  by (metis mset_sort_by set_mset_mset)

lemma length_sort_by [simp]: "length (sort_by cmp xs) = length xs"
  by (metis mset_sort_by size_mset)

lemma distinct_sort_by [simp]: "distinct (sort_by cmp xs) = distinct xs"
  by (metis mset_eq_imp_distinct_iff mset_sort_by)

lemma sort_by_eq_Nil [simp]: "sort_by cmp xs = [] \<longleftrightarrow> xs = []"
  by (metis length_0_conv length_sort_by)

lemma sort_by_cong:
  assumes "\<And>x y. x \<in> set xs \<Longrightarrow> y \<in> set xs \<Longrightarrow> c x y = d x y"
  shows "sort_by c xs = sort_by d xs"
  using assms
proof (induction xs)
  case (Cons a xs)
  have "sort_insert c a ys = sort_insert d a ys" if "set ys \<subseteq> set xs" for ys
    using that Cons.prems by (induction ys) auto
  with Cons show ?case by simp
qed simp

locale comparator =
  fixes cmp :: "'a \<Rightarrow> 'a \<Rightarrow> int"
  assumes swap: "sgn (cmp b a) = - sgn (cmp a b)"
    and trans: "cmp a b \<le> 0 \<Longrightarrow> cmp b c \<le> 0 \<Longrightarrow> cmp a c \<le> 0"
begin

lemma cmp_refl: "cmp a a = 0"
proof -
  have "sgn (cmp a a) = 0" using swap [of a a] by linarith
  then show ?thesis by (simp add: sgn_if split: if_splits)
qed

lemma total: "\<not> cmp a b \<le> 0 \<Longrightarrow> cmp b a \<le> 0"
  using swap [of b a] by (auto simp: sgn_if split: if_splits)

lemma less_swap: "0 < cmp a b \<longleftrightarrow> cmp b a < 0"
  using swap [of a b] by (auto simp: sgn_if split: if_splits)

lemma eq_swap: "cmp a b = 0 \<longleftrightarrow> cmp b a = 0"
  using swap [of a b] by (auto simp: sgn_if split: if_splits)

lemma less_trans: "cmp a b < 0 \<Longrightarrow> cmp b c \<le> 0 \<Longrightarrow> cmp a c < 0"
proof (rule ccontr)
  assume ab: "cmp a b < 0" and bc: "cmp b c \<le> 0" and "\<not> cmp a c < 0"
  then have "cmp c a \<le> 0" using less_swap [of a c] eq_swap [of a c] by (cases "cmp a c = 0") auto
  with bc have "cmp b a \<le> 0" by (rule trans)
  with ab show False using less_swap [of b a] by linarith
qed

lemma sorted_insert:
  "sorted_wrt (\<lambda>a b. cmp a b \<le> 0) xs \<Longrightarrow> sorted_wrt (\<lambda>a b. cmp a b \<le> 0) (sort_insert cmp x xs)"
proof (induction xs)
  case Nil
  then show ?case by simp
next
  case (Cons y ys)
  have set_ins: "set (sort_insert cmp x ys) = insert x (set ys)"
    by (metis mset_sort_insert set_mset_add_mset_insert set_mset_mset)
  show ?case
  proof (cases "cmp x y \<le> 0")
    case True
    with Cons.prems show ?thesis by (auto intro: trans)
  next
    case False
    with Cons show ?thesis by (auto simp: set_ins intro: total)
  qed
qed

lemma sorted_sort_by: "sorted_wrt (\<lambda>a b. cmp a b \<le> 0) (sort_by cmp xs)"
  by (induction xs) (auto intro: sorted_insert)

lemma hd_sort_by_least:
  assumes "x \<in> set xs"
  shows "hd (sort_by cmp xs) \<in> set xs \<and> cmp (hd (sort_by cmp xs)) x \<le> 0"
proof -
  from assms have ne: "sort_by cmp xs \<noteq> []" by auto
  then obtain y ys where s: "sort_by cmp xs = y # ys" by (cases "sort_by cmp xs") auto
  have eq: "set xs = insert y (set ys)" using s set_sort_by [of cmp xs] by simp
  with assms have "x = y \<or> x \<in> set ys" by simp
  moreover have "\<forall>z \<in> set ys. cmp y z \<le> 0" using sorted_sort_by [of xs] s by simp
  ultimately show ?thesis using s eq by (auto simp: cmp_refl)
qed

end

text \<open>A comparator that tells distinct values apart sorts in one way only.\<close>

locale strict_comparator = comparator +
  assumes antisym: "cmp a b = 0 \<Longrightarrow> a = b"
begin

lemma eq_zero [simp]: "cmp a b = 0 \<longleftrightarrow> a = b"
  using antisym cmp_refl by blast

lemma sort_by_unique:
  assumes "mset xs = mset ys"
  shows "sort_by cmp xs = sort_by cmp ys"
proof -
  have "\<lbrakk> sorted_wrt (\<lambda>a b. cmp a b \<le> 0) us; sorted_wrt (\<lambda>a b. cmp a b \<le> 0) vs; mset us = mset vs \<rbrakk> \<Longrightarrow> us = vs"
    for us vs
  proof (induction us arbitrary: vs)
    case Nil
    then show ?case by simp
  next
    case (Cons u us)
    then obtain v vs' where vs: "vs = v # vs'" by (cases vs) auto
    have sets: "insert u (set us) = insert v (set vs')"
      using Cons.prems(3) vs by (metis list.simps(15) mset_eq_setD)
    have "v = u \<or> v \<in> set us" using sets by auto
    then have "cmp u v \<le> 0" using Cons.prems(1) by (auto simp: cmp_refl)
    moreover have "u = v \<or> u \<in> set vs'" using sets by auto
    then have "cmp v u \<le> 0" using Cons.prems(2) vs by (auto simp: cmp_refl)
    ultimately have "cmp u v = 0" using less_swap [of v u] by (cases "cmp u v = 0") linarith+
    then have "u = v" by (rule antisym)
    moreover have "us = vs'"
      by (rule Cons.IH) (use Cons.prems vs \<open>u = v\<close> in simp_all)
    ultimately show ?case using vs by simp
  qed
  note uniq = this
  show ?thesis
    by (rule uniq [OF sorted_sort_by sorted_sort_by]) (simp add: assms)
qed

end

text \<open>Comparators are built by reading a key and by the chain \<open>first || second\<close>.\<close>

definition or_else :: "int \<Rightarrow> int \<Rightarrow> int" where
  "or_else a b = (if a \<noteq> 0 then a else b)"

lemma or_else_simps [simp]: "or_else 0 b = b" "a \<noteq> 0 \<Longrightarrow> or_else a b = a"
  by (simp_all add: or_else_def)

lemma or_else_eq_0 [simp]: "or_else a b = 0 \<longleftrightarrow> a = 0 \<and> b = 0"
  by (simp add: or_else_def)

lemma comparator_key: "comparator cmp \<Longrightarrow> comparator (\<lambda>x y. cmp (f x) (f y))"
  unfolding comparator_def by blast

lemma comparator_diff: "comparator (\<lambda>x y. f x - f y :: int)"
  by unfold_locales (auto simp: sgn_if)

lemma comparator_chain:
  assumes c: "comparator c" and d: "comparator d"
  shows "comparator (\<lambda>x y. or_else (c x y) (d x y))"
proof
  fix a b
  show "sgn (or_else (c b a) (d b a)) = - sgn (or_else (c a b) (d a b))"
    using comparator.swap [OF c, of a b] comparator.swap [OF d, of a b]
      comparator.eq_swap [OF c, of a b] by (auto simp: or_else_def)
next
  fix x y z
  assume "or_else (c x y) (d x y) \<le> 0" "or_else (c y z) (d y z) \<le> 0"
  then have xy: "c x y < 0 \<or> c x y = 0 \<and> d x y \<le> 0" and yz: "c y z < 0 \<or> c y z = 0 \<and> d y z \<le> 0"
    by (auto simp: or_else_def split: if_splits)
  have xz: "c x z \<le> 0" using comparator.trans [OF c, of x y z] xy yz by linarith
  show "or_else (c x z) (d x z) \<le> 0"
  proof (cases "c x z = 0")
    case True
    have "\<not> c x y < 0" using comparator.less_trans [OF c, of x y z] yz True by linarith
    moreover have "\<not> c y z < 0"
    proof
      assume "c y z < 0"
      moreover have "c z x \<le> 0" using True comparator.eq_swap [OF c, of x z] by simp
      ultimately have "c y x < 0" by (rule comparator.less_trans [OF c])
      then have "0 < c x y" using comparator.less_swap [OF c, of x y] by simp
      with xy show False by linarith
    qed
    ultimately show ?thesis using xy yz True comparator.trans [OF d, of x y z] by simp
  next
    case False
    with xz show ?thesis by (simp add: or_else_def)
  qed
qed

section \<open>Code-unit order of strings\<close>

definition compare_text :: "string \<Rightarrow> string \<Rightarrow> int" where
  "compare_text left right = (if left < right then -1 else if left > right then 1 else 0)"

interpretation text_order: strict_comparator compare_text
  by unfold_locales (auto simp: compare_text_def split: if_splits)

section \<open>White space\<close>

text \<open>\<open>String.prototype.trim\<close> on these code units.\<close>

definition js_space :: "char \<Rightarrow> bool" where
  "js_space c = (of_char c \<in> {9, 10, 11, 12, 13, 32, 160 :: nat})"

definition trim :: "string \<Rightarrow> string" where
  "trim s = rev (dropWhile js_space (rev (dropWhile js_space s)))"

section \<open>Lists as sets and maps in insertion order\<close>

text \<open>\<open>[...new Set(xs)]\<close>: the first occurrence of every value, in order.\<close>

fun unique_from :: "'a set \<Rightarrow> 'a list \<Rightarrow> 'a list" where
  "unique_from seen [] = []"
| "unique_from seen (x # xs) =
     (if x \<in> seen then unique_from seen xs else x # unique_from (insert x seen) xs)"

definition unique_list :: "'a list \<Rightarrow> 'a list" where
  "unique_list xs = unique_from {} xs"

lemma set_unique_from: "set (unique_from seen xs) = set xs - seen"
  by (induction xs arbitrary: seen) auto

lemma distinct_unique_from: "distinct (unique_from seen xs)"
  by (induction xs arbitrary: seen) (auto simp: set_unique_from)

lemma set_unique_list [simp]: "set (unique_list xs) = set xs"
  by (simp add: unique_list_def set_unique_from)

lemma distinct_unique_list [simp]: "distinct (unique_list xs)"
  by (simp add: unique_list_def distinct_unique_from)

lemma unique_from_id: "distinct xs \<Longrightarrow> set xs \<inter> seen = {} \<Longrightarrow> unique_from seen xs = xs"
  by (induction xs arbitrary: seen) auto

lemma unique_list_id: "distinct xs \<Longrightarrow> unique_list xs = xs"
  by (simp add: unique_list_def unique_from_id)

text \<open>\<open>Map.prototype.set\<close> keeps the place of an existing key and appends a new one.\<close>

fun map_put :: "'k \<Rightarrow> 'v \<Rightarrow> ('k \<times> 'v) list \<Rightarrow> ('k \<times> 'v) list" where
  "map_put k v [] = [(k, v)]"
| "map_put k v ((k', v') # m) = (if k = k' then (k, v) # m else (k', v') # map_put k v m)"

definition map_del :: "'k \<Rightarrow> ('k \<times> 'v) list \<Rightarrow> ('k \<times> 'v) list" where
  "map_del k m = filter (\<lambda>(k', _). k' \<noteq> k) m"

lemma map_of_map_put [simp]: "map_of (map_put k v m) = (map_of m)(k \<mapsto> v)"
  by (induction m) (auto simp: fun_eq_iff)

lemma keys_map_put: "set (map fst (map_put k v m)) = insert k (set (map fst m))"
proof (induction m)
  case (Cons e m)
  then show ?case by (cases e) (auto simp: insert_commute)
qed simp

lemma distinct_map_put: "distinct (map fst m) \<Longrightarrow> distinct (map fst (map_put k v m))"
proof (induction m)
  case (Cons e m)
  then show ?case by (cases e) (auto simp: keys_map_put simp del: set_map)
qed simp

lemma map_put_appends: "k \<notin> set (map fst m) \<Longrightarrow> map_put k v m = m @ [(k, v)]"
  by (induction m) auto

lemma keys_map_del: "set (map fst (map_del k m)) = set (map fst m) - {k}"
  by (auto simp: map_del_def)

lemma distinct_map_del: "distinct (map fst m) \<Longrightarrow> distinct (map fst (map_del k m))"
  by (induction m) (auto simp: map_del_def)

lemma map_of_map_del [simp]: "map_of (map_del k m) = (map_of m)(k := None)"
  by (induction m) (auto simp: map_del_def fun_eq_iff)

text \<open>Interface of a keyed store, provided by the insertion-ordered maps.\<close>

locale keyed_store =
  fixes put :: "'k \<Rightarrow> 'v \<Rightarrow> 'm \<Rightarrow> 'm"
    and del :: "'k \<Rightarrow> 'm \<Rightarrow> 'm"
    and look :: "'m \<Rightarrow> 'k \<Rightarrow> 'v option"
    and ok :: "'m \<Rightarrow> bool"
  assumes look_put: "look (put k v m) = (look m)(k \<mapsto> v)"
    and look_del: "look (del k m) = (look m)(k := None)"
    and ok_put: "ok m \<Longrightarrow> ok (put k v m)"
    and ok_del: "ok m \<Longrightarrow> ok (del k m)"
begin

lemma put_same: "look (put k v m) k = Some v"
  by (simp add: look_put)

lemma put_other: "k' \<noteq> k \<Longrightarrow> look (put k v m) k' = look m k'"
  by (simp add: look_put)

lemma del_gone: "look (del k (put k v m)) k = None"
  by (simp add: look_del)

end

interpretation ordered_map: keyed_store map_put map_del map_of "\<lambda>m. distinct (map fst m)"
  by unfold_locales (simp_all add: distinct_map_put distinct_map_del)

end
