(* ===== verification/UnitJson.thy ===== *)
theory UnitJson
  imports ToolkitBase
begin

text \<open>
  Canonical JSON of the record-unit engine (memory-store/src/record-unit-engine.ts,
  \<open>canonicalValue\<close>, \<open>canonicalRecordUnitJson\<close>, \<open>canonicalRecordUnitHash\<close>) and its readers
  of unknown values (\<open>parseText\<close>, \<open>parseSafeInteger\<close>, ...).

  \<open>jvalue\<close> is an arbitrary JavaScript value as those readers see it, \<open>json\<close> a value the
  engine builds itself. SHA-256, the text of a number and the locale's collation belong to the
  host: they are fields of \<open>host\<close>, a parameter of every definition that uses them.
\<close>

record host =
  sha256 :: "string \<Rightarrow> string"
  num_text :: "rat \<Rightarrow> string"
  locale_compare :: "string \<Rightarrow> string \<Rightarrow> int"

datatype unit_error =
    UNSUPPORTED_SCHEMA | INVALID_KIND | UNIT_LIMIT | INVALID_PLAN | DUPLICATE_UNIT
  | SPEC_INDEX_MISMATCH | SPEC_HASH_MISMATCH | RUNTIME_MISSING | RUNTIME_INDEX_MISMATCH
  | LAYER_MISMATCH | PLAN_HASH_MISMATCH | UNKNOWN_LAYER | NOT_UNKNOWN_OUTCOME
  | UNKNOWN_GRACE_ACTIVE | UNKNOWN_EVIDENCE_MISMATCH | FENCE_NOT_ADVANCED | SPLIT_NOT_ALLOWED
  | SPLIT_DEPTH | SPLIT_STATE | SPLIT_MIN_STEP | EMPTY_COMPOSE | DUPLICATE_COMPOSE_INPUT
  | COMPOSE_CLOSURE | COMPOSE_INCOMPLETE | COMPOSE_DEPENDENCY | COMPOSE_PROVENANCE
  | UNKNOWN_UNIT | INVALID_DEPENDENCY | SELF_DEPENDENCY | DEPENDENCY_CYCLE
  | CONTINUATION_PARALLEL | PROMPT_RECIPE_MISMATCH | NO_RUNNING_ATTEMPT | FENCE_MISMATCH
  | INVALID_UNIT | IDENTITY_MISMATCH | PROVENANCE_MISMATCH | ROUTE_POLICY_MISMATCH
  | INVALID_SCHEMA | INVALID_HASH | UNKNOWN_FIELD | INVALID_CLOCK | INVALID_CANONICAL_VALUE
  | JS_TYPE_ERROR

type_synonym 'a res = "unit_error + 'a"

datatype jvalue =
    JUndef | JNull | JBool bool | JNum jnum | JStr string
  | JArr "jvalue list" | JObj "(string \<times> jvalue) list" | JOther

datatype json =
    Null | Bool bool | Num rat | Str string | Arr "json list" | Obj "(string \<times> json) list"

section \<open>Canonical text\<close>

fun hex_digit :: "nat \<Rightarrow> char" where
  "hex_digit n = (if n < 10 then char_of (48 + n) else char_of (87 + n))"

definition json_escape :: "char \<Rightarrow> string" where
  "json_escape c =
     (let n = of_char c :: nat in
      if n = 34 then [CHR 0x5C, CHR 0x22]
      else if n = 92 then [CHR 0x5C, CHR 0x5C]
      else if n = 8 then [CHR 0x5C, CHR ''b'']
      else if n = 9 then [CHR 0x5C, CHR ''t'']
      else if n = 10 then [CHR 0x5C, CHR ''n'']
      else if n = 12 then [CHR 0x5C, CHR ''f'']
      else if n = 13 then [CHR 0x5C, CHR ''r'']
      else if n < 32 then [CHR 0x5C, CHR ''u'', CHR ''0'', CHR ''0'', hex_digit (n div 16), hex_digit (n mod 16)]
      else [c])"

definition json_quote :: "string \<Rightarrow> string" where
  "json_quote s = CHR 0x22 # concat (map json_escape s) @ [CHR 0x22]"

fun join_with :: "string \<Rightarrow> string list \<Rightarrow> string" where
  "join_with sep [] = []"
| "join_with sep [x] = x"
| "join_with sep (x # y # ys) = x @ sep @ join_with sep (y # ys)"

definition by_key :: "(string \<times> 'a) list \<Rightarrow> (string \<times> 'a) list" where
  "by_key kvs = sort_by (\<lambda>a b. compare_text (fst a) (fst b)) kvs"

lemma set_by_key [simp]: "set (by_key kvs) = set kvs"
  by (simp add: by_key_def)

lemma length_by_key [simp]: "length (by_key kvs) = length kvs"
  by (simp add: by_key_def)

lemma map_ok_cong [fundef_cong]:
  "xs = ys \<Longrightarrow> (\<And>x. x \<in> set ys \<Longrightarrow> f x = g x) \<Longrightarrow> map_ok f xs = map_ok g ys"
  by (induction xs arbitrary: ys) auto

lemma size_field_less: "(k, v) \<in> set kvs \<Longrightarrow> size v < size_list (size_prod (\<lambda>_. 0) size) kvs"
  by (induction kvs) auto

function canonical_value :: "host \<Rightarrow> jvalue \<Rightarrow> string res" where
  "canonical_value h JNull = Inr ''null''"
| "canonical_value h (JStr s) = Inr (json_quote s)"
| "canonical_value h (JBool b) = Inr (if b then ''true'' else ''false'')"
| "canonical_value h (JNum x) =
     (case x of Fin q \<Rightarrow> Inr (num_text h q) | _ \<Rightarrow> Inl INVALID_CANONICAL_VALUE)"
| "canonical_value h (JArr vs) =
     and_then (map_ok (\<lambda>v. canonical_value h v) vs)
       (\<lambda>ts. Inr (''['' @ join_with '','' ts @ '']''))"
| "canonical_value h (JObj kvs) =
     and_then (map_ok (\<lambda>(k, v). and_then (canonical_value h v) (\<lambda>t. Inr (json_quote k @ '':'' @ t))) (by_key kvs))
       (\<lambda>ts. Inr (''{'' @ join_with '','' ts @ ''}''))"
| "canonical_value h JUndef = Inl INVALID_SCHEMA"
| "canonical_value h JOther = Inl INVALID_SCHEMA"
  by pat_completeness auto
termination
  by (relation "measure (\<lambda>(h, v). size v)") (auto simp: less_Suc_eq_le size_list_estimation' dest: size_field_less)

fun canonical_text :: "host \<Rightarrow> json \<Rightarrow> string" where
  "canonical_text h Null = ''null''"
| "canonical_text h (Bool b) = (if b then ''true'' else ''false'')"
| "canonical_text h (Num q) = num_text h q"
| "canonical_text h (Str s) = json_quote s"
| "canonical_text h (Arr vs) = ''['' @ join_with '','' (map (canonical_text h) vs) @ '']''"
| "canonical_text h (Obj kvs) =
     ''{'' @ join_with '',''
       (map (\<lambda>(k, t). json_quote k @ '':'' @ t) (by_key (map (\<lambda>(k, v). (k, canonical_text h v)) kvs))) @ ''}''"

fun lift :: "json \<Rightarrow> jvalue" where
  "lift Null = JNull"
| "lift (Bool b) = JBool b"
| "lift (Num q) = JNum (Fin q)"
| "lift (Str s) = JStr s"
| "lift (Arr vs) = JArr (map lift vs)"
| "lift (Obj kvs) = JObj (map (\<lambda>(k, v). (k, lift v)) kvs)"

definition canonical_hash :: "host \<Rightarrow> json \<Rightarrow> string" where
  "canonical_hash h v = ''sha256:'' @ sha256 h (canonical_text h v)"

text \<open>Sorting by key commutes with rewriting the values.\<close>

lemma sort_insert_map_snd:
  "sort_insert (\<lambda>a b. compare_text (fst a) (fst b)) (fst p, f (snd p)) (map (\<lambda>(k, v). (k, f v)) kvs)
   = map (\<lambda>(k, v). (k, f v)) (sort_insert (\<lambda>a b. compare_text (fst a) (fst b)) p kvs)"
  by (induction kvs) (auto simp: case_prod_beta)

lemma by_key_map: "by_key (map (\<lambda>(k, v). (k, f v)) kvs) = map (\<lambda>(k, v). (k, f v)) (by_key kvs)"
proof (induction kvs)
  case Nil
  then show ?case by (simp add: by_key_def)
next
  case (Cons p kvs)
  obtain k v where p: "p = (k, v)" by (cases p)
  have "by_key (map (\<lambda>(k, v). (k, f v)) (p # kvs))
      = sort_insert (\<lambda>a b. compare_text (fst a) (fst b)) (fst p, f (snd p)) (by_key (map (\<lambda>(k, v). (k, f v)) kvs))"
    by (simp add: by_key_def p)
  also have "\<dots> = map (\<lambda>(k, v). (k, f v)) (by_key (p # kvs))"
    by (simp only: Cons.IH sort_insert_map_snd) (simp add: by_key_def)
  finally show ?case .
qed

lemma canonical_value_lift: "canonical_value h (lift j) = Inr (canonical_text h j)"
proof (induction j)
  case (Arr vs)
  have "map_ok (canonical_value h) (map lift vs) = Inr (map (canonical_text h) vs)"
    using Arr.IH by (induction vs) auto
  then show ?case by simp
next
  case (Obj kvs)
  let ?item = "\<lambda>(k, v). and_then (canonical_value h v) (\<lambda>t. Inr (json_quote k @ '':'' @ t))"
  have ih: "canonical_value h (lift v) = Inr (canonical_text h v)" if "(k, v) \<in> set kvs" for k v
    using Obj.IH [OF that, of v] by simp
  have "map_ok ?item (by_key (map (\<lambda>(k, v). (k, lift v)) kvs))
      = Inr (map (\<lambda>(k, t). json_quote k @ '':'' @ t) (by_key (map (\<lambda>(k, v). (k, canonical_text h v)) kvs)))"
  proof -
    have "map_ok ?item (map (\<lambda>(k, v). (k, lift v)) ps)
        = Inr (map (\<lambda>(k, t). json_quote k @ '':'' @ t) (map (\<lambda>(k, v). (k, canonical_text h v)) ps))"
      if "set ps \<subseteq> set kvs" for ps
      using that by (induction ps) (auto simp: ih)
    from this [of "by_key kvs"] show ?thesis by (simp add: by_key_map)
  qed
  then show ?case by simp
qed simp_all

section \<open>Readers of unknown values\<close>

definition control_char :: "char \<Rightarrow> bool" where
  "control_char c = (of_char c < (32::nat) \<or> of_char c = (127::nat))"

definition normal_text :: "string \<Rightarrow> bool" where
  "normal_text s \<longleftrightarrow> s \<noteq> [] \<and> trim s = s \<and> \<not> list_ex control_char s"

fun parse_text :: "jvalue \<Rightarrow> string res" where
  "parse_text (JStr s) = (if normal_text s then Inr s else Inl INVALID_SCHEMA)"
| "parse_text _ = Inl INVALID_SCHEMA"

fun parse_safe_integer :: "int \<Rightarrow> jvalue \<Rightarrow> int res" where
  "parse_safe_integer minimum (JNum x) =
     (case safe_integer_of x of
        None \<Rightarrow> Inl INVALID_SCHEMA
      | Some i \<Rightarrow> if x = NegZero \<or> i < minimum then Inl INVALID_SCHEMA else Inr i)"
| "parse_safe_integer minimum _ = Inl INVALID_SCHEMA"

fun parse_finite_number :: "rat \<Rightarrow> jvalue \<Rightarrow> rat res" where
  "parse_finite_number minimum (JNum x) =
     (case finite_of x of
        None \<Rightarrow> Inl INVALID_SCHEMA
      | Some q \<Rightarrow> if x = NegZero \<or> q < minimum then Inl INVALID_SCHEMA else Inr q)"
| "parse_finite_number minimum _ = Inl INVALID_SCHEMA"

definition lower_hex :: "char \<Rightarrow> bool" where
  "lower_hex c = (let n = of_char c :: nat in 48 \<le> n \<and> n \<le> 57 \<or> 97 \<le> n \<and> n \<le> 102)"

definition canonical_hash_text :: "string \<Rightarrow> bool" where
  "canonical_hash_text s \<longleftrightarrow>
     take 7 s = ''sha256:'' \<and> length s = 71 \<and> list_all lower_hex (drop 7 s)"

definition parse_canonical_hash :: "jvalue \<Rightarrow> string res" where
  "parse_canonical_hash v =
     and_then (parse_text v) (\<lambda>s. if canonical_hash_text s then Inr s else Inl INVALID_HASH)"

text \<open>A string of a closed set of names, read as the element it names.\<close>

definition parse_known :: "('a \<Rightarrow> string) \<Rightarrow> 'a list \<Rightarrow> jvalue \<Rightarrow> 'a res" where
  "parse_known name values v =
     and_then (parse_text v)
       (\<lambda>s. case find (\<lambda>a. name a = s) values of None \<Rightarrow> Inl INVALID_SCHEMA | Some a \<Rightarrow> Inr a)"

fun as_plain_object :: "jvalue \<Rightarrow> (string \<times> jvalue) list res" where
  "as_plain_object (JObj kvs) = Inr kvs"
| "as_plain_object _ = Inl INVALID_SCHEMA"

definition exact_key_set :: "(string \<times> jvalue) list \<Rightarrow> string list \<Rightarrow> bool" where
  "exact_key_set kvs expected \<longleftrightarrow>
     sort_by compare_text (map fst kvs) = sort_by compare_text expected"

definition assert_exact_keys :: "(string \<times> jvalue) list \<Rightarrow> string list \<Rightarrow> unit res" where
  "assert_exact_keys kvs expected = ensure UNKNOWN_FIELD (exact_key_set kvs expected)"

definition assert_one_exact_key_set :: "(string \<times> jvalue) list \<Rightarrow> string list list \<Rightarrow> unit res" where
  "assert_one_exact_key_set kvs sets = ensure UNKNOWN_FIELD (list_ex (exact_key_set kvs) sets)"

definition field :: "string \<Rightarrow> (string \<times> jvalue) list \<Rightarrow> jvalue" where
  "field k kvs = (case map_of kvs k of None \<Rightarrow> JUndef | Some v \<Rightarrow> v)"

definition parse_string_array :: "jvalue \<Rightarrow> string list res" where
  "parse_string_array v =
     (case v of
        JArr vs \<Rightarrow> and_then (map_ok parse_text vs)
          (\<lambda>ss. if length (unique_list ss) \<noteq> length ss then Inl INVALID_SCHEMA else Inr ss)
      | _ \<Rightarrow> Inl INVALID_SCHEMA)"

definition assert_now :: "jnum \<Rightarrow> int res" where
  "assert_now now =
     (case safe_integer_of now of
        None \<Rightarrow> Inl INVALID_CLOCK
      | Some t \<Rightarrow> if t < 0 then Inl INVALID_CLOCK else Inr t)"

lemma parse_text_Inr [result_simps]: "parse_text v = Inr s \<longleftrightarrow> v = JStr s \<and> normal_text s"
  by (cases v) auto

lemma parse_canonical_hash_Inr [result_simps]:
  "parse_canonical_hash v = Inr s \<longleftrightarrow> v = JStr s \<and> normal_text s \<and> canonical_hash_text s"
  by (auto simp: parse_canonical_hash_def result_simps split: if_splits)

lemma parse_safe_integer_Inr:
  "parse_safe_integer m v = Inr i \<Longrightarrow> \<exists>x. v = JNum x \<and> safe_integer_of x = Some i \<and> m \<le> i \<and> i \<le> max_safe"
  by (cases v) (auto split: option.splits if_splits dest: safe_integer_of_bound)

lemma assert_now_Inr [result_simps]:
  "assert_now now = Inr t \<longleftrightarrow> safe_integer_of now = Some t \<and> 0 \<le> t"
  by (auto simp: assert_now_def split: option.splits if_splits)

lemma exact_key_set_keys: "exact_key_set kvs ks \<Longrightarrow> set (map fst kvs) = set ks"
  unfolding exact_key_set_def by (metis set_sort_by)

lemma parse_string_array_Inr:
  "parse_string_array v = Inr ss \<Longrightarrow> v = JArr (map JStr ss) \<and> distinct ss \<and> list_all normal_text ss"
proof -
  have len: "length (unique_list xs) = length xs \<Longrightarrow> distinct xs" for xs :: "string list"
    by (metis card_distinct distinct_card distinct_unique_list set_unique_list)
  have "list_all2 (\<lambda>x y. parse_text x = Inr y) vs ss \<Longrightarrow> vs = map JStr ss \<and> list_all normal_text ss" for vs
    by (induction rule: list_all2_induct) (auto simp: result_simps)
  then show "parse_string_array v = Inr ss \<Longrightarrow> ?thesis"
    by (auto simp: parse_string_array_def result_simps intro: len split: jvalue.splits if_splits)
qed

lemma parse_known_Inr:
  assumes "parse_known name values v = Inr a"
  shows "a \<in> set values \<and> v = JStr (name a)"
proof -
  from assms obtain s where v: "v = JStr s" and f: "find (\<lambda>a. name a = s) values = Some a"
    by (auto simp: parse_known_def result_simps split: option.splits)
  from f have "a \<in> set values" "name a = s"
    unfolding find_Some_iff by auto
  with v show ?thesis by simp
qed

end
