(* ===== verification/UnitTypes.thy ===== *)
theory UnitTypes
  imports UnitJson
begin

text \<open>
  The data of the record-unit engine (memory-store/src/record-unit-engine.ts, lines 3 to 279):
  the literal unions as datatypes with the names they are written with, the interfaces as
  records, and the JSON the engine hashes. A nullable or optional field is an option.
\<close>

definition RECORD_UNIT_SCHEMA_VERSION :: int where "RECORD_UNIT_SCHEMA_VERSION = 1"

definition RECORD_UNIT_MAX_COUNT :: int where "RECORD_UNIT_MAX_COUNT = 10000"

definition RECORD_UNIT_UNKNOWN_OUTCOME_GRACE_MS :: int where
  "RECORD_UNIT_UNKNOWN_OUTCOME_GRACE_MS = 30000"

lemmas unit_constants =
  RECORD_UNIT_SCHEMA_VERSION_def RECORD_UNIT_MAX_COUNT_def RECORD_UNIT_UNKNOWN_OUTCOME_GRACE_MS_def

section \<open>Literal unions\<close>

datatype provider = Grok | Agy | Antigravity | Codex | ClaudeCode

fun provider_name :: "provider \<Rightarrow> string" where
  "provider_name Grok = ''grok''"
| "provider_name Agy = ''agy''"
| "provider_name Antigravity = ''antigravity''"
| "provider_name Codex = ''codex''"
| "provider_name ClaudeCode = ''claude-code''"

definition RECORD_UNIT_PROVIDERS :: "provider list" where
  "RECORD_UNIT_PROVIDERS = [Grok, Agy, Antigravity, Codex, ClaudeCode]"

datatype unit_kind = RoundPart | ParallelChunk | SerialChunk | ComposeWindow | ReduceWindow

fun kind_name :: "unit_kind \<Rightarrow> string" where
  "kind_name RoundPart = ''round-part''"
| "kind_name ParallelChunk = ''parallel-chunk''"
| "kind_name SerialChunk = ''serial-chunk''"
| "kind_name ComposeWindow = ''compose-window''"
| "kind_name ReduceWindow = ''reduce-window''"

definition RECORD_UNIT_KINDS :: "unit_kind list" where
  "RECORD_UNIT_KINDS = [RoundPart, ParallelChunk, SerialChunk, ComposeWindow, ReduceWindow]"

datatype route = Auto | Explicit provider

fun route_name :: "route \<Rightarrow> string" where
  "route_name Auto = ''auto''"
| "route_name (Explicit p) = provider_name p"

datatype range_axis = Step | Round

fun axis_name :: "range_axis \<Rightarrow> string" where
  "axis_name Step = ''step''"
| "axis_name Round = ''round''"

datatype unit_state =
  BlockedDependency | Queued | Running | WaitingBackoff | UnknownOutcomeState | Succeeded | FailedFinal | Split

datatype failure_class =
  Congestion | Availability | Quality | Complexity | LocalResource | UnknownOutcome | DeterministicInput

fun failure_class_name :: "failure_class \<Rightarrow> string" where
  "failure_class_name Congestion = ''Congestion''"
| "failure_class_name Availability = ''Availability''"
| "failure_class_name Quality = ''Quality''"
| "failure_class_name Complexity = ''Complexity''"
| "failure_class_name LocalResource = ''LocalResource''"
| "failure_class_name UnknownOutcome = ''UnknownOutcome''"
| "failure_class_name DeterministicInput = ''DeterministicInput''"

datatype failure_signal =
    SigRateLimit | SigResourceExhausted | SigNetworkTimeout | SigNetworkError
  | SigProviderUnavailable | SigQualityRejected | SigComplexityExceeded | SigLocalResource
  | SigUnknownOutcome | SigDeterministicInput

datatype availability = Available | CapacityFull | Unavailable

datatype unknown_decision = RetrySameProvider | Fallback | DecideFailFinal

datatype evidence_outcome = ReconciledNotFound | KnownFailure | StatusUnsupported

fun evidence_outcome_name :: "evidence_outcome \<Rightarrow> string" where
  "evidence_outcome_name ReconciledNotFound = ''reconciled-not-found''"
| "evidence_outcome_name KnownFailure = ''known-failure''"
| "evidence_outcome_name StatusUnsupported = ''status-unsupported''"

datatype layer_completion = LayerPending | LayerSucceeded | LayerFailed

section \<open>Interfaces\<close>

record unit_range =
  axis :: range_axis
  range_start :: int
  range_end :: int

record provenance =
  prov_sourceSnapshotId :: string
  sourceContentHash :: string
  prov_promptHash :: string
  formatterVersion :: string

record budgets =
  b_unitAttempts :: int
  b_routeAttempts :: int
  b_providerAttempts :: int

record overflow_policy =
  enabled :: bool
  ov_from :: provider
  ov_to :: provider

record auto_policy =
  order :: "provider list"
  overflow :: overflow_policy

record dependency_binding =
  db_unitId :: string
  db_placeholder :: string

record continuation_binding =
  cb_continuationKey :: string
  previousUnitId :: string
  cb_placeholder :: string

record prompt_recipe =
  recipeVersion :: int
  templateId :: string
  recipe_range :: unit_range
  dependencyBindings :: "dependency_binding list"
  continuationBinding :: "continuation_binding option"

record spec_input =
  in_unitId :: string
  in_unitKind :: unit_kind
  in_inputHash :: string
  in_provenance :: provenance
  in_range :: unit_range
  in_composeOrder :: int
  in_continuationKey :: "string option"
  in_dependencies :: "string list"
  in_stepCount :: int
  in_estimatedCost :: rat
  in_promptRecipe :: "prompt_recipe option"

record planning_input =
  pi_schemaVersion :: int
  pi_taskId :: string
  pi_recordId :: string
  pi_sourceSnapshotId :: string
  pi_route :: route
  pi_autoPolicy :: "auto_policy option"
  pi_budgets :: budgets
  pi_maxUnits :: int
  pi_units :: "spec_input list"

record unit_spec =
  sp_schemaVersion :: int
  sp_kind :: string
  sp_taskId :: string
  sp_recordId :: string
  unitId :: string
  unitKind :: unit_kind
  active :: bool
  sp_sourceSnapshotId :: string
  sp_inputHash :: string
  provenance :: provenance
  promptRecipe :: prompt_recipe
  sp_range :: unit_range
  composeOrder :: int
  childOrder :: int
  continuationKey :: "string option"
  dependencies :: "string list"
  parentUnitId :: "string option"
  childUnitIds :: "string list"
  splitDepth :: int
  stepCount :: int
  estimatedCost :: rat
  inheritedCost :: rat
  routePlan :: "provider list"
  specHash :: string

record unit_attempt =
  attemptId :: string
  at_provider :: provider
  at_fence :: int
  dispatchedAt :: int
  at_inputHash :: string
  at_provenanceHash :: string

record unit_failure =
  fl_attemptId :: string
  fl_provider :: provider
  fl_fence :: int
  failureClass :: failure_class
  fl_at :: int

record unknown_outcome =
  un_attemptId :: string
  un_provider :: provider
  un_fence :: int
  un_dispatchedAt :: int
  graceUntil :: int
  providerEvidence :: string

record fence_evidence =
  previousAttemptId :: string
  previousFence :: int
  advancedFence :: int
  outcome :: evidence_outcome
  evidenceHash :: string

record unit_result =
  re_attemptId :: string
  re_provider :: provider
  model :: string
  re_fence :: int
  re_inputHash :: string
  re_provenanceHash :: string
  outputHash :: string
  qualityHash :: string

record prompt_resolution =
  resolved :: bool
  pr_inputHash :: string
  pr_promptHash :: string
  dependencyOutputs :: "(string \<times> string) list"

record unit_runtime =
  state :: unit_state
  routeCursor :: int
  currentProvider :: "provider option"
  attemptedProviders :: "provider list"
  providerAttemptCounts :: "provider \<Rightarrow> int"
  routeAttempts :: int
  unitAttempts :: int
  nextEligibleAt :: "int option"
  currentAttempt :: "unit_attempt option"
  unknownOutcome :: "unknown_outcome option"
  fenceAdvanceEvidence :: "fence_evidence option"
  fence :: int
  result :: "unit_result option"
  failureHistory :: "unit_failure list"
  lastFailureClass :: "failure_class option"
  prompt :: prompt_resolution

record unit_layer =
  layer :: nat
  unitIds :: "string list"

record engine_metrics =
  specHashComputations :: nat
  planHashComputations :: nat
  layerComputations :: nat
  graphValidations :: nat
  runtimeNodeCopies :: nat

definition DEFAULT_AUTO_POLICY :: auto_policy where
  "DEFAULT_AUTO_POLICY =
     \<lparr> order = RECORD_UNIT_PROVIDERS,
       overflow = \<lparr> enabled = True, ov_from = Grok, ov_to = Agy \<rparr> \<rparr>"

section \<open>Failure signals\<close>

fun classify_failure :: "failure_signal \<Rightarrow> failure_class" where
  "classify_failure SigRateLimit = Congestion"
| "classify_failure SigResourceExhausted = Congestion"
| "classify_failure SigNetworkTimeout = Congestion"
| "classify_failure SigNetworkError = Availability"
| "classify_failure SigProviderUnavailable = Availability"
| "classify_failure SigQualityRejected = Quality"
| "classify_failure SigComplexityExceeded = Complexity"
| "classify_failure SigLocalResource = LocalResource"
| "classify_failure SigUnknownOutcome = UnknownOutcome"
| "classify_failure SigDeterministicInput = DeterministicInput"

section \<open>The JSON the engine hashes\<close>

definition int_json :: "int \<Rightarrow> json" where "int_json i = Num (of_int i)"

definition text_or_null :: "string option \<Rightarrow> json" where
  "text_or_null t = (case t of None \<Rightarrow> Null | Some s \<Rightarrow> Str s)"

definition range_json :: "unit_range \<Rightarrow> json" where
  "range_json r = Obj [(''axis'', Str (axis_name (axis r))), (''start'', int_json (range_start r)), (''end'', int_json (range_end r))]"

definition provenance_json :: "provenance \<Rightarrow> json" where
  "provenance_json p = Obj
     [(''sourceSnapshotId'', Str (prov_sourceSnapshotId p)), (''sourceContentHash'', Str (sourceContentHash p)),
      (''promptHash'', Str (prov_promptHash p)), (''formatterVersion'', Str (formatterVersion p))]"

definition budgets_json :: "budgets \<Rightarrow> json" where
  "budgets_json b = Obj
     [(''unitAttempts'', int_json (b_unitAttempts b)), (''routeAttempts'', int_json (b_routeAttempts b)),
      (''providerAttempts'', int_json (b_providerAttempts b))]"

definition auto_policy_json :: "auto_policy \<Rightarrow> json" where
  "auto_policy_json p = Obj
     [(''order'', Arr (map (\<lambda>q. Str (provider_name q)) (order p))),
      (''overflow'', Obj
         [(''enabled'', Bool (enabled (overflow p))), (''from'', Str (provider_name (ov_from (overflow p)))),
          (''to'', Str (provider_name (ov_to (overflow p))))])]"

definition auto_policy_or_null :: "auto_policy option \<Rightarrow> json" where
  "auto_policy_or_null p = (case p of None \<Rightarrow> Null | Some q \<Rightarrow> auto_policy_json q)"

definition recipe_json :: "prompt_recipe \<Rightarrow> json" where
  "recipe_json r = Obj
     [(''recipeVersion'', int_json (recipeVersion r)), (''templateId'', Str (templateId r)),
      (''range'', range_json (recipe_range r)),
      (''dependencyBindings'', Arr (map (\<lambda>b. Obj
          [(''unitId'', Str (db_unitId b)), (''placeholder'', Str (db_placeholder b))]) (dependencyBindings r))),
      (''continuationBinding'', (case continuationBinding r of None \<Rightarrow> Null | Some b \<Rightarrow> Obj
          [(''continuationKey'', Str (cb_continuationKey b)), (''previousUnitId'', Str (previousUnitId b)),
           (''placeholder'', Str (cb_placeholder b))]))]"

definition outputs_json :: "(string \<times> string) list \<Rightarrow> json" where
  "outputs_json os = Arr (map (\<lambda>(u, t). Obj [(''unitId'', Str u), (''outputHash'', Str t)]) os)"

definition layers_json :: "unit_layer list \<Rightarrow> json" where
  "layers_json ls = Arr (map (\<lambda>l. Obj
     [(''layer'', int_json (int (layer l))), (''unitIds'', Arr (map Str (unitIds l))),
      (''completion'', Str ''all-succeeded'')]) ls)"

definition result_json :: "unit_result \<Rightarrow> json" where
  "result_json r = Obj
     [(''attemptId'', Str (re_attemptId r)), (''provider'', Str (provider_name (re_provider r))),
      (''model'', Str (model r)), (''fence'', int_json (re_fence r)), (''inputHash'', Str (re_inputHash r)),
      (''provenanceHash'', Str (re_provenanceHash r)), (''outputHash'', Str (outputHash r)),
      (''qualityHash'', Str (qualityHash r))]"

definition spec_hash_payload :: "unit_spec \<Rightarrow> json" where
  "spec_hash_payload s = Obj
     [(''schemaVersion'', int_json (sp_schemaVersion s)), (''kind'', Str (sp_kind s)),
      (''taskId'', Str (sp_taskId s)), (''recordId'', Str (sp_recordId s)), (''unitId'', Str (unitId s)),
      (''unitKind'', Str (kind_name (unitKind s))), (''active'', Bool (active s)),
      (''sourceSnapshotId'', Str (sp_sourceSnapshotId s)), (''inputHash'', Str (sp_inputHash s)),
      (''provenance'', provenance_json (provenance s)), (''promptRecipe'', recipe_json (promptRecipe s)),
      (''range'', range_json (sp_range s)), (''composeOrder'', int_json (composeOrder s)),
      (''childOrder'', int_json (childOrder s)), (''continuationKey'', text_or_null (continuationKey s)),
      (''dependencies'', Arr (map Str (dependencies s))), (''parentUnitId'', text_or_null (parentUnitId s)),
      (''childUnitIds'', Arr (map Str (childUnitIds s))), (''splitDepth'', int_json (splitDepth s)),
      (''stepCount'', int_json (stepCount s)), (''estimatedCost'', Num (estimatedCost s)),
      (''inheritedCost'', Num (inheritedCost s)), (''routePlan'', Arr (map (\<lambda>p. Str (provider_name p)) (routePlan s)))]"

definition hash_unit_spec :: "host \<Rightarrow> unit_spec \<Rightarrow> string" where
  "hash_unit_spec h s = canonical_hash h (spec_hash_payload s)"

lemma hash_unit_spec_specHash [simp]: "hash_unit_spec h (s\<lparr>specHash := x\<rparr>) = hash_unit_spec h s"
  by (simp add: hash_unit_spec_def spec_hash_payload_def)

lemma provider_name_inject [simp]: "provider_name p = provider_name q \<longleftrightarrow> p = q"
  by (cases p; cases q) simp_all

end
