(* ===== verification/UnitParse.thy ===== *)
theory UnitParse
  imports UnitTypes
begin

text \<open>
  The strict reader of a planning input (\<open>parseRecordUnitPlanningInput\<close> and the \<open>parse...\<close>
  functions below it in memory-store/src/record-unit-engine.ts): every check in the order of
  the source, the first failing one giving the error. The lemmas state what a value that was
  read satisfies.
\<close>

section \<open>Route policy\<close>

definition assert_declared_route_policy :: "host \<Rightarrow> route \<Rightarrow> auto_policy option \<Rightarrow> unit res" where
  "assert_declared_route_policy h r p =
     (if r = Auto then
        (case p of
           None \<Rightarrow> Inl ROUTE_POLICY_MISMATCH
         | Some q \<Rightarrow>
             ensure ROUTE_POLICY_MISMATCH
               (canonical_text h (auto_policy_json q) = canonical_text h (auto_policy_json DEFAULT_AUTO_POLICY)))
      else ensure ROUTE_POLICY_MISMATCH (p = None))"

definition derive_authorized_route_plan :: "host \<Rightarrow> route \<Rightarrow> auto_policy option \<Rightarrow> provider list res" where
  "derive_authorized_route_plan h r p =
     and_then (assert_declared_route_policy h r p)
       (\<lambda>_. Inr (case (r, p) of (Explicit q, _) \<Rightarrow> [q] | (Auto, Some a) \<Rightarrow> order a | (Auto, None) \<Rightarrow> []))"

definition parse_auto_policy :: "jvalue \<Rightarrow> auto_policy res" where
  "parse_auto_policy v =
     and_then (as_plain_object v) (\<lambda>policy.
     and_then (assert_exact_keys policy [''order'', ''overflow'']) (\<lambda>_.
     and_then (case field ''order'' policy of JArr vs \<Rightarrow> Inr vs | _ \<Rightarrow> Inl INVALID_SCHEMA) (\<lambda>vs.
     and_then (map_ok (parse_known provider_name RECORD_UNIT_PROVIDERS) vs) (\<lambda>ps.
     and_then (ensure INVALID_SCHEMA (length (unique_list ps) = length ps)) (\<lambda>_.
     and_then (as_plain_object (field ''overflow'' policy)) (\<lambda>ov.
     and_then (assert_exact_keys ov [''enabled'', ''from'', ''to'']) (\<lambda>_.
       (case field ''enabled'' ov of
          JBool b \<Rightarrow>
            if field ''from'' ov = JStr ''grok'' \<and> field ''to'' ov = JStr ''agy''
            then Inr \<lparr> order = ps, overflow = \<lparr> enabled = b, ov_from = Grok, ov_to = Agy \<rparr> \<rparr>
            else Inl ROUTE_POLICY_MISMATCH
        | _ \<Rightarrow> Inl ROUTE_POLICY_MISMATCH))))))))"

definition parse_declared_auto_policy :: "host \<Rightarrow> jvalue \<Rightarrow> route \<Rightarrow> auto_policy option res" where
  "parse_declared_auto_policy h v r =
     (if r \<noteq> Auto then
        (if v \<noteq> JUndef \<and> v \<noteq> JNull then Inl ROUTE_POLICY_MISMATCH else Inr None)
      else if v = JUndef then Inr (Some DEFAULT_AUTO_POLICY)
      else
        and_then (parse_auto_policy v) (\<lambda>p.
        and_then (ensure ROUTE_POLICY_MISMATCH
          (canonical_text h (auto_policy_json p) = canonical_text h (auto_policy_json DEFAULT_AUTO_POLICY)))
          (\<lambda>_. Inr (Some p))))"

definition parse_route :: "jvalue \<Rightarrow> route res" where
  "parse_route v = parse_known route_name (Auto # map Explicit RECORD_UNIT_PROVIDERS) v"

section \<open>Parts of a unit\<close>

definition parse_range :: "jvalue \<Rightarrow> unit_range res" where
  "parse_range v =
     and_then (as_plain_object v) (\<lambda>r.
     and_then (assert_exact_keys r [''axis'', ''start'', ''end'']) (\<lambda>_.
     and_then (parse_safe_integer 1 (field ''start'' r)) (\<lambda>s.
     and_then (parse_safe_integer s (field ''end'' r)) (\<lambda>e.
     and_then (parse_known axis_name [Step, Round] (field ''axis'' r)) (\<lambda>a.
       Inr \<lparr> axis = a, range_start = s, range_end = e \<rparr>)))))"

definition parse_budgets :: "jvalue \<Rightarrow> budgets res" where
  "parse_budgets v =
     and_then (as_plain_object v) (\<lambda>b.
     and_then (assert_exact_keys b [''unitAttempts'', ''routeAttempts'', ''providerAttempts'']) (\<lambda>_.
     and_then (parse_safe_integer 1 (field ''unitAttempts'' b)) (\<lambda>u.
     and_then (parse_safe_integer 1 (field ''routeAttempts'' b)) (\<lambda>r.
     and_then (parse_safe_integer 1 (field ''providerAttempts'' b)) (\<lambda>p.
       Inr \<lparr> b_unitAttempts = u, b_routeAttempts = r, b_providerAttempts = p \<rparr>)))))"

definition parse_provenance :: "jvalue \<Rightarrow> provenance res" where
  "parse_provenance v =
     and_then (as_plain_object v) (\<lambda>p.
     and_then (assert_exact_keys p [''sourceSnapshotId'', ''sourceContentHash'', ''promptHash'', ''formatterVersion'']) (\<lambda>_.
     and_then (parse_text (field ''sourceSnapshotId'' p)) (\<lambda>s.
     and_then (parse_canonical_hash (field ''sourceContentHash'' p)) (\<lambda>c.
     and_then (parse_canonical_hash (field ''promptHash'' p)) (\<lambda>q.
     and_then (parse_text (field ''formatterVersion'' p)) (\<lambda>f.
       Inr \<lparr> prov_sourceSnapshotId = s, sourceContentHash = c, prov_promptHash = q, formatterVersion = f \<rparr>))))))"

definition parse_dependency_binding :: "jvalue \<Rightarrow> dependency_binding res" where
  "parse_dependency_binding v =
     and_then (as_plain_object v) (\<lambda>b.
     and_then (assert_exact_keys b [''unitId'', ''placeholder'']) (\<lambda>_.
     and_then (parse_text (field ''unitId'' b)) (\<lambda>u.
     and_then (parse_text (field ''placeholder'' b)) (\<lambda>p.
       Inr \<lparr> db_unitId = u, db_placeholder = p \<rparr>))))"

definition parse_continuation_binding :: "jvalue \<Rightarrow> continuation_binding option res" where
  "parse_continuation_binding v =
     (if v = JNull then Inr None
      else
        and_then (as_plain_object v) (\<lambda>b.
        and_then (assert_exact_keys b [''continuationKey'', ''previousUnitId'', ''placeholder'']) (\<lambda>_.
        and_then (parse_text (field ''continuationKey'' b)) (\<lambda>k.
        and_then (parse_text (field ''previousUnitId'' b)) (\<lambda>u.
        and_then (parse_text (field ''placeholder'' b)) (\<lambda>p.
          Inr (Some \<lparr> cb_continuationKey = k, previousUnitId = u, cb_placeholder = p \<rparr>)))))))"

definition parse_prompt_recipe :: "jvalue \<Rightarrow> prompt_recipe res" where
  "parse_prompt_recipe v =
     and_then (as_plain_object v) (\<lambda>r.
     and_then (assert_exact_keys r [''recipeVersion'', ''templateId'', ''range'', ''dependencyBindings'', ''continuationBinding'']) (\<lambda>_.
     and_then (ensure INVALID_SCHEMA (field ''recipeVersion'' r = JNum (Fin 1))) (\<lambda>_.
     and_then (case field ''dependencyBindings'' r of JArr vs \<Rightarrow> Inr vs | _ \<Rightarrow> Inl INVALID_SCHEMA) (\<lambda>vs.
     and_then (map_ok parse_dependency_binding vs) (\<lambda>ds.
     and_then (parse_continuation_binding (field ''continuationBinding'' r)) (\<lambda>c.
     and_then (parse_text (field ''templateId'' r)) (\<lambda>t.
     and_then (parse_range (field ''range'' r)) (\<lambda>g.
       Inr \<lparr> recipeVersion = 1, templateId = t, recipe_range = g, dependencyBindings = ds, continuationBinding = c \<rparr>))))))))"

definition legacy_unit_keys :: "string list" where
  "legacy_unit_keys =
     [''unitId'', ''unitKind'', ''inputHash'', ''provenance'', ''range'', ''composeOrder'',
      ''continuationKey'', ''dependencies'', ''stepCount'', ''estimatedCost'']"

text \<open>Which kinds need a continuation key and which must not have one.\<close>

definition continuation_key_fits :: "unit_kind \<Rightarrow> string option \<Rightarrow> bool" where
  "continuation_key_fits k c =
     (\<not> (k \<in> {RoundPart, SerialChunk, ComposeWindow} \<and> c = None) \<and>
      \<not> (k \<in> {ParallelChunk, ReduceWindow} \<and> c \<noteq> None))"

definition parse_unit_spec :: "string \<Rightarrow> jvalue \<Rightarrow> spec_input res" where
  "parse_unit_spec snapshotId v =
     and_then (as_plain_object v) (\<lambda>u.
     and_then (assert_one_exact_key_set u [legacy_unit_keys, legacy_unit_keys @ [''promptRecipe'']]) (\<lambda>_.
     and_then (parse_range (field ''range'' u)) (\<lambda>r.
     and_then (parse_safe_integer 1 (field ''stepCount'' u)) (\<lambda>n.
     and_then (ensure INVALID_SCHEMA (\<not> (axis r = Step \<and> n \<noteq> range_end r - range_start r + 1))) (\<lambda>_.
     and_then (parse_known kind_name RECORD_UNIT_KINDS (field ''unitKind'' u)) (\<lambda>k.
     and_then (if field ''continuationKey'' u = JNull then Inr None
               else and_then (parse_text (field ''continuationKey'' u)) (\<lambda>c. Inr (Some c))) (\<lambda>c.
     and_then (ensure INVALID_SCHEMA (continuation_key_fits k c)) (\<lambda>_.
     and_then (parse_provenance (field ''provenance'' u)) (\<lambda>p.
     and_then (ensure PROVENANCE_MISMATCH (prov_sourceSnapshotId p = snapshotId)) (\<lambda>_.
     and_then (parse_text (field ''unitId'' u)) (\<lambda>i.
     and_then (parse_canonical_hash (field ''inputHash'' u)) (\<lambda>ih.
     and_then (parse_safe_integer 0 (field ''composeOrder'' u)) (\<lambda>co.
     and_then (parse_string_array (field ''dependencies'' u)) (\<lambda>ds.
     and_then (parse_finite_number 0 (field ''estimatedCost'' u)) (\<lambda>ec.
     and_then (if field ''promptRecipe'' u = JUndef then Inr None
               else and_then (parse_prompt_recipe (field ''promptRecipe'' u)) (\<lambda>q. Inr (Some q))) (\<lambda>q.
       Inr \<lparr> in_unitId = i, in_unitKind = k, in_inputHash = ih, in_provenance = p, in_range = r,
             in_composeOrder = co, in_continuationKey = c, in_dependencies = ds, in_stepCount = n,
             in_estimatedCost = ec, in_promptRecipe = q \<rparr>))))))))))))))))"

definition parse_units :: "string \<Rightarrow> jvalue \<Rightarrow> spec_input list res" where
  "parse_units snapshotId v =
     (case v of JArr vs \<Rightarrow> map_ok (parse_unit_spec snapshotId) vs | _ \<Rightarrow> Inl INVALID_SCHEMA)"

definition planning_legacy_keys :: "string list" where
  "planning_legacy_keys =
     [''schemaVersion'', ''kind'', ''taskId'', ''recordId'', ''sourceSnapshotId'', ''route'', ''budgets'', ''maxUnits'', ''units'']"

definition parse_planning_input :: "host \<Rightarrow> jvalue \<Rightarrow> planning_input res" where
  "parse_planning_input h v =
     and_then (as_plain_object v) (\<lambda>i.
     and_then (assert_one_exact_key_set i [planning_legacy_keys, planning_legacy_keys @ [''autoPolicy'']]) (\<lambda>_.
     and_then (parse_safe_integer 1 (field ''schemaVersion'' i)) (\<lambda>sv.
     and_then (ensure UNSUPPORTED_SCHEMA (sv = RECORD_UNIT_SCHEMA_VERSION)) (\<lambda>_.
     and_then (ensure INVALID_KIND (field ''kind'' i = JStr ''record-unit-plan-input'')) (\<lambda>_.
     and_then (parse_text (field ''sourceSnapshotId'' i)) (\<lambda>ss.
     and_then (parse_route (field ''route'' i)) (\<lambda>r.
     and_then (parse_declared_auto_policy h (field ''autoPolicy'' i) r) (\<lambda>ap.
     and_then (parse_text (field ''taskId'' i)) (\<lambda>t.
     and_then (parse_text (field ''recordId'' i)) (\<lambda>rec.
     and_then (parse_budgets (field ''budgets'' i)) (\<lambda>b.
     and_then (parse_safe_integer 1 (field ''maxUnits'' i)) (\<lambda>m.
     and_then (parse_units ss (field ''units'' i)) (\<lambda>us.
     and_then (ensure UNIT_LIMIT (m \<le> RECORD_UNIT_MAX_COUNT)) (\<lambda>_.
     and_then (ensure UNIT_LIMIT (int (length us) \<le> m)) (\<lambda>_.
       Inr \<lparr> pi_schemaVersion = RECORD_UNIT_SCHEMA_VERSION, pi_taskId = t, pi_recordId = rec,
             pi_sourceSnapshotId = ss, pi_route = r, pi_autoPolicy = ap, pi_budgets = b,
             pi_maxUnits = m, pi_units = us \<rparr>)))))))))))))))"

section \<open>What a parsed input satisfies\<close>

definition well_formed_range :: "unit_range \<Rightarrow> bool" where
  "well_formed_range r \<longleftrightarrow> 1 \<le> range_start r \<and> range_start r \<le> range_end r \<and> range_end r \<le> max_safe"

definition well_formed_budgets :: "budgets \<Rightarrow> bool" where
  "well_formed_budgets b \<longleftrightarrow> 1 \<le> b_unitAttempts b \<and> 1 \<le> b_routeAttempts b \<and> 1 \<le> b_providerAttempts b"

definition well_formed_spec_input :: "string \<Rightarrow> spec_input \<Rightarrow> bool" where
  "well_formed_spec_input snapshotId u \<longleftrightarrow>
     normal_text (in_unitId u) \<and> well_formed_range (in_range u) \<and> 1 \<le> in_stepCount u \<and> in_stepCount u \<le> max_safe \<and>
     (axis (in_range u) = Step \<longrightarrow> in_stepCount u = range_end (in_range u) - range_start (in_range u) + 1) \<and>
     prov_sourceSnapshotId (in_provenance u) = snapshotId \<and> 0 \<le> in_composeOrder u \<and>
     continuation_key_fits (in_unitKind u) (in_continuationKey u) \<and>
     distinct (in_dependencies u) \<and> 0 \<le> in_estimatedCost u"

definition well_formed_planning_input :: "planning_input \<Rightarrow> bool" where
  "well_formed_planning_input i \<longleftrightarrow>
     pi_schemaVersion i = RECORD_UNIT_SCHEMA_VERSION \<and> well_formed_budgets (pi_budgets i) \<and>
     1 \<le> pi_maxUnits i \<and> pi_maxUnits i \<le> RECORD_UNIT_MAX_COUNT \<and>
     int (length (pi_units i)) \<le> pi_maxUnits i \<and>
     (\<forall>u \<in> set (pi_units i). well_formed_spec_input (pi_sourceSnapshotId i) u) \<and>
     (pi_route i \<noteq> Auto \<longrightarrow> pi_autoPolicy i = None) \<and> (pi_route i = Auto \<longrightarrow> pi_autoPolicy i \<noteq> None)"

lemma parse_range_well_formed: "parse_range v = Inr r \<Longrightarrow> well_formed_range r"
  by (auto simp: parse_range_def well_formed_range_def result_simps dest!: parse_safe_integer_Inr)

lemma parse_budgets_well_formed: "parse_budgets v = Inr b \<Longrightarrow> well_formed_budgets b"
  by (auto simp: parse_budgets_def well_formed_budgets_def result_simps dest!: parse_safe_integer_Inr)

lemma parse_finite_number_Inr: "parse_finite_number m v = Inr q \<Longrightarrow> m \<le> q"
  by (cases v) (auto split: option.splits if_splits)

lemma parse_unit_spec_well_formed:
  assumes "parse_unit_spec s v = Inr u"
  shows "well_formed_spec_input s u"
proof -
  from assms obtain kvs r n k c p co ds ec i
    where r: "parse_range (field ''range'' kvs) = Inr r"
      and n: "parse_safe_integer 1 (field ''stepCount'' kvs) = Inr n"
      and ax: "\<not> (axis r = Step \<and> n \<noteq> range_end r - range_start r + 1)"
      and c: "continuation_key_fits k c"
      and p: "prov_sourceSnapshotId p = s"
      and i: "parse_text (field ''unitId'' kvs) = Inr i"
      and co: "parse_safe_integer 0 (field ''composeOrder'' kvs) = Inr co"
      and ds: "parse_string_array (field ''dependencies'' kvs) = Inr ds"
      and ec: "parse_finite_number 0 (field ''estimatedCost'' kvs) = Inr ec"
      and u: "in_unitId u = i" "in_unitKind u = k" "in_provenance u = p" "in_range u = r"
        "in_composeOrder u = co" "in_continuationKey u = c" "in_dependencies u = ds"
        "in_stepCount u = n" "in_estimatedCost u = ec"
    by (simp only: parse_unit_spec_def and_then_Inr ensure_Inr) (elim exE conjE, rule that, assumption+, auto)
  show ?thesis
    using parse_range_well_formed [OF r] parse_safe_integer_Inr [OF n] ax c p i
      parse_safe_integer_Inr [OF co] parse_string_array_Inr [OF ds] parse_finite_number_Inr [OF ec] u
    by (auto simp: well_formed_spec_input_def parse_text_Inr)
qed

lemma parse_units_well_formed:
  assumes "parse_units s v = Inr us" "u \<in> set us"
  shows "well_formed_spec_input s u"
proof -
  from assms(1) obtain vs where all: "list_all2 (\<lambda>x y. parse_unit_spec s x = Inr y) vs us"
    by (cases v) (auto simp: parse_units_def map_ok_Inr)
  from assms(2) obtain i where "i < length us" "us ! i = u"
    by (auto simp: in_set_conv_nth)
  with all have "parse_unit_spec s (vs ! i) = Inr u"
    by (auto simp: list_all2_conv_all_nth)
  then show ?thesis by (rule parse_unit_spec_well_formed)
qed

lemma parse_declared_auto_policy_None:
  "parse_declared_auto_policy h v r = Inr p \<Longrightarrow> (r \<noteq> Auto \<longrightarrow> p = None) \<and> (r = Auto \<longrightarrow> p \<noteq> None)"
  by (auto simp: parse_declared_auto_policy_def result_simps split: if_splits)

lemma parse_planning_input_parts:
  assumes "parse_planning_input h v = Inr i"
  obtains kvs where
    "parse_declared_auto_policy h (field ''autoPolicy'' kvs) (pi_route i) = Inr (pi_autoPolicy i)"
    "parse_budgets (field ''budgets'' kvs) = Inr (pi_budgets i)"
    "parse_safe_integer 1 (field ''maxUnits'' kvs) = Inr (pi_maxUnits i)"
    "parse_units (pi_sourceSnapshotId i) (field ''units'' kvs) = Inr (pi_units i)"
    "pi_maxUnits i \<le> RECORD_UNIT_MAX_COUNT" "int (length (pi_units i)) \<le> pi_maxUnits i"
    "pi_schemaVersion i = RECORD_UNIT_SCHEMA_VERSION"
  using assms
  by (simp only: parse_planning_input_def and_then_Inr ensure_Inr sum.inject)
    (elim exE conjE, hypsubst, simp only: planning_input.select_convs)

lemma parse_planning_input_well_formed:
  assumes "parse_planning_input h v = Inr i"
  shows "well_formed_planning_input i"
proof -
  from assms obtain kvs where
    ap: "parse_declared_auto_policy h (field ''autoPolicy'' kvs) (pi_route i) = Inr (pi_autoPolicy i)"
    and b: "parse_budgets (field ''budgets'' kvs) = Inr (pi_budgets i)"
    and m: "parse_safe_integer 1 (field ''maxUnits'' kvs) = Inr (pi_maxUnits i)"
    and us: "parse_units (pi_sourceSnapshotId i) (field ''units'' kvs) = Inr (pi_units i)"
    and lim: "pi_maxUnits i \<le> RECORD_UNIT_MAX_COUNT" "int (length (pi_units i)) \<le> pi_maxUnits i"
    and sv: "pi_schemaVersion i = RECORD_UNIT_SCHEMA_VERSION"
    by (rule parse_planning_input_parts)
  show ?thesis
    using parse_declared_auto_policy_None [OF ap] parse_budgets_well_formed [OF b]
      parse_safe_integer_Inr [OF m] parse_units_well_formed [OF us] lim sv
    by (auto simp: well_formed_planning_input_def)
qed

lemma parse_declared_auto_policy_authorized:
  assumes "parse_declared_auto_policy h v r = Inr p"
  shows "assert_declared_route_policy h r p = Inr ()"
  using assms
  by (auto simp: parse_declared_auto_policy_def assert_declared_route_policy_def result_simps split: if_splits)

end
