(* ===== verification/RuntimeTree.thy ===== *)
theory RuntimeTree
  imports UnitJson
begin

text \<open>
  The persistent search tree that holds the runtime of every unit
  (\<open>RecordUnitRuntimeNode\<close>, \<open>buildRuntimeTree\<close>, \<open>updateRuntimeNode\<close>, \<open>getRuntime\<close>,
  \<open>collectRuntimeKeys\<close>). Its order is the host's collation, which the code takes from
  \<open>localeCompare\<close>. The laws of the search hold when that collation is a strict order on all strings; a lookup
  in a built tree succeeds already when the collation is a comparator that tells the keys of the tree apart. ICU
  may call distinct keys equal, and the last section has such a collation.
\<close>

datatype 'v rtree = Tip | RNode string 'v "'v rtree" "'v rtree"

fun get_runtime :: "(string \<Rightarrow> string \<Rightarrow> int) \<Rightarrow> 'v rtree \<Rightarrow> string \<Rightarrow> 'v option" where
  "get_runtime lc Tip key = None"
| "get_runtime lc (RNode k v l r) key =
     (if key = k then Some v
      else if lc key k < 0 then get_runtime lc l key else get_runtime lc r key)"

fun update_runtime_node :: "(string \<Rightarrow> string \<Rightarrow> int) \<Rightarrow> 'v rtree \<Rightarrow> string \<Rightarrow> 'v \<Rightarrow> ('v rtree \<times> nat) res" where
  "update_runtime_node lc Tip key val = Inl UNKNOWN_UNIT"
| "update_runtime_node lc (RNode k v l r) key val =
     (if key = k then Inr (RNode k val l r, 1)
      else if lc key k < 0 then
        and_then (update_runtime_node lc l key val) (\<lambda>(t, copies). Inr (RNode k v t r, copies + 1))
      else
        and_then (update_runtime_node lc r key val) (\<lambda>(t, copies). Inr (RNode k v l t, copies + 1)))"

text \<open>
  \<open>build(start, end)\<close> over the sorted entries: the entry at \<open>floor((start + end) / 2)\<close> is the
  root. The slice \<open>[start, end)\<close> is passed as a list; relative to \<open>start\<close> that index is
  \<open>floor((2 * start + length) / 2) - start = length div 2\<close>.
\<close>

lemma half_length: "es \<noteq> [] \<Longrightarrow> length es div 2 < length es"
  by (cases es) auto

function build_slice :: "(string \<times> 'v) list \<Rightarrow> 'v rtree" where
  "build_slice es =
     (if es = [] then Tip
      else
        let m = length es div 2
        in RNode (fst (es ! m)) (snd (es ! m)) (build_slice (take m es)) (build_slice (drop (m + 1) es)))"
  by pat_completeness auto
termination
  by (relation "measure length") (auto dest: half_length)

declare build_slice.simps [simp del]

definition build_runtime_tree :: "(string \<Rightarrow> string \<Rightarrow> int) \<Rightarrow> (string \<times> 'v) list \<Rightarrow> 'v rtree" where
  "build_runtime_tree lc es = build_slice (sort_by (\<lambda>a b. lc (fst a) (fst b)) es)"

text \<open>The in-order walk with an explicit stack: descend left while pushing, pop, go right.\<close>

fun push_left :: "'v rtree \<Rightarrow> 'v rtree list \<Rightarrow> 'v rtree list" where
  "push_left Tip stack = stack"
| "push_left (RNode k v l r) stack = push_left l (RNode k v l r # stack)"

fun left_free :: "'v rtree \<Rightarrow> nat" where
  "left_free Tip = 0"
| "left_free (RNode k v l r) = Suc (size r)"

lemma size_push_left:
  "sum_list (map left_free (push_left t stack)) = size t + sum_list (map left_free stack)"
  by (induction t arbitrary: stack) auto

function walk_keys :: "'v rtree list \<Rightarrow> string list" where
  "walk_keys [] = []"
| "walk_keys (Tip # stack) = walk_keys stack"
| "walk_keys (RNode k v l r # stack) = k # walk_keys (push_left r stack)"
  by pat_completeness auto
termination
  by (relation "measures [\<lambda>s. sum_list (map left_free s), length]") (auto simp: size_push_left)

definition collect_runtime_keys :: "'v rtree \<Rightarrow> string list" where
  "collect_runtime_keys t = walk_keys (push_left t [])"

section \<open>Abstraction: the entries in order\<close>

fun entries :: "'v rtree \<Rightarrow> (string \<times> 'v) list" where
  "entries Tip = []"
| "entries (RNode k v l r) = entries l @ (k, v) # entries r"

abbreviation keys :: "'v rtree \<Rightarrow> string list" where
  "keys t \<equiv> map fst (entries t)"

definition ordered_tree :: "(string \<Rightarrow> string \<Rightarrow> int) \<Rightarrow> 'v rtree \<Rightarrow> bool" where
  "ordered_tree lc t \<longleftrightarrow> sorted_wrt (\<lambda>a b. lc a b < 0) (keys t)"

lemma walk_keys_push_left: "walk_keys (push_left t stack) = keys t @ walk_keys stack"
  by (induction t arbitrary: stack) auto

lemma collect_runtime_keys_eq: "collect_runtime_keys t = keys t"
  by (simp add: collect_runtime_keys_def walk_keys_push_left)

lemma entries_build_slice: "entries (build_slice es) = es"
proof (induction es rule: build_slice.induct)
  case (1 es)
  show ?case
  proof (cases "es = []")
    case True
    then show ?thesis by (simp add: build_slice.simps)
  next
    case False
    define m where "m = length es div 2"
    from False have m: "m < length es" by (simp add: m_def)
    have "entries (build_slice es) = take m es @ es ! m # drop (m + 1) es"
      using "1.IH" [OF False refl] False
      by (subst build_slice.simps) (simp add: Let_def m_def [symmetric])
    also have "\<dots> = es" using m by (simp add: id_take_nth_drop [symmetric])
    finally show ?thesis .
  qed
qed

lemma entries_build: "entries (build_runtime_tree lc es) = sort_by (\<lambda>a b. lc (fst a) (fst b)) es"
  by (simp add: build_runtime_tree_def entries_build_slice)

lemma set_keys_build: "set (keys (build_runtime_tree lc es)) = set (map fst es)"
  by (simp add: entries_build)

lemma length_keys_build: "length (keys (build_runtime_tree lc es)) = length es"
  by (simp add: entries_build)

text \<open>Whatever the comparison does, a lookup finds only entries.\<close>

lemma get_runtime_entry: "get_runtime lc t key = Some v \<Longrightarrow> (key, v) \<in> set (entries t)"
  by (induction t) (auto split: if_splits)

lemma get_runtime_cong:
  assumes "\<And>k. k \<in> set (keys t) \<Longrightarrow> lc key k = lc' key k"
  shows "get_runtime lc t key = get_runtime lc' t key"
  using assms by (induction t) auto

section \<open>Laws under a strict collation\<close>

locale collation = strict_comparator lc for lc :: "string \<Rightarrow> string \<Rightarrow> int"
begin

lemma lt_irrefl [simp]: "\<not> lc a a < 0"
  by (simp add: cmp_refl)

lemma lt_asym: "lc a b < 0 \<Longrightarrow> \<not> lc b a < 0"
  using less_swap [of b a] by linarith

lemma get_runtime_map_of:
  "ordered_tree lc t \<Longrightarrow> get_runtime lc t key = map_of (entries t) key"
proof (induction t)
  case Tip
  then show ?case by simp
next
  case (RNode k v l r)
  from RNode.prems have l: "ordered_tree lc l" and r: "ordered_tree lc r"
    and lk: "\<forall>a \<in> set (keys l). lc a k < 0" and kr: "\<forall>b \<in> set (keys r). lc k b < 0"
    by (auto simp: ordered_tree_def sorted_wrt_append)
  have none: "key \<notin> set (keys t) \<Longrightarrow> map_of (entries t) key = None" for t :: "'b rtree"
    by (simp add: map_of_eq_None_iff)
  have not_l: "key \<notin> set (keys l)" if "\<not> lc key k < 0" using lk that by blast
  have not_r: "key \<notin> set (keys r)" if "lc key k < 0" using kr that lt_asym by blast
  have k: "map_of (entries l) k = None"
    unfolding map_of_eq_None_iff using lk lt_irrefl by auto
  show ?case
    using RNode.IH(1) [OF l] RNode.IH(2) [OF r] none [OF not_l] none [OF not_r] k
    by (auto simp: map_add_def split: option.splits)
qed

lemma update_runtime_node_ok:
  assumes "ordered_tree lc t" "key \<in> set (keys t)"
  shows "\<exists>t' c. update_runtime_node lc t key val = Inr (t', c) \<and> keys t' = keys t \<and>
    entries t' = map (\<lambda>(k, v). (k, if k = key then val else v)) (entries t)"
  using assms
proof (induction t)
  case Tip
  then show ?case by simp
next
  case (RNode k v l r)
  from RNode.prems have l: "ordered_tree lc l" and r: "ordered_tree lc r"
    and lk: "\<forall>a \<in> set (keys l). lc a k < 0" and kr: "\<forall>b \<in> set (keys r). lc k b < 0"
    by (auto simp: ordered_tree_def sorted_wrt_append)
  have same: "map (\<lambda>(k, v). (k, if k = key then val else v)) es = es"
    if "key \<notin> set (map fst es)" for es
    using that by (intro map_idI) force
  consider (eq) "key = k" | (left) "key \<noteq> k" "lc key k < 0" | (right) "key \<noteq> k" "\<not> lc key k < 0"
    by blast
  then show ?case
  proof cases
    case eq
    have "key \<notin> set (keys l)" using eq lk lt_irrefl by blast
    moreover have "key \<notin> set (keys r)" using eq kr lt_irrefl by blast
    ultimately show ?thesis using eq same [of "entries l"] same [of "entries r"] by simp
  next
    case left
    then have nr: "key \<notin> set (keys r)" using kr lt_asym by blast
    with left RNode.prems(2) have "key \<in> set (keys l)" by auto
    from RNode.IH(1) [OF l this] obtain t' c where
      "update_runtime_node lc l key val = Inr (t', c)" "keys t' = keys l"
      "entries t' = map (\<lambda>(k, v). (k, if k = key then val else v)) (entries l)" by blast
    with left nr same [of "entries r"] show ?thesis by simp
  next
    case right
    then have nl: "key \<notin> set (keys l)" using lk by blast
    with right RNode.prems(2) have "key \<in> set (keys r)" by auto
    from RNode.IH(2) [OF r this] obtain t' c where
      "update_runtime_node lc r key val = Inr (t', c)" "keys t' = keys r"
      "entries t' = map (\<lambda>(k, v). (k, if k = key then val else v)) (entries r)" by blast
    with right nl same [of "entries l"] show ?thesis by simp
  qed
qed

lemma update_runtime_node_missing:
  "ordered_tree lc t \<Longrightarrow> key \<notin> set (keys t) \<Longrightarrow> update_runtime_node lc t key val = Inl UNKNOWN_UNIT"
  by (induction t) (auto simp: ordered_tree_def sorted_wrt_append)

lemma map_of_replace_at:
  "map_of (map (\<lambda>(k, v). (k, if k = key then val else v)) es) x =
    (if x = key then (if key \<in> set (map fst es) then Some val else None) else map_of es x)"
  by (induction es) (auto simp: rev_image_eqI)

lemma map_of_replace:
  "key \<in> set (map fst es) \<Longrightarrow>
    map_of (map (\<lambda>(k, v). (k, if k = key then val else v)) es) = (map_of es)(key \<mapsto> val)"
  unfolding fun_eq_iff map_of_replace_at by auto

lemma get_after_update:
  assumes t: "ordered_tree lc t" and up: "update_runtime_node lc t key val = Inr (t', c)"
  shows "get_runtime lc t' = (get_runtime lc t)(key \<mapsto> val) \<and> ordered_tree lc t' \<and> keys t' = keys t"
proof -
  have k: "key \<in> set (keys t)" using update_runtime_node_missing [OF t, of key val] up by fastforce
  from update_runtime_node_ok [OF t k, of val] up have
    ks: "keys t' = keys t" and es: "entries t' = map (\<lambda>(k, v). (k, if k = key then val else v)) (entries t)"
    by auto
  from ks t have t': "ordered_tree lc t'" by (simp add: ordered_tree_def)
  show ?thesis
    using get_runtime_map_of [OF t] get_runtime_map_of [OF t'] es ks t' map_of_replace [OF k, of val]
    by (auto simp: fun_eq_iff)
qed

lemma ordered_build:
  assumes "distinct (map fst es)"
  shows "ordered_tree lc (build_runtime_tree lc es)"
proof -
  let ?cmp = "\<lambda>a b. lc (fst a) (fst b)"
  have c: "comparator ?cmp" by (rule comparator_key) (rule comparator_axioms)
  have s: "sorted_wrt (\<lambda>a b. ?cmp a b \<le> 0) (sort_by ?cmp es)"
    by (rule comparator.sorted_sort_by [OF c])
  have d: "distinct (map fst (sort_by ?cmp es))"
    using assms by (metis distinct_map distinct_sort_by set_sort_by)
  have "sorted_wrt (\<lambda>a b. ?cmp a b < 0) xs"
    if "sorted_wrt (\<lambda>a b. ?cmp a b \<le> 0) xs" "distinct (map fst xs)" for xs :: "(string \<times> 'b) list"
    using that
  proof (induction xs)
    case (Cons x xs)
    then have "lc (fst x) (fst y) \<noteq> 0" if "y \<in> set xs" for y
      using that by (auto simp: image_iff)
    with Cons show ?case by (fastforce simp: order_le_less)
  qed simp
  from this [OF s d] show ?thesis
    by (simp add: ordered_tree_def entries_build sorted_wrt_map)
qed

lemma map_of_sort_by:
  assumes "distinct (map fst es)"
  shows "map_of (sort_by f es) = map_of es"
  using assms by (metis (mono_tags, lifting) distinct_map distinct_sort_by map_of_eqI map_of_inject_set set_sort_by)

lemma get_build:
  assumes "distinct (map fst es)"
  shows "get_runtime lc (build_runtime_tree lc es) = map_of es"
  using get_runtime_map_of [OF ordered_build [OF assms]] map_of_sort_by [OF assms]
  by (simp add: fun_eq_iff entries_build)

end

text \<open>The code-unit order is such a collation.\<close>

interpretation text_collation: collation compare_text
  by unfold_locales

section \<open>A collation that tells the keys of a tree apart\<close>

definition tells_apart :: "(string \<Rightarrow> string \<Rightarrow> int) \<Rightarrow> string set \<Rightarrow> bool" where
  "tells_apart lc S \<longleftrightarrow> comparator lc \<and> (\<forall>a \<in> S. \<forall>b \<in> S. lc a b = 0 \<longrightarrow> a = b)"

lemma collation_tells_apart: "collation lc \<Longrightarrow> tells_apart lc S"
  by (simp add: tells_apart_def collation_def strict_comparator_def strict_comparator_axioms_def)

text \<open>Ties outside the tree are broken by the code units: a strict order with the same comparisons on the keys.\<close>

lemma refined_collation:
  assumes "comparator lc"
  shows "collation (\<lambda>a b. or_else (lc a b) (compare_text a b))"
proof -
  have "comparator (\<lambda>a b. or_else (lc a b) (compare_text a b))"
    by (rule comparator_chain [OF assms text_order.comparator_axioms])
  then show ?thesis by (simp add: collation_def strict_comparator_def strict_comparator_axioms_def)
qed

lemma get_build_apart:
  assumes a: "tells_apart lc (set (map fst es))" and d: "distinct (map fst es)" and k: "k \<in> set (map fst es)"
  shows "get_runtime lc (build_runtime_tree lc es) k = map_of es k"
proof -
  let ?lc = "\<lambda>a b. or_else (lc a b) (compare_text a b)"
  have same: "lc x y = ?lc x y" if "x \<in> set (map fst es)" "y \<in> set (map fst es)" for x y
    using a that by (cases "lc x y = 0") (auto simp: tells_apart_def)
  have "build_runtime_tree lc es = build_runtime_tree ?lc es"
    unfolding build_runtime_tree_def by (rule arg_cong [OF sort_by_cong]) (rule same; simp)
  moreover have "get_runtime lc (build_runtime_tree ?lc es) k = get_runtime ?lc (build_runtime_tree ?lc es) k"
    by (rule get_runtime_cong) (use same k in \<open>simp only: set_keys_build\<close>)
  moreover have "get_runtime ?lc (build_runtime_tree ?lc es) k = map_of es k"
    using collation.get_build [OF refined_collation d, of lc] a by (simp add: tells_apart_def)
  ultimately show ?thesis by simp
qed

section \<open>A collation that identifies two keys\<close>

text \<open>
  ICU collation ignores some code points, so \<open>localeCompare\<close> may return 0 for distinct keys.
  A tree built with such a collation can hold a key that the lookup does not find.
\<close>

definition ignoring_compare :: "char \<Rightarrow> string \<Rightarrow> string \<Rightarrow> int" where
  "ignoring_compare c a b = compare_text (filter (\<lambda>x. x \<noteq> c) a) (filter (\<lambda>x. x \<noteq> c) b)"

lemma ignoring_compare_comparator: "comparator (ignoring_compare c)"
proof -
  have "comparator compare_text" by unfold_locales
  from comparator_key [OF this, of "filter (\<lambda>x. x \<noteq> c)"] show ?thesis
    by (simp add: ignoring_compare_def [abs_def])
qed

end
