(* ===== verification/UnitGraph.thy ===== *)
theory UnitGraph
  imports UnitTypes
begin

text \<open>
  The dependency graph of the units (memory-store/src/record-unit-engine.ts:
  \<open>assertInputGraph\<close>, \<open>assertSpecGraph\<close>, \<open>assertAcyclic\<close>, \<open>continuationPredecessors\<close>,
  \<open>deriveLayers\<close>, \<open>compareUnitIdentity\<close>). Both walks are Kahn's algorithm on a table of
  pending counts: \<open>assertAcyclic\<close> with a stack, \<open>deriveLayers\<close> one layer at a time. The
  tables are functions; every key the code reads is an id of the list it was built from.
\<close>

section \<open>Nodes, pending counts and followers\<close>

record node =
  nd_unitId :: string
  nd_dependencies :: "string list"

type_synonym counts = "string \<Rightarrow> int"

definition initial_pending :: "node list \<Rightarrow> counts" where
  "initial_pending ns =
     (\<lambda>u. case map_of (rev (map (\<lambda>n. (nd_unitId n, int (length (nd_dependencies n)))) ns)) u of
            None \<Rightarrow> 0 | Some c \<Rightarrow> c)"

text \<open>\<open>followers.get(d)\<close>: one entry per dependency occurrence, in the order of the list.\<close>

definition followers_of :: "node list \<Rightarrow> string \<Rightarrow> string list" where
  "followers_of ns d =
     concat (map (\<lambda>n. map (\<lambda>_. nd_unitId n) (filter (\<lambda>x. x = d) (nd_dependencies n))) ns)"

text \<open>The inner loop: decrement each follower, collect those that reach zero.\<close>

fun release_followers :: "counts \<Rightarrow> string list \<Rightarrow> counts \<times> string list" where
  "release_followers pending [] = (pending, [])"
| "release_followers pending (f # fs) =
     (let remaining = pending f - 1;
          (pending', freed) = release_followers (pending(f := remaining)) fs
      in (pending', if remaining = 0 then f # freed else freed))"

definition positive_ids :: "string list \<Rightarrow> counts \<Rightarrow> string set" where
  "positive_ids ids pending = {u \<in> set ids. 0 < pending u}"

lemma finite_positive_ids [simp]: "finite (positive_ids ids pending)"
  by (simp add: positive_ids_def)

text \<open>Releasing never makes a count positive, and each freed id leaves the positive ones.\<close>

lemma release_followers_card:
  assumes "set fs \<subseteq> set ids"
  shows "card (positive_ids ids (fst (release_followers pending fs)))
       + length (snd (release_followers pending fs)) \<le> card (positive_ids ids pending)"
  using assms
proof (induction fs arbitrary: pending)
  case Nil
  then show ?case by simp
next
  case (Cons f fs)
  let ?p = "pending(f := pending f - 1)"
  from Cons have ih: "card (positive_ids ids (fst (release_followers ?p fs)))
      + length (snd (release_followers ?p fs)) \<le> card (positive_ids ids ?p)" by simp
  have sub: "positive_ids ids ?p \<subseteq> positive_ids ids pending"
    by (auto simp: positive_ids_def split: if_splits)
  show ?case
  proof (cases "pending f = 1")
    case True
    with Cons.prems have "f \<in> positive_ids ids pending" by (simp add: positive_ids_def)
    moreover have "positive_ids ids ?p \<subseteq> positive_ids ids pending - {f}"
      using sub True by (auto simp: positive_ids_def)
    ultimately have "card (positive_ids ids ?p) < card (positive_ids ids pending)"
      by (intro psubset_card_mono) auto
    with ih True show ?thesis by (simp add: case_prod_beta Let_def)
  next
    case False
    have "card (positive_ids ids ?p) \<le> card (positive_ids ids pending)"
      by (rule card_mono [OF finite_positive_ids sub])
    with ih False show ?thesis by (simp add: case_prod_beta Let_def)
  qed
qed

lemma set_followers_of: "set (followers_of ns d) \<subseteq> set (map nd_unitId ns)"
  by (auto simp: followers_of_def)

section \<open>assertAcyclic: a stack of ready units\<close>

text \<open>\<open>ready\<close> is kept with its top first; the result is the number of processed units.\<close>

function drain_ready :: "node list \<Rightarrow> counts \<Rightarrow> string list \<Rightarrow> nat" where
  "drain_ready ns pending [] = 0"
| "drain_ready ns pending (u # ready) =
     (let (pending', freed) = release_followers pending (followers_of ns u)
      in Suc (drain_ready ns pending' (rev freed @ ready)))"
  by pat_completeness auto
termination
proof (relation "measure (\<lambda>(ns, pending, ready). card (positive_ids (map nd_unitId ns) pending) + length ready)")
  fix ns pending u ready x pending' freed
  assume "x = release_followers pending (followers_of ns u)" "(pending', freed) = x"
  then have e: "release_followers pending (followers_of ns u) = (pending', freed)" by simp
  have "card (positive_ids (map nd_unitId ns) pending') + length freed
      \<le> card (positive_ids (map nd_unitId ns) pending)"
    using release_followers_card [OF set_followers_of [of ns u], of pending] e by simp
  then show "((ns, pending', rev freed @ ready), ns, pending, u # ready)
      \<in> measure (\<lambda>(ns, pending, ready). card (positive_ids (map nd_unitId ns) pending) + length ready)"
    by simp
qed simp

definition initially_ready :: "node list \<Rightarrow> string list" where
  "initially_ready ns = map nd_unitId (filter (\<lambda>n. initial_pending ns (nd_unitId n) = 0) ns)"

definition assert_acyclic :: "node list \<Rightarrow> unit res" where
  "assert_acyclic ns =
     ensure DEPENDENCY_CYCLE
       (drain_ready ns (initial_pending ns) (rev (initially_ready ns)) = length ns)"

section \<open>Unit order and continuation chains\<close>

record link =
  lk_unitId :: string
  lk_composeOrder :: int
  lk_childOrder :: int
  lk_range :: unit_range
  lk_continuationKey :: "string option"
  lk_dependencies :: "string list"

definition spec_node :: "unit_spec \<Rightarrow> node" where
  "spec_node s = \<lparr> nd_unitId = unitId s, nd_dependencies = dependencies s \<rparr>"

lemma spec_node_simps [simp]:
  "nd_unitId (spec_node s) = unitId s" "nd_dependencies (spec_node s) = dependencies s"
  "nd_unitId \<circ> spec_node = unitId"
  by (auto simp: spec_node_def)

definition spec_link :: "unit_spec \<Rightarrow> link" where
  "spec_link s =
     \<lparr> lk_unitId = unitId s, lk_composeOrder = composeOrder s, lk_childOrder = childOrder s,
       lk_range = sp_range s, lk_continuationKey = continuationKey s, lk_dependencies = dependencies s \<rparr>"

definition compare_unit_identity :: "host \<Rightarrow> link \<Rightarrow> link \<Rightarrow> int" where
  "compare_unit_identity h l r =
     or_else (lk_composeOrder l - lk_composeOrder r)
    (or_else (lk_childOrder l - lk_childOrder r)
    (or_else (range_start (lk_range l) - range_start (lk_range r))
    (or_else (range_end (lk_range l) - range_end (lk_range r))
      (locale_compare h (lk_unitId l) (lk_unitId r)))))"

lemma compare_unit_identity_comparator:
  "comparator (locale_compare h) \<Longrightarrow> comparator (compare_unit_identity h)"
  unfolding compare_unit_identity_def [abs_def]
  by ((rule comparator_chain, rule comparator_diff)+, rule comparator_key)

text \<open>A continuation key that is null or empty is falsy and starts no chain.\<close>

definition truthy_text :: "string option \<Rightarrow> bool" where
  "truthy_text t = (t \<noteq> None \<and> t \<noteq> Some [])"

definition continuation_groups :: "link list \<Rightarrow> (string \<times> link list) list" where
  "continuation_groups ls =
     map (\<lambda>k. (k, filter (\<lambda>l. lk_continuationKey l = Some k) ls))
       (unique_list (map (\<lambda>l. the (lk_continuationKey l)) (filter (\<lambda>l. truthy_text (lk_continuationKey l)) ls)))"

fun chain_pairs :: "link list \<Rightarrow> (string \<times> string) list res" where
  "chain_pairs (a # b # ls) =
     (if lk_unitId a \<notin> set (lk_dependencies b) then Inl CONTINUATION_PARALLEL
      else and_then (chain_pairs (b # ls)) (\<lambda>ps. Inr ((lk_unitId b, lk_unitId a) # ps)))"
| "chain_pairs _ = Inr []"

text \<open>The map from a unit to its predecessor in the chain; a later entry wins, as \<open>Map.set\<close> does.\<close>

definition continuation_predecessors :: "host \<Rightarrow> link list \<Rightarrow> (string \<Rightarrow> string option) res" where
  "continuation_predecessors h ls =
     and_then (map_ok (\<lambda>(k, g). chain_pairs (sort_by (compare_unit_identity h) g)) (continuation_groups ls))
       (\<lambda>pss. Inr (map_of (rev (concat pss))))"

section \<open>Graph checks\<close>

definition assert_input_graph :: "host \<Rightarrow> spec_input list \<Rightarrow> unit res" where
  "assert_input_graph h us =
     (let ids = map in_unitId us in
      and_then (ensure DUPLICATE_UNIT (length (unique_list ids) = length us)) (\<lambda>_.
      and_then (each_ok (\<lambda>u. each_ok (\<lambda>d.
          if d \<notin> set ids then Inl INVALID_DEPENDENCY
          else if d = in_unitId u then Inl SELF_DEPENDENCY else Inr ()) (in_dependencies u)) us) (\<lambda>_.
      and_then (assert_acyclic (map (\<lambda>u. \<lparr> nd_unitId = in_unitId u, nd_dependencies = in_dependencies u \<rparr>) us)) (\<lambda>_.
      and_then (continuation_predecessors h (map (\<lambda>u.
          \<lparr> lk_unitId = in_unitId u, lk_composeOrder = in_composeOrder u, lk_childOrder = 0,
            lk_range = in_range u, lk_continuationKey = in_continuationKey u,
            lk_dependencies = in_dependencies u \<rparr>) us)) (\<lambda>_.
        Inr ())))))"

definition active_specs :: "unit_spec list \<Rightarrow> unit_spec list" where
  "active_specs specs = filter active specs"

definition assert_spec_graph :: "host \<Rightarrow> unit_spec list \<Rightarrow> unit res" where
  "assert_spec_graph h specs =
     (let act = active_specs specs; ids = set (map unitId act) in
      and_then (each_ok (\<lambda>s. each_ok (\<lambda>d. ensure INVALID_DEPENDENCY (d \<in> ids)) (dependencies s)) act) (\<lambda>_.
      and_then (assert_acyclic (map spec_node act)) (\<lambda>_.
      and_then (continuation_predecessors h (map spec_link act)) (\<lambda>_. Inr ()))))"

section \<open>deriveLayers\<close>

text \<open>One layer: release the followers of each of its units in turn.\<close>

fun release_layer :: "node list \<Rightarrow> counts \<Rightarrow> string list \<Rightarrow> counts \<times> string list" where
  "release_layer ns pending [] = (pending, [])"
| "release_layer ns pending (u # us) =
     (let (pending', freed) = release_followers pending (followers_of ns u);
          (pending'', freed') = release_layer ns pending' us
      in (pending'', freed @ freed'))"

lemma release_layer_card:
  "card (positive_ids (map nd_unitId ns) (fst (release_layer ns pending us)))
     + length (snd (release_layer ns pending us)) \<le> card (positive_ids (map nd_unitId ns) pending)"
proof (induction us arbitrary: pending)
  case Nil
  then show ?case by simp
next
  case (Cons u us)
  show ?case
    using release_followers_card [OF set_followers_of [of ns u], of pending]
      Cons.IH [of "fst (release_followers pending (followers_of ns u))"]
    by (simp add: case_prod_beta Let_def)
qed

text \<open>
  The loop over layers: \<open>byId.get\<close> turns the freed ids back into units (the last unit with an
  id wins, as in \<open>new Map\<close>), and \<open>ready.sort(compareUnitIdentity)\<close> orders the next layer.
\<close>

definition by_id :: "unit_spec list \<Rightarrow> string \<Rightarrow> unit_spec option" where
  "by_id act u = find (\<lambda>s. unitId s = u) (rev act)"

definition specs_of :: "unit_spec list \<Rightarrow> string list \<Rightarrow> unit_spec list" where
  "specs_of act ids = concat (map (\<lambda>u. case by_id act u of None \<Rightarrow> [] | Some s \<Rightarrow> [s]) ids)"

definition sort_specs :: "host \<Rightarrow> unit_spec list \<Rightarrow> unit_spec list" where
  "sort_specs h = sort_by (\<lambda>a b. compare_unit_identity h (spec_link a) (spec_link b))"

lemma length_specs_of: "length (specs_of act ids) \<le> length ids"
  by (induction ids) (auto simp: specs_of_def split: option.splits)

lemma length_sort_specs [simp]: "length (sort_specs h ss) = length ss"
  by (simp add: sort_specs_def)

function layer_loop :: "host \<Rightarrow> unit_spec list \<Rightarrow> counts \<Rightarrow> unit_spec list \<Rightarrow> string list list" where
  "layer_loop h act pending ready =
     (if ready = [] then []
      else
        let (pending', freed) = release_layer (map spec_node act) pending (map unitId ready)
        in map unitId ready # layer_loop h act pending' (sort_specs h (specs_of act freed)))"
  by pat_completeness auto
termination
proof (relation "measure (\<lambda>(h, act, pending, ready). card (positive_ids (map unitId act) pending) + length ready)")
  fix h act pending and ready :: "unit_spec list" and x pending' freed
  assume ne: "ready \<noteq> []" and "x = release_layer (map spec_node act) pending (map unitId ready)"
    "(pending', freed) = x"
  then have e: "release_layer (map spec_node act) pending (map unitId ready) = (pending', freed)" by simp
  have "card (positive_ids (map unitId act) pending') + length freed
      \<le> card (positive_ids (map unitId act) pending)"
    using release_layer_card [of "map spec_node act" pending "map unitId ready"] e by simp
  moreover have "0 < length ready" using ne by simp
  moreover note length_specs_of [of act freed]
  ultimately have "card (positive_ids (map unitId act) pending') + length (specs_of act freed)
      < card (positive_ids (map unitId act) pending) + length ready"
    by linarith
  then show "((h, act, pending', sort_specs h (specs_of act freed)), h, act, pending, ready)
      \<in> measure (\<lambda>(h, act, pending, ready). card (positive_ids (map unitId act) pending) + length ready)"
    by simp
qed simp

declare layer_loop.simps [simp del]

fun number_layers :: "nat \<Rightarrow> string list list \<Rightarrow> unit_layer list" where
  "number_layers n [] = []"
| "number_layers n (us # uss) = \<lparr> layer = n, unitIds = us \<rparr> # number_layers (Suc n) uss"

definition derive_layers :: "host \<Rightarrow> unit_spec list \<Rightarrow> unit_layer list res" where
  "derive_layers h specs =
     (let act = active_specs specs;
          pending = initial_pending (map spec_node act);
          ready = sort_specs h (filter (\<lambda>s. pending (unitId s) = 0) act);
          layers = layer_loop h act pending ready
      in if sum_list (map length layers) \<noteq> length act then Inl DEPENDENCY_CYCLE
         else Inr (number_layers 0 layers))"

end
