(* ===== verification/UnitLayers.thy ===== *)
theory UnitLayers
  imports UnitGraph
begin

text \<open>
  Correctness of the two walks of UnitGraph. The invariant of Kahn's algorithm: with \<open>D\<close> the
  processed ids, every pending count is the number of dependency occurrences outside \<open>D\<close>, and
  the ready list holds exactly the unprocessed ids whose count is zero.
\<close>

section \<open>What releasing does to the counts\<close>

lemma release_followers_fst: "fst (release_followers p fs) u = p u - int (count_list fs u)"
  by (induction fs arbitrary: p) (auto simp: case_prod_beta Let_def)

lemma release_followers_snd:
  "u \<in> set (snd (release_followers p fs)) \<longleftrightarrow> 0 < p u \<and> p u \<le> int (count_list fs u)"
proof (induction fs arbitrary: p)
  case Nil
  then show ?case by simp
next
  case (Cons f fs)
  have "u \<in> set (snd (release_followers p (f # fs))) \<longleftrightarrow>
      p f = 1 \<and> u = f \<or> u \<in> set (snd (release_followers (p(f := p f - 1)) fs))"
    by (auto simp: case_prod_beta Let_def)
  then show ?case unfolding Cons.IH by (cases "u = f") auto
qed

lemma release_followers_distinct: "distinct (snd (release_followers p fs))"
proof (induction fs arbitrary: p)
  case Nil
  then show ?case by simp
next
  case (Cons f fs)
  have "f \<notin> set (snd (release_followers (p(f := p f - 1)) fs))" if "p f - 1 = 0"
    using that by (simp add: release_followers_snd)
  with Cons show ?case by (auto simp: case_prod_beta Let_def)
qed

lemma release_followers_append:
  "release_followers p (fs @ gs) =
     (let (p', a) = release_followers p fs; (p'', b) = release_followers p' gs in (p'', a @ b))"
  by (induction fs arbitrary: p) (auto simp: case_prod_beta Let_def)

lemma release_layer_eq: "release_layer ns p us = release_followers p (concat (map (followers_of ns) us))"
  by (induction us arbitrary: p) (auto simp: release_followers_append case_prod_beta Let_def)

lemma count_list_concat: "count_list (concat xss) x = sum_list (map (\<lambda>xs. count_list xs x) xss)"
  by (induction xss) (auto simp: count_list_append)

lemma count_list_const: "count_list (map (\<lambda>_. a) xs) b = (if a = b then length xs else 0)"
  by (induction xs) auto

lemma length_filter_eq_count: "length (filter (\<lambda>x. x = d) xs) = count_list xs d"
  by (induction xs) auto

lemma count_followers_of:
  assumes "distinct (map nd_unitId ns)" "n \<in> set ns"
  shows "count_list (followers_of ns d) (nd_unitId n) = count_list (nd_dependencies n) d"
  using assms
proof (induction ns)
  case Nil
  then show ?case by simp
next
  case (Cons m ns)
  have other: "count_list (followers_of ns d) (nd_unitId m) = 0"
  proof -
    have "nd_unitId m \<notin> set (followers_of ns d)"
      using Cons.prems(1) set_followers_of [of ns d] by auto
    then show ?thesis by (simp add: count_list_0_iff)
  qed
  show ?case
  proof (cases "n = m")
    case True
    with other show ?thesis
      by (simp add: followers_of_def count_list_append count_list_const length_filter_eq_count)
  next
    case False
    with Cons.prems have n: "n \<in> set ns" and "nd_unitId m \<noteq> nd_unitId n" by auto
    with Cons show ?thesis
      by (simp add: followers_of_def count_list_append count_list_const)
  qed
qed

lemma count_layer:
  assumes "distinct (map nd_unitId ns)" "n \<in> set ns" "distinct us"
  shows "count_list (concat (map (followers_of ns) us)) (nd_unitId n)
       = length (filter (\<lambda>d. d \<in> set us) (nd_dependencies n))"
proof -
  have "count_list (concat (map (followers_of ns) us)) (nd_unitId n)
      = sum_list (map (\<lambda>d. count_list (nd_dependencies n) d) us)"
    using assms by (simp add: count_list_concat comp_def count_followers_of)
  also have "\<dots> = length (filter (\<lambda>d. d \<in> set us) (nd_dependencies n))"
    using assms(3)
  proof (induction us)
    case Nil
    then show ?case by simp
  next
    case (Cons u us)
    have "length (filter (\<lambda>d. d = u \<or> d \<in> set us) xs)
        = count_list xs u + length (filter (\<lambda>d. d \<in> set us) xs)" for xs
      using Cons.prems by (induction xs) auto
    with Cons show ?case by simp
  qed
  finally show ?thesis .
qed

section \<open>The invariant\<close>

definition ids :: "node list \<Rightarrow> string set" where
  "ids ns = set (map nd_unitId ns)"

definition kahn_inv :: "node list \<Rightarrow> string set \<Rightarrow> counts \<Rightarrow> string list \<Rightarrow> bool" where
  "kahn_inv ns D p R \<longleftrightarrow>
     D \<subseteq> ids ns \<and>
     (\<forall>n \<in> set ns. nd_unitId n \<in> D \<longrightarrow> set (nd_dependencies n) \<subseteq> D) \<and>
     (\<forall>n \<in> set ns. p (nd_unitId n) = int (length (filter (\<lambda>d. d \<notin> D) (nd_dependencies n)))) \<and>
     distinct R \<and>
     set R = {u \<in> ids ns. u \<notin> D \<and> p u = 0}"

definition topological_rank :: "node list \<Rightarrow> string set \<Rightarrow> (string \<Rightarrow> nat) \<Rightarrow> bool" where
  "topological_rank ns D rank \<longleftrightarrow>
     (\<forall>n \<in> set ns. nd_unitId n \<in> D \<longrightarrow>
        (\<forall>d \<in> set (nd_dependencies n). d \<in> D \<and> rank d < rank (nd_unitId n)))"

lemma initial_pending_eq:
  assumes "distinct (map nd_unitId ns)" "n \<in> set ns"
  shows "initial_pending ns (nd_unitId n) = int (length (nd_dependencies n))"
proof -
  let ?f = "\<lambda>n. (nd_unitId n, int (length (nd_dependencies n)))"
  have "map fst (rev (map ?f ns)) = rev (map nd_unitId ns)"
    by (simp add: rev_map [symmetric] comp_def)
  then have "distinct (map fst (rev (map ?f ns)))" using assms(1) by simp
  moreover have "?f n \<in> set (rev (map ?f ns))" using assms(2) by auto
  ultimately have "map_of (rev (map ?f ns)) (nd_unitId n) = Some (int (length (nd_dependencies n)))"
    by (metis map_of_is_SomeI)
  then show ?thesis by (simp add: initial_pending_def)
qed

lemma kahn_inv_start:
  assumes d: "distinct (map nd_unitId ns)" and R: "distinct R" "set R = set (initially_ready ns)"
  shows "kahn_inv ns {} (initial_pending ns) R"
  using initial_pending_eq [OF d] R
  by (auto simp: kahn_inv_def ids_def initially_ready_def)

lemma kahn_step:
  assumes d: "distinct (map nd_unitId ns)" and inv: "kahn_inv ns D p R"
    and us: "distinct us" "set us \<subseteq> set R"
    and rel: "release_followers p (concat (map (followers_of ns) us)) = (p', freed)"
    and R': "distinct R'" "set R' = set freed \<union> (set R - set us)"
  shows "kahn_inv ns (D \<union> set us) p' R'"
proof -
  have p': "p' u = p u - int (count_list (concat (map (followers_of ns) us)) u)" for u
    using release_followers_fst [of p "concat (map (followers_of ns) us)" u] rel by simp
  have freed: "u \<in> set freed \<longleftrightarrow> 0 < p u \<and> p' u \<le> 0" for u
    using release_followers_snd [of u p "concat (map (followers_of ns) us)"] rel p' [of u] by auto
  have zero: "set (nd_dependencies n) \<subseteq> D" if "n \<in> set ns" "nd_unitId n \<in> set us" for n
  proof -
    from that us inv have "p (nd_unitId n) = 0" by (auto simp: kahn_inv_def)
    with that(1) inv have "length (filter (\<lambda>d. d \<notin> D) (nd_dependencies n)) = 0"
      by (auto simp: kahn_inv_def)
    then show ?thesis by (auto simp: filter_empty_conv)
  qed
  have disj: "set us \<inter> D = {}" using us inv by (auto simp: kahn_inv_def)
  have cnt: "p' (nd_unitId n) = int (length (filter (\<lambda>d. d \<notin> D \<union> set us) (nd_dependencies n)))"
    if n: "n \<in> set ns" for n
  proof -
    have split: "length (filter (\<lambda>d. d \<notin> D) xs)
        = length (filter (\<lambda>d. d \<notin> D \<union> set us) xs) + length (filter (\<lambda>d. d \<in> set us) xs)" for xs
      using disj by (induction xs) auto
    have "p (nd_unitId n) = int (length (filter (\<lambda>d. d \<notin> D) (nd_dependencies n)))"
      using inv n by (auto simp: kahn_inv_def)
    then show ?thesis
      using p' [of "nd_unitId n"] count_layer [OF d n us(1)] split [of "nd_dependencies n"] by simp
  qed
  have nonneg: "0 \<le> p u" if "u \<in> ids ns" for u
    using that inv by (auto simp: kahn_inv_def ids_def)
  have done_zero: "p u = 0" if "u \<in> ids ns" "u \<in> D" for u
  proof -
    from that(1) obtain n where n: "n \<in> set ns" "u = nd_unitId n" by (auto simp: ids_def)
    with that(2) inv have "set (nd_dependencies n) \<subseteq> D" by (auto simp: kahn_inv_def)
    then have "filter (\<lambda>d. d \<notin> D) (nd_dependencies n) = []" by (auto simp: filter_empty_conv)
    with n inv show ?thesis by (auto simp: kahn_inv_def)
  qed
  have nonneg': "0 \<le> p' u" if "u \<in> ids ns" for u
    using that cnt by (auto simp: ids_def)
  have mono: "p' u \<le> p u" for u using p' [of u] by simp
  have freed_ids: "u \<in> ids ns" if "u \<in> set freed" for u
  proof -
    from that have "count_list (concat (map (followers_of ns) us)) u \<noteq> 0"
      using freed [of u] p' [of u] by auto
    then have "u \<in> set (concat (map (followers_of ns) us))" by (simp add: count_list_0_iff)
    then obtain v where "u \<in> set (followers_of ns v)" by auto
    with set_followers_of [of ns v] show ?thesis by (auto simp: ids_def)
  qed
  have ready: "set R' = {u \<in> ids ns. u \<notin> D \<union> set us \<and> p' u = 0}"
  proof (rule set_eqI)
    fix u
    have R: "u \<in> set R \<longleftrightarrow> u \<in> ids ns \<and> u \<notin> D \<and> p u = 0" using inv by (auto simp: kahn_inv_def)
    show "u \<in> set R' \<longleftrightarrow> u \<in> {u \<in> ids ns. u \<notin> D \<union> set us \<and> p' u = 0}"
    proof (cases "u \<in> ids ns")
      case True
      have us0: "u \<in> set us \<Longrightarrow> p u = 0" using us(2) R by auto
      have m: "u \<in> set R' \<longleftrightarrow> u \<in> set freed \<or> u \<in> set R \<and> u \<notin> set us" by (simp add: R'(2))
      show ?thesis
      proof (cases "p u = 0")
        case zero: True
        then have "p' u = 0" using mono [of u] nonneg' [OF True] by linarith
        then show ?thesis using m R freed [of u] zero True by simp
      next
        case pos: False
        then have "u \<notin> D" "u \<notin> set us" "0 < p u"
          using done_zero [OF True] us0 nonneg [OF True] by auto
        moreover have "p' u \<le> 0 \<longleftrightarrow> p' u = 0" using nonneg' [OF True] by linarith
        ultimately show ?thesis using m R freed [of u] pos True by simp
      qed
    next
      case False
      then show ?thesis using R' R freed_ids by auto
    qed
  qed
  have sub: "D \<union> set us \<subseteq> ids ns" using inv us(2) by (auto simp: kahn_inv_def)
  have closed: "nd_unitId n \<in> D \<union> set us \<Longrightarrow> set (nd_dependencies n) \<subseteq> D \<union> set us"
    if "n \<in> set ns" for n
    using zero [OF that] inv that by (auto simp: kahn_inv_def)
  show ?thesis
    unfolding kahn_inv_def
    using sub R'(1) ready closed cnt by (intro conjI ballI impI) simp_all
qed

lemma freed_disjoint:
  assumes inv: "kahn_inv ns D p R"
    and rel: "release_followers p fs = (p', freed)"
  shows "set freed \<inter> set R = {}" "distinct freed"
proof -
  have "u \<notin> set R" if "u \<in> set freed" for u
    using that release_followers_snd [of u p fs] rel inv by (auto simp: kahn_inv_def)
  then show "set freed \<inter> set R = {}" by blast
  show "distinct freed" using release_followers_distinct [of p fs] rel by simp
qed

text \<open>Nothing is left over when the ready list is empty and the graph has a rank.\<close>

lemma kahn_finished:
  assumes inv: "kahn_inv ns D p []" and rank: "topological_rank ns (ids ns) rank"
  shows "D = ids ns"
proof (rule ccontr)
  assume "D \<noteq> ids ns"
  then have "ids ns - D \<noteq> {}" using inv by (auto simp: kahn_inv_def)
  then obtain w where "w \<in> ids ns - D" by blast
  from ex_has_least_nat [where P = "\<lambda>v. v \<in> ids ns - D" and m = rank, OF this]
  obtain u where u: "u \<in> ids ns - D" and least: "\<forall>v. v \<in> ids ns - D \<longrightarrow> rank u \<le> rank v"
    by blast
  from u obtain n where n: "n \<in> set ns" "u = nd_unitId n" by (auto simp: ids_def)
  have "d \<in> D" if "d \<in> set (nd_dependencies n)" for d
  proof -
    have "d \<in> ids ns" "rank d < rank u" using rank n that u by (auto simp: topological_rank_def)
    then show ?thesis using least by (meson Diff_iff linorder_not_le)
  qed
  then have "filter (\<lambda>d. d \<notin> D) (nd_dependencies n) = []" by (auto simp: filter_empty_conv)
  then have "p u = 0" using n inv by (auto simp: kahn_inv_def)
  with u inv show False by (auto simp: kahn_inv_def)
qed

lemma rank_extend:
  assumes inv: "kahn_inv ns D p R" and rank: "topological_rank ns D rank"
    and us: "set us \<subseteq> set R"
  shows "\<exists>rank'. topological_rank ns (D \<union> set us) rank'"
proof -
  have fin: "finite D" using inv by (auto simp: kahn_inv_def ids_def intro: finite_subset)
  define b where "b = Suc (Max (insert 0 (rank ` D)))"
  have below: "rank d < b" if "d \<in> D" for d
    unfolding b_def using fin that by (simp add: less_Suc_eq_le)
  define rank' where "rank' u = (if u \<in> set us then b else rank u)" for u
  have disj: "set us \<inter> D = {}" using us inv by (auto simp: kahn_inv_def)
  have "topological_rank ns (D \<union> set us) rank'"
    unfolding topological_rank_def
  proof (intro ballI impI)
    fix n d
    assume n: "n \<in> set ns" "nd_unitId n \<in> D \<union> set us" and d: "d \<in> set (nd_dependencies n)"
    show "d \<in> D \<union> set us \<and> rank' d < rank' (nd_unitId n)"
    proof (cases "nd_unitId n \<in> set us")
      case True
      then have "p (nd_unitId n) = 0" using us inv by (auto simp: kahn_inv_def)
      then have "filter (\<lambda>d. d \<notin> D) (nd_dependencies n) = []" using inv n by (auto simp: kahn_inv_def)
      then have "d \<in> D" using d by (auto simp: filter_empty_conv)
      then show ?thesis using True below disj by (auto simp: rank'_def)
    next
      case False
      then have "nd_unitId n \<in> D" using n by simp
      then have "d \<in> D" "rank d < rank (nd_unitId n)"
        using rank n d by (auto simp: topological_rank_def)
      then show ?thesis using False disj by (auto simp: rank'_def)
    qed
  qed
  then show ?thesis by blast
qed

section \<open>assertAcyclic\<close>

lemma drain_ready_run:
  assumes d: "distinct (map nd_unitId ns)"
  shows "kahn_inv ns D p R \<Longrightarrow> \<exists>rank. topological_rank ns D rank \<Longrightarrow>
    \<exists>D' p'. kahn_inv ns D' p' [] \<and> card D' = card D + drain_ready ns p R \<and> (\<exists>rank. topological_rank ns D' rank)"
  using d
proof (induction ns p R arbitrary: D rule: drain_ready.induct)
  case (1 ns p)
  then show ?case by auto
next
  case (2 ns p u R)
  obtain p' freed where rel: "release_followers p (followers_of ns u) = (p', freed)"
    by (cases "release_followers p (followers_of ns u)")
  have rel': "release_followers p (concat (map (followers_of ns) [u])) = (p', freed)" using rel by simp
  note dis = freed_disjoint [OF "2.prems"(1) rel]
  have u: "u \<notin> D" "u \<notin> set R" "distinct R" using "2.prems"(1) by (auto simp: kahn_inv_def)
  have inv': "kahn_inv ns (D \<union> set [u]) p' (rev freed @ R)"
    by (rule kahn_step [OF "2.prems"(3) "2.prems"(1) _ _ rel']) (use dis u in auto)
  from "2.prems"(2) obtain rank where "topological_rank ns D rank" by blast
  from rank_extend [OF "2.prems"(1) this, of "[u]"]
  have rk: "\<exists>rank. topological_rank ns (D \<union> set [u]) rank" by simp
  from "2.IH" [OF rel [symmetric] refl inv' rk "2.prems"(3)] obtain D' p''
    where "kahn_inv ns D' p'' []" "card D' = card (D \<union> set [u]) + drain_ready ns p' (rev freed @ R)"
      "\<exists>rank. topological_rank ns D' rank" by blast
  moreover have "finite D" using "2.prems"(1) by (auto simp: kahn_inv_def ids_def intro: finite_subset)
  ultimately show ?case using u rel by (auto simp: Let_def)
qed

lemma assert_acyclic_iff:
  assumes d: "distinct (map nd_unitId ns)"
  shows "assert_acyclic ns = Inr () \<longleftrightarrow> (\<exists>rank. topological_rank ns (ids ns) rank)"
proof -
  have "distinct (initially_ready ns)" using d by (simp add: initially_ready_def distinct_map_filter)
  then have "kahn_inv ns {} (initial_pending ns) (rev (initially_ready ns))"
    by (intro kahn_inv_start [OF d]) auto
  moreover have "\<exists>rank. topological_rank ns {} rank" by (auto simp: topological_rank_def)
  ultimately obtain D p where D: "kahn_inv ns D p []"
    "card D = drain_ready ns (initial_pending ns) (rev (initially_ready ns))"
    "\<exists>rank. topological_rank ns D rank"
    using drain_ready_run [OF d] by fastforce
  have card: "card (ids ns) = length ns" using d by (metis distinct_card ids_def length_map)
  have sub: "D \<subseteq> ids ns" "finite (ids ns)" using D(1) by (auto simp: kahn_inv_def ids_def)
  have "assert_acyclic ns = Inr () \<longleftrightarrow> card D = card (ids ns)"
    using D(2) card by (auto simp: assert_acyclic_def result_simps)
  also have "\<dots> \<longleftrightarrow> D = ids ns" using sub by (metis card_subset_eq)
  finally show ?thesis using D(1,3) kahn_finished by blast
qed

section \<open>deriveLayers\<close>

lemma by_id_Some:
  assumes "distinct (map unitId act)" "s \<in> set act"
  shows "by_id act (unitId s) = Some s"
proof -
  have "\<exists>t. by_id act (unitId s) = Some t"
    using assms(2) by (auto simp: by_id_def find_None_iff simp flip: not_None_eq)
  then obtain t where t: "by_id act (unitId s) = Some t" by blast
  then obtain i where "i < length (rev act)" "unitId (rev act ! i) = unitId s" "t = rev act ! i"
    unfolding by_id_def find_Some_iff by blast
  then have "t \<in> set act" "unitId t = unitId s" using nth_mem [of i "rev act"] by simp_all
  with assms have "t = s" by (metis distinct_map inj_onD)
  with t show ?thesis by simp
qed

lemma specs_of_ids:
  assumes "distinct (map unitId act)" "set us \<subseteq> unitId ` set act"
  shows "map unitId (specs_of act us) = us \<and> set (specs_of act us) \<subseteq> set act"
  using assms(2)
proof (induction us)
  case Nil
  then show ?case by (simp add: specs_of_def)
next
  case (Cons u us)
  then obtain s where s: "s \<in> set act" "u = unitId s" by auto
  then have "by_id act u = Some s" using by_id_Some [OF assms(1)] by simp
  with Cons s show ?case by (auto simp: specs_of_def)
qed

fun layered :: "node list \<Rightarrow> string set \<Rightarrow> string list list \<Rightarrow> bool" where
  "layered ns D [] = True"
| "layered ns D (us # uss) =
     (us \<noteq> [] \<and> distinct us \<and> set us \<inter> D = {} \<and> set us \<subseteq> ids ns \<and>
      (\<forall>n \<in> set ns. nd_unitId n \<in> set us \<longrightarrow> set (nd_dependencies n) \<subseteq> D) \<and>
      layered ns (D \<union> set us) uss)"

lemma ready_deps_done:
  assumes inv: "kahn_inv ns D p R" and n: "n \<in> set ns" "nd_unitId n \<in> set R"
  shows "set (nd_dependencies n) \<subseteq> D"
proof -
  have "p (nd_unitId n) = 0" using assms by (auto simp: kahn_inv_def)
  then have "filter (\<lambda>d. d \<notin> D) (nd_dependencies n) = []" using inv n by (auto simp: kahn_inv_def)
  then show ?thesis by (auto simp: filter_empty_conv)
qed

lemma sort_specs_ids: "set (map unitId (sort_specs h ss)) = set (map unitId ss)"
  "distinct (map unitId (sort_specs h ss)) = distinct (map unitId ss)"
  by (simp_all add: sort_specs_def distinct_map)

lemma layer_loop_run:
  assumes d: "distinct (map unitId act)"
  shows "kahn_inv (map spec_node act) D p (map unitId ready) \<Longrightarrow>
    layered (map spec_node act) D (layer_loop h act p ready) \<and>
    (\<exists>p'. kahn_inv (map spec_node act) (D \<union> set (concat (layer_loop h act p ready))) p' [])"
  using d
proof (induction h act p ready arbitrary: D rule: layer_loop.induct)
  case (1 h act p ready)
  let ?ns = "map spec_node act"
  show ?case
  proof (cases "ready = []")
    case True
    with "1.prems" show ?thesis by (auto simp: layer_loop.simps)
  next
    case False
    obtain p' freed where rel: "release_layer ?ns p (map unitId ready) = (p', freed)"
      by (cases "release_layer ?ns p (map unitId ready)")
    let ?next = "sort_specs h (specs_of act freed)"
    have loop: "layer_loop h act p ready = map unitId ready # layer_loop h act p' ?next"
      using False rel by (subst layer_loop.simps) simp
    have rel': "release_followers p (concat (map (followers_of ?ns) (map unitId ready))) = (p', freed)"
      using rel by (simp add: release_layer_eq)
    have ids: "ids ?ns = unitId ` set act" by (auto simp: ids_def)
    note inv = "1.prems"(1)
    note dis = freed_disjoint [OF inv rel']
    have "set freed \<subseteq> ids ?ns"
    proof
      fix u
      assume "u \<in> set freed"
      then have "0 < int (count_list (concat (map (followers_of ?ns) (map unitId ready))) u)"
        using release_followers_snd [of u p] rel' by (metis order_less_le_trans snd_conv)
      then have "u \<in> set (concat (map (followers_of ?ns) (map unitId ready)))"
        by (metis count_list_0_iff less_irrefl of_nat_0)
      then obtain v where "u \<in> set (followers_of ?ns v)" by auto
      with set_followers_of [of ?ns v] show "u \<in> ids ?ns" by (auto simp: ids_def)
    qed
    then have fr: "map unitId (specs_of act freed) = freed"
      using specs_of_ids [OF "1.prems"(2), of freed] by (auto simp: ids)
    have inv': "kahn_inv ?ns (D \<union> set (map unitId ready)) p' (map unitId ?next)"
    proof (rule kahn_step [OF _ inv _ _ rel'])
      show "distinct (map nd_unitId ?ns)" using "1.prems"(2) by simp
      show "distinct (map unitId ready)" using inv by (simp add: kahn_inv_def)
      show "distinct (map unitId ?next)" using dis(2) by (simp add: sort_specs_ids fr del: set_map)
      show "set (map unitId ?next) = set freed \<union> (set (map unitId ready) - set (map unitId ready))"
        by (simp only: sort_specs_ids fr) simp
    qed simp
    from "1.IH" [OF False rel [symmetric] refl inv' "1.prems"(2)]
    have ih: "layered ?ns (D \<union> set (map unitId ready)) (layer_loop h act p' ?next)"
      "\<exists>q. kahn_inv ?ns (D \<union> set (map unitId ready) \<union> set (concat (layer_loop h act p' ?next))) q []"
      by auto
    have here: "distinct (map unitId ready)" "set (map unitId ready) \<inter> D = {}"
      "set (map unitId ready) \<subseteq> ids ?ns" using inv by (auto simp: kahn_inv_def)
    have deps: "set (nd_dependencies n) \<subseteq> D"
      if "n \<in> set ?ns" "nd_unitId n \<in> set (map unitId ready)" for n
      by (rule ready_deps_done [OF inv that])
    show ?thesis
      using ih here deps False unfolding loop by (simp add: Un_assoc)
  qed
qed

lemma layered_distinct: "layered ns D uss \<Longrightarrow> distinct (concat uss) \<and> set (concat uss) \<inter> D = {}"
  by (induction ns D uss rule: layered.induct) auto

lemma layered_index:
  assumes "layered ns D uss" "i < length uss" "n \<in> set ns" "nd_unitId n \<in> set (uss ! i)"
    and "d \<in> set (nd_dependencies n)" "d \<notin> D"
  shows "\<exists>j < i. d \<in> set (uss ! j)"
  using assms
proof (induction ns D uss arbitrary: i rule: layered.induct)
  case (1 ns D)
  then show ?case by simp
next
  case (2 ns D us uss)
  show ?case
  proof (cases i)
    case 0
    with "2.prems" show ?thesis by auto
  next
    case (Suc i')
    show ?thesis
    proof (cases "d \<in> set us")
      case True
      with Suc show ?thesis by (intro exI [of _ 0]) simp
    next
      case False
      have "\<exists>j < i'. d \<in> set (uss ! j)"
        by (rule "2.IH") (use "2.prems" Suc False in auto)
      with Suc show ?thesis by auto
    qed
  qed
qed

lemma unitIds_number_layers [simp]: "map unitIds (number_layers k uss) = uss"
  by (induction k uss rule: number_layers.induct) auto

lemma length_number_layers [simp]: "length (number_layers k uss) = length uss"
  by (induction k uss rule: number_layers.induct) auto

lemma layer_number_layers: "i < length uss \<Longrightarrow> layer (number_layers k uss ! i) = k + i"
  by (induction k uss arbitrary: i rule: number_layers.induct) (auto simp: nth_Cons split: nat.splits)

lemma derive_layers_start:
  assumes d: "distinct (map unitId act)"
  shows "kahn_inv (map spec_node act) {} (initial_pending (map spec_node act))
    (map unitId (sort_specs h (filter (\<lambda>s. initial_pending (map spec_node act) (unitId s) = 0) act)))"
  by (rule kahn_inv_start)
    (use d in \<open>simp_all add: sort_specs_ids distinct_map_filter initially_ready_def filter_map comp_def
        del: set_map\<close>)

lemma derive_layers_partition:
  assumes d: "distinct (map unitId (active_specs specs))" and ok: "derive_layers h specs = Inr ls"
  shows "distinct (concat (map unitIds ls))"
    and "set (concat (map unitIds ls)) = unitId ` set (active_specs specs)"
    and "\<forall>l \<in> set ls. unitIds l \<noteq> []"
    and "\<forall>i < length ls. layer (ls ! i) = i"
    and "\<forall>s \<in> set (active_specs specs). \<forall>e \<in> set (dependencies s). \<forall>i < length ls.
          unitId s \<in> set (unitIds (ls ! i)) \<longrightarrow> (\<exists>j < i. e \<in> set (unitIds (ls ! j)))"
proof -
  let ?act = "active_specs specs"
  let ?ns = "map spec_node ?act"
  define uss where "uss = layer_loop h ?act (initial_pending ?ns)
    (sort_specs h (filter (\<lambda>s. initial_pending ?ns (unitId s) = 0) ?act))"
  from ok have ls: "ls = number_layers 0 uss" and len: "sum_list (map length uss) = length ?act"
    by (auto simp: derive_layers_def Let_def uss_def split: if_splits)
  have ids: "ids ?ns = unitId ` set ?act" by (auto simp: ids_def)
  from layer_loop_run [OF d derive_layers_start [OF d]]
  have run: "layered ?ns {} uss" and "\<exists>p. kahn_inv ?ns (set (concat uss)) p []"
    unfolding uss_def by auto
  then have sub: "set (concat uss) \<subseteq> unitId ` set ?act"
    unfolding ids [symmetric] by (auto simp only: kahn_inv_def)
  have dist: "distinct (concat uss)" using layered_distinct [OF run] by simp
  have "card (set (concat uss)) = length ?act" using distinct_card [OF dist] len by (simp add: length_concat)
  moreover have "card (unitId ` set ?act) = length ?act"
    using d by (metis distinct_card length_map set_map)
  ultimately have all: "set (concat uss) = unitId ` set ?act"
    using sub by (intro card_subset_eq) simp_all
  show "distinct (concat (map unitIds ls))" using dist by (simp add: ls)
  show "set (concat (map unitIds ls)) = unitId ` set ?act" using all by (simp add: ls)
  have "layered ns D vss \<Longrightarrow> \<forall>us \<in> set vss. us \<noteq> []" for ns D vss
    by (induction ns D vss rule: layered.induct) auto
  from this [OF run] have "\<forall>us \<in> set (map unitIds ls). us \<noteq> []" by (simp only: ls unitIds_number_layers)
  then show "\<forall>l \<in> set ls. unitIds l \<noteq> []" by simp
  show "\<forall>i < length ls. layer (ls ! i) = i" by (simp add: ls layer_number_layers)
  have nth: "unitIds (ls ! i) = uss ! i" if "i < length uss" for i
    using that by (metis length_number_layers ls nth_map unitIds_number_layers)
  show "\<forall>s \<in> set ?act. \<forall>e \<in> set (dependencies s). \<forall>i < length ls.
      unitId s \<in> set (unitIds (ls ! i)) \<longrightarrow> (\<exists>j < i. e \<in> set (unitIds (ls ! j)))"
  proof (intro ballI allI impI)
    fix s e i
    assume s: "s \<in> set ?act" and e: "e \<in> set (dependencies s)" and i: "i < length ls"
      and u: "unitId s \<in> set (unitIds (ls ! i))"
    have i': "i < length uss" using i by (simp add: ls)
    have "\<exists>j < i. e \<in> set (uss ! j)"
      by (rule layered_index [OF run i', of "spec_node s"]) (use s e u nth [OF i'] in auto)
    then show "\<exists>j < i. e \<in> set (unitIds (ls ! j))" using nth i' by auto
  qed
qed

text \<open>The derivation succeeds exactly on the graphs that have a rank, i.e. are closed and acyclic.\<close>

lemma derive_layers_iff:
  assumes d: "distinct (map unitId (active_specs specs))"
  shows "(\<exists>ls. derive_layers h specs = Inr ls) \<longleftrightarrow>
    (\<exists>rank :: string \<Rightarrow> nat. \<forall>s \<in> set (active_specs specs). \<forall>e \<in> set (dependencies s).
       e \<in> unitId ` set (active_specs specs) \<and> rank e < rank (unitId s))"
proof -
  let ?act = "active_specs specs"
  let ?ns = "map spec_node ?act"
  have ids: "ids ?ns = unitId ` set ?act" by (auto simp: ids_def)
  have rank: "topological_rank ?ns (ids ?ns) rank \<longleftrightarrow>
      (\<forall>s \<in> set ?act. \<forall>e \<in> set (dependencies s). e \<in> unitId ` set ?act \<and> rank e < rank (unitId s))" for rank
    by (auto simp: topological_rank_def ids)
  define uss where "uss = layer_loop h ?act (initial_pending ?ns)
    (sort_specs h (filter (\<lambda>s. initial_pending ?ns (unitId s) = 0) ?act))"
  from layer_loop_run [OF d derive_layers_start [OF d]]
  obtain p where run: "layered ?ns {} uss" and fin: "kahn_inv ?ns (set (concat uss)) p []"
    unfolding uss_def by auto
  have card: "card (set (concat uss)) = sum_list (map length uss)"
    using distinct_card [of "concat uss"] layered_distinct [OF run] by (simp only: length_concat)
  have card': "card (unitId ` set ?act) = length ?act" using d by (metis distinct_card length_map set_map)
  show ?thesis
  proof
    assume "\<exists>ls. derive_layers h specs = Inr ls"
    then have "sum_list (map length uss) = length ?act"
      by (auto simp: derive_layers_def Let_def uss_def split: if_splits)
    with card card' fin have all: "set (concat uss) = ids ?ns"
      unfolding ids by (intro card_subset_eq) (auto simp: kahn_inv_def ids)
    have "assert_acyclic ?ns = Inr ()"
    proof -
      have closed: "set (nd_dependencies n) \<subseteq> ids ?ns" if "n \<in> set ?ns" for n
      proof -
        have "nd_unitId n \<in> ids ?ns" unfolding ids_def using that by auto
        with fin that show ?thesis unfolding all kahn_inv_def by metis
      qed
      have "\<exists>rank. topological_rank ?ns (ids ?ns) rank"
      proof (intro exI)
        let ?rank = "\<lambda>u. LEAST i. i < length uss \<and> u \<in> set (uss ! i)"
        have at: "?rank u < length uss \<and> u \<in> set (uss ! ?rank u)" if "u \<in> ids ?ns" for u
        proof -
          from that all have "u \<in> set (concat uss)" by simp
          then obtain us where "us \<in> set uss" "u \<in> set us" by auto
          then obtain i where "i < length uss \<and> u \<in> set (uss ! i)" by (metis in_set_conv_nth)
          then show ?thesis by (rule LeastI)
        qed
        show "topological_rank ?ns (ids ?ns) ?rank"
          unfolding topological_rank_def
        proof (intro ballI impI conjI)
          fix n e
          assume n: "n \<in> set ?ns" "nd_unitId n \<in> ids ?ns" and e: "e \<in> set (nd_dependencies n)"
          show "e \<in> ids ?ns" using closed [OF n(1)] e by blast
          from at [OF n(2)] have a: "?rank (nd_unitId n) < length uss"
            "nd_unitId n \<in> set (uss ! ?rank (nd_unitId n))" by auto
          have "\<exists>j < ?rank (nd_unitId n). e \<in> set (uss ! j)"
            using layered_index [OF run a(1) n(1) a(2) e] by simp
          then obtain j where "j < ?rank (nd_unitId n)" "e \<in> set (uss ! j)" by blast
          moreover from this a(1) have "j < length uss" by (rule_tac order_less_trans)
          ultimately have "?rank e \<le> j" by (intro Least_le) simp
          then show "?rank e < ?rank (nd_unitId n)"
            using \<open>j < ?rank (nd_unitId n)\<close> by (rule order_le_less_trans)
        qed
      qed
      then show ?thesis using assert_acyclic_iff [of ?ns] d by simp
    qed
    then have "\<exists>rank. topological_rank ?ns (ids ?ns) rank" using assert_acyclic_iff [of ?ns] d by simp
    then show "\<exists>rank :: string \<Rightarrow> nat. \<forall>s \<in> set ?act. \<forall>e \<in> set (dependencies s).
        e \<in> unitId ` set ?act \<and> rank e < rank (unitId s)"
      by (simp only: rank)
  next
    assume "\<exists>rank :: string \<Rightarrow> nat. \<forall>s \<in> set ?act. \<forall>e \<in> set (dependencies s).
        e \<in> unitId ` set ?act \<and> rank e < rank (unitId s)"
    then obtain rank where "topological_rank ?ns (ids ?ns) rank" by (auto simp only: rank)
    with fin have "set (concat uss) = ids ?ns" by (rule kahn_finished)
    with card card' have "sum_list (map length uss) = length ?act" by (simp add: ids)
    then show "\<exists>ls. derive_layers h specs = Inr ls"
      by (auto simp: derive_layers_def Let_def uss_def)
  qed
qed

end
