(* ===== verification/UnitPlan.thy ===== *)
theory UnitPlan
  imports UnitParse RuntimeTree UnitLayers
begin

text \<open>
  The plan of a record (memory-store/src/record-unit-engine.ts): its construction from a planning
  input (\<open>createRecordUnitPlan\<close>, \<open>rawSpecFromInput\<close>, \<open>normalizeSpecs\<close>), the check of a
  finished plan (\<open>validateRecordUnitPlan\<close>), and the access to specs and runtimes.
  \<open>Object.freeze\<close> and the cached \<open>units\<close> getter have no counterpart: a plan is a value.
\<close>

record plan_identity =
  pl_schemaVersion :: int
  pl_taskId :: string
  pl_recordId :: string
  pl_sourceSnapshotId :: string
  pl_route :: route
  pl_autoPolicy :: "auto_policy option"
  pl_budgets :: budgets
  pl_maxUnits :: int

record unit_plan = plan_identity +
  pl_kind :: string
  unitSpecs :: "unit_spec list"
  unitSpecIndex :: "string \<Rightarrow> nat option"
  runtimeRoot :: "unit_runtime rtree"
  layers :: "unit_layer list"
  planHash :: string
  metrics :: engine_metrics

section \<open>Prompt recipes and hashes\<close>

definition dependency_placeholder :: "string \<Rightarrow> string" where
  "dependency_placeholder u = ''{{unit:'' @ u @ '':outputHash}}''"

definition continuation_placeholder :: "string \<Rightarrow> string \<Rightarrow> string" where
  "continuation_placeholder k u = ''{{continuation:'' @ k @ '':'' @ u @ '':outputHash}}''"

definition template_of_kind :: "string \<Rightarrow> string" where
  "template_of_kind k = ''record-'' @ k @ ''-v1''"

definition empty_prompt_recipe :: "string \<Rightarrow> unit_range \<Rightarrow> prompt_recipe" where
  "empty_prompt_recipe kindOrTemplate r =
     \<lparr> recipeVersion = 1,
       templateId = (if kindOrTemplate \<in> set (map kind_name RECORD_UNIT_KINDS)
                     then template_of_kind kindOrTemplate else kindOrTemplate),
       recipe_range = r, dependencyBindings = [], continuationBinding = None \<rparr>"

definition build_prompt_recipe :: "unit_spec \<Rightarrow> string option \<Rightarrow> string \<Rightarrow> prompt_recipe" where
  "build_prompt_recipe s predecessor template =
     \<lparr> recipeVersion = 1, templateId = template, recipe_range = sp_range s,
       dependencyBindings =
         map (\<lambda>u. \<lparr> db_unitId = u, db_placeholder = dependency_placeholder u \<rparr>) (dependencies s),
       continuationBinding =
         (case (continuationKey s, predecessor) of
            (Some k, Some p) \<Rightarrow>
              if k \<noteq> [] \<and> p \<noteq> []
              then Some \<lparr> cb_continuationKey = k, previousUnitId = p, cb_placeholder = continuation_placeholder k p \<rparr>
              else None
          | _ \<Rightarrow> None) \<rparr>"

definition placeholder_outputs :: "prompt_recipe \<Rightarrow> (string \<times> string) list" where
  "placeholder_outputs r = map (\<lambda>b. (db_unitId b, db_placeholder b)) (dependencyBindings r)"

definition prompt_hash :: "host \<Rightarrow> prompt_recipe \<Rightarrow> (string \<times> string) list \<Rightarrow> string" where
  "prompt_hash h r outputs =
     canonical_hash h (Obj [(''recipe'', recipe_json r), (''dependencyOutputs'', outputs_json outputs)])"

definition input_hash :: "host \<Rightarrow> string \<Rightarrow> string \<Rightarrow> unit_range \<Rightarrow> string \<Rightarrow> (string \<times> string) list \<Rightarrow> string" where
  "input_hash h snapshotId contentHash r ph outputs =
     canonical_hash h (Obj
       [(''sourceSnapshotId'', Str snapshotId), (''sourceContentHash'', Str contentHash),
        (''range'', range_json r), (''promptHash'', Str ph), (''dependencyOutputs'', outputs_json outputs)])"

definition unresolved_prompt_hash :: "host \<Rightarrow> prompt_recipe \<Rightarrow> string" where
  "unresolved_prompt_hash h r = prompt_hash h r (placeholder_outputs r)"

definition unresolved_input_hash :: "host \<Rightarrow> string \<Rightarrow> string \<Rightarrow> unit_range \<Rightarrow> string \<Rightarrow> prompt_recipe \<Rightarrow> string" where
  "unresolved_input_hash h snapshotId contentHash r ph recipe =
     input_hash h snapshotId contentHash r ph (placeholder_outputs recipe)"

definition effective_provenance_hash :: "host \<Rightarrow> unit_spec \<Rightarrow> string \<Rightarrow> string" where
  "effective_provenance_hash h s ph =
     canonical_hash h (provenance_json ((provenance s)\<lparr>prov_promptHash := ph\<rparr>))"

section \<open>Specs\<close>

definition raw_spec_from_input :: "planning_input \<Rightarrow> provider list \<Rightarrow> spec_input \<Rightarrow> unit_spec" where
  "raw_spec_from_input plan routes u =
     \<lparr> sp_schemaVersion = RECORD_UNIT_SCHEMA_VERSION, sp_kind = ''record-unit-spec'',
       sp_taskId = pi_taskId plan, sp_recordId = pi_recordId plan, unitId = in_unitId u,
       unitKind = in_unitKind u, active = True, sp_sourceSnapshotId = pi_sourceSnapshotId plan,
       sp_inputHash = in_inputHash u, provenance = in_provenance u,
       promptRecipe = (case in_promptRecipe u of Some r \<Rightarrow> r
                       | None \<Rightarrow> empty_prompt_recipe (kind_name (in_unitKind u)) (in_range u)),
       sp_range = in_range u, composeOrder = in_composeOrder u, childOrder = 0,
       continuationKey = in_continuationKey u, dependencies = in_dependencies u,
       parentUnitId = None, childUnitIds = [], splitDepth = 0, stepCount = in_stepCount u,
       estimatedCost = in_estimatedCost u, inheritedCost = in_estimatedCost u,
       routePlan = routes, specHash = [] \<rparr>"

definition normalize_spec :: "host \<Rightarrow> (string \<Rightarrow> string option) \<Rightarrow> unit_spec \<Rightarrow> unit_spec" where
  "normalize_spec h predecessors raw =
     (let predecessor = (if active raw then predecessors (unitId raw) else None);
          template = (if templateId (promptRecipe raw) \<noteq> [] then templateId (promptRecipe raw)
                      else template_of_kind (kind_name (unitKind raw)));
          recipe = build_prompt_recipe raw predecessor template;
          ph = unresolved_prompt_hash h recipe;
          prov = (provenance raw)\<lparr>prov_promptHash := ph\<rparr>;
          ih = unresolved_input_hash h (sp_sourceSnapshotId raw) (sourceContentHash prov) (sp_range raw) ph recipe;
          withoutHash = raw\<lparr>sp_inputHash := ih, provenance := prov, promptRecipe := recipe\<rparr>
      in withoutHash\<lparr>specHash := hash_unit_spec h withoutHash\<rparr>)"

definition assert_prompt_recipes :: "host \<Rightarrow> unit_spec list \<Rightarrow> unit res" where
  "assert_prompt_recipes h specs =
     (let act = active_specs specs in
      and_then (continuation_predecessors h (map spec_link act)) (\<lambda>predecessors.
        each_ok (\<lambda>s. ensure PROMPT_RECIPE_MISMATCH
            (canonical_text h (recipe_json (build_prompt_recipe s (predecessors (unitId s)) (templateId (promptRecipe s))))
             = canonical_text h (recipe_json (promptRecipe s)))) act))"

definition normalize_specs :: "host \<Rightarrow> unit_spec list \<Rightarrow> unit_spec list res" where
  "normalize_specs h rawSpecs =
     and_then (continuation_predecessors h (map spec_link (active_specs rawSpecs))) (\<lambda>predecessors.
       let normalized = map (normalize_spec h predecessors) rawSpecs in
       and_then (assert_spec_graph h normalized) (\<lambda>_.
       and_then (assert_prompt_recipes h normalized) (\<lambda>_.
         Inr normalized)))"

section \<open>Runtimes\<close>

definition initial_prompt_resolution :: "unit_spec \<Rightarrow> prompt_resolution" where
  "initial_prompt_resolution s =
     \<lparr> resolved = (dependencies s = []), pr_inputHash = sp_inputHash s,
       pr_promptHash = prov_promptHash (provenance s), dependencyOutputs = [] \<rparr>"

definition initial_runtime :: "unit_spec \<Rightarrow> unit_runtime" where
  "initial_runtime s =
     \<lparr> state = (if active s then (if dependencies s \<noteq> [] then BlockedDependency else Queued) else Split),
       routeCursor = -1, currentProvider = None, attemptedProviders = [],
       providerAttemptCounts = (\<lambda>_. 0), routeAttempts = 0, unitAttempts = 0, nextEligibleAt = None,
       currentAttempt = None, unknownOutcome = None, fenceAdvanceEvidence = None, fence = 0,
       result = None, failureHistory = [], lastFailureClass = None,
       prompt = initial_prompt_resolution s \<rparr>"

section \<open>The plan\<close>

fun build_spec_index_from :: "nat \<Rightarrow> (string \<Rightarrow> nat option) \<Rightarrow> unit_spec list \<Rightarrow> (string \<Rightarrow> nat option) res" where
  "build_spec_index_from position index [] = Inr index"
| "build_spec_index_from position index (s # specs) =
     (if index (unitId s) \<noteq> None then Inl DUPLICATE_UNIT
      else build_spec_index_from (Suc position) (index(unitId s \<mapsto> position)) specs)"

definition build_spec_index :: "unit_spec list \<Rightarrow> (string \<Rightarrow> nat option) res" where
  "build_spec_index = build_spec_index_from 0 (\<lambda>_. None)"

definition compute_plan_hash :: "host \<Rightarrow> 'a plan_identity_scheme \<Rightarrow> unit_spec list \<Rightarrow> unit_layer list \<Rightarrow> string" where
  "compute_plan_hash h p specs ls = canonical_hash h (Obj
     [(''schemaVersion'', int_json (pl_schemaVersion p)), (''kind'', Str ''record-unit-plan''),
      (''taskId'', Str (pl_taskId p)), (''recordId'', Str (pl_recordId p)),
      (''sourceSnapshotId'', Str (pl_sourceSnapshotId p)), (''route'', Str (route_name (pl_route p))),
      (''autoPolicy'', auto_policy_or_null (pl_autoPolicy p)), (''budgets'', budgets_json (pl_budgets p)),
      (''maxUnits'', int_json (pl_maxUnits p)),
      (''specHashes'', Arr (map (\<lambda>s. Obj [(''unitId'', Str (unitId s)), (''specHash'', Str (specHash s))]) specs)),
      (''layers'', layers_json ls)])"

definition get_spec :: "unit_plan \<Rightarrow> string \<Rightarrow> unit_spec res" where
  "get_spec p u = (case unitSpecIndex p u of None \<Rightarrow> Inl UNKNOWN_UNIT | Some i \<Rightarrow> Inr (unitSpecs p ! i))"

definition require_runtime :: "host \<Rightarrow> unit_plan \<Rightarrow> string \<Rightarrow> unit_runtime res" where
  "require_runtime h p u =
     (case get_runtime (locale_compare h) (runtimeRoot p) u of None \<Rightarrow> Inl UNKNOWN_UNIT | Some r \<Rightarrow> Inr r)"

definition assert_spec_identity :: "unit_plan \<Rightarrow> unit_spec \<Rightarrow> unit res" where
  "assert_spec_identity p s =
     and_then (ensure INVALID_UNIT (sp_schemaVersion s = RECORD_UNIT_SCHEMA_VERSION \<and> sp_kind s = ''record-unit-spec'')) (\<lambda>_.
     and_then (ensure IDENTITY_MISMATCH (sp_taskId s = pl_taskId p \<and> sp_recordId s = pl_recordId p \<and>
         sp_sourceSnapshotId s = pl_sourceSnapshotId p)) (\<lambda>_.
     and_then (ensure PROVENANCE_MISMATCH (prov_sourceSnapshotId (provenance s) = pl_sourceSnapshotId p)) (\<lambda>_.
     and_then (ensure SPLIT_DEPTH (0 \<le> splitDepth s \<and> splitDepth s \<le> 1)) (\<lambda>_.
     and_then (ensure INVALID_UNIT (1 \<le> stepCount s \<and> stepCount s \<le> max_safe)) (\<lambda>_.
       ensure INVALID_UNIT (axis (sp_range s) = Step \<longrightarrow>
         stepCount s = range_end (sp_range s) - range_start (sp_range s) + 1))))))"

definition assert_authorized_route_plan :: "unit_spec \<Rightarrow> provider list \<Rightarrow> unit res" where
  "assert_authorized_route_plan s authorized = ensure ROUTE_POLICY_MISMATCH (routePlan s = authorized)"

definition assert_local_route_authorization :: "host \<Rightarrow> unit_plan \<Rightarrow> unit_spec \<Rightarrow> unit res" where
  "assert_local_route_authorization h p s =
     and_then (derive_authorized_route_plan h (pl_route p) (pl_autoPolicy p)) (assert_authorized_route_plan s)"

text \<open>The loop over the specs; \<open>seen\<close> holds the ids of the specs before \<open>index\<close>.\<close>

fun validate_specs :: "host \<Rightarrow> unit_plan \<Rightarrow> provider list \<Rightarrow> nat \<Rightarrow> string list \<Rightarrow> unit_spec list \<Rightarrow> unit res" where
  "validate_specs h p authorized index seen [] = Inr ()"
| "validate_specs h p authorized index seen (s # specs) =
     and_then (ensure DUPLICATE_UNIT (unitId s \<notin> set seen)) (\<lambda>_.
     and_then (ensure SPEC_INDEX_MISMATCH (unitSpecIndex p (unitId s) = Some index)) (\<lambda>_.
     and_then (assert_spec_identity p s) (\<lambda>_.
     and_then (assert_authorized_route_plan s authorized) (\<lambda>_.
     and_then (ensure SPEC_HASH_MISMATCH (specHash s = hash_unit_spec h s)) (\<lambda>_.
     and_then (ensure RUNTIME_MISSING (get_runtime (locale_compare h) (runtimeRoot p) (unitId s) \<noteq> None)) (\<lambda>_.
       validate_specs h p authorized (Suc index) (unitId s # seen) specs))))))"

definition validate_record_unit_plan :: "host \<Rightarrow> unit_plan \<Rightarrow> unit res" where
  "validate_record_unit_plan h p =
     and_then (ensure INVALID_PLAN (pl_schemaVersion p = RECORD_UNIT_SCHEMA_VERSION \<and> pl_kind p = ''record-unit-plan'')) (\<lambda>_.
     and_then (ensure UNIT_LIMIT (1 \<le> pl_maxUnits p \<and> pl_maxUnits p \<le> RECORD_UNIT_MAX_COUNT \<and>
         int (length (unitSpecs p)) \<le> pl_maxUnits p)) (\<lambda>_.
     and_then (assert_declared_route_policy h (pl_route p) (pl_autoPolicy p)) (\<lambda>_.
     and_then (derive_authorized_route_plan h (pl_route p) (pl_autoPolicy p)) (\<lambda>authorized.
     and_then (validate_specs h p authorized 0 [] (unitSpecs p)) (\<lambda>_.
     and_then (ensure RUNTIME_INDEX_MISMATCH
         (let ks = collect_runtime_keys (runtimeRoot p) in
          length ks = length (unitSpecs p) \<and> set ks \<subseteq> set (map unitId (unitSpecs p)))) (\<lambda>_.
     and_then (assert_spec_graph h (unitSpecs p)) (\<lambda>_.
     and_then (assert_prompt_recipes h (unitSpecs p)) (\<lambda>_.
     and_then (derive_layers h (unitSpecs p)) (\<lambda>expectedLayers.
     and_then (ensure LAYER_MISMATCH
         (canonical_text h (layers_json expectedLayers) = canonical_text h (layers_json (layers p)))) (\<lambda>_.
       ensure PLAN_HASH_MISMATCH (compute_plan_hash h p (unitSpecs p) (layers p) = planHash p)))))))))))"

definition planned :: "host \<Rightarrow> planning_input \<Rightarrow> unit_spec list \<Rightarrow> (string \<Rightarrow> nat option) \<Rightarrow> unit_layer list \<Rightarrow> unit_plan" where
  "planned h i specs index ls =
     (let core = \<lparr> pl_schemaVersion = RECORD_UNIT_SCHEMA_VERSION, pl_taskId = pi_taskId i, pl_recordId = pi_recordId i,
                   pl_sourceSnapshotId = pi_sourceSnapshotId i, pl_route = pi_route i, pl_autoPolicy = pi_autoPolicy i,
                   pl_budgets = pi_budgets i, pl_maxUnits = pi_maxUnits i \<rparr>
      in plan_identity.extend core
         \<lparr> pl_kind = ''record-unit-plan'', unitSpecs = specs, unitSpecIndex = index,
           runtimeRoot = build_runtime_tree (locale_compare h) (map (\<lambda>s. (unitId s, initial_runtime s)) specs),
           layers = ls, planHash = compute_plan_hash h core specs ls,
           metrics = \<lparr> specHashComputations = length specs, planHashComputations = 1,
             layerComputations = 1, graphValidations = 1, runtimeNodeCopies = 0 \<rparr> \<rparr>)"

definition create_record_unit_plan :: "host \<Rightarrow> jvalue \<Rightarrow> unit_plan res" where
  "create_record_unit_plan h v =
     and_then (parse_planning_input h v) (\<lambda>parsed.
     and_then (assert_input_graph h (pi_units parsed)) (\<lambda>_.
     and_then (derive_authorized_route_plan h (pi_route parsed) (pi_autoPolicy parsed)) (\<lambda>routes.
     and_then (normalize_specs h (map (raw_spec_from_input parsed routes) (pi_units parsed))) (\<lambda>specs.
     and_then (build_spec_index specs) (\<lambda>index.
     and_then (derive_layers h specs) (\<lambda>ls.
       let plan = planned h parsed specs index ls in
       and_then (validate_record_unit_plan h plan) (\<lambda>_. Inr plan)))))))"

section \<open>Views and updates\<close>

text \<open>A materialised unit is its spec with the resolved hashes, beside its runtime.\<close>

record record_unit =
  ru_spec :: unit_spec
  ru_runtime :: unit_runtime

definition materialize_unit :: "unit_spec \<Rightarrow> unit_runtime \<Rightarrow> record_unit" where
  "materialize_unit s r =
     \<lparr> ru_spec = s\<lparr> sp_inputHash := pr_inputHash (prompt r),
                    provenance := (provenance s)\<lparr>prov_promptHash := pr_promptHash (prompt r)\<rparr> \<rparr>,
       ru_runtime = r \<rparr>"

definition get_record_unit :: "host \<Rightarrow> unit_plan \<Rightarrow> string \<Rightarrow> record_unit res" where
  "get_record_unit h p u =
     and_then (get_spec p u) (\<lambda>s. and_then (require_runtime h p u) (\<lambda>r. Inr (materialize_unit s r)))"

definition materialize_record_units :: "host \<Rightarrow> unit_plan \<Rightarrow> record_unit list res" where
  "materialize_record_units h p =
     map_ok (\<lambda>s. and_then (require_runtime h p (unitId s)) (\<lambda>r. Inr (materialize_unit s r))) (unitSpecs p)"

definition update_runtime_plan :: "host \<Rightarrow> unit_plan \<Rightarrow> string \<Rightarrow> unit_runtime \<Rightarrow> unit_plan res" where
  "update_runtime_plan h p u r =
     and_then (update_runtime_node (locale_compare h) (runtimeRoot p) u r) (\<lambda>(t, copies).
       Inr (p\<lparr> runtimeRoot := t,
               metrics := (metrics p)\<lparr>runtimeNodeCopies := runtimeNodeCopies (metrics p) + copies\<rparr> \<rparr>))"

end
