(* ===== verification/UnitPlanFacts.thy ===== *)
theory UnitPlanFacts
  imports UnitPlan
begin

text \<open>
  What the construction and the updates of a plan guarantee: the shape every plan has (distinct
  ids, an index that is the inverse of the spec list, a search tree over exactly those ids), the
  lookups under that shape, and that of an input that parses and whose graph is accepted a plan is
  created unless the lookup of a runtime fails in the new tree, which takes ids that the collation confuses.
\<close>

definition plan_shape :: "host \<Rightarrow> unit_plan \<Rightarrow> bool" where
  "plan_shape h p \<longleftrightarrow>
     distinct (map unitId (unitSpecs p)) \<and>
     (\<forall>u i. unitSpecIndex p u = Some i \<longleftrightarrow> i < length (unitSpecs p) \<and> unitId (unitSpecs p ! i) = u) \<and>
     ordered_tree (locale_compare h) (runtimeRoot p) \<and>
     set (keys (runtimeRoot p)) = unitId ` set (unitSpecs p)"

text \<open>The runtimes a plan holds, as a map: what the search tree stands for.\<close>

definition runtime_of :: "host \<Rightarrow> unit_plan \<Rightarrow> string \<Rightarrow> unit_runtime option" where
  "runtime_of h p = get_runtime (locale_compare h) (runtimeRoot p)"

text \<open>Everything of a plan but its runtimes and metrics.\<close>

definition same_frame :: "unit_plan \<Rightarrow> unit_plan \<Rightarrow> bool" where
  "same_frame p q \<longleftrightarrow> (\<exists>t m. q = p\<lparr>runtimeRoot := t, metrics := m\<rparr>)"

lemma same_frame_simps:
  assumes "same_frame p q"
  shows "unitSpecs q = unitSpecs p" "unitSpecIndex q = unitSpecIndex p" "layers q = layers p"
    "planHash q = planHash p" "pl_budgets q = pl_budgets p" "pl_route q = pl_route p"
    "pl_autoPolicy q = pl_autoPolicy p" "pl_maxUnits q = pl_maxUnits p"
    "pl_sourceSnapshotId q = pl_sourceSnapshotId p" "pl_taskId q = pl_taskId p"
    "pl_recordId q = pl_recordId p" "pl_kind q = pl_kind p" "pl_schemaVersion q = pl_schemaVersion p"
  using assms by (auto simp: same_frame_def)

lemma same_frame_get_spec: "same_frame p q \<Longrightarrow> get_spec q u = get_spec p u"
  by (auto simp: same_frame_def get_spec_def split: option.splits)

lemma same_frame_refl [simp, intro]: "same_frame p p"
  unfolding same_frame_def by (intro exI [of _ "runtimeRoot p"] exI [of _ "metrics p"]) simp

lemma same_frame_trans: "same_frame p q \<Longrightarrow> same_frame q r \<Longrightarrow> same_frame p r"
  unfolding same_frame_def by (elim exE) (simp, metis)

section \<open>Normalised specs\<close>

lemma normalize_spec_simps [simp]:
  "unitId (normalize_spec h f s) = unitId s" "active (normalize_spec h f s) = active s"
  "dependencies (normalize_spec h f s) = dependencies s" "sp_range (normalize_spec h f s) = sp_range s"
  "composeOrder (normalize_spec h f s) = composeOrder s" "childOrder (normalize_spec h f s) = childOrder s"
  "continuationKey (normalize_spec h f s) = continuationKey s" "stepCount (normalize_spec h f s) = stepCount s"
  "splitDepth (normalize_spec h f s) = splitDepth s" "routePlan (normalize_spec h f s) = routePlan s"
  "parentUnitId (normalize_spec h f s) = parentUnitId s" "childUnitIds (normalize_spec h f s) = childUnitIds s"
  "sp_schemaVersion (normalize_spec h f s) = sp_schemaVersion s" "sp_kind (normalize_spec h f s) = sp_kind s"
  "sp_taskId (normalize_spec h f s) = sp_taskId s" "sp_recordId (normalize_spec h f s) = sp_recordId s"
  "sp_sourceSnapshotId (normalize_spec h f s) = sp_sourceSnapshotId s"
  "unitKind (normalize_spec h f s) = unitKind s" "estimatedCost (normalize_spec h f s) = estimatedCost s"
  "inheritedCost (normalize_spec h f s) = inheritedCost s"
  "prov_sourceSnapshotId (provenance (normalize_spec h f s)) = prov_sourceSnapshotId (provenance s)"
  "sourceContentHash (provenance (normalize_spec h f s)) = sourceContentHash (provenance s)"
  by (simp_all add: normalize_spec_def Let_def)

lemma spec_link_normalize [simp]: "spec_link (normalize_spec h f s) = spec_link s"
  by (simp add: spec_link_def)

lemma spec_node_normalize [simp]: "spec_node (normalize_spec h f s) = spec_node s"
  by (simp add: spec_node_def)

lemma hash_normalize [simp]: "specHash (normalize_spec h f s) = hash_unit_spec h (normalize_spec h f s)"
  by (simp add: normalize_spec_def Let_def)

lemma active_specs_normalize [simp]:
  "active_specs (map (normalize_spec h f) ss) = map (normalize_spec h f) (active_specs ss)"
  by (simp add: active_specs_def filter_map comp_def)

lemma set_active_specs: "s \<in> set (active_specs ss) \<longleftrightarrow> s \<in> set ss \<and> active s"
  by (simp add: active_specs_def)

lemma build_prompt_recipe_normalize:
  "active s \<Longrightarrow> build_prompt_recipe (normalize_spec h f s) (f (unitId s)) (templateId (promptRecipe (normalize_spec h f s)))
     = promptRecipe (normalize_spec h f s)"
  by (simp add: normalize_spec_def Let_def build_prompt_recipe_def)

lemma assert_prompt_recipes_normalize:
  assumes "continuation_predecessors h (map spec_link (active_specs ss)) = Inr f"
  shows "assert_prompt_recipes h (map (normalize_spec h f) ss) = Inr ()"
  using assms
  by (auto simp: assert_prompt_recipes_def comp_def Let_def result_simps build_prompt_recipe_normalize
      set_active_specs)

lemma assert_spec_graph_normalize:
  "assert_spec_graph h (map (normalize_spec h f) ss) = assert_spec_graph h ss"
proof -
  have e: "each_ok g (map (normalize_spec h f) xs) = each_ok (\<lambda>s. g (normalize_spec h f s)) xs"
    for g :: "unit_spec \<Rightarrow> unit res" and xs
    by (induction xs) auto
  show ?thesis by (simp add: assert_spec_graph_def e comp_def Let_def image_image)
qed

text \<open>Normalising succeeds exactly when the graph check does; its result has the raw graph.\<close>

lemma normalize_specs_Inr:
  "normalize_specs h raw = Inr specs \<longleftrightarrow>
     assert_spec_graph h raw = Inr () \<and>
     (\<exists>f. continuation_predecessors h (map spec_link (active_specs raw)) = Inr f \<and>
          specs = map (normalize_spec h f) raw)"
  by (auto simp: normalize_specs_def and_then_Inr Let_def assert_spec_graph_normalize
      assert_prompt_recipes_normalize)

lemma assert_spec_graph_continuation:
  "assert_spec_graph h ss = Inr () \<Longrightarrow> \<exists>f. continuation_predecessors h (map spec_link (active_specs ss)) = Inr f"
  by (auto simp: assert_spec_graph_def Let_def and_then_Inr)

lemma normalize_specs_total:
  "assert_spec_graph h raw = Inr () \<Longrightarrow> \<exists>specs. normalize_specs h raw = Inr specs"
  unfolding normalize_specs_Inr using assert_spec_graph_continuation [of h raw] by blast

section \<open>The spec index\<close>

lemma build_spec_index_from_ok:
  assumes "distinct (map unitId specs)" "\<forall>s \<in> set specs. index (unitId s) = None"
  shows "\<exists>ix. build_spec_index_from n index specs = Inr ix \<and>
    (\<forall>u i. ix u = Some i \<longleftrightarrow> index u = Some i \<or> (\<exists>j < length specs. unitId (specs ! j) = u \<and> i = n + j))"
  using assms
proof (induction specs arbitrary: n index)
  case Nil
  then show ?case by simp
next
  case (Cons s specs)
  let ?index = "index(unitId s \<mapsto> n)"
  have "\<forall>t \<in> set specs. ?index (unitId t) = None"
    using Cons.prems by (auto simp: rev_image_eqI)
  moreover have "distinct (map unitId specs)" using Cons.prems by simp
  ultimately obtain ix where ix: "build_spec_index_from (Suc n) ?index specs = Inr ix"
    and m: "\<And>u i. ix u = Some i \<longleftrightarrow> ?index u = Some i \<or> (\<exists>j < length specs. unitId (specs ! j) = u \<and> i = Suc n + j)"
    using Cons.IH [of ?index "Suc n"] by blast
  have fresh: "index (unitId s) = None" using Cons.prems by simp
  have "ix u = Some i \<longleftrightarrow> index u = Some i \<or> (\<exists>j < length (s # specs). unitId ((s # specs) ! j) = u \<and> i = n + j)" for u i
  proof -
    have split: "(\<exists>j < length (s # specs). unitId ((s # specs) ! j) = u \<and> i = n + j) \<longleftrightarrow>
        (unitId s = u \<and> i = n) \<or> (\<exists>j < length specs. unitId (specs ! j) = u \<and> i = Suc n + j)"
      by (auto simp: less_Suc_eq_0_disj)
    show ?thesis unfolding m split using fresh by auto
  qed
  then show ?case using ix fresh by auto
qed

lemma build_spec_index_ok:
  assumes "distinct (map unitId specs)"
  obtains ix where "build_spec_index specs = Inr ix"
    "\<And>u i. ix u = Some i \<longleftrightarrow> i < length specs \<and> unitId (specs ! i) = u"
  using build_spec_index_from_ok [OF assms, of "\<lambda>_. None" 0]
  by (auto simp: build_spec_index_def)

lemma build_spec_index_from_distinct:
  "build_spec_index_from n index specs = Inr ix \<Longrightarrow>
    distinct (map unitId specs) \<and> (\<forall>s \<in> set specs. index (unitId s) = None)"
proof (induction specs arbitrary: n index)
  case Nil
  then show ?case by simp
next
  case (Cons s specs)
  from Cons.prems have f: "index (unitId s) = None"
    and r: "build_spec_index_from (Suc n) (index(unitId s \<mapsto> n)) specs = Inr ix"
    by (auto split: if_splits)
  from Cons.IH [OF r] show ?case using f by (auto split: if_splits)
qed

lemma build_spec_index_distinct: "build_spec_index specs = Inr ix \<Longrightarrow> distinct (map unitId specs)"
  unfolding build_spec_index_def by (drule build_spec_index_from_distinct) simp


section \<open>Lookups and updates under the shape\<close>

lemma get_spec_Inr:
  assumes "plan_shape h p"
  shows "get_spec p u = Inr s \<longleftrightarrow> s \<in> set (unitSpecs p) \<and> unitId s = u"
proof -
  have d: "distinct (map unitId (unitSpecs p))"
    and ix: "\<And>u i. unitSpecIndex p u = Some i \<longleftrightarrow> i < length (unitSpecs p) \<and> unitId (unitSpecs p ! i) = u"
    using assms by (auto simp: plan_shape_def)
  have "get_spec p u = Inr s \<longleftrightarrow> (\<exists>i. unitSpecIndex p u = Some i \<and> unitSpecs p ! i = s)"
    by (auto simp: get_spec_def split: option.splits)
  also have "\<dots> \<longleftrightarrow> (\<exists>i < length (unitSpecs p). unitId (unitSpecs p ! i) = u \<and> unitSpecs p ! i = s)"
    by (auto simp: ix)
  also have "\<dots> \<longleftrightarrow> s \<in> set (unitSpecs p) \<and> unitId s = u" by (auto simp: in_set_conv_nth)
  finally show ?thesis .
qed

lemma get_spec_member: "plan_shape h p \<Longrightarrow> s \<in> set (unitSpecs p) \<Longrightarrow> get_spec p (unitId s) = Inr s"
  by (simp add: get_spec_Inr)

lemma require_runtime_Inr: "require_runtime h p u = Inr r \<longleftrightarrow> runtime_of h p u = Some r"
  by (auto simp: require_runtime_def runtime_of_def split: option.splits)

lemma runtime_of_domain:
  assumes c: "collation (locale_compare h)" and p: "plan_shape h p"
  shows "runtime_of h p u \<noteq> None \<longleftrightarrow> u \<in> unitId ` set (unitSpecs p)"
proof -
  have t: "ordered_tree (locale_compare h) (runtimeRoot p)"
    and k: "set (keys (runtimeRoot p)) = unitId ` set (unitSpecs p)" using p by (auto simp: plan_shape_def)
  have "runtime_of h p u = map_of (entries (runtimeRoot p)) u"
    unfolding runtime_of_def by (rule collation.get_runtime_map_of [OF c t])
  then show ?thesis by (metis k map_of_eq_None_iff set_map)
qed

lemma update_runtime_plan_Inr:
  assumes c: "collation (locale_compare h)" and p: "plan_shape h p"
    and up: "update_runtime_plan h p u r = Inr q"
  shows "same_frame p q" "plan_shape h q" "runtime_of h q = (runtime_of h p)(u \<mapsto> r)"
proof -
  from up obtain t k where t: "update_runtime_node (locale_compare h) (runtimeRoot p) u r = Inr (t, k)"
    and q: "q = p\<lparr> runtimeRoot := t,
      metrics := (metrics p)\<lparr>runtimeNodeCopies := runtimeNodeCopies (metrics p) + k\<rparr> \<rparr>"
    by (auto simp: update_runtime_plan_def and_then_Inr)
  have o: "ordered_tree (locale_compare h) (runtimeRoot p)" using p by (simp add: plan_shape_def)
  note g = collation.get_after_update [OF c o t]
  show "same_frame p q" unfolding same_frame_def q by blast
  show "plan_shape h q" using p g by (simp add: plan_shape_def q)
  show "runtime_of h q = (runtime_of h p)(u \<mapsto> r)" using g by (simp add: runtime_of_def q)
qed

lemma update_runtime_plan_total:
  assumes c: "collation (locale_compare h)" and p: "plan_shape h p" and u: "u \<in> unitId ` set (unitSpecs p)"
  shows "\<exists>q. update_runtime_plan h p u r = Inr q"
proof -
  have "ordered_tree (locale_compare h) (runtimeRoot p)" "u \<in> set (keys (runtimeRoot p))"
    using p u by (auto simp: plan_shape_def)
  from collation.update_runtime_node_ok [OF c this, of r] show ?thesis
    by (auto simp: update_runtime_plan_def)
qed

section \<open>Validation\<close>

definition spec_valid :: "host \<Rightarrow> unit_plan \<Rightarrow> provider list \<Rightarrow> unit_spec \<Rightarrow> bool" where
  "spec_valid h p authorized s \<longleftrightarrow>
     assert_spec_identity p s = Inr () \<and> routePlan s = authorized \<and>
     specHash s = hash_unit_spec h s \<and> runtime_of h p (unitId s) \<noteq> None"

lemma validate_specs_Inr:
  "validate_specs h p authorized n seen specs = Inr () \<longleftrightarrow>
     distinct (map unitId specs) \<and> set (map unitId specs) \<inter> set seen = {} \<and>
     (\<forall>i < length specs. unitSpecIndex p (unitId (specs ! i)) = Some (n + i)) \<and>
     (\<forall>s \<in> set specs. spec_valid h p authorized s)"
proof (induction specs arbitrary: n seen)
  case Nil
  then show ?case by simp
next
  case (Cons s specs)
  have all: "(\<forall>i < length (s # specs). P ((s # specs) ! i) (n + i)) \<longleftrightarrow>
      P s n \<and> (\<forall>i < length specs. P (specs ! i) (Suc n + i))" for P :: "unit_spec \<Rightarrow> nat \<Rightarrow> bool"
    by (auto simp: less_Suc_eq_0_disj)
  show ?case
    unfolding all [of "\<lambda>s i. unitSpecIndex p (unitId s) = Some i"]
    by (simp only: validate_specs.simps and_then_Inr ensure_Inr Cons.IH assert_authorized_route_plan_def)
      (auto simp: spec_valid_def runtime_of_def)
qed

text \<open>When all else is in order, the only check that can fail is the lookup of the runtimes.\<close>

lemma validate_specs_lookup:
  assumes "distinct (map unitId specs)" "set (map unitId specs) \<inter> set seen = {}"
    and "\<forall>i < length specs. unitSpecIndex p (unitId (specs ! i)) = Some (n + i)"
    and "\<forall>s \<in> set specs. assert_spec_identity p s = Inr () \<and> routePlan s = authorized \<and> specHash s = hash_unit_spec h s"
  shows "validate_specs h p authorized n seen specs =
    (if \<forall>s \<in> set specs. runtime_of h p (unitId s) \<noteq> None then Inr () else Inl RUNTIME_MISSING)"
  using assms
proof (induction specs arbitrary: n seen)
  case (Cons s specs)
  have ix: "unitSpecIndex p (unitId s) = Some n" "\<forall>i < length specs. unitSpecIndex p (unitId (specs ! i)) = Some (Suc n + i)"
    using Cons.prems(3) by (auto simp: less_Suc_eq_0_disj)
  have "validate_specs h p authorized (Suc n) (unitId s # seen) specs =
      (if \<forall>s \<in> set specs. runtime_of h p (unitId s) \<noteq> None then Inr () else Inl RUNTIME_MISSING)"
    by (rule Cons.IH [OF _ _ ix(2)]) (use Cons.prems in auto)
  then show ?case
    using Cons.prems ix(1)
    by (simp add: ensure_def assert_authorized_route_plan_def runtime_of_def)
qed simp

lemma ex_unit: "(\<exists>u :: unit. P u) \<longleftrightarrow> P ()"
  by (metis (full_types) old.unit.exhaust)

text \<open>The chain of checks as one conjunction.\<close>

lemma validate_record_unit_plan_Inr:
  "validate_record_unit_plan h p = Inr () \<longleftrightarrow>
     pl_schemaVersion p = RECORD_UNIT_SCHEMA_VERSION \<and> pl_kind p = ''record-unit-plan'' \<and>
     1 \<le> pl_maxUnits p \<and> pl_maxUnits p \<le> RECORD_UNIT_MAX_COUNT \<and> int (length (unitSpecs p)) \<le> pl_maxUnits p \<and>
     (\<exists>a. derive_authorized_route_plan h (pl_route p) (pl_autoPolicy p) = Inr a \<and>
          validate_specs h p a 0 [] (unitSpecs p) = Inr ()) \<and>
     length (keys (runtimeRoot p)) = length (unitSpecs p) \<and>
     set (keys (runtimeRoot p)) \<subseteq> set (map unitId (unitSpecs p)) \<and>
     assert_spec_graph h (unitSpecs p) = Inr () \<and> assert_prompt_recipes h (unitSpecs p) = Inr () \<and>
     (\<exists>ls. derive_layers h (unitSpecs p) = Inr ls \<and>
          canonical_text h (layers_json ls) = canonical_text h (layers_json (layers p))) \<and>
     compute_plan_hash h p (unitSpecs p) (layers p) = planHash p"
proof -
  have r: "derive_authorized_route_plan h r a = Inr x \<Longrightarrow> assert_declared_route_policy h r a = Inr ()" for r a x
    by (auto simp: derive_authorized_route_plan_def and_then_Inr)
  show ?thesis
    by (simp only: validate_record_unit_plan_def and_then_Inr ensure_Inr ex_unit collect_runtime_keys_eq Let_def)
      (use r in blast)
qed

text \<open>Updating a runtime of a valid plan leaves it valid: only the set of keys is checked.\<close>

lemma update_runtime_plan_valid:
  assumes c: "collation (locale_compare h)" and p: "plan_shape h p"
    and v: "validate_record_unit_plan h p = Inr ()" and up: "update_runtime_plan h p u r = Inr q"
  shows "validate_record_unit_plan h q = Inr ()"
proof -
  note f = update_runtime_plan_Inr [OF c p up]
  note e = same_frame_simps [OF f(1)]
  have dom: "runtime_of h p x \<noteq> None \<Longrightarrow> runtime_of h q x \<noteq> None" for x
    by (simp add: f(3))
  have "assert_spec_identity q = assert_spec_identity p"
    by (simp add: fun_eq_iff assert_spec_identity_def e)
  then have spec: "spec_valid h p a s \<Longrightarrow> spec_valid h q a s" for a s
    using dom by (simp add: spec_valid_def)
  have specs: "validate_specs h q a 0 [] (unitSpecs p) = Inr ()"
    if "validate_specs h p a 0 [] (unitSpecs p) = Inr ()" for a
    using that spec by (auto simp: validate_specs_Inr e)
  obtain t k where "update_runtime_node (locale_compare h) (runtimeRoot p) u r = Inr (t, k)" "runtimeRoot q = t"
    using up by (auto simp: update_runtime_plan_def and_then_Inr)
  with collation.get_after_update [OF c, of "runtimeRoot p" u r] p
  have ks: "keys (runtimeRoot q) = keys (runtimeRoot p)" by (auto simp: plan_shape_def)
  have hash: "compute_plan_hash h q ss ls = compute_plan_hash h p ss ls" for ss ls
    by (simp add: compute_plan_hash_def e)
  from v specs show ?thesis
    unfolding validate_record_unit_plan_Inr e ks hash by blast
qed

section \<open>Creating a plan\<close>

lemma raw_spec_simps [simp]:
  "unitId (raw_spec_from_input i rs u) = in_unitId u" "active (raw_spec_from_input i rs u)"
  "dependencies (raw_spec_from_input i rs u) = in_dependencies u"
  "spec_node (raw_spec_from_input i rs u) = \<lparr> nd_unitId = in_unitId u, nd_dependencies = in_dependencies u \<rparr>"
  "spec_link (raw_spec_from_input i rs u) =
     \<lparr> lk_unitId = in_unitId u, lk_composeOrder = in_composeOrder u, lk_childOrder = 0,
       lk_range = in_range u, lk_continuationKey = in_continuationKey u, lk_dependencies = in_dependencies u \<rparr>"
  by (simp_all add: raw_spec_from_input_def spec_node_def spec_link_def)

lemma active_raw_specs [simp]:
  "active_specs (map (raw_spec_from_input i rs) us) = map (raw_spec_from_input i rs) us"
  by (simp add: active_specs_def filter_map comp_def)

lemma assert_input_graph_spec_graph:
  assumes "assert_input_graph h us = Inr ()"
  shows "distinct (map in_unitId us)" "assert_spec_graph h (map (raw_spec_from_input i rs) us) = Inr ()"
proof -
  from assms have len: "length (unique_list (map in_unitId us)) = length us"
    and deps: "\<forall>u \<in> set us. \<forall>d \<in> set (in_dependencies u). d \<in> in_unitId ` set us"
    and acyc: "assert_acyclic (map (\<lambda>u. \<lparr> nd_unitId = in_unitId u, nd_dependencies = in_dependencies u \<rparr>) us) = Inr ()"
    and cont: "\<exists>f. continuation_predecessors h (map (\<lambda>u.
          \<lparr> lk_unitId = in_unitId u, lk_composeOrder = in_composeOrder u, lk_childOrder = 0,
            lk_range = in_range u, lk_continuationKey = in_continuationKey u,
            lk_dependencies = in_dependencies u \<rparr>) us) = Inr f"
    by (auto simp: assert_input_graph_def Let_def result_simps split: if_splits)
  from len show "distinct (map in_unitId us)"
    by (metis card_distinct distinct_card distinct_unique_list length_map set_unique_list)
  from deps acyc cont show "assert_spec_graph h (map (raw_spec_from_input i rs) us) = Inr ()"
    by (auto simp: assert_spec_graph_def Let_def result_simps comp_def image_image)
qed

lemma assert_spec_graph_layers:
  assumes d: "distinct (map unitId (active_specs ss))" and g: "assert_spec_graph h ss = Inr ()"
  shows "\<exists>ls. derive_layers h ss = Inr ls"
proof -
  have n: "map nd_unitId (map spec_node (active_specs ss)) = map unitId (active_specs ss)" by simp
  from g have "assert_acyclic (map spec_node (active_specs ss)) = Inr ()"
    by (auto simp: assert_spec_graph_def Let_def and_then_Inr)
  with assert_acyclic_iff [of "map spec_node (active_specs ss)"] d
  show ?thesis unfolding derive_layers_iff [OF d] by (fastforce simp: topological_rank_def ids_def)
qed

lemma runtime_tree_of_specs:
  assumes c: "collation (locale_compare h)" and d: "distinct (map unitId specs)"
  shows "get_runtime (locale_compare h) (build_runtime_tree (locale_compare h) (map (\<lambda>s. (unitId s, f s)) specs)) u
     = map_option f (find (\<lambda>s. unitId s = u) specs)"
    and "ordered_tree (locale_compare h) (build_runtime_tree (locale_compare h) (map (\<lambda>s. (unitId s, f s)) specs))"
    and "set (keys (build_runtime_tree (locale_compare h) (map (\<lambda>s. (unitId s, f s)) specs))) = unitId ` set specs"
    and "length (keys (build_runtime_tree (locale_compare h) (map (\<lambda>s. (unitId s, f s)) specs))) = length specs"
proof -
  have d': "distinct (map fst (map (\<lambda>s. (unitId s, f s)) specs))" using d by (simp add: comp_def)
  have "map_of (map (\<lambda>s. (unitId s, f s)) ss) u = map_option f (find (\<lambda>s. unitId s = u) ss)" for ss
    by (induction ss) auto
  then show "get_runtime (locale_compare h) (build_runtime_tree (locale_compare h) (map (\<lambda>s. (unitId s, f s)) specs)) u
     = map_option f (find (\<lambda>s. unitId s = u) specs)"
    by (simp only: collation.get_build [OF c d'])
  show "ordered_tree (locale_compare h) (build_runtime_tree (locale_compare h) (map (\<lambda>s. (unitId s, f s)) specs))"
    by (rule collation.ordered_build [OF c d'])
  show "set (keys (build_runtime_tree (locale_compare h) (map (\<lambda>s. (unitId s, f s)) specs))) = unitId ` set specs"
    by (simp only: set_keys_build) (simp add: comp_def)
  show "length (keys (build_runtime_tree (locale_compare h) (map (\<lambda>s. (unitId s, f s)) specs))) = length specs"
    using length_keys_build [of "locale_compare h" "map (\<lambda>s. (unitId s, f s)) specs"] by simp
qed

lemma find_unique: "distinct (map f xs) \<Longrightarrow> x \<in> set xs \<Longrightarrow> find (\<lambda>y. f y = f x) xs = Some x"
  by (induction xs) (auto simp: rev_image_eqI)


text \<open>The plan that is built has the shape, holds the initial runtimes and passes its own check.\<close>

lemma planned_simps [simp]:
  "unitSpecs (planned h i specs ix ls) = specs" "unitSpecIndex (planned h i specs ix ls) = ix"
  "layers (planned h i specs ix ls) = ls" "pl_budgets (planned h i specs ix ls) = pi_budgets i"
  "pl_route (planned h i specs ix ls) = pi_route i" "pl_autoPolicy (planned h i specs ix ls) = pi_autoPolicy i"
  "pl_maxUnits (planned h i specs ix ls) = pi_maxUnits i" "pl_taskId (planned h i specs ix ls) = pi_taskId i"
  "pl_recordId (planned h i specs ix ls) = pi_recordId i"
  "pl_sourceSnapshotId (planned h i specs ix ls) = pi_sourceSnapshotId i"
  "pl_kind (planned h i specs ix ls) = ''record-unit-plan''"
  "pl_schemaVersion (planned h i specs ix ls) = RECORD_UNIT_SCHEMA_VERSION"
  "runtimeRoot (planned h i specs ix ls) =
     build_runtime_tree (locale_compare h) (map (\<lambda>s. (unitId s, initial_runtime s)) specs)"
  "compute_plan_hash h (planned h i specs ix ls) specs ls = planHash (planned h i specs ix ls)"
  by (simp_all add: planned_def Let_def plan_identity.defs compute_plan_hash_def)

lemma planned_shape:
  assumes c: "collation (locale_compare h)" and d: "distinct (map unitId specs)"
    and ix: "\<And>u i. ix u = Some i \<longleftrightarrow> i < length specs \<and> unitId (specs ! i) = u"
  shows "plan_shape h (planned h i specs ix ls)"
  using runtime_tree_of_specs [OF c d, of initial_runtime] d ix by (simp add: plan_shape_def)

lemma planned_runtime:
  assumes c: "collation (locale_compare h)" and d: "distinct (map unitId specs)" and s: "s \<in> set specs"
  shows "runtime_of h (planned h i specs ix ls) (unitId s) = Some (initial_runtime s)"
  using runtime_tree_of_specs(1) [OF c d, of initial_runtime "unitId s"] find_unique [OF d s]
  by (simp add: runtime_of_def)

lemma raw_spec_identity:
  assumes w: "well_formed_planning_input i" and u: "u \<in> set (pi_units i)"
  shows "assert_spec_identity (planned h i specs ix ls) (normalize_spec h f (raw_spec_from_input i rs u)) = Inr ()"
proof -
  have "well_formed_spec_input (pi_sourceSnapshotId i) u" "0 \<le> in_stepCount u"
    using w u by (auto simp: well_formed_planning_input_def well_formed_spec_input_def)
  then show ?thesis
    by (auto simp: assert_spec_identity_def raw_spec_from_input_def well_formed_spec_input_def)
qed


lemma planned_lookup:
  assumes d: "distinct (map unitId specs)" and r: "runtime_of h (planned h i specs ix ls) (unitId s) \<noteq> None" and s: "s \<in> set specs"
  shows "runtime_of h (planned h i specs ix ls) (unitId s) = Some (initial_runtime s)"
proof -
  obtain v where v: "runtime_of h (planned h i specs ix ls) (unitId s) = Some v" using r by blast
  then have "(unitId s, v) \<in> set (map (\<lambda>s. (unitId s, initial_runtime s)) specs)"
    using get_runtime_entry [of "locale_compare h"] by (fastforce simp: runtime_of_def entries_build)
  then obtain t where "t \<in> set specs" "unitId t = unitId s" "v = initial_runtime t" by auto
  with d s v show ?thesis by (metis inj_onD distinct_map)
qed

lemma planned_found:
  assumes a: "tells_apart (locale_compare h) (unitId ` set specs)" and d: "distinct (map unitId specs)" and s: "s \<in> set specs"
  shows "runtime_of h (planned h i specs ix ls) (unitId s) \<noteq> None"
proof -
  let ?es = "map (\<lambda>s. (unitId s, initial_runtime s)) specs"
  have fst: "map fst ?es = map unitId specs" by simp
  have "get_runtime (locale_compare h) (build_runtime_tree (locale_compare h) ?es) (unitId s) = map_of ?es (unitId s)"
    by (rule get_build_apart) (simp_all only: fst d set_map a, use s in blast)
  moreover have "map_of ?es (unitId s) \<noteq> None" using s by (simp add: map_of_eq_None_iff image_iff) blast
  ultimately show ?thesis by (simp add: runtime_of_def)
qed

lemma planned_valid:
  assumes w: "well_formed_planning_input i"
    and r: "derive_authorized_route_plan h (pi_route i) (pi_autoPolicy i) = Inr rs"
    and d: "distinct (map in_unitId (pi_units i))"
    and n: "normalize_specs h (map (raw_spec_from_input i rs) (pi_units i)) = Inr specs"
    and ix: "\<And>u k. ix u = Some k \<longleftrightarrow> k < length specs \<and> unitId (specs ! k) = u"
    and ls: "derive_layers h specs = Inr ls"
  shows "validate_record_unit_plan h (planned h i specs ix ls) =
    (if \<forall>s \<in> set specs. runtime_of h (planned h i specs ix ls) (unitId s) \<noteq> None then Inr () else Inl RUNTIME_MISSING)"
proof -
  let ?p = "planned h i specs ix ls"
  let ?found = "\<forall>s \<in> set specs. runtime_of h ?p (unitId s) \<noteq> None"
  from n obtain f where g: "assert_spec_graph h (map (raw_spec_from_input i rs) (pi_units i)) = Inr ()"
    and f: "continuation_predecessors h (map spec_link (active_specs (map (raw_spec_from_input i rs) (pi_units i)))) = Inr f"
    and specs: "specs = map (normalize_spec h f) (map (raw_spec_from_input i rs) (pi_units i))"
    unfolding normalize_specs_Inr by blast
  have ids: "map unitId specs = map in_unitId (pi_units i)" by (simp add: specs)
  then have d': "distinct (map unitId specs)" using d by simp
  have valid: "assert_spec_identity ?p s = Inr () \<and> routePlan s = rs \<and> specHash s = hash_unit_spec h s" if "s \<in> set specs" for s
  proof -
    from that obtain u where u: "u \<in> set (pi_units i)" "s = normalize_spec h f (raw_spec_from_input i rs u)"
      by (auto simp: specs)
    show ?thesis
      using raw_spec_identity [OF w u(1)] by (simp add: u(2)) (simp add: raw_spec_from_input_def)
  qed
  have v: "validate_specs h ?p rs 0 [] specs = (if ?found then Inr () else Inl RUNTIME_MISSING)"
    by (rule validate_specs_lookup [OF d']) (use valid ix in simp_all)
  have sg: "assert_spec_graph h specs = Inr ()" using g by (simp only: specs assert_spec_graph_normalize)
  have pr: "assert_prompt_recipes h specs = Inr ()"
    unfolding specs by (rule assert_prompt_recipes_normalize [OF f])
  have ks: "set (keys (runtimeRoot ?p)) \<subseteq> set (map unitId specs)" "length (keys (runtimeRoot ?p)) = length specs"
    using set_keys_build [of "locale_compare h" "map (\<lambda>s. (unitId s, initial_runtime s)) specs"]
      length_keys_build [of "locale_compare h" "map (\<lambda>s. (unitId s, initial_runtime s)) specs"] by (simp_all add: comp_def)
  have len: "length specs = length (pi_units i)" by (simp add: specs)
  show ?thesis
  proof (cases ?found)
    case True
    then have "validate_record_unit_plan h ?p = Inr ()"
      unfolding validate_record_unit_plan_Inr using w r ls v sg pr ks len by (auto simp: well_formed_planning_input_def)
    with True show ?thesis by simp
  next
    case False
    have "assert_declared_route_policy h (pi_route i) (pi_autoPolicy i) = Inr ()"
      using r by (auto simp: derive_authorized_route_plan_def and_then_Inr)
    moreover have "validate_specs h ?p rs 0 [] specs = Inl RUNTIME_MISSING" unfolding v by (rule if_not_P [OF False])
    ultimately have "validate_record_unit_plan h ?p = Inl RUNTIME_MISSING"
      using w r len by (simp add: validate_record_unit_plan_def ensure_def well_formed_planning_input_def)
    with False show ?thesis by simp
  qed
qed

text \<open>
  Of an input that parses and whose graph is accepted, \<open>createRecordUnitPlan\<close> builds the plan; the one later check
  that can fail is the lookup of the runtimes in the new tree.
\<close>

lemma parse_planning_input_routes:
  assumes "parse_planning_input h v = Inr i"
  shows "\<exists>rs. derive_authorized_route_plan h (pi_route i) (pi_autoPolicy i) = Inr rs"
  using assms
  by (rule parse_planning_input_parts)
    (auto dest: parse_declared_auto_policy_authorized simp: derive_authorized_route_plan_def)

lemma create_record_unit_plan_built:
  assumes pa: "parse_planning_input h v = Inr i" and g: "assert_input_graph h (pi_units i) = Inr ()"
  obtains rs specs ix ls where
    "derive_authorized_route_plan h (pi_route i) (pi_autoPolicy i) = Inr rs"
    "normalize_specs h (map (raw_spec_from_input i rs) (pi_units i)) = Inr specs"
    "distinct (map unitId specs)" "map unitId specs = map in_unitId (pi_units i)"
    "\<forall>u k. ix u = Some k \<longleftrightarrow> k < length specs \<and> unitId (specs ! k) = u"
    "derive_layers h specs = Inr ls"
    "validate_record_unit_plan h (planned h i specs ix ls) =
       (if \<forall>s \<in> set specs. runtime_of h (planned h i specs ix ls) (unitId s) \<noteq> None then Inr () else Inl RUNTIME_MISSING)"
    "create_record_unit_plan h v =
       (if \<forall>s \<in> set specs. runtime_of h (planned h i specs ix ls) (unitId s) \<noteq> None
        then Inr (planned h i specs ix ls) else Inl RUNTIME_MISSING)"
proof -
  obtain rs where rs: "derive_authorized_route_plan h (pi_route i) (pi_autoPolicy i) = Inr rs"
    using parse_planning_input_routes [OF pa] by blast
  have sg: "distinct (map in_unitId (pi_units i))"
    "assert_spec_graph h (map (raw_spec_from_input i rs) (pi_units i)) = Inr ()"
    using assert_input_graph_spec_graph [OF g] by simp_all
  obtain specs where n: "normalize_specs h (map (raw_spec_from_input i rs) (pi_units i)) = Inr specs"
    using normalize_specs_total [OF sg(2)] by blast
  then obtain f where specs: "specs = map (normalize_spec h f) (map (raw_spec_from_input i rs) (pi_units i))"
    unfolding normalize_specs_Inr by blast
  then have ids: "map unitId specs = map in_unitId (pi_units i)"
    and acts: "active_specs specs = specs"
    by (simp, simp only: specs active_specs_normalize active_raw_specs)
  with sg have d: "distinct (map unitId specs)" by simp
  obtain ix where ix: "build_spec_index specs = Inr ix"
    "\<And>u k. ix u = Some k \<longleftrightarrow> k < length specs \<and> unitId (specs ! k) = u"
    using build_spec_index_ok [OF d] by blast
  have "assert_spec_graph h specs = Inr ()" using sg(2) by (simp only: specs assert_spec_graph_normalize)
  then obtain ls where ls: "derive_layers h specs = Inr ls"
    using assert_spec_graph_layers [of specs] d acts by auto
  note v = planned_valid [OF parse_planning_input_well_formed [OF pa] rs sg(1) n ix(2) ls]
  have "create_record_unit_plan h v =
      and_then (validate_record_unit_plan h (planned h i specs ix ls)) (\<lambda>_. Inr (planned h i specs ix ls))"
    by (simp only: create_record_unit_plan_def pa g rs n ix(1) ls Let_def and_then.simps)
  moreover have "and_then (if b then Inr () else Inl x) (\<lambda>_. m) = (if b then m else Inl x)" for b x and m :: "unit_plan res"
    by simp
  ultimately have "create_record_unit_plan h v =
       (if \<forall>s \<in> set specs. runtime_of h (planned h i specs ix ls) (unitId s) \<noteq> None
        then Inr (planned h i specs ix ls) else Inl RUNTIME_MISSING)"
    by (simp only: v)
  moreover have "\<forall>u k. ix u = Some k \<longleftrightarrow> k < length specs \<and> unitId (specs ! k) = u" using ix(2) by blast
  ultimately show ?thesis using that rs n d ids ls v by blast
qed

lemma create_record_unit_plan_steps:
  assumes c: "collation (locale_compare h)" and pa: "parse_planning_input h v = Inr i"
    and g: "assert_input_graph h (pi_units i) = Inr ()"
  obtains rs specs ix ls where
    "derive_authorized_route_plan h (pi_route i) (pi_autoPolicy i) = Inr rs"
    "normalize_specs h (map (raw_spec_from_input i rs) (pi_units i)) = Inr specs"
    "distinct (map unitId specs)" "map unitId specs = map in_unitId (pi_units i)"
    "\<forall>u k. ix u = Some k \<longleftrightarrow> k < length specs \<and> unitId (specs ! k) = u"
    "derive_layers h specs = Inr ls"
    "create_record_unit_plan h v = Inr (planned h i specs ix ls)"
    "validate_record_unit_plan h (planned h i specs ix ls) = Inr ()"
proof (rule create_record_unit_plan_built [OF pa g])
  fix rs specs ix ls
  let ?p = "planned h i specs ix ls"
  assume s: "derive_authorized_route_plan h (pi_route i) (pi_autoPolicy i) = Inr rs"
    "normalize_specs h (map (raw_spec_from_input i rs) (pi_units i)) = Inr specs"
    "distinct (map unitId specs)" "map unitId specs = map in_unitId (pi_units i)"
    "\<forall>u k. ix u = Some k \<longleftrightarrow> k < length specs \<and> unitId (specs ! k) = u" "derive_layers h specs = Inr ls"
    and v: "validate_record_unit_plan h ?p =
       (if \<forall>s \<in> set specs. runtime_of h ?p (unitId s) \<noteq> None then Inr () else Inl RUNTIME_MISSING)"
    and cr: "create_record_unit_plan h v =
       (if \<forall>s \<in> set specs. runtime_of h ?p (unitId s) \<noteq> None then Inr ?p else Inl RUNTIME_MISSING)"
  have f: "\<forall>s \<in> set specs. runtime_of h ?p (unitId s) \<noteq> None"
    by (intro ballI planned_found [OF collation_tells_apart [OF c] s(3)])
  show thesis by (rule that [OF s]) (simp_all only: cr v if_P [OF f])
qed

lemma create_record_unit_plan_Inr:
  assumes c: "collation (locale_compare h)" and ok: "create_record_unit_plan h v = Inr p"
  shows "plan_shape h p" "validate_record_unit_plan h p = Inr ()"
    "\<forall>s \<in> set (unitSpecs p). runtime_of h p (unitId s) = Some (initial_runtime s)"
proof -
  from ok obtain i where pa: "parse_planning_input h v = Inr i" "assert_input_graph h (pi_units i) = Inr ()"
    by (auto simp: create_record_unit_plan_def and_then_Inr)
  obtain rs specs ix ls where s: "distinct (map unitId specs)"
    "\<forall>u k. ix u = Some k \<longleftrightarrow> k < length specs \<and> unitId (specs ! k) = u"
    "create_record_unit_plan h v = Inr (planned h i specs ix ls)"
    "validate_record_unit_plan h (planned h i specs ix ls) = Inr ()"
    by (rule create_record_unit_plan_steps [OF c pa]) (rule that; assumption)
  with ok have p: "p = planned h i specs ix ls" by simp
  show "plan_shape h p" unfolding p by (rule planned_shape [OF c s(1)]) (use s(2) in blast)
  show "validate_record_unit_plan h p = Inr ()" unfolding p by (rule s(4))
  show "\<forall>s \<in> set (unitSpecs p). runtime_of h p (unitId s) = Some (initial_runtime s)"
    unfolding p using planned_runtime [OF c s(1)] by simp
qed

end
