(* ===== verification/UnitRun.thy ===== *)
theory UnitRun
  imports UnitPlanFacts
begin

text \<open>
  The life of a unit (memory-store/src/record-unit-engine.ts): eligibility, dispatch with the
  choice of a provider, success, failure and the resolution of an unknown outcome
  (\<open>getRecordUnitEligibility\<close>, \<open>startRecordUnit\<close>, \<open>selectProvider\<close>, \<open>succeedRecordUnit\<close>,
  \<open>failRecordUnitAttempt\<close>, \<open>resolveRecordUnitUnknownOutcome\<close>). Each operation maps a plan to a
  new plan or to the error it throws.
\<close>

section \<open>Eligibility\<close>

datatype eligibility_reason =
    ETerminal | EDependency | EDependencyFailed | EUnknownGrace | ENeedsFence | EBackoff | EUnitBudget | EReady

fun reason_text :: "eligibility_reason \<Rightarrow> string" where
  "reason_text ETerminal = ''terminal''"
| "reason_text EDependency = ''dependency''"
| "reason_text EDependencyFailed = ''dependency-failed''"
| "reason_text EUnknownGrace = ''unknown-grace''"
| "reason_text ENeedsFence = ''needs-fence-advance''"
| "reason_text EBackoff = ''backoff''"
| "reason_text EUnitBudget = ''unit-budget''"
| "reason_text EReady = ''ready''"

record eligibility =
  eligible :: bool
  because :: eligibility_reason

definition not_eligible :: "eligibility_reason \<Rightarrow> eligibility" where
  "not_eligible e = \<lparr> eligible = False, because = e \<rparr>"

fun dependency_block :: "host \<Rightarrow> unit_plan \<Rightarrow> string list \<Rightarrow> eligibility_reason option res" where
  "dependency_block h p [] = Inr None"
| "dependency_block h p (d # ds) =
     and_then (require_runtime h p d) (\<lambda>r.
       if state r = FailedFinal then Inr (Some EDependencyFailed)
       else if state r \<noteq> Succeeded then Inr (Some EDependency)
       else dependency_block h p ds)"

definition get_record_unit_eligibility :: "host \<Rightarrow> unit_plan \<Rightarrow> string \<Rightarrow> jnum \<Rightarrow> eligibility res" where
  "get_record_unit_eligibility h p u now =
     and_then (assert_now now) (\<lambda>t.
     and_then (get_spec p u) (\<lambda>s.
     and_then (require_runtime h p u) (\<lambda>r.
       if \<not> active s \<or> state r = Succeeded \<or> state r = FailedFinal \<or> state r = Split then Inr (not_eligible ETerminal)
       else and_then (dependency_block h p (dependencies s)) (\<lambda>b.
         case b of
           Some e \<Rightarrow> Inr (not_eligible e)
         | None \<Rightarrow>
           if state r = UnknownOutcomeState then
             Inr (not_eligible (case unknownOutcome r of
                 Some un \<Rightarrow> if t < graceUntil un then EUnknownGrace else ENeedsFence
               | None \<Rightarrow> ENeedsFence))
           else if (case nextEligibleAt r of Some e \<Rightarrow> t < e | None \<Rightarrow> False) then Inr (not_eligible EBackoff)
           else if b_unitAttempts (pl_budgets p) \<le> unitAttempts r then Inr (not_eligible EUnitBudget)
           else Inr \<lparr> eligible = True, because = EReady \<rparr>))))"

definition get_record_unit_layer_completion :: "host \<Rightarrow> unit_plan \<Rightarrow> nat \<Rightarrow> layer_completion res" where
  "get_record_unit_layer_completion h p n =
     (case find (\<lambda>l. layer l = n) (layers p) of
        None \<Rightarrow> Inl UNKNOWN_LAYER
      | Some l \<Rightarrow> and_then (map_ok (\<lambda>u. and_then (require_runtime h p u) (\<lambda>r. Inr (state r))) (unitIds l)) (\<lambda>states.
          Inr (if list_all (\<lambda>x. x = Succeeded) states then LayerSucceeded
               else if list_ex (\<lambda>x. x = FailedFinal) states then LayerFailed else LayerPending)))"

section \<open>Prompt resolution\<close>

text \<open>The outputs of the bound dependencies; \<open>None\<close> when one has not succeeded.\<close>

fun gather_outputs :: "host \<Rightarrow> unit_plan \<Rightarrow> dependency_binding list \<Rightarrow> (string \<times> string) list option res" where
  "gather_outputs h p [] = Inr (Some [])"
| "gather_outputs h p (b # bs) =
     and_then (require_runtime h p (db_unitId b)) (\<lambda>d.
       case (state d = Succeeded, result d) of
         (True, Some re) \<Rightarrow> and_then (gather_outputs h p bs) (\<lambda>os.
            Inr (map_option ((#) (db_unitId b, outputHash re)) os))
       | _ \<Rightarrow> Inr None)"

definition resolve_prompt_for_dispatch :: "host \<Rightarrow> unit_plan \<Rightarrow> unit_spec \<Rightarrow> unit_runtime \<Rightarrow> unit_runtime res" where
  "resolve_prompt_for_dispatch h p s r =
     (if dependencies s = [] \<or> resolved (prompt r) then Inr r
      else and_then (gather_outputs h p (dependencyBindings (promptRecipe s))) (\<lambda>outputs.
        case outputs of
          None \<Rightarrow> Inr r
        | Some os \<Rightarrow>
          let ph = prompt_hash h (promptRecipe s) os;
              ih = input_hash h (sp_sourceSnapshotId s) (sourceContentHash (provenance s)) (sp_range s) ph os
          in Inr (r\<lparr> state := Queued,
                     prompt := \<lparr> resolved = True, pr_inputHash = ih, pr_promptHash = ph, dependencyOutputs = os \<rparr> \<rparr>)))"

section \<open>The choice of a provider\<close>

type_synonym availability_map = "provider \<Rightarrow> availability option"

definition available_state :: "availability_map \<Rightarrow> provider \<Rightarrow> availability" where
  "available_state av q = (case av q of None \<Rightarrow> Available | Some a \<Rightarrow> a)"

datatype selection =
    Selected provider int bool string
  | WaitingCapacity string
  | NoProvider string

fun index_of :: "'a \<Rightarrow> 'a list \<Rightarrow> int" where
  "index_of x [] = -1"
| "index_of x (y # ys) = (if x = y then 0 else (let i = index_of x ys in if i < 0 then -1 else i + 1))"

definition overflow_target :: "unit_plan \<Rightarrow> unit_spec \<Rightarrow> unit_runtime \<Rightarrow> availability_map \<Rightarrow> int \<Rightarrow> provider \<Rightarrow> (provider \<times> int) option" where
  "overflow_target p s r av index q =
     (case pl_autoPolicy p of
        Some policy \<Rightarrow>
          if pl_route p = Auto \<and> enabled (overflow policy) \<and> q = ov_from (overflow policy) \<and>
             index < index_of (ov_to (overflow policy)) (routePlan s) \<and>
             ov_to (overflow policy) \<notin> set (attemptedProviders r) \<and>
             available_state av (ov_to (overflow policy)) = Available
          then Some (ov_to (overflow policy), index_of (ov_to (overflow policy)) (routePlan s))
          else None
      | None \<Rightarrow> None)"

fun scan_routes :: "unit_plan \<Rightarrow> unit_spec \<Rightarrow> unit_runtime \<Rightarrow> availability_map \<Rightarrow> int \<Rightarrow> provider list \<Rightarrow> selection" where
  "scan_routes p s r av index [] = NoProvider ''route-exhausted''"
| "scan_routes p s r av index (q # qs) =
     (if q \<in> set (attemptedProviders r) then scan_routes p s r av (index + 1) qs
      else case available_state av q of
        Unavailable \<Rightarrow> scan_routes p s r av (index + 1) qs
      | CapacityFull \<Rightarrow>
          (case overflow_target p s r av index q of
             Some (target, i) \<Rightarrow> Selected target i True ''agy-first-run-overflow''
           | None \<Rightarrow> WaitingCapacity (''provider-capacity-full:'' @ provider_name q))
      | Available \<Rightarrow> Selected q index True ''next-route-provider'')"

definition select_route :: "unit_plan \<Rightarrow> unit_spec \<Rightarrow> unit_runtime \<Rightarrow> availability_map \<Rightarrow> selection" where
  "select_route p s r av =
     (if b_routeAttempts (pl_budgets p) \<le> routeAttempts r then NoProvider ''route-budget''
      else scan_routes p s r av (routeCursor r + 1) (drop (nat (routeCursor r + 1)) (routePlan s)))"

definition select_provider :: "unit_plan \<Rightarrow> unit_spec \<Rightarrow> unit_runtime \<Rightarrow> availability_map \<Rightarrow> selection" where
  "select_provider p s r av =
     (case currentProvider r of
        Some q \<Rightarrow>
          if available_state av q = Available \<and> providerAttemptCounts r q < b_providerAttempts (pl_budgets p)
          then Selected q (routeCursor r) False ''retry-current-provider''
          else if available_state av q = CapacityFull
          then WaitingCapacity (''provider-capacity-full:'' @ provider_name q)
          else select_route p s r av
      | None \<Rightarrow> select_route p s r av)"

section \<open>startRecordUnit\<close>

datatype start_action = Dispatch | Blocked | WaitCapacity | NeedsFenceAdvance | FailedFinalAction

record unknown_action =
  ua_attemptId :: string
  ua_provider :: provider
  ua_previousFence :: int
  ua_graceUntil :: int

record start_result =
  st_plan :: unit_plan
  action :: start_action
  reason :: string
  unknownAction :: "unknown_action option"
  attempt :: "unit_attempt option"

definition started :: "unit_plan \<Rightarrow> start_action \<Rightarrow> string \<Rightarrow> start_result" where
  "started p a why = \<lparr> st_plan = p, action = a, reason = why, unknownAction = None, attempt = None \<rparr>"

definition attempt_id :: "string \<Rightarrow> int \<Rightarrow> string" where
  "attempt_id u n = u @ '':attempt:'' @ show_int n"

definition next_attempt :: "host \<Rightarrow> unit_spec \<Rightarrow> unit_runtime \<Rightarrow> provider \<Rightarrow> int \<Rightarrow> unit_attempt" where
  "next_attempt h s r q t =
     \<lparr> attemptId = attempt_id (unitId s) (unitAttempts r + 1), at_provider = q, at_fence = fence r + 1,
       dispatchedAt = t, at_inputHash = pr_inputHash (prompt r),
       at_provenanceHash = effective_provenance_hash h s (pr_promptHash (prompt r)) \<rparr>"

definition dispatched :: "unit_runtime \<Rightarrow> unit_attempt \<Rightarrow> int \<Rightarrow> bool \<Rightarrow> unit_runtime" where
  "dispatched r a cursor isRouteTransition =
     (let q = at_provider a in
      r\<lparr> state := Running, routeCursor := cursor, currentProvider := Some q,
         attemptedProviders := (if q \<in> set (attemptedProviders r) then attemptedProviders r
                                else attemptedProviders r @ [q]),
         providerAttemptCounts := (providerAttemptCounts r)(q := providerAttemptCounts r q + 1),
         routeAttempts := routeAttempts r + (if isRouteTransition then 1 else 0),
         unitAttempts := unitAttempts r + 1, nextEligibleAt := None, currentAttempt := Some a,
         unknownOutcome := None, fence := at_fence a \<rparr>)"

text \<open>The branches of a unit that is not eligible.\<close>

definition start_not_eligible :: "host \<Rightarrow> unit_plan \<Rightarrow> string \<Rightarrow> unit_runtime \<Rightarrow> eligibility_reason \<Rightarrow> start_result res" where
  "start_not_eligible h p u r e =
     (if e = ENeedsFence then
        (case unknownOutcome r of
           None \<Rightarrow> Inl JS_TYPE_ERROR
         | Some un \<Rightarrow> Inr \<lparr> st_plan = p, action = NeedsFenceAdvance, reason = ''reconcile-or-persist-new-fence'',
             unknownAction = Some \<lparr> ua_attemptId = un_attemptId un, ua_provider = un_provider un,
               ua_previousFence = un_fence un, ua_graceUntil = graceUntil un \<rparr>, attempt = None \<rparr>)
      else if e = EDependencyFailed \<or> e = EUnitBudget then
        and_then (update_runtime_plan h p u
            (r\<lparr> state := FailedFinal, currentProvider := None, currentAttempt := None,
               unknownOutcome := None, nextEligibleAt := None \<rparr>)) (\<lambda>p'.
          Inr (started p' FailedFinalAction (reason_text e)))
      else
        let st = (if e = EDependency then BlockedDependency else if e = EBackoff then WaitingBackoff else state r) in
        and_then (if st = state r then Inr p else update_runtime_plan h p u (r\<lparr>state := st\<rparr>)) (\<lambda>p'.
          Inr (started p' Blocked (reason_text e))))"

definition start_selected :: "host \<Rightarrow> unit_plan \<Rightarrow> unit_spec \<Rightarrow> unit_runtime \<Rightarrow> int \<Rightarrow> selection \<Rightarrow> start_result res" where
  "start_selected h p s r t sel =
     (case sel of
        NoProvider why \<Rightarrow>
          and_then (update_runtime_plan h p (unitId s)
              (r\<lparr> state := FailedFinal, currentProvider := None, currentAttempt := None, nextEligibleAt := None \<rparr>)) (\<lambda>p'.
            Inr (started p' FailedFinalAction why))
      | WaitingCapacity why \<Rightarrow>
          and_then (if state r = Queued then Inr p else update_runtime_plan h p (unitId s) (r\<lparr>state := Queued\<rparr>)) (\<lambda>p'.
            Inr (started p' WaitCapacity why))
      | Selected q cursor transition why \<Rightarrow>
          let a = next_attempt h s r q t in
          and_then (update_runtime_plan h p (unitId s) (dispatched r a cursor transition)) (\<lambda>p'.
            Inr ((started p' Dispatch why)\<lparr>attempt := Some a\<rparr>)))"

definition start_record_unit :: "host \<Rightarrow> unit_plan \<Rightarrow> string \<Rightarrow> jnum \<Rightarrow> availability_map \<Rightarrow> start_result res" where
  "start_record_unit h p u now av =
     and_then (assert_now now) (\<lambda>t.
     and_then (get_spec p u) (\<lambda>s.
     and_then (assert_local_route_authorization h p s) (\<lambda>_.
     and_then (require_runtime h p u) (\<lambda>r.
     and_then (get_record_unit_eligibility h p u now) (\<lambda>e.
       if \<not> eligible e then start_not_eligible h p u r (because e)
       else
         and_then (resolve_prompt_for_dispatch h p s r) (\<lambda>r'.
           if \<not> resolved (prompt r') then
             and_then (update_runtime_plan h p u (r'\<lparr>state := BlockedDependency\<rparr>)) (\<lambda>p'.
               Inr (started p' Blocked ''dependency''))
           else start_selected h p s r' t (select_provider p s r' av)))))))"

section \<open>Success and failure\<close>

definition assert_current_attempt :: "unit_runtime \<Rightarrow> string \<Rightarrow> int \<Rightarrow> unit_attempt res" where
  "assert_current_attempt r a f =
     (case (state r = Running, currentAttempt r) of
        (True, Some c) \<Rightarrow> if attemptId c \<noteq> a \<or> at_fence c \<noteq> f then Inl FENCE_MISMATCH else Inr c
      | _ \<Rightarrow> Inl NO_RUNNING_ATTEMPT)"

record success_input =
  su_attemptId :: string
  su_fence :: int
  su_model :: jvalue
  su_outputHash :: jvalue
  su_qualityHash :: jvalue

definition succeed_record_unit :: "host \<Rightarrow> unit_plan \<Rightarrow> string \<Rightarrow> success_input \<Rightarrow> unit_plan res" where
  "succeed_record_unit h p u i =
     and_then (get_spec p u) (\<lambda>s.
     and_then (require_runtime h p u) (\<lambda>r.
     and_then (assert_current_attempt r (su_attemptId i) (su_fence i)) (\<lambda>a.
     and_then (parse_text (su_model i)) (\<lambda>m.
     and_then (parse_canonical_hash (su_outputHash i)) (\<lambda>oh.
     and_then (parse_canonical_hash (su_qualityHash i)) (\<lambda>qh.
       update_runtime_plan h p u
         (r\<lparr> state := Succeeded, currentProvider := None, currentAttempt := None, nextEligibleAt := None,
            result := Some \<lparr> re_attemptId = attemptId a, re_provider = at_provider a, model = m,
              re_fence = at_fence a, re_inputHash = pr_inputHash (prompt r),
              re_provenanceHash = effective_provenance_hash h s (pr_promptHash (prompt r)),
              outputHash = oh, qualityHash = qh \<rparr> \<rparr>)))))))"

record failure_input =
  fi_attemptId :: string
  fi_fence :: int
  fi_failureClass :: jvalue
  fi_now :: jnum
  fi_backoffMs :: jvalue
  fi_providerEvidence :: jvalue

definition FAILURE_CLASSES :: "failure_class list" where
  "FAILURE_CLASSES =
     [Congestion, Availability, Quality, Complexity, LocalResource, UnknownOutcome, DeterministicInput]"

definition parse_failure_class :: "jvalue \<Rightarrow> failure_class res" where
  "parse_failure_class = parse_known failure_class_name FAILURE_CLASSES"

definition parse_backoff :: "jvalue \<Rightarrow> int res" where
  "parse_backoff v = (if v = JUndef then Inr 0 else parse_safe_integer 0 v)"

definition failure_of :: "unit_attempt \<Rightarrow> failure_class \<Rightarrow> int \<Rightarrow> unit_failure" where
  "failure_of a c t =
     \<lparr> fl_attemptId = attemptId a, fl_provider = at_provider a, fl_fence = at_fence a, failureClass = c, fl_at = t \<rparr>"

definition unknown_runtime :: "unit_runtime \<Rightarrow> unit_attempt \<Rightarrow> int \<Rightarrow> string \<Rightarrow> unit_runtime" where
  "unknown_runtime r a t evidence =
     (let grace = t + RECORD_UNIT_UNKNOWN_OUTCOME_GRACE_MS in
      r\<lparr> state := UnknownOutcomeState, currentProvider := None, currentAttempt := None, nextEligibleAt := Some grace,
         unknownOutcome := Some \<lparr> un_attemptId = attemptId a, un_provider = at_provider a, un_fence = at_fence a,
           un_dispatchedAt = dispatchedAt a, graceUntil = grace, providerEvidence = evidence \<rparr>,
         failureHistory := failureHistory r @ [failure_of a UnknownOutcome t],
         lastFailureClass := Some UnknownOutcome \<rparr>)"

definition deterministic_runtime :: "unit_runtime \<Rightarrow> unit_attempt \<Rightarrow> int \<Rightarrow> unit_runtime" where
  "deterministic_runtime r a t =
     r\<lparr> state := FailedFinal, currentProvider := None, currentAttempt := None, nextEligibleAt := None,
        failureHistory := failureHistory r @ [failure_of a DeterministicInput t],
        lastFailureClass := Some DeterministicInput \<rparr>"

definition retry_runtime :: "budgets \<Rightarrow> unit_runtime \<Rightarrow> unit_attempt \<Rightarrow> failure_class \<Rightarrow> int \<Rightarrow> int \<Rightarrow> unit_runtime" where
  "retry_runtime b r a c t backoff =
     (let congestionRetry = (c = Congestion \<or> c = LocalResource)
            \<and> providerAttemptCounts r (at_provider a) < b_providerAttempts b \<and> unitAttempts r < b_unitAttempts b;
          nextAt = (if c = Congestion \<or> c = LocalResource then t + backoff else t);
          exhausted = b_unitAttempts b \<le> unitAttempts r
      in r\<lparr> state := (if exhausted then FailedFinal else if t < nextAt then WaitingBackoff else Queued),
            currentProvider := (if congestionRetry \<and> \<not> exhausted then Some (at_provider a) else None),
            currentAttempt := None, nextEligibleAt := (if exhausted then None else Some nextAt),
            failureHistory := failureHistory r @ [failure_of a c t], lastFailureClass := Some c \<rparr>)"

definition fail_record_unit_attempt :: "host \<Rightarrow> unit_plan \<Rightarrow> string \<Rightarrow> failure_input \<Rightarrow> unit_plan res" where
  "fail_record_unit_attempt h p u i =
     and_then (assert_now (fi_now i)) (\<lambda>t.
     and_then (get_spec p u) (\<lambda>s.
     and_then (require_runtime h p u) (\<lambda>r.
     and_then (assert_current_attempt r (fi_attemptId i) (fi_fence i)) (\<lambda>a.
     and_then (parse_failure_class (fi_failureClass i)) (\<lambda>c.
       if c = UnknownOutcome then
         and_then (parse_text (fi_providerEvidence i)) (\<lambda>evidence.
           update_runtime_plan h p u (unknown_runtime r a t evidence))
       else if c = DeterministicInput then update_runtime_plan h p u (deterministic_runtime r a t)
       else and_then (parse_backoff (fi_backoffMs i)) (\<lambda>backoff.
         update_runtime_plan h p u (retry_runtime (pl_budgets p) r a c t backoff)))))))"

section \<open>Resolving an unknown outcome\<close>

definition parse_fence_advance_evidence :: "jvalue \<Rightarrow> fence_evidence res" where
  "parse_fence_advance_evidence v =
     and_then (as_plain_object v) (\<lambda>e.
     and_then (assert_exact_keys e [''previousAttemptId'', ''previousFence'', ''advancedFence'', ''outcome'', ''evidenceHash'']) (\<lambda>_.
     and_then (parse_text (field ''previousAttemptId'' e)) (\<lambda>a.
     and_then (parse_safe_integer 1 (field ''previousFence'' e)) (\<lambda>pf.
     and_then (parse_safe_integer 1 (field ''advancedFence'' e)) (\<lambda>af.
     and_then (parse_known evidence_outcome_name [ReconciledNotFound, KnownFailure, StatusUnsupported] (field ''outcome'' e)) (\<lambda>oc.
     and_then (parse_canonical_hash (field ''evidenceHash'' e)) (\<lambda>eh.
       Inr \<lparr> previousAttemptId = a, previousFence = pf, advancedFence = af, outcome = oc, evidenceHash = eh \<rparr>)))))))"

record unknown_input =
  ui_now :: jnum
  ui_attemptId :: string
  ui_fence :: int
  ui_providerEvidence :: jvalue
  decision :: unknown_decision
  ui_advancedFence :: int
  attemptEvidence :: jvalue

definition resolved_unknown_runtime :: "budgets \<Rightarrow> unit_runtime \<Rightarrow> unknown_outcome \<Rightarrow> unknown_decision \<Rightarrow> fence_evidence \<Rightarrow> int \<Rightarrow> int \<Rightarrow> unit_runtime" where
  "resolved_unknown_runtime b r un dec evidence advanced t =
     (if dec = DecideFailFinal then
        r\<lparr> state := FailedFinal, currentProvider := None, unknownOutcome := None, nextEligibleAt := None,
           fenceAdvanceEvidence := Some evidence, fence := advanced - 1 \<rparr>
      else
        let canRetry = providerAttemptCounts r (un_provider un) < b_providerAttempts b \<and> unitAttempts r < b_unitAttempts b in
        r\<lparr> state := Queued,
           currentProvider := (if dec = RetrySameProvider \<and> canRetry then Some (un_provider un) else None),
           unknownOutcome := None, nextEligibleAt := Some t,
           fenceAdvanceEvidence := Some evidence, fence := advanced - 1 \<rparr>)"

definition resolve_record_unit_unknown_outcome :: "host \<Rightarrow> unit_plan \<Rightarrow> string \<Rightarrow> unknown_input \<Rightarrow> unit_plan res" where
  "resolve_record_unit_unknown_outcome h p u i =
     and_then (assert_now (ui_now i)) (\<lambda>t.
     and_then (require_runtime h p u) (\<lambda>r.
     and_then (case (state r = UnknownOutcomeState, unknownOutcome r) of
                 (True, Some un) \<Rightarrow> Inr un | _ \<Rightarrow> Inl NOT_UNKNOWN_OUTCOME) (\<lambda>un.
     and_then (ensure UNKNOWN_GRACE_ACTIVE (\<not> t < graceUntil un)) (\<lambda>_.
     and_then (ensure UNKNOWN_EVIDENCE_MISMATCH (ui_attemptId i = un_attemptId un \<and> ui_fence i = un_fence un)) (\<lambda>_.
     and_then (parse_text (ui_providerEvidence i)) (\<lambda>pe.
     and_then (ensure UNKNOWN_EVIDENCE_MISMATCH (pe = providerEvidence un)) (\<lambda>_.
     and_then (parse_fence_advance_evidence (attemptEvidence i)) (\<lambda>ev.
     and_then (ensure UNKNOWN_EVIDENCE_MISMATCH
         (previousAttemptId ev = un_attemptId un \<and> previousFence ev = un_fence un \<and> advancedFence ev = ui_advancedFence i)) (\<lambda>_.
     and_then (ensure FENCE_NOT_ADVANCED (un_fence un < ui_advancedFence i \<and> fence r < ui_advancedFence i)) (\<lambda>_.
       update_runtime_plan h p u
         (resolved_unknown_runtime (pl_budgets p) r un (decision i) ev (ui_advancedFence i) t)))))))))))"

text \<open>The migration of the older resolution input.\<close>

record migration_input =
  mi_now :: jnum
  mi_attemptId :: jvalue
  mi_fence :: jvalue
  mi_providerEvidence :: jvalue
  mi_decision :: unknown_decision
  mi_advancedFence :: jvalue
  mi_outcome :: evidence_outcome
  mi_evidenceHash :: jvalue

definition adapt_unknown_outcome_resolution :: "migration_input \<Rightarrow> unknown_input res" where
  "adapt_unknown_outcome_resolution i =
     and_then (parse_text (mi_attemptId i)) (\<lambda>a.
     and_then (parse_safe_integer 1 (mi_fence i)) (\<lambda>pf.
     and_then (parse_safe_integer 1 (mi_advancedFence i)) (\<lambda>af.
     and_then (parse_text (mi_providerEvidence i)) (\<lambda>pe.
     and_then (parse_canonical_hash (mi_evidenceHash i)) (\<lambda>eh.
       Inr \<lparr> ui_now = mi_now i, ui_attemptId = a, ui_fence = pf, ui_providerEvidence = JStr pe,
             decision = mi_decision i, ui_advancedFence = af,
             attemptEvidence = JObj
               [(''previousAttemptId'', JStr a), (''previousFence'', JNum (Fin (of_int pf))),
                (''advancedFence'', JNum (Fin (of_int af))),
                (''outcome'', JStr (evidence_outcome_name (mi_outcome i))), (''evidenceHash'', JStr eh)] \<rparr>)))))"

end
