(* ===== verification/UnitRunFacts.thy ===== *)
theory UnitRunFacts
  imports UnitRun
begin

text \<open>
  What the operations of \<open>UnitRun\<close> keep. \<open>runtime_ok\<close> is the invariant of one unit's runtime
  (budgets, providers, fences, the attempt of the current state), \<open>plan_ok\<close> that of a plan.
\<close>

section \<open>The choice of a provider\<close>

lemma index_of_bounds: "-1 \<le> index_of x xs \<and> index_of x xs < int (length xs)"
  by (induction xs) (auto simp: Let_def)

lemma index_of_nth: "0 \<le> index_of x xs \<Longrightarrow> xs ! nat (index_of x xs) = x"
  by (induction xs) (auto simp: Let_def nat_add_distrib split: if_splits)

lemma index_of_member: "x \<in> set xs \<longleftrightarrow> 0 \<le> index_of x xs"
  by (induction xs) (auto simp: Let_def)

text \<open>
  What a route transition guarantees: an untried and available provider that stands on the
  route at the new cursor, beyond the old one.
\<close>

definition route_choice :: "unit_spec \<Rightarrow> unit_runtime \<Rightarrow> availability_map \<Rightarrow> provider \<Rightarrow> int \<Rightarrow> bool" where
  "route_choice s r av q cursor \<longleftrightarrow>
     q \<notin> set (attemptedProviders r) \<and> available_state av q = Available \<and>
     routeCursor r < cursor \<and> 0 \<le> cursor \<and> cursor < int (length (routePlan s)) \<and> routePlan s ! nat cursor = q"

lemma overflow_target_Some:
  assumes "overflow_target p s r av i q = Some (target, j)" "0 \<le> i"
  shows "i < j \<and> j < int (length (routePlan s)) \<and> routePlan s ! nat j = target \<and>
    target \<notin> set (attemptedProviders r) \<and> available_state av target = Available"
  using assms index_of_bounds [of target "routePlan s"] index_of_nth [of target "routePlan s"]
  by (auto simp: overflow_target_def split: option.splits if_splits)

lemma scan_routes_Selected:
  assumes "scan_routes p s r av (int n) (drop n (routePlan s)) = Selected q cursor tr msg"
    and "routeCursor r < int n"
  shows "tr \<and> route_choice s r av q cursor"
  using assms
proof (induction "drop n (routePlan s)" arbitrary: n)
  case Nil
  then show ?case by simp
next
  case (Cons x xs)
  from Cons(2) have d: "drop n (routePlan s) = x # xs" by simp
  then have n: "n < length (routePlan s)" and x: "routePlan s ! n = x" and xs: "xs = drop (Suc n) (routePlan s)"
    by (metis drop_all linorder_le_less_linear list.distinct(1),
        metis d drop_all hd_drop_conv_nth linorder_le_less_linear list.distinct(1) list.sel(1),
        metis d drop_Suc list.sel(3) tl_drop)
  have step: "scan_routes p s r av (int n + 1) xs = Selected q cursor tr msg \<Longrightarrow> tr \<and> route_choice s r av q cursor"
    using Cons(1) [OF xs] Cons.prems(2) by (simp add: xs add.commute)
  show ?case
  proof (cases "x \<in> set (attemptedProviders r) \<or> available_state av x = Unavailable")
    case True
    with Cons.prems(1) have "scan_routes p s r av (int n + 1) xs = Selected q cursor tr msg"
      unfolding d by (auto split: if_splits)
    then show ?thesis by (rule step)
  next
    case False
    show ?thesis
    proof (cases "available_state av x")
      case Available
      then show ?thesis using Cons.prems False n x d by (auto simp: route_choice_def)
    next
      case CapacityFull
      then show ?thesis
        using Cons.prems False d by (auto simp: route_choice_def split: option.splits dest!: overflow_target_Some)
    next
      case Unavailable
      then show ?thesis using False by simp
    qed
  qed
qed

lemma select_provider_Selected:
  assumes "select_provider p s r av = Selected q cursor tr msg" and "-1 \<le> routeCursor r"
  shows "(\<not> tr \<and> currentProvider r = Some q \<and> cursor = routeCursor r \<and> available_state av q = Available \<and>
            providerAttemptCounts r q < b_providerAttempts (pl_budgets p)) \<or>
         (tr \<and> routeAttempts r < b_routeAttempts (pl_budgets p) \<and> route_choice s r av q cursor)"
proof -
  have r: "tr \<and> routeAttempts r < b_routeAttempts (pl_budgets p) \<and> route_choice s r av q cursor"
    if "select_route p s r av = Selected q cursor tr msg"
    using that scan_routes_Selected [of p s r av "nat (routeCursor r + 1)" q cursor tr msg] assms(2)
    by (auto simp: select_route_def split: if_splits)
  show ?thesis
    using assms(1) r by (auto simp: select_provider_def split: option.splits if_splits)
qed

section \<open>The invariant of a runtime\<close>

definition budget_ok :: "budgets \<Rightarrow> provider list \<Rightarrow> unit_runtime \<Rightarrow> bool" where
  "budget_ok b routes r \<longleftrightarrow>
     distinct (attemptedProviders r) \<and> set (attemptedProviders r) \<subseteq> set routes \<and>
     (\<forall>q. 0 \<le> providerAttemptCounts r q \<and> providerAttemptCounts r q \<le> b_providerAttempts b \<and>
          (0 < providerAttemptCounts r q \<longleftrightarrow> q \<in> set (attemptedProviders r))) \<and>
     unitAttempts r = sum_list (map (providerAttemptCounts r) RECORD_UNIT_PROVIDERS) \<and>
     unitAttempts r \<le> b_unitAttempts b \<and>
     routeAttempts r = int (length (attemptedProviders r)) \<and> routeAttempts r \<le> b_routeAttempts b \<and>
     -1 \<le> routeCursor r \<and> routeCursor r < int (length routes) \<and>
     (\<forall>q. currentProvider r = Some q \<longrightarrow> q \<in> set (attemptedProviders r))"

definition fence_ok :: "unit_runtime \<Rightarrow> bool" where
  "fence_ok r \<longleftrightarrow>
     0 \<le> fence r \<and> unitAttempts r \<le> fence r \<and>
     sorted_wrt (<) (map fl_fence (failureHistory r)) \<and>
     (\<forall>f \<in> set (failureHistory r). fl_fence f \<le> fence r \<and> (state r = Running \<longrightarrow> fl_fence f < fence r))"

definition phase_ok :: "host \<Rightarrow> unit_spec \<Rightarrow> unit_runtime \<Rightarrow> bool" where
  "phase_ok h s r \<longleftrightarrow>
     (state r = Running \<longrightarrow> currentAttempt r \<noteq> None) \<and>
     (\<forall>a. currentAttempt r = Some a \<longrightarrow>
        (state r = Running \<or> state r = Queued) \<and> nextEligibleAt r = None \<and> at_fence a = fence r \<and> at_provider a \<in> set (attemptedProviders r) \<and>
        attemptId a = attempt_id (unitId s) (unitAttempts r)) \<and>
     (state r = UnknownOutcomeState \<longleftrightarrow> unknownOutcome r \<noteq> None) \<and>
     (\<forall>un. unknownOutcome r = Some un \<longrightarrow>
        un_provider un \<in> set (attemptedProviders r) \<and> un_fence un \<le> fence r \<and> nextEligibleAt r = Some (graceUntil un)) \<and>
     (state r = Succeeded \<longleftrightarrow> result r \<noteq> None) \<and>
     (\<forall>re. result r = Some re \<longrightarrow>
        re_inputHash re = pr_inputHash (prompt r) \<and> re_fence re = fence r \<and>
        re_provider re \<in> set (attemptedProviders r) \<and>
        re_provenanceHash re = effective_provenance_hash h s (pr_promptHash (prompt r))) \<and>
     (state r = Split \<longleftrightarrow> \<not> active s)"

definition runtime_ok :: "host \<Rightarrow> budgets \<Rightarrow> unit_spec \<Rightarrow> unit_runtime \<Rightarrow> bool" where
  "runtime_ok h b s r \<longleftrightarrow> budget_ok b (routePlan s) r \<and> fence_ok r \<and> phase_ok h s r"

lemma initial_runtime_ok: "well_formed_budgets b \<Longrightarrow> runtime_ok h b s (initial_runtime s)"
  by (auto simp: runtime_ok_def budget_ok_def fence_ok_def phase_ok_def initial_runtime_def
      well_formed_budgets_def RECORD_UNIT_PROVIDERS_def)

lemma sum_counts_upd:
  "sum_list (map (f(q := f q + 1)) RECORD_UNIT_PROVIDERS) = sum_list (map f RECORD_UNIT_PROVIDERS) + (1 :: int)"
  by (cases q) (simp_all add: RECORD_UNIT_PROVIDERS_def)

lemma budget_ok_dispatched:
  assumes b: "budget_ok b (routePlan s) r" and u: "unitAttempts r < b_unitAttempts b" and w: "well_formed_budgets b"
    and q: "at_provider a = q"
    and sel: "(\<not> tr \<and> currentProvider r = Some q \<and> cursor = routeCursor r \<and> providerAttemptCounts r q < b_providerAttempts b) \<or>
              (tr \<and> routeAttempts r < b_routeAttempts b \<and> route_choice s r av q cursor)"
  shows "budget_ok b (routePlan s) (dispatched r a cursor tr)"
proof -
  have in_route: "q \<in> set (routePlan s)" if "route_choice s r av q cursor"
    using that by (auto simp: route_choice_def in_set_conv_nth intro!: exI [of _ "nat cursor"])
  have zero: "providerAttemptCounts r x = 0" if "x \<notin> set (attemptedProviders r)" for x
    using that b unfolding budget_ok_def by (metis order_le_less)
  show ?thesis
  proof (cases tr)
    case True
    with sel have c: "route_choice s r av q cursor" "routeAttempts r < b_routeAttempts b" by auto
    then have fresh: "q \<notin> set (attemptedProviders r)" by (simp add: route_choice_def)
    have "sum_list (map ((providerAttemptCounts r)(q := 1)) RECORD_UNIT_PROVIDERS)
        = sum_list (map (providerAttemptCounts r) RECORD_UNIT_PROVIDERS) + 1"
      using sum_counts_upd [of "providerAttemptCounts r" q] by (simp add: zero [OF fresh])
    then show ?thesis
      using b u w c in_route [OF c(1)] fresh zero [OF fresh] True q
      by (auto simp: budget_ok_def dispatched_def Let_def route_choice_def well_formed_budgets_def)
  next
    case False
    with sel have c: "currentProvider r = Some q" "cursor = routeCursor r"
      "providerAttemptCounts r q < b_providerAttempts b" by auto
    then have "q \<in> set (attemptedProviders r)" using b by (auto simp: budget_ok_def)
    then show ?thesis
      using b u c False q
      by (auto simp: budget_ok_def dispatched_def Let_def sum_counts_upd)
  qed
qed


section \<open>The invariant of a plan\<close>

text \<open>A unit that holds an attempt, an unknown outcome or a result was dispatched as it is now.\<close>

definition engaged :: "unit_runtime \<Rightarrow> bool" where
  "engaged r \<longleftrightarrow> currentAttempt r \<noteq> None \<or> unknownOutcome r \<noteq> None \<or> result r \<noteq> None"

definition succeeded_with :: "host \<Rightarrow> unit_plan \<Rightarrow> string \<Rightarrow> string \<Rightarrow> bool" where
  "succeeded_with h p d out \<longleftrightarrow>
     (\<exists>rd re. runtime_of h p d = Some rd \<and> state rd = Succeeded \<and> result rd = Some re \<and> outputHash re = out)"

definition dependencies_done :: "host \<Rightarrow> unit_plan \<Rightarrow> unit_spec \<Rightarrow> bool" where
  "dependencies_done h p s \<longleftrightarrow> (\<forall>d \<in> set (dependencies s). \<exists>rd. runtime_of h p d = Some rd \<and> state rd = Succeeded)"

text \<open>A resolved prompt of a dependent unit holds the outputs of its bound dependencies.\<close>

definition prompt_bound :: "host \<Rightarrow> unit_plan \<Rightarrow> unit_spec \<Rightarrow> unit_runtime \<Rightarrow> bool" where
  "prompt_bound h p s r \<longleftrightarrow>
     (dependencies s \<noteq> [] \<and> resolved (prompt r) \<longrightarrow>
        list_all2 (\<lambda>d (u, out). u = d \<and> succeeded_with h p u out) (dependencies s) (dependencyOutputs (prompt r)))"

definition unit_ok :: "host \<Rightarrow> unit_plan \<Rightarrow> unit_spec \<Rightarrow> unit_runtime \<Rightarrow> bool" where
  "unit_ok h p s r \<longleftrightarrow>
     runtime_ok h (pl_budgets p) s r \<and> prompt_bound h p s r \<and>
     (engaged r \<longrightarrow> resolved (prompt r)) \<and>
     (engaged r \<or> \<not> active s \<or> (lastFailureClass r \<noteq> None \<and> splitDepth s < 1) \<longrightarrow> dependencies_done h p s)"

text \<open>Every spec is what normalising it again gives.\<close>

definition specs_normal :: "host \<Rightarrow> unit_plan \<Rightarrow> bool" where
  "specs_normal h p \<longleftrightarrow>
     (\<exists>f. continuation_predecessors h (map spec_link (active_specs (unitSpecs p))) = Inr f \<and>
          (\<forall>s \<in> set (unitSpecs p). normalize_spec h f s = s))"

definition plan_ok :: "host \<Rightarrow> unit_plan \<Rightarrow> bool" where
  "plan_ok h p \<longleftrightarrow>
     plan_shape h p \<and> validate_record_unit_plan h p = Inr () \<and> well_formed_budgets (pl_budgets p) \<and>
     specs_normal h p \<and>
     (\<forall>s \<in> set (unitSpecs p). \<forall>r. runtime_of h p (unitId s) = Some r \<longrightarrow> unit_ok h p s r)"

lemma specs_normal_bindings:
  "specs_normal h p \<Longrightarrow> s \<in> set (unitSpecs p) \<Longrightarrow> map db_unitId (dependencyBindings (promptRecipe s)) = dependencies s"
proof -
  have n: "map db_unitId (dependencyBindings (promptRecipe (normalize_spec h f t))) = dependencies t" for f t
    by (simp add: normalize_spec_def Let_def build_prompt_recipe_def comp_def)
  show "specs_normal h p \<Longrightarrow> s \<in> set (unitSpecs p) \<Longrightarrow> ?thesis"
    unfolding specs_normal_def using n [of _ s] by metis
qed

lemma plan_ok_unit:
  "plan_ok h p \<Longrightarrow> s \<in> set (unitSpecs p) \<Longrightarrow> runtime_of h p (unitId s) = Some r \<Longrightarrow> unit_ok h p s r"
  by (simp add: plan_ok_def)

lemma unit_ok_mono:
  assumes keep: "\<And>d rd. runtime_of h p d = Some rd \<Longrightarrow> state rd = Succeeded \<Longrightarrow> runtime_of h q d = Some rd"
    and b: "pl_budgets q = pl_budgets p" and ok: "unit_ok h p s r"
  shows "unit_ok h q s r"
proof -
  have w: "succeeded_with h p d out \<Longrightarrow> succeeded_with h q d out" for d out
    using keep by (fastforce simp: succeeded_with_def)
  have "prompt_bound h p s r \<Longrightarrow> prompt_bound h q s r"
    by (auto simp: prompt_bound_def intro: list_all2_mono w)
  moreover have "dependencies_done h p s \<Longrightarrow> dependencies_done h q s"
    using keep by (fastforce simp: dependencies_done_def)
  ultimately show ?thesis using ok b by (auto simp: unit_ok_def)
qed

text \<open>Replacing the runtime of one unit that has not succeeded.\<close>

lemma plan_ok_update:
  assumes c: "collation (locale_compare h)" and p: "plan_ok h p" and s: "s \<in> set (unitSpecs p)"
    and r: "runtime_of h p (unitId s) = Some r" "state r \<noteq> Succeeded"
    and r': "unit_ok h p s r'" and up: "update_runtime_plan h p (unitId s) r' = Inr q"
  shows "plan_ok h q"
proof -
  have sh: "plan_shape h p" and v: "validate_record_unit_plan h p = Inr ()"
    using p by (auto simp: plan_ok_def)
  note f = update_runtime_plan_Inr [OF c sh up]
  note e = same_frame_simps [OF f(1)]
  have keep: "runtime_of h q d = Some rd" if "runtime_of h p d = Some rd" "state rd = Succeeded" for d rd
    using that r by (auto simp: f(3))
  have unit: "unit_ok h q t rt" if t: "t \<in> set (unitSpecs p)" and rt: "runtime_of h q (unitId t) = Some rt" for t rt
  proof -
    have "unit_ok h p t rt"
    proof (cases "unitId t = unitId s")
      case True
      with sh t s have "t = s" by (auto simp: plan_shape_def distinct_map inj_on_def)
      with rt r' show ?thesis by (simp add: f(3))
    next
      case False
      with rt have "runtime_of h p (unitId t) = Some rt" by (simp add: f(3))
      with p t show ?thesis by (simp add: plan_ok_def)
    qed
    with keep e(5) show ?thesis by (blast intro: unit_ok_mono)
  qed
  have "well_formed_budgets (pl_budgets q)" "specs_normal h q" using p by (simp_all add: e plan_ok_def specs_normal_def)
  then show ?thesis
    using f(2) update_runtime_plan_valid [OF c sh v up] unit by (simp add: plan_ok_def e)
qed

lemma attempted_positive:
  "budget_ok b routes r \<Longrightarrow> q \<in> set (attemptedProviders r) \<Longrightarrow> 0 < unitAttempts r"
proof -
  assume b: "budget_ok b routes r" and q: "q \<in> set (attemptedProviders r)"
  let ?f = "providerAttemptCounts r"
  have "0 \<le> ?f x" for x using b by (simp add: budget_ok_def)
  moreover have "0 < ?f q" using b q by (simp add: budget_ok_def)
  moreover have "unitAttempts r = ?f Grok + ?f Agy + ?f Antigravity + ?f Codex + ?f ClaudeCode"
    using b by (simp add: budget_ok_def RECORD_UNIT_PROVIDERS_def)
  ultimately show ?thesis by (cases q) (smt (verit))+
qed

definition normal_recipe :: "(string \<Rightarrow> string option) \<Rightarrow> unit_spec \<Rightarrow> prompt_recipe" where
  "normal_recipe f s = build_prompt_recipe s (if active s then f (unitId s) else None)
     (if templateId (promptRecipe s) \<noteq> [] then templateId (promptRecipe s) else template_of_kind (kind_name (unitKind s)))"

lemma normal_recipe_normalize: "normal_recipe f (normalize_spec h f s) = normal_recipe f s"
proof -
  have ne: "template_of_kind k \<noteq> []" for k by (simp add: template_of_kind_def)
  have t: "templateId (promptRecipe (normalize_spec h f s)) = templateId (normal_recipe f s)"
    by (simp add: normalize_spec_def Let_def normal_recipe_def)
  show ?thesis
    unfolding normal_recipe_def [of f "normalize_spec h f s"] t
    unfolding normal_recipe_def build_prompt_recipe_def normalize_spec_simps by (simp add: ne)
qed

definition normal_parts :: "host \<Rightarrow> prompt_recipe \<Rightarrow> unit_spec \<Rightarrow> unit_spec" where
  "normal_parts h r s =
     s\<lparr>sp_inputHash := unresolved_input_hash h (sp_sourceSnapshotId s) (sourceContentHash (provenance s)) (sp_range s)
           (unresolved_prompt_hash h r) r,
       provenance := (provenance s)\<lparr>prov_promptHash := unresolved_prompt_hash h r\<rparr>, promptRecipe := r\<rparr>"

lemma normalize_spec_parts:
  "normalize_spec h f s = (normal_parts h (normal_recipe f s) s)\<lparr>specHash := hash_unit_spec h (normal_parts h (normal_recipe f s) s)\<rparr>"
  by (simp add: normalize_spec_def Let_def normal_recipe_def normal_parts_def)

lemma normal_parts_idem:
  "normal_parts h r ((normal_parts h r s)\<lparr>specHash := x\<rparr>) = (normal_parts h r s)\<lparr>specHash := x\<rparr>"
  by (simp add: normal_parts_def)

lemma normalize_spec_idem: "normalize_spec h f (normalize_spec h f s) = normalize_spec h f s"
  unfolding normalize_spec_parts [of h f "normalize_spec h f s"] normal_recipe_normalize
  unfolding normalize_spec_parts [of h f s] normal_parts_idem by simp

lemma create_record_unit_plan_normal:
  assumes "create_record_unit_plan h v = Inr p"
  shows "\<exists>f. continuation_predecessors h (map spec_link (active_specs (unitSpecs p))) = Inr f \<and>
     (\<forall>s \<in> set (unitSpecs p). normalize_spec h f s = s)" "\<forall>s \<in> set (unitSpecs p). active s"
proof -
  from assms obtain i rs where n: "normalize_specs h (map (raw_spec_from_input i rs) (pi_units i)) = Inr (unitSpecs p)"
    by (auto simp: create_record_unit_plan_def and_then_Inr Let_def)
  then obtain f where f: "continuation_predecessors h (map spec_link (active_specs (map (raw_spec_from_input i rs) (pi_units i)))) = Inr f"
    and s: "unitSpecs p = map (normalize_spec h f) (map (raw_spec_from_input i rs) (pi_units i))"
    unfolding normalize_specs_Inr by blast
  have "map spec_link (active_specs (unitSpecs p)) = map spec_link (active_specs (map (raw_spec_from_input i rs) (pi_units i)))"
    by (simp only: s active_specs_normalize) (simp add: comp_def)
  with f show "\<exists>f. continuation_predecessors h (map spec_link (active_specs (unitSpecs p))) = Inr f \<and>
     (\<forall>s \<in> set (unitSpecs p). normalize_spec h f s = s)"
    by (auto simp: s normalize_spec_idem)
  show "\<forall>s \<in> set (unitSpecs p). active s" by (simp add: s)
qed

lemma create_plan_ok:
  assumes c: "collation (locale_compare h)" and ok: "create_record_unit_plan h v = Inr p"
  shows "plan_ok h p"
proof -
  note f = create_record_unit_plan_Inr [OF c ok]
  from ok obtain i where i: "parse_planning_input h v = Inr i" and b: "pl_budgets p = pi_budgets i"
    by (auto simp: create_record_unit_plan_def and_then_Inr Let_def)
  have w: "well_formed_budgets (pl_budgets p)"
    using parse_planning_input_well_formed [OF i] b by (simp add: well_formed_planning_input_def)
  have "unit_ok h p s (initial_runtime s)" if "active s" for s
    using initial_runtime_ok [OF w, of h s] that
    by (auto simp: unit_ok_def prompt_bound_def engaged_def initial_runtime_def initial_prompt_resolution_def)
  with f w create_record_unit_plan_normal [OF ok] show ?thesis by (auto simp: plan_ok_def specs_normal_def)
qed


section \<open>Eligibility\<close>

lemma dependency_block_None:
  "dependency_block h p ds = Inr None \<longleftrightarrow> (\<forall>d \<in> set ds. \<exists>rd. runtime_of h p d = Some rd \<and> state rd = Succeeded)"
  by (induction ds) (auto simp: and_then_Inr require_runtime_Inr split: if_splits)

lemma dependency_block_Some:
  "dependency_block h p ds = Inr (Some e) \<Longrightarrow>
     (e = EDependency \<or> e = EDependencyFailed) \<and>
     (\<exists>d \<in> set ds. \<exists>rd. runtime_of h p d = Some rd \<and> state rd \<noteq> Succeeded \<and> (e = EDependencyFailed \<longleftrightarrow> state rd = FailedFinal))"
  by (induction ds) (auto simp: and_then_Inr require_runtime_Inr split: if_splits)

lemma eligibility_cases:
  assumes e: "get_record_unit_eligibility h p u now = Inr e"
  obtains t s r where
    "assert_now now = Inr t" "get_spec p u = Inr s" "runtime_of h p u = Some r"
    "because e = ETerminal \<and> \<not> eligible e \<and> (\<not> active s \<or> state r \<in> {Succeeded, FailedFinal, Split}) \<or>
     active s \<and> state r \<notin> {Succeeded, FailedFinal, Split} \<and>
       ((because e = EDependency \<or> because e = EDependencyFailed) \<and> \<not> eligible e \<and> \<not> dependencies_done h p s \<or>
        dependencies_done h p s \<and>
          ((because e = EUnknownGrace \<or> because e = ENeedsFence) \<and> \<not> eligible e \<and> state r = UnknownOutcomeState \<or>
           state r \<noteq> UnknownOutcomeState \<and>
             (because e = EBackoff \<and> \<not> eligible e \<and> (\<exists>x. nextEligibleAt r = Some x \<and> t < x) \<or>
              (\<forall>x. nextEligibleAt r = Some x \<longrightarrow> x \<le> t) \<and>
                (because e = EUnitBudget \<and> \<not> eligible e \<and> b_unitAttempts (pl_budgets p) \<le> unitAttempts r \<or>
                 because e = EReady \<and> eligible e \<and> unitAttempts r < b_unitAttempts (pl_budgets p)))))"
proof -
  from e obtain t s r where b: "assert_now now = Inr t" "get_spec p u = Inr s" "runtime_of h p u = Some r"
    by (auto simp: get_record_unit_eligibility_def and_then_Inr require_runtime_Inr)
  have r: "require_runtime h p u = Inr r" using b by (simp add: require_runtime_Inr)
  note e' = e [unfolded get_record_unit_eligibility_def b(1,2) r and_then.simps]
  show thesis
  proof (cases "\<not> active s \<or> state r \<in> {Succeeded, FailedFinal, Split}")
    case True
    with e' have "e = not_eligible ETerminal" by auto
    with that b True show thesis by (simp add: not_eligible_def)
  next
    case alive: False
    show thesis
    proof (cases "dependency_block h p (dependencies s)")
      case (Inl x)
      with e' alive show thesis by auto
    next
      case (Inr bl)
      show thesis
      proof (cases bl)
        case (Some x)
        with e' alive Inr have "e = not_eligible x" by auto
        moreover have "x = EDependency \<or> x = EDependencyFailed"
          using dependency_block_Some [of h p "dependencies s" x] Inr Some by blast
        moreover have "\<not> dependencies_done h p s"
          using dependency_block_None [of h p "dependencies s"] Inr Some by (auto simp: dependencies_done_def)
        ultimately show thesis using that [OF b] alive by (auto simp: not_eligible_def)
      next
        case None
        then have d: "dependencies_done h p s"
          using Inr by (simp add: dependency_block_None dependencies_done_def)
        note e'' = e' [unfolded Inr None and_then.simps option.case]
        show thesis
          by (rule that [OF b])
            (use e'' alive d in \<open>auto simp: not_eligible_def split: if_splits option.splits\<close>)
      qed
    qed
  qed
qed

section \<open>Every operation keeps the invariant\<close>

lemma plan_ok_shape: "plan_ok h p \<Longrightarrow> plan_shape h p"
  by (simp add: plan_ok_def)

lemmas ok_defs = runtime_ok_def budget_ok_def fence_ok_def phase_ok_def

text \<open>The runtimes an unsuccessful start can leave behind.\<close>

lemma unit_ok_final:
  "unit_ok h p s r \<Longrightarrow> active s \<Longrightarrow> state r \<noteq> Succeeded \<Longrightarrow>
   unit_ok h p s (r\<lparr> state := FailedFinal, currentProvider := None, currentAttempt := None,
               unknownOutcome := None, nextEligibleAt := None \<rparr>)"
  by (auto simp: unit_ok_def ok_defs prompt_bound_def engaged_def)

lemma unit_ok_final':
  "unit_ok h p s r \<Longrightarrow> active s \<Longrightarrow> state r \<notin> {Succeeded, UnknownOutcomeState} \<Longrightarrow>
   unit_ok h p s (r\<lparr> state := FailedFinal, currentProvider := None, currentAttempt := None, nextEligibleAt := None \<rparr>)"
  by (auto simp: unit_ok_def ok_defs prompt_bound_def engaged_def)

lemma unit_ok_waiting:
  "unit_ok h p s r \<Longrightarrow> active s \<Longrightarrow> state r \<notin> {Succeeded, UnknownOutcomeState} \<Longrightarrow> currentAttempt r = None \<Longrightarrow>
   st \<in> {BlockedDependency, WaitingBackoff} \<Longrightarrow> unit_ok h p s (r\<lparr>state := st\<rparr>)"
  by (auto simp: unit_ok_def ok_defs prompt_bound_def engaged_def)

lemma unit_ok_queued:
  "unit_ok h p s r \<Longrightarrow> active s \<Longrightarrow> state r \<notin> {Succeeded, UnknownOutcomeState} \<Longrightarrow> unit_ok h p s (r\<lparr>state := Queued\<rparr>)"
  by (auto simp: unit_ok_def ok_defs prompt_bound_def engaged_def)

lemma not_engaged: "unit_ok h p s r \<Longrightarrow> \<not> dependencies_done h p s \<Longrightarrow> \<not> engaged r"
  by (auto simp: unit_ok_def)

lemma unit_ok_unknown: "unit_ok h p s r \<Longrightarrow> state r = UnknownOutcomeState \<longleftrightarrow> unknownOutcome r \<noteq> None"
  by (simp add: unit_ok_def runtime_ok_def phase_ok_def)


lemma gather_outputs_Some:
  "gather_outputs h p bs = Inr (Some os) \<Longrightarrow>
     list_all2 (\<lambda>d (u, out). u = d \<and> succeeded_with h p u out) (map db_unitId bs) os"
proof (induction bs arbitrary: os)
  case Nil
  then show ?case by simp
next
  case (Cons b bs)
  then show ?case
    by (auto simp: and_then_Inr require_runtime_Inr succeeded_with_def split: option.splits bool.splits)
qed

text \<open>Resolving the prompt of an eligible unit.\<close>

lemma resolve_prompt_ok:
  assumes ok: "unit_ok h p s r" and a: "active s" and st: "state r \<notin> {Succeeded, UnknownOutcomeState}"
    and bs: "map db_unitId (dependencyBindings (promptRecipe s)) = dependencies s"
    and res: "resolve_prompt_for_dispatch h p s r = Inr r'"
  shows "unit_ok h p s r'" "state r' \<notin> {Succeeded, UnknownOutcomeState}"
    "unitAttempts r' = unitAttempts r" "routeCursor r' = routeCursor r" "fence r' = fence r"
    "\<not> resolved (prompt r') \<Longrightarrow> r' = r"
proof -
  have "r' = r \<or> (dependencies s \<noteq> [] \<and> \<not> resolved (prompt r) \<and> (\<exists>os ih ph.
      gather_outputs h p (dependencyBindings (promptRecipe s)) = Inr (Some os) \<and>
      r' = r\<lparr> state := Queued,
             prompt := \<lparr> resolved = True, pr_inputHash = ih, pr_promptHash = ph, dependencyOutputs = os \<rparr> \<rparr>))"
    using res by (auto simp: resolve_prompt_for_dispatch_def and_then_Inr Let_def split: if_splits option.splits)
  then have "unit_ok h p s r' \<and> state r' \<notin> {Succeeded, UnknownOutcomeState} \<and>
    unitAttempts r' = unitAttempts r \<and> routeCursor r' = routeCursor r \<and> fence r' = fence r \<and>
    (\<not> resolved (prompt r') \<longrightarrow> r' = r)"
  proof (elim disjE conjE exE)
    assume "r' = r"
    then show ?thesis using ok st by simp
  next
    fix os ih ph
    assume d: "dependencies s \<noteq> []" "\<not> resolved (prompt r)"
      and g: "gather_outputs h p (dependencyBindings (promptRecipe s)) = Inr (Some os)"
      and r': "r' = r\<lparr> state := Queued,
             prompt := \<lparr> resolved = True, pr_inputHash = ih, pr_promptHash = ph, dependencyOutputs = os \<rparr> \<rparr>"
    have ne: "\<not> engaged r" using ok d by (auto simp: unit_ok_def)
    show ?thesis
      using ok a st ne gather_outputs_Some [OF g, unfolded bs]
      by (auto simp: r' unit_ok_def ok_defs prompt_bound_def engaged_def)
  qed
  then show "unit_ok h p s r'" "state r' \<notin> {Succeeded, UnknownOutcomeState}"
    "unitAttempts r' = unitAttempts r" "routeCursor r' = routeCursor r" "fence r' = fence r"
    "\<not> resolved (prompt r') \<Longrightarrow> r' = r" by auto
qed

lemma unit_ok_dispatched:
  assumes ok: "unit_ok h p s r" and w: "well_formed_budgets (pl_budgets p)"
    and a: "active s" and st: "state r \<notin> {Succeeded, UnknownOutcomeState}"
    and u: "unitAttempts r < b_unitAttempts (pl_budgets p)"
    and d: "dependencies_done h p s" and res: "resolved (prompt r)"
    and sel: "select_provider p s r av = Selected q cursor tr msg"
  shows "unit_ok h p s (dispatched r (next_attempt h s r q t) cursor tr)"
proof -
  let ?a = "next_attempt h s r q t"
  let ?r = "dispatched r ?a cursor tr"
  have b: "budget_ok (pl_budgets p) (routePlan s) r" "fence_ok r" "phase_ok h s r"
    using ok by (auto simp: unit_ok_def runtime_ok_def)
  have q: "at_provider ?a = q" by (simp add: next_attempt_def)
  have "-1 \<le> routeCursor r" using b by (simp add: budget_ok_def)
  from select_provider_Selected [OF sel this]
  have "budget_ok (pl_budgets p) (routePlan s) ?r"
    by (intro budget_ok_dispatched [OF b(1) u w q]) blast
  moreover have "fence_ok ?r"
    using b(2) by (fastforce simp: fence_ok_def dispatched_def next_attempt_def Let_def)
  moreover have "phase_ok h s ?r"
    using b(3) a st by (auto simp: phase_ok_def dispatched_def next_attempt_def Let_def)
  moreover have "prompt_bound h p s ?r"
    using ok by (simp add: unit_ok_def prompt_bound_def dispatched_def Let_def)
  ultimately show ?thesis
    using d res by (simp add: unit_ok_def runtime_ok_def dispatched_def Let_def)
qed


text \<open>What a start that is not refused works with.\<close>

lemma start_record_unit_parts:
  assumes "start_record_unit h p u now av = Inr res"
  obtains t s r e where "assert_now now = Inr t" "get_spec p u = Inr s" "runtime_of h p u = Some r"
    "assert_local_route_authorization h p s = Inr ()" "get_record_unit_eligibility h p u now = Inr e"
    "(\<not> eligible e \<and> start_not_eligible h p u r (because e) = Inr res) \<or>
     (eligible e \<and> (\<exists>r'. resolve_prompt_for_dispatch h p s r = Inr r' \<and>
        ((\<not> resolved (prompt r') \<and>
            (\<exists>p'. update_runtime_plan h p u (r'\<lparr>state := BlockedDependency\<rparr>) = Inr p' \<and>
                  res = started p' Blocked ''dependency'')) \<or>
         (resolved (prompt r') \<and> start_selected h p s r' t (select_provider p s r' av) = Inr res))))"
  using assms
  by (auto simp: start_record_unit_def and_then_Inr require_runtime_Inr split: if_splits)

lemma start_not_eligible_ok:
  assumes c: "collation (locale_compare h)" and p: "plan_ok h p" and s: "s \<in> set (unitSpecs p)"
    and r: "runtime_of h p (unitId s) = Some r"
    and e: "get_record_unit_eligibility h p (unitId s) now = Inr e" "\<not> eligible e"
    and res: "start_not_eligible h p (unitId s) r (because e) = Inr res"
  shows "plan_ok h (st_plan res)"
proof -
  have ok: "unit_ok h p s r" by (rule plan_ok_unit [OF p s r])
  have gs: "get_spec p (unitId s) = Inr s" by (rule get_spec_member [OF plan_ok_shape [OF p] s])
  obtain t where t: "because e = ETerminal \<or>
      active s \<and> state r \<notin> {Succeeded, FailedFinal, Split} \<and>
       ((because e = EDependency \<or> because e = EDependencyFailed) \<and> \<not> dependencies_done h p s \<or>
          (because e = EUnknownGrace \<or> because e = ENeedsFence) \<or>
           state r \<noteq> UnknownOutcomeState \<and>
             (because e = EBackoff \<and> (\<exists>x. nextEligibleAt r = Some x \<and> t < x) \<or> because e = EUnitBudget))"
    by (rule eligibility_cases [OF e(1)]) (use gs r e(2) in auto)
  note upd = plan_ok_update [OF c p s r]
  show ?thesis
  proof (cases "because e = EDependencyFailed \<or> because e = EUnitBudget")
    case True
    with res t obtain p' where up: "update_runtime_plan h p (unitId s)
            (r\<lparr> state := FailedFinal, currentProvider := None, currentAttempt := None,
               unknownOutcome := None, nextEligibleAt := None \<rparr>) = Inr p'"
      and p': "st_plan res = p'" and a: "active s" "state r \<noteq> Succeeded"
      by (auto simp: start_not_eligible_def and_then_Inr started_def)
    show ?thesis unfolding p' by (rule upd [OF a(2) unit_ok_final [OF ok a] up])
  next
    case False
    let ?st = "if because e = EDependency then BlockedDependency
               else if because e = EBackoff then WaitingBackoff else state r"
    have "st_plan res = p \<or> (because e \<in> {EDependency, EBackoff} \<and>
        update_runtime_plan h p (unitId s) (r\<lparr>state := ?st\<rparr>) = Inr (st_plan res))"
      using res False
      by (auto simp: start_not_eligible_def and_then_Inr Let_def started_def split: if_splits option.splits)
    then show ?thesis
    proof
      assume "st_plan res = p"
      then show ?thesis using p by simp
    next
      assume b: "because e \<in> {EDependency, EBackoff} \<and>
        update_runtime_plan h p (unitId s) (r\<lparr>state := ?st\<rparr>) = Inr (st_plan res)"
      have free: "currentAttempt r = None \<and> state r \<notin> {Succeeded, UnknownOutcomeState} \<and> active s"
      proof (cases "because e = EDependency")
        case True
        with t have "\<not> engaged r" using not_engaged [OF ok] by auto
        then show ?thesis using ok t True by (auto simp: engaged_def unit_ok_def runtime_ok_def phase_ok_def)
      next
        case False
        with b t have n: "nextEligibleAt r \<noteq> None" "state r \<noteq> UnknownOutcomeState" "active s" "state r \<noteq> Succeeded" by auto
        then show ?thesis using ok by (cases "currentAttempt r") (auto simp: unit_ok_def runtime_ok_def phase_ok_def)
      qed
      have "unit_ok h p s (r\<lparr>state := ?st\<rparr>)"
        using b by (intro unit_ok_waiting [OF ok]) (use free in auto)
      from upd [OF _ this] b free show ?thesis by auto
    qed
  qed
qed

lemma start_selected_ok:
  assumes c: "collation (locale_compare h)" and p: "plan_ok h p" and s: "s \<in> set (unitSpecs p)"
    and r: "runtime_of h p (unitId s) = Some r" "state r \<noteq> Succeeded"
    and ok: "unit_ok h p s r'" and st: "state r' \<notin> {Succeeded, UnknownOutcomeState}" and a: "active s"
    and u: "unitAttempts r' < b_unitAttempts (pl_budgets p)"
    and d: "dependencies_done h p s" "resolved (prompt r')"
    and res: "start_selected h p s r' t (select_provider p s r' av) = Inr res"
  shows "plan_ok h (st_plan res)"
proof -
  note upd = plan_ok_update [OF c p s r]
  have w: "well_formed_budgets (pl_budgets p)" using p by (simp add: plan_ok_def)
  show ?thesis
  proof (cases "select_provider p s r' av")
    case (Selected q cursor tr msg)
    with res have up: "update_runtime_plan h p (unitId s) (dispatched r' (next_attempt h s r' q t) cursor tr) = Inr (st_plan res)"
      by (auto simp: start_selected_def and_then_Inr Let_def started_def)
    show ?thesis by (rule upd [OF unit_ok_dispatched [OF ok w a st u d Selected] up])
  next
    case (WaitingCapacity msg)
    with res have "st_plan res = p \<or> update_runtime_plan h p (unitId s) (r'\<lparr>state := Queued\<rparr>) = Inr (st_plan res)"
      by (auto simp: start_selected_def and_then_Inr started_def split: if_splits)
    with p upd [OF unit_ok_queued [OF ok a st]] show ?thesis by auto
  next
    case (NoProvider msg)
    with res have up: "update_runtime_plan h p (unitId s)
         (r'\<lparr> state := FailedFinal, currentProvider := None, currentAttempt := None, nextEligibleAt := None \<rparr>) = Inr (st_plan res)"
      by (auto simp: start_selected_def and_then_Inr started_def)
    show ?thesis by (rule upd [OF unit_ok_final' [OF ok a st] up])
  qed
qed

lemma start_record_unit_ok:
  assumes c: "collation (locale_compare h)" and p: "plan_ok h p"
    and res: "start_record_unit h p u now av = Inr res"
  shows "plan_ok h (st_plan res)"
proof -
  obtain t s r e where t: "assert_now now = Inr t" and s: "get_spec p u = Inr s" and r: "runtime_of h p u = Some r"
    and e: "get_record_unit_eligibility h p u now = Inr e"
    and br: "(\<not> eligible e \<and> start_not_eligible h p u r (because e) = Inr res) \<or>
     (eligible e \<and> (\<exists>r'. resolve_prompt_for_dispatch h p s r = Inr r' \<and>
        ((\<not> resolved (prompt r') \<and>
            (\<exists>p'. update_runtime_plan h p u (r'\<lparr>state := BlockedDependency\<rparr>) = Inr p' \<and>
                  res = started p' Blocked ''dependency'')) \<or>
         (resolved (prompt r') \<and> start_selected h p s r' t (select_provider p s r' av) = Inr res))))"
    by (rule start_record_unit_parts [OF res])
  have sp: "s \<in> set (unitSpecs p)" "unitId s = u" using s get_spec_Inr [OF plan_ok_shape [OF p]] by auto
  have r0: "runtime_of h p (unitId s) = Some r" using r sp by simp
  have ok: "unit_ok h p s r" by (rule plan_ok_unit [OF p sp(1) r0])
  show ?thesis
  proof (cases "eligible e")
    case False
    with br e sp show ?thesis by (auto intro: start_not_eligible_ok [OF c p sp(1) r0])
  next
    case True
    have rdy: "active s" "state r \<notin> {Succeeded, UnknownOutcomeState}" "dependencies_done h p s"
      "unitAttempts r < b_unitAttempts (pl_budgets p)"
      by (rule eligibility_cases [OF e]; use s r True in auto)+
    from br True obtain r' where r': "resolve_prompt_for_dispatch h p s r = Inr r'"
      and br': "(\<not> resolved (prompt r') \<and>
            (\<exists>p'. update_runtime_plan h p u (r'\<lparr>state := BlockedDependency\<rparr>) = Inr p' \<and>
                  res = started p' Blocked ''dependency'')) \<or>
         (resolved (prompt r') \<and> start_selected h p s r' t (select_provider p s r' av) = Inr res)" by auto
    have "specs_normal h p" using p by (simp add: plan_ok_def)
    note f = resolve_prompt_ok [OF ok rdy(1,2) specs_normal_bindings [OF this sp(1)] r']
    show ?thesis
    proof (cases "resolved (prompt r')")
      case True
      with br' have "start_selected h p s r' t (select_provider p s r' av) = Inr res" by simp
      then show ?thesis
        using start_selected_ok [OF c p sp(1) r0 _ f(1,2) rdy(1) _ rdy(3) True] rdy f by auto
    next
      case False
      with br' sp obtain p' where up: "update_runtime_plan h p (unitId s) (r'\<lparr>state := BlockedDependency\<rparr>) = Inr p'"
        and res: "res = started p' Blocked ''dependency''" by auto
      have "\<not> engaged r'" using f(1) False by (auto simp: unit_ok_def)
      then have "unit_ok h p s (r'\<lparr>state := BlockedDependency\<rparr>)"
        by (intro unit_ok_waiting [OF f(1) rdy(1) f(2)]) (auto simp: engaged_def)
      with plan_ok_update [OF c p sp(1) r0 _ this up] rdy show ?thesis by (simp add: res started_def)
    qed
  qed
qed


lemma assert_current_attempt_Inr [result_simps]:
  "assert_current_attempt r a f = Inr c \<longleftrightarrow>
     state r = Running \<and> currentAttempt r = Some c \<and> attemptId c = a \<and> at_fence c = f"
  by (auto simp: assert_current_attempt_def split: option.splits bool.splits)

lemma running_active: "unit_ok h p s r \<Longrightarrow> state r = Running \<Longrightarrow> active s"
  by (auto simp: unit_ok_def runtime_ok_def phase_ok_def)

lemma succeed_record_unit_ok:
  assumes c: "collation (locale_compare h)" and p: "plan_ok h p"
    and res: "succeed_record_unit h p u i = Inr q"
  shows "plan_ok h q"
proof -
  from res obtain s r a m oh qh where s: "get_spec p u = Inr s" and r: "runtime_of h p u = Some r"
    and a: "state r = Running" "currentAttempt r = Some a"
    and up: "update_runtime_plan h p u
         (r\<lparr> state := Succeeded, currentProvider := None, currentAttempt := None, nextEligibleAt := None,
            result := Some \<lparr> re_attemptId = attemptId a, re_provider = at_provider a, model = m,
              re_fence = at_fence a, re_inputHash = pr_inputHash (prompt r),
              re_provenanceHash = effective_provenance_hash h s (pr_promptHash (prompt r)),
              outputHash = oh, qualityHash = qh \<rparr> \<rparr>) = Inr q"
    by (auto simp: succeed_record_unit_def and_then_Inr require_runtime_Inr assert_current_attempt_Inr)
  have sp: "s \<in> set (unitSpecs p)" "unitId s = u" using s get_spec_Inr [OF plan_ok_shape [OF p]] by auto
  have r0: "runtime_of h p (unitId s) = Some r" using r sp by simp
  have ok: "unit_ok h p s r" by (rule plan_ok_unit [OF p sp(1) r0])
  have st: "state r \<noteq> Succeeded" using a by simp
  show ?thesis
    by (rule plan_ok_update [OF c p sp(1) r0 st _ up [folded sp(2)]])
      (use ok a running_active [OF ok a(1)] in \<open>auto simp: unit_ok_def ok_defs prompt_bound_def engaged_def\<close>)
qed

lemma sorted_wrt_snoc: "sorted_wrt P (xs @ [x]) \<longleftrightarrow> sorted_wrt P xs \<and> (\<forall>y \<in> set xs. P y x)"
  by (simp add: sorted_wrt_append)

text \<open>A failed attempt appends to the history and frees the unit.\<close>

lemma unit_ok_failed:
  assumes ok: "unit_ok h p s r" and a: "state r = Running" "currentAttempt r = Some a"
    and st: "st \<in> {FailedFinal, WaitingBackoff, Queued}" and cp: "cp = None \<or> cp = Some (at_provider a)"
  shows "unit_ok h p s (r\<lparr> state := st, currentProvider := cp, currentAttempt := None, nextEligibleAt := at0,
    failureHistory := failureHistory r @ [failure_of a cl t], lastFailureClass := lc \<rparr>)"
  using ok a st cp running_active [OF ok a(1)]
  by (auto simp: unit_ok_def ok_defs prompt_bound_def engaged_def sorted_wrt_snoc failure_of_def)

lemma unit_ok_unknown_runtime:
  assumes ok: "unit_ok h p s r" and a: "state r = Running" "currentAttempt r = Some a"
  shows "unit_ok h p s (unknown_runtime r a t ev)"
  using ok a running_active [OF ok a(1)]
  by (auto simp: unit_ok_def ok_defs prompt_bound_def engaged_def sorted_wrt_snoc failure_of_def
      unknown_runtime_def Let_def)

lemma fail_record_unit_attempt_ok:
  assumes c: "collation (locale_compare h)" and p: "plan_ok h p"
    and res: "fail_record_unit_attempt h p u i = Inr q"
  shows "plan_ok h q"
proof -
  from res obtain t s r a cl where s: "get_spec p u = Inr s" and r: "runtime_of h p u = Some r"
    and a: "state r = Running" "currentAttempt r = Some a"
    and br: "(if cl = UnknownOutcome then
         and_then (parse_text (fi_providerEvidence i)) (\<lambda>evidence.
           update_runtime_plan h p u (unknown_runtime r a t evidence))
       else if cl = DeterministicInput then update_runtime_plan h p u (deterministic_runtime r a t)
       else and_then (parse_backoff (fi_backoffMs i)) (\<lambda>backoff.
         update_runtime_plan h p u (retry_runtime (pl_budgets p) r a cl t backoff))) = Inr q"
    unfolding fail_record_unit_attempt_def and_then_Inr require_runtime_Inr assert_current_attempt_Inr by blast
  have up: "(\<exists>ev. update_runtime_plan h p u (unknown_runtime r a t ev) = Inr q) \<or>
      update_runtime_plan h p u (deterministic_runtime r a t) = Inr q \<or>
      (\<exists>cl backoff. update_runtime_plan h p u (retry_runtime (pl_budgets p) r a cl t backoff) = Inr q)"
    using br by (auto simp: and_then_Inr split: if_splits)
  have sp: "s \<in> set (unitSpecs p)" "unitId s = u" using s get_spec_Inr [OF plan_ok_shape [OF p]] by auto
  have r0: "runtime_of h p (unitId s) = Some r" using r sp by simp
  have ok: "unit_ok h p s r" by (rule plan_ok_unit [OF p sp(1) r0])
  have st: "state r \<noteq> Succeeded" using a by simp
  note upd = plan_ok_update [OF c p sp(1) r0 st]
  have "unit_ok h p s (deterministic_runtime r a t)"
    unfolding deterministic_runtime_def by (rule unit_ok_failed [OF ok a]) auto
  moreover have "unit_ok h p s (retry_runtime (pl_budgets p) r a cl t backoff)" for cl backoff
    unfolding retry_runtime_def Let_def by (rule unit_ok_failed [OF ok a]) auto
  ultimately show ?thesis using up upd unit_ok_unknown_runtime [OF ok a] sp(2) by blast
qed

lemma unit_ok_resolved_unknown:
  assumes ok: "unit_ok h p s r" and st: "state r = UnknownOutcomeState" and un: "unknownOutcome r = Some un"
    and adv: "fence r < advanced"
  shows "unit_ok h p s (resolved_unknown_runtime b r un dec ev advanced t)"
proof -
  have a: "active s" using ok st by (auto simp: unit_ok_def runtime_ok_def phase_ok_def)
  have f: "fence_ok (resolved_unknown_runtime b r un dec ev advanced t)"
    using ok adv by (fastforce simp: unit_ok_def runtime_ok_def fence_ok_def resolved_unknown_runtime_def Let_def)
  have "budget_ok (pl_budgets p) (routePlan s) (resolved_unknown_runtime b r un dec ev advanced t)"
    using ok un by (auto simp: unit_ok_def runtime_ok_def budget_ok_def phase_ok_def resolved_unknown_runtime_def Let_def)
  moreover have "phase_ok h s (resolved_unknown_runtime b r un dec ev advanced t)"
    using ok un st a by (auto simp: unit_ok_def runtime_ok_def phase_ok_def resolved_unknown_runtime_def Let_def)
  ultimately show ?thesis
    using ok f un by (auto simp: unit_ok_def runtime_ok_def prompt_bound_def engaged_def resolved_unknown_runtime_def Let_def)
qed

text \<open>The checks of a resolution: the grace, the attempt and fence, the provider's evidence and the evidence of the advance.\<close>

lemma resolve_unknown_Inr:
  "resolve_record_unit_unknown_outcome h p u i = Inr q \<longleftrightarrow>
   (\<exists>t r un ev. assert_now (ui_now i) = Inr t \<and> runtime_of h p u = Some r \<and>
      state r = UnknownOutcomeState \<and> unknownOutcome r = Some un \<and> graceUntil un \<le> t \<and>
      ui_attemptId i = un_attemptId un \<and> ui_fence i = un_fence un \<and> parse_text (ui_providerEvidence i) = Inr (providerEvidence un) \<and>
      parse_fence_advance_evidence (attemptEvidence i) = Inr ev \<and> previousAttemptId ev = un_attemptId un \<and>
      previousFence ev = un_fence un \<and> advancedFence ev = ui_advancedFence i \<and>
      un_fence un < ui_advancedFence i \<and> fence r < ui_advancedFence i \<and>
      update_runtime_plan h p u (resolved_unknown_runtime (pl_budgets p) r un (decision i) ev (ui_advancedFence i) t) = Inr q)"
proof -
  have known: "(case (b, v) of (True, Some un) \<Rightarrow> Inr un | _ \<Rightarrow> Inl e) = Inr x \<longleftrightarrow> b \<and> v = Some x" for b and v :: "'a option" and e x
    by (cases b; cases v) simp_all
  show ?thesis
    unfolding resolve_record_unit_unknown_outcome_def by (simp only: and_then_Inr ensure_Inr require_runtime_Inr known not_less) blast
qed

lemma resolve_unknown_parts:
  assumes "resolve_record_unit_unknown_outcome h p u i = Inr q"
  obtains t r un ev where "runtime_of h p u = Some r" "state r = UnknownOutcomeState" "unknownOutcome r = Some un"
    "fence r < ui_advancedFence i"
    "update_runtime_plan h p u
       (resolved_unknown_runtime (pl_budgets p) r un (decision i) ev (ui_advancedFence i) t) = Inr q"
  using assms unfolding resolve_unknown_Inr by blast

lemma resolve_unknown_ok:
  assumes c: "collation (locale_compare h)" and p: "plan_ok h p"
    and res: "resolve_record_unit_unknown_outcome h p u i = Inr q"
  shows "plan_ok h q"
proof -
  obtain t r un ev where r: "runtime_of h p u = Some r"
    and st: "state r = UnknownOutcomeState" "unknownOutcome r = Some un" and adv: "fence r < ui_advancedFence i"
    and up: "update_runtime_plan h p u
       (resolved_unknown_runtime (pl_budgets p) r un (decision i) ev (ui_advancedFence i) t) = Inr q"
    by (rule resolve_unknown_parts [OF res])
  have sh: "plan_shape h p" by (rule plan_ok_shape [OF p])
  have "u \<in> unitId ` set (unitSpecs p)" using runtime_of_domain [OF c sh, of u] r by simp
  then obtain s where sp: "s \<in> set (unitSpecs p)" "unitId s = u" by auto
  have r0: "runtime_of h p (unitId s) = Some r" using r sp by simp
  have ok: "unit_ok h p s r" by (rule plan_ok_unit [OF p sp(1) r0])
  show ?thesis
    by (rule plan_ok_update [OF c p sp(1) r0 _ unit_ok_resolved_unknown [OF ok st adv] up [folded sp(2)]])
      (use st in simp)
qed

end
