(* ===== verification/UnitSplit.thy ===== *)
theory UnitSplit
  imports UnitRunFacts
begin

text \<open>
  Splitting a unit in two (memory-store/src/record-unit-engine.ts: \<open>splitRecordUnit\<close>,
  \<open>rawSplitChild\<close>, \<open>inheritedChildRuntime\<close>, \<open>rebuildSpecPlan\<close>). Costs are rationals: the
  rounding of the six-decimal cost is modelled, the rounding of floating point is not.
\<close>

definition round_cost :: "rat \<Rightarrow> rat" where
  "round_cost x = of_int \<lfloor>x * 1000000 + 1 / 2\<rfloor> / 1000000"

definition raw_split_child :: "unit_spec \<Rightarrow> string \<Rightarrow> int \<Rightarrow> unit_range \<Rightarrow> string list \<Rightarrow> unit_spec" where
  "raw_split_child parent u position r deps =
     (let steps = range_end r - range_start r + 1;
          ratio = of_int steps / of_int (stepCount parent)
      in parent\<lparr> unitId := u, active := True, sp_range := r, childOrder := position, dependencies := deps,
           parentUnitId := Some (unitId parent), childUnitIds := [], splitDepth := splitDepth parent + 1,
           stepCount := steps, estimatedCost := max (1 / 1000000) (round_cost (estimatedCost parent * ratio)),
           promptRecipe := empty_prompt_recipe (templateId (promptRecipe parent)) r, sp_inputHash := [],
           provenance := (provenance parent)\<lparr>prov_promptHash := []\<rparr>, specHash := [] \<rparr>)"

definition inherited_child_runtime :: "unit_spec \<Rightarrow> unit_runtime \<Rightarrow> unit_runtime" where
  "inherited_child_runtime s parent =
     (initial_runtime s)\<lparr> routeCursor := routeCursor parent, attemptedProviders := attemptedProviders parent,
        providerAttemptCounts := providerAttemptCounts parent, routeAttempts := routeAttempts parent,
        unitAttempts := unitAttempts parent, nextEligibleAt := nextEligibleAt parent, fence := fence parent,
        failureHistory := failureHistory parent, lastFailureClass := lastFailureClass parent \<rparr>"

definition rebuild_spec_plan :: "host \<Rightarrow> unit_plan \<Rightarrow> unit_spec list \<Rightarrow> (string \<Rightarrow> unit_runtime option) \<Rightarrow> unit_plan res" where
  "rebuild_spec_plan h p specs runtimes =
     and_then (build_spec_index specs) (\<lambda>index.
     and_then (derive_layers h specs) (\<lambda>ls.
       let q = p\<lparr> unitSpecs := specs, unitSpecIndex := index,
                  runtimeRoot := build_runtime_tree (locale_compare h)
                    (map (\<lambda>s. (unitId s, case runtimes (unitId s) of Some r \<Rightarrow> r | None \<Rightarrow> initial_runtime s)) specs),
                  layers := ls, planHash := compute_plan_hash h p specs ls,
                  metrics := (metrics p)\<lparr> specHashComputations := specHashComputations (metrics p) + length specs,
                    planHashComputations := planHashComputations (metrics p) + 1,
                    layerComputations := layerComputations (metrics p) + 1,
                    graphValidations := graphValidations (metrics p) + 1 \<rparr> \<rparr>
       in and_then (validate_record_unit_plan h q) (\<lambda>_. Inr q)))"

definition split_ids :: "string \<Rightarrow> string \<times> string" where
  "split_ids u = (u @ ''.split-1'', u @ ''.split-2'')"

text \<open>The point after which the range is cut; every step range has its default.\<close>

definition split_point :: "unit_spec \<Rightarrow> jnum option \<Rightarrow> int res" where
  "split_point s splitAt =
     (let point = (case splitAt of
          None \<Rightarrow> safe_integer_of (Fin (of_int ((range_start (sp_range s) + range_end (sp_range s)) div 2)))
        | Some x \<Rightarrow> safe_integer_of x)
      in case point of
           None \<Rightarrow> Inl SPLIT_MIN_STEP
         | Some i \<Rightarrow> if i < range_start (sp_range s) \<or> range_end (sp_range s) \<le> i then Inl SPLIT_MIN_STEP else Inr i)"

definition split_children :: "unit_spec \<Rightarrow> int \<Rightarrow> unit_spec \<times> unit_spec" where
  "split_children parent point =
     (let (firstId, secondId) = split_ids (unitId parent);
          firstRange = \<lparr> axis = Step, range_start = range_start (sp_range parent), range_end = point \<rparr>;
          secondRange = \<lparr> axis = Step, range_start = point + 1, range_end = range_end (sp_range parent) \<rparr>;
          secondDeps = (if truthy_text (continuationKey parent) then unique_list (dependencies parent @ [firstId])
                        else dependencies parent)
      in (raw_split_child parent firstId 0 firstRange (dependencies parent),
          raw_split_child parent secondId 1 secondRange secondDeps))"

text \<open>The specs of the plan with the parent retired and its dependents pointed at both children.\<close>

definition redirect_spec :: "unit_spec \<Rightarrow> unit_spec \<Rightarrow> unit_spec" where
  "redirect_spec parent s =
     (let (firstId, secondId) = split_ids (unitId parent) in
      if unitId s = unitId parent then parent\<lparr>active := False, childUnitIds := [firstId, secondId], specHash := []\<rparr>
      else if unitId parent \<notin> set (dependencies s) then s
      else s\<lparr> dependencies := unique_list (concat (map (\<lambda>d. if d = unitId parent then [firstId, secondId] else [d]) (dependencies s))),
              specHash := [] \<rparr>)"

definition raw_split_specs :: "unit_plan \<Rightarrow> unit_spec \<Rightarrow> int \<Rightarrow> unit_spec list" where
  "raw_split_specs p parent point =
     map (redirect_spec parent) (unitSpecs p) @ [fst (split_children parent point), snd (split_children parent point)]"

text \<open>The runtime each spec of the split plan starts with.\<close>

definition split_runtime :: "host \<Rightarrow> unit_plan \<Rightarrow> unit_spec \<Rightarrow> unit_runtime \<Rightarrow> int \<Rightarrow> unit_spec \<Rightarrow> unit_runtime res" where
  "split_runtime h p parent r point s =
     (let (first, second) = split_children parent point in
      if unitId s = unitId second then Inr (inherited_child_runtime second r)
      else if unitId s = unitId first then Inr (inherited_child_runtime first r)
      else if unitId s = unitId parent then
        Inr (r\<lparr> state := Split, currentProvider := None, currentAttempt := None, unknownOutcome := None, nextEligibleAt := None \<rparr>)
      else case unitSpecIndex p (unitId s) of
        None \<Rightarrow> Inr (initial_runtime s)
      | Some i \<Rightarrow>
          and_then (require_runtime h p (unitId s)) (\<lambda>previous.
            if specHash (unitSpecs p ! i) \<noteq> specHash s
            then Inr (previous\<lparr> state := BlockedDependency, prompt := initial_prompt_resolution s \<rparr>)
            else Inr previous))"

definition split_record_unit :: "host \<Rightarrow> unit_plan \<Rightarrow> string \<Rightarrow> jnum option \<Rightarrow> unit_plan res" where
  "split_record_unit h p u splitAt =
     and_then (get_spec p u) (\<lambda>parent.
     and_then (assert_local_route_authorization h p parent) (\<lambda>_.
     and_then (require_runtime h p u) (\<lambda>r.
     and_then (ensure SPLIT_NOT_ALLOWED (lastFailureClass r = Some Quality \<or> lastFailureClass r = Some Complexity)) (\<lambda>_.
     and_then (ensure SPLIT_DEPTH (\<not> 1 \<le> splitDepth parent)) (\<lambda>_.
     and_then (ensure SPLIT_STATE (active parent \<and> state r \<notin> {Running, UnknownOutcomeState, Succeeded, FailedFinal})) (\<lambda>_.
     and_then (ensure SPLIT_MIN_STEP (axis (sp_range parent) = Step \<and>
         1 \<le> range_end (sp_range parent) - range_start (sp_range parent))) (\<lambda>_.
     and_then (ensure UNIT_LIMIT (int (length (unitSpecs p)) + 2 \<le> pl_maxUnits p)) (\<lambda>_.
     and_then (split_point parent splitAt) (\<lambda>point.
     and_then (ensure DUPLICATE_UNIT (unitSpecIndex p (fst (split_ids (unitId parent))) = None \<and>
         unitSpecIndex p (snd (split_ids (unitId parent))) = None)) (\<lambda>_.
     and_then (normalize_specs h (raw_split_specs p parent point)) (\<lambda>specs.
     and_then (map_ok (\<lambda>s. and_then (split_runtime h p parent r point s) (\<lambda>rt. Inr (unitId s, rt))) specs) (\<lambda>runtimes.
       rebuild_spec_plan h p specs (map_of runtimes)))))))))))))"

end
