(* ===== verification/UnitChain.thy ===== *)
theory UnitChain
  imports UnitPlanFacts
begin

text \<open>
  The continuation chains (\<open>continuationPredecessors\<close> of memory-store/src/record-unit-engine.ts)
  described without the sort: the predecessor of a unit is the unit immediately before it among
  those with its key, and a plan is accepted exactly when each unit depends on its predecessor.
\<close>

lemma set_zip_tl: "(a, b) \<in> set (zip xs (tl xs)) \<longleftrightarrow> (\<exists>i. Suc i < length xs \<and> a = xs ! i \<and> b = xs ! Suc i)"
proof -
  have "i < length (tl xs) \<longleftrightarrow> Suc i < length xs" for i by (cases xs) auto
  then show ?thesis by (auto simp: in_set_zip nth_tl)
qed

lemma zip_tl_adjacent:
  assumes s: "sorted_wrt lt xs" and asym: "\<And>a b. lt a b \<Longrightarrow> \<not> lt b a"
  shows "(a, b) \<in> set (zip xs (tl xs)) \<longleftrightarrow>
    a \<in> set xs \<and> b \<in> set xs \<and> lt a b \<and> \<not> (\<exists>c \<in> set xs. lt a c \<and> lt c b)"
proof -
  have lt: "lt (xs ! i) (xs ! j) \<longleftrightarrow> i < j" if "i < length xs" "j < length xs" for i j
    using that sorted_wrt_nth_less [OF s, of i j] sorted_wrt_nth_less [OF s, of j i] asym
    by (metis linorder_neqE_nat)
  show ?thesis
  proof
    assume "(a, b) \<in> set (zip xs (tl xs))"
    then obtain i where i: "Suc i < length xs" "a = xs ! i" "b = xs ! Suc i" by (auto simp: set_zip_tl)
    have "\<not> (lt a c \<and> lt c b)" if "c \<in> set xs" for c
    proof -
      from that obtain k where "k < length xs" "c = xs ! k" by (auto simp: in_set_conv_nth)
      then show ?thesis using i lt by auto
    qed
    then show "a \<in> set xs \<and> b \<in> set xs \<and> lt a b \<and> \<not> (\<exists>c \<in> set xs. lt a c \<and> lt c b)"
      using i lt [of i "Suc i"] by auto
  next
    assume r: "a \<in> set xs \<and> b \<in> set xs \<and> lt a b \<and> \<not> (\<exists>c \<in> set xs. lt a c \<and> lt c b)"
    then obtain i j where ij: "i < length xs" "a = xs ! i" "j < length xs" "b = xs ! j"
      by (auto simp: in_set_conv_nth)
    with r lt have "i < j" by auto
    moreover have "j \<le> Suc i"
    proof (rule ccontr)
      assume "\<not> j \<le> Suc i"
      then have "Suc i < length xs" "lt a (xs ! Suc i)" "lt (xs ! Suc i) b" using ij lt by auto
      with r show False by (meson nth_mem)
    qed
    ultimately have "j = Suc i" by simp
    with ij show "(a, b) \<in> set (zip xs (tl xs))" by (auto simp: set_zip_tl)
  qed
qed

lemma chain_pairs_Inr:
  "chain_pairs xs = Inr ps \<longleftrightarrow>
     ps = zip (map lk_unitId (tl xs)) (map lk_unitId xs) \<and>
     (\<forall>(a, b) \<in> set (zip xs (tl xs)). lk_unitId a \<in> set (lk_dependencies b))"
proof (induction xs arbitrary: ps rule: chain_pairs.induct)
  case (1 a b ls)
  show ?case
    by (cases "lk_unitId a \<in> set (lk_dependencies b)") (auto simp: and_then_Inr 1)
qed auto

section \<open>The order of a chain\<close>

lemma identity_comparator:
  assumes c: "collation (locale_compare h)"
  shows "comparator (compare_unit_identity h)"
  by (rule compare_unit_identity_comparator) (use c in \<open>simp add: collation_def strict_comparator_def\<close>)

lemma identity_eq:
  assumes c: "collation (locale_compare h)"
  shows "compare_unit_identity h a b = 0 \<Longrightarrow> lk_unitId a = lk_unitId b"
  using c by (simp add: compare_unit_identity_def collation_def strict_comparator.eq_zero)

lemma identity_asym:
  assumes c: "collation (locale_compare h)"
  shows "compare_unit_identity h a b < 0 \<Longrightarrow> \<not> compare_unit_identity h b a < 0"
  using comparator.less_swap [OF identity_comparator [OF c], of b a] by linarith

lemma sorted_identity:
  assumes c: "collation (locale_compare h)" and d: "distinct (map lk_unitId ls)"
  shows "sorted_wrt (\<lambda>a b. compare_unit_identity h a b < 0) (sort_by (compare_unit_identity h) ls)"
proof -
  let ?xs = "sort_by (compare_unit_identity h) ls"
  have dx: "distinct ?xs" and inj: "inj_on lk_unitId (set ?xs)" using d by (auto simp: distinct_map)
  have le: "sorted_wrt (\<lambda>a b. compare_unit_identity h a b \<le> 0) ?xs"
    by (rule comparator.sorted_sort_by [OF identity_comparator [OF c]])
  show ?thesis
    unfolding sorted_wrt_iff_nth_less
  proof (intro allI impI)
    fix i j
    assume ij: "i < j" "j < length ?xs"
    then have "?xs ! i \<noteq> ?xs ! j" using dx by (simp add: nth_eq_iff_index_eq)
    then have "lk_unitId (?xs ! i) \<noteq> lk_unitId (?xs ! j)" using inj ij by (auto simp: inj_on_def simp del: set_sort_by)
    then have "compare_unit_identity h (?xs ! i) (?xs ! j) \<noteq> 0"
      using identity_eq [OF c] by blast
    with sorted_wrt_nth_less [OF le ij] show "compare_unit_identity h (?xs ! i) (?xs ! j) < 0" by linarith
  qed
qed

text \<open>\<open>a\<close> is immediately before \<open>b\<close> among the links with their continuation key.\<close>

definition precedes :: "host \<Rightarrow> link list \<Rightarrow> link \<Rightarrow> link \<Rightarrow> bool" where
  "precedes h ls a b \<longleftrightarrow>
     a \<in> set ls \<and> b \<in> set ls \<and> truthy_text (lk_continuationKey b) \<and> lk_continuationKey a = lk_continuationKey b \<and>
     compare_unit_identity h a b < 0 \<and>
     \<not> (\<exists>x \<in> set ls. lk_continuationKey x = lk_continuationKey b \<and>
          compare_unit_identity h a x < 0 \<and> compare_unit_identity h x b < 0)"

lemma set_continuation_groups:
  "(k, g) \<in> set (continuation_groups ls) \<longleftrightarrow>
     truthy_text (Some k) \<and> (\<exists>l \<in> set ls. lk_continuationKey l = Some k) \<and>
     g = filter (\<lambda>l. lk_continuationKey l = Some k) ls"
  by (force simp: continuation_groups_def truthy_text_def)

lemma map_of_functional:
  assumes "\<And>u v w. (u, v) \<in> set ps \<Longrightarrow> (u, w) \<in> set ps \<Longrightarrow> v = w"
  shows "map_of ps u = Some v \<longleftrightarrow> (u, v) \<in> set ps"
  using assms by (metis map_of_SomeD weak_map_of_SomeI)

lemma precedes_unique:
  assumes c: "collation (locale_compare h)" and d: "distinct (map lk_unitId ls)"
    and p: "precedes h ls a b" "precedes h ls a' b"
  shows "a = a'"
proof -
  have "compare_unit_identity h a a' = 0"
  proof (rule ccontr)
    assume "compare_unit_identity h a a' \<noteq> 0"
    then consider "compare_unit_identity h a a' < 0" | "compare_unit_identity h a' a < 0"
      using comparator.total [OF identity_comparator [OF c]] comparator.less_swap [OF identity_comparator [OF c]]
      by (metis linorder_neqE_linordered_idom)
    then show False using p by cases (auto simp: precedes_def)
  qed
  then have "lk_unitId a = lk_unitId a'" by (rule identity_eq [OF c])
  with d p show ?thesis by (auto simp: precedes_def distinct_map inj_on_def)
qed


lemma adjacent_in_group:
  assumes c: "collation (locale_compare h)" and d: "distinct (map lk_unitId ls)"
    and g: "(k, g) \<in> set (continuation_groups ls)"
  shows "(a, b) \<in> set (zip (sort_by (compare_unit_identity h) g) (tl (sort_by (compare_unit_identity h) g))) \<longleftrightarrow>
    precedes h ls a b \<and> lk_continuationKey b = Some k"
proof -
  from g have gk: "g = filter (\<lambda>l. lk_continuationKey l = Some k) ls" and t: "truthy_text (Some k)"
    by (auto simp: set_continuation_groups)
  then have dg: "distinct (map lk_unitId g)" using d by (simp add: distinct_map_filter)
  have "(a, b) \<in> set (zip (sort_by (compare_unit_identity h) g) (tl (sort_by (compare_unit_identity h) g))) \<longleftrightarrow>
      a \<in> set (sort_by (compare_unit_identity h) g) \<and> b \<in> set (sort_by (compare_unit_identity h) g) \<and>
      compare_unit_identity h a b < 0 \<and>
      \<not> (\<exists>x \<in> set (sort_by (compare_unit_identity h) g). compare_unit_identity h a x < 0 \<and> compare_unit_identity h x b < 0)"
    by (rule zip_tl_adjacent [OF sorted_identity [OF c dg]]) (rule identity_asym [OF c])
  also have "\<dots> \<longleftrightarrow> precedes h ls a b \<and> lk_continuationKey b = Some k"
    using t unfolding set_sort_by gk precedes_def by auto
  finally show ?thesis .
qed

lemma precedes_group:
  assumes "precedes h ls a b"
  shows "\<exists>k g. (k, g) \<in> set (continuation_groups ls) \<and> lk_continuationKey b = Some k"
proof -
  from assms have "b \<in> set ls" "truthy_text (lk_continuationKey b)" by (auto simp: precedes_def)
  then obtain k where "lk_continuationKey b = Some k" "truthy_text (Some k)" by (auto simp: truthy_text_def)
  with \<open>b \<in> set ls\<close> show ?thesis by (auto simp: set_continuation_groups)
qed

lemma zip_map_tl: "(u, v) \<in> set (zip (map f (tl xs)) (map f xs)) \<longleftrightarrow> (\<exists>a b. (a, b) \<in> set (zip xs (tl xs)) \<and> u = f b \<and> v = f a)"
proof -
  have "zip (map f (tl xs)) (map f xs) = map (\<lambda>(a, b). (f b, f a)) (zip xs (tl xs))"
    by (simp add: zip_map_map zip_commute [of "tl xs"] case_prod_beta comp_def)
  then show ?thesis by force
qed

definition group_pairs :: "host \<Rightarrow> string \<times> link list \<Rightarrow> (string \<times> string) list" where
  "group_pairs h kg =
     (let xs = sort_by (compare_unit_identity h) (snd kg) in zip (map lk_unitId (tl xs)) (map lk_unitId xs))"

lemma chain_pairs_group:
  assumes c: "collation (locale_compare h)" and d: "distinct (map lk_unitId ls)"
    and g: "kg \<in> set (continuation_groups ls)"
  shows "(case kg of (k, g) \<Rightarrow> chain_pairs (sort_by (compare_unit_identity h) g)) = Inr ps \<longleftrightarrow>
    ps = group_pairs h kg \<and>
    (\<forall>a b. precedes h ls a b \<and> lk_continuationKey b = Some (fst kg) \<longrightarrow> lk_unitId a \<in> set (lk_dependencies b))"
proof -
  obtain k g' where kg: "kg = (k, g')" by (cases kg)
  have "(\<forall>(a, b) \<in> set (zip (sort_by (compare_unit_identity h) g') (tl (sort_by (compare_unit_identity h) g'))).
        lk_unitId a \<in> set (lk_dependencies b)) \<longleftrightarrow>
      (\<forall>a b. precedes h ls a b \<and> lk_continuationKey b = Some k \<longrightarrow> lk_unitId a \<in> set (lk_dependencies b))"
    unfolding adjacent_in_group [OF c d g [unfolded kg], symmetric] by blast
  then show ?thesis by (auto simp: kg chain_pairs_Inr group_pairs_def Let_def)
qed

text \<open>The map of predecessors, and when the check accepts.\<close>

lemma continuation_predecessors_Inr:
  assumes c: "collation (locale_compare h)" and d: "distinct (map lk_unitId ls)"
  shows "continuation_predecessors h ls = Inr f \<longleftrightarrow>
    f = map_of (rev (concat (map (group_pairs h) (continuation_groups ls)))) \<and>
    (\<forall>a b. precedes h ls a b \<longrightarrow> lk_unitId a \<in> set (lk_dependencies b))"
proof -
  have l2: "list_all2 (\<lambda>kg ps. (case kg of (k, g) \<Rightarrow> chain_pairs (sort_by (compare_unit_identity h) g)) = Inr ps) gs pss
      \<longleftrightarrow> pss = map (group_pairs h) gs \<and>
          (\<forall>kg \<in> set gs. \<forall>a b. precedes h ls a b \<and> lk_continuationKey b = Some (fst kg) \<longrightarrow> lk_unitId a \<in> set (lk_dependencies b))"
    if "set gs \<subseteq> set (continuation_groups ls)" for gs pss
    using that
  proof (induction gs arbitrary: pss)
    case Nil
    then show ?case by auto
  next
    case (Cons kg gs)
    then have kg: "kg \<in> set (continuation_groups ls)" and gs: "set gs \<subseteq> set (continuation_groups ls)" by auto
    show ?case
      using chain_pairs_group [OF c d kg] Cons.IH [OF gs] by (cases pss) auto
  qed
  have cover: "(\<forall>kg \<in> set (continuation_groups ls). \<forall>a b.
        precedes h ls a b \<and> lk_continuationKey b = Some (fst kg) \<longrightarrow> lk_unitId a \<in> set (lk_dependencies b)) \<longleftrightarrow>
      (\<forall>a b. precedes h ls a b \<longrightarrow> lk_unitId a \<in> set (lk_dependencies b))"
    using precedes_group by (metis fst_conv)
  show ?thesis
    unfolding continuation_predecessors_def and_then_Inr map_ok_Inr l2 [OF order_refl] cover by auto
qed

lemma continuation_predecessors_Some:
  assumes c: "collation (locale_compare h)" and d: "distinct (map lk_unitId ls)"
    and f: "continuation_predecessors h ls = Inr f"
  shows "f u = Some v \<longleftrightarrow> (\<exists>a b. precedes h ls a b \<and> u = lk_unitId b \<and> v = lk_unitId a)"
proof -
  let ?ps = "rev (concat (map (group_pairs h) (continuation_groups ls)))"
  have mem: "(x, y) \<in> set ?ps \<longleftrightarrow> (\<exists>a b. precedes h ls a b \<and> x = lk_unitId b \<and> y = lk_unitId a)" for x y
  proof -
    have "(x, y) \<in> set (group_pairs h (k, g)) \<longleftrightarrow>
        (\<exists>a b. precedes h ls a b \<and> lk_continuationKey b = Some k \<and> x = lk_unitId b \<and> y = lk_unitId a)"
      if "(k, g) \<in> set (continuation_groups ls)" for k g
      unfolding group_pairs_def Let_def snd_conv zip_map_tl adjacent_in_group [OF c d that] by blast
    then show ?thesis using precedes_group [of h ls] by fastforce
  qed
  have "y = z" if "(x, y) \<in> set ?ps" "(x, z) \<in> set ?ps" for x y z
  proof -
    from that mem obtain a b a' b' where p: "precedes h ls a b" "precedes h ls a' b'"
      and i: "lk_unitId b = lk_unitId b'" "y = lk_unitId a" "z = lk_unitId a'" by metis
    from p i(1) d have "b = b'" by (auto simp: precedes_def distinct_map inj_on_def)
    with precedes_unique [OF c d] p i show ?thesis by blast
  qed
  then have "map_of ?ps u = Some v \<longleftrightarrow> (u, v) \<in> set ?ps" by (rule map_of_functional)
  with mem f show ?thesis by (simp only: continuation_predecessors_Inr [OF c d])
qed

end
