(* ===== verification/UnitSplitFacts.thy ===== *)
theory UnitSplitFacts
  imports UnitSplit UnitChain
begin

text \<open>
  Splitting keeps the invariant of a plan. The heart is that a unit that does not depend on the
  split unit keeps its spec literally, although every spec is normalised again: its place in its
  continuation chain cannot change without the chain being refused.
\<close>

section \<open>The nearest unit below\<close>

lemma precedes_exists:
  assumes c: "collation (locale_compare h)"
    and a: "a \<in> set ls" and b: "b \<in> set ls" "truthy_text (lk_continuationKey b)"
    and k: "lk_continuationKey a = lk_continuationKey b" and lt: "compare_unit_identity h a b < 0"
  shows "\<exists>a'. precedes h ls a' b"
  using a k lt
proof (induction "card {x \<in> set ls. compare_unit_identity h a x < 0 \<and> compare_unit_identity h x b < 0}"
    arbitrary: a rule: less_induct)
  case less
  let ?B = "\<lambda>a. {x \<in> set ls. compare_unit_identity h a x < 0 \<and> compare_unit_identity h x b < 0}"
  show ?case
  proof (cases "\<exists>x \<in> set ls. lk_continuationKey x = lk_continuationKey b \<and>
      compare_unit_identity h a x < 0 \<and> compare_unit_identity h x b < 0")
    case False
    with less.prems b have "precedes h ls a b" by (auto simp: precedes_def)
    then show ?thesis by blast
  next
    case True
    then obtain x where x: "x \<in> set ls" "lk_continuationKey x = lk_continuationKey b"
      "compare_unit_identity h a x < 0" "compare_unit_identity h x b < 0" by blast
    note cmp = identity_comparator [OF c]
    have "?B x \<subseteq> ?B a" using comparator.less_trans [OF cmp x(3)] by fastforce
    moreover have "x \<in> ?B a - ?B x" using x comparator.cmp_refl [OF cmp] by auto
    ultimately have "card (?B x) < card (?B a)" by (intro psubset_card_mono) auto
    from less.hyps [OF this x(1,2,4)] show ?thesis .
  qed
qed

section \<open>The raw specs of a split\<close>

lemma redirect_parent:
  "redirect_spec parent parent =
     parent\<lparr>active := False, childUnitIds := [fst (split_ids (unitId parent)), snd (split_ids (unitId parent))], specHash := []\<rparr>"
  by (simp add: redirect_spec_def split_ids_def)

lemma redirect_other:
  "unitId s \<noteq> unitId parent \<Longrightarrow> unitId parent \<notin> set (dependencies s) \<Longrightarrow> redirect_spec parent s = s"
  by (simp add: redirect_spec_def split_ids_def)

lemma redirect_frame:
  assumes "unitId s \<noteq> unitId parent"
  shows "\<exists>ds x. redirect_spec parent s = s\<lparr>dependencies := ds, specHash := x\<rparr>"
proof (cases "unitId parent \<in> set (dependencies s)")
  case True
  with assms show ?thesis by (simp add: redirect_spec_def Let_def split_ids_def) blast
next
  case False
  with assms show ?thesis
    by (intro exI [of _ "dependencies s"] exI [of _ "specHash s"]) (simp add: redirect_other)
qed

lemma redirect_unitId [simp]: "unitId (redirect_spec parent s) = unitId s"
  by (simp add: redirect_spec_def Let_def split_ids_def)

lemma compare_identity_dependencies [simp]:
  "compare_unit_identity h (a\<lparr>lk_dependencies := ds\<rparr>) b = compare_unit_identity h a b"
  "compare_unit_identity h a (b\<lparr>lk_dependencies := ds\<rparr>) = compare_unit_identity h a b"
  by (simp_all add: compare_unit_identity_def)

lemma redirect_link:
  assumes "unitId s \<noteq> unitId parent"
  shows "spec_link (redirect_spec parent s) = (spec_link s)\<lparr>lk_dependencies := dependencies (redirect_spec parent s)\<rparr>"
    and "active (redirect_spec parent s) = active s" "routePlan (redirect_spec parent s) = routePlan s"
    and "splitDepth (redirect_spec parent s) = splitDepth s"
  using redirect_frame [OF assms] by (auto simp: spec_link_def)

lemma redirect_dependent:
  "unitId s \<noteq> unitId parent \<Longrightarrow> dependencies s \<noteq> [] \<Longrightarrow> dependencies (redirect_spec parent s) \<noteq> []"
proof -
  assume a: "unitId s \<noteq> unitId parent" "dependencies s \<noteq> []"
  have "unique_list xs = [] \<longleftrightarrow> xs = []" for xs :: "string list"
    by (metis set_empty set_unique_list)
  then show ?thesis
    using a by (cases "dependencies s") (auto simp: redirect_spec_def Let_def split_ids_def)
qed

lemma raw_child_simps [simp]:
  "unitId (raw_split_child parent u i r ds) = u" "active (raw_split_child parent u i r ds)"
  "dependencies (raw_split_child parent u i r ds) = ds" "routePlan (raw_split_child parent u i r ds) = routePlan parent"
  "splitDepth (raw_split_child parent u i r ds) = splitDepth parent + 1"
  "sp_range (raw_split_child parent u i r ds) = r"
  "stepCount (raw_split_child parent u i r ds) = range_end r - range_start r + 1"
  "parentUnitId (raw_split_child parent u i r ds) = Some (unitId parent)"
  "childUnitIds (raw_split_child parent u i r ds) = []"
  by (simp_all add: raw_split_child_def Let_def)

lemma split_children_ids [simp]:
  "unitId (fst (split_children parent point)) = fst (split_ids (unitId parent))"
  "unitId (snd (split_children parent point)) = snd (split_ids (unitId parent))"
  by (simp_all add: split_children_def split_ids_def Let_def)

lemma split_children_child:
  "\<exists>u i r ds. fst (split_children parent point) = raw_split_child parent u i r ds"
  "\<exists>u i r ds. snd (split_children parent point) = raw_split_child parent u i r ds"
  unfolding split_children_def split_ids_def Let_def by (simp, blast)+

lemma split_ids_fresh: "fst (split_ids u) \<noteq> u" "snd (split_ids u) \<noteq> u" "fst (split_ids u) \<noteq> snd (split_ids u)"
  by (simp_all add: split_ids_def)

section \<open>The guards of a split\<close>

lemma split_record_unit_parts:
  assumes "split_record_unit h p u at0 = Inr q"
  obtains parent r point specs runtimes where
    "get_spec p u = Inr parent" "runtime_of h p u = Some r"
    "lastFailureClass r = Some Quality \<or> lastFailureClass r = Some Complexity"
    "splitDepth parent < 1" "active parent" "state r \<notin> {Running, UnknownOutcomeState, Succeeded, FailedFinal}"
    "axis (sp_range parent) = Step" "1 \<le> range_end (sp_range parent) - range_start (sp_range parent)"
    "int (length (unitSpecs p)) + 2 \<le> pl_maxUnits p"
    "split_point parent at0 = Inr point"
    "unitSpecIndex p (fst (split_ids (unitId parent))) = None" "unitSpecIndex p (snd (split_ids (unitId parent))) = None"
    "normalize_specs h (raw_split_specs p parent point) = Inr specs"
    "map_ok (\<lambda>s. and_then (split_runtime h p parent r point s) (\<lambda>rt. Inr (unitId s, rt))) specs = Inr runtimes"
    "rebuild_spec_plan h p specs (map_of runtimes) = Inr q"
  using assms
  by (simp only: split_record_unit_def and_then_Inr ensure_Inr require_runtime_Inr)
    (elim exE conjE, rule that, assumption+, (simp only: not_le)?, assumption+)


section \<open>Chains under a split\<close>

lemma precedes_between:
  "precedes h ls a b \<Longrightarrow> x \<in> set ls \<Longrightarrow> lk_continuationKey x = lk_continuationKey b \<Longrightarrow>
    compare_unit_identity h a x < 0 \<Longrightarrow> \<not> compare_unit_identity h x b < 0"
  by (auto simp: precedes_def)

lemma distinct_id_eq: "distinct (map f xs) \<Longrightarrow> x \<in> set xs \<Longrightarrow> y \<in> set xs \<Longrightarrow> f x = f y \<Longrightarrow> x = y"
  by (auto simp: distinct_map inj_on_def)

lemma active_ids: "u \<in> unitId ` set (active_specs ss) \<longleftrightarrow> (\<exists>s \<in> set ss. active s \<and> unitId s = u)"
  by (auto simp: active_specs_def)

lemma spec_graph_dependencies:
  "assert_spec_graph h ss = Inr () \<Longrightarrow> s \<in> set ss \<Longrightarrow> active s \<Longrightarrow> d \<in> set (dependencies s) \<Longrightarrow>
    \<exists>t \<in> set ss. active t \<and> unitId t = d"
  by (fastforce simp: assert_spec_graph_def Let_def and_then_Inr each_ok_Inr ensure_Inr active_specs_def)

lemma in_links: "x \<in> set (map spec_link (active_specs ss)) \<longleftrightarrow> (\<exists>w \<in> set ss. active w \<and> x = spec_link w)"
  by (auto simp: active_specs_def)

lemma distinct_links: "distinct (map unitId ss) \<Longrightarrow> distinct (map lk_unitId (map spec_link (active_specs ss)))"
proof -
  have "map lk_unitId (map spec_link xs) = map unitId xs" for xs by (simp add: spec_link_def comp_def)
  then show "distinct (map unitId ss) \<Longrightarrow> ?thesis" by (simp only: active_specs_def) (simp add: distinct_map_filter)
qed

lemma lk_unitId_link [simp]: "lk_unitId (spec_link s) = unitId s" "lk_dependencies (spec_link s) = dependencies s"
  "lk_continuationKey (spec_link s) = continuationKey s"
  by (simp_all add: spec_link_def)

lemma link_same_dependencies [simp]: "(spec_link s)\<lparr>lk_dependencies := dependencies s\<rparr> = spec_link s"
  by (simp add: spec_link_def)

lemma split_link_cases:
  assumes "x \<in> set (map spec_link (active_specs (raw_split_specs p parent point)))"
    and d: "distinct (map unitId (unitSpecs p))" and parent: "parent \<in> set (unitSpecs p)"
  obtains (old) w where "w \<in> set (unitSpecs p)" "active w" "unitId w \<noteq> unitId parent"
      "x = (spec_link w)\<lparr>lk_dependencies := dependencies (redirect_spec parent w)\<rparr>"
  | (child) "lk_unitId x \<in> {fst (split_ids (unitId parent)), snd (split_ids (unitId parent))}"
proof -
  from assms(1) obtain y where y: "y \<in> set (raw_split_specs p parent point)" "active y" "x = spec_link y"
    unfolding in_links by blast
  from y(1) consider (a) w where "w \<in> set (unitSpecs p)" "y = redirect_spec parent w"
    | (b) "y = fst (split_children parent point) \<or> y = snd (split_children parent point)"
    by (auto simp: raw_split_specs_def)
  then show thesis
  proof cases
    case a
    have ne: "unitId w \<noteq> unitId parent"
    proof
      assume "unitId w = unitId parent"
      with a d parent have "w = parent" by (auto simp: distinct_map inj_on_def)
      with a y show False by (simp add: redirect_parent)
    qed
    show thesis by (rule old [OF a(1) _ ne]) (use a y redirect_link [OF ne] in auto)
  next
    case b
    then show thesis using child y by auto
  qed
qed

lemma old_link_split:
  assumes "w \<in> set (unitSpecs p)" "active w" "unitId w \<noteq> unitId parent"
  shows "(spec_link w)\<lparr>lk_dependencies := dependencies (redirect_spec parent w)\<rparr>
    \<in> set (map spec_link (active_specs (raw_split_specs p parent point)))"
  unfolding in_links
  by (rule bexI [of _ "redirect_spec parent w"])
    (use assms redirect_link [OF assms(3)] in \<open>auto simp: raw_split_specs_def\<close>)

lemma predecessor_after_split:
  assumes c: "collation (locale_compare h)" and d: "distinct (map unitId (unitSpecs p))"
    and g: "assert_spec_graph h (unitSpecs p) = Inr ()"
    and f: "continuation_predecessors h (map spec_link (active_specs (unitSpecs p))) = Inr f"
    and d': "distinct (map unitId (raw_split_specs p parent point))"
    and f': "continuation_predecessors h (map spec_link (active_specs (raw_split_specs p parent point))) = Inr f'"
    and parent: "parent \<in> set (unitSpecs p)" "active parent"
    and fresh: "fst (split_ids (unitId parent)) \<notin> unitId ` set (unitSpecs p)"
      "snd (split_ids (unitId parent)) \<notin> unitId ` set (unitSpecs p)"
    and s: "s \<in> set (unitSpecs p)" "active s" "unitId s \<noteq> unitId parent" "unitId parent \<notin> set (dependencies s)"
    and v: "f' (unitId s) = Some v"
  shows "f (unitId s) = Some v"
proof -
  let ?L = "map spec_link (active_specs (unitSpecs p))"
  let ?L' = "map spec_link (active_specs (raw_split_specs p parent point))"
  let ?lt = "\<lambda>a b. compare_unit_identity h a b < 0"
  note dl = distinct_links [OF d] and dl' = distinct_links [OF d']
  have s': "spec_link s \<in> set ?L'"
    using old_link_split [OF s(1,2,3), of point] redirect_other [OF s(3,4)] by simp
  from v continuation_predecessors_Some [OF c dl' f'] obtain a b where ab: "precedes h ?L' a b"
    "unitId s = lk_unitId b" "v = lk_unitId a" by metis
  have "b \<in> set ?L'" using ab by (simp only: precedes_def)
  then have "b = spec_link s"
    by (rule distinct_id_eq [OF dl' _ s']) (use ab in simp)
  with ab have pr: "precedes h ?L' a (spec_link s)" by simp
  then have dep: "v \<in> set (dependencies s)"
    using f' ab unfolding continuation_predecessors_Inr [OF c dl'] by fastforce
  then obtain t where "t \<in> set (unitSpecs p)" "unitId t = v"
    using spec_graph_dependencies [OF g s(1,2)] by blast
  then have "v \<in> unitId ` set (unitSpecs p)" by blast
  then have not_child: "v \<notin> {fst (split_ids (unitId parent)), snd (split_ids (unitId parent))}"
    using fresh by (metis insert_iff singletonD)
  have "a \<in> set ?L'" using pr by (simp add: precedes_def)
  then obtain w where w: "w \<in> set (unitSpecs p)" "active w" "unitId w \<noteq> unitId parent"
      "a = (spec_link w)\<lparr>lk_dependencies := dependencies (redirect_spec parent w)\<rparr>"
    by (rule split_link_cases [OF _ d parent(1)]) (use not_child ab in auto)
  have key: "continuationKey w = continuationKey s" "truthy_text (continuationKey s)"
    and lt: "?lt (spec_link w) (spec_link s)"
    using pr unfolding w(4) precedes_def by simp_all
  have only_parent: "x = spec_link parent"
    if x: "x \<in> set ?L" "lk_continuationKey x = continuationKey s" "?lt (spec_link w) x" "?lt x (spec_link s)" for x
  proof (rule ccontr)
    assume ne: "x \<noteq> spec_link parent"
    from x(1) obtain z where z: "z \<in> set (unitSpecs p)" "active z" "x = spec_link z" unfolding in_links by blast
    with ne have "unitId z \<noteq> unitId parent" using d parent(1) by (auto simp: distinct_map inj_on_def)
    from precedes_between [OF pr old_link_split [OF z(1,2) this, of point]]
    show False using x unfolding z(3) w(4) by simp
  qed
  have "precedes h ?L (spec_link w) (spec_link s)"
  proof (rule ccontr)
    assume np: "\<not> precedes h ?L (spec_link w) (spec_link s)"
    have in_L: "spec_link w \<in> set ?L" "spec_link s \<in> set ?L" using w s unfolding in_links by blast+
    with np key lt obtain x where x: "x \<in> set ?L" "lk_continuationKey x = continuationKey s"
      "?lt (spec_link w) x" "?lt x (spec_link s)" unfolding precedes_def lk_unitId_link by blast
    then have xp: "x = spec_link parent" by (rule only_parent)
    have "precedes h ?L (spec_link parent) (spec_link s)"
      unfolding precedes_def
    proof (intro conjI notI)
      assume "\<exists>y \<in> set ?L. lk_continuationKey y = lk_continuationKey (spec_link s) \<and>
          ?lt (spec_link parent) y \<and> ?lt y (spec_link s)"
      then obtain y where y: "y \<in> set ?L" "lk_continuationKey y = continuationKey s"
        "?lt (spec_link parent) y" "?lt y (spec_link s)" unfolding lk_unitId_link by blast
      have "?lt (spec_link w) y"
        using comparator.less_trans [OF identity_comparator [OF c] x(3) [unfolded xp]] y(3) by simp
      from only_parent [OF y(1,2) this y(4)] y(3) show False
        using comparator.cmp_refl [OF identity_comparator [OF c]] by simp
    qed (use x xp key in_L in auto)
    then have "unitId parent \<in> set (dependencies s)"
      using f unfolding continuation_predecessors_Inr [OF c dl] by fastforce
    with s(4) show False by simp
  qed
  then show ?thesis
    unfolding continuation_predecessors_Some [OF c dl f] using w(4) ab(3)
    by (intro exI [of _ "spec_link w"] exI [of _ "spec_link s"]) simp
qed


lemma predecessor_kept:
  assumes c: "collation (locale_compare h)" and d: "distinct (map unitId (unitSpecs p))"
    and g: "assert_spec_graph h (unitSpecs p) = Inr ()"
    and f: "continuation_predecessors h (map spec_link (active_specs (unitSpecs p))) = Inr f"
    and d': "distinct (map unitId (raw_split_specs p parent point))"
    and f': "continuation_predecessors h (map spec_link (active_specs (raw_split_specs p parent point))) = Inr f'"
    and parent: "parent \<in> set (unitSpecs p)" "active parent"
    and fresh: "fst (split_ids (unitId parent)) \<notin> unitId ` set (unitSpecs p)"
      "snd (split_ids (unitId parent)) \<notin> unitId ` set (unitSpecs p)"
    and s: "s \<in> set (unitSpecs p)" "active s" "unitId s \<noteq> unitId parent" "unitId parent \<notin> set (dependencies s)"
  shows "f' (unitId s) = f (unitId s)"
proof (cases "f' (unitId s)")
  case (Some v)
  with predecessor_after_split [OF assms] show ?thesis by simp
next
  case None
  let ?L = "map spec_link (active_specs (unitSpecs p))"
  let ?L' = "map spec_link (active_specs (raw_split_specs p parent point))"
  note dl = distinct_links [OF d] and dl' = distinct_links [OF d']
  have "f (unitId s) = None"
  proof (rule ccontr)
    assume "f (unitId s) \<noteq> None"
    then obtain v where v: "f (unitId s) = Some v" by auto
    with continuation_predecessors_Some [OF c dl f] obtain a b where ab: "precedes h ?L a b"
      "unitId s = lk_unitId b" "v = lk_unitId a" by metis
    have "spec_link s \<in> set ?L" using s unfolding in_links by blast
    have "b \<in> set ?L" using ab(1) by (simp only: precedes_def)
    then have b: "b = spec_link s"
      by (rule distinct_id_eq [OF dl _ \<open>spec_link s \<in> set ?L\<close>]) (simp only: lk_unitId_link ab(2) [symmetric])
    have "v \<in> set (dependencies s)"
      using f ab b unfolding continuation_predecessors_Inr [OF c dl] by fastforce
    with s(4) ab have ne: "lk_unitId a \<noteq> unitId parent" by auto
    from ab have "a \<in> set ?L" by (simp add: precedes_def)
    then obtain w where w: "w \<in> set (unitSpecs p)" "active w" "a = spec_link w" unfolding in_links by blast
    let ?a = "(spec_link w)\<lparr>lk_dependencies := dependencies (redirect_spec parent w)\<rparr>"
    have neq: "unitId w \<noteq> unitId parent" using ne w(3) by simp
    have "redirect_spec parent s = s" by (rule redirect_other [OF s(3,4)])
    with old_link_split [OF s(1,2,3), of point] have s': "spec_link s \<in> set ?L'"
      by (simp only: link_same_dependencies)
    have "truthy_text (lk_continuationKey (spec_link s))" "lk_continuationKey ?a = lk_continuationKey (spec_link s)"
      "compare_unit_identity h ?a (spec_link s) < 0"
      using ab(1) unfolding b w(3) precedes_def by simp_all
    then have "\<exists>a'. precedes h ?L' a' (spec_link s)"
      by (intro precedes_exists [OF c old_link_split [OF w(1,2) neq, of point] s'])
    then obtain a' where "precedes h ?L' a' (spec_link s)" by blast
    then have "f' (unitId s) = Some (lk_unitId a')"
      unfolding continuation_predecessors_Some [OF c dl' f']
      by (intro exI [of _ a'] exI [of _ "spec_link s"]) simp
    with None show False by simp
  qed
  with None show ?thesis by simp
qed

text \<open>A unit that does not depend on the split unit keeps its spec.\<close>

lemma normalize_spec_pred_cong:
  "(active s \<Longrightarrow> f' (unitId s) = f (unitId s)) \<Longrightarrow> normalize_spec h f' s = normalize_spec h f s"
  by (cases "active s") (simp_all add: normalize_spec_def)

lemma spec_kept:
  assumes c: "collation (locale_compare h)" and d: "distinct (map unitId (unitSpecs p))"
    and g: "assert_spec_graph h (unitSpecs p) = Inr ()"
    and f: "continuation_predecessors h (map spec_link (active_specs (unitSpecs p))) = Inr f"
    and n: "\<forall>s \<in> set (unitSpecs p). normalize_spec h f s = s"
    and d': "distinct (map unitId (raw_split_specs p parent point))"
    and f': "continuation_predecessors h (map spec_link (active_specs (raw_split_specs p parent point))) = Inr f'"
    and parent: "parent \<in> set (unitSpecs p)" "active parent"
    and fresh: "fst (split_ids (unitId parent)) \<notin> unitId ` set (unitSpecs p)"
      "snd (split_ids (unitId parent)) \<notin> unitId ` set (unitSpecs p)"
    and s: "s \<in> set (unitSpecs p)" "unitId s \<noteq> unitId parent" "unitId parent \<notin> set (dependencies s)"
  shows "normalize_spec h f' (redirect_spec parent s) = s"
proof -
  have "normalize_spec h f' s = normalize_spec h f s"
    by (rule normalize_spec_pred_cong) (use predecessor_kept [OF c d g f d' f' parent fresh] s in blast)
  with n s show ?thesis by (simp add: redirect_other)
qed


section \<open>The runtimes after a split\<close>

lemma child_runtime_ok:
  assumes ok: "runtime_ok h b parent r" and d: "0 \<le> splitDepth parent"
    and a: "active s'" "routePlan s' = routePlan parent" "dependencies s' = dependencies c" "active c"
      "splitDepth s' = splitDepth parent + 1" and b: "pl_budgets q = b"
  shows "unit_ok h q s' (inherited_child_runtime c r)"
proof -
  have "runtime_ok h b s' (inherited_child_runtime c r)"
    using ok a by (auto simp: ok_defs inherited_child_runtime_def initial_runtime_def)
  moreover have "prompt_bound h q s' (inherited_child_runtime c r)"
    using a by (simp add: prompt_bound_def inherited_child_runtime_def initial_runtime_def initial_prompt_resolution_def)
  moreover have "\<not> engaged (inherited_child_runtime c r)"
    by (simp add: engaged_def inherited_child_runtime_def initial_runtime_def)
  ultimately show ?thesis using a b d by (simp add: unit_ok_def)
qed

lemma parent_runtime_ok:
  assumes ok: "unit_ok h q parent r" and st: "state r \<noteq> Succeeded" and dd: "dependencies_done h q parent"
    and a: "\<not> active s'" "routePlan s' = routePlan parent" "dependencies s' = dependencies parent"
  shows "unit_ok h q s' (r\<lparr> state := Split, currentProvider := None, currentAttempt := None, unknownOutcome := None, nextEligibleAt := None \<rparr>)"
  using ok st a dd
  by (auto simp: unit_ok_def ok_defs prompt_bound_def engaged_def dependencies_done_def)

text \<open>A dependent of the split unit was never dispatched as it is now, so it can be reset.\<close>

lemma dependent_runtime_ok:
  assumes ok: "unit_ok h p t r" and nd: "d \<in> set (dependencies t)" "runtime_of h p d = Some rd" "state rd \<noteq> Succeeded"
    and a: "active s' = active t" "routePlan s' = routePlan t" "dependencies s' \<noteq> []" "unitId s' = unitId t"
      "splitDepth s' = splitDepth t" and b: "pl_budgets q = pl_budgets p"
    and r': "r' = r \<or> r' = r\<lparr> state := BlockedDependency, prompt := initial_prompt_resolution s' \<rparr>"
  shows "unit_ok h q s' r'"
proof -
  have n: "\<not> dependencies_done h p t" using nd unfolding dependencies_done_def by fastforce
  then have free: "\<not> engaged r" "active t" "lastFailureClass r \<noteq> None \<longrightarrow> \<not> splitDepth t < 1"
    using ok by (auto simp: unit_ok_def)
  have nr: "\<not> resolved (prompt r)"
  proof
    assume res: "resolved (prompt r)"
    have "dependencies t \<noteq> []" using nd(1) by auto
    with res ok have l: "list_all2 (\<lambda>d (u, out). u = d \<and> succeeded_with h p u out) (dependencies t) (dependencyOutputs (prompt r))"
      by (auto simp: unit_ok_def prompt_bound_def)
    have "\<exists>out. succeeded_with h p d out"
      using l nd(1) by (induction rule: list_all2_induct) auto
    with nd show False by (auto simp: succeeded_with_def)
  qed
  have o: "budget_ok (pl_budgets p) (routePlan t) r" "fence_ok r" "phase_ok h t r"
    using ok by (simp_all add: unit_ok_def runtime_ok_def)
  have e: "currentAttempt r = None" "unknownOutcome r = None" "result r = None" using free(1) by (simp_all add: engaged_def)
  have "budget_ok (pl_budgets q) (routePlan s') r'" using o(1) r' a b by (elim disjE) (simp_all add: budget_ok_def)
  moreover have "fence_ok r'" using o(2) r' by (elim disjE) (simp_all add: fence_ok_def)
  moreover have "phase_ok h s' r'" using o(3) e r' a free(2) by (elim disjE) (simp_all add: phase_ok_def)
  ultimately have "runtime_ok h (pl_budgets q) s' r'" by (simp add: runtime_ok_def)
  moreover have "\<not> resolved (prompt r')" "\<not> engaged r'" "lastFailureClass r' = lastFailureClass r"
    using r' nr free a by (auto simp: initial_prompt_resolution_def engaged_def)
  ultimately show ?thesis using free a by (auto simp: unit_ok_def prompt_bound_def)
qed

lemma rebuild_spec_plan_Inr:
  assumes "rebuild_spec_plan h p specs runtimes = Inr q"
  shows "unitSpecs q = specs" "build_spec_index specs = Inr (unitSpecIndex q)" "derive_layers h specs = Inr (layers q)"
    "runtimeRoot q = build_runtime_tree (locale_compare h)
       (map (\<lambda>s. (unitId s, case runtimes (unitId s) of Some r \<Rightarrow> r | None \<Rightarrow> initial_runtime s)) specs)"
    "pl_budgets q = pl_budgets p" "validate_record_unit_plan h q = Inr ()" "pl_route q = pl_route p"
    "pl_autoPolicy q = pl_autoPolicy p" "pl_maxUnits q = pl_maxUnits p" "pl_sourceSnapshotId q = pl_sourceSnapshotId p"
  using assms by (auto simp: rebuild_spec_plan_def and_then_Inr Let_def)

lemma rebuild_shape:
  assumes c: "collation (locale_compare h)" and r: "rebuild_spec_plan h p specs runtimes = Inr q"
  shows "plan_shape h q" "distinct (map unitId specs)"
    "s \<in> set specs \<Longrightarrow> runtime_of h q (unitId s) = Some (case runtimes (unitId s) of Some r \<Rightarrow> r | None \<Rightarrow> initial_runtime s)"
proof -
  note f = rebuild_spec_plan_Inr [OF r]
  show d: "distinct (map unitId specs)" by (rule build_spec_index_distinct [OF f(2)])
  obtain ix where ix: "build_spec_index specs = Inr ix"
    "\<And>u i. ix u = Some i \<longleftrightarrow> i < length specs \<and> unitId (specs ! i) = u"
    using build_spec_index_ok [OF d] by blast
  let ?f = "\<lambda>s. case runtimes (unitId s) of Some r \<Rightarrow> r | None \<Rightarrow> initial_runtime s"
  note t = runtime_tree_of_specs [OF c d, of ?f]
  have "unitSpecIndex q = ix" using f(2) ix(1) by simp
  then show "plan_shape h q" using t d ix(2) by (simp add: plan_shape_def f(1,4))
  show "s \<in> set specs \<Longrightarrow> runtime_of h q (unitId s) = Some (?f s)"
    using t(1) [of "unitId s"] find_unique [OF d] by (simp add: runtime_of_def f(4))
qed


lemma map_of_map_ok:
  assumes "map_ok (\<lambda>s. and_then (g s) (\<lambda>y. Inr (f s, y))) xs = Inr ys" "distinct (map f xs)" "x \<in> set xs"
  shows "\<exists>y. g x = Inr y \<and> map_of ys (f x) = Some y"
proof -
  have "list_all2 (\<lambda>x y. \<exists>z. g x = Inr z \<and> y = (f x, z)) xs ys"
    using assms(1) by (auto simp: map_ok_Inr and_then_Inr elim!: list_all2_mono)
  then show ?thesis using assms(2,3)
  proof (induction rule: list_all2_induct)
    case Nil
    then show ?case by simp
  next
    case (Cons a as b bs)
    then show ?case by (cases "x = a") (auto simp: rev_image_eqI)
  qed
qed

text \<open>What a successful split of a plan of the invariant works with.\<close>

lemma split_record_unit_facts:
  assumes c: "collation (locale_compare h)" and p: "plan_ok h p" and res: "split_record_unit h p u at0 = Inr q"
  obtains parent r point f' where
    "parent \<in> set (unitSpecs p)" "unitId parent = u" "runtime_of h p u = Some r"
    "lastFailureClass r = Some Quality \<or> lastFailureClass r = Some Complexity"
    "splitDepth parent < 1" "active parent" "state r \<notin> {Running, UnknownOutcomeState, Succeeded, FailedFinal}"
    "split_point parent at0 = Inr point" "axis (sp_range parent) = Step"
    "unitSpecs q = map (normalize_spec h f') (raw_split_specs p parent point)"
    "continuation_predecessors h (map spec_link (active_specs (raw_split_specs p parent point))) = Inr f'"
    "plan_shape h q" "validate_record_unit_plan h q = Inr ()" "pl_budgets q = pl_budgets p"
    "\<forall>s. s \<in> set (unitSpecs q) \<longrightarrow> (\<exists>rt. split_runtime h p parent r point s = Inr rt \<and> runtime_of h q (unitId s) = Some rt)"
    "\<forall>t. t \<in> set (unitSpecs p) \<and> unitId t \<noteq> u \<and> u \<notin> set (dependencies t) \<longrightarrow>
       normalize_spec h f' (redirect_spec parent t) = t"
    "\<forall>t rt. t \<in> set (unitSpecs p) \<and> unitId t \<noteq> u \<and> runtime_of h p (unitId t) = Some rt \<longrightarrow>
       split_runtime h p parent r point (normalize_spec h f' (redirect_spec parent t)) =
      (if specHash t \<noteq> specHash (normalize_spec h f' (redirect_spec parent t))
       then Inr (rt\<lparr> state := BlockedDependency, prompt := initial_prompt_resolution (normalize_spec h f' (redirect_spec parent t)) \<rparr>)
       else Inr rt)"
proof -
  have sh: "plan_shape h p" and v: "validate_record_unit_plan h p = Inr ()" and w: "well_formed_budgets (pl_budgets p)"
    using p by (auto simp: plan_ok_def)
  have d: "distinct (map unitId (unitSpecs p))" using sh by (simp add: plan_shape_def)
  obtain f where f: "continuation_predecessors h (map spec_link (active_specs (unitSpecs p))) = Inr f"
    and n: "\<forall>s \<in> set (unitSpecs p). normalize_spec h f s = s" using p by (auto simp: plan_ok_def specs_normal_def)
  have g: "assert_spec_graph h (unitSpecs p) = Inr ()" using v by (simp add: validate_record_unit_plan_Inr)
  obtain parent r point specs runtimes where gs: "get_spec p u = Inr parent" and r: "runtime_of h p u = Some r"
    and lf: "lastFailureClass r = Some Quality \<or> lastFailureClass r = Some Complexity"
    and guards: "splitDepth parent < 1" "active parent" "state r \<notin> {Running, UnknownOutcomeState, Succeeded, FailedFinal}"
    and ax: "axis (sp_range parent) = Step" and pt: "split_point parent at0 = Inr point"
    and fresh: "unitSpecIndex p (fst (split_ids (unitId parent))) = None" "unitSpecIndex p (snd (split_ids (unitId parent))) = None"
    and ns: "normalize_specs h (raw_split_specs p parent point) = Inr specs"
    and rts: "map_ok (\<lambda>s. and_then (split_runtime h p parent r point s) (\<lambda>rt. Inr (unitId s, rt))) specs = Inr runtimes"
    and rb: "rebuild_spec_plan h p specs (map_of runtimes) = Inr q"
    by (rule split_record_unit_parts [OF res])
  have parent: "parent \<in> set (unitSpecs p)" "unitId parent = u" using gs get_spec_Inr [OF sh] by auto
  obtain f' where g': "assert_spec_graph h (raw_split_specs p parent point) = Inr ()"
    and f': "continuation_predecessors h (map spec_link (active_specs (raw_split_specs p parent point))) = Inr f'"
    and specs: "specs = map (normalize_spec h f') (raw_split_specs p parent point)"
    using ns unfolding normalize_specs_Inr by blast
  note fr = rebuild_spec_plan_Inr [OF rb] and rs = rebuild_shape [OF c rb]
  have ix: "unitSpecIndex p x = Some i \<longleftrightarrow> i < length (unitSpecs p) \<and> unitId (unitSpecs p ! i) = x" for x i
    using sh by (simp add: plan_shape_def)
  have fresh': "fst (split_ids (unitId parent)) \<notin> unitId ` set (unitSpecs p)"
    "snd (split_ids (unitId parent)) \<notin> unitId ` set (unitSpecs p)"
    using fresh ix by (auto simp: in_set_conv_nth image_iff) (metis ix option.distinct(1))+
  have d': "distinct (map unitId (raw_split_specs p parent point))"
    using rs(2) by (simp add: specs comp_def)
  have kept: "normalize_spec h f' (redirect_spec parent s) = s"
    if "s \<in> set (unitSpecs p)" "unitId s \<noteq> unitId parent" "unitId parent \<notin> set (dependencies s)" for s
    by (rule spec_kept [OF c d g f n d' f' parent(1) guards(2) fresh' that])
  have runtime: "\<exists>rt. split_runtime h p parent r point s = Inr rt \<and> runtime_of h q (unitId s) = Some rt" if "s \<in> set specs" for s
    using map_of_map_ok [OF rts rs(2) that] rs(3) [OF that] by auto
  have old_runtime: "split_runtime h p parent r point (normalize_spec h f' (redirect_spec parent t)) =
      (if specHash t \<noteq> specHash (normalize_spec h f' (redirect_spec parent t))
       then Inr (rt\<lparr> state := BlockedDependency, prompt := initial_prompt_resolution (normalize_spec h f' (redirect_spec parent t)) \<rparr>)
       else Inr rt)"
    if t: "t \<in> set (unitSpecs p)" "unitId t \<noteq> unitId parent" "runtime_of h p (unitId t) = Some rt" for t rt
  proof -
    from t(1) obtain i where i: "i < length (unitSpecs p)" "unitSpecs p ! i = t" by (auto simp: in_set_conv_nth)
    then have "unitSpecIndex p (unitId t) = Some i" by (simp add: ix)
    moreover have "unitId t \<noteq> fst (split_ids (unitId parent))" "unitId t \<noteq> snd (split_ids (unitId parent))"
      using t(1) fresh' by (metis image_eqI)+
    ultimately show ?thesis
      using t i by (simp add: split_runtime_def case_prod_beta Let_def require_runtime_Inr [THEN iffD2])
  qed
  show thesis
    by (rule that [OF parent r lf guards pt ax _ f' rs(1) fr(6,5)])
      (use fr(1) specs runtime kept old_runtime parent(2) in auto)
qed

lemma split_record_unit_ok:
  assumes c: "collation (locale_compare h)" and p: "plan_ok h p" and res: "split_record_unit h p u at0 = Inr q"
  shows "plan_ok h q"
proof -
  have sh: "plan_shape h p" and v: "validate_record_unit_plan h p = Inr ()" and w: "well_formed_budgets (pl_budgets p)"
    using p by (auto simp: plan_ok_def)
  have d: "distinct (map unitId (unitSpecs p))" using sh by (simp add: plan_shape_def)
  obtain parent r point f' where parent: "parent \<in> set (unitSpecs p)" "unitId parent = u" and r: "runtime_of h p u = Some r"
    and lf: "lastFailureClass r = Some Quality \<or> lastFailureClass r = Some Complexity"
    and guards: "splitDepth parent < 1" "active parent" "state r \<notin> {Running, UnknownOutcomeState, Succeeded, FailedFinal}"
    and specs: "unitSpecs q = map (normalize_spec h f') (raw_split_specs p parent point)"
    and f': "continuation_predecessors h (map spec_link (active_specs (raw_split_specs p parent point))) = Inr f'"
    and sq: "plan_shape h q" "validate_record_unit_plan h q = Inr ()" "pl_budgets q = pl_budgets p"
    and runtime: "\<forall>s. s \<in> set (unitSpecs q) \<longrightarrow> (\<exists>rt. split_runtime h p parent r point s = Inr rt \<and> runtime_of h q (unitId s) = Some rt)"
    and kept: "\<forall>t. t \<in> set (unitSpecs p) \<and> unitId t \<noteq> u \<and> u \<notin> set (dependencies t) \<longrightarrow>
       normalize_spec h f' (redirect_spec parent t) = t"
    and old_runtime: "\<forall>t rt. t \<in> set (unitSpecs p) \<and> unitId t \<noteq> u \<and> runtime_of h p (unitId t) = Some rt \<longrightarrow>
       split_runtime h p parent r point (normalize_spec h f' (redirect_spec parent t)) =
      (if specHash t \<noteq> specHash (normalize_spec h f' (redirect_spec parent t))
       then Inr (rt\<lparr> state := BlockedDependency, prompt := initial_prompt_resolution (normalize_spec h f' (redirect_spec parent t)) \<rparr>)
       else Inr rt)"
    by (rule split_record_unit_facts [OF c p res])
  have r0: "runtime_of h p (unitId parent) = Some r" using r parent by simp
  have okp: "unit_ok h p parent r" by (rule plan_ok_unit [OF p parent(1) r0])
  have keep: "runtime_of h q x = Some rd" if "runtime_of h p x = Some rd" "state rd = Succeeded" for x rd
  proof -
    have "x \<in> unitId ` set (unitSpecs p)" using runtime_of_domain [OF c sh, of x] that by simp
    then obtain t where t: "t \<in> set (unitSpecs p)" "unitId t = x" by auto
    have okt: "unit_ok h p t rd" using plan_ok_unit [OF p t(1)] that t by simp
    then have "dependencies_done h p t"
      using that by (auto simp: unit_ok_def engaged_def runtime_ok_def phase_ok_def)
    then have nd: "unitId parent \<notin> set (dependencies t)"
      using r0 guards(3) by (auto simp: dependencies_done_def)
    have ne: "unitId t \<noteq> unitId parent" using that t r0 guards(3) by auto
    have k: "normalize_spec h f' (redirect_spec parent t) = t" using kept t(1) ne nd parent(2) by auto
    then have "split_runtime h p parent r point t = Inr rd"
      using old_runtime [rule_format, of t rd] that t ne parent(2) by simp
    moreover have "t \<in> set (unitSpecs q)"
      using t(1) k by (auto simp: specs raw_split_specs_def rev_image_eqI)
    ultimately show ?thesis using runtime t by auto
  qed
  have unit: "unit_ok h q s rt" if s: "s \<in> set (unitSpecs q)" and rt: "runtime_of h q (unitId s) = Some rt" for s rt
  proof -
    from runtime s rt have srt: "split_runtime h p parent r point s = Inr rt" by fastforce
    from s consider (old) t where "t \<in> set (unitSpecs p)" "s = normalize_spec h f' (redirect_spec parent t)"
      | (child) y where "y = fst (split_children parent point) \<or> y = snd (split_children parent point)" "s = normalize_spec h f' y"
      by (auto simp: specs raw_split_specs_def)
    then show ?thesis
    proof cases
      case child
      then obtain a b c0 e where y: "y = raw_split_child parent a b c0 e" using split_children_child by metis
      have "rt = inherited_child_runtime y r"
        using srt child split_ids_fresh [of "unitId parent"]
        by (auto simp: split_runtime_def case_prod_beta Let_def)
      moreover have "0 \<le> splitDepth parent"
        using v parent(1) by (auto simp: validate_record_unit_plan_Inr validate_specs_Inr spec_valid_def
            assert_spec_identity_def and_then_Inr ensure_Inr)
      moreover have "runtime_ok h (pl_budgets p) parent r" using okp by (simp add: unit_ok_def)
      moreover have "active y" "routePlan y = routePlan parent" "splitDepth y = splitDepth parent + 1"
        by (simp_all add: y)
      ultimately show ?thesis
        unfolding child(2) using sq(3) by (simp add: child_runtime_ok)
    next
      case old
      show ?thesis
      proof (cases "unitId t = unitId parent")
        case True
        with old d parent(1) have t: "t = parent" by (auto simp: distinct_map inj_on_def)
        have ids: "unitId s \<noteq> fst (split_ids (unitId parent))" "unitId s \<noteq> snd (split_ids (unitId parent))" "unitId s = unitId parent"
          using split_ids_fresh [of "unitId parent"] old t by auto
        have rt: "rt = r\<lparr> state := Split, currentProvider := None, currentAttempt := None, unknownOutcome := None, nextEligibleAt := None \<rparr>"
          using srt ids by (simp add: split_runtime_def case_prod_beta Let_def)
        have "dependencies_done h p parent" using okp lf guards(1) by (auto simp: unit_ok_def)
        then have "dependencies_done h q parent" using keep unfolding dependencies_done_def by meson
        moreover have "unit_ok h q parent r" by (rule unit_ok_mono [OF keep sq(3) okp])
        ultimately show ?thesis
          unfolding rt using guards(3) old t by (intro parent_runtime_ok [of h q parent]) (auto simp: redirect_parent)
      next
        case False
        obtain rp where rp: "runtime_of h p (unitId t) = Some rp"
          using runtime_of_domain [OF c sh, of "unitId t"] old by auto
        have okt: "unit_ok h p t rp" by (rule plan_ok_unit [OF p old(1) rp])
        have srt': "(if specHash t \<noteq> specHash s then Inr (rp\<lparr> state := BlockedDependency, prompt := initial_prompt_resolution s \<rparr>)
            else Inr rp) = (Inr rt :: unit_runtime res)"
        proof -
          have "split_runtime h p parent r point s = (if specHash t \<noteq> specHash s
              then Inr (rp\<lparr> state := BlockedDependency, prompt := initial_prompt_resolution s \<rparr>) else Inr rp)"
            unfolding old(2) using old_runtime old(1) rp False parent(2) by blast
          with srt show ?thesis by (simp only:)
        qed
        show ?thesis
        proof (cases "unitId parent \<in> set (dependencies t)")
          case True
          then have "dependencies t \<noteq> []" by auto
          then show ?thesis
            using srt' old redirect_link [OF False] redirect_dependent [OF False] guards(3) sq(3)
            by (intro dependent_runtime_ok [OF okt True r0]) (auto split: if_splits)
        next
          case nd: False
          have "s = t" using kept old False nd parent(2) by auto
          moreover have "rt = rp" using srt' calculation by simp
          ultimately show ?thesis using unit_ok_mono [OF keep sq(3) okt] by simp
        qed
      qed
    qed
  qed
  have "continuation_predecessors h (map spec_link (active_specs (unitSpecs q))) = Inr f'"
    using f' by (simp add: specs comp_def)
  then have "specs_normal h q" by (auto simp: specs_normal_def specs normalize_spec_idem)
  then show ?thesis
    using sq w unit by (simp add: plan_ok_def)
qed

end
