(* ===== verification/UnitEngine.thy ===== *)
theory UnitEngine
  imports UnitSplitFacts
begin

text \<open>
  The record-unit engine as a state machine: a plan is created from an input and moves by
  starts, successes, failures, resolutions and splits. Every reachable plan satisfies
  \<open>plan_ok\<close>; the operations never fail on it for a reason of the plan itself.
\<close>

inductive engine_step :: "host \<Rightarrow> unit_plan \<Rightarrow> unit_plan \<Rightarrow> bool" for h where
  start: "start_record_unit h p u now av = Inr res \<Longrightarrow> engine_step h p (st_plan res)"
| succeed: "succeed_record_unit h p u i = Inr q \<Longrightarrow> engine_step h p q"
| failed: "fail_record_unit_attempt h p u j = Inr q \<Longrightarrow> engine_step h p q"
| resolve: "resolve_record_unit_unknown_outcome h p u k = Inr q \<Longrightarrow> engine_step h p q"
| split: "split_record_unit h p u at0 = Inr q \<Longrightarrow> engine_step h p q"

inductive reachable_plan :: "host \<Rightarrow> jvalue \<Rightarrow> unit_plan \<Rightarrow> bool" for h v where
  create: "create_record_unit_plan h v = Inr p \<Longrightarrow> reachable_plan h v p"
| step: "reachable_plan h v p \<Longrightarrow> engine_step h p q \<Longrightarrow> reachable_plan h v q"

inductive_cases engine_stepE: "engine_step h p q"

lemma engine_step_ok:
  assumes c: "collation (locale_compare h)" and p: "plan_ok h p" and st: "engine_step h p q"
  shows "plan_ok h q"
  using st
  by cases (use start_record_unit_ok [OF c p] succeed_record_unit_ok [OF c p] fail_record_unit_attempt_ok [OF c p]
      resolve_unknown_ok [OF c p] split_record_unit_ok [OF c p] in blast)+

lemma reachable_plan_ok:
  assumes c: "collation (locale_compare h)" and "reachable_plan h v p"
  shows "plan_ok h p"
  using assms(2) by induction (use create_plan_ok [OF c] engine_step_ok [OF c] in blast)+

section \<open>The operations are total on a plan\<close>

lemma plan_ok_lookup:
  assumes c: "collation (locale_compare h)" and p: "plan_ok h p" and u: "u \<in> unitId ` set (unitSpecs p)"
  obtains s r where "s \<in> set (unitSpecs p)" "unitId s = u" "get_spec p u = Inr s" "runtime_of h p u = Some r"
    "unit_ok h p s r" "assert_local_route_authorization h p s = Inr ()"
proof -
  have sh: "plan_shape h p" by (rule plan_ok_shape [OF p])
  from u obtain s where s: "s \<in> set (unitSpecs p)" "unitId s = u" by auto
  obtain r where r: "runtime_of h p u = Some r" using runtime_of_domain [OF c sh, of u] u by auto
  have "assert_local_route_authorization h p s = Inr ()"
    using p s(1) by (auto simp: plan_ok_def validate_record_unit_plan_Inr validate_specs_Inr spec_valid_def
        assert_local_route_authorization_def assert_authorized_route_plan_def)
  moreover have "unit_ok h p s r" using plan_ok_unit [OF p s(1)] r s by simp
  ultimately show ?thesis using that s r get_spec_member [OF sh s(1)] by simp
qed

lemma plan_ok_dependency_known:
  assumes c: "collation (locale_compare h)" and p: "plan_ok h p" and s: "s \<in> set (unitSpecs p)" "active s"
    and d: "d \<in> set (dependencies s)"
  shows "\<exists>rd. runtime_of h p d = Some rd"
proof -
  have "assert_spec_graph h (unitSpecs p) = Inr ()" using p by (simp add: plan_ok_def validate_record_unit_plan_Inr)
  from spec_graph_dependencies [OF this s d] have "d \<in> unitId ` set (unitSpecs p)" by blast
  then show ?thesis using runtime_of_domain [OF c plan_ok_shape [OF p], of d] by auto
qed

lemma dependency_block_total:
  "\<forall>d \<in> set ds. \<exists>rd. runtime_of h p d = Some rd \<Longrightarrow> \<exists>b. dependency_block h p ds = Inr b"
  by (induction ds) (auto simp: require_runtime_Inr [THEN iffD2])

lemma gather_outputs_total:
  "\<forall>b \<in> set bs. \<exists>rd. runtime_of h p (db_unitId b) = Some rd \<Longrightarrow> \<exists>os. gather_outputs h p bs = Inr os"
  by (induction bs) (auto simp: require_runtime_Inr [THEN iffD2] split: option.splits bool.splits)

lemma eligibility_total:
  assumes c: "collation (locale_compare h)" and p: "plan_ok h p" and u: "u \<in> unitId ` set (unitSpecs p)"
    and t: "assert_now now = Inr t"
  shows "\<exists>e. get_record_unit_eligibility h p u now = Inr e"
proof -
  obtain s r where s: "s \<in> set (unitSpecs p)" "get_spec p u = Inr s" "runtime_of h p u = Some r"
    by (rule plan_ok_lookup [OF c p u])
  have "\<exists>b. dependency_block h p (dependencies s) = Inr b" if "active s"
    using plan_ok_dependency_known [OF c p s(1) that] by (intro dependency_block_total) blast
  then show ?thesis
    using s t by (auto simp: get_record_unit_eligibility_def require_runtime_Inr [THEN iffD2] split: option.splits)
qed

lemma start_selected_total:
  assumes c: "collation (locale_compare h)" and p: "plan_ok h p" and s: "s \<in> set (unitSpecs p)"
  shows "\<exists>res. start_selected h p s r t sel = Inr res"
proof -
  have u: "unitId s \<in> unitId ` set (unitSpecs p)" using s by simp
  have up: "\<exists>q. update_runtime_plan h p (unitId s) x = Inr q" for x
    by (rule update_runtime_plan_total [OF c plan_ok_shape [OF p] u])
  show ?thesis
    unfolding start_selected_def Let_def
    by (cases sel) (use up in \<open>auto simp: and_then_Inr\<close>)
qed

lemma start_not_eligible_total:
  assumes c: "collation (locale_compare h)" and p: "plan_ok h p" and u: "u \<in> unitId ` set (unitSpecs p)"
    and r: "e = ENeedsFence \<Longrightarrow> unknownOutcome r \<noteq> None"
  shows "\<exists>res. start_not_eligible h p u r e = Inr res"
proof -
  have up: "\<exists>q. update_runtime_plan h p u x = Inr q" for x
    by (rule update_runtime_plan_total [OF c plan_ok_shape [OF p] u])
  show ?thesis
    unfolding start_not_eligible_def Let_def using up r by (auto simp: and_then_Inr split: option.splits)
qed

lemma start_total:
  assumes c: "collation (locale_compare h)" and p: "plan_ok h p" and u: "u \<in> unitId ` set (unitSpecs p)"
    and t: "assert_now now = Inr t"
  shows "\<exists>res. start_record_unit h p u now av = Inr res"
proof -
  obtain s r where s: "s \<in> set (unitSpecs p)" "unitId s = u" "get_spec p u = Inr s" "runtime_of h p u = Some r"
    and ok: "unit_ok h p s r" and auth: "assert_local_route_authorization h p s = Inr ()"
    by (rule plan_ok_lookup [OF c p u])
  obtain e where e: "get_record_unit_eligibility h p u now = Inr e" using eligibility_total [OF c p u t] by blast
  note rr = s(4) [THEN require_runtime_Inr [THEN iffD2]]
  show ?thesis
  proof (cases "eligible e")
    case False
    have "unknownOutcome r \<noteq> None" if "because e = ENeedsFence"
    proof -
      have "state r = UnknownOutcomeState"
        by (rule eligibility_cases [OF e]) (use s that in auto)
      then show ?thesis using unit_ok_unknown [OF ok] by simp
    qed
    from start_not_eligible_total [OF c p u this] show ?thesis
      using s t auth e rr False by (simp add: start_record_unit_def)
  next
    case True
    have act: "active s" by (rule eligibility_cases [OF e]) (use s True in auto)
    have sn: "specs_normal h p" using p by (simp add: plan_ok_def)
    have "\<forall>b \<in> set (dependencyBindings (promptRecipe s)). \<exists>rd. runtime_of h p (db_unitId b) = Some rd"
    proof
      fix b
      assume "b \<in> set (dependencyBindings (promptRecipe s))"
      then have "db_unitId b \<in> set (dependencies s)"
        unfolding specs_normal_bindings [OF sn s(1), symmetric] by simp
      with plan_ok_dependency_known [OF c p s(1) act] show "\<exists>rd. runtime_of h p (db_unitId b) = Some rd" by blast
    qed
    then obtain os where "gather_outputs h p (dependencyBindings (promptRecipe s)) = Inr os"
      using gather_outputs_total by blast
    then have "\<exists>r'. resolve_prompt_for_dispatch h p s r = Inr r'"
      by (cases os) (simp_all add: resolve_prompt_for_dispatch_def Let_def)
    then obtain r' where r': "resolve_prompt_for_dispatch h p s r = Inr r'" by blast
    have "\<exists>q. update_runtime_plan h p u x = Inr q" for x
      by (rule update_runtime_plan_total [OF c plan_ok_shape [OF p] u])
    then show ?thesis
      using s t auth e rr True r' start_selected_total [OF c p s(1)]
      by (auto simp: start_record_unit_def and_then_Inr)
  qed
qed


section \<open>What a step does to a runtime\<close>

text \<open>
  Fences and attempt counts never decrease, the failure history only grows, and a success is
  never taken back.
\<close>

definition advances :: "unit_runtime \<Rightarrow> unit_runtime \<Rightarrow> bool" where
  "advances r r' \<longleftrightarrow>
     fence r \<le> fence r' \<and> unitAttempts r \<le> unitAttempts r' \<and>
     (\<exists>new. failureHistory r' = failureHistory r @ new) \<and> (state r = Succeeded \<longrightarrow> r' = r)"

lemma advances_refl [simp]: "advances r r"
  by (simp add: advances_def)

definition plan_advances :: "host \<Rightarrow> unit_plan \<Rightarrow> unit_plan \<Rightarrow> bool" where
  "plan_advances h p q \<longleftrightarrow>
     (\<forall>u r. runtime_of h p u = Some r \<longrightarrow> (\<exists>r'. runtime_of h q u = Some r' \<and> advances r r'))"

lemma plan_advances_refl [simp]: "plan_advances h p p"
  by (simp add: plan_advances_def)

lemma plan_advances_update:
  assumes c: "collation (locale_compare h)" and p: "plan_ok h p"
    and r: "runtime_of h p u = Some r" "advances r r'" and up: "update_runtime_plan h p u r' = Inr q"
  shows "plan_advances h p q"
  using r unfolding plan_advances_def update_runtime_plan_Inr(3) [OF c plan_ok_shape [OF p] up] by auto

lemma advances_simps:
  "state r \<noteq> Succeeded \<Longrightarrow> advances r (r\<lparr>state := st\<rparr>)"
  "state r \<noteq> Succeeded \<Longrightarrow> advances r (r\<lparr> state := st, currentProvider := cp, currentAttempt := ca, nextEligibleAt := na \<rparr>)"
  "state r \<noteq> Succeeded \<Longrightarrow> advances r (r\<lparr> state := st, currentProvider := cp, currentAttempt := ca,
     unknownOutcome := un, nextEligibleAt := na \<rparr>)"
  "state r \<noteq> Succeeded \<Longrightarrow> advances r (r\<lparr> state := st, prompt := pr \<rparr>)"
  by (simp_all add: advances_def)

lemma resolve_prompt_advances:
  "resolve_prompt_for_dispatch h p s r = Inr r' \<Longrightarrow> state r \<noteq> Succeeded \<Longrightarrow>
     r' = r \<or> (state r' = Queued \<and> (\<exists>pr. r' = r\<lparr> state := Queued, prompt := pr \<rparr>))"
  by (auto simp: resolve_prompt_for_dispatch_def and_then_Inr Let_def split: if_splits option.splits)

lemma start_advances:
  assumes c: "collation (locale_compare h)" and p: "plan_ok h p"
    and res: "start_record_unit h p u now av = Inr res"
  shows "plan_advances h p (st_plan res)"
proof -
  obtain t s r e where s: "get_spec p u = Inr s" and r: "runtime_of h p u = Some r"
    and e: "get_record_unit_eligibility h p u now = Inr e"
    and br: "(\<not> eligible e \<and> start_not_eligible h p u r (because e) = Inr res) \<or>
     (eligible e \<and> (\<exists>r'. resolve_prompt_for_dispatch h p s r = Inr r' \<and>
        ((\<not> resolved (prompt r') \<and>
            (\<exists>p'. update_runtime_plan h p u (r'\<lparr>state := BlockedDependency\<rparr>) = Inr p' \<and>
                  res = started p' Blocked ''dependency'')) \<or>
         (resolved (prompt r') \<and> start_selected h p s r' t (select_provider p s r' av) = Inr res))))"
    by (rule start_record_unit_parts [OF res])
  have su: "unitId s = u" using s get_spec_Inr [OF plan_ok_shape [OF p]] by simp
  note upd = plan_advances_update [OF c p r]
  show ?thesis
  proof (cases "eligible e")
    case False
    with br have ne: "start_not_eligible h p u r (because e) = Inr res" by simp
    have ns: "state r \<noteq> Succeeded \<or> because e = ETerminal"
      by (rule eligibility_cases [OF e]) (use s r False in auto)
    have "st_plan res = p \<or> (state r \<noteq> Succeeded \<and>
        ((\<exists>st. update_runtime_plan h p u (r\<lparr>state := st\<rparr>) = Inr (st_plan res)) \<or>
         update_runtime_plan h p u (r\<lparr> state := FailedFinal, currentProvider := None, currentAttempt := None,
               unknownOutcome := None, nextEligibleAt := None \<rparr>) = Inr (st_plan res)))"
      using ne ns
      by (auto simp: start_not_eligible_def and_then_Inr Let_def started_def split: if_splits option.splits)
    then show ?thesis
      using upd [OF advances_simps(1)] upd [OF advances_simps(3)] by auto
  next
    case True
    have ns: "state r \<noteq> Succeeded" by (rule eligibility_cases [OF e]) (use s r True in auto)
    from br True obtain r' where r': "resolve_prompt_for_dispatch h p s r = Inr r'"
      and br': "(\<not> resolved (prompt r') \<and>
            (\<exists>p'. update_runtime_plan h p u (r'\<lparr>state := BlockedDependency\<rparr>) = Inr p' \<and>
                  res = started p' Blocked ''dependency'')) \<or>
         (resolved (prompt r') \<and> start_selected h p s r' t (select_provider p s r' av) = Inr res)" by auto
    have a: "advances r r'" "state r' \<noteq> Succeeded"
      using resolve_prompt_advances [OF r' ns] ns advances_simps by auto
    then have a': "advances r x" if "advances r' x" for x
      using that by (auto simp: advances_def)
    have d: "advances r' (dispatched r' (next_attempt h s r' q t) cur tr)" for q cur tr
      using a by (simp add: advances_def dispatched_def Let_def next_attempt_def)
    from br' show ?thesis
    proof (elim disjE conjE exE)
      fix p'
      assume up: "update_runtime_plan h p u (r'\<lparr>state := BlockedDependency\<rparr>) = Inr p'" and "res = started p' Blocked ''dependency''"
      with upd [OF a' [OF advances_simps(1) [OF a(2)]] up] show ?thesis by (simp add: started_def)
    next
      assume "start_selected h p s r' t (select_provider p s r' av) = Inr res"
      then show ?thesis
        using upd [OF a' [OF d]] upd [OF a' [OF advances_simps(1) [OF a(2)]]] upd [OF a' [OF advances_simps(2) [OF a(2)]]]
        unfolding start_selected_def su
        by (cases "select_provider p s r' av") (auto simp: and_then_Inr Let_def started_def split: if_splits)
    qed
  qed
qed


lemma succeed_advances:
  assumes c: "collation (locale_compare h)" and p: "plan_ok h p" and res: "succeed_record_unit h p u i = Inr q"
  shows "plan_advances h p q"
proof -
  from res obtain s r a m oh qh where r: "runtime_of h p u = Some r" "state r = Running" "currentAttempt r = Some a"
    and up: "update_runtime_plan h p u
         (r\<lparr> state := Succeeded, currentProvider := None, currentAttempt := None, nextEligibleAt := None,
            result := Some \<lparr> re_attemptId = attemptId a, re_provider = at_provider a, model = m,
              re_fence = at_fence a, re_inputHash = pr_inputHash (prompt r),
              re_provenanceHash = effective_provenance_hash h s (pr_promptHash (prompt r)),
              outputHash = oh, qualityHash = qh \<rparr> \<rparr>) = Inr q"
    unfolding succeed_record_unit_def and_then_Inr require_runtime_Inr assert_current_attempt_Inr
    by (elim exE conjE) (rule that, assumption+)
  show ?thesis
    by (rule plan_advances_update [OF c p r(1) _ up]) (use r(2) in \<open>simp add: advances_def\<close>)
qed

lemma fail_record_unit_attempt_parts:
  assumes "fail_record_unit_attempt h p u i = Inr q"
  obtains t s r a cl where "assert_now (fi_now i) = Inr t" "get_spec p u = Inr s" "runtime_of h p u = Some r"
    "state r = Running" "currentAttempt r = Some a" "attemptId a = fi_attemptId i" "at_fence a = fi_fence i"
    "parse_failure_class (fi_failureClass i) = Inr cl"
    "(cl = UnknownOutcome \<and> (\<exists>ev. parse_text (fi_providerEvidence i) = Inr ev \<and>
         update_runtime_plan h p u (unknown_runtime r a t ev) = Inr q)) \<or>
     (cl = DeterministicInput \<and> update_runtime_plan h p u (deterministic_runtime r a t) = Inr q) \<or>
     (cl \<noteq> UnknownOutcome \<and> cl \<noteq> DeterministicInput \<and> (\<exists>backoff. parse_backoff (fi_backoffMs i) = Inr backoff \<and>
         update_runtime_plan h p u (retry_runtime (pl_budgets p) r a cl t backoff) = Inr q))"
proof -
  from assms obtain t s r a cl where b: "assert_now (fi_now i) = Inr t" "get_spec p u = Inr s" "runtime_of h p u = Some r"
    "state r = Running" "currentAttempt r = Some a" "attemptId a = fi_attemptId i" "at_fence a = fi_fence i"
    "parse_failure_class (fi_failureClass i) = Inr cl"
    "(if cl = UnknownOutcome then
         and_then (parse_text (fi_providerEvidence i)) (\<lambda>evidence.
           update_runtime_plan h p u (unknown_runtime r a t evidence))
       else if cl = DeterministicInput then update_runtime_plan h p u (deterministic_runtime r a t)
       else and_then (parse_backoff (fi_backoffMs i)) (\<lambda>backoff.
         update_runtime_plan h p u (retry_runtime (pl_budgets p) r a cl t backoff))) = Inr q"
    unfolding fail_record_unit_attempt_def and_then_Inr require_runtime_Inr assert_current_attempt_Inr by blast
  show thesis
    by (rule that [OF b(1-8)]) (use b(9) in \<open>auto simp: and_then_Inr split: if_splits\<close>)
qed

lemma fail_advances:
  assumes c: "collation (locale_compare h)" and p: "plan_ok h p" and res: "fail_record_unit_attempt h p u i = Inr q"
  shows "plan_advances h p q"
proof -
  obtain t r a cl where r: "runtime_of h p u = Some r" "state r = Running"
    and up: "(cl = UnknownOutcome \<and> (\<exists>ev. parse_text (fi_providerEvidence i) = Inr ev \<and>
         update_runtime_plan h p u (unknown_runtime r a t ev) = Inr q)) \<or>
     (cl = DeterministicInput \<and> update_runtime_plan h p u (deterministic_runtime r a t) = Inr q) \<or>
     (cl \<noteq> UnknownOutcome \<and> cl \<noteq> DeterministicInput \<and> (\<exists>backoff. parse_backoff (fi_backoffMs i) = Inr backoff \<and>
         update_runtime_plan h p u (retry_runtime (pl_budgets p) r a cl t backoff) = Inr q))"
    by (rule fail_record_unit_attempt_parts [OF res])
  have "advances r (unknown_runtime r a t ev)" "advances r (deterministic_runtime r a t)"
    "advances r (retry_runtime b r a cl t k)" for ev b k
    using r(2) by (simp_all add: advances_def unknown_runtime_def deterministic_runtime_def retry_runtime_def Let_def)
  then show ?thesis using up plan_advances_update [OF c p r(1)] by blast
qed

lemma resolve_advances:
  assumes c: "collation (locale_compare h)" and p: "plan_ok h p"
    and res: "resolve_record_unit_unknown_outcome h p u i = Inr q"
  shows "plan_advances h p q"
proof -
  obtain t r un ev where r: "runtime_of h p u = Some r" "state r = UnknownOutcomeState" "fence r < ui_advancedFence i"
    and up: "update_runtime_plan h p u
       (resolved_unknown_runtime (pl_budgets p) r un (decision i) ev (ui_advancedFence i) t) = Inr q"
    by (rule resolve_unknown_parts [OF res])
  show ?thesis
    by (rule plan_advances_update [OF c p r(1) _ up])
      (use r in \<open>simp add: advances_def resolved_unknown_runtime_def Let_def\<close>)
qed

lemma split_advances:
  assumes c: "collation (locale_compare h)" and p: "plan_ok h p" and res: "split_record_unit h p u at0 = Inr q"
  shows "plan_advances h p q"
proof -
  have sh: "plan_shape h p" by (rule plan_ok_shape [OF p])
  have v: "validate_record_unit_plan h p = Inr ()" using p by (simp add: plan_ok_def)
  obtain parent r point f' where parent: "parent \<in> set (unitSpecs p)" "unitId parent = u" and r: "runtime_of h p u = Some r"
    and st: "state r \<notin> {Running, UnknownOutcomeState, Succeeded, FailedFinal}"
    and specs: "unitSpecs q = map (normalize_spec h f') (raw_split_specs p parent point)"
    and runtime: "\<forall>s. s \<in> set (unitSpecs q) \<longrightarrow> (\<exists>rt. split_runtime h p parent r point s = Inr rt \<and> runtime_of h q (unitId s) = Some rt)"
    and kept: "\<forall>t. t \<in> set (unitSpecs p) \<and> unitId t \<noteq> u \<and> u \<notin> set (dependencies t) \<longrightarrow>
       normalize_spec h f' (redirect_spec parent t) = t"
    and old: "\<forall>t rt. t \<in> set (unitSpecs p) \<and> unitId t \<noteq> u \<and> runtime_of h p (unitId t) = Some rt \<longrightarrow>
       split_runtime h p parent r point (normalize_spec h f' (redirect_spec parent t)) =
      (if specHash t \<noteq> specHash (normalize_spec h f' (redirect_spec parent t))
       then Inr (rt\<lparr> state := BlockedDependency, prompt := initial_prompt_resolution (normalize_spec h f' (redirect_spec parent t)) \<rparr>)
       else Inr rt)"
    by (rule split_record_unit_facts [OF c p res])
  show ?thesis
    unfolding plan_advances_def
  proof (intro allI impI)
    fix x rx
    assume rx: "runtime_of h p x = Some rx"
    then have "x \<in> unitId ` set (unitSpecs p)" using runtime_of_domain [OF c sh, of x] by simp
    then obtain t where t: "t \<in> set (unitSpecs p)" "unitId t = x" by auto
    let ?s = "normalize_spec h f' (redirect_spec parent t)"
    have "?s \<in> set (unitSpecs q)" using t by (simp add: specs raw_split_specs_def)
    with runtime obtain rt where rt: "split_runtime h p parent r point ?s = Inr rt" "runtime_of h q x = Some rt"
      using t by fastforce
    have "advances rx rt"
    proof (cases "x = u")
      case True
      with t parent sh have "t = parent" by (auto simp: plan_shape_def distinct_map inj_on_def)
      with rt(1) split_ids_fresh [of "unitId parent"]
      have "rt = r\<lparr> state := Split, currentProvider := None, currentAttempt := None, unknownOutcome := None, nextEligibleAt := None \<rparr>"
        by (simp add: split_runtime_def case_prod_beta Let_def)
      moreover have "rx = r" using True r rx by simp
      ultimately show ?thesis using st by (simp add: advances_def)
    next
      case False
      with old t rx have e: "split_runtime h p parent r point ?s = (if specHash t \<noteq> specHash ?s
          then Inr (rx\<lparr> state := BlockedDependency, prompt := initial_prompt_resolution ?s \<rparr>) else Inr rx)" by blast
      show ?thesis
      proof (cases "u \<in> set (dependencies t)")
        case True
        have "unit_ok h p t rx" using plan_ok_unit [OF p t(1)] rx t by simp
        moreover have "\<not> dependencies_done h p t" using True r st unfolding dependencies_done_def by fastforce
        ultimately have "state rx \<noteq> Succeeded"
          by (auto simp: unit_ok_def engaged_def runtime_ok_def phase_ok_def)
        then show ?thesis using e rt(1) advances_simps(4) by (auto split: if_splits)
      next
        case nd: False
        have "?s = t" using kept t False nd by blast
        with e rt(1) show ?thesis by simp
      qed
    qed
    with rt show "\<exists>r'. runtime_of h q x = Some r' \<and> advances rx r'" by blast
  qed
qed

lemma engine_step_advances:
  assumes c: "collation (locale_compare h)" and p: "plan_ok h p" and st: "engine_step h p q"
  shows "plan_advances h p q"
  using st
  by cases (use start_advances [OF c p] succeed_advances [OF c p] fail_advances [OF c p]
      resolve_advances [OF c p] split_advances [OF c p] in blast)+


text \<open>A start changes runtimes only.\<close>

lemma start_frame:
  assumes c: "collation (locale_compare h)" and p: "plan_ok h p" and res: "start_record_unit h p u now av = Inr res"
  shows "same_frame p (st_plan res)"
proof -
  obtain t s r e where s: "get_spec p u = Inr s" and e: "get_record_unit_eligibility h p u now = Inr e"
    and br: "(\<not> eligible e \<and> start_not_eligible h p u r (because e) = Inr res) \<or>
     (eligible e \<and> (\<exists>r'. resolve_prompt_for_dispatch h p s r = Inr r' \<and>
        ((\<not> resolved (prompt r') \<and>
            (\<exists>p'. update_runtime_plan h p u (r'\<lparr>state := BlockedDependency\<rparr>) = Inr p' \<and>
                  res = started p' Blocked ''dependency'')) \<or>
         (resolved (prompt r') \<and> start_selected h p s r' t (select_provider p s r' av) = Inr res))))"
    by (rule start_record_unit_parts [OF res])
  have up: "same_frame p q" if "update_runtime_plan h p x y = Inr q" for x y q
    by (rule update_runtime_plan_Inr(1) [OF c plan_ok_shape [OF p] that])
  have "same_frame p (st_plan res)" if "start_selected h p s r' t sel = Inr res" for r' sel
    using that up by (cases sel) (auto simp: start_selected_def and_then_Inr Let_def started_def split: if_splits)
  moreover have "same_frame p (st_plan res)" if "start_not_eligible h p u r (because e) = Inr res"
    using that up by (auto simp: start_not_eligible_def and_then_Inr Let_def started_def split: if_splits option.splits)
  ultimately show ?thesis using br up by (auto simp: started_def)
qed

end
