(* ===== verification/UnitDemo.thy ===== *)
theory UnitDemo
  imports UnitEngine
begin

text \<open>
  A concrete host and planning input, the plan created from it and its first dispatch. The
  witnesses of the engine's properties run on them. The host is a parameter of the model; this
  one orders unit ids as strings and leaves texts unhashed.
\<close>

section \<open>A concrete host and input\<close>

definition demo_host :: host where
  "demo_host = \<lparr> sha256 = (\<lambda>s. s), num_text = (\<lambda>q. show_int \<lfloor>q\<rfloor>), locale_compare = compare_text \<rparr>"

lemma demo_collation: "collation (locale_compare demo_host)"
  by (simp add: demo_host_def text_collation.collation_axioms)

definition demo_hash :: string where "demo_hash = ''sha256:'' @ replicate 64 (CHR ''0'')"

text \<open>A unit over four steps, serial when it has a continuation key.\<close>

definition demo_unit :: "string \<Rightarrow> string option \<Rightarrow> string list \<Rightarrow> jvalue" where
  "demo_unit u key deps = JObj
    [(''unitId'', JStr u),
     (''unitKind'', JStr (if key = None then ''parallel-chunk'' else ''serial-chunk'')),
     (''inputHash'', JStr demo_hash),
     (''provenance'', JObj [(''sourceSnapshotId'', JStr ''S''), (''sourceContentHash'', JStr demo_hash),
        (''promptHash'', JStr demo_hash), (''formatterVersion'', JStr ''f'')]),
     (''range'', JObj [(''axis'', JStr ''step''), (''start'', JNum (Fin 1)), (''end'', JNum (Fin 4))]),
     (''composeOrder'', JNum (Fin 0)),
     (''continuationKey'', case key of None \<Rightarrow> JNull | Some k \<Rightarrow> JStr k),
     (''dependencies'', JArr (map JStr deps)), (''stepCount'', JNum (Fin 4)), (''estimatedCost'', JNum (Fin 1))]"

definition demo_input :: "jvalue list \<Rightarrow> jvalue" where
  "demo_input us = JObj
    [(''schemaVersion'', JNum (Fin 1)), (''kind'', JStr ''record-unit-plan-input''), (''taskId'', JStr ''T''),
     (''recordId'', JStr ''R''), (''sourceSnapshotId'', JStr ''S''), (''route'', JStr ''auto''),
     (''budgets'', JObj [(''unitAttempts'', JNum (Fin 3)), (''routeAttempts'', JNum (Fin 3)), (''providerAttempts'', JNum (Fin 2))]),
     (''maxUnits'', JNum (Fin 10)), (''units'', JArr us)]"

definition demo :: jvalue where
  "demo = demo_input [demo_unit ''a'' None [], demo_unit ''b'' None [''a'']]"

text \<open>What the parser makes of it, reduced to the parts the witnesses look at.\<close>

definition demo_input_facts :: "planning_input \<Rightarrow> bool" where
  "demo_input_facts i \<longleftrightarrow>
     map in_unitId (pi_units i) = [''a'', ''b''] \<and> map in_dependencies (pi_units i) = [[], [''a'']] \<and>
     map in_continuationKey (pi_units i) = [None, None] \<and> map in_stepCount (pi_units i) = [4, 4] \<and>
     list_all (\<lambda>u. in_range u = \<lparr> axis = Step, range_start = 1, range_end = 4 \<rparr>) (pi_units i) \<and>
     pi_route i = Auto \<and> pi_autoPolicy i = Some DEFAULT_AUTO_POLICY \<and> pi_maxUnits i = 10 \<and>
     pi_budgets i = \<lparr> b_unitAttempts = 3, b_routeAttempts = 3, b_providerAttempts = 2 \<rparr>"

definition demo_parsed :: bool where
  "demo_parsed =
     (case parse_planning_input demo_host demo of
        Inr i \<Rightarrow> demo_input_facts i \<and> assert_input_graph demo_host (pi_units i) = Inr ()
      | Inl _ \<Rightarrow> False)"

lemma demo_parsed: demo_parsed
  by code_simp

lemma demo_parse:
  obtains i where "parse_planning_input demo_host demo = Inr i" "assert_input_graph demo_host (pi_units i) = Inr ()"
    "demo_input_facts i"
proof -
  have "case parse_planning_input demo_host demo of
        Inr i \<Rightarrow> demo_input_facts i \<and> assert_input_graph demo_host (pi_units i) = Inr ()
      | Inl _ \<Rightarrow> False" using demo_parsed by (simp only: demo_parsed_def)
  then show thesis
    using that by (cases "parse_planning_input demo_host demo") auto
qed

definition demo_plan :: unit_plan where
  "demo_plan = projr (create_record_unit_plan demo_host demo)"

text \<open>The plan: two active units over four steps, \<open>b\<close> after \<open>a\<close>, on the automatic route.\<close>

definition demo_spec :: "unit_spec \<Rightarrow> string list \<Rightarrow> bool" where
  "demo_spec s ds \<longleftrightarrow>
     dependencies s = ds \<and> active s \<and> continuationKey s = None \<and> stepCount s = 4 \<and> splitDepth s = 0 \<and>
     sp_range s = \<lparr> axis = Step, range_start = 1, range_end = 4 \<rparr> \<and> routePlan s = RECORD_UNIT_PROVIDERS"

lemma demo_created: "create_record_unit_plan demo_host demo = Inr demo_plan"
  and demo_frame: "pl_route demo_plan = Auto" "pl_autoPolicy demo_plan = Some DEFAULT_AUTO_POLICY"
    "pl_maxUnits demo_plan = 10" "pl_budgets demo_plan = \<lparr> b_unitAttempts = 3, b_routeAttempts = 3, b_providerAttempts = 2 \<rparr>"
  and demo_two_specs: "\<exists>sa sb. unitSpecs demo_plan = [sa, sb] \<and> unitId sa = ''a'' \<and> unitId sb = ''b'' \<and>
    demo_spec sa [] \<and> demo_spec sb [''a'']"
proof -
  obtain i where pa: "parse_planning_input demo_host demo = Inr i" and g: "assert_input_graph demo_host (pi_units i) = Inr ()"
    and fi: "demo_input_facts i" by (rule demo_parse)
  obtain rs specs ix ls where rs: "derive_authorized_route_plan demo_host (pi_route i) (pi_autoPolicy i) = Inr rs"
    and n: "normalize_specs demo_host (map (raw_spec_from_input i rs) (pi_units i)) = Inr specs"
    and c: "create_record_unit_plan demo_host demo = Inr (planned demo_host i specs ix ls)"
    by (rule create_record_unit_plan_steps [OF demo_collation pa g])
  have e: "demo_plan = planned demo_host i specs ix ls" by (simp add: demo_plan_def c)
  show "create_record_unit_plan demo_host demo = Inr demo_plan" using c e by simp
  show "pl_route demo_plan = Auto" "pl_autoPolicy demo_plan = Some DEFAULT_AUTO_POLICY"
    "pl_maxUnits demo_plan = 10" "pl_budgets demo_plan = \<lparr> b_unitAttempts = 3, b_routeAttempts = 3, b_providerAttempts = 2 \<rparr>"
    unfolding e using fi by (simp_all add: demo_input_facts_def)
  from n obtain f where sp: "specs = map (normalize_spec demo_host f) (map (raw_spec_from_input i rs) (pi_units i))"
    unfolding normalize_specs_Inr by blast
  have "rs = RECORD_UNIT_PROVIDERS"
    using rs fi by (auto simp: demo_input_facts_def derive_authorized_route_plan_def and_then_Inr DEFAULT_AUTO_POLICY_def)
  moreover obtain ua ub where us: "pi_units i = [ua, ub]" using fi by (auto simp: demo_input_facts_def Cons_eq_map_conv)
  ultimately show "\<exists>sa sb. unitSpecs demo_plan = [sa, sb] \<and> unitId sa = ''a'' \<and> unitId sb = ''b'' \<and>
    demo_spec sa [] \<and> demo_spec sb [''a'']"
    unfolding e planned_simps sp us using fi us
    by (simp add: demo_input_facts_def demo_spec_def) (simp add: raw_spec_from_input_def)
qed

lemma demo_plan_ok: "plan_ok demo_host demo_plan"
  by (rule create_plan_ok [OF demo_collation demo_created])

lemma demo_reachable: "reachable_plan demo_host demo demo_plan"
  by (rule reachable_plan.create [OF demo_created])

lemma demo_specs:
  obtains sa sb where "unitSpecs demo_plan = [sa, sb]" "unitId sa = ''a''" "unitId sb = ''b''"
    "demo_spec sa []" "demo_spec sb [''a'']" "runtime_of demo_host demo_plan ''a'' = Some (initial_runtime sa)"
    "runtime_of demo_host demo_plan ''b'' = Some (initial_runtime sb)"
proof -
  obtain sa sb where s: "unitSpecs demo_plan = [sa, sb]" "unitId sa = ''a''" "unitId sb = ''b''"
    "demo_spec sa []" "demo_spec sb [''a'']" using demo_two_specs by blast
  moreover have "\<forall>s \<in> set (unitSpecs demo_plan). runtime_of demo_host demo_plan (unitId s) = Some (initial_runtime s)"
    by (rule create_record_unit_plan_Inr(3) [OF demo_collation demo_created])
  ultimately show thesis using that [of sa sb] by simp
qed

section \<open>A run of the demo\<close>

text \<open>The dispatch of an eligible unit whose prompt is resolved, in one equation.\<close>

lemma start_dispatches:
  assumes c: "collation (locale_compare h)" and p: "plan_ok h p" and s: "s \<in> set (unitSpecs p)"
    and r: "runtime_of h p (unitId s) = Some r" and t: "assert_now now = Inr t"
    and e: "get_record_unit_eligibility h p (unitId s) now = Inr e" "eligible e" and res: "resolved (prompt r)"
    and sel: "select_provider p s r av = Selected q cursor tr msg"
  shows "\<exists>p'. update_runtime_plan h p (unitId s) (dispatched r (next_attempt h s r q t) cursor tr) = Inr p' \<and>
    start_record_unit h p (unitId s) now av = Inr ((started p' Dispatch msg)\<lparr>attempt := Some (next_attempt h s r q t)\<rparr>)"
proof -
  have u: "unitId s \<in> unitId ` set (unitSpecs p)" using s by simp
  have gs: "get_spec p (unitId s) = Inr s" by (rule get_spec_member [OF plan_ok_shape [OF p] s])
  obtain s' where "get_spec p (unitId s) = Inr s'" "assert_local_route_authorization h p s' = Inr ()"
    by (rule plan_ok_lookup [OF c p u])
  with gs have auth: "assert_local_route_authorization h p s = Inr ()" by simp
  obtain p' where up: "update_runtime_plan h p (unitId s) (dispatched r (next_attempt h s r q t) cursor tr) = Inr p'"
    using update_runtime_plan_total [OF c plan_ok_shape [OF p] u] by blast
  have rr: "require_runtime h p (unitId s) = Inr r" using r by (simp add: require_runtime_Inr)
  have rp: "resolve_prompt_for_dispatch h p s r = Inr r" using res by (simp add: resolve_prompt_for_dispatch_def)
  show ?thesis
    unfolding start_record_unit_def gs auth rr t e(1) rp and_then.simps
    using up e(2) res sel by (simp add: start_selected_def)
qed

abbreviation all_free :: availability_map where "all_free \<equiv> (\<lambda>_. None)"

definition demo_started :: start_result where
  "demo_started = projr (start_record_unit demo_host demo_plan ''a'' (Fin 5) all_free)"

lemma demo_now: "assert_now (Fin 5) = Inr 5" "assert_now (Fin 6) = Inr 6" "assert_now (Fin 99999) = Inr 99999"
  by code_simp+

lemma demo_start:
  "start_record_unit demo_host demo_plan ''a'' (Fin 5) all_free = Inr demo_started"
  "action demo_started = Dispatch"
  "\<exists>s \<in> set (unitSpecs demo_plan). unitId s = ''a'' \<and> demo_spec s [] \<and>
     attempt demo_started = Some (next_attempt demo_host s (initial_runtime s) Grok 5) \<and>
     runtime_of demo_host (st_plan demo_started) ''a''
       = Some (dispatched (initial_runtime s) (next_attempt demo_host s (initial_runtime s) Grok 5) 0 True)"
proof -
  obtain sa sb where s: "unitSpecs demo_plan = [sa, sb]" "unitId sa = ''a''" "demo_spec sa []"
    and r: "runtime_of demo_host demo_plan ''a'' = Some (initial_runtime sa)"
    by (rule demo_specs)
  have mem: "sa \<in> set (unitSpecs demo_plan)" using s by simp
  have gs: "get_spec demo_plan (unitId sa) = Inr sa" by (rule get_spec_member [OF plan_ok_shape [OF demo_plan_ok] mem])
  have r': "runtime_of demo_host demo_plan (unitId sa) = Some (initial_runtime sa)" using r s by simp
  have e: "get_record_unit_eligibility demo_host demo_plan (unitId sa) (Fin 5) = Inr \<lparr> eligible = True, because = EReady \<rparr>"
    using gs s(3) require_runtime_Inr [THEN iffD2, OF r']
    by (simp add: get_record_unit_eligibility_def demo_now demo_spec_def initial_runtime_def demo_frame)
  have sel: "select_provider demo_plan sa (initial_runtime sa) all_free = Selected Grok 0 True ''next-route-provider''"
    using s(3) by (simp add: select_provider_def select_route_def demo_spec_def initial_runtime_def demo_frame
        RECORD_UNIT_PROVIDERS_def available_state_def)
  have "resolved (prompt (initial_runtime sa))"
    using s(3) by (simp add: initial_runtime_def initial_prompt_resolution_def demo_spec_def)
  from start_dispatches [OF demo_collation demo_plan_ok mem r' demo_now(1) e _ this sel]
  obtain p' where up: "update_runtime_plan demo_host demo_plan (unitId sa)
      (dispatched (initial_runtime sa) (next_attempt demo_host sa (initial_runtime sa) Grok 5) 0 True) = Inr p'"
    and st: "start_record_unit demo_host demo_plan (unitId sa) (Fin 5) all_free =
      Inr ((started p' Dispatch ''next-route-provider'')\<lparr>attempt := Some (next_attempt demo_host sa (initial_runtime sa) Grok 5)\<rparr>)"
    by auto
  have d: "demo_started = (started p' Dispatch ''next-route-provider'')\<lparr>attempt := Some (next_attempt demo_host sa (initial_runtime sa) Grok 5)\<rparr>"
    using st s(2) by (simp add: demo_started_def)
  show "start_record_unit demo_host demo_plan ''a'' (Fin 5) all_free = Inr demo_started" using st s(2) d by simp
  show "action demo_started = Dispatch" by (simp add: d started_def)
  have "runtime_of demo_host p' (unitId sa) =
      Some (dispatched (initial_runtime sa) (next_attempt demo_host sa (initial_runtime sa) Grok 5) 0 True)"
    by (simp add: update_runtime_plan_Inr(3) [OF demo_collation plan_ok_shape [OF demo_plan_ok] up])
  then show "\<exists>s \<in> set (unitSpecs demo_plan). unitId s = ''a'' \<and> demo_spec s [] \<and>
     attempt demo_started = Some (next_attempt demo_host s (initial_runtime s) Grok 5) \<and>
     runtime_of demo_host (st_plan demo_started) ''a''
       = Some (dispatched (initial_runtime s) (next_attempt demo_host s (initial_runtime s) Grok 5) 0 True)"
    using mem s by (auto simp: d started_def intro!: bexI [of _ sa])
qed

lemma demo_step: "engine_step demo_host demo_plan (st_plan demo_started)"
  by (rule engine_step.start [OF demo_start(1)])

lemma demo_reachable_started: "reachable_plan demo_host demo (st_plan demo_started)"
  by (rule reachable_plan.step [OF demo_reachable demo_step])

lemma demo_running:
  obtains s r a where "s \<in> set (unitSpecs demo_plan)" "unitId s = ''a''" "demo_spec s []"
    "runtime_of demo_host (st_plan demo_started) ''a'' = Some r" "state r = Running" "currentAttempt r = Some a"
    "attempt demo_started = Some a" "attemptId a = ''a:attempt:1''" "at_fence a = 1" "fence r = 1" "unitAttempts r = 1"
    "at_provider a = Grok" "dispatchedAt a = 5"
proof -
  have "attempt_id ''a'' 1 = ''a:attempt:1''" by code_simp
  with demo_start(3) that show thesis
    by (fastforce simp: dispatched_def next_attempt_def initial_runtime_def Let_def)
qed

lemma demo_started_specs: "unitSpecs (st_plan demo_started) = unitSpecs demo_plan"
proof -
  have "same_frame demo_plan (st_plan demo_started)" by (rule start_frame [OF demo_collation demo_plan_ok demo_start(1)])
  then show ?thesis by (rule same_frame_simps(1))
qed

end
