(* ===== verification/UnitCompose.thy ===== *)
theory UnitCompose
  imports UnitSplit
begin

text \<open>
  Composing the results of units (memory-store/src/record-unit-engine.ts:
  \<open>composeRecordUnitResults\<close>, \<open>splitRoot\<close>, \<open>collectActiveLeafIds\<close>). The walks up and down a
  split family follow ids that a caller-made plan could tie into a circle, so they run on fuel:
  \<open>None\<close> is a walk that did not end. Families of a reachable plan are two levels deep.
\<close>

type_synonym 'a walk = "'a res option"

fun walk_then :: "'a walk \<Rightarrow> ('a \<Rightarrow> 'b walk) \<Rightarrow> 'b walk" where
  "walk_then None f = None"
| "walk_then (Some (Inl e)) f = Some (Inl e)"
| "walk_then (Some (Inr a)) f = f a"

fun walk_all :: "('a \<Rightarrow> 'b walk) \<Rightarrow> 'a list \<Rightarrow> 'b list walk" where
  "walk_all f [] = Some (Inr [])"
| "walk_all f (x # xs) = walk_then (f x) (\<lambda>y. walk_then (walk_all f xs) (\<lambda>ys. Some (Inr (y # ys))))"

text \<open>The loop of \<open>splitRoot\<close>: up the parents to a spec without one.\<close>

fun climb :: "nat \<Rightarrow> unit_plan \<Rightarrow> unit_spec \<Rightarrow> unit_spec walk" where
  "climb n p current =
     (case parentUnitId current of
        Some u \<Rightarrow>
          if u = [] then Some (Inr current)
          else (case n of 0 \<Rightarrow> None | Suc m \<Rightarrow> walk_then (Some (get_spec p u)) (climb m p))
      | None \<Rightarrow> Some (Inr current))"

definition split_root :: "nat \<Rightarrow> unit_plan \<Rightarrow> unit_spec \<Rightarrow> unit_spec option walk" where
  "split_root n p s =
     (if \<not> truthy_text (parentUnitId s) then Some (Inr (if childUnitIds s \<noteq> [] then Some s else None))
      else walk_then (climb n p s) (\<lambda>r. Some (Inr (Some r))))"

fun collect_active_leaf_ids :: "nat \<Rightarrow> unit_plan \<Rightarrow> unit_spec \<Rightarrow> string list walk" where
  "collect_active_leaf_ids n p r =
     (if childUnitIds r = [] then Some (Inr (if active r then [unitId r] else []))
      else case n of
        0 \<Rightarrow> None
      | Suc m \<Rightarrow>
          walk_then (walk_all (\<lambda>u. walk_then (Some (get_spec p u)) (collect_active_leaf_ids m p)) (childUnitIds r))
            (\<lambda>idss. Some (Inr (concat idss))))"

declare climb.simps [simp del] collect_active_leaf_ids.simps [simp del]

text \<open>The ids that one requested unit adds to the expected set.\<close>

definition closure_of :: "nat \<Rightarrow> unit_plan \<Rightarrow> string \<Rightarrow> string list walk" where
  "closure_of n p u =
     walk_then (Some (get_spec p u)) (\<lambda>s.
     walk_then (Some (ensure COMPOSE_CLOSURE (active s))) (\<lambda>_.
     walk_then (split_root n p s) (\<lambda>root.
     walk_then (case root of Some r \<Rightarrow> collect_active_leaf_ids n p r | None \<Rightarrow> Some (Inr [])) (\<lambda>leaves.
       Some (Inr (leaves @
         (if unitKind s = ComposeWindow \<and> truthy_text (continuationKey s)
          then map unitId (filter (\<lambda>c. active c \<and> unitKind c = ComposeWindow \<and> continuationKey c = continuationKey s) (unitSpecs p))
          else [])))))))"

record composition_item =
  ci_unitId :: string
  ci_range :: unit_range
  ci_composeOrder :: int
  ci_childOrder :: int
  ci_result :: unit_result

record composition =
  co_sourceSnapshotId :: string
  items :: "composition_item list"
  co_outputHash :: string

definition compare_composition_items :: "host \<Rightarrow> composition_item \<Rightarrow> composition_item \<Rightarrow> int" where
  "compare_composition_items h l r =
     or_else (ci_composeOrder l - ci_composeOrder r)
    (or_else (ci_childOrder l - ci_childOrder r)
    (or_else (range_start (ci_range l) - range_start (ci_range r))
    (or_else (range_end (ci_range l) - range_end (ci_range r))
      (locale_compare h (ci_unitId l) (ci_unitId r)))))"

definition item_json :: "composition_item \<Rightarrow> json" where
  "item_json i = Obj
     [(''unitId'', Str (ci_unitId i)), (''range'', range_json (ci_range i)),
      (''composeOrder'', int_json (ci_composeOrder i)), (''childOrder'', int_json (ci_childOrder i)),
      (''result'', result_json (ci_result i))]"

definition compose_item :: "host \<Rightarrow> unit_plan \<Rightarrow> string \<Rightarrow> composition_item res" where
  "compose_item h p u =
     and_then (get_spec p u) (\<lambda>s.
     and_then (require_runtime h p u) (\<lambda>r.
     and_then (case (state r = Succeeded, result r) of (True, Some re) \<Rightarrow> Inr re | _ \<Rightarrow> Inl COMPOSE_INCOMPLETE) (\<lambda>re.
     and_then (each_ok (\<lambda>d. and_then (require_runtime h p d) (\<lambda>rd.
         ensure COMPOSE_DEPENDENCY (state rd = Succeeded))) (dependencies s)) (\<lambda>_.
     and_then (ensure COMPOSE_PROVENANCE (re_inputHash re = pr_inputHash (prompt r) \<and>
         re_provenanceHash re = effective_provenance_hash h s (pr_promptHash (prompt r)))) (\<lambda>_.
     and_then (ensure COMPOSE_PROVENANCE (sp_sourceSnapshotId s = pl_sourceSnapshotId p \<and>
         prov_sourceSnapshotId (provenance s) = pl_sourceSnapshotId p)) (\<lambda>_.
       Inr \<lparr> ci_unitId = u, ci_range = sp_range s, ci_composeOrder = composeOrder s,
             ci_childOrder = childOrder s, ci_result = re \<rparr>))))))"

definition compose_record_unit_results :: "nat \<Rightarrow> host \<Rightarrow> unit_plan \<Rightarrow> string list \<Rightarrow> composition walk" where
  "compose_record_unit_results n h p us =
     (if us = [] then Some (Inl EMPTY_COMPOSE)
      else let requested = unique_list us in
      if length requested \<noteq> length us then Some (Inl DUPLICATE_COMPOSE_INPUT)
      else walk_then (walk_all (closure_of n p) requested) (\<lambda>closures.
        let expected = unique_list (requested @ concat closures) in
        if length expected \<noteq> length requested \<or> \<not> set requested \<subseteq> set expected then Some (Inl COMPOSE_CLOSURE)
        else Some (and_then (map_ok (compose_item h p) requested) (\<lambda>unsorted.
          let sorted = sort_by (compare_composition_items h) unsorted in
          Inr \<lparr> co_sourceSnapshotId = pl_sourceSnapshotId p, items = sorted,
                co_outputHash = canonical_hash h (Obj
                  [(''sourceSnapshotId'', Str (pl_sourceSnapshotId p)), (''items'', Arr (map item_json sorted))]) \<rparr>))))"

end
