(* ===== verification/UnitProps.thy ===== *)
theory UnitProps
  imports UnitDemo UnitCompose
begin

text \<open>
  The properties of the record-unit engine, each a theorem over its definitions, with a run on a
  concrete host and input as witness where it has hypotheses. The only hypothesis on code
  outside the repository is the law of \<open>localeCompare\<close>: \<open>tells_apart\<close> on the ids of the input for the creation,
  \<open>collation\<close>, a strict order on strings, for what follows. ICU calls some distinct strings equal (it ignores the
  soft hyphen, for one), and \<open>confused_ids_are_rejected\<close> shows what the engine does then.
\<close>

section \<open>Creation\<close>

text \<open>
  C4: \<open>createRecordUnitPlan\<close> makes a plan only of an input that the strict parser reads and whose graph check passes;
  of such an input it makes one or throws \<open>RUNTIME_MISSING\<close>, and it makes one whenever \<open>localeCompare\<close> is a
  comparator that tells the ids of this input apart. Whatever \<open>localeCompare\<close> does, a plan it returns passes
  \<open>validateRecordUnitPlan\<close>, keeps the units in order and gives each its initial runtime.
\<close>

theorem create_record_unit_plan_accepts:
  "(\<forall>i. parse_planning_input h v = Inr i \<and> assert_input_graph h (pi_units i) = Inr () \<longrightarrow>
      ((\<exists>p. create_record_unit_plan h v = Inr p) \<or> create_record_unit_plan h v = Inl RUNTIME_MISSING) \<and>
      (tells_apart (locale_compare h) (in_unitId ` set (pi_units i)) \<longrightarrow> (\<exists>p. create_record_unit_plan h v = Inr p))) \<and>
   (\<forall>p. create_record_unit_plan h v = Inr p \<longrightarrow>
      (\<exists>i. parse_planning_input h v = Inr i \<and> assert_input_graph h (pi_units i) = Inr () \<and>
        map unitId (unitSpecs p) = map in_unitId (pi_units i)) \<and>
      validate_record_unit_plan h p = Inr () \<and>
      (\<forall>s \<in> set (unitSpecs p). runtime_of h p (unitId s) = Some (initial_runtime s)))"
proof (intro conjI allI impI; (elim conjE)?)
  fix i
  assume i: "parse_planning_input h v = Inr i" "assert_input_graph h (pi_units i) = Inr ()"
  obtain specs ix ls where d: "distinct (map unitId specs)" and ids: "map unitId specs = map in_unitId (pi_units i)"
    and cr: "create_record_unit_plan h v =
       (if \<forall>s \<in> set specs. runtime_of h (planned h i specs ix ls) (unitId s) \<noteq> None
        then Inr (planned h i specs ix ls) else Inl RUNTIME_MISSING)"
    by (rule create_record_unit_plan_built [OF i])
  show "(\<exists>p. create_record_unit_plan h v = Inr p) \<or> create_record_unit_plan h v = Inl RUNTIME_MISSING"
    unfolding cr by simp
  assume "tells_apart (locale_compare h) (in_unitId ` set (pi_units i))"
  moreover have "in_unitId ` set (pi_units i) = unitId ` set specs" using ids by (metis set_map)
  ultimately have "\<forall>s \<in> set specs. runtime_of h (planned h i specs ix ls) (unitId s) \<noteq> None"
    by (intro ballI planned_found [OF _ d]) simp_all
  then show "\<exists>p. create_record_unit_plan h v = Inr p" unfolding cr by simp
next
  fix p
  assume ok: "create_record_unit_plan h v = Inr p"
  then obtain i where i: "parse_planning_input h v = Inr i" "assert_input_graph h (pi_units i) = Inr ()"
    by (auto simp: create_record_unit_plan_def and_then_Inr)
  obtain specs ix ls where d: "distinct (map unitId specs)" and ids: "map unitId specs = map in_unitId (pi_units i)"
    and val: "validate_record_unit_plan h (planned h i specs ix ls) =
       (if \<forall>s \<in> set specs. runtime_of h (planned h i specs ix ls) (unitId s) \<noteq> None then Inr () else Inl RUNTIME_MISSING)"
    and cr: "create_record_unit_plan h v =
       (if \<forall>s \<in> set specs. runtime_of h (planned h i specs ix ls) (unitId s) \<noteq> None
        then Inr (planned h i specs ix ls) else Inl RUNTIME_MISSING)"
    by (rule create_record_unit_plan_built [OF i])
  from ok cr have found: "\<forall>s \<in> set specs. runtime_of h (planned h i specs ix ls) (unitId s) \<noteq> None"
    and p: "p = planned h i specs ix ls" by (auto split: if_splits)
  show "\<exists>i. parse_planning_input h v = Inr i \<and> assert_input_graph h (pi_units i) = Inr () \<and>
      map unitId (unitSpecs p) = map in_unitId (pi_units i)"
    using i ids by (auto simp: p)
  show "validate_record_unit_plan h p = Inr ()" unfolding p val using found by simp
  show "\<forall>s \<in> set (unitSpecs p). runtime_of h p (unitId s) = Some (initial_runtime s)"
    unfolding p planned_simps using planned_lookup [OF d] found by blast
qed

lemma create_record_unit_plan_accepts_witness:
  "(\<exists>p. create_record_unit_plan demo_host demo = Inr p) \<and>
   validate_record_unit_plan demo_host demo_plan = Inr () \<and> map unitId (unitSpecs demo_plan) = [''a'', ''b'']"
proof -
  obtain i where i: "parse_planning_input demo_host demo = Inr i" "assert_input_graph demo_host (pi_units i) = Inr ()"
    "demo_input_facts i" by (rule demo_parse)
  note t = create_record_unit_plan_accepts [of demo_host demo]
  have "\<exists>p. create_record_unit_plan demo_host demo = Inr p"
    using t [THEN conjunct1] i(1,2) collation_tells_apart [OF demo_collation] by blast
  moreover have "validate_record_unit_plan demo_host demo_plan = Inr () \<and> map unitId (unitSpecs demo_plan) = map in_unitId (pi_units i)"
    using t [THEN conjunct2] demo_created i(1) by fastforce
  ultimately show ?thesis using i(3) by (simp add: demo_input_facts_def)
qed

text \<open>
  The condition is needed: under a collation that ignores the soft hyphen, as ICU's does, the input with the units
  \<open>a\<close> and \<open>a\<close> followed by a soft hyphen parses and its graph is accepted, but the lookup of \<open>a\<close> goes to the wrong
  side of the tree and the input is refused.
\<close>

definition soft_hyphen :: char where
  "soft_hyphen = CHR 0xAD"

definition confused_host :: host where
  "confused_host = demo_host\<lparr> locale_compare := ignoring_compare soft_hyphen \<rparr>"

definition confused_input :: jvalue where
  "confused_input = demo_input [demo_unit ''a'' None [], demo_unit [CHR ''a'', soft_hyphen] None []]"

definition confused_parses :: bool where
  "confused_parses =
     (case parse_planning_input confused_host confused_input of
        Inr i \<Rightarrow> assert_input_graph confused_host (pi_units i) = Inr () \<and>
          map in_unitId (pi_units i) = [''a'', [CHR ''a'', soft_hyphen]]
      | Inl _ \<Rightarrow> False)"

lemma confused_parses: confused_parses
  by code_simp

lemma confused_ids_are_rejected:
  "\<exists>i. parse_planning_input confused_host confused_input = Inr i \<and> assert_input_graph confused_host (pi_units i) = Inr () \<and>
     create_record_unit_plan confused_host confused_input = Inl RUNTIME_MISSING"
proof -
  obtain i where i: "parse_planning_input confused_host confused_input = Inr i" "assert_input_graph confused_host (pi_units i) = Inr ()"
    and ids: "map in_unitId (pi_units i) = [''a'', [CHR ''a'', soft_hyphen]]"
    using confused_parses unfolding confused_parses_def by (auto split: sum.splits)
  obtain specs ix ls where sp: "map unitId specs = map in_unitId (pi_units i)"
    and cr: "create_record_unit_plan confused_host confused_input =
       (if \<forall>s \<in> set specs. runtime_of confused_host (planned confused_host i specs ix ls) (unitId s) \<noteq> None
        then Inr (planned confused_host i specs ix ls) else Inl RUNTIME_MISSING)"
    by (rule create_record_unit_plan_built [OF i])
  obtain s t where s: "specs = [s, t]" "unitId s = ''a''" "unitId t = [CHR ''a'', soft_hyphen]"
    using sp ids by (auto simp: map_eq_Cons_conv)
  have c: "locale_compare confused_host ''a'' [CHR ''a'', soft_hyphen] = 0" by code_simp
  have "runtime_of confused_host (planned confused_host i specs ix ls) ''a'' = None"
    by (simp add: runtime_of_def s build_runtime_tree_def build_slice.simps c numeral_2_eq_2)
  then have "create_record_unit_plan confused_host confused_input = Inl RUNTIME_MISSING" unfolding cr using s by simp
  with i show ?thesis by blast
qed

text \<open>
  C5: the graph check of an input accepts exactly the inputs with distinct unit ids whose
  dependencies exist and are acyclic (some rank decreases along every dependency) and in which
  every unit of a continuation chain depends on the unit immediately before it.
\<close>

theorem assert_input_graph_accepts:
  assumes c: "collation (locale_compare h)"
  shows "assert_input_graph h us = Inr () \<longleftrightarrow>
     distinct (map in_unitId us) \<and>
     (\<exists>rank :: string \<Rightarrow> nat. \<forall>u \<in> set us. \<forall>d \<in> set (in_dependencies u). d \<in> in_unitId ` set us \<and> rank d < rank (in_unitId u)) \<and>
     (let links = map (\<lambda>u. \<lparr> lk_unitId = in_unitId u, lk_composeOrder = in_composeOrder u, lk_childOrder = 0,
         lk_range = in_range u, lk_continuationKey = in_continuationKey u, lk_dependencies = in_dependencies u \<rparr>) us
      in \<forall>a b. precedes h links a b \<longrightarrow> lk_unitId a \<in> set (lk_dependencies b))"
proof -
  let ?ns = "map (\<lambda>u. \<lparr> nd_unitId = in_unitId u, nd_dependencies = in_dependencies u \<rparr>) us"
  let ?ls = "map (\<lambda>u. \<lparr> lk_unitId = in_unitId u, lk_composeOrder = in_composeOrder u, lk_childOrder = 0,
         lk_range = in_range u, lk_continuationKey = in_continuationKey u, lk_dependencies = in_dependencies u \<rparr>) us"
  have len: "length (unique_list xs) = length xs \<longleftrightarrow> distinct xs" for xs :: "string list"
    by (metis card_distinct distinct_card distinct_unique_list set_unique_list)
  have ids: "map nd_unitId ?ns = map in_unitId us" "map lk_unitId ?ls = map in_unitId us" "ids ?ns = in_unitId ` set us"
    by (auto simp: ids_def)
  have rank: "topological_rank ?ns (ids ?ns) rank \<longleftrightarrow>
      (\<forall>u \<in> set us. \<forall>d \<in> set (in_dependencies u). d \<in> in_unitId ` set us \<and> rank d < rank (in_unitId u))" for rank
    unfolding topological_rank_def ids(3) by auto
  show ?thesis
  proof (cases "distinct (map in_unitId us)")
    case False
    then have "length (unique_list (map in_unitId us)) \<noteq> length us" using len [of "map in_unitId us"] by simp
    with False show ?thesis by (simp add: assert_input_graph_def Let_def)
  next
    case True
    then have l: "length (unique_list (map in_unitId us)) = length us" using len [of "map in_unitId us"] by simp
    have ac: "assert_acyclic ?ns = Inr () \<longleftrightarrow> (\<exists>rank. topological_rank ?ns (ids ?ns) rank)"
      by (rule assert_acyclic_iff) (simp only: ids True)
    have co: "(\<exists>f. continuation_predecessors h ?ls = Inr f) \<longleftrightarrow> (\<forall>a b. precedes h ?ls a b \<longrightarrow> lk_unitId a \<in> set (lk_dependencies b))"
      unfolding continuation_predecessors_Inr [OF c True [folded ids(2)]] by simp
    have cl: "each_ok (\<lambda>u. each_ok (\<lambda>d. if d \<notin> set (map in_unitId us) then Inl INVALID_DEPENDENCY
          else if d = in_unitId u then Inl SELF_DEPENDENCY else Inr ()) (in_dependencies u)) us = Inr () \<longleftrightarrow>
        (\<forall>u \<in> set us. \<forall>d \<in> set (in_dependencies u). d \<in> in_unitId ` set us \<and> d \<noteq> in_unitId u)"
      by (auto simp: each_ok_Inr split: if_splits)
    have "assert_input_graph h us = Inr () \<longleftrightarrow>
        (\<forall>u \<in> set us. \<forall>d \<in> set (in_dependencies u). d \<in> in_unitId ` set us \<and> d \<noteq> in_unitId u) \<and>
        assert_acyclic ?ns = Inr () \<and> (\<exists>f. continuation_predecessors h ?ls = Inr f)"
      by (simp only: assert_input_graph_def Let_def and_then_Inr ensure_Inr ex_unit cl l) blast
    also have "\<dots> \<longleftrightarrow> (\<exists>rank. topological_rank ?ns (ids ?ns) rank) \<and>
        (\<forall>a b. precedes h ?ls a b \<longrightarrow> lk_unitId a \<in> set (lk_dependencies b))"
    proof -
      have "d \<noteq> in_unitId u" if "rank d < (rank (in_unitId u) :: nat)" for d u rank using that by auto
      then show ?thesis unfolding ac co rank by blast
    qed
    finally show ?thesis unfolding rank Let_def using True by simp
  qed
qed

lemma assert_input_graph_accepts_witness:
  "\<exists>us :: spec_input list. map in_unitId us = [''a'', ''b''] \<and> map in_dependencies us = [[], [''a'']] \<and>
     assert_input_graph demo_host us = Inr () \<and> (\<exists>rank :: string \<Rightarrow> nat. rank ''a'' < rank ''b'')"
proof -
  obtain i where g: "assert_input_graph demo_host (pi_units i) = Inr ()" and f: "demo_input_facts i"
    by (rule demo_parse)
  from assert_input_graph_accepts [OF demo_collation, of "pi_units i"] g
  have "\<exists>rank :: string \<Rightarrow> nat. \<forall>u \<in> set (pi_units i). \<forall>d \<in> set (in_dependencies u).
      d \<in> in_unitId ` set (pi_units i) \<and> rank d < rank (in_unitId u)" by blast
  moreover obtain ua ub where "pi_units i = [ua, ub]" "in_unitId ub = ''b''" "in_dependencies ub = [''a'']"
    using f by (auto simp: demo_input_facts_def Cons_eq_map_conv)
  ultimately have "\<exists>rank :: string \<Rightarrow> nat. rank ''a'' < rank ''b''" by auto
  with g f show ?thesis
    unfolding demo_input_facts_def by (intro exI [of _ "pi_units i"] conjI) simp_all
qed

section \<open>Invariants of reachable plans\<close>

text \<open>
  C1: on every reachable plan no unit exceeds its budgets: attempts stay within
  \<open>budgets.unitAttempts\<close> and are the sum of the attempts per provider, each of those stays within
  \<open>providerAttempts\<close>, every provider tried is on the unit's route and tried by one route
  transition, and transitions stay within \<open>routeAttempts\<close>.
\<close>

theorem reachable_budgets:
  assumes c: "collation (locale_compare h)" and p: "reachable_plan h v p"
    and s: "s \<in> set (unitSpecs p)" and r: "runtime_of h p (unitId s) = Some r"
  shows "0 \<le> unitAttempts r \<and> unitAttempts r \<le> b_unitAttempts (pl_budgets p) \<and>
    unitAttempts r = sum_list (map (providerAttemptCounts r) RECORD_UNIT_PROVIDERS) \<and>
    (\<forall>q. providerAttemptCounts r q \<le> b_providerAttempts (pl_budgets p) \<and>
         (0 < providerAttemptCounts r q \<longleftrightarrow> q \<in> set (attemptedProviders r))) \<and>
    distinct (attemptedProviders r) \<and> set (attemptedProviders r) \<subseteq> set (routePlan s) \<and>
    routeAttempts r = int (length (attemptedProviders r)) \<and> routeAttempts r \<le> b_routeAttempts (pl_budgets p)"
proof -
  have "unit_ok h p s r" by (rule plan_ok_unit [OF reachable_plan_ok [OF c p] s r])
  then have b: "budget_ok (pl_budgets p) (routePlan s) r" by (simp add: unit_ok_def runtime_ok_def)
  then have "0 \<le> sum_list (map (providerAttemptCounts r) RECORD_UNIT_PROVIDERS)"
    by (intro sum_list_nonneg) (auto simp: budget_ok_def)
  with b show ?thesis by (auto simp: budget_ok_def)
qed

lemma reachable_budgets_witness:
  "\<exists>s \<in> set (unitSpecs demo_plan). \<exists>r. runtime_of demo_host demo_plan (unitId s) = Some r \<and>
     0 \<le> unitAttempts r \<and> unitAttempts r \<le> 3 \<and> routeAttempts r \<le> 3"
proof -
  obtain sa sb where s: "unitSpecs demo_plan = [sa, sb]" "unitId sa = ''a''"
    "runtime_of demo_host demo_plan ''a'' = Some (initial_runtime sa)" by (rule demo_specs)
  then have m: "sa \<in> set (unitSpecs demo_plan)" "runtime_of demo_host demo_plan (unitId sa) = Some (initial_runtime sa)" by simp_all
  from reachable_budgets [OF demo_collation demo_reachable this] m show ?thesis by (auto simp: demo_frame)
qed

text \<open>
  on every reachable plan the fence of a unit is at least its number of attempts, the fences
  of its recorded failures increase strictly and never exceed it, and while an attempt is held
  its fence is the unit's and newer than every recorded failure of a running unit.
\<close>

theorem reachable_fences:
  assumes c: "collation (locale_compare h)" and p: "reachable_plan h v p"
    and s: "s \<in> set (unitSpecs p)" and r: "runtime_of h p (unitId s) = Some r"
  shows "unitAttempts r \<le> fence r \<and> sorted_wrt (<) (map fl_fence (failureHistory r)) \<and>
    (\<forall>f \<in> set (failureHistory r). fl_fence f \<le> fence r) \<and>
    (\<forall>a. currentAttempt r = Some a \<longrightarrow> at_fence a = fence r \<and> attemptId a = attempt_id (unitId s) (unitAttempts r)) \<and>
    (state r = Running \<longrightarrow> currentAttempt r \<noteq> None \<and> (\<forall>f \<in> set (failureHistory r). fl_fence f < fence r))"
proof -
  have "unit_ok h p s r" by (rule plan_ok_unit [OF reachable_plan_ok [OF c p] s r])
  then show ?thesis by (auto simp: unit_ok_def runtime_ok_def fence_ok_def phase_ok_def)
qed

lemma reachable_fences_witness:
  "\<exists>s \<in> set (unitSpecs (st_plan demo_started)). \<exists>r a.
     runtime_of demo_host (st_plan demo_started) (unitId s) = Some r \<and> currentAttempt r = Some a \<and>
     at_fence a = fence r \<and> attemptId a = ''a:attempt:1''"
proof -
  obtain s r a where m: "s \<in> set (unitSpecs demo_plan)" "unitId s = ''a''"
    "runtime_of demo_host (st_plan demo_started) ''a'' = Some r" "currentAttempt r = Some a" "attemptId a = ''a:attempt:1''"
    by (rule demo_running)
  then have m': "s \<in> set (unitSpecs (st_plan demo_started))"
      "runtime_of demo_host (st_plan demo_started) (unitId s) = Some r" by (simp_all add: demo_started_specs)
  from reachable_fences [OF demo_collation demo_reachable_started m'] m m' show ?thesis by blast
qed

text \<open>
  C2: on every reachable plan a unit that holds an attempt, an unknown outcome or a result has
  all its dependencies succeeded and a resolved prompt; the prompt of a dependent unit holds, in
  order, the output hashes of exactly its dependencies; the unit is unknown exactly when it
  holds the outcome, succeeded exactly when it holds a result, and that result carries the input
  and provenance hashes of the prompt it was dispatched with.
\<close>

theorem reachable_dispatch_closure:
  assumes c: "collation (locale_compare h)" and p: "reachable_plan h v p"
    and s: "s \<in> set (unitSpecs p)" and r: "runtime_of h p (unitId s) = Some r"
  shows "(engaged r \<longrightarrow> resolved (prompt r) \<and> (\<forall>d \<in> set (dependencies s). \<exists>rd. runtime_of h p d = Some rd \<and> state rd = Succeeded)) \<and>
    (dependencies s \<noteq> [] \<and> resolved (prompt r) \<longrightarrow>
       list_all2 (\<lambda>d (u, out). u = d \<and> (\<exists>rd re. runtime_of h p d = Some rd \<and> result rd = Some re \<and> outputHash re = out))
         (dependencies s) (dependencyOutputs (prompt r))) \<and>
    (state r = UnknownOutcomeState \<longleftrightarrow> unknownOutcome r \<noteq> None) \<and>
    (state r = Succeeded \<longleftrightarrow> result r \<noteq> None) \<and>
    (\<forall>re. result r = Some re \<longrightarrow> re_inputHash re = pr_inputHash (prompt r) \<and> re_fence re = fence r \<and>
       re_provenanceHash re = effective_provenance_hash h s (pr_promptHash (prompt r)))"
proof -
  have ok: "unit_ok h p s r" by (rule plan_ok_unit [OF reachable_plan_ok [OF c p] s r])
  have "list_all2 (\<lambda>d (u, out). u = d \<and> (\<exists>rd re. runtime_of h p d = Some rd \<and> result rd = Some re \<and> outputHash re = out)) ds os"
    if "list_all2 (\<lambda>d (u, out). u = d \<and> succeeded_with h p u out) ds os" for ds os
    using that by (rule list_all2_mono) (auto simp: succeeded_with_def)
  then show ?thesis using ok
    by (auto simp: unit_ok_def runtime_ok_def phase_ok_def prompt_bound_def dependencies_done_def)
qed

lemma reachable_dispatch_closure_witness:
  "\<exists>s \<in> set (unitSpecs (st_plan demo_started)). \<exists>r.
     runtime_of demo_host (st_plan demo_started) (unitId s) = Some r \<and> engaged r \<and> resolved (prompt r)"
proof -
  obtain s r a where m: "s \<in> set (unitSpecs demo_plan)" "unitId s = ''a''"
    "runtime_of demo_host (st_plan demo_started) ''a'' = Some r" "currentAttempt r = Some a"
    by (rule demo_running)
  then have m': "s \<in> set (unitSpecs (st_plan demo_started))" "engaged r"
      "runtime_of demo_host (st_plan demo_started) (unitId s) = Some r" by (simp_all add: demo_started_specs engaged_def)
  from reachable_dispatch_closure [OF demo_collation demo_reachable_started m'(1,3)] m' show ?thesis by blast
qed

text \<open>C6: every reachable plan passes \<open>validateRecordUnitPlan\<close>.\<close>

theorem reachable_plan_valid:
  assumes "collation (locale_compare h)" and "reachable_plan h v p"
  shows "validate_record_unit_plan h p = Inr ()"
  using reachable_plan_ok [OF assms] by (simp add: plan_ok_def)

lemma reachable_plan_valid_witness: "validate_record_unit_plan demo_host (st_plan demo_started) = Inr ()"
  by (rule reachable_plan_valid [OF demo_collation demo_reachable_started])

text \<open>
  C3: a step of a reachable plan never lowers a fence or an attempt count, only appends to a
  failure history, loses no unit, and leaves a succeeded unit exactly as it is.
\<close>

theorem engine_step_monotone:
  assumes c: "collation (locale_compare h)" and p: "reachable_plan h v p" and st: "engine_step h p q"
    and r: "runtime_of h p u = Some r"
  shows "\<exists>r'. runtime_of h q u = Some r' \<and> fence r \<le> fence r' \<and> unitAttempts r \<le> unitAttempts r' \<and>
    (\<exists>new. failureHistory r' = failureHistory r @ new) \<and> (state r = Succeeded \<longrightarrow> r' = r)"
  using engine_step_advances [OF c reachable_plan_ok [OF c p] st] r
  by (auto simp: plan_advances_def advances_def)

lemma engine_step_monotone_witness:
  "\<exists>r'. runtime_of demo_host (st_plan demo_started) ''b'' = Some r' \<and> 0 \<le> fence r'"
proof -
  obtain sa sb where "runtime_of demo_host demo_plan ''b'' = Some (initial_runtime sb)" by (rule demo_specs)
  from engine_step_monotone [OF demo_collation demo_reachable demo_step this] show ?thesis
    by (auto simp: initial_runtime_def)
qed

end
