(* ===== verification/UnitDispatchProps.thy ===== *)
theory UnitDispatchProps
  imports UnitDemo
begin

text \<open>
  The properties of dispatching a unit and of ending an attempt: what a dispatch guarantees,
  which provider is chosen, and how failures, stale attempts and unknown outcomes are handled.
\<close>

section \<open>Dispatch\<close>

text \<open>
  C8: on a reachable plan \<open>startRecordUnit\<close> never throws for a unit of the plan and a valid
  clock; in particular the non-null assertion on the unknown outcome holds.
\<close>

theorem start_record_unit_never_fails:
  assumes "collation (locale_compare h)" and "reachable_plan h v p" and "u \<in> unitId ` set (unitSpecs p)"
    and "assert_now now = Inr t"
  shows "\<exists>res. start_record_unit h p u now av = Inr res"
  by (rule start_total [OF assms(1) reachable_plan_ok [OF assms(1,2)] assms(3,4)])

lemma start_record_unit_never_fails_witness:
  "\<exists>res. start_record_unit demo_host (st_plan demo_started) ''b'' (Fin 6) all_free = Inr res"
proof -
  obtain sa sb where s: "unitSpecs demo_plan = [sa, sb]" "unitId sb = ''b''" by (rule demo_specs)
  then have "''b'' \<in> unitId ` set (unitSpecs (st_plan demo_started))" by (simp add: demo_started_specs)
  from start_record_unit_never_fails [OF demo_collation demo_reachable_started this demo_now(2)] show ?thesis .
qed

lemma start_not_eligible_attempt: "start_not_eligible h p u r e = Inr res \<Longrightarrow> attempt res = None"
  by (auto simp: start_not_eligible_def and_then_Inr Let_def started_def split: if_splits option.splits)

text \<open>
  C7: a dispatch on a reachable plan is sound. The unit is active and not finished, its backoff
  has passed, all its dependencies have succeeded and its budget is not used up; the attempt
  goes to an available provider of the unit's route, under the next fence, and is the one the
  unit then runs.
\<close>

theorem dispatch_sound:
  assumes c: "collation (locale_compare h)" and p: "reachable_plan h v p"
    and res: "start_record_unit h p u now av = Inr res" and a: "attempt res = Some a"
  shows "action res = Dispatch \<and>
    (\<exists>s r r' t. s \<in> set (unitSpecs p) \<and> unitId s = u \<and> assert_now now = Inr t \<and>
       runtime_of h p u = Some r \<and> runtime_of h (st_plan res) u = Some r' \<and>
       active s \<and> state r \<notin> {Succeeded, FailedFinal, Split, UnknownOutcomeState} \<and>
       (\<forall>x. nextEligibleAt r = Some x \<longrightarrow> x \<le> t) \<and> dependencies_done h p s \<and>
       unitAttempts r < b_unitAttempts (pl_budgets p) \<and>
       at_provider a \<in> set (routePlan s) \<and> available_state av (at_provider a) = Available \<and>
       at_fence a = fence r + 1 \<and> attemptId a = attempt_id u (unitAttempts r + 1) \<and>
       state r' = Running \<and> currentAttempt r' = Some a \<and> fence r' = fence r + 1 \<and> unitAttempts r' = unitAttempts r + 1)"
proof -
  have ok: "plan_ok h p" by (rule reachable_plan_ok [OF c p])
  obtain t s r e where t: "assert_now now = Inr t" and s: "get_spec p u = Inr s" and r: "runtime_of h p u = Some r"
    and e: "get_record_unit_eligibility h p u now = Inr e"
    and br: "(\<not> eligible e \<and> start_not_eligible h p u r (because e) = Inr res) \<or>
     (eligible e \<and> (\<exists>r'. resolve_prompt_for_dispatch h p s r = Inr r' \<and>
        ((\<not> resolved (prompt r') \<and>
            (\<exists>p'. update_runtime_plan h p u (r'\<lparr>state := BlockedDependency\<rparr>) = Inr p' \<and>
                  res = started p' Blocked ''dependency'')) \<or>
         (resolved (prompt r') \<and> start_selected h p s r' t (select_provider p s r' av) = Inr res))))"
    by (rule start_record_unit_parts [OF res])
  have sp: "s \<in> set (unitSpecs p)" "unitId s = u" using s get_spec_Inr [OF plan_ok_shape [OF ok]] by auto
  have r0: "runtime_of h p (unitId s) = Some r" using r sp by simp
  have uok: "unit_ok h p s r" by (rule plan_ok_unit [OF ok sp(1) r0])
  have el: "eligible e" using br a start_not_eligible_attempt [of h p u r "because e" res] by auto
  have rdy: "active s" "state r \<notin> {Succeeded, FailedFinal, Split, UnknownOutcomeState}"
    "\<forall>x. nextEligibleAt r = Some x \<longrightarrow> x \<le> t" "dependencies_done h p s" "unitAttempts r < b_unitAttempts (pl_budgets p)"
    by (rule eligibility_cases [OF e]; use s r t el in auto)+
  from br el a obtain r' where rp: "resolve_prompt_for_dispatch h p s r = Inr r'"
    and ss: "start_selected h p s r' t (select_provider p s r' av) = Inr res"
    by (auto simp: started_def)
  have same: "unitAttempts r' = unitAttempts r" "fence r' = fence r" "routeCursor r' = routeCursor r"
    "currentProvider r' = currentProvider r" "attemptedProviders r' = attemptedProviders r"
    using rp by (auto simp: resolve_prompt_for_dispatch_def and_then_Inr Let_def split: if_splits option.splits)
  have b: "budget_ok (pl_budgets p) (routePlan s) r" using uok by (simp add: unit_ok_def runtime_ok_def)
  from ss a obtain q cursor tr msg where sel: "select_provider p s r' av = Selected q cursor tr msg"
    by (cases "select_provider p s r' av") (auto simp: start_selected_def and_then_Inr started_def)
  with ss a have at_q: "a = next_attempt h s r' q t" and act: "action res = Dispatch"
    and up: "update_runtime_plan h p u (dispatched r' a cursor tr) = Inr (st_plan res)"
    by (auto simp: start_selected_def and_then_Inr Let_def started_def sp)
  have "-1 \<le> routeCursor r'" using b same by (simp add: budget_ok_def)
  note sp' = select_provider_Selected [OF sel this]
  have "q \<in> set (routePlan s)" if "route_choice s r' av q cursor"
    using that nth_mem [of "nat cursor" "routePlan s"] by (auto simp: route_choice_def)
  then have q: "q \<in> set (routePlan s)" "available_state av q = Available"
    using sp' same b by (auto simp: budget_ok_def route_choice_def)
  have "runtime_of h (st_plan res) u = Some (dispatched r' a cursor tr)"
    by (simp add: update_runtime_plan_Inr(3) [OF c plan_ok_shape [OF ok] up])
  then show ?thesis
    using act sp t r rdy q same at_q
    by (intro conjI exI [of _ s] exI [of _ r] exI [of _ "dispatched r' a cursor tr"] exI [of _ t])
      (simp_all add: dispatched_def next_attempt_def Let_def)
qed

lemma dispatch_sound_witness:
  "\<exists>a r r'. attempt demo_started = Some a \<and> runtime_of demo_host demo_plan ''a'' = Some r \<and>
     runtime_of demo_host (st_plan demo_started) ''a'' = Some r' \<and> at_fence a = fence r + 1 \<and> currentAttempt r' = Some a"
proof -
  obtain s r a where m: "attempt demo_started = Some a" by (rule demo_running)
  from dispatch_sound [OF demo_collation demo_reachable demo_start(1) m] m show ?thesis by blast
qed

section \<open>The order of providers\<close>

definition passed_over :: "unit_spec \<Rightarrow> unit_runtime \<Rightarrow> availability_map \<Rightarrow> int \<Rightarrow> bool" where
  "passed_over s r av i \<longleftrightarrow>
     routePlan s ! nat i \<in> set (attemptedProviders r) \<or> available_state av (routePlan s ! nat i) = Unavailable"

lemma scan_routes_first:
  assumes "scan_routes p s r av (int n) (drop n (routePlan s)) = Selected q cursor tr msg"
  shows "\<exists>j. int n \<le> j \<and> j \<le> cursor \<and> (\<forall>i. int n \<le> i \<and> i < j \<longrightarrow> passed_over s r av i) \<and>
    (j = cursor \<and> msg = ''next-route-provider'' \<or>
     j < cursor \<and> msg = ''agy-first-run-overflow'' \<and> available_state av (routePlan s ! nat j) = CapacityFull \<and>
       (\<exists>policy. pl_route p = Auto \<and> pl_autoPolicy p = Some policy \<and> enabled (overflow policy) \<and>
          routePlan s ! nat j = ov_from (overflow policy) \<and> q = ov_to (overflow policy)))"
  using assms
proof (induction "drop n (routePlan s)" arbitrary: n)
  case Nil
  then show ?case by simp
next
  case (Cons x xs)
  from Cons(2) have d: "drop n (routePlan s) = x # xs" by simp
  then have n: "n < length (routePlan s)" and x: "routePlan s ! n = x" and xs: "xs = drop (Suc n) (routePlan s)"
    by (metis drop_all linorder_le_less_linear list.distinct(1),
        metis d drop_all hd_drop_conv_nth linorder_le_less_linear list.distinct(1) list.sel(1),
        metis d drop_Suc list.sel(3) tl_drop)
  show ?case
  proof (cases "passed_over s r av (int n)")
    case True
    then have "scan_routes p s r av (int (Suc n)) (drop (Suc n) (routePlan s)) = Selected q cursor tr msg"
      using Cons.prems x xs unfolding d passed_over_def by (auto simp: add.commute split: if_splits)
    from Cons(1) [OF xs this] obtain j where j: "int (Suc n) \<le> j" "j \<le> cursor"
      "\<forall>i. int (Suc n) \<le> i \<and> i < j \<longrightarrow> passed_over s r av i"
      "j = cursor \<and> msg = ''next-route-provider'' \<or>
       j < cursor \<and> msg = ''agy-first-run-overflow'' \<and> available_state av (routePlan s ! nat j) = CapacityFull \<and>
       (\<exists>policy. pl_route p = Auto \<and> pl_autoPolicy p = Some policy \<and> enabled (overflow policy) \<and>
          routePlan s ! nat j = ov_from (overflow policy) \<and> q = ov_to (overflow policy))" by blast
    have "passed_over s r av i" if "int n \<le> i" "i < j" for i
      using that True j(3) by (cases "i = int n") auto
    with j show ?thesis by (intro exI [of _ j]) auto
  next
    case False
    then show ?thesis
      using Cons.prems x unfolding d passed_over_def
      by (intro exI [of _ "int n"])
        (auto simp: overflow_target_def split: availability.splits option.splits if_splits)
  qed
qed

text \<open>
  \<open>selectProvider\<close> chooses either the current provider again, when it is available and has
  attempts left, or moves strictly forward on the unit's route to an untried, available
  provider. Moving on it passes only providers that were tried or are unavailable; the one
  exception is the declared overflow, taken when the overflow source is full.
\<close>

theorem select_provider_order:
  assumes sel: "select_provider p s r av = Selected q cursor tr msg" and cur: "-1 \<le> routeCursor r"
  shows "available_state av q = Available \<and>
    (tr = False \<and> currentProvider r = Some q \<and> cursor = routeCursor r \<and>
       providerAttemptCounts r q < b_providerAttempts (pl_budgets p) \<or>
     tr = True \<and> routeCursor r < cursor \<and> cursor < int (length (routePlan s)) \<and> routePlan s ! nat cursor = q \<and>
       q \<notin> set (attemptedProviders r) \<and> routeAttempts r < b_routeAttempts (pl_budgets p) \<and>
       (\<exists>j. routeCursor r < j \<and> j \<le> cursor \<and> (\<forall>i. routeCursor r < i \<and> i < j \<longrightarrow> passed_over s r av i) \<and>
          (j = cursor \<or> available_state av (routePlan s ! nat j) = CapacityFull \<and>
             (\<exists>policy. pl_route p = Auto \<and> pl_autoPolicy p = Some policy \<and> enabled (overflow policy) \<and>
                routePlan s ! nat j = ov_from (overflow policy) \<and> q = ov_to (overflow policy)))))"
proof -
  have later: "\<exists>j. routeCursor r < j \<and> j \<le> cursor \<and> (\<forall>i. routeCursor r < i \<and> i < j \<longrightarrow> passed_over s r av i) \<and>
          (j = cursor \<or> available_state av (routePlan s ! nat j) = CapacityFull \<and>
             (\<exists>policy. pl_route p = Auto \<and> pl_autoPolicy p = Some policy \<and> enabled (overflow policy) \<and>
                routePlan s ! nat j = ov_from (overflow policy) \<and> q = ov_to (overflow policy)))"
    if "select_route p s r av = Selected q cursor tr msg"
  proof -
    have "scan_routes p s r av (int (nat (routeCursor r + 1))) (drop (nat (routeCursor r + 1)) (routePlan s)) = Selected q cursor tr msg"
      using that cur by (auto simp: select_route_def split: if_splits)
    from scan_routes_first [OF this] obtain j where j: "routeCursor r + 1 \<le> j" "j \<le> cursor"
      "\<forall>i. routeCursor r + 1 \<le> i \<and> i < j \<longrightarrow> passed_over s r av i"
      "j = cursor \<or> available_state av (routePlan s ! nat j) = CapacityFull \<and>
       (\<exists>policy. pl_route p = Auto \<and> pl_autoPolicy p = Some policy \<and> enabled (overflow policy) \<and>
          routePlan s ! nat j = ov_from (overflow policy) \<and> q = ov_to (overflow policy))"
      using cur by auto
    then show ?thesis by (intro exI [of _ j]) auto
  qed
  show ?thesis
  proof (cases "select_route p s r av = Selected q cursor tr msg")
    case True
    then show ?thesis
      using select_provider_Selected [OF sel cur] later [OF True] by (auto simp: route_choice_def)
  next
    case False
    then have "\<not> tr" using sel by (auto simp: select_provider_def split: option.splits if_splits)
    with select_provider_Selected [OF sel cur] show ?thesis by auto
  qed
qed


lemma select_provider_order_witness:
  "\<exists>s r. routePlan s ! nat 1 = Agy \<and> Agy \<notin> set (attemptedProviders r) \<and>
     select_provider demo_plan s r (\<lambda>q. if q = Grok then Some CapacityFull else None)
       = Selected Agy 1 True ''agy-first-run-overflow''"
proof -
  obtain sa sb where s: "demo_spec sa []" by (rule demo_specs)
  have sel: "select_provider demo_plan sa (initial_runtime sa) (\<lambda>q. if q = Grok then Some CapacityFull else None)
      = Selected Agy 1 True ''agy-first-run-overflow''"
    using s by (simp add: select_provider_def select_route_def demo_spec_def initial_runtime_def demo_frame
        RECORD_UNIT_PROVIDERS_def available_state_def overflow_target_def DEFAULT_AUTO_POLICY_def)
  have "-1 \<le> routeCursor (initial_runtime sa)" by (simp add: initial_runtime_def)
  from select_provider_order [OF sel this] sel show ?thesis by blast
qed

section \<open>Stale attempts\<close>

text \<open>
  an attempt that the unit no longer runs cannot change it. With any fence other than the
  unit's, both success and failure are refused with \<open>NO_RUNNING_ATTEMPT\<close> or \<open>FENCE_MISMATCH\<close>.
\<close>

theorem stale_attempt_rejected:
  assumes c: "collation (locale_compare h)" and p: "reachable_plan h v p"
    and r: "runtime_of h p u = Some r" and t: "assert_now (fi_now j) = Inr t"
    and stale: "su_fence i \<noteq> fence r" "fi_fence j \<noteq> fence r"
  shows "succeed_record_unit h p u i \<in> {Inl NO_RUNNING_ATTEMPT, Inl FENCE_MISMATCH} \<and>
    fail_record_unit_attempt h p u j \<in> {Inl NO_RUNNING_ATTEMPT, Inl FENCE_MISMATCH}"
proof -
  have ok: "plan_ok h p" by (rule reachable_plan_ok [OF c p])
  have "u \<in> unitId ` set (unitSpecs p)" using runtime_of_domain [OF c plan_ok_shape [OF ok], of u] r by simp
  then obtain s where s: "s \<in> set (unitSpecs p)" "unitId s = u" "get_spec p u = Inr s"
    by (rule plan_ok_lookup [OF c ok])
  have "unit_ok h p s r" using plan_ok_unit [OF ok s(1)] r s by simp
  then have f: "currentAttempt r = Some a \<Longrightarrow> at_fence a = fence r" for a
    by (simp add: unit_ok_def runtime_ok_def phase_ok_def)
  have bad: "assert_current_attempt r x y \<in> {Inl NO_RUNNING_ATTEMPT, Inl FENCE_MISMATCH}" if "y \<noteq> fence r" for x y
    using f that by (auto simp: assert_current_attempt_def split: option.splits bool.splits)
  have rr: "require_runtime h p u = Inr r" using r by (simp add: require_runtime_Inr)
  show ?thesis
    using bad [OF stale(1), of "su_attemptId i"] bad [OF stale(2), of "fi_attemptId j"]
    unfolding succeed_record_unit_def fail_record_unit_attempt_def t s(3) rr and_then.simps by auto
qed

definition demo_success :: "int \<Rightarrow> success_input" where
  "demo_success f =
     \<lparr> su_attemptId = ''a:attempt:1'', su_fence = f, su_model = JStr ''m'', su_outputHash = JStr demo_hash,
       su_qualityHash = JStr demo_hash \<rparr>"

definition demo_failure :: "string \<Rightarrow> jvalue \<Rightarrow> failure_input" where
  "demo_failure cl backoff =
     \<lparr> fi_attemptId = ''a:attempt:1'', fi_fence = 1, fi_failureClass = JStr cl, fi_now = Fin 6,
       fi_backoffMs = backoff, fi_providerEvidence = JStr ''e'' \<rparr>"

lemma stale_attempt_rejected_witness:
  "succeed_record_unit demo_host (st_plan demo_started) ''a'' (demo_success 7) \<in> {Inl NO_RUNNING_ATTEMPT, Inl FENCE_MISMATCH}"
proof -
  obtain s r a where m: "runtime_of demo_host (st_plan demo_started) ''a'' = Some r" "fence r = 1" by (rule demo_running)
  have t: "assert_now (fi_now ((demo_failure ''Quality'' JUndef)\<lparr>fi_fence := 9\<rparr>)) = Inr 6"
    by (simp add: demo_failure_def demo_now)
  from stale_attempt_rejected [OF demo_collation demo_reachable_started m(1) t, of "demo_success 7"] m(2)
  show ?thesis by (simp add: demo_success_def demo_failure_def)
qed

section \<open>Failures\<close>

text \<open>
  After a congestion or local-resource failure at time \<open>t\<close> with a backoff of \<open>b\<close> milliseconds
  and attempts left, the unit keeps its provider exactly when that provider has attempts left,
  waits until \<open>t + b\<close>, and every earlier start is answered with \<open>backoff\<close> and dispatches nothing.
\<close>

theorem congestion_backs_off:
  assumes c: "collation (locale_compare h)" and p: "reachable_plan h v p"
    and r: "runtime_of h p u = Some r" "currentAttempt r = Some a" "state r = Running"
    and ids: "fi_attemptId i = attemptId a" "fi_fence i = at_fence a"
    and inp: "assert_now (fi_now i) = Inr t" "parse_failure_class (fi_failureClass i) = Inr cl"
      "cl = Congestion \<or> cl = LocalResource" "parse_backoff (fi_backoffMs i) = Inr b"
    and left: "unitAttempts r < b_unitAttempts (pl_budgets p)"
  shows "\<exists>q r'. fail_record_unit_attempt h p u i = Inr q \<and> runtime_of h q u = Some r' \<and>
    state r' = (if 0 < b then WaitingBackoff else Queued) \<and> nextEligibleAt r' = Some (t + b) \<and>
    currentProvider r' = (if providerAttemptCounts r (at_provider a) < b_providerAttempts (pl_budgets p)
                          then Some (at_provider a) else None) \<and>
    failureHistory r' = failureHistory r @ [failure_of a cl t] \<and> unitAttempts r' = unitAttempts r \<and>
    (\<forall>now t'. assert_now now = Inr t' \<and> t' < t + b \<longrightarrow>
       (\<forall>av res. start_record_unit h q u now av = Inr res \<longrightarrow>
          action res = Blocked \<and> reason res = ''backoff'' \<and> attempt res = None))"
proof -
  have ok: "plan_ok h p" by (rule reachable_plan_ok [OF c p])
  have u: "u \<in> unitId ` set (unitSpecs p)" using runtime_of_domain [OF c plan_ok_shape [OF ok], of u] r by simp
  obtain s where s: "s \<in> set (unitSpecs p)" "unitId s = u" "get_spec p u = Inr s"
    by (rule plan_ok_lookup [OF c ok u])
  have uok: "unit_ok h p s r" using plan_ok_unit [OF ok s(1)] r s by simp
  let ?r = "retry_runtime (pl_budgets p) r a cl t b"
  obtain q where up: "update_runtime_plan h p u ?r = Inr q"
    using update_runtime_plan_total [OF c plan_ok_shape [OF ok] u] by blast
  have rr: "require_runtime h p u = Inr r" using r by (simp add: require_runtime_Inr)
  have "assert_current_attempt r (fi_attemptId i) (fi_fence i) = Inr a" using r ids by (simp add: assert_current_attempt_Inr)
  then have f: "fail_record_unit_attempt h p u i = Inr q"
    unfolding fail_record_unit_attempt_def inp s(3) rr and_then.simps using inp up by auto
  have rq: "runtime_of h q u = Some ?r" by (simp add: update_runtime_plan_Inr(3) [OF c plan_ok_shape [OF ok] up])
  have okq: "plan_ok h q" by (rule fail_record_unit_attempt_ok [OF c ok f])
  have fields: "state ?r = (if 0 < b then WaitingBackoff else Queued)" "nextEligibleAt ?r = Some (t + b)"
    "currentProvider ?r = (if providerAttemptCounts r (at_provider a) < b_providerAttempts (pl_budgets p)
                          then Some (at_provider a) else None)"
    "failureHistory ?r = failureHistory r @ [failure_of a cl t]" "unitAttempts ?r = unitAttempts r"
    using inp left by (auto simp: retry_runtime_def Let_def)
  have blocked: "action res = Blocked \<and> reason res = ''backoff'' \<and> attempt res = None"
    if now: "assert_now now = Inr t'" "t' < t + b" and res: "start_record_unit h q u now av = Inr res" for now t' av res
  proof -
    obtain t1 s1 r1 e where st: "assert_now now = Inr t1" "get_spec q u = Inr s1" "runtime_of h q u = Some r1"
      and e: "get_record_unit_eligibility h q u now = Inr e"
      and br: "(\<not> eligible e \<and> start_not_eligible h q u r1 (because e) = Inr res) \<or>
       (eligible e \<and> (\<exists>r'. resolve_prompt_for_dispatch h q s1 r1 = Inr r' \<and>
        ((\<not> resolved (prompt r') \<and>
            (\<exists>p'. update_runtime_plan h q u (r'\<lparr>state := BlockedDependency\<rparr>) = Inr p' \<and>
                  res = started p' Blocked ''dependency'')) \<or>
         (resolved (prompt r') \<and> start_selected h q s1 r' t1 (select_provider q s1 r' av) = Inr res))))"
      by (rule start_record_unit_parts [OF res])
    have "get_spec q u = get_spec p u"
      by (rule same_frame_get_spec [OF update_runtime_plan_Inr(1) [OF c plan_ok_shape [OF ok] up]])
    with st(2) s(3) have s1: "s1 = s" by simp
    have act: "active s" using running_active [OF uok r(3)] .
    have deps: "dependencies_done h q s"
    proof -
      have "dependencies_done h p s" using uok r by (auto simp: unit_ok_def engaged_def)
      then show ?thesis
        using r by (auto simp: dependencies_done_def update_runtime_plan_Inr(3) [OF c plan_ok_shape [OF ok] up])
    qed
    have "because e = EBackoff \<and> \<not> eligible e"
      by (rule eligibility_cases [OF e]) (use st s1 act deps rq fields now in \<open>auto split: if_splits\<close>)
    with br show ?thesis
      by (auto simp: start_not_eligible_def and_then_Inr Let_def started_def split: if_splits)
  qed
  then show ?thesis using f rq fields by blast
qed


lemma demo_failure_parses:
  "parse_failure_class (fi_failureClass (demo_failure ''Congestion'' (JNum (Fin 10)))) = Inr Congestion"
  "parse_backoff (fi_backoffMs (demo_failure ''Congestion'' (JNum (Fin 10)))) = Inr 10"
  "parse_failure_class (fi_failureClass (demo_failure ''UnknownOutcome'' JUndef)) = Inr UnknownOutcome"
  "parse_failure_class (fi_failureClass (demo_failure ''Quality'' JUndef)) = Inr Quality"
  "parse_text (fi_providerEvidence (demo_failure cl b)) = Inr ''e''"
proof -
  show "parse_failure_class (fi_failureClass (demo_failure ''Congestion'' (JNum (Fin 10)))) = Inr Congestion" by code_simp
  show "parse_backoff (fi_backoffMs (demo_failure ''Congestion'' (JNum (Fin 10)))) = Inr 10" by code_simp
  show "parse_failure_class (fi_failureClass (demo_failure ''UnknownOutcome'' JUndef)) = Inr UnknownOutcome" by code_simp
  show "parse_failure_class (fi_failureClass (demo_failure ''Quality'' JUndef)) = Inr Quality" by code_simp
  have "parse_text (JStr ''e'') = Inr ''e''" by code_simp
  then show "parse_text (fi_providerEvidence (demo_failure cl b)) = Inr ''e''" by (simp add: demo_failure_def)
qed

lemma congestion_backs_off_witness:
  "\<exists>q r'. fail_record_unit_attempt demo_host (st_plan demo_started) ''a'' (demo_failure ''Congestion'' (JNum (Fin 10))) = Inr q \<and>
     runtime_of demo_host q ''a'' = Some r' \<and> state r' = WaitingBackoff \<and> nextEligibleAt r' = Some 16"
proof -
  obtain s r a where m: "s \<in> set (unitSpecs demo_plan)" "unitId s = ''a''" "runtime_of demo_host (st_plan demo_started) ''a'' = Some r"
      "state r = Running" "currentAttempt r = Some a" "attemptId a = ''a:attempt:1''" "at_fence a = 1" "unitAttempts r = 1"
    by (rule demo_running)
  have b: "unitAttempts r < b_unitAttempts (pl_budgets (st_plan demo_started))"
    using same_frame_simps(5) [OF start_frame [OF demo_collation demo_plan_ok demo_start(1)]] m by (simp add: demo_frame)
  have ids: "fi_attemptId (demo_failure ''Congestion'' (JNum (Fin 10))) = attemptId a"
    "fi_fence (demo_failure ''Congestion'' (JNum (Fin 10))) = at_fence a"
    "assert_now (fi_now (demo_failure ''Congestion'' (JNum (Fin 10)))) = Inr 6"
    using m by (simp_all add: demo_failure_def demo_now)
  from congestion_backs_off [OF demo_collation demo_reachable_started m(3,5,4) ids demo_failure_parses(1) _ demo_failure_parses(2) b]
  show ?thesis by auto
qed

section \<open>Unknown outcomes\<close>

text \<open>
  an attempt reported as unknown at time \<open>t\<close> puts its unit in the unknown state for a grace of
  30 seconds: until \<open>t + 30000\<close> no resolution is accepted and no start dispatches the unit again;
  afterwards a start only asks for a fence advance.
\<close>

theorem unknown_outcome_grace:
  assumes c: "collation (locale_compare h)" and p: "reachable_plan h v p"
    and f: "fail_record_unit_attempt h p u i = Inr q" and cl: "parse_failure_class (fi_failureClass i) = Inr UnknownOutcome"
    and t: "assert_now (fi_now i) = Inr t"
  shows "(\<exists>r' un. runtime_of h q u = Some r' \<and> state r' = UnknownOutcomeState \<and> unknownOutcome r' = Some un \<and>
        graceUntil un = t + 30000 \<and> un_fence un = fence r') \<and>
    (\<forall>k t'. assert_now (ui_now k) = Inr t' \<and> t' < t + 30000 \<longrightarrow>
       resolve_record_unit_unknown_outcome h q u k = Inl UNKNOWN_GRACE_ACTIVE) \<and>
    (\<forall>now t' av res. assert_now now = Inr t' \<and> start_record_unit h q u now av = Inr res \<longrightarrow>
       attempt res = None \<and> action res = (if t' < t + 30000 then Blocked else NeedsFenceAdvance))"
proof -
  have ok: "plan_ok h p" by (rule reachable_plan_ok [OF c p])
  obtain s r a where s: "get_spec p u = Inr s" and r: "runtime_of h p u = Some r" "state r = Running" "currentAttempt r = Some a"
    and up': "\<exists>ev. update_runtime_plan h p u (unknown_runtime r a t ev) = Inr q"
    by (rule fail_record_unit_attempt_parts [OF f]) (use cl t in auto)
  then obtain ev where up: "update_runtime_plan h p u (unknown_runtime r a t ev) = Inr q" by blast
  have sp: "s \<in> set (unitSpecs p)" "unitId s = u" using s get_spec_Inr [OF plan_ok_shape [OF ok]] by auto
  have uok: "unit_ok h p s r" using plan_ok_unit [OF ok sp(1)] r sp by simp
  let ?r = "unknown_runtime r a t ev"
  have rq: "runtime_of h q u = Some ?r" by (simp add: update_runtime_plan_Inr(3) [OF c plan_ok_shape [OF ok] up])
  have fields: "state ?r = UnknownOutcomeState" "\<exists>un. unknownOutcome ?r = Some un \<and> graceUntil un = t + 30000 \<and> un_fence un = fence ?r"
    using uok r by (auto simp: unknown_runtime_def Let_def unit_constants unit_ok_def runtime_ok_def phase_ok_def)
  then obtain un where un: "unknownOutcome ?r = Some un" "graceUntil un = t + 30000" by blast
  have res: "resolve_record_unit_unknown_outcome h q u k = Inl UNKNOWN_GRACE_ACTIVE"
    if "assert_now (ui_now k) = Inr t'" "t' < t + 30000" for k t'
    using that fields(1) un require_runtime_Inr [THEN iffD2, OF rq]
    by (simp add: resolve_record_unit_unknown_outcome_def)
  have st: "attempt res = None \<and> action res = (if t' < t + 30000 then Blocked else NeedsFenceAdvance)"
    if now: "assert_now now = Inr t'" and res: "start_record_unit h q u now av = Inr res" for now t' av res
  proof -
    have gs: "get_spec q u = Inr s"
      by (simp add: same_frame_get_spec [OF update_runtime_plan_Inr(1) [OF c plan_ok_shape [OF ok] up]] s)
    have "dependencies_done h p s" using uok r by (auto simp: unit_ok_def engaged_def)
    then have "dependencies_done h q s"
      using r by (auto simp: dependencies_done_def update_runtime_plan_Inr(3) [OF c plan_ok_shape [OF ok] up])
    then have "dependency_block h q (dependencies s) = Inr None" by (simp add: dependency_block_None dependencies_done_def)
    then have e: "get_record_unit_eligibility h q u now = Inr (not_eligible (if t' < t + 30000 then EUnknownGrace else ENeedsFence))"
      using now gs running_active [OF uok r(2)] fields(1) un require_runtime_Inr [THEN iffD2, OF rq]
      by (simp add: get_record_unit_eligibility_def)
    show ?thesis
      using res e now gs fields(1) un require_runtime_Inr [THEN iffD2, OF rq]
      by (auto simp: start_record_unit_def and_then_Inr not_eligible_def start_not_eligible_def started_def split: if_splits)
  qed
  show ?thesis using rq fields res st by blast
qed

lemma demo_unknown_reported:
  obtains r q where "runtime_of demo_host (st_plan demo_started) ''a'' = Some r"
    "fail_record_unit_attempt demo_host (st_plan demo_started) ''a'' (demo_failure ''UnknownOutcome'' JUndef) = Inr q"
    "\<exists>a. attemptId a = ''a:attempt:1'' \<and> at_fence a = 1 \<and> fence r = 1 \<and>
       update_runtime_plan demo_host (st_plan demo_started) ''a'' (unknown_runtime r a 6 ''e'') = Inr q"
proof -
  obtain s r a where m: "s \<in> set (unitSpecs demo_plan)" "unitId s = ''a''" "runtime_of demo_host (st_plan demo_started) ''a'' = Some r"
      "state r = Running" "currentAttempt r = Some a" "attemptId a = ''a:attempt:1''" "at_fence a = 1" "fence r = 1"
    by (rule demo_running)
  let ?p = "st_plan demo_started"
  have ok: "plan_ok demo_host ?p" by (rule reachable_plan_ok [OF demo_collation demo_reachable_started])
  have mem: "''a'' \<in> unitId ` set (unitSpecs ?p)" using m(1,2) by (force simp: demo_started_specs)
  obtain s' where s': "get_spec ?p ''a'' = Inr s'" by (rule plan_ok_lookup [OF demo_collation ok mem])
  obtain q where up: "update_runtime_plan demo_host ?p ''a'' (unknown_runtime r a 6 ''e'') = Inr q"
    using update_runtime_plan_total [OF demo_collation plan_ok_shape [OF ok] mem] by blast
  have fields: "fi_attemptId (demo_failure ''UnknownOutcome'' JUndef) = attemptId a"
    "fi_fence (demo_failure ''UnknownOutcome'' JUndef) = at_fence a" "assert_now (fi_now (demo_failure ''UnknownOutcome'' JUndef)) = Inr 6"
    using m by (simp_all add: demo_failure_def demo_now)
  have ca: "assert_current_attempt r (attemptId a) (at_fence a) = Inr a" using m by (simp add: assert_current_attempt_Inr)
  have "fail_record_unit_attempt demo_host ?p ''a'' (demo_failure ''UnknownOutcome'' JUndef) = Inr q"
    unfolding fail_record_unit_attempt_def fields s' require_runtime_Inr [THEN iffD2, OF m(3)] ca demo_failure_parses and_then.simps
    using up by simp
  with that m up show thesis by blast
qed

lemma unknown_outcome_grace_witness:
  "\<exists>q r' un. fail_record_unit_attempt demo_host (st_plan demo_started) ''a'' (demo_failure ''UnknownOutcome'' JUndef) = Inr q \<and>
     runtime_of demo_host q ''a'' = Some r' \<and> state r' = UnknownOutcomeState \<and> unknownOutcome r' = Some un \<and> graceUntil un = 30006"
proof -
  obtain r q where f: "fail_record_unit_attempt demo_host (st_plan demo_started) ''a'' (demo_failure ''UnknownOutcome'' JUndef) = Inr q"
    using demo_unknown_reported by metis
  have t: "assert_now (fi_now (demo_failure ''UnknownOutcome'' JUndef)) = Inr 6"
    "parse_failure_class (fi_failureClass (demo_failure ''UnknownOutcome'' JUndef)) = Inr UnknownOutcome"
    by (simp add: demo_failure_def demo_now) (rule demo_failure_parses)
  from unknown_outcome_grace [OF demo_collation demo_reachable_started f t(2,1)] f show ?thesis by auto
qed

text \<open>
  C9: an unknown outcome is resolved exactly when the grace is over and all of the evidence matches the outcome:
  its attempt, its fence, the text the provider left, an advance from that attempt and that fence to the new
  fence, which is above that fence and the unit's. The unit is then queued, or has failed if that is the decision; it
  keeps the evidence; the provider is retried only while both budgets last, and the next attempt of the unit is
  dispatched under exactly the advanced fence.
\<close>

theorem unknown_outcome_resolution:
  assumes c: "collation (locale_compare h)" and p: "reachable_plan h v p"
  shows "((\<exists>q. resolve_record_unit_unknown_outcome h p u i = Inr q) \<longleftrightarrow>
      (\<exists>t r un ev. assert_now (ui_now i) = Inr t \<and> runtime_of h p u = Some r \<and> state r = UnknownOutcomeState \<and>
        unknownOutcome r = Some un \<and> graceUntil un \<le> t \<and> ui_attemptId i = un_attemptId un \<and> ui_fence i = un_fence un \<and>
        parse_text (ui_providerEvidence i) = Inr (providerEvidence un) \<and>
        parse_fence_advance_evidence (attemptEvidence i) = Inr ev \<and> previousAttemptId ev = un_attemptId un \<and>
        previousFence ev = un_fence un \<and> advancedFence ev = ui_advancedFence i \<and>
        un_fence un < ui_advancedFence i \<and> fence r < ui_advancedFence i)) \<and>
    (\<forall>q. resolve_record_unit_unknown_outcome h p u i = Inr q \<longrightarrow>
      (\<exists>t r un ev r'. assert_now (ui_now i) = Inr t \<and> runtime_of h p u = Some r \<and> state r = UnknownOutcomeState \<and>
        unknownOutcome r = Some un \<and> graceUntil un \<le> t \<and> ui_attemptId i = un_attemptId un \<and> ui_fence i = un_fence un \<and>
        parse_text (ui_providerEvidence i) = Inr (providerEvidence un) \<and>
        parse_fence_advance_evidence (attemptEvidence i) = Inr ev \<and> previousAttemptId ev = un_attemptId un \<and>
        previousFence ev = un_fence un \<and> advancedFence ev = ui_advancedFence i \<and>
        un_fence un < ui_advancedFence i \<and> fence r < ui_advancedFence i \<and>
        runtime_of h q u = Some r' \<and> unknownOutcome r' = None \<and> fenceAdvanceEvidence r' = Some ev \<and>
        (if decision i = DecideFailFinal then state r' = FailedFinal \<and> nextEligibleAt r' = None
         else state r' = Queued \<and> nextEligibleAt r' = Some t) \<and>
        (\<forall>s x t'. at_fence (next_attempt h s r' x t') = ui_advancedFence i) \<and>
        currentProvider r' =
          (if decision i = RetrySameProvider \<and> providerAttemptCounts r (un_provider un) < b_providerAttempts (pl_budgets p) \<and>
             unitAttempts r < b_unitAttempts (pl_budgets p) then Some (un_provider un) else None)))"
proof -
  have ok: "plan_ok h p" by (rule reachable_plan_ok [OF c p])
  have sh: "plan_shape h p" by (rule plan_ok_shape [OF ok])
  have update: "\<exists>q. update_runtime_plan h p u x = Inr q" if "runtime_of h p u = Some r" for r x
    by (rule update_runtime_plan_total [OF c sh]) (use that runtime_of_domain [OF c sh, of u] in auto)
  have effect: "runtime_of h q u = Some x" if "update_runtime_plan h p u x = Inr q" for q x
    by (simp add: update_runtime_plan_Inr(3) [OF c sh that])
  have fields: "unknownOutcome r' = None \<and> fenceAdvanceEvidence r' = Some ev \<and>
      (if decision i = DecideFailFinal then state r' = FailedFinal \<and> nextEligibleAt r' = None
       else state r' = Queued \<and> nextEligibleAt r' = Some t) \<and>
      (\<forall>s x t'. at_fence (next_attempt h s r' x t') = ui_advancedFence i) \<and>
      currentProvider r' =
        (if decision i = RetrySameProvider \<and> providerAttemptCounts r (un_provider un) < b_providerAttempts (pl_budgets p) \<and>
           unitAttempts r < b_unitAttempts (pl_budgets p) then Some (un_provider un) else None)"
    if "r' = resolved_unknown_runtime (pl_budgets p) r un (decision i) ev (ui_advancedFence i) t" for r r' un ev t
    unfolding that by (simp add: resolved_unknown_runtime_def next_attempt_def Let_def)
  show ?thesis
    unfolding resolve_unknown_Inr
  proof (intro conjI allI impI iffI, goal_cases)
    case 1
    then show ?case by blast
  next
    case 2
    then show ?case using update by blast
  next
    case (3 q)
    then show ?case using effect fields by blast
  qed
qed

definition demo_resolution :: unknown_input where
  "demo_resolution =
     \<lparr> ui_now = Fin 99999, ui_attemptId = ''a:attempt:1'', ui_fence = 1, ui_providerEvidence = JStr ''e'',
       decision = RetrySameProvider, ui_advancedFence = 5,
       attemptEvidence = JObj [(''previousAttemptId'', JStr ''a:attempt:1''), (''previousFence'', JNum (Fin 1)),
         (''advancedFence'', JNum (Fin 5)), (''outcome'', JStr ''reconciled-not-found''), (''evidenceHash'', JStr demo_hash)] \<rparr>"

lemma demo_resolution_parses:
  "parse_fence_advance_evidence (attemptEvidence demo_resolution) =
     Inr \<lparr> previousAttemptId = ''a:attempt:1'', previousFence = 1, advancedFence = 5, outcome = ReconciledNotFound,
           evidenceHash = demo_hash \<rparr>"
  "parse_text (ui_providerEvidence demo_resolution) = Inr ''e''"
proof -
  show "parse_fence_advance_evidence (attemptEvidence demo_resolution) =
     Inr \<lparr> previousAttemptId = ''a:attempt:1'', previousFence = 1, advancedFence = 5, outcome = ReconciledNotFound,
           evidenceHash = demo_hash \<rparr>" by code_simp
  show "parse_text (ui_providerEvidence demo_resolution) = Inr ''e''" by code_simp
qed

lemma unknown_outcome_resolution_witness:
  "\<exists>p q r'. fail_record_unit_attempt demo_host (st_plan demo_started) ''a'' (demo_failure ''UnknownOutcome'' JUndef) = Inr p \<and>
     resolve_record_unit_unknown_outcome demo_host p ''a'' demo_resolution = Inr q \<and>
     runtime_of demo_host q ''a'' = Some r' \<and> state r' = Queued"
proof -
  obtain r p a where f: "fail_record_unit_attempt demo_host (st_plan demo_started) ''a'' (demo_failure ''UnknownOutcome'' JUndef) = Inr p"
    and a: "attemptId a = ''a:attempt:1''" "at_fence a = 1" "fence r = 1"
    and up: "update_runtime_plan demo_host (st_plan demo_started) ''a'' (unknown_runtime r a 6 ''e'') = Inr p"
    using demo_unknown_reported by metis
  have reach: "reachable_plan demo_host demo p"
    by (rule reachable_plan.step [OF demo_reachable_started engine_step.failed [OF f]])
  have ok0: "plan_ok demo_host (st_plan demo_started)" by (rule reachable_plan_ok [OF demo_collation demo_reachable_started])
  have ok: "plan_ok demo_host p" by (rule reachable_plan_ok [OF demo_collation reach])
  note u = update_runtime_plan_Inr [OF demo_collation plan_ok_shape [OF ok0] up]
  have rp: "runtime_of demo_host p ''a'' = Some (unknown_runtime r a 6 ''e'')" by (simp add: u(3))
  have mem: "''a'' \<in> unitId ` set (unitSpecs p)"
    using rp runtime_of_domain [OF demo_collation plan_ok_shape [OF ok]] by blast
  obtain q where q: "update_runtime_plan demo_host p ''a''
      (resolved_unknown_runtime (pl_budgets p) (unknown_runtime r a 6 ''e'') (the (unknownOutcome (unknown_runtime r a 6 ''e'')))
         RetrySameProvider \<lparr> previousAttemptId = ''a:attempt:1'', previousFence = 1, advancedFence = 5, outcome = ReconciledNotFound,
           evidenceHash = demo_hash \<rparr> 5 99999) = Inr q"
    using update_runtime_plan_total [OF demo_collation plan_ok_shape [OF ok] mem] by blast
  have "resolve_record_unit_unknown_outcome demo_host p ''a'' demo_resolution = Inr q"
    unfolding resolve_record_unit_unknown_outcome_def demo_resolution_parses require_runtime_Inr [THEN iffD2, OF rp] and_then.simps
    using q a by (simp add: demo_resolution_def demo_now unknown_runtime_def Let_def unit_constants)
  with unknown_outcome_resolution [OF demo_collation reach, of "''a''" demo_resolution] f show ?thesis
    by (fastforce simp: demo_resolution_def)
qed

end
