(* ===== verification/ResourceAdmission.thy ===== *)
theory ResourceAdmission
  imports ToolkitBase
begin

text \<open>
  The memory admission controller of the sandbox server
  (\<open>src/mcps/sandbox/src/resource-admission.ts\<close>): class \<open>ResourceAdmissionController\<close> with its
  options, leases, waiting queue and pressure samples. The readonly fields are \<open>adm_config\<close>, the
  mutable ones \<open>adm_ctl\<close>. A lease object is a position in \<open>adm_leases\<close>; the closure variables of
  its three methods are the lease record and the entry of \<open>startupReservations\<close> under the same key.
  A promise is settled by an entry of \<open>adm_outcomes\<close>.

  What the code reads from outside during one synchronous operation is \<open>adm_env\<close>: the clock (one
  reading per operation), the value of \<open>random()\<close> and the abort signals that are set. Timers and
  abort listeners are operations of their own. \<open>None\<close> is the infinite amount of memory that
  the two availability fields start with.
\<close>

section \<open>Options and configuration\<close>

datatype adm_mode = Watermark | FixedMode

record adm_options =
  opt_admissionMode :: "string option"
  opt_startupObservationMs :: "jnum option"
  opt_minReservationMB :: "jnum option"
  opt_admissionLimitMB :: "jnum option"
  opt_hardLimitMB :: "jnum option"
  opt_systemHeadroomMB :: "jnum option"
  opt_commitHeadroomMB :: "jnum option"
  opt_commitCriticalFloorMB :: "jnum option"
  opt_yellowPhysicalMemoryMB :: "jnum option"
  opt_yellowMaxReservationMB :: "jnum option"
  opt_smallRequestPhysicalWeight :: "jnum option"
  opt_pressureSampleMaxAgeMs :: "jnum option"
  opt_requireFreshPressureSample :: "bool option"
  opt_maxAgedReservationMB :: "jnum option"
  opt_maxQueueSize :: "jnum option"
  opt_admissionBudgetMinMs :: "jnum option"
  opt_admissionBudgetMaxMs :: "jnum option"
  opt_agingThresholdMs :: "jnum option"
  opt_retrySlotMs :: "jnum option"
  opt_maxRetryExponent :: "jnum option"
  opt_progressIntervalMs :: "jnum option"

record adm_config =
  admissionMode :: adm_mode
  startupObservationMs :: rat
  minReservationMB :: rat
  admissionLimitMB :: rat
  hardLimitMB :: rat
  systemHeadroomMB :: rat
  commitHeadroomMB :: rat
  commitCriticalFloorMB :: rat
  yellowPhysicalMemoryMB :: rat
  yellowMaxReservationMB :: rat
  smallRequestPhysicalWeight :: rat
  pressureSampleMaxAgeMs :: rat
  requireFreshPressureSample :: bool
  maxAgedReservationMB :: rat
  maxQueueSize :: int
  admissionBudgetMinMs :: rat
  admissionBudgetMaxMs :: rat
  agingThresholdMs :: rat
  retrySlotMs :: rat
  maxRetryExponent :: int
  progressIntervalMs :: rat

definition RESOURCE_ADMISSION_DEFAULTS :: adm_config where
  "RESOURCE_ADMISSION_DEFAULTS =
     \<lparr> admissionMode = Watermark, startupObservationMs = 1000, minReservationMB = 64, admissionLimitMB = 1536,
       hardLimitMB = 2048, systemHeadroomMB = 512, commitHeadroomMB = 4096, commitCriticalFloorMB = 1536,
       yellowPhysicalMemoryMB = 1536, yellowMaxReservationMB = 192, smallRequestPhysicalWeight = 1 / 4,
       pressureSampleMaxAgeMs = 2000, requireFreshPressureSample = False, maxAgedReservationMB = 256,
       maxQueueSize = 256, admissionBudgetMinMs = 8000, admissionBudgetMaxMs = 10000, agingThresholdMs = 1000,
       retrySlotMs = 500, maxRetryExponent = 4, progressIntervalMs = 2000 \<rparr>"

text \<open>The decision of an inspection, which errors carry along.\<close>

datatype blocker =
  ResourceRecoveryPending | MissingPressureSample | StalePressureSample | WindowsLowMemory | EmergencyPressure
| HeavyRequestYellow | ObservedHardLimit | ReservationCapacity | PhysicalHeadroom | CommitHeadroom

record adm_decision =
  dc_admissionMode :: adm_mode
  dc_startupReservedMB :: rat
  dc_reservedMB :: rat
  dc_protectedReservationMB :: rat
  dc_physicalReservationWeight :: rat
  dc_projectedPhysicalAvailableMB :: "rat option"
  dc_projectedCommitAvailableMB :: "rat option"
  dc_pressureSampleAgeMs :: "rat option"
  blockedBy :: "blocker list"

datatype adm_code =
  Admission_timeout | Admission_aborted | Admission_queue_full
| Reservation_exceeds_admission_limit | Reservation_exceeds_hard_limit

text \<open>
  \<open>RangeError\<close> with the name of the value it complains about, and \<open>ResourceAdmissionError\<close> with its
  wait, its retry hint and its decision.
\<close>

datatype adm_error =
  RangeError string
| AdmissionError adm_code rat jnum "adm_decision option"

definition positive_number :: "jnum option \<Rightarrow> rat \<Rightarrow> string \<Rightarrow> adm_error + rat" where
  "positive_number v fallback name =
     (case v of None \<Rightarrow> if fallback \<le> 0 then Inl (RangeError name) else Inr fallback
      | Some x \<Rightarrow> (case finite_of x of None \<Rightarrow> Inl (RangeError name)
                   | Some q \<Rightarrow> if q \<le> 0 then Inl (RangeError name) else Inr q))"

definition non_negative_number :: "jnum option \<Rightarrow> rat \<Rightarrow> string \<Rightarrow> adm_error + rat" where
  "non_negative_number v fallback name =
     (case v of None \<Rightarrow> if fallback < 0 then Inl (RangeError name) else Inr fallback
      | Some x \<Rightarrow> (case finite_of x of None \<Rightarrow> Inl (RangeError name)
                   | Some q \<Rightarrow> if q < 0 then Inl (RangeError name) else Inr q))"

definition integer_at_least :: "int \<Rightarrow> jnum option \<Rightarrow> int \<Rightarrow> string \<Rightarrow> adm_error + int" where
  "integer_at_least least v fallback name =
     (case v of None \<Rightarrow> if fallback < least then Inl (RangeError name) else Inr fallback
      | Some x \<Rightarrow> (case finite_of x of None \<Rightarrow> Inl (RangeError name)
                   | Some q \<Rightarrow> if \<not> is_integral q \<or> \<lfloor>q\<rfloor> < least then Inl (RangeError name) else Inr \<lfloor>q\<rfloor>))"

definition positive_integer :: "jnum option \<Rightarrow> int \<Rightarrow> string \<Rightarrow> adm_error + int" where
  "positive_integer = integer_at_least 1"

definition non_negative_integer :: "jnum option \<Rightarrow> int \<Rightarrow> string \<Rightarrow> adm_error + int" where
  "non_negative_integer = integer_at_least 0"

definition parse_mode :: "string option \<Rightarrow> adm_error + adm_mode" where
  "parse_mode m =
     (case m of None \<Rightarrow> Inr (admissionMode RESOURCE_ADMISSION_DEFAULTS)
      | Some t \<Rightarrow> if t = ''watermark'' then Inr Watermark else if t = ''fixed'' then Inr FixedMode
                  else Inl (RangeError ''admissionMode''))"

text \<open>The constructor: every option validated in the order of the code, then the four relations.\<close>

definition make_config :: "adm_options \<Rightarrow> adm_error + adm_config" where
  "make_config opts =
     (let d = RESOURCE_ADMISSION_DEFAULTS in
     and_then (parse_mode (opt_admissionMode opts)) (\<lambda>mode.
     and_then (non_negative_number (opt_startupObservationMs opts) (startupObservationMs d) ''startupObservationMs'') (\<lambda>observation.
     and_then (positive_number (opt_minReservationMB opts) (minReservationMB d) ''minReservationMB'') (\<lambda>minimum.
     and_then (positive_number (opt_admissionLimitMB opts) (admissionLimitMB d) ''admissionLimitMB'') (\<lambda>limit.
     and_then (positive_number (opt_hardLimitMB opts) (hardLimitMB d) ''hardLimitMB'') (\<lambda>hard.
     and_then (non_negative_number (opt_systemHeadroomMB opts) (systemHeadroomMB d) ''systemHeadroomMB'') (\<lambda>headroom.
     and_then (non_negative_number (opt_commitHeadroomMB opts) (commitHeadroomMB d) ''commitHeadroomMB'') (\<lambda>commit.
     and_then (non_negative_number (opt_commitCriticalFloorMB opts) (commitCriticalFloorMB d) ''commitCriticalFloorMB'') (\<lambda>critical.
     and_then (non_negative_number (opt_yellowPhysicalMemoryMB opts) (yellowPhysicalMemoryMB d) ''yellowPhysicalMemoryMB'') (\<lambda>yellow.
     and_then (positive_number (opt_yellowMaxReservationMB opts) (yellowMaxReservationMB d) ''yellowMaxReservationMB'') (\<lambda>yellowMax.
     and_then (positive_number (opt_smallRequestPhysicalWeight opts) (smallRequestPhysicalWeight d) ''smallRequestPhysicalWeight'') (\<lambda>weight.
     and_then (ensure (RangeError ''smallRequestPhysicalWeight'') (weight \<le> 1)) (\<lambda>_.
     and_then (positive_number (opt_pressureSampleMaxAgeMs opts) (pressureSampleMaxAgeMs d) ''pressureSampleMaxAgeMs'') (\<lambda>age.
     and_then (non_negative_number (opt_maxAgedReservationMB opts) (maxAgedReservationMB d) ''maxAgedReservationMB'') (\<lambda>aged.
     and_then (positive_integer (opt_maxQueueSize opts) (maxQueueSize d) ''maxQueueSize'') (\<lambda>qsize.
     and_then (non_negative_number (opt_admissionBudgetMinMs opts) (admissionBudgetMinMs d) ''admissionBudgetMinMs'') (\<lambda>bmin.
     and_then (non_negative_number (opt_admissionBudgetMaxMs opts) (admissionBudgetMaxMs d) ''admissionBudgetMaxMs'') (\<lambda>bmax.
     and_then (non_negative_number (opt_agingThresholdMs opts) (agingThresholdMs d) ''agingThresholdMs'') (\<lambda>aging.
     and_then (non_negative_number (opt_retrySlotMs opts) (retrySlotMs d) ''retrySlotMs'') (\<lambda>slot.
     and_then (non_negative_integer (opt_maxRetryExponent opts) (maxRetryExponent d) ''maxRetryExponent'') (\<lambda>expo.
     and_then (positive_number (opt_progressIntervalMs opts) (progressIntervalMs d) ''progressIntervalMs'') (\<lambda>progress.
     and_then (ensure (RangeError ''minReservationMB'') (\<not> (mode = FixedMode \<and> limit < minimum))) (\<lambda>_.
     and_then (ensure (RangeError ''admissionLimitMB'') (\<not> (mode = FixedMode \<and> hard < limit))) (\<lambda>_.
     and_then (ensure (RangeError ''commitCriticalFloorMB'') (\<not> commit < critical)) (\<lambda>_.
     and_then (ensure (RangeError ''admissionBudgetMinMs'') (\<not> bmax < bmin)) (\<lambda>_.
       Inr \<lparr> admissionMode = mode, startupObservationMs = observation, minReservationMB = minimum, admissionLimitMB = limit,
             hardLimitMB = hard, systemHeadroomMB = headroom, commitHeadroomMB = commit, commitCriticalFloorMB = critical,
             yellowPhysicalMemoryMB = yellow, yellowMaxReservationMB = yellowMax, smallRequestPhysicalWeight = weight,
             pressureSampleMaxAgeMs = age,
             requireFreshPressureSample = (opt_requireFreshPressureSample opts = Some True), maxAgedReservationMB = aged,
             maxQueueSize = qsize, admissionBudgetMinMs = bmin, admissionBudgetMaxMs = bmax, agingThresholdMs = aging,
             retrySlotMs = slot, maxRetryExponent = expo, progressIntervalMs = progress \<rparr>))))))))))))))))))))))))))"

section \<open>Environment and state\<close>

record adm_env =
  clock :: rat
  random_value :: jnum
  signal_set :: "nat \<Rightarrow> bool"

record pending =
  pd_id :: nat
  pd_ownerId :: string
  pd_reservedMB :: rat
  enqueuedAt :: rat
  pd_retryAttempt :: "jnum option"
  pd_signal :: "nat option"
  timerMs :: rat
  wantsProgress :: bool
  settled :: bool

record startup =
  sr_reservedMB :: rat
  startedAt :: "rat option"
  sampleGeneration :: nat
  observedMB :: rat
  coveredObservedMB :: rat
  observedGeneration :: nat

record lease =
  ls_reservedMB :: rat
  ls_control :: bool
  acquiredAt :: rat
  released :: bool

record wait_counters =
  queuedTotal :: nat
  admittedTotal :: nat
  admittedAfterWait :: nat
  cancelledTotal :: nat
  timedOutTotal :: nat
  queueFullTotal :: nat
  completedTotal :: nat
  totalMs :: rat
  maxMs :: rat

datatype adm_outcome = Granted nat | Refused adm_error

record adm_ctl =
  adm_queue :: "pending list"
  waitCounters :: wait_counters
  activeReservedMB :: rat
  startupReservations :: "(nat \<times> startup) list"
  systemSampleGeneration :: nat
  systemSampleAt :: "rat option"
  activeLeases :: int
  observedMemoryMB :: rat
  observedReservationCreditMB :: rat
  systemAvailableMemoryMB :: "rat option"
  commitAvailableMemoryMB :: "rat option"
  highMemorySignaled :: "bool option"
  lowMemorySignaled :: "bool option"
  pressureSampleAt :: "rat option"
  recoveryPending :: bool
  peakActiveReservedMB :: rat
  peakQueued :: nat
  peakObservedMemoryMB :: rat
  nextRequestId :: nat
  lastGrantedOwnerId :: "string option"
  draining :: bool
  adm_leases :: "lease list"
  adm_outcomes :: "(nat \<times> adm_outcome) list"

definition initial_ctl :: adm_ctl where
  "initial_ctl =
     \<lparr> adm_queue = [], waitCounters = \<lparr> queuedTotal = 0, admittedTotal = 0, admittedAfterWait = 0, cancelledTotal = 0,
         timedOutTotal = 0, queueFullTotal = 0, completedTotal = 0, totalMs = 0, maxMs = 0 \<rparr>,
       activeReservedMB = 0, startupReservations = [], systemSampleGeneration = 0, systemSampleAt = None,
       activeLeases = 0, observedMemoryMB = 0, observedReservationCreditMB = 0, systemAvailableMemoryMB = None,
       commitAvailableMemoryMB = None, highMemorySignaled = None, lowMemorySignaled = None, pressureSampleAt = None,
       recoveryPending = False, peakActiveReservedMB = 0, peakQueued = 0, peakObservedMemoryMB = 0, nextRequestId = 1,
       lastGrantedOwnerId = None, draining = False, adm_leases = [], adm_outcomes = [] \<rparr>"

section \<open>Inspecting a reservation\<close>

definition below :: "rat option \<Rightarrow> rat \<Rightarrow> bool" where
  "below available bound = (case available of None \<Rightarrow> False | Some q \<Rightarrow> q < bound)"

definition at_least :: "rat option \<Rightarrow> rat \<Rightarrow> bool" where
  "at_least available bound = (case available of None \<Rightarrow> False | Some q \<Rightarrow> bound \<le> q)"

datatype pressure_level = Green | Yellow | Red

definition get_pressure_level :: "adm_config \<Rightarrow> adm_env \<Rightarrow> adm_ctl \<Rightarrow> pressure_level" where
  "get_pressure_level c e s =
     (if lowMemorySignaled s = Some True \<or> below (systemAvailableMemoryMB s) (systemHeadroomMB c)
         \<or> below (commitAvailableMemoryMB s) (commitCriticalFloorMB c) then Red
      else if highMemorySignaled s = Some False \<or> recoveryPending s
         \<or> (requireFreshPressureSample c \<and> (case pressureSampleAt s of None \<Rightarrow> True
              | Some t \<Rightarrow> pressureSampleMaxAgeMs c < clock e - t))
         \<or> below (systemAvailableMemoryMB s) (yellowPhysicalMemoryMB c)
         \<or> below (commitAvailableMemoryMB s) (commitHeadroomMB c) then Yellow
      else Green)"

definition startup_share :: "adm_config \<Rightarrow> adm_ctl \<Rightarrow> startup \<Rightarrow> rat" where
  "startup_share c s v =
     (let sampled = (case (startedAt v, systemSampleAt s) of
            (Some st, Some sa) \<Rightarrow> sampleGeneration v < systemSampleGeneration s \<and> startupObservationMs c \<le> sa - st
          | _ \<Rightarrow> False)
      in if \<not> sampled then sr_reservedMB v
         else if observedGeneration v = systemSampleGeneration s then max 0 (observedMB v - coveredObservedMB v)
         else 0)"

definition get_startup_reserved :: "adm_config \<Rightarrow> adm_ctl \<Rightarrow> rat" where
  "get_startup_reserved c s = foldl (\<lambda>total entry. total + startup_share c s (snd entry)) 0 (startupReservations s)"

definition pressure_sample_age :: "adm_env \<Rightarrow> adm_ctl \<Rightarrow> rat option" where
  "pressure_sample_age e s = map_option (\<lambda>t. max 0 (clock e - t)) (pressureSampleAt s)"

definition reserved_not_observed :: "adm_config \<Rightarrow> adm_ctl \<Rightarrow> rat" where
  "reserved_not_observed c s =
     (if admissionMode c = Watermark then get_startup_reserved c s
      else max 0 (activeReservedMB s - observedReservationCreditMB s))"

definition projected_commit :: "adm_config \<Rightarrow> adm_ctl \<Rightarrow> rat \<Rightarrow> rat \<Rightarrow> rat option" where
  "projected_commit c s reserved protected =
     map_option (\<lambda>a. a - reserved_not_observed c s - reserved - protected) (commitAvailableMemoryMB s)"

definition physical_weight :: "adm_config \<Rightarrow> adm_env \<Rightarrow> adm_ctl \<Rightarrow> rat \<Rightarrow> rat \<Rightarrow> rat" where
  "physical_weight c e s reserved protected =
     (let canUseCommitSlack = reserved \<le> yellowMaxReservationMB c \<and> lowMemorySignaled s = Some False
            \<and> (case pressure_sample_age e s of None \<Rightarrow> False | Some a \<Rightarrow> a \<le> pressureSampleMaxAgeMs c)
            \<and> at_least (projected_commit c s reserved protected) (commitHeadroomMB c)
      in if admissionMode c = FixedMode \<and> canUseCommitSlack then smallRequestPhysicalWeight c else 1)"

definition projected_physical :: "adm_config \<Rightarrow> adm_env \<Rightarrow> adm_ctl \<Rightarrow> rat \<Rightarrow> rat \<Rightarrow> rat option" where
  "projected_physical c e s reserved protected =
     map_option (\<lambda>a. a - reserved_not_observed c s * physical_weight c e s reserved protected - reserved - protected)
       (systemAvailableMemoryMB s)"

definition blockers :: "adm_config \<Rightarrow> adm_env \<Rightarrow> adm_ctl \<Rightarrow> rat \<Rightarrow> rat \<Rightarrow> blocker list" where
  "blockers c e s reserved protected =
     (let small = reserved \<le> yellowMaxReservationMB c;
          age = pressure_sample_age e s;
          level = get_pressure_level c e s;
          fixed = (admissionMode c = FixedMode);
          push = (\<lambda>b x. if b then [x] else [])
      in push (recoveryPending s) ResourceRecoveryPending
       @ push (requireFreshPressureSample c \<and> age = None) MissingPressureSample
       @ push (requireFreshPressureSample c \<and> (case age of None \<Rightarrow> False | Some a \<Rightarrow> pressureSampleMaxAgeMs c < a)) StalePressureSample
       @ push (lowMemorySignaled s = Some True) WindowsLowMemory
       @ push (level = Red) EmergencyPressure
       @ push (level = Yellow \<and> \<not> small) HeavyRequestYellow
       @ push (fixed \<and> hardLimitMB c \<le> observedMemoryMB s) ObservedHardLimit
       @ push (fixed \<and> admissionLimitMB c < activeReservedMB s + reserved + protected) ReservationCapacity
       @ push (below (projected_physical c e s reserved protected) (if small then systemHeadroomMB c else yellowPhysicalMemoryMB c)) PhysicalHeadroom
       @ push (below (projected_commit c s reserved protected) (if small then commitCriticalFloorMB c else commitHeadroomMB c)) CommitHeadroom)"

definition inspect_admission :: "adm_config \<Rightarrow> adm_env \<Rightarrow> adm_ctl \<Rightarrow> rat \<Rightarrow> rat \<Rightarrow> adm_decision" where
  "inspect_admission c e s reserved protected =
     \<lparr> dc_admissionMode = admissionMode c, dc_startupReservedMB = get_startup_reserved c s, dc_reservedMB = reserved,
       dc_protectedReservationMB = protected,
       dc_physicalReservationWeight = physical_weight c e s reserved protected,
       dc_projectedPhysicalAvailableMB = projected_physical c e s reserved protected,
       dc_projectedCommitAvailableMB = projected_commit c s reserved protected,
       dc_pressureSampleAgeMs = pressure_sample_age e s,
       blockedBy = blockers c e s reserved protected \<rparr>"

definition can_grant :: "adm_config \<Rightarrow> adm_env \<Rightarrow> adm_ctl \<Rightarrow> rat \<Rightarrow> rat \<Rightarrow> bool" where
  "can_grant c e s reserved protected \<longleftrightarrow> blockedBy (inspect_admission c e s reserved protected) = []"

section \<open>Leases\<close>

definition create_lease :: "adm_env \<Rightarrow> adm_ctl \<Rightarrow> rat \<Rightarrow> bool \<Rightarrow> adm_ctl" where
  "create_lease e s reserved control =
     (let key = length (adm_leases s);
          entry = \<lparr> sr_reservedMB = reserved, startedAt = None, sampleGeneration = systemSampleGeneration s,
                    observedMB = 0, coveredObservedMB = 0, observedGeneration = systemSampleGeneration s \<rparr>;
          s1 = (if control then s
                else s\<lparr> startupReservations := map_put key entry (startupReservations s),
                        activeReservedMB := activeReservedMB s + reserved,
                        activeLeases := activeLeases s + 1,
                        peakActiveReservedMB := max (peakActiveReservedMB s) (activeReservedMB s + reserved) \<rparr>)
      in s1\<lparr> adm_leases := adm_leases s @ [\<lparr> ls_reservedMB = reserved, ls_control = control,
               acquiredAt = clock e, released = False \<rparr>] \<rparr>)"

definition grant_immediate :: "adm_env \<Rightarrow> adm_ctl \<Rightarrow> rat \<Rightarrow> adm_ctl" where
  "grant_immediate e s reserved =
     create_lease e (s\<lparr> waitCounters := (waitCounters s)\<lparr> admittedTotal := admittedTotal (waitCounters s) + 1 \<rparr> \<rparr>) reserved False"

text \<open>\<open>markStarted\<close> and \<open>observeMemoryMB\<close> of the lease with key \<open>k\<close>.\<close>

definition mark_started :: "adm_env \<Rightarrow> adm_ctl \<Rightarrow> nat \<Rightarrow> adm_ctl" where
  "mark_started e s k =
     (let l = adm_leases s ! k in
      if length (adm_leases s) \<le> k \<or> released l \<or> ls_control l then s
      else case map_of (startupReservations s) k of
             None \<Rightarrow> s
           | Some v \<Rightarrow>
               if startedAt v \<noteq> None then s
               else s\<lparr> startupReservations := map_put k
                        (v\<lparr> startedAt := Some (clock e), sampleGeneration := systemSampleGeneration s \<rparr>) (startupReservations s) \<rparr>)"

definition observe_lease :: "adm_env \<Rightarrow> adm_ctl \<Rightarrow> nat \<Rightarrow> jnum \<Rightarrow> adm_ctl" where
  "observe_lease e s k memory =
     (let l = adm_leases s ! k in
      case finite_of memory of
        None \<Rightarrow> s
      | Some m \<Rightarrow>
          if length (adm_leases s) \<le> k \<or> released l \<or> ls_control l \<or> m \<le> 0 then s
          else case map_of (startupReservations s) k of
                 None \<Rightarrow> s
               | Some v \<Rightarrow>
                   let v1 = (if observedGeneration v \<noteq> systemSampleGeneration s
                             then v\<lparr> coveredObservedMB := observedMB v \<rparr> else v);
                       v2 = v1\<lparr> observedMB := m, observedGeneration := systemSampleGeneration s,
                                sr_reservedMB := max (sr_reservedMB v) m \<rparr>;
                       v3 = (if startedAt v = None
                             then v2\<lparr> startedAt := Some (clock e), sampleGeneration := systemSampleGeneration s \<rparr> else v2)
                   in s\<lparr> startupReservations := map_put k v3 (startupReservations s) \<rparr>)"

section \<open>Randomised hints\<close>

definition safe_random :: "adm_env \<Rightarrow> rat" where
  "safe_random e =
     (case finite_of (random_value e) of None \<Rightarrow> 0 | Some v \<Rightarrow> min (999999999999 / 1000000000000) (max 0 v))"

definition random_integer :: "adm_env \<Rightarrow> rat \<Rightarrow> rat \<Rightarrow> rat" where
  "random_integer e minimum maximum =
     (if minimum = maximum then minimum
      else of_int \<lfloor>minimum + safe_random e * (maximum - minimum + 1)\<rfloor>)"

text \<open>\<open>Math.min(max, Math.max(0, Math.floor(x)))\<close>; a NaN goes through to the exponent.\<close>

fun retry_exponent :: "int \<Rightarrow> jnum option \<Rightarrow> int option" where
  "retry_exponent m None = Some m"
| "retry_exponent m (Some (Fin q)) = Some (min m (max 0 \<lfloor>q\<rfloor>))"
| "retry_exponent m (Some NegZero) = Some (min m 0)"
| "retry_exponent m (Some PosInf) = Some m"
| "retry_exponent m (Some NegInf) = Some (min m 0)"
| "retry_exponent m (Some NaN) = None"

definition compute_retry_after :: "adm_config \<Rightarrow> adm_env \<Rightarrow> jnum option \<Rightarrow> jnum" where
  "compute_retry_after c e attempt =
     (case retry_exponent (maxRetryExponent c) attempt of
        None \<Rightarrow> NaN
      | Some x \<Rightarrow> Fin (of_int \<lfloor>safe_random e * 2 ^ nat x\<rfloor> * retrySlotMs c))"

section \<open>The waiting queue\<close>

definition live_queue :: "adm_ctl \<Rightarrow> pending list" where
  "live_queue s = filter (\<lambda>p. \<not> settled p) (adm_queue s)"

definition compute_aged_reservation :: "adm_config \<Rightarrow> adm_ctl \<Rightarrow> pending \<Rightarrow> rat \<Rightarrow> rat" where
  "compute_aged_reservation c s oldest waited =
     (if waited < agingThresholdMs c \<or> agingThresholdMs c \<le> 0 then 0
      else if admissionMode c = Watermark then 0
      else if activeReservedMB s + pd_reservedMB oldest \<le> admissionLimitMB c then 0
      else let agingSteps = max 1 \<lfloor>waited / agingThresholdMs c\<rfloor>
           in min (pd_reservedMB oldest)
                (min (maxAgedReservationMB c) (of_int (max 0 (agingSteps - 2)) * minReservationMB c)))"

definition waited_ms :: "adm_env \<Rightarrow> pending \<Rightarrow> rat" where
  "waited_ms e p = max 0 (clock e - enqueuedAt p)"

definition queue_of :: "(string \<times> pending list) list \<Rightarrow> string \<Rightarrow> pending list" where
  "queue_of m owner = (case map_of m owner of None \<Rightarrow> [] | Some q \<Rightarrow> q)"

definition owner_queues :: "pending list \<Rightarrow> (string \<times> pending list) list" where
  "owner_queues live = foldl (\<lambda>m p. map_put (pd_ownerId p) (queue_of m (pd_ownerId p) @ [p]) m) [] live"

fun index_of :: "'a \<Rightarrow> 'a list \<Rightarrow> int" where
  "index_of x [] = -1"
| "index_of x (y # ys) = (if x = y then 0 else (let i = index_of x ys in if i < 0 then -1 else i + 1))"

definition start_index :: "string option \<Rightarrow> string list \<Rightarrow> nat" where
  "start_index lastOwner owners =
     (let i = (case lastOwner of None \<Rightarrow> -1 | Some x \<Rightarrow> index_of x owners)
      in if 0 \<le> i then nat (i + 1) mod length owners else 0)"

text \<open>The order in which the two nested loops visit the waiting requests.\<close>

definition visit_order :: "adm_ctl \<Rightarrow> pending list \<Rightarrow> pending list" where
  "visit_order s live =
     (let queues = owner_queues live; owners = map fst queues; start = start_index (lastGrantedOwnerId s) owners
      in concat (map (\<lambda>offset. queue_of queues (owners ! ((start + offset) mod length owners))) [0..<length owners]))"

definition select_next_pending :: "adm_config \<Rightarrow> adm_env \<Rightarrow> adm_ctl \<Rightarrow> pending option" where
  "select_next_pending c e s =
     (case live_queue s of
        [] \<Rightarrow> None
      | oldest # rest \<Rightarrow>
          let waited = waited_ms e oldest
          in if agingThresholdMs c \<le> waited \<and> can_grant c e s (pd_reservedMB oldest) 0 then Some oldest
             else let protected = compute_aged_reservation c s oldest waited
                  in find (\<lambda>p. can_grant c e s (pd_reservedMB p) (if pd_id p = pd_id oldest then 0 else protected))
                       (visit_order s (oldest # rest)))"

definition inspect_pending :: "adm_config \<Rightarrow> adm_env \<Rightarrow> adm_ctl \<Rightarrow> pending \<Rightarrow> adm_decision" where
  "inspect_pending c e s p =
     (let protected = (case find (\<lambda>r. \<not> settled r) (adm_queue s) of
            None \<Rightarrow> 0
          | Some oldest \<Rightarrow> if pd_id oldest \<noteq> pd_id p then compute_aged_reservation c s oldest (waited_ms e oldest) else 0)
      in inspect_admission c e s (pd_reservedMB p) protected)"

fun remove_first :: "nat \<Rightarrow> pending list \<Rightarrow> pending list" where
  "remove_first i [] = []"
| "remove_first i (p # ps) = (if pd_id p = i then ps else p # remove_first i ps)"

text \<open>
  \<open>finishPending\<close> also sets \<open>settled\<close> on the request, which is no longer in the queue then, and
  clears its timers and its abort listener.
\<close>

definition finish_pending :: "adm_ctl \<Rightarrow> pending \<Rightarrow> adm_ctl" where
  "finish_pending s p = s\<lparr> adm_queue := remove_first (pd_id p) (adm_queue s) \<rparr>"

definition record_completed_wait :: "adm_ctl \<Rightarrow> rat \<Rightarrow> adm_ctl" where
  "record_completed_wait s waited =
     s\<lparr> waitCounters := (waitCounters s)\<lparr> completedTotal := completedTotal (waitCounters s) + 1,
          totalMs := totalMs (waitCounters s) + waited, maxMs := max (maxMs (waitCounters s)) waited \<rparr> \<rparr>"

definition settle :: "adm_ctl \<Rightarrow> nat \<Rightarrow> adm_outcome \<Rightarrow> adm_ctl" where
  "settle s i out = s\<lparr> adm_outcomes := adm_outcomes s @ [(i, out)] \<rparr>"

definition grant_pending :: "adm_env \<Rightarrow> adm_ctl \<Rightarrow> pending \<Rightarrow> adm_ctl" where
  "grant_pending e s p =
     (let s1 = finish_pending s p;
          s2 = s1\<lparr> waitCounters := (waitCounters s1)\<lparr> admittedTotal := admittedTotal (waitCounters s1) + 1,
                     admittedAfterWait := admittedAfterWait (waitCounters s1) + 1 \<rparr> \<rparr>;
          s3 = (record_completed_wait s2 (waited_ms e p))\<lparr> lastGrantedOwnerId := Some (pd_ownerId p) \<rparr>;
          s4 = create_lease e s3 (pd_reservedMB p) False
      in settle s4 (pd_id p) (Granted (length (adm_leases s3))))"

definition make_abort_error :: "rat \<Rightarrow> adm_error" where
  "make_abort_error waited = AdmissionError Admission_aborted waited (Fin 0) None"

text \<open>\<open>rejectPending\<close> up to its call of \<open>drainQueue\<close>; the code is aborted or timed out.\<close>

definition refuse_pending :: "adm_config \<Rightarrow> adm_env \<Rightarrow> adm_ctl \<Rightarrow> pending \<Rightarrow> adm_code \<Rightarrow> adm_ctl" where
  "refuse_pending c e s p code =
     (let decision = inspect_pending c e s p;
          waited = waited_ms e p;
          s1 = record_completed_wait (finish_pending s p) waited;
          w = waitCounters s1
      in if code = Admission_aborted
         then settle (s1\<lparr> waitCounters := w\<lparr> cancelledTotal := cancelledTotal w + 1 \<rparr> \<rparr>) (pd_id p)
                (Refused (make_abort_error waited))
         else settle (s1\<lparr> waitCounters := w\<lparr> timedOutTotal := timedOutTotal w + 1 \<rparr> \<rparr>) (pd_id p)
                (Refused (AdmissionError Admission_timeout waited (compute_retry_after c e (pd_retryAttempt p)) (Some decision))))"

definition signal_aborted :: "adm_env \<Rightarrow> nat option \<Rightarrow> bool" where
  "signal_aborted e sig = (case sig of None \<Rightarrow> False | Some i \<Rightarrow> signal_set e i)"

lemma queue_of_owner_queues: "queue_of (owner_queues live) k = filter (\<lambda>p. pd_ownerId p = k) live"
proof -
  have "queue_of (foldl (\<lambda>m p. map_put (pd_ownerId p) (queue_of m (pd_ownerId p) @ [p]) m) m live) k
      = queue_of m k @ filter (\<lambda>p. pd_ownerId p = k) live" for m
    by (induction live arbitrary: m) (auto simp: queue_of_def)
  then show ?thesis by (simp add: owner_queues_def queue_of_def)
qed

lemma set_owners: "set (map fst (owner_queues live)) = pd_ownerId ` set live"
proof -
  have "set (map fst (foldl (\<lambda>m p. map_put (pd_ownerId p) (queue_of m (pd_ownerId p) @ [p]) m) m live))
      = set (map fst m) \<union> pd_ownerId ` set live" for m
    by (induction live arbitrary: m) (auto simp: keys_map_put simp del: set_map)
  then show ?thesis by (simp add: owner_queues_def)
qed

lemma set_visit_order_subset: "set (visit_order s live) \<subseteq> set live"
  by (auto simp: visit_order_def Let_def queue_of_owner_queues)

lemma find_SomeE:
  assumes "find P xs = Some x"
  obtains "x \<in> set xs" "P x"
  using assms by (auto simp: find_Some_iff)

lemma set_live_queue: "set (live_queue s) \<subseteq> set (adm_queue s)"
  by (auto simp: live_queue_def)

lemma select_next_pending_mem: "select_next_pending c e s = Some p \<Longrightarrow> p \<in> set (adm_queue s)"
  using set_visit_order_subset [of s "live_queue s"] set_live_queue [of s]
  by (auto simp: select_next_pending_def Let_def split: list.splits if_splits elim!: find_SomeE)

lemma length_remove_first: "p \<in> set ps \<Longrightarrow> length (remove_first (pd_id p) ps) < length ps"
  by (induction ps) auto

lemma refuse_pending_queue [simp]:
  "adm_queue (refuse_pending c e s p code) = remove_first (pd_id p) (adm_queue s)"
  by (simp add: refuse_pending_def finish_pending_def record_completed_wait_def settle_def Let_def)

lemma grant_pending_queue [simp]: "adm_queue (grant_pending e s p) = remove_first (pd_id p) (adm_queue s)"
  by (simp add: grant_pending_def finish_pending_def record_completed_wait_def settle_def create_lease_def Let_def)

text \<open>
  The loop of \<open>drainQueue\<close>. Inside it the flag \<open>draining\<close> is set, so the call of \<open>drainQueue\<close> at the
  end of \<open>rejectPending\<close> returns at once and rejecting is \<open>refuse_pending\<close>.
\<close>

function drain_loop :: "adm_config \<Rightarrow> adm_env \<Rightarrow> adm_ctl \<Rightarrow> adm_ctl" where
  "drain_loop c e s =
     (if adm_queue s = [] then s
      else case select_next_pending c e s of
             None \<Rightarrow> s
           | Some p \<Rightarrow> if signal_aborted e (pd_signal p) then drain_loop c e (refuse_pending c e s p Admission_aborted)
                       else drain_loop c e (grant_pending e s p))"
  by auto
termination
  by (relation "measure (\<lambda>(c, e, s). length (adm_queue s))")
    (auto dest: select_next_pending_mem intro: length_remove_first)

declare drain_loop.simps [simp del]

definition drain_queue :: "adm_config \<Rightarrow> adm_env \<Rightarrow> adm_ctl \<Rightarrow> adm_ctl" where
  "drain_queue c e s = (if draining s then s else (drain_loop c e (s\<lparr> draining := True \<rparr>))\<lparr> draining := False \<rparr>)"

text \<open>\<open>rejectPending\<close> of a request that its timer or listener still refers to, by its number.\<close>

definition reject_pending :: "adm_config \<Rightarrow> adm_env \<Rightarrow> adm_ctl \<Rightarrow> nat \<Rightarrow> adm_code \<Rightarrow> adm_ctl" where
  "reject_pending c e s i code =
     (case find (\<lambda>p. pd_id p = i) (adm_queue s) of
        None \<Rightarrow> s
      | Some p \<Rightarrow> if settled p then s else drain_queue c e (refuse_pending c e s p code))"

section \<open>The public operations\<close>

record adm_request =
  rq_ownerId :: "string option"
  rq_reservationMB :: "jnum option"
  rq_admissionBudgetMs :: "jnum option"
  rq_retryAttempt :: "jnum option"
  rq_signal :: "nat option"
  rq_control :: bool
  rq_progress :: bool

definition normalize_owner_id :: "string option \<Rightarrow> string" where
  "normalize_owner_id v =
     (case v of None \<Rightarrow> ''anonymous'' | Some t \<Rightarrow> if trim t = [] then ''anonymous'' else trim t)"

definition normalize_reservation :: "adm_config \<Rightarrow> jnum option \<Rightarrow> adm_error + rat" where
  "normalize_reservation c v =
     and_then (case v of None \<Rightarrow> Inr (minReservationMB c)
               | Some x \<Rightarrow> positive_number (Some x) (minReservationMB c) ''reservationMB'') (\<lambda>requested.
       let up = of_int \<lceil>requested\<rceil>;
           reserved = (if admissionMode c = FixedMode then max (minReservationMB c) up else up)
       in if admissionMode c = FixedMode \<and> hardLimitMB c < reserved
          then Inl (AdmissionError Reservation_exceeds_hard_limit 0 (Fin 0) None)
          else if admissionMode c = FixedMode \<and> admissionLimitMB c < reserved
          then Inl (AdmissionError Reservation_exceeds_admission_limit 0 (Fin 0) None)
          else Inr reserved)"

text \<open>An exception thrown by the call, a promise rejected or resolved at once, or a queued request.\<close>

datatype acquire_result = Threw adm_error | Rejected adm_error | Leased nat | Waiting nat

definition admission_budget :: "adm_config \<Rightarrow> adm_env \<Rightarrow> jnum option \<Rightarrow> adm_error + rat" where
  "admission_budget c e v =
     (case v of None \<Rightarrow> Inr (random_integer e (admissionBudgetMinMs c) (admissionBudgetMaxMs c))
      | Some x \<Rightarrow> and_then (non_negative_number (Some x) 0 ''admissionBudgetMs'') (\<lambda>b. Inr (min b (admissionBudgetMaxMs c))))"

definition enqueue_request :: "adm_config \<Rightarrow> adm_env \<Rightarrow> adm_ctl \<Rightarrow> adm_request \<Rightarrow> rat \<Rightarrow> rat \<Rightarrow> adm_ctl" where
  "enqueue_request c e s rq reserved budget =
     (let p = \<lparr> pd_id = nextRequestId s, pd_ownerId = normalize_owner_id (rq_ownerId rq), pd_reservedMB = reserved,
                enqueuedAt = clock e, pd_retryAttempt = rq_retryAttempt rq, pd_signal = rq_signal rq, timerMs = budget,
                wantsProgress = rq_progress rq, settled = False \<rparr>;
          q = adm_queue s @ [p]; w = waitCounters s
      in s\<lparr> nextRequestId := nextRequestId s + 1, adm_queue := q,
            waitCounters := w\<lparr> queuedTotal := queuedTotal w + 1 \<rparr>, peakQueued := max (peakQueued s) (length q) \<rparr>)"

definition acquire :: "adm_config \<Rightarrow> adm_env \<Rightarrow> adm_ctl \<Rightarrow> adm_request \<Rightarrow> adm_ctl \<times> acquire_result" where
  "acquire c e s rq =
     (if signal_aborted e (rq_signal rq) then (s, Rejected (make_abort_error 0))
      else if rq_control rq then (create_lease e s 0 True, Leased (length (adm_leases s)))
      else case normalize_reservation c (rq_reservationMB rq) of
        Inl err \<Rightarrow> (s, Threw err)
      | Inr reserved \<Rightarrow>
          if adm_queue s = [] \<and> can_grant c e s reserved 0 then (grant_immediate e s reserved, Leased (length (adm_leases s)))
          else if maxQueueSize c \<le> int (length (adm_queue s)) then
            (s\<lparr> waitCounters := (waitCounters s)\<lparr> queueFullTotal := queueFullTotal (waitCounters s) + 1 \<rparr> \<rparr>,
             Rejected (AdmissionError Admission_queue_full 0 (compute_retry_after c e (rq_retryAttempt rq))
               (Some (inspect_admission c e s reserved 0))))
          else case admission_budget c e (rq_admissionBudgetMs rq) of
            Inl err \<Rightarrow> (s, Threw err)
          | Inr budget \<Rightarrow>
              let s1 = enqueue_request c e s rq reserved budget
              in if signal_aborted e (rq_signal rq)
                 then (reject_pending c e s1 (nextRequestId s) Admission_aborted, Waiting (nextRequestId s))
                 else (drain_queue c e s1, Waiting (nextRequestId s)))"

definition acquire_control :: "adm_config \<Rightarrow> adm_env \<Rightarrow> adm_ctl \<Rightarrow> nat option \<Rightarrow> adm_ctl \<times> acquire_result" where
  "acquire_control c e s sig =
     acquire c e s \<lparr> rq_ownerId = None, rq_reservationMB = None, rq_admissionBudgetMs = None, rq_retryAttempt = None,
       rq_signal = sig, rq_control = True, rq_progress = False \<rparr>"

definition adopt :: "adm_config \<Rightarrow> adm_env \<Rightarrow> adm_ctl \<Rightarrow> jnum option \<Rightarrow> adm_error + (adm_ctl \<times> nat)" where
  "adopt c e s v =
     and_then (normalize_reservation c v) (\<lambda>reserved.
       Inr (mark_started e (create_lease e s reserved False) (length (adm_leases s)), length (adm_leases s)))"

definition release_lease :: "adm_config \<Rightarrow> adm_env \<Rightarrow> adm_ctl \<Rightarrow> nat \<Rightarrow> adm_ctl \<times> bool" where
  "release_lease c e s k =
     (let l = adm_leases s ! k in
      if length (adm_leases s) \<le> k \<or> released l then (s, False)
      else let s1 = s\<lparr> adm_leases := (adm_leases s)[k := l\<lparr> released := True \<rparr>] \<rparr>
           in if ls_control l then (s1, True)
              else (drain_queue c e
                     (s1\<lparr> startupReservations := map_del k (startupReservations s),
                          activeReservedMB := max 0 (activeReservedMB s - ls_reservedMB l),
                          activeLeases := max 0 (activeLeases s - 1) \<rparr>), True))"

text \<open>The samplers; each also returns \<open>getState()\<close>, which is \<open>get_state\<close> of the new state.\<close>

definition update_observed_memory :: "adm_config \<Rightarrow> adm_env \<Rightarrow> adm_ctl \<Rightarrow> jnum \<Rightarrow> jnum option \<Rightarrow> adm_error + adm_ctl" where
  "update_observed_memory c e s observed credit =
     (case finite_of observed of
        None \<Rightarrow> Inl (RangeError ''observedMemoryMB'')
      | Some m \<Rightarrow>
          if m < 0 then Inl (RangeError ''observedMemoryMB'')
          else case finite_of (case credit of None \<Rightarrow> observed | Some x \<Rightarrow> x) of
            None \<Rightarrow> Inl (RangeError ''reservationCreditMB'')
          | Some r \<Rightarrow>
              if r < 0 \<or> m < r then Inl (RangeError ''reservationCreditMB'')
              else let s1 = s\<lparr> observedMemoryMB := m, observedReservationCreditMB := r,
                               peakObservedMemoryMB := max (peakObservedMemoryMB s) m \<rparr>
                   in Inr (if m \<noteq> observedMemoryMB s \<or> r \<noteq> observedReservationCreditMB s then drain_queue c e s1 else s1))"

definition more_than :: "rat \<Rightarrow> rat option \<Rightarrow> bool" where
  "more_than a previous = (case previous of None \<Rightarrow> False | Some q \<Rightarrow> q < a)"

definition update_system_available :: "adm_config \<Rightarrow> adm_env \<Rightarrow> adm_ctl \<Rightarrow> jnum \<Rightarrow> adm_error + adm_ctl" where
  "update_system_available c e s available =
     (case finite_of available of
        None \<Rightarrow> Inl (RangeError ''systemAvailableMemoryMB'')
      | Some a \<Rightarrow>
          if a < 0 then Inl (RangeError ''systemAvailableMemoryMB'')
          else let s1 = s\<lparr> systemAvailableMemoryMB := Some a, pressureSampleAt := None, systemSampleAt := Some (clock e),
                           systemSampleGeneration := systemSampleGeneration s + 1 \<rparr>
               in Inr (if admissionMode c = Watermark \<or> more_than a (systemAvailableMemoryMB s) then drain_queue c e s1 else s1))"

record pressure_sample =
  ps_systemAvailableMemoryMB :: jnum
  ps_commitAvailableMemoryMB :: jnum
  ps_highMemorySignaled :: bool
  ps_lowMemorySignaled :: bool

definition update_system_pressure :: "adm_config \<Rightarrow> adm_env \<Rightarrow> adm_ctl \<Rightarrow> pressure_sample \<Rightarrow> adm_error + adm_ctl" where
  "update_system_pressure c e s x =
     (case (finite_of (ps_systemAvailableMemoryMB x), finite_of (ps_commitAvailableMemoryMB x)) of
        (Some a, Some b) \<Rightarrow>
          if a < 0 \<or> b < 0 then Inl (RangeError ''system pressure'')
          else let s1 = s\<lparr> systemAvailableMemoryMB := Some a, commitAvailableMemoryMB := Some b,
                           highMemorySignaled := Some (ps_highMemorySignaled x), lowMemorySignaled := Some (ps_lowMemorySignaled x),
                           pressureSampleAt := Some (clock e), systemSampleAt := Some (clock e),
                           systemSampleGeneration := systemSampleGeneration s + 1 \<rparr>
               in Inr (if admissionMode c = Watermark \<or> more_than a (systemAvailableMemoryMB s)
                          \<or> more_than b (commitAvailableMemoryMB s)
                          \<or> (lowMemorySignaled s = Some True \<and> \<not> ps_lowMemorySignaled x)
                          \<or> (highMemorySignaled s = Some False \<and> ps_highMemorySignaled x)
                          \<or> (case pressureSampleAt s of None \<Rightarrow> True | Some t \<Rightarrow> pressureSampleMaxAgeMs c < clock e - t)
                       then drain_queue c e s1 else s1)
      | _ \<Rightarrow> Inl (RangeError ''system pressure''))"

definition set_recovery_pending :: "adm_config \<Rightarrow> adm_env \<Rightarrow> adm_ctl \<Rightarrow> bool \<Rightarrow> adm_ctl" where
  "set_recovery_pending c e s b =
     (let s1 = s\<lparr> recoveryPending := b \<rparr> in if b then s1 else drain_queue c e s1)"

section \<open>Reports\<close>

record adm_limits =
  lm_admissionMode :: adm_mode
  lm_startupObservationMs :: rat
  lm_minReservationMB :: rat
  lm_admissionLimitMB :: rat
  lm_hardLimitMB :: rat
  lm_systemHeadroomMB :: rat
  lm_commitHeadroomMB :: rat
  lm_commitCriticalFloorMB :: rat
  lm_yellowPhysicalMemoryMB :: rat
  lm_yellowMaxReservationMB :: rat
  lm_smallRequestPhysicalWeight :: rat
  lm_pressureSampleMaxAgeMs :: rat
  lm_maxQueueSize :: int

record adm_state =
  as_limits :: adm_limits
  as_activeReservedMB :: rat
  as_activeLeases :: int
  as_startupReservedMB :: rat
  as_queued :: nat
  as_observedMemoryMB :: rat
  as_systemAvailableMemoryMB :: "rat option"
  as_commitAvailableMemoryMB :: "rat option"
  as_highMemorySignaled :: "bool option"
  as_lowMemorySignaled :: "bool option"
  as_pressureLevel :: pressure_level
  as_hardLimitExceeded :: bool
  as_recoveryPending :: bool
  as_peak :: "rat \<times> nat \<times> rat"
  as_wait :: wait_counters
  as_averageMs :: rat

definition get_limits :: "adm_config \<Rightarrow> adm_limits" where
  "get_limits c =
     \<lparr> lm_admissionMode = admissionMode c, lm_startupObservationMs = startupObservationMs c,
       lm_minReservationMB = minReservationMB c, lm_admissionLimitMB = admissionLimitMB c, lm_hardLimitMB = hardLimitMB c,
       lm_systemHeadroomMB = systemHeadroomMB c, lm_commitHeadroomMB = commitHeadroomMB c,
       lm_commitCriticalFloorMB = commitCriticalFloorMB c, lm_yellowPhysicalMemoryMB = yellowPhysicalMemoryMB c,
       lm_yellowMaxReservationMB = yellowMaxReservationMB c, lm_smallRequestPhysicalWeight = smallRequestPhysicalWeight c,
       lm_pressureSampleMaxAgeMs = pressureSampleMaxAgeMs c, lm_maxQueueSize = maxQueueSize c \<rparr>"

definition get_state :: "adm_config \<Rightarrow> adm_env \<Rightarrow> adm_ctl \<Rightarrow> adm_state" where
  "get_state c e s =
     (let w = waitCounters s in
      \<lparr> as_limits = get_limits c, as_activeReservedMB = activeReservedMB s, as_activeLeases = activeLeases s,
        as_startupReservedMB = get_startup_reserved c s, as_queued = length (adm_queue s),
        as_observedMemoryMB = observedMemoryMB s, as_systemAvailableMemoryMB = systemAvailableMemoryMB s,
        as_commitAvailableMemoryMB = commitAvailableMemoryMB s, as_highMemorySignaled = highMemorySignaled s,
        as_lowMemorySignaled = lowMemorySignaled s, as_pressureLevel = get_pressure_level c e s,
        as_hardLimitExceeded = (admissionMode c = FixedMode \<and> hardLimitMB c \<le> observedMemoryMB s),
        as_recoveryPending = recoveryPending s, as_peak = (peakActiveReservedMB s, peakQueued s, peakObservedMemoryMB s),
        as_wait = w, as_averageMs = (if completedTotal w = 0 then 0 else totalMs w / of_nat (completedTotal w)) \<rparr>)"

record wait_progress =
  wp_queueWaitMs :: rat
  wp_queuePosition :: int
  wp_queued :: nat
  wp_pressureLevel :: pressure_level
  wp_activeReservedMB :: rat
  wp_observedMemoryMB :: rat
  wp_systemAvailableMemoryMB :: "rat option"
  wp_commitAvailableMemoryMB :: "rat option"
  wp_admissionDecision :: adm_decision

text \<open>What the progress timer reports for a request that is still waiting.\<close>

definition wait_report :: "adm_config \<Rightarrow> adm_env \<Rightarrow> adm_ctl \<Rightarrow> pending \<Rightarrow> wait_progress option" where
  "wait_report c e s p =
     (if settled p \<or> \<not> wantsProgress p then None
      else Some \<lparr> wp_queueWaitMs = waited_ms e p,
                  wp_queuePosition = max 1 (index_of (pd_id p) (map pd_id (live_queue s)) + 1),
                  wp_queued = length (live_queue s), wp_pressureLevel = get_pressure_level c e s,
                  wp_activeReservedMB = activeReservedMB s, wp_observedMemoryMB = observedMemoryMB s,
                  wp_systemAvailableMemoryMB = systemAvailableMemoryMB s,
                  wp_commitAvailableMemoryMB = commitAvailableMemoryMB s,
                  wp_admissionDecision = inspect_pending c e s p \<rparr>)"

end
