(* ===== verification/ResourceAdmissionRun.thy ===== *)
theory ResourceAdmissionRun
  imports ResourceAdmission
begin

text \<open>
  Runs of the admission controller: a run is a list of operations, each with the environment it reads,
  from the state of a new controller. Every operation but an adoption is one change of the state, after
  which the queue may be drained, or the creation of one lease (\<open>served_op_shape\<close>). \<open>admission_law\<close> is
  the interface under which an invariant of these parts is an invariant of every operation;
  \<open>open_admission_law\<close> adds the adoption of running processes, which bypasses admission.
\<close>

datatype adm_op =
  OpAcquire adm_env adm_request
| OpAdopt adm_env "jnum option"
| OpMarkStarted adm_env nat
| OpObserve adm_env nat jnum
| OpRelease adm_env nat
| OpTimeout adm_env nat
| OpAbort adm_env nat
| OpObservedMemory adm_env jnum "jnum option"
| OpSystemAvailable adm_env jnum
| OpSystemPressure adm_env pressure_sample
| OpRecovery adm_env bool

fun or_keep :: "'s \<Rightarrow> 'e + 's \<Rightarrow> 's" where
  "or_keep s (Inl _) = s"
| "or_keep s (Inr s') = s'"

fun run_op :: "adm_config \<Rightarrow> adm_ctl \<Rightarrow> adm_op \<Rightarrow> adm_ctl" where
  "run_op c s (OpAcquire e rq) = fst (acquire c e s rq)"
| "run_op c s (OpAdopt e v) = or_keep s (and_then (adopt c e s v) (\<lambda>x. Inr (fst x)))"
| "run_op c s (OpMarkStarted e k) = mark_started e s k"
| "run_op c s (OpObserve e k m) = observe_lease e s k m"
| "run_op c s (OpRelease e k) = fst (release_lease c e s k)"
| "run_op c s (OpTimeout e i) = reject_pending c e s i Admission_timeout"
| "run_op c s (OpAbort e i) = reject_pending c e s i Admission_aborted"
| "run_op c s (OpObservedMemory e m r) = or_keep s (update_observed_memory c e s m r)"
| "run_op c s (OpSystemAvailable e a) = or_keep s (update_system_available c e s a)"
| "run_op c s (OpSystemPressure e x) = or_keep s (update_system_pressure c e s x)"
| "run_op c s (OpRecovery e b) = set_recovery_pending c e s b"

definition run_ops :: "adm_config \<Rightarrow> adm_op list \<Rightarrow> adm_ctl" where
  "run_ops c ops = foldl (run_op c) initial_ctl ops"

fun adopts :: "adm_op \<Rightarrow> bool" where
  "adopts (OpAdopt e v) = True"
| "adopts _ = False"

lemma run_ops_Nil [simp]: "run_ops c [] = initial_ctl"
  by (simp add: run_ops_def)

lemma run_ops_snoc [simp]: "run_ops c (ops @ [x]) = run_op c (run_ops c ops) x"
  by (simp add: run_ops_def)

section \<open>The changes an operation is made of\<close>

definition released_state :: "adm_ctl \<Rightarrow> nat \<Rightarrow> adm_ctl" where
  "released_state s k =
     (let l = adm_leases s ! k in
      if ls_control l then s\<lparr> adm_leases := (adm_leases s)[k := l\<lparr> released := True \<rparr>] \<rparr>
      else s\<lparr> adm_leases := (adm_leases s)[k := l\<lparr> released := True \<rparr>],
              startupReservations := map_del k (startupReservations s),
              activeReservedMB := max 0 (activeReservedMB s - ls_reservedMB l),
              activeLeases := max 0 (activeLeases s - 1) \<rparr>)"

inductive adm_change :: "adm_config \<Rightarrow> adm_ctl \<Rightarrow> adm_ctl \<Rightarrow> bool" for c where
  same: "adm_change c s s"
| refused: "\<lbrakk> p \<in> set (adm_queue s); code = Admission_aborted \<or> code = Admission_timeout \<rbrakk>
    \<Longrightarrow> adm_change c s (refuse_pending c e s p code)"
| full: "adm_change c s (s\<lparr> waitCounters := (waitCounters s)\<lparr> queueFullTotal := queueFullTotal (waitCounters s) + 1 \<rparr> \<rparr>)"
| enqueued: "\<lbrakk> int (length (adm_queue s)) < maxQueueSize c; normalize_reservation c v = Inr r \<rbrakk>
    \<Longrightarrow> adm_change c s (enqueue_request c e s rq r budget)"
| started: "adm_change c s (mark_started e s k)"
| observed: "adm_change c s (observe_lease e s k m)"
| freed: "\<lbrakk> k < length (adm_leases s); \<not> released (adm_leases s ! k) \<rbrakk> \<Longrightarrow> adm_change c s (released_state s k)"
| measured: "\<lbrakk> 0 \<le> seen; 0 \<le> r; r \<le> seen \<rbrakk> \<Longrightarrow> adm_change c s (s\<lparr> observedMemoryMB := seen,
    observedReservationCreditMB := r, peakObservedMemoryMB := max (peakObservedMemoryMB s) seen \<rparr>)"
| available: "adm_change c s (s\<lparr> systemAvailableMemoryMB := Some a, pressureSampleAt := None, systemSampleAt := Some t,
    systemSampleGeneration := systemSampleGeneration s + 1 \<rparr>)"
| pressure: "adm_change c s (s\<lparr> systemAvailableMemoryMB := Some a, commitAvailableMemoryMB := Some b,
    highMemorySignaled := Some hi, lowMemorySignaled := Some lo, pressureSampleAt := Some t, systemSampleAt := Some t,
    systemSampleGeneration := systemSampleGeneration s + 1 \<rparr>)"
| recovery: "adm_change c s (s\<lparr> recoveryPending := b \<rparr>)"

definition changes :: "adm_config \<Rightarrow> adm_ctl \<Rightarrow> adm_ctl \<Rightarrow> bool" where
  "changes c s s' \<longleftrightarrow> (\<exists>s1 e. adm_change c s s1 \<and> (s' = s1 \<or> s' = drain_queue c e s1))"

lemma changesI: "adm_change c s s1 \<Longrightarrow> changes c s s1" "adm_change c s s1 \<Longrightarrow> changes c s (drain_queue c e s1)"
  by (auto simp: changes_def)

lemma reject_shape: "code = Admission_aborted \<or> code = Admission_timeout \<Longrightarrow> changes c s (reject_pending c e s i code)"
  by (auto simp: reject_pending_def split: option.splits elim!: find_SomeE intro!: changesI adm_change.same adm_change.refused)

lemma release_shape: "changes c s (fst (release_lease c e s k))"
  using adm_change.freed [of k s c]
  by (auto simp: release_lease_def released_state_def Let_def split: if_splits intro: changesI adm_change.same)

lemma observed_shape: "update_observed_memory c e s m r = Inr s' \<Longrightarrow> changes c s s'"
  unfolding update_observed_memory_def Let_def
  by (simp only: split: option.splits if_splits sum.split_asm)
    (blast intro: changesI adm_change.measured [simplified not_less [symmetric]])+

lemma available_shape: "update_system_available c e s a = Inr s' \<Longrightarrow> changes c s s'"
  unfolding update_system_available_def Let_def
  by (auto split: option.splits if_splits intro: changesI adm_change.available [simplified])

lemma pressure_shape: "update_system_pressure c e s x = Inr s' \<Longrightarrow> changes c s s'"
  unfolding update_system_pressure_def Let_def
  by (auto split: option.splits if_splits intro: changesI adm_change.pressure [simplified])

lemma recovery_shape: "changes c s (set_recovery_pending c e s b)"
  by (simp add: set_recovery_pending_def Let_def changesI adm_change.recovery)

lemma keep_shape: "(\<And>s'. r = Inr s' \<Longrightarrow> changes c s s') \<Longrightarrow> changes c s (or_keep s r)"
  by (cases r) (auto intro: changesI adm_change.same)

lemma enqueued_shape:
  "\<lbrakk> int (length (adm_queue s)) < maxQueueSize c; normalize_reservation c v = Inr r \<rbrakk>
    \<Longrightarrow> changes c s (drain_queue c e (enqueue_request c e' s rq r budget))"
  by (rule changesI(2) [OF adm_change.enqueued])

lemma acquire_shape:
  "changes c s (fst (acquire c e s rq)) \<or> fst (acquire c e s rq) = create_lease e s 0 True
   \<or> (\<exists>v r. adm_queue s = [] \<and> can_grant c e s r 0 \<and> normalize_reservation c v = Inr r \<and>
        fst (acquire c e s rq) = grant_immediate e s r)"
  by (auto simp: acquire_def Let_def split: sum.splits
      intro: changesI adm_change.same adm_change.full [simplified] enqueued_shape)

text \<open>What an operation other than an adoption does.\<close>

lemma served_op_shape:
  assumes "\<not> adopts x"
  obtains (changed) "changes c s (run_op c s x)"
  | (control) e where "run_op c s x = create_lease e s 0 True"
  | (immediate) e v r where "adm_queue s = []" "can_grant c e s r 0" "normalize_reservation c v = Inr r"
      "run_op c s x = grant_immediate e s r"
proof (cases x)
  case (OpAcquire e rq)
  then show thesis using acquire_shape [of c s e rq] changed control immediate by auto
qed (use assms changed in \<open>auto intro: changesI adm_change.started adm_change.observed release_shape reject_shape
      recovery_shape keep_shape observed_shape available_shape pressure_shape\<close>)

lemma drain_loop_invariant:
  assumes P: "P s"
    and refuse: "\<And>s p. P s \<Longrightarrow> p \<in> set (adm_queue s) \<Longrightarrow> P (refuse_pending c e s p Admission_aborted)"
    and grant: "\<And>s p. P s \<Longrightarrow> select_next_pending c e s = Some p \<Longrightarrow> P (grant_pending e s p)"
  shows "P (drain_loop c e s)"
  using P
proof (induction "length (adm_queue s)" arbitrary: s rule: less_induct)
  case less
  show ?case
  proof (cases "adm_queue s = [] \<or> select_next_pending c e s = None")
    case True
    then show ?thesis using less.prems by (auto simp: drain_loop.simps [of c e s])
  next
    case False
    then obtain p where sel: "select_next_pending c e s = Some p" and ne: "adm_queue s \<noteq> []" by blast
    have mem: "p \<in> set (adm_queue s)" by (rule select_next_pending_mem [OF sel])
    note short = length_remove_first [OF mem]
    have "P (drain_loop c e (refuse_pending c e s p Admission_aborted))" "P (drain_loop c e (grant_pending e s p))"
      by (rule less.hyps; simp add: short refuse [OF less.prems mem] grant [OF less.prems sel])+
    then show ?thesis using sel ne by (simp add: drain_loop.simps [of c e s])
  qed
qed

locale admission_law =
  fixes c :: adm_config and P :: "adm_ctl \<Rightarrow> bool"
  assumes flag: "P s \<Longrightarrow> P (s\<lparr> draining := b \<rparr>)"
    and change: "\<lbrakk> P s; adm_change c s s' \<rbrakk> \<Longrightarrow> P s'"
    and grant: "\<lbrakk> P s; select_next_pending c e s = Some p \<rbrakk> \<Longrightarrow> P (grant_pending e s p)"
    and control: "P s \<Longrightarrow> P (create_lease e s 0 True)"
    and immediate: "\<lbrakk> P s; adm_queue s = []; can_grant c e s r 0; normalize_reservation c v = Inr r \<rbrakk>
        \<Longrightarrow> P (grant_immediate e s r)"
begin

lemma loop: "P s \<Longrightarrow> P (drain_loop c e s)"
  by (rule drain_loop_invariant [of P]) (auto intro: grant change adm_change.refused)

lemma drain: "P s \<Longrightarrow> P (drain_queue c e s)"
  by (simp add: drain_queue_def flag loop)

lemma changed: "P s \<Longrightarrow> changes c s s' \<Longrightarrow> P s'"
  by (auto simp: changes_def intro: change drain)

lemma served_op: "P s \<Longrightarrow> \<not> adopts x \<Longrightarrow> P (run_op c s x)"
  by (rule served_op_shape [of x c s]) (auto intro: changed control immediate)

lemma served_run: "P initial_ctl \<Longrightarrow> \<not> list_ex adopts ops \<Longrightarrow> P (run_ops c ops)"
  by (induction ops rule: rev_induct) (auto intro: served_op)

end

text \<open>Laws that the adoption of running processes keeps as well.\<close>

locale open_admission_law = admission_law +
  assumes adopted: "\<lbrakk> P s; normalize_reservation c v = Inr r \<rbrakk> \<Longrightarrow> P (create_lease e s r False)"
begin

lemma adoption: "P s \<Longrightarrow> P (or_keep s (and_then (adopt c e s v) (\<lambda>x. Inr (fst x))))"
  by (cases "adopt c e s v") (auto simp: adopt_def and_then_Inr intro!: change [OF _ adm_change.started] adopted)

lemma any_op: "P s \<Longrightarrow> P (run_op c s x)"
  by (cases "adopts x") (auto intro: served_op adoption elim!: adopts.elims)

lemma any_run: "P initial_ctl \<Longrightarrow> P (run_ops c ops)"
  by (induction ops rule: rev_induct) (auto intro: any_op)

end

end
