(* ===== verification/ResourceAdmissionFacts.thy ===== *)
theory ResourceAdmissionFacts
  imports ResourceAdmissionRun
begin

text \<open>
  The invariants of the admission controller, one predicate per aspect: the accounting of the
  leases, the accounting of the requests, and the capacity of the fixed mode. Each is an
  interpretation of \<open>admission_law\<close>.
\<close>

section \<open>What a valid configuration satisfies\<close>

lemma number_checks:
  "positive_number v d n = Inr q \<Longrightarrow> 0 < q" "non_negative_number v d n = Inr q \<Longrightarrow> 0 \<le> q"
  "positive_integer w i n = Inr k \<Longrightarrow> 1 \<le> k" "non_negative_integer w i n = Inr k \<Longrightarrow> 0 \<le> k"
  by (auto simp: positive_number_def non_negative_number_def positive_integer_def non_negative_integer_def
      integer_at_least_def split: option.splits if_splits)

lemma make_config_valid:
  assumes "make_config opts = Inr c"
  shows "0 < minReservationMB c" "0 \<le> startupObservationMs c" "0 < admissionLimitMB c" "0 \<le> systemHeadroomMB c"
    "0 < maxQueueSize c" "0 < yellowMaxReservationMB c" "0 < smallRequestPhysicalWeight c" "smallRequestPhysicalWeight c \<le> 1"
    "0 \<le> retrySlotMs c" "0 \<le> maxRetryExponent c" "0 \<le> agingThresholdMs c" "0 \<le> maxAgedReservationMB c"
    "commitCriticalFloorMB c \<le> commitHeadroomMB c" "admissionBudgetMinMs c \<le> admissionBudgetMaxMs c"
    "admissionMode c = FixedMode \<Longrightarrow> minReservationMB c \<le> admissionLimitMB c \<and> admissionLimitMB c \<le> hardLimitMB c"
  using assms
  by (auto simp: make_config_def Let_def and_then_Inr ensure_Inr dest!: number_checks)

lemma normalize_reservation_positive:
  assumes "0 < minReservationMB c" and "normalize_reservation c v = Inr r"
  shows "0 < r"
proof -
  obtain q where q: "(case v of None \<Rightarrow> Inr (minReservationMB c)
       | Some x \<Rightarrow> positive_number (Some x) (minReservationMB c) ''reservationMB'') = Inr q"
    and r: "r = (if admissionMode c = FixedMode then max (minReservationMB c) (of_int \<lceil>q\<rceil>) else of_int \<lceil>q\<rceil>)"
    using assms(2) by (auto simp: normalize_reservation_def and_then_Inr Let_def split: if_splits)
  have "0 < q" using q assms(1) by (auto split: option.splits dest: number_checks(1))
  then have "0 < (of_int \<lceil>q\<rceil> :: rat)" by simp
  then show ?thesis using assms(1) r by (auto simp: less_max_iff_disj)
qed

section \<open>Accounting of the leases\<close>

definition held :: "lease \<Rightarrow> bool" where
  "held l \<longleftrightarrow> \<not> released l \<and> \<not> ls_control l"

definition held_share :: "lease \<Rightarrow> rat" where
  "held_share l = (if held l then ls_reservedMB l else 0)"

definition startups_match :: "(nat \<rightharpoonup> startup) \<Rightarrow> lease list \<Rightarrow> bool" where
  "startups_match m ls \<longleftrightarrow>
     (\<forall>k. m k \<noteq> None \<longleftrightarrow> k < length ls \<and> held (ls ! k)) \<and>
     (\<forall>k v. m k = Some v \<longrightarrow> ls_reservedMB (ls ! k) \<le> sr_reservedMB v)"

definition leases_ok :: "adm_ctl \<Rightarrow> bool" where
  "leases_ok s \<longleftrightarrow>
     activeReservedMB s = sum_list (map held_share (adm_leases s)) \<and>
     activeLeases s = sum_list (map (\<lambda>l. of_bool (held l)) (adm_leases s)) \<and>
     distinct (map fst (startupReservations s)) \<and>
     (\<forall>l \<in> set (adm_leases s). 0 \<le> ls_reservedMB l) \<and>
     startups_match (map_of (startupReservations s)) (adm_leases s) \<and>
     activeReservedMB s \<le> peakActiveReservedMB s"

lemma held_share_nonneg: "\<forall>l \<in> set ls. 0 \<le> ls_reservedMB l \<Longrightarrow> 0 \<le> sum_list (map held_share ls)"
  by (induction ls) (auto simp: held_share_def)

lemma sum_list_update_map:
  fixes f :: "'a \<Rightarrow> 'b :: ab_group_add"
  shows "k < length ls \<Longrightarrow> sum_list (map f (ls[k := l])) = sum_list (map f ls) - f (ls ! k) + f l"
  by (induction ls arbitrary: k) (auto simp: nth_Cons algebra_simps split: nat.splits)

lemma startups_match_append:
  assumes "startups_match m ls"
  shows "\<not> held l \<Longrightarrow> startups_match m (ls @ [l])"
    and "held l \<Longrightarrow> ls_reservedMB l \<le> sr_reservedMB v \<Longrightarrow> startups_match (m(length ls \<mapsto> v)) (ls @ [l])"
proof -
  have none: "m k = None" if "length ls \<le> k" for k
    using assms that unfolding startups_match_def by (metis leD)
  note sm = assms [unfolded startups_match_def, THEN conjunct1, rule_format]
    assms [unfolded startups_match_def, THEN conjunct2, rule_format]
  have dom: "k < length ls" if "m k = Some v" for k v using sm(1) [of k] that by simp
  show "startups_match m (ls @ [l])" if "\<not> held l"
    unfolding startups_match_def using sm that none dom by (auto simp: nth_append less_Suc_eq)
  show "startups_match (m(length ls \<mapsto> v)) (ls @ [l])" if "held l" "ls_reservedMB l \<le> sr_reservedMB v"
    unfolding startups_match_def using sm that none dom by (auto simp: nth_append less_Suc_eq)
qed

lemma startups_match_put:
  assumes "startups_match m ls" "m k = Some v" "sr_reservedMB v \<le> sr_reservedMB v'"
  shows "startups_match (m(k \<mapsto> v')) ls"
  using assms unfolding startups_match_def by (metis fun_upd_apply option.distinct(1) option.inject order_trans)

lemma startups_match_release:
  assumes "startups_match m ls" "k < length ls"
  shows "startups_match (m(k := None)) (ls[k := (ls ! k)\<lparr> released := True \<rparr>])"
  using assms by (auto simp: startups_match_def nth_list_update held_def)

lemma held_new [simp]:
  "held \<lparr> ls_reservedMB = r, ls_control = b, acquiredAt = t, released = False \<rparr> \<longleftrightarrow> \<not> b"
  "held_share \<lparr> ls_reservedMB = r, ls_control = b, acquiredAt = t, released = False \<rparr> = (if b then 0 else r)"
  by (simp_all add: held_def held_share_def)

lemma leases_ok_create_control: "leases_ok s \<Longrightarrow> leases_ok (create_lease e s 0 True)"
  by (auto simp: leases_ok_def create_lease_def Let_def intro: startups_match_append(1))

lemma leases_ok_create: "leases_ok s \<Longrightarrow> 0 \<le> r \<Longrightarrow> leases_ok (create_lease e s r False)"
  by (auto simp: leases_ok_def create_lease_def Let_def distinct_map_put intro!: startups_match_append(2))

lemma leases_ok_frame:
  assumes "leases_ok s" "activeReservedMB s' = activeReservedMB s" "activeLeases s' = activeLeases s"
    "startupReservations s' = startupReservations s" "adm_leases s' = adm_leases s" "peakActiveReservedMB s' = peakActiveReservedMB s"
  shows "leases_ok s'"
  using assms by (simp add: leases_ok_def)

lemma leases_ok_startup:
  assumes "leases_ok s" "map_of (startupReservations s) k = Some v" "sr_reservedMB v \<le> sr_reservedMB v'"
  shows "leases_ok (s\<lparr> startupReservations := map_put k v' (startupReservations s) \<rparr>)"
  using assms startups_match_put by (simp add: leases_ok_def distinct_map_put del: map_of_eq_Some_iff)

lemma leases_ok_mark: "leases_ok s \<Longrightarrow> leases_ok (mark_started e s k)"
  by (auto simp: mark_started_def Let_def split: option.splits intro!: leases_ok_startup)

lemma leases_ok_observe: "leases_ok s \<Longrightarrow> leases_ok (observe_lease e s k m)"
  by (auto simp: observe_lease_def Let_def split: option.splits intro!: leases_ok_startup)

lemma leases_ok_release:
  assumes ok: "leases_ok s" and k: "k < length (adm_leases s)" and r: "\<not> released (adm_leases s ! k)"
  shows "leases_ok (released_state s k)"
proof -
  let ?l = "adm_leases s ! k" and ?ls = "(adm_leases s)[k := (adm_leases s ! k)\<lparr> released := True \<rparr>]"
  note okd = ok [unfolded leases_ok_def]
  have pos: "\<forall>l \<in> set ?ls. 0 \<le> ls_reservedMB l"
    using okd k by (auto dest!: set_update_subset_insert [THEN subsetD])
  have nh: "\<not> held (?l\<lparr> released := True \<rparr>)" by (simp add: held_def)
  have share: "sum_list (map held_share ?ls) = sum_list (map held_share (adm_leases s)) - held_share ?l"
    by (simp only: sum_list_update_map [OF k]) (simp add: held_share_def nh)
  have count: "sum_list (map (\<lambda>l. of_bool (held l)) ?ls) = sum_list (map (\<lambda>l. of_bool (held l)) (adm_leases s)) - (of_bool (held ?l) :: int)"
    by (simp only: sum_list_update_map [OF k]) (simp add: nh)
  have ge: "0 \<le> sum_list (map held_share ?ls)" by (rule held_share_nonneg [OF pos])
  have ge': "0 \<le> sum_list (map (\<lambda>l. of_bool (held l) :: int) ?ls)" by (rule sum_list_nonneg) auto
  have match: "startups_match ((map_of (startupReservations s))(k := None)) ?ls"
    using startups_match_release okd k by blast
  show ?thesis
  proof (cases "ls_control ?l")
    case True
    then have h: "\<not> held ?l" by (simp add: held_def)
    then have "held_share ?l = 0" by (simp add: held_share_def)
    moreover have "map_of (startupReservations s) k = None"
      using okd h unfolding startups_match_def by blast
    then have "(map_of (startupReservations s))(k := None) = map_of (startupReservations s)"
      by (simp add: fun_upd_idem)
    ultimately show ?thesis using True okd pos share count h match
      by (simp add: released_state_def leases_ok_def)
  next
    case False
    with r have h: "held ?l" by (simp add: held_def)
    then have sh: "held_share ?l = ls_reservedMB ?l" by (simp add: held_share_def)
    have le: "0 \<le> ls_reservedMB ?l" using okd k by simp
    have "max 0 (activeReservedMB s - ls_reservedMB ?l) = sum_list (map held_share ?ls)"
      "max 0 (activeLeases s - 1) = sum_list (map (\<lambda>l. of_bool (held l) :: int) ?ls)"
      using okd ge ge' share count h sh by simp_all
    moreover have "sum_list (map held_share ?ls) \<le> peakActiveReservedMB s"
      using okd share sh le by simp
    ultimately show ?thesis using False okd pos match
      by (simp add: released_state_def Let_def leases_ok_def distinct_map_del)
  qed
qed


lemma initial_leases_ok: "leases_ok initial_ctl"
  by (simp add: leases_ok_def initial_ctl_def startups_match_def)

lemma leases_ok_settle: "leases_ok (settle s i out) \<longleftrightarrow> leases_ok s"
  by (simp add: leases_ok_def settle_def)

lemma leases_ok_grant:
  assumes ok: "leases_ok s" and r: "0 \<le> pd_reservedMB p"
  shows "leases_ok (grant_pending e s p)"
proof -
  let ?s3 = "(record_completed_wait ((finish_pending s p)\<lparr> waitCounters := (waitCounters (finish_pending s p))
      \<lparr> admittedTotal := admittedTotal (waitCounters (finish_pending s p)) + 1,
        admittedAfterWait := admittedAfterWait (waitCounters (finish_pending s p)) + 1 \<rparr> \<rparr>) (waited_ms e p))
      \<lparr> lastGrantedOwnerId := Some (pd_ownerId p) \<rparr>"
  have "leases_ok ?s3" by (rule leases_ok_frame [OF ok]) (simp_all add: finish_pending_def record_completed_wait_def)
  then have "leases_ok (create_lease e ?s3 (pd_reservedMB p) False)" using r by (rule leases_ok_create)
  then show ?thesis by (simp only: grant_pending_def Let_def leases_ok_settle)
qed

section \<open>Accounting of the requests\<close>

definition waiting_ids :: "adm_ctl \<Rightarrow> nat list" where
  "waiting_ids s = map pd_id (adm_queue s)"

definition counters_match :: "wait_counters \<Rightarrow> nat \<Rightarrow> bool" where
  "counters_match w n \<longleftrightarrow>
     queuedTotal w = completedTotal w + n \<and>
     completedTotal w = admittedAfterWait w + cancelledTotal w + timedOutTotal w \<and>
     admittedAfterWait w \<le> admittedTotal w \<and> 0 \<le> maxMs w \<and> maxMs w \<le> totalMs w"

definition requests_ok :: "adm_config \<Rightarrow> adm_ctl \<Rightarrow> bool" where
  "requests_ok c s \<longleftrightarrow>
     mset (waiting_ids s) + mset (map fst (adm_outcomes s)) = mset [1..<nextRequestId s] \<and>
     (\<forall>p \<in> set (adm_queue s). \<not> settled p \<and> 0 < pd_reservedMB p) \<and>
     int (length (adm_queue s)) \<le> maxQueueSize c \<and> length (adm_queue s) \<le> peakQueued s \<and>
     int (peakQueued s) \<le> maxQueueSize c \<and> 1 \<le> nextRequestId s \<and>
     counters_match (waitCounters s) (length (adm_queue s))"

lemma remove_first_mset:
  "p \<in> set ps \<Longrightarrow> mset (map pd_id ps) = add_mset (pd_id p) (mset (map pd_id (remove_first (pd_id p) ps)))"
  by (induction ps) auto

lemma remove_first_length: "p \<in> set ps \<Longrightarrow> length ps = Suc (length (remove_first (pd_id p) ps))"
  by (induction ps) auto

lemma set_remove_first: "set (remove_first i ps) \<subseteq> set ps"
  by (induction ps) auto

lemma requests_ok_frame:
  assumes "requests_ok c s" "adm_queue s' = adm_queue s" "adm_outcomes s' = adm_outcomes s"
    "nextRequestId s' = nextRequestId s" "peakQueued s' = peakQueued s" "waitCounters s' = waitCounters s"
  shows "requests_ok c s'"
  using assms by (simp add: requests_ok_def waiting_ids_def)

text \<open>A waiting request is settled: it leaves the queue and gets the one outcome of its promise.\<close>

lemma requests_ok_settle:
  assumes ok: "requests_ok c s" and p: "p \<in> set (adm_queue s)"
    and s': "adm_queue s' = remove_first (pd_id p) (adm_queue s)" "adm_outcomes s' = adm_outcomes s @ [(pd_id p, out)]"
      "nextRequestId s' = nextRequestId s" "peakQueued s' = peakQueued s"
    and w: "counters_match (waitCounters s') (length (remove_first (pd_id p) (adm_queue s)))"
  shows "requests_ok c s'"
  using ok s' w remove_first_mset [OF p] remove_first_length [OF p] set_remove_first [of "pd_id p" "adm_queue s"]
  unfolding requests_ok_def waiting_ids_def by auto

lemma waited_nonneg: "0 \<le> waited_ms e p"
  by (simp add: waited_ms_def)

lemmas pending_defs = refuse_pending_def grant_pending_def create_lease_def Let_def settle_def record_completed_wait_def finish_pending_def

definition refusal :: "adm_config \<Rightarrow> adm_env \<Rightarrow> adm_ctl \<Rightarrow> pending \<Rightarrow> adm_code \<Rightarrow> adm_error" where
  "refusal c e s p code =
     (if code = Admission_aborted then make_abort_error (waited_ms e p)
      else AdmissionError Admission_timeout (waited_ms e p) (compute_retry_after c e (pd_retryAttempt p)) (Some (inspect_pending c e s p)))"

lemma refuse_pending_fields:
  "adm_outcomes (refuse_pending c e s p code) = adm_outcomes s @ [(pd_id p, Refused (refusal c e s p code))]"
  "nextRequestId (refuse_pending c e s p code) = nextRequestId s" "peakQueued (refuse_pending c e s p code) = peakQueued s"
  "activeReservedMB (refuse_pending c e s p code) = activeReservedMB s" "activeLeases (refuse_pending c e s p code) = activeLeases s"
  "startupReservations (refuse_pending c e s p code) = startupReservations s" "adm_leases (refuse_pending c e s p code) = adm_leases s"
  "peakActiveReservedMB (refuse_pending c e s p code) = peakActiveReservedMB s"
  by (simp_all add: pending_defs refusal_def)

lemma requests_ok_refuse:
  assumes ok: "requests_ok c s" and p: "p \<in> set (adm_queue s)" and code: "code = Admission_aborted \<or> code = Admission_timeout"
  shows "requests_ok c (refuse_pending c' e s p code)"
proof -
  have "counters_match (waitCounters (refuse_pending c' e s p code)) (length (remove_first (pd_id p) (adm_queue s)))"
    using ok remove_first_length [OF p] waited_nonneg [of e p]
    by (auto simp: requests_ok_def counters_match_def pending_defs)
  then show ?thesis by (intro requests_ok_settle [OF ok p]) (simp_all add: refuse_pending_fields)
qed

lemma requests_ok_grant:
  assumes ok: "requests_ok c s" and p: "p \<in> set (adm_queue s)"
  shows "requests_ok c (grant_pending e s p)"
proof -
  have "counters_match (waitCounters (grant_pending e s p)) (length (remove_first (pd_id p) (adm_queue s)))"
    using ok remove_first_length [OF p] waited_nonneg [of e p]
    by (auto simp: requests_ok_def counters_match_def grant_pending_def create_lease_def Let_def settle_def
        record_completed_wait_def finish_pending_def)
  then show ?thesis
    by (intro requests_ok_settle [OF ok p])
      (auto simp: grant_pending_def create_lease_def Let_def settle_def record_completed_wait_def finish_pending_def)
qed

lemma requests_ok_enqueue:
  assumes "requests_ok c s" "int (length (adm_queue s)) < maxQueueSize c" "0 < r"
  shows "requests_ok c (enqueue_request c' e s rq r budget)"
  using assms by (auto simp: requests_ok_def waiting_ids_def enqueue_request_def Let_def counters_match_def)

lemma initial_requests_ok: "0 < maxQueueSize c \<Longrightarrow> requests_ok c initial_ctl"
  by (simp add: requests_ok_def waiting_ids_def initial_ctl_def counters_match_def)


section \<open>Both ledgers are kept by every operation\<close>

definition config_valid :: "adm_config \<Rightarrow> bool" where
  "config_valid c \<longleftrightarrow> (\<exists>opts. make_config opts = Inr c)"

definition ledger_ok :: "adm_config \<Rightarrow> adm_ctl \<Rightarrow> bool" where
  "ledger_ok c s \<longleftrightarrow> (config_valid c \<longrightarrow> leases_ok s \<and> requests_ok c s)"

lemma leases_ok_change: "leases_ok s \<Longrightarrow> adm_change c s s' \<Longrightarrow> leases_ok s'"
  by (erule adm_change.cases)
    (auto simp: leases_ok_mark leases_ok_observe leases_ok_release enqueue_request_def Let_def refuse_pending_fields
      elim: leases_ok_frame)

lemma mark_started_frame: "requests_ok c (mark_started e s k) = requests_ok c s"
  by (simp add: mark_started_def Let_def requests_ok_def waiting_ids_def split: option.splits)

lemma observe_lease_frame: "requests_ok c (observe_lease e s k m) = requests_ok c s"
  by (simp add: observe_lease_def Let_def requests_ok_def waiting_ids_def split: option.splits)

lemma requests_ok_create [simp]: "requests_ok c (create_lease e s r b) = requests_ok c s"
  by (simp add: create_lease_def Let_def requests_ok_def waiting_ids_def)

lemma requests_ok_change:
  assumes ok: "requests_ok c s" and valid: "config_valid c" and ch: "adm_change c s s'"
  shows "requests_ok c s'"
  using ch
proof cases
  case (refused p code)
  then show ?thesis using requests_ok_refuse [OF ok] by blast
next
  case (enqueued v r e rq budget)
  have "0 < minReservationMB c" using valid make_config_valid(1) by (auto simp: config_valid_def)
  with enqueued have "0 < r" using normalize_reservation_positive by blast
  with enqueued show ?thesis using requests_ok_enqueue [OF ok] by blast
next
  case (started e k)
  with ok show ?thesis by (simp add: mark_started_frame)
next
  case (observed e k m)
  with ok show ?thesis by (simp add: observe_lease_frame)
qed (use ok in \<open>auto simp: requests_ok_def waiting_ids_def counters_match_def released_state_def Let_def\<close>)

interpretation ledger: open_admission_law c "ledger_ok c" for c
proof
  show "ledger_ok c (s\<lparr>draining := b\<rparr>)" if "ledger_ok c s" for s b
    using that by (auto simp: ledger_ok_def elim!: leases_ok_frame requests_ok_frame)
  show "ledger_ok c s'" if "ledger_ok c s" "adm_change c s s'" for s s'
    using that leases_ok_change requests_ok_change by (auto simp: ledger_ok_def)
  show "ledger_ok c (grant_pending e s p)" if "ledger_ok c s" "select_next_pending c e s = Some p" for e s p
  proof -
    have "0 \<le> pd_reservedMB p" if "requests_ok c s"
      using that \<open>select_next_pending c e s = Some p\<close>
      by (auto simp: requests_ok_def less_imp_le dest: select_next_pending_mem)
    then show ?thesis using that(1) requests_ok_grant select_next_pending_mem [OF that(2)] leases_ok_grant
      unfolding ledger_ok_def by blast
  qed
  show "ledger_ok c (create_lease e s 0 True)" if "ledger_ok c s" for e s
    using that by (simp add: ledger_ok_def leases_ok_create_control)
  have r: "0 \<le> r" if "config_valid c" "normalize_reservation c v = Inr r" for v r
    using normalize_reservation_positive [OF _ that(2)] make_config_valid(1) that(1) by (force simp: config_valid_def)
  show "ledger_ok c (grant_immediate e s r)"
    if "ledger_ok c s" "adm_queue s = []" "can_grant c e s r 0" "normalize_reservation c v = Inr r" for e s r v
  proof -
    let ?s = "s\<lparr> waitCounters := (waitCounters s)\<lparr> admittedTotal := admittedTotal (waitCounters s) + 1 \<rparr> \<rparr>"
    have "config_valid c \<longrightarrow> leases_ok ?s \<and> requests_ok c ?s"
      using that(1) by (auto simp: ledger_ok_def requests_ok_def waiting_ids_def counters_match_def elim: leases_ok_frame)
    then show ?thesis using r that(4) by (auto simp: ledger_ok_def grant_immediate_def intro: leases_ok_create)
  qed
  show "ledger_ok c (create_lease e s r False)" if "ledger_ok c s" "normalize_reservation c v = Inr r" for e s r v
    using that r by (auto simp: ledger_ok_def intro: leases_ok_create)
qed

lemma ledger_run: "config_valid c \<Longrightarrow> leases_ok (run_ops c ops) \<and> requests_ok c (run_ops c ops)"
  using ledger.any_run [of c ops] initial_leases_ok initial_requests_ok make_config_valid(5)
  by (auto simp: ledger_ok_def config_valid_def)


section \<open>What a grant was checked against\<close>

lemma can_grant_iff:
  "can_grant c e s r g \<longleftrightarrow>
     \<not> recoveryPending s \<and> lowMemorySignaled s \<noteq> Some True \<and> get_pressure_level c e s \<noteq> Red \<and>
     \<not> (requireFreshPressureSample c \<and> (case pressure_sample_age e s of None \<Rightarrow> True | Some a \<Rightarrow> pressureSampleMaxAgeMs c < a)) \<and>
     \<not> (get_pressure_level c e s = Yellow \<and> yellowMaxReservationMB c < r) \<and>
     \<not> (admissionMode c = FixedMode \<and> (hardLimitMB c \<le> observedMemoryMB s \<or> admissionLimitMB c < activeReservedMB s + r + g)) \<and>
     \<not> below (projected_physical c e s r g) (if r \<le> yellowMaxReservationMB c then systemHeadroomMB c else yellowPhysicalMemoryMB c) \<and>
     \<not> below (projected_commit c s r g) (if r \<le> yellowMaxReservationMB c then commitCriticalFloorMB c else commitHeadroomMB c)"
  by (auto simp: can_grant_def inspect_admission_def blockers_def Let_def split: option.splits)

lemma aged_reservation_nonneg:
  "config_valid c \<Longrightarrow> 0 < pd_reservedMB p \<Longrightarrow> 0 \<le> compute_aged_reservation c s p w"
  using make_config_valid(1,12)
  by (force simp: config_valid_def compute_aged_reservation_def Let_def)

text \<open>The request that is selected passes the inspection, under a protected amount that is not negative.\<close>

lemma selected_can_grant:
  assumes valid: "config_valid c" and ok: "requests_ok c s" and sel: "select_next_pending c e s = Some p"
  shows "\<exists>g \<ge> 0. can_grant c e s (pd_reservedMB p) g"
proof -
  obtain q qs where q: "live_queue s = q # qs" using sel by (auto simp: select_next_pending_def split: list.splits)
  have "q \<in> set (live_queue s)" by (simp add: q)
  then have "q \<in> set (adm_queue s)" using set_live_queue by blast
  then have "0 < pd_reservedMB q" using ok by (simp add: requests_ok_def)
  then have pos: "0 \<le> compute_aged_reservation c s q (waited_ms e q)" by (rule aged_reservation_nonneg [OF valid])
  then show ?thesis using sel
    by (auto simp: select_next_pending_def q Let_def split: if_splits elim!: find_SomeE intro: exI [of _ 0] exI [of _ "compute_aged_reservation c s q (waited_ms e q)"])
qed

lemma get_startup_reserved_sum: "get_startup_reserved c s = sum_list (map (\<lambda>x. startup_share c s (snd x)) (startupReservations s))"
proof -
  have "foldl (\<lambda>total x. total + startup_share c s (snd x)) a xs = a + sum_list (map (\<lambda>x. startup_share c s (snd x)) xs)"
    for a and xs :: "(nat \<times> startup) list"
    by (induction xs arbitrary: a) auto
  then show ?thesis by (simp add: get_startup_reserved_def)
qed

lemma startup_share_frame:
  assumes "systemSampleAt s' = systemSampleAt s" "systemSampleGeneration s' = systemSampleGeneration s"
  shows "startup_share c s' = startup_share c s"
  unfolding startup_share_def fun_eq_iff assms by simp

lemma map_put_fresh: "map_of m k = None \<Longrightarrow> map_put k v m = m @ [(k, v)]"
  by (induction m) (auto split: if_splits)

lemma startup_reserved_create:
  assumes "leases_ok s"
  shows "get_startup_reserved c (create_lease e s r False) = get_startup_reserved c s + r"
proof -
  have "map_of (startupReservations s) (length (adm_leases s)) = None"
    using assms unfolding leases_ok_def startups_match_def by blast
  then have "startupReservations (create_lease e s r False) = startupReservations s @ [(length (adm_leases s),
      \<lparr> sr_reservedMB = r, startedAt = None, sampleGeneration = systemSampleGeneration s, observedMB = 0,
        coveredObservedMB = 0, observedGeneration = systemSampleGeneration s \<rparr>)]"
    by (simp add: create_lease_def Let_def map_put_fresh)
  moreover have "startup_share c (create_lease e s r False) = startup_share c s"
    by (rule startup_share_frame) (simp_all add: create_lease_def Let_def)
  ultimately show ?thesis by (simp add: get_startup_reserved_sum) (simp add: startup_share_def)
qed

text \<open>
  What holds right after a grant of \<open>r\<close>. The memory left for the system counts every reservation that is not yet
  observed, the new one included. Only in the fixed mode a small request may count the older reservations at a
  fraction, and then the full commit headroom must be there.
\<close>

definition physical_floor :: "adm_config \<Rightarrow> rat \<Rightarrow> rat" where
  "physical_floor c r = (if r \<le> yellowMaxReservationMB c then systemHeadroomMB c else yellowPhysicalMemoryMB c)"

definition commit_floor :: "adm_config \<Rightarrow> rat \<Rightarrow> rat" where
  "commit_floor c r = (if r \<le> yellowMaxReservationMB c then commitCriticalFloorMB c else commitHeadroomMB c)"

definition uses_commit_slack :: "adm_config \<Rightarrow> adm_ctl \<Rightarrow> rat \<Rightarrow> bool" where
  "uses_commit_slack c s r \<longleftrightarrow>
     admissionMode c = FixedMode \<and> r \<le> yellowMaxReservationMB c \<and> lowMemorySignaled s = Some False \<and>
     (\<exists>m. commitAvailableMemoryMB s = Some m \<and> commitHeadroomMB c \<le> m - reserved_not_observed c s)"

definition physical_left :: "adm_config \<Rightarrow> adm_ctl \<Rightarrow> rat \<Rightarrow> rat \<Rightarrow> bool" where
  "physical_left c s r a \<longleftrightarrow>
     physical_floor c r \<le> a - reserved_not_observed c s \<or>
     uses_commit_slack c s r \<and> physical_floor c r \<le> a - smallRequestPhysicalWeight c * reserved_not_observed c s"

definition grant_safe :: "adm_config \<Rightarrow> adm_ctl \<Rightarrow> bool" where
  "grant_safe c s \<longleftrightarrow>
     \<not> recoveryPending s \<and> lowMemorySignaled s \<noteq> Some True \<and>
     (\<forall>a. systemAvailableMemoryMB s = Some a \<longrightarrow> physical_left c s (ls_reservedMB (last (adm_leases s))) a) \<and>
     (\<forall>a. commitAvailableMemoryMB s = Some a \<longrightarrow>
        commit_floor c (ls_reservedMB (last (adm_leases s))) \<le> a - reserved_not_observed c s) \<and>
     (admissionMode c = FixedMode \<longrightarrow> activeReservedMB s \<le> admissionLimitMB c \<and> observedMemoryMB s < hardLimitMB c)"

lemma create_lease_frame [simp]:
  "recoveryPending (create_lease e s r b) = recoveryPending s" "lowMemorySignaled (create_lease e s r b) = lowMemorySignaled s"
  "systemAvailableMemoryMB (create_lease e s r b) = systemAvailableMemoryMB s"
  "commitAvailableMemoryMB (create_lease e s r b) = commitAvailableMemoryMB s"
  "observedMemoryMB (create_lease e s r b) = observedMemoryMB s"
  "activeReservedMB (create_lease e s r b) = (if b then activeReservedMB s else activeReservedMB s + r)"
  "length (adm_leases (create_lease e s r b)) = Suc (length (adm_leases s))"
  by (simp_all add: create_lease_def Let_def)

lemma create_lease_credit [simp]:
  "observedReservationCreditMB (create_lease e s r b) = observedReservationCreditMB s"
  "ls_reservedMB (last (adm_leases (create_lease e s r b))) = r"
  by (simp_all add: create_lease_def Let_def)

text \<open>A new lease adds at most what it reserves to the memory that is not yet observed.\<close>

lemma not_observed_create:
  assumes "leases_ok s" and "0 \<le> r"
  shows "reserved_not_observed c (create_lease e s r False) \<le> reserved_not_observed c s + r"
  using assms(2) startup_reserved_create [OF assms(1), of c e r] by (simp add: reserved_not_observed_def max_def)

lemma grant_safe_create:
  assumes valid: "config_valid c" and ok: "leases_ok s" and can: "can_grant c e s r g" and g: "0 \<le> g" and r: "0 \<le> r"
  shows "grant_safe c (create_lease e' s r False)"
proof -
  let ?s = "create_lease e' s r False"
  note k = can [unfolded can_grant_iff]
  have w: "0 < smallRequestPhysicalWeight c" "smallRequestPhysicalWeight c \<le> 1"
    using valid make_config_valid(7,8) by (auto simp: config_valid_def)
  have n: "reserved_not_observed c ?s \<le> reserved_not_observed c s + r" by (rule not_observed_create [OF ok r])
  have physical: "physical_left c ?s r a" if a: "systemAvailableMemoryMB s = Some a" for a
  proof -
    have p: "physical_floor c r \<le> a - reserved_not_observed c s * physical_weight c e s r g - r - g"
      using k a by (simp add: projected_physical_def below_def physical_floor_def)
    show ?thesis
    proof (cases "physical_weight c e s r g = 1")
      case True
      then show ?thesis using p n g by (simp add: physical_left_def)
    next
      case False
      then have slack: "admissionMode c = FixedMode" "r \<le> yellowMaxReservationMB c" "lowMemorySignaled s = Some False"
        "at_least (projected_commit c s r g) (commitHeadroomMB c)" "physical_weight c e s r g = smallRequestPhysicalWeight c"
        by (auto simp: physical_weight_def Let_def split: if_splits)
      then obtain m where m: "commitAvailableMemoryMB s = Some m" "commitHeadroomMB c \<le> m - reserved_not_observed c s - r - g"
        by (cases "commitAvailableMemoryMB s") (simp_all add: projected_commit_def at_least_def)
      then have "uses_commit_slack c ?s r" using slack(1-3) n g by (simp add: uses_commit_slack_def)
      moreover have "smallRequestPhysicalWeight c * reserved_not_observed c ?s
          \<le> smallRequestPhysicalWeight c * reserved_not_observed c s + r"
      proof -
        have "smallRequestPhysicalWeight c * reserved_not_observed c ?s
            \<le> smallRequestPhysicalWeight c * (reserved_not_observed c s + r)" using n w by (simp add: mult_left_mono)
        also have "\<dots> \<le> smallRequestPhysicalWeight c * reserved_not_observed c s + r"
          using mult_right_mono [OF w(2) r] by (simp add: distrib_left)
        finally show ?thesis .
      qed
      ultimately show ?thesis using p g slack(5) by (simp add: physical_left_def mult.commute)
    qed
  qed
  have commit: "commit_floor c r \<le> a - reserved_not_observed c ?s" if "commitAvailableMemoryMB s = Some a" for a
    using k that n g by (simp add: projected_commit_def below_def commit_floor_def)
  have fixed: "activeReservedMB s + r \<le> admissionLimitMB c \<and> observedMemoryMB s < hardLimitMB c" if "admissionMode c = FixedMode"
    using k that g by (simp add: not_less)
  show ?thesis
    unfolding grant_safe_def using k physical commit fixed by simp
qed

lemma grant_safe_frame:
  assumes "grant_safe c s" "recoveryPending s' = recoveryPending s" "lowMemorySignaled s' = lowMemorySignaled s"
    "systemAvailableMemoryMB s' = systemAvailableMemoryMB s" "commitAvailableMemoryMB s' = commitAvailableMemoryMB s"
    "observedMemoryMB s' = observedMemoryMB s" "activeReservedMB s' = activeReservedMB s"
    "startupReservations s' = startupReservations s" "systemSampleAt s' = systemSampleAt s"
    "systemSampleGeneration s' = systemSampleGeneration s" "observedReservationCreditMB s' = observedReservationCreditMB s"
    "adm_leases s' = adm_leases s"
  shows "grant_safe c s'"
proof -
  have "get_startup_reserved c s' = get_startup_reserved c s"
    using assms startup_share_frame [of s' s c] by (simp add: get_startup_reserved_sum)
  then have "reserved_not_observed c s' = reserved_not_observed c s" using assms by (simp add: reserved_not_observed_def)
  with assms show ?thesis by (simp add: grant_safe_def physical_left_def uses_commit_slack_def)
qed

end
