(* ===== verification/ResourceAdmissionProps.thy ===== *)
theory ResourceAdmissionProps
  imports ResourceAdmissionFacts
begin

text \<open>
  The properties of the admission controller: the two ledgers, the capacity of the fixed mode, the headroom
  that every grant leaves, the completeness and the fairness of draining, and the retry hints.
\<close>

section \<open>Ledgers\<close>

definition demo_options :: adm_options where
  "demo_options =
     \<lparr> opt_admissionMode = Some ''fixed'', opt_startupObservationMs = None, opt_minReservationMB = Some (Fin 64),
       opt_admissionLimitMB = Some (Fin 256), opt_hardLimitMB = None, opt_systemHeadroomMB = None,
       opt_commitHeadroomMB = None, opt_commitCriticalFloorMB = None, opt_yellowPhysicalMemoryMB = None,
       opt_yellowMaxReservationMB = None, opt_smallRequestPhysicalWeight = None, opt_pressureSampleMaxAgeMs = None,
       opt_requireFreshPressureSample = None, opt_maxAgedReservationMB = None, opt_maxQueueSize = Some (Fin 2),
       opt_admissionBudgetMinMs = None, opt_admissionBudgetMaxMs = None, opt_agingThresholdMs = None,
       opt_retrySlotMs = None, opt_maxRetryExponent = None, opt_progressIntervalMs = None \<rparr>"

definition demo_config :: adm_config where
  "demo_config = RESOURCE_ADMISSION_DEFAULTS\<lparr> admissionMode := FixedMode, admissionLimitMB := 256, maxQueueSize := 2 \<rparr>"

definition demo_env :: "rat \<Rightarrow> adm_env" where
  "demo_env t = \<lparr> clock = t, random_value = Fin (1 / 2), signal_set = (\<lambda>_. False) \<rparr>"

definition demo_request :: "string \<Rightarrow> rat \<Rightarrow> adm_request" where
  "demo_request owner m =
     \<lparr> rq_ownerId = Some owner, rq_reservationMB = Some (Fin m), rq_admissionBudgetMs = None, rq_retryAttempt = None,
       rq_signal = None, rq_control = False, rq_progress = False \<rparr>"

text \<open>Two leases fill the limit, a third request waits and is granted when the first lease is released.\<close>

definition demo_ops :: "adm_op list" where
  "demo_ops =
     [OpAcquire (demo_env 0) (demo_request ''a'' 128), OpAcquire (demo_env 1) (demo_request ''b'' 128),
      OpAcquire (demo_env 2) (demo_request ''a'' 100), OpRelease (demo_env 3) 0]"

lemma demo_config: "make_config demo_options = Inr demo_config"
  by code_simp

lemma demo_final:
  "activeReservedMB (run_ops demo_config demo_ops) = 228" "length (adm_leases (run_ops demo_config demo_ops)) = 3"
  by code_simp+

lemma demo_valid: "config_valid demo_config"
  using demo_config by (auto simp: config_valid_def)

text \<open>
  C12: in every run the controller's books are right. \<open>activeReservedMB\<close> and \<open>activeLeases\<close> are the sum and
  the number of the leases that are neither control leases nor released, a startup reservation exists
  for exactly these leases and is at least what the lease reserved, and the peak is never below the present value.
\<close>

theorem admission_lease_ledger:
  assumes "make_config opts = Inr c" and s: "s = run_ops c ops"
  shows "activeReservedMB s = (\<Sum>l \<leftarrow> filter held (adm_leases s). ls_reservedMB l) \<and>
    activeLeases s = int (length (filter held (adm_leases s))) \<and>
    (\<forall>k. map_of (startupReservations s) k \<noteq> None \<longleftrightarrow> k < length (adm_leases s) \<and> held (adm_leases s ! k)) \<and>
    (\<forall>k v. map_of (startupReservations s) k = Some v \<longrightarrow> ls_reservedMB (adm_leases s ! k) \<le> sr_reservedMB v) \<and>
    activeReservedMB s \<le> peakActiveReservedMB s"
proof -
  have ok: "leases_ok s" using ledger_run [of c ops] assms by (auto simp: config_valid_def)
  have "sum_list (map held_share ls) = (\<Sum>l \<leftarrow> filter held ls. ls_reservedMB l)"
    "sum_list (map (\<lambda>l. of_bool (held l)) ls) = int (length (filter held ls))" for ls
    by (induction ls) (auto simp: held_share_def)
  with ok show ?thesis unfolding leases_ok_def startups_match_def by metis
qed

lemma admission_lease_ledger_witness:
  "activeReservedMB (run_ops demo_config demo_ops) = (\<Sum>l \<leftarrow> filter held (adm_leases (run_ops demo_config demo_ops)). ls_reservedMB l) \<and>
    activeReservedMB (run_ops demo_config demo_ops) = 228"
  using admission_lease_ledger [OF demo_config refl, of demo_ops] demo_final by blast

text \<open>
  C13: no promise is lost or settled twice. Every number handed out to a queued request is either in the queue or
  has exactly one outcome; the queue is never longer than \<open>maxQueueSize\<close>; and the wait counters add up.
\<close>

theorem admission_promises_settled_once:
  assumes "make_config opts = Inr c" and s: "s = run_ops c ops"
  shows "mset (map pd_id (adm_queue s)) + mset (map fst (adm_outcomes s)) = mset [1..<nextRequestId s] \<and>
    int (length (adm_queue s)) \<le> maxQueueSize c \<and>
    queuedTotal (waitCounters s) = completedTotal (waitCounters s) + length (adm_queue s) \<and>
    completedTotal (waitCounters s)
      = admittedAfterWait (waitCounters s) + cancelledTotal (waitCounters s) + timedOutTotal (waitCounters s)"
  using ledger_run [of c ops] assms
  unfolding config_valid_def requests_ok_def waiting_ids_def counters_match_def by blast

lemma admission_promises_settled_once_witness:
  "mset (map pd_id (adm_queue (run_ops demo_config demo_ops))) + mset (map fst (adm_outcomes (run_ops demo_config demo_ops)))
     = mset [1..<nextRequestId (run_ops demo_config demo_ops)] \<and> nextRequestId (run_ops demo_config demo_ops) = 2"
proof -
  have "nextRequestId (run_ops demo_config demo_ops) = 2" by code_simp
  then show ?thesis using admission_promises_settled_once [OF demo_config refl, of demo_ops] by blast
qed

section \<open>Capacity\<close>

definition within_limit :: "adm_config \<Rightarrow> adm_ctl \<Rightarrow> bool" where
  "within_limit c s \<longleftrightarrow> ledger_ok c s \<and>
     (config_valid c \<longrightarrow> admissionMode c = FixedMode \<longrightarrow> activeReservedMB s \<le> admissionLimitMB c)"

lemma grant_pending_active: "activeReservedMB (grant_pending e s p) = activeReservedMB s + pd_reservedMB p"
  by (simp add: grant_pending_def finish_pending_def record_completed_wait_def settle_def Let_def)

lemma adm_change_active:
  assumes ch: "adm_change c s s'" and ok: "leases_ok s"
  shows "activeReservedMB s' \<le> activeReservedMB s"
proof -
  have pos: "0 \<le> activeReservedMB s" using ok held_share_nonneg unfolding leases_ok_def by auto
  have freed: "activeReservedMB (released_state s k) \<le> activeReservedMB s" if "k < length (adm_leases s)" for k
    using pos ok that by (simp add: released_state_def leases_ok_def Let_def)
  have "activeReservedMB (mark_started e s k) = activeReservedMB s" "activeReservedMB (observe_lease e s k m) = activeReservedMB s"
    for e k m by (simp_all add: mark_started_def observe_lease_def Let_def split: option.splits)
  with ch freed show ?thesis by cases (simp_all add: refuse_pending_fields enqueue_request_def Let_def)
qed

interpretation capacity: admission_law c "within_limit c" for c
proof
  show "within_limit c (s\<lparr>draining := b\<rparr>)" if "within_limit c s" for s b
    using that ledger.flag by (simp add: within_limit_def)
  show "within_limit c s'" if "within_limit c s" "adm_change c s s'" for s s'
  proof -
    have "ledger_ok c s'" using that ledger.change unfolding within_limit_def by blast
    moreover have "config_valid c \<Longrightarrow> activeReservedMB s' \<le> activeReservedMB s"
      using adm_change_active [OF that(2)] that(1) by (simp add: within_limit_def ledger_ok_def)
    ultimately show ?thesis using that(1) by (auto simp: within_limit_def)
  qed
  show "within_limit c (grant_pending e s p)" if "within_limit c s" "select_next_pending c e s = Some p" for e s p
  proof -
    have "ledger_ok c (grant_pending e s p)" using that ledger.grant unfolding within_limit_def by blast
    moreover have "\<exists>g \<ge> 0. can_grant c e s (pd_reservedMB p) g" if "config_valid c"
      using selected_can_grant [OF that _ \<open>select_next_pending c e s = Some p\<close>] that \<open>within_limit c s\<close>
      by (simp add: within_limit_def ledger_ok_def)
    ultimately show ?thesis by (auto simp: within_limit_def can_grant_iff grant_pending_active)
  qed
  show "within_limit c (create_lease e s 0 True)" if "within_limit c s" for e s
    using that ledger.control by (simp add: within_limit_def)
  show "within_limit c (grant_immediate e s r)"
    if "within_limit c s" "adm_queue s = []" "can_grant c e s r 0" "normalize_reservation c v = Inr r" for e s r v
    using that ledger.immediate [OF _ that(2-4)] by (auto simp: within_limit_def can_grant_iff grant_immediate_def)
qed

text \<open>
  C10: in the fixed mode the reservations of a controller that adopts no running process never exceed
  \<open>admissionLimitMB\<close>, whatever the order of requests, releases, samples, timeouts and aborts.
\<close>

theorem fixed_mode_capacity:
  assumes "make_config opts = Inr c" and "admissionMode c = FixedMode" and "\<not> list_ex adopts ops"
  shows "activeReservedMB (run_ops c ops) \<le> admissionLimitMB c"
proof -
  have valid: "config_valid c" using assms(1) by (auto simp: config_valid_def)
  have "within_limit c initial_ctl"
    using initial_leases_ok initial_requests_ok make_config_valid(3,5) [OF assms(1)]
    by (auto simp: within_limit_def ledger_ok_def initial_ctl_def)
  then have "within_limit c (run_ops c ops)" using assms(3) by (rule capacity.served_run)
  then show ?thesis using assms(2) valid by (simp add: within_limit_def)
qed

lemma fixed_mode_capacity_witness: "activeReservedMB (run_ops demo_config demo_ops) \<le> 256"
proof -
  have "admissionMode demo_config = FixedMode" "\<not> list_ex adopts demo_ops" "admissionLimitMB demo_config = 256"
    by (simp_all add: demo_config_def demo_ops_def)
  then show ?thesis using fixed_mode_capacity [OF demo_config, of demo_ops] by simp
qed


section \<open>Headroom\<close>

lemma adm_change_leases: "adm_change c s s' \<Longrightarrow> length (adm_leases s') = length (adm_leases s)"
  by (erule adm_change.cases)
    (simp_all add: refuse_pending_fields enqueue_request_def released_state_def mark_started_def observe_lease_def Let_def
      split: option.splits)

lemma grant_safe_refuse: "grant_safe c s \<Longrightarrow> grant_safe c (refuse_pending c e s p code)"
  by (erule grant_safe_frame) (simp_all add: refuse_pending_fields, simp_all add: pending_defs)

lemma grant_safe_grant:
  assumes valid: "config_valid c" and ok: "leases_ok s" "requests_ok c s" and sel: "select_next_pending c e s = Some p"
  shows "grant_safe c (grant_pending e s p)"
proof -
  obtain g where g: "0 \<le> g" "can_grant c e s (pd_reservedMB p) g" using selected_can_grant [OF valid ok(2) sel] by blast
  have "grant_safe c (create_lease e s (pd_reservedMB p) False)" 
    by (rule grant_safe_create [OF valid ok(1) g(2,1)]) (use ok(2) select_next_pending_mem [OF sel] in \<open>auto simp: requests_ok_def\<close>)
  then show ?thesis by (rule grant_safe_frame) (simp_all add: pending_defs)
qed

lemma drain_grants_safely:
  assumes valid: "config_valid c" and ok: "ledger_ok c s" and n: "length (adm_leases s) = n"
    and new: "n < length (adm_leases (drain_queue c e s))"
  shows "grant_safe c (drain_queue c e s)"
proof -
  let ?P = "\<lambda>t. ledger_ok c t \<and> (n < length (adm_leases t) \<longrightarrow> grant_safe c t)"
  have "?P (drain_loop c e (s\<lparr> draining := True \<rparr>))"
  proof (rule drain_loop_invariant [of ?P])
    show "?P (s\<lparr>draining := True\<rparr>)" using ok n ledger.flag by simp
    show "?P (refuse_pending c e t p Admission_aborted)" if "?P t" "p \<in> set (adm_queue t)" for t p
      using that ledger.change adm_change.refused [of p t Admission_aborted c e] grant_safe_refuse
      by (simp add: refuse_pending_fields) blast
    show "?P (grant_pending e t p)" if "?P t" "select_next_pending c e t = Some p" for t p
      using that valid ledger.grant [OF _ that(2)] grant_safe_grant [OF valid _ _ that(2)] by (simp add: ledger_ok_def)
  qed
  then show ?thesis using new n by (auto simp: drain_queue_def elim!: grant_safe_frame split: if_splits)
qed

text \<open>
  C11: every operation of a run that grants leases, at once or from the queue, leaves the machine its headroom, in
  both modes. Afterwards no recovery is pending and no low-memory signal is set, and when every reservation that is
  not yet observed is used in full, the physical and the commit memory that stay are at least the floors for the last
  lease granted: the system headroom and the critical commit floor for a small one, the yellow limit and the whole
  commit headroom for a large one. The one exception is the fixed mode's for small requests: with the whole commit
  headroom left and a sample without low memory, reservations count towards the physical floor by a fraction only. In
  the fixed mode the reservations also stay within the limit and the observed memory below the hard limit.
\<close>

theorem grant_leaves_headroom:
  assumes c: "make_config opts = Inr c" and s: "s = run_ops c ops" and x: "\<not> adopts x" and s': "s' = run_op c s x"
    and new: "l \<in> set (drop (length (adm_leases s)) (adm_leases s'))" "\<not> ls_control l"
    and r: "r = ls_reservedMB (last (adm_leases s'))"
  shows "\<not> recoveryPending s' \<and> lowMemorySignaled s' \<noteq> Some True \<and>
     (\<forall>a. systemAvailableMemoryMB s' = Some a \<longrightarrow>
        (if r \<le> yellowMaxReservationMB c then systemHeadroomMB c else yellowPhysicalMemoryMB c) \<le> a - reserved_not_observed c s' \<or>
        admissionMode c = FixedMode \<and> r \<le> yellowMaxReservationMB c \<and> lowMemorySignaled s' = Some False \<and>
        (\<exists>m. commitAvailableMemoryMB s' = Some m \<and> commitHeadroomMB c \<le> m - reserved_not_observed c s') \<and>
        systemHeadroomMB c \<le> a - smallRequestPhysicalWeight c * reserved_not_observed c s') \<and>
     (\<forall>a. commitAvailableMemoryMB s' = Some a \<longrightarrow>
        (if r \<le> yellowMaxReservationMB c then commitCriticalFloorMB c else commitHeadroomMB c) \<le> a - reserved_not_observed c s') \<and>
     (admissionMode c = FixedMode \<longrightarrow> activeReservedMB s' \<le> admissionLimitMB c \<and> observedMemoryMB s' < hardLimitMB c)"
proof -
  have valid: "config_valid c" using c by (auto simp: config_valid_def)
  have ok: "leases_ok s" "requests_ok c s" using ledger_run [OF valid] s by blast+
  have len: "length (adm_leases s) < length (adm_leases s')" using new(1) by (metis drop_all empty_iff list.set(1) not_less)
  have "grant_safe c s'"
  proof (rule served_op_shape [OF x, of c s])
    assume "changes c s (run_op c s x)"
    then obtain s1 e where ch: "adm_change c s s1" and "s' = s1 \<or> s' = drain_queue c e s1" by (auto simp: changes_def s')
    moreover note adm_change_leases [OF ch]
    moreover have "ledger_ok c s1" by (rule ledger.change [OF _ ch]) (simp add: ledger_ok_def ok)
    ultimately show ?thesis using drain_grants_safely [OF valid, of s1 "length (adm_leases s)" e] len by auto
  next
    fix e assume "run_op c s x = create_lease e s 0 True"
    then show ?thesis using new by (simp add: s' create_lease_def Let_def)
  next
    fix e v q assume can: "can_grant c e s q 0" and n: "normalize_reservation c v = Inr q" and eq: "run_op c s x = grant_immediate e s q"
    have "0 < q" by (rule normalize_reservation_positive [OF make_config_valid(1) [OF c] n])
    then have "grant_safe c (create_lease e s q False)"
      by (intro grant_safe_create [OF valid ok(1) can order_refl]) simp
    then show ?thesis by (rule grant_safe_frame) (simp_all add: s' eq grant_immediate_def create_lease_def Let_def)
  qed
  then show ?thesis
    unfolding r by (auto simp: grant_safe_def physical_left_def uses_commit_slack_def physical_floor_def commit_floor_def)
qed

text \<open>
  A run in the watermark mode: a sample reports 2000 MB of physical and 6000 MB of commit memory, two requests of
  100 MB are granted at once, and a large one is granted after the first lease has been released.
\<close>

definition watermark_config :: adm_config where
  "watermark_config = RESOURCE_ADMISSION_DEFAULTS\<lparr> maxQueueSize := 2 \<rparr>"

definition watermark_options :: adm_options where
  "watermark_options = demo_options\<lparr> opt_admissionMode := None, opt_admissionLimitMB := None \<rparr>"

lemma watermark_config: "make_config watermark_options = Inr watermark_config"
  by code_simp

definition watermark_ops :: "adm_op list" where
  "watermark_ops =
     [OpSystemPressure (demo_env 0) \<lparr> ps_systemAvailableMemoryMB = Fin 2000, ps_commitAvailableMemoryMB = Fin 6000,
        ps_highMemorySignaled = True, ps_lowMemorySignaled = False \<rparr>,
      OpAcquire (demo_env 1) (demo_request ''a'' 100), OpAcquire (demo_env 2) (demo_request ''b'' 100),
      OpAcquire (demo_env 3) (demo_request ''a'' 300)]"

definition watermark_release :: adm_op where
  "watermark_release = OpRelease (demo_env 4) 0"

lemma grant_leaves_headroom_witness:
  "let s = run_ops watermark_config watermark_ops; s' = run_op watermark_config s watermark_release
   in length (adm_leases s) = 2 \<and> length (adm_leases s') = 3 \<and> reserved_not_observed watermark_config s' = 400 \<and>
      (1536 :: rat) \<le> 2000 - reserved_not_observed watermark_config s' \<and>
      (4096 :: rat) \<le> 6000 - reserved_not_observed watermark_config s'"
proof -
  define s where "s = run_ops watermark_config watermark_ops"
  define s' where "s' = run_op watermark_config s watermark_release"
  have f: "length (adm_leases s) = 2" "length (adm_leases s') = 3" "\<not> ls_control (adm_leases s' ! 2)"
    "ls_reservedMB (last (adm_leases s')) = 300" "systemAvailableMemoryMB s' = Some 2000" "commitAvailableMemoryMB s' = Some 6000"
    "reserved_not_observed watermark_config s' = 400"
    unfolding s'_def s_def by code_simp+
  have "adm_leases s' ! 2 \<in> set (drop (length (adm_leases s)) (adm_leases s'))"
    using f(1,2) Cons_nth_drop_Suc [of 2 "adm_leases s'", symmetric] by simp
  then have "(if 300 \<le> yellowMaxReservationMB watermark_config then systemHeadroomMB watermark_config
        else yellowPhysicalMemoryMB watermark_config) \<le> 2000 - reserved_not_observed watermark_config s' \<or>
      admissionMode watermark_config = FixedMode"
    "(if 300 \<le> yellowMaxReservationMB watermark_config then commitCriticalFloorMB watermark_config
        else commitHeadroomMB watermark_config) \<le> 6000 - reserved_not_observed watermark_config s'"
    using grant_leaves_headroom [OF watermark_config s_def _ s'_def _ f(3) refl] f(4-6) by (auto simp: watermark_release_def)
  moreover have "yellowMaxReservationMB watermark_config = 192" "yellowPhysicalMemoryMB watermark_config = 1536"
    "commitHeadroomMB watermark_config = 4096" "admissionMode watermark_config = Watermark"
    by (simp_all add: watermark_config_def RESOURCE_ADMISSION_DEFAULTS_def)
  ultimately show ?thesis unfolding Let_def s_def [symmetric] s'_def [symmetric] using f(1,2,7) by simp
qed

section \<open>Draining\<close>

lemma flag_frame [simp]:
  "get_startup_reserved c (s\<lparr>draining := b\<rparr>) = get_startup_reserved c s"
  "get_pressure_level c e (s\<lparr>draining := b\<rparr>) = get_pressure_level c e s"
  "pressure_sample_age e (s\<lparr>draining := b\<rparr>) = pressure_sample_age e s"
  "compute_aged_reservation c (s\<lparr>draining := b\<rparr>) p w = compute_aged_reservation c s p w"
  "visit_order (s\<lparr>draining := b\<rparr>) live = visit_order s live" "live_queue (s\<lparr>draining := b\<rparr>) = live_queue s"
  by (simp_all add: get_startup_reserved_sum startup_share_frame [of "s\<lparr>draining := b\<rparr>" s] get_pressure_level_def pressure_sample_age_def
      compute_aged_reservation_def visit_order_def live_queue_def)

lemma flag_frame' [simp]:
  "reserved_not_observed c (s\<lparr>draining := b\<rparr>) = reserved_not_observed c s"
  "projected_commit c (s\<lparr>draining := b\<rparr>) r g = projected_commit c s r g"
  by (simp_all add: reserved_not_observed_def projected_commit_def)

lemma can_grant_flag [simp]: "can_grant c e (s\<lparr>draining := b\<rparr>) r g = can_grant c e s r g"
  by (simp add: can_grant_iff projected_physical_def physical_weight_def)

lemma select_flag [simp]: "select_next_pending c e (s\<lparr>draining := b\<rparr>) = select_next_pending c e s"
  unfolding select_next_pending_def can_grant_flag flag_frame ..

lemma drain_loop_done: "select_next_pending c e (drain_loop c e s) = None"
proof (induction "length (adm_queue s)" arbitrary: s rule: less_induct)
  case less
  show ?case
  proof (cases "select_next_pending c e s")
    case None
    then show ?thesis by (simp add: drain_loop.simps [of c e s])
  next
    case (Some p)
    then have mem: "p \<in> set (adm_queue s)" by (rule select_next_pending_mem)
    have "select_next_pending c e (drain_loop c e t) = None" if "adm_queue t = remove_first (pd_id p) (adm_queue s)" for t
      by (rule less) (simp add: that length_remove_first [OF mem])
    then show ?thesis using Some mem by (auto simp: drain_loop.simps [of c e s])
  qed
qed

lemma owner_queues_distinct: "distinct (map fst (owner_queues live))"
proof -
  have "distinct (map fst (foldl (\<lambda>m p. map_put (pd_ownerId p) (queue_of m (pd_ownerId p) @ [p]) m) m live))"
    if "distinct (map fst m)" for m
    using that by (induction live arbitrary: m) (auto simp: distinct_map_put)
  then show ?thesis by (simp add: owner_queues_def)
qed

text \<open>The loops visit every waiting request: the offsets run over all positions of the owners.\<close>

lemma rotation_reaches:
  fixes j k n :: nat
  assumes "j < n" "k < n"
  shows "(k + (j + n - k)) mod n = j" "(j + n - k) mod n < n" "(k + (j + n - k) mod n) mod n = j"
proof -
  have "k + (j + n - k) = j + n" using assms by linarith
  then show *: "(k + (j + n - k)) mod n = j" using assms by simp
  show "(j + n - k) mod n < n" using assms by simp
  show "(k + (j + n - k) mod n) mod n = j" using mod_add_right_eq [of k "j + n - k" n] * by simp
qed

lemma set_visit_order: "set (visit_order s live) = set live"
proof
  show "set live \<subseteq> set (visit_order s live)"
  proof
    fix p assume p: "p \<in> set live"
    let ?owners = "map fst (owner_queues live)" and ?k = "start_index (lastGrantedOwnerId s) (map fst (owner_queues live))"
    have "pd_ownerId p \<in> set ?owners" using p by (simp only: set_owners) simp
    then obtain j where j: "j < length ?owners" "?owners ! j = pd_ownerId p" by (auto simp only: in_set_conv_nth)
    have "0 < length ?owners" using j(1) by linarith
    then have k: "?k < length ?owners" by (simp only: start_index_def Let_def) (simp split: if_splits)
    let ?off = "(j + length ?owners - ?k) mod length ?owners"
    have "?off < length ?owners" "?owners ! ((?k + ?off) mod length ?owners) = pd_ownerId p"
      using rotation_reaches [OF j(1) k] j(2) by simp_all
    with p show "p \<in> set (visit_order s live)"
      by (auto simp: visit_order_def Let_def queue_of_owner_queues intro!: bexI [of _ ?off])
  qed
qed (rule set_visit_order_subset)

text \<open>
  C14: draining is complete. When \<open>drainQueue\<close> returns, every request that still waits is blocked: it fails the
  inspection, the oldest for itself and every other under the amount protected for the oldest, which is zero in
  the watermark mode.
\<close>

theorem drain_leaves_only_blocked:
  assumes "\<not> draining s" and s': "s' = drain_queue c e s" and live: "live_queue s' = oldest # rest"
  shows "blockers c e s' (pd_reservedMB oldest) 0 \<noteq> [] \<and>
    list_all (\<lambda>p. pd_id p = pd_id oldest \<or>
      blockers c e s' (pd_reservedMB p) (compute_aged_reservation c s' oldest (waited_ms e oldest)) \<noteq> []) rest"
proof -
  have sel: "select_next_pending c e s' = None" using assms(1) by (simp add: s' drain_queue_def drain_loop_done)
  have blocked: "\<not> can_grant c e s' (pd_reservedMB p)
      (if pd_id p = pd_id oldest then 0 else compute_aged_reservation c s' oldest (waited_ms e oldest))"
    if "p \<in> set (oldest # rest)" for p
    using sel that set_visit_order [of s' "oldest # rest"]
    by (auto simp: select_next_pending_def live Let_def find_None_iff split: if_splits)
  have "blockers c e s' (pd_reservedMB oldest) 0 \<noteq> []"
    using blocked [of oldest] by (simp add: can_grant_def inspect_admission_def)
  moreover have "pd_id p = pd_id oldest \<or>
      blockers c e s' (pd_reservedMB p) (compute_aged_reservation c s' oldest (waited_ms e oldest)) \<noteq> []" if "p \<in> set rest" for p
    using blocked [of p] that by (auto simp: can_grant_def inspect_admission_def)
  ultimately show ?thesis by (simp add: list_all_iff)
qed

lemma drain_leaves_only_blocked_witness:
  "\<exists>s. adm_queue (drain_queue demo_config (demo_env 9) s) \<noteq> [] \<and>
     blockers demo_config (demo_env 9) (drain_queue demo_config (demo_env 9) s) 100 0 \<noteq> []"
proof -
  let ?s = "run_ops demo_config (butlast demo_ops)" and ?e = "demo_env 9"
  have ne: "map pd_reservedMB (live_queue (drain_queue demo_config ?e ?s)) = [100]" and d: "\<not> draining ?s"
    by code_simp+
  then obtain p where p: "live_queue (drain_queue demo_config ?e ?s) = [p]" "pd_reservedMB p = 100" by auto
  from drain_leaves_only_blocked [OF d refl p(1)] p(2)
  have "blockers demo_config ?e (drain_queue demo_config ?e ?s) 100 0 \<noteq> []" by simp
  moreover have "adm_queue (drain_queue demo_config ?e ?s) \<noteq> []" using p(1) by (auto simp: live_queue_def)
  ultimately show ?thesis by blast
qed


section \<open>Fairness\<close>

lemma index_of_visited: "0 \<le> index_of x xs \<longleftrightarrow> x \<in> set xs" "x \<in> set xs \<Longrightarrow> nat (index_of x xs) < length xs \<and> xs ! nat (index_of x xs) = x"
proof -
  show 1: "0 \<le> index_of x xs \<longleftrightarrow> x \<in> set xs" for xs by (induction xs) (auto simp: Let_def)
  show "x \<in> set xs \<Longrightarrow> nat (index_of x xs) < length xs \<and> xs ! nat (index_of x xs) = x"
  proof (induction xs)
    case (Cons y ys)
    show ?case
    proof (cases "x = y")
      case False
      with Cons have "0 \<le> index_of x ys" "x \<in> set ys" using 1 by auto
      with Cons.IH False show ?thesis by (auto simp: Let_def nat_add_distrib)
    qed simp
  qed simp
qed

lemma find_appendE:
  assumes "find P (xs @ ys) = Some p" "p \<notin> set xs" "q \<in> set xs"
  shows "\<not> P q"
  using assms by (induction xs) (auto split: if_splits)

text \<open>After a grant to an owner, that owner's waiting requests come last in the visiting order.\<close>

lemma visit_order_last_owner:
  assumes last: "lastGrantedOwnerId s = Some w" and w: "w \<in> pd_ownerId ` set live"
  obtains xs where "visit_order s live = xs @ filter (\<lambda>p. pd_ownerId p = w) live"
    "\<forall>p \<in> set xs. pd_ownerId p \<noteq> w"
proof -
  let ?owners = "map fst (owner_queues live)" and ?n = "length (owner_queues live)"
  let ?i = "nat (index_of w ?owners)"
  let ?group = "\<lambda>off. filter (\<lambda>p. pd_ownerId p = ?owners ! ((Suc ?i mod ?n + off) mod ?n)) live"
  have "w \<in> set ?owners" using w by (simp only: set_owners)
  then have i: "0 \<le> index_of w ?owners" "?i < ?n" "?owners ! ?i = w" using index_of_visited [of w ?owners] by auto
  have start: "start_index (lastGrantedOwnerId s) ?owners = Suc ?i mod ?n"
    using i(1) by (simp add: start_index_def last Let_def nat_add_distrib)
  have order: "visit_order s live = concat (map ?group [0..<?n])"
    by (simp only: visit_order_def Let_def start queue_of_owner_queues length_map)
  have at: "(Suc ?i mod ?n + off) mod ?n = (Suc ?i + off) mod ?n" for off by (rule mod_add_left_eq)
  have "[0..<?n] = [0..<?n - 1] @ [?n - 1]" using i(2) by (metis Suc_pred' gr_zeroI less_nat_zero_code upt_Suc_append zero_le)
  moreover have "?group (?n - 1) = filter (\<lambda>p. pd_ownerId p = w) live"
  proof -
    have "Suc ?i + (?n - 1) = ?i + ?n" using i(2) by linarith
    then have "(Suc ?i mod ?n + (?n - 1)) mod ?n = ?i" unfolding at using i(2) by simp
    then show ?thesis by (simp only: i(3))
  qed
  ultimately have "visit_order s live = concat (map ?group [0..<?n - 1]) @ filter (\<lambda>p. pd_ownerId p = w) live"
    unfolding order by simp
  moreover have "pd_ownerId p \<noteq> w" if "p \<in> set (?group off)" "off < ?n - 1" for p off
  proof
    assume "pd_ownerId p = w"
    with that(1) i(3) have "?owners ! ((Suc ?i + off) mod ?n) = ?owners ! ?i" by (simp add: at)
    moreover have "(Suc ?i + off) mod ?n < ?n"
      using i(2) by (metis gr_zeroI less_nat_zero_code mod_less_divisor)
    ultimately have "(Suc ?i + off) mod ?n = ?i"
      using nth_eq_iff_index_eq [OF owner_queues_distinct, of "(Suc ?i + off) mod ?n" live ?i] i(2) by (simp only: length_map)
    moreover have "(Suc ?i + off) mod ?n = (if Suc ?i + off < ?n then Suc ?i + off else Suc ?i + off - ?n)"
      using i(2) that(2) by (simp add: mod_if)
    ultimately show False using i(2) that(2) by (auto split: if_splits)
  qed
  ultimately show thesis using that [of "concat (map ?group [0..<?n - 1])"] by auto
qed


text \<open>
  owners take turns. An owner that was served last is served again only when no waiting request of another
  owner can be granted, except that the oldest request goes first once it has waited for \<open>agingThresholdMs\<close>
  and can be granted.
\<close>

theorem owners_take_turns:
  assumes sel: "select_next_pending c e s = Some p" and again: "lastGrantedOwnerId s = Some (pd_ownerId p)"
    and live: "live_queue s = oldest # rest"
    and not_aged: "\<not> (agingThresholdMs c \<le> waited_ms e oldest \<and> can_grant c e s (pd_reservedMB oldest) 0)"
    and q: "q \<in> set (live_queue s)" "pd_ownerId q \<noteq> pd_ownerId p"
  shows "\<not> can_grant c e s (pd_reservedMB q)
     (if pd_id q = pd_id oldest then 0 else compute_aged_reservation c s oldest (waited_ms e oldest))"
proof -
  let ?P = "\<lambda>r. can_grant c e s (pd_reservedMB r)
     (if pd_id r = pd_id oldest then 0 else compute_aged_reservation c s oldest (waited_ms e oldest))"
  have find: "find ?P (visit_order s (live_queue s)) = Some p"
    using sel not_aged by (auto simp: select_next_pending_def live Let_def)
  then have "p \<in> set (live_queue s)" using set_visit_order by (metis find_SomeE)
  then have "pd_ownerId p \<in> pd_ownerId ` set (live_queue s)" by simp
  then obtain xs where order: "visit_order s (live_queue s) = xs @ filter (\<lambda>r. pd_ownerId r = pd_ownerId p) (live_queue s)"
    and xs: "\<forall>r \<in> set xs. pd_ownerId r \<noteq> pd_ownerId p"
    by (rule visit_order_last_owner [OF again])
  have "q \<in> set xs" using q set_visit_order [of s "live_queue s"] unfolding order by auto
  moreover have "p \<notin> set xs" using xs by blast
  ultimately show ?thesis using find_appendE [OF find [unfolded order]] by blast
qed

text \<open>Owner \<open>a\<close> was served last and is served again: the request of \<open>b\<close> does not fit.\<close>

definition turn_state :: adm_ctl where
  "turn_state =
     enqueue_request demo_config (demo_env 4)
       (run_ops demo_config
         [OpAcquire (demo_env 0) (demo_request ''a'' 256), OpAcquire (demo_env 1) (demo_request ''a'' 100),
          OpAcquire (demo_env 2) (demo_request ''b'' 200), OpRelease (demo_env 3) 0])
       (demo_request ''a'' 90) 90 9000"

lemma owners_take_turns_witness:
  "\<exists>q. q \<in> set (live_queue turn_state) \<and> pd_ownerId q = ''b'' \<and>
     \<not> can_grant demo_config (demo_env 5) turn_state (pd_reservedMB q) 0"
proof -
  let ?e = "demo_env 5"
  have facts: "lastGrantedOwnerId turn_state = Some ''a''" "map pd_ownerId (live_queue turn_state) = [''b'', ''a'']"
    "map_option pd_ownerId (select_next_pending demo_config ?e turn_state) = Some ''a''"
    "map (waited_ms ?e) (live_queue turn_state) = [3, 1]"
    by code_simp+
  from facts(2) obtain q r where live: "live_queue turn_state = [q, r]" and q: "pd_ownerId q = ''b''"
    by (auto simp: map_eq_Cons_conv)
  from facts(3) obtain p where p: "select_next_pending demo_config ?e turn_state = Some p" "pd_ownerId p = ''a''" by auto
  have "\<not> agingThresholdMs demo_config \<le> waited_ms ?e q"
    using facts(4) live by (simp add: demo_config_def RESOURCE_ADMISSION_DEFAULTS_def)
  with owners_take_turns [OF p(1) _ live, of q] facts(1) p(2) live q show ?thesis by auto
qed

lemma outcomes_grow: "set (adm_outcomes s) \<subseteq> set (adm_outcomes (drain_loop c e s))"
  by (rule drain_loop_invariant [of "\<lambda>t. set (adm_outcomes s) \<subseteq> set (adm_outcomes t)"])
    (auto simp: refuse_pending_fields grant_pending_def finish_pending_def record_completed_wait_def settle_def
      create_lease_def Let_def)

text \<open>
  C15: no starvation by smaller requests. When the oldest request has waited for \<open>agingThresholdMs\<close>, passes the
  inspection and is not aborted, the next drain grants it, before and regardless of all others.
\<close>

theorem aged_oldest_is_granted:
  assumes "\<not> draining s" and live: "live_queue s = oldest # rest"
    and aged: "agingThresholdMs c \<le> clock e - enqueuedAt oldest" "0 \<le> agingThresholdMs c"
    and can: "blockers c e s (pd_reservedMB oldest) 0 = []" and signal: "\<not> signal_aborted e (pd_signal oldest)"
  shows "(pd_id oldest, Granted (length (adm_leases s))) \<in> set (adm_outcomes (drain_queue c e s))"
proof -
  let ?s = "s\<lparr>draining := True\<rparr>"
  have sel: "select_next_pending c e ?s = Some oldest"
  proof -
    have "can_grant c e s (pd_reservedMB oldest) 0" using can by (simp add: can_grant_def inspect_admission_def)
    then show ?thesis using aged by (simp add: select_next_pending_def live Let_def waited_ms_def)
  qed
  have "adm_queue ?s \<noteq> []" using live by (auto simp: live_queue_def)
  then have "drain_loop c e ?s = drain_loop c e (grant_pending e ?s oldest)"
    using sel signal by (simp add: drain_loop.simps [of c e ?s])
  moreover have "(pd_id oldest, Granted (length (adm_leases s))) \<in> set (adm_outcomes (grant_pending e ?s oldest))"
    by (simp add: pending_defs)
  ultimately show ?thesis using outcomes_grow assms(1) by (auto simp: drain_queue_def)
qed

lemma aged_oldest_is_granted_witness:
  "(2, Granted 2) \<in> set (adm_outcomes (drain_queue demo_config (demo_env 5000) (turn_state\<lparr>activeReservedMB := 0\<rparr>)))"
proof -
  let ?s = "turn_state\<lparr>activeReservedMB := 0\<rparr>" and ?e = "demo_env 5000"
  have facts: "\<not> draining ?s" "map pd_id (live_queue ?s) = [2, 3]" "map enqueuedAt (live_queue ?s) = [2, 4]"
    "map (\<lambda>p. blockers demo_config ?e ?s (pd_reservedMB p) 0) (live_queue ?s) = [[], []]"
    "map pd_signal (live_queue ?s) = [None, None]" "length (adm_leases ?s) = 2"
    by code_simp+
  then obtain p q where live: "live_queue ?s = [p, q]" by (auto simp: map_eq_Cons_conv)
  have "agingThresholdMs demo_config = 1000" "clock ?e = 5000"
    by (simp_all add: demo_config_def RESOURCE_ADMISSION_DEFAULTS_def demo_env_def)
  with aged_oldest_is_granted [OF facts(1) live] facts(2-6) live show ?thesis by (simp add: signal_aborted_def)
qed

section \<open>Randomised hints\<close>

lemma safe_random_range: "0 \<le> safe_random e" "safe_random e < 1"
  by (auto simp: safe_random_def split: option.splits)

text \<open>
  A retry hint is a whole number of slots below \<open>2 ^ maxRetryExponent\<close>. The attempt count is not validated,
  and the one count without such a hint is \<open>NaN\<close>, which the code passes on.
\<close>

theorem retry_hint_bounds:
  assumes "make_config opts = Inr c"
  shows "(attempt = Some NaN \<and> compute_retry_after c e attempt = NaN) \<or>
    (\<exists>k. compute_retry_after c e attempt = Fin (of_int k * retrySlotMs c) \<and> 0 \<le> k \<and> k < 2 ^ nat (maxRetryExponent c))"
proof (cases "retry_exponent (maxRetryExponent c) attempt")
  case None
  then have "attempt = Some NaN" by (cases "(maxRetryExponent c, attempt)" rule: retry_exponent.cases) auto
  then show ?thesis using None by (simp add: compute_retry_after_def)
next
  case (Some x)
  have "x \<le> maxRetryExponent c"
    using Some by (cases "(maxRetryExponent c, attempt)" rule: retry_exponent.cases) auto
  then have le: "(2::rat) ^ nat x \<le> 2 ^ nat (maxRetryExponent c)" by (intro power_increasing) auto
  let ?k = "\<lfloor>safe_random e * 2 ^ nat x\<rfloor>"
  have "safe_random e * 2 ^ nat x < 2 ^ nat x" using safe_random_range [of e] by simp
  then have "safe_random e * 2 ^ nat x < 2 ^ nat (maxRetryExponent c)" using le by (rule less_le_trans)
  then have "safe_random e * 2 ^ nat x < of_int (2 ^ nat (maxRetryExponent c))" by (simp only: of_int_power of_int_numeral)
  then have "?k < 2 ^ nat (maxRetryExponent c)" by (simp only: floor_less_iff)
  moreover have "0 \<le> ?k" using safe_random_range(1) [of e] by simp
  ultimately show ?thesis using Some by (auto simp: compute_retry_after_def)
qed

lemma retry_hint_bounds_witness:
  "\<exists>k. compute_retry_after demo_config (demo_env 0) (Some (Fin 3)) = Fin (of_int k * 500) \<and> 0 \<le> k \<and> k < 16"
  using retry_hint_bounds [OF demo_config, of "Some (Fin 3)" "demo_env 0"]
  by (auto simp: demo_config_def RESOURCE_ADMISSION_DEFAULTS_def)

text \<open>
  With whole numbers as bounds the random admission budget stays between \<open>admissionBudgetMinMs\<close> and
  \<open>admissionBudgetMaxMs\<close>.
\<close>

theorem admission_budget_range:
  assumes "make_config opts = Inr c" and "admissionBudgetMinMs c = of_int lo" and "admissionBudgetMaxMs c = of_int hi"
    and "admission_budget c e None = Inr b"
  shows "admissionBudgetMinMs c \<le> b \<and> b \<le> admissionBudgetMaxMs c"
proof -
  have le: "lo \<le> hi" using make_config_valid(14) [OF assms(1)] assms(2,3) by simp
  let ?r = "safe_random e" and ?w = "of_int (hi - lo + 1) :: rat"
  have w: "0 < ?w" using le by simp
  have "?r * ?w < ?w" using safe_random_range(2) [of e] w by simp
  then have "of_int lo + ?r * ?w < of_int (hi + 1)" by simp
  then have up: "\<lfloor>of_int lo + ?r * ?w\<rfloor> < hi + 1" by (simp only: floor_less_iff)
  have "0 \<le> ?r * ?w" using safe_random_range(1) [of e] w by simp
  then have down: "lo \<le> \<lfloor>of_int lo + ?r * ?w\<rfloor>" by (simp add: le_floor_iff)
  have "b = (if lo = hi then of_int lo else of_int \<lfloor>of_int lo + ?r * ?w\<rfloor>)"
    using assms(2-4) by (auto simp: admission_budget_def random_integer_def)
  with up down le show ?thesis using assms(2,3) by (simp split: if_splits)
qed

lemma admission_budget_range_witness:
  "\<exists>b. admission_budget demo_config (demo_env 0) None = Inr b \<and> 8000 \<le> b \<and> b \<le> 10000"
proof -
  obtain b where b: "admission_budget demo_config (demo_env 0) None = Inr b" by (simp add: admission_budget_def)
  have "admissionBudgetMinMs demo_config = of_int 8000" "admissionBudgetMaxMs demo_config = of_int 10000"
    by (simp_all add: demo_config_def RESOURCE_ADMISSION_DEFAULTS_def)
  with admission_budget_range [OF demo_config _ _ b] b show ?thesis by simp
qed

definition fractional_options :: adm_options where
  "fractional_options = demo_options\<lparr> opt_admissionBudgetMinMs := Some (Fin 0), opt_admissionBudgetMaxMs := Some (Fin (1 / 2)) \<rparr>"

text \<open>
  With bounds that are no whole numbers, which the constructor accepts, the random budget can lie above
  \<open>admissionBudgetMaxMs\<close>.
\<close>

theorem fractional_budget_exceeds_maximum:
  "\<exists>c e b. make_config fractional_options = Inr c \<and> admission_budget c e None = Inr b \<and> admissionBudgetMaxMs c < b"
proof -
  let ?c = "demo_config\<lparr> admissionBudgetMinMs := 0, admissionBudgetMaxMs := 1 / 2 \<rparr>"
  let ?e = "\<lparr> clock = 0, random_value = Fin (9 / 10), signal_set = (\<lambda>_. False) \<rparr>"
  have "make_config fractional_options = Inr ?c" by code_simp
  moreover have "admission_budget ?c ?e None = Inr 1" by code_simp
  ultimately show ?thesis by force
qed

end
