(* ===== verification/ToolkitState.thy ===== *)
theory ToolkitState
  imports ToolkitBase
begin

text \<open>
  Methods that change an object and may throw. A throw keeps the changes made before it, as in the
  language: a procedure maps the object to its outcome and the object afterwards.
\<close>

type_synonym ('s, 'e, 'a) proc = "'s \<Rightarrow> ('e + 'a) \<times> 's"

definition ret :: "'a \<Rightarrow> ('s, 'e, 'a) proc" where
  "ret a s = (Inr a, s)"

definition throw :: "'e \<Rightarrow> ('s, 'e, 'a) proc" where
  "throw e s = (Inl e, s)"

definition bindp :: "('s, 'e, 'a) proc \<Rightarrow> ('a \<Rightarrow> ('s, 'e, 'b) proc) \<Rightarrow> ('s, 'e, 'b) proc" where
  "bindp m f s = (case m s of (Inl e, s') \<Rightarrow> (Inl e, s') | (Inr a, s') \<Rightarrow> f a s')"

definition thenp :: "('s, 'e, 'a) proc \<Rightarrow> ('s, 'e, 'b) proc \<Rightarrow> ('s, 'e, 'b) proc" where
  "thenp m n = bindp m (\<lambda>_. n)"

definition get_state_of :: "('s, 'e, 's) proc" where
  "get_state_of s = (Inr s, s)"

definition modify :: "('s \<Rightarrow> 's) \<Rightarrow> ('s, 'e, unit) proc" where
  "modify f s = (Inr (), f s)"

definition demand :: "'e \<Rightarrow> bool \<Rightarrow> ('s, 'e, unit) proc" where
  "demand e b s = (if b then Inr () else Inl e, s)"

definition lift_sum :: "'e + 'a \<Rightarrow> ('s, 'e, 'a) proc" where
  "lift_sum r s = (r, s)"

fun for_each :: "('x \<Rightarrow> ('s, 'e, unit) proc) \<Rightarrow> 'x list \<Rightarrow> ('s, 'e, unit) proc" where
  "for_each f [] = ret ()"
| "for_each f (x # xs) = thenp (f x) (for_each f xs)"

text \<open>A run that does not throw.\<close>

definition succeeds :: "('s, 'e, 'a) proc \<Rightarrow> 's \<Rightarrow> 'a \<Rightarrow> 's \<Rightarrow> bool" where
  "succeeds m s a s' \<longleftrightarrow> m s = (Inr a, s')"

named_theorems proc_simps \<open>runs of the procedure combinators\<close>

lemma ret_succeeds [proc_simps]: "succeeds (ret a) s b s' \<longleftrightarrow> b = a \<and> s' = s"
  by (auto simp: succeeds_def ret_def)

lemma throw_succeeds [proc_simps]: "\<not> succeeds (throw e) s b s'"
  by (auto simp: succeeds_def throw_def)

lemma bindp_succeeds [proc_simps]: "succeeds (bindp m f) s b s' \<longleftrightarrow> (\<exists>a t. succeeds m s a t \<and> succeeds (f a) t b s')"
  by (auto simp: succeeds_def bindp_def split: prod.splits sum.splits)

lemma thenp_succeeds [proc_simps]: "succeeds (thenp m n) s b s' \<longleftrightarrow> (\<exists>a t. succeeds m s a t \<and> succeeds n t b s')"
  by (simp add: thenp_def bindp_succeeds)

lemma get_succeeds [proc_simps]: "succeeds get_state_of s a s' \<longleftrightarrow> a = s \<and> s' = s"
  by (auto simp: succeeds_def get_state_of_def)

lemma modify_succeeds [proc_simps]: "succeeds (modify f) s u s' \<longleftrightarrow> s' = f s"
  by (auto simp: succeeds_def modify_def)

lemma demand_succeeds [proc_simps]: "succeeds (demand e b) s u s' \<longleftrightarrow> b \<and> s' = s"
  by (auto simp: succeeds_def demand_def)

lemma lift_sum_succeeds [proc_simps]: "succeeds (lift_sum r) s a s' \<longleftrightarrow> r = Inr a \<and> s' = s"
  by (auto simp: succeeds_def lift_sum_def)

lemma ex_unit_value [proc_simps]: "(\<exists>u::unit. Q u) \<longleftrightarrow> Q ()"
  by (metis (full_types) old.unit.exhaust)

lemma if_succeeds [proc_simps]:
  "succeeds (if b then m else n) s a s' \<longleftrightarrow> (if b then succeeds m s a s' else succeeds n s a s')"
  by simp

lemma succeeds_fun: "succeeds m s a t \<Longrightarrow> succeeds m s b u \<Longrightarrow> a = b \<and> t = u"
  by (simp add: succeeds_def)

lemma for_each_Nil [proc_simps]: "succeeds (for_each f []) s u s' \<longleftrightarrow> s' = s"
  by (auto simp: proc_simps)

lemma for_each_Cons [proc_simps]:
  "succeeds (for_each f (x # xs)) s u s' \<longleftrightarrow> (\<exists>t. succeeds (f x) s () t \<and> succeeds (for_each f xs) t u s')"
  by (auto simp: proc_simps)

text \<open>An invariant of the body is an invariant of the loop.\<close>

lemma for_each_invariant:
  assumes "succeeds (for_each f xs) s u s'" and "I s"
    and "\<And>x t t'. x \<in> set xs \<Longrightarrow> I t \<Longrightarrow> succeeds (f x) t () t' \<Longrightarrow> I t'"
  shows "I s'"
  using assms by (induction xs arbitrary: s) (auto simp: for_each_Nil for_each_Cons simp del: for_each.simps)

text \<open>What a state change keeps whether or not it throws.\<close>

definition keeps :: "('s \<Rightarrow> bool) \<Rightarrow> ('s, 'e, 'a) proc \<Rightarrow> bool" where
  "keeps I m \<longleftrightarrow> (\<forall>s. I s \<longrightarrow> I (snd (m s)))"

lemma keeps_simps [intro!]:
  "keeps I (ret a)" "keeps I (throw e)" "keeps I get_state_of" "keeps I (demand e b)" "keeps I (lift_sum r)"
  by (simp_all add: keeps_def ret_def throw_def get_state_of_def demand_def lift_sum_def)

lemma keeps_bind: "keeps I m \<Longrightarrow> (\<And>a. keeps I (f a)) \<Longrightarrow> keeps I (bindp m f)"
  by (auto simp: keeps_def bindp_def split: prod.splits sum.splits)

lemma keeps_then: "keeps I m \<Longrightarrow> keeps I n \<Longrightarrow> keeps I (thenp m n)"
  by (simp add: thenp_def keeps_bind)

lemma keeps_modify: "(\<And>s. I s \<Longrightarrow> I (f s)) \<Longrightarrow> keeps I (modify f)"
  by (simp add: keeps_def modify_def)

lemma keeps_for_each: "(\<And>x. x \<in> set xs \<Longrightarrow> keeps I (f x)) \<Longrightarrow> keeps I (for_each f xs)"
  by (induction xs) (auto intro: keeps_then)

lemma keeps_if: "(b \<Longrightarrow> keeps I m) \<Longrightarrow> (\<not> b \<Longrightarrow> keeps I n) \<Longrightarrow> keeps I (if b then m else n)"
  by simp

section \<open>The first element of a sorted array\<close>

definition first_of :: "('a \<Rightarrow> 'a \<Rightarrow> int) \<Rightarrow> 'a list \<Rightarrow> 'a option" where
  "first_of cmp xs = (case sort_by cmp xs of [] \<Rightarrow> None | x # _ \<Rightarrow> Some x)"

lemma first_of_None [simp]: "first_of cmp xs = None \<longleftrightarrow> xs = []"
  using sort_by_eq_Nil [of cmp xs] by (auto simp: first_of_def split: list.splits)

lemma first_of_mem: "first_of cmp xs = Some x \<Longrightarrow> x \<in> set xs"
  by (auto simp: first_of_def split: list.splits dest: arg_cong [of "sort_by _ _" _ set])

lemma first_of_least:
  assumes "comparator cmp" "first_of cmp xs = Some x" "y \<in> set xs"
  shows "cmp x y \<le> 0"
proof -
  have "sort_by cmp xs \<noteq> []" using assms(3) by auto
  then have "hd (sort_by cmp xs) = x" using assms(2) by (auto simp: first_of_def split: list.splits)
  then show ?thesis using comparator.hd_sort_by_least [OF assms(1,3)] by simp
qed

end
