(* ===== verification/SchedFairness.thy ===== *)
theory SchedFairness
  imports ToolkitState
begin

text \<open>
  The fair dispatch order of the record scheduler
  (\<open>src/mcps/memory-store/src/record-scheduler-fairness.ts\<close>): records with service debt and waiting
  credit, their units, the windows with a dispatch deadline, and the granting loop.

  A number is an exact rational, and \<open>Number.isFinite\<close> of a computed one is the bound \<open>max_value\<close>;
  the one place where the code lets a sum exceed it unchecked (\<open>serviceDebt\<close>) keeps the exact sum
  instead of the infinity, which the next check refuses alike. Logarithms of two waiting times are
  compared by comparing their arguments. The map of records is an association list keyed by the two
  identifiers (the JSON text of the pair is injective); the object of a record is its entry. While a
  permit is being requested no other method changes the object, so a grant is one procedure with the
  permit callback as parameter.
\<close>

section \<open>Configuration\<close>

datatype fair_error =
  InvalidConfig | InvalidNumber string | EmptyText string | RecordExists | UnitExists | UnknownRecord | UnknownUnit
| NotRunning | NoChildren | NotSettledFailed | UnsupportedVersion | CandidateChanged | GrantInProgress
| NoProgress | CreditRange | PermitFailed

record inner_config =
  layerWaitHorizonMs :: rat
  taskAgeHorizonMs :: rat
  unitQueueCreditQuantumMs :: rat
  sizeCostCap :: rat
  layerFailureCap :: rat
  totalFailureCap :: rat
  layerWaitWeight :: rat
  taskAgeWeight :: rat
  unitQueueCreditWeight :: rat
  sizeWeight :: rat
  layerFailureWeight :: rat
  totalFailureWeight :: rat
  completionWeight :: rat

record fair_config =
  waitingCreditPerMs :: rat
  serviceDebtWeight :: rat
  maxRestartElapsedMs :: rat
  inner :: inner_config

definition DEFAULT_FAIRNESS_CONFIG :: fair_config where
  "DEFAULT_FAIRNESS_CONFIG =
     \<lparr> waitingCreditPerMs = 1 / 100, serviceDebtWeight = 1, maxRestartElapsedMs = 60000,
       inner = \<lparr> layerWaitHorizonMs = 60000, taskAgeHorizonMs = 300000, unitQueueCreditQuantumMs = 50, sizeCostCap = 100,
         layerFailureCap = 3, totalFailureCap = 5, layerWaitWeight = 7 / 10, taskAgeWeight = 4 / 10,
         unitQueueCreditWeight = 1, sizeWeight = 4 / 10, layerFailureWeight = 3 / 10, totalFailureWeight = 3 / 10,
         completionWeight = 4 / 10 \<rparr> \<rparr>"

text \<open>The options, every one of them optional.\<close>

record fair_config_input =
  ci_waitingCreditPerMs :: "jnum option"
  ci_serviceDebtWeight :: "jnum option"
  ci_maxRestartElapsedMs :: "jnum option"
  ci_layerWaitHorizonMs :: "jnum option"
  ci_taskAgeHorizonMs :: "jnum option"
  ci_unitQueueCreditQuantumMs :: "jnum option"
  ci_sizeCostCap :: "jnum option"
  ci_layerFailureCap :: "jnum option"
  ci_totalFailureCap :: "jnum option"
  ci_layerWaitWeight :: "jnum option"
  ci_taskAgeWeight :: "jnum option"
  ci_unitQueueCreditWeight :: "jnum option"
  ci_sizeWeight :: "jnum option"
  ci_layerFailureWeight :: "jnum option"
  ci_totalFailureWeight :: "jnum option"
  ci_completionWeight :: "jnum option"

definition config_value :: "jnum option \<Rightarrow> rat \<Rightarrow> fair_error + rat" where
  "config_value v fallback =
     (case v of None \<Rightarrow> if fallback \<le> 0 then Inl InvalidConfig else Inr fallback
      | Some x \<Rightarrow> (case finite_of x of None \<Rightarrow> Inl InvalidConfig
                   | Some q \<Rightarrow> if q \<le> 0 then Inl InvalidConfig else Inr q))"

definition merge_config :: "fair_config_input \<Rightarrow> fair_error + fair_config" where
  "merge_config i =
     (let d = DEFAULT_FAIRNESS_CONFIG; di = inner DEFAULT_FAIRNESS_CONFIG in
     and_then (config_value (ci_waitingCreditPerMs i) (waitingCreditPerMs d)) (\<lambda>a.
     and_then (config_value (ci_serviceDebtWeight i) (serviceDebtWeight d)) (\<lambda>b.
     and_then (config_value (ci_maxRestartElapsedMs i) (maxRestartElapsedMs d)) (\<lambda>c.
     and_then (config_value (ci_layerWaitHorizonMs i) (layerWaitHorizonMs di)) (\<lambda>n1.
     and_then (config_value (ci_taskAgeHorizonMs i) (taskAgeHorizonMs di)) (\<lambda>n2.
     and_then (config_value (ci_unitQueueCreditQuantumMs i) (unitQueueCreditQuantumMs di)) (\<lambda>n3.
     and_then (config_value (ci_sizeCostCap i) (sizeCostCap di)) (\<lambda>n4.
     and_then (config_value (ci_layerFailureCap i) (layerFailureCap di)) (\<lambda>n5.
     and_then (config_value (ci_totalFailureCap i) (totalFailureCap di)) (\<lambda>n6.
     and_then (config_value (ci_layerWaitWeight i) (layerWaitWeight di)) (\<lambda>n7.
     and_then (config_value (ci_taskAgeWeight i) (taskAgeWeight di)) (\<lambda>n8.
     and_then (config_value (ci_unitQueueCreditWeight i) (unitQueueCreditWeight di)) (\<lambda>n9.
     and_then (config_value (ci_sizeWeight i) (sizeWeight di)) (\<lambda>n10.
     and_then (config_value (ci_layerFailureWeight i) (layerFailureWeight di)) (\<lambda>n11.
     and_then (config_value (ci_totalFailureWeight i) (totalFailureWeight di)) (\<lambda>n12.
     and_then (config_value (ci_completionWeight i) (completionWeight di)) (\<lambda>n13.
       Inr \<lparr> waitingCreditPerMs = a, serviceDebtWeight = b, maxRestartElapsedMs = c,
         inner = \<lparr> layerWaitHorizonMs = n1, taskAgeHorizonMs = n2, unitQueueCreditQuantumMs = n3, sizeCostCap = n4,
           layerFailureCap = n5, totalFailureCap = n6, layerWaitWeight = n7, taskAgeWeight = n8,
           unitQueueCreditWeight = n9, sizeWeight = n10, layerFailureWeight = n11, totalFailureWeight = n12,
           completionWeight = n13 \<rparr> \<rparr>)))))))))))))))))"

section \<open>Numbers\<close>

definition max_value :: rat where
  "max_value = of_int ((2 ^ 53 - 1) * 2 ^ 971)"

definition representable :: "rat \<Rightarrow> bool" where
  "representable q \<longleftrightarrow> \<bar>q\<bar> \<le> max_value"

definition require_finite_non_negative :: "jnum \<Rightarrow> string \<Rightarrow> fair_error + rat" where
  "require_finite_non_negative v name =
     (case finite_of v of None \<Rightarrow> Inl (InvalidNumber name)
      | Some q \<Rightarrow> if q < 0 then Inl (InvalidNumber name) else Inr q)"

text \<open>The same check of a number that the scheduler itself computed.\<close>

definition check_non_negative :: "rat \<Rightarrow> string \<Rightarrow> fair_error + unit" where
  "check_non_negative q name = ensure (InvalidNumber name) (representable q \<and> 0 \<le> q)"

definition check_finite :: "rat \<Rightarrow> string \<Rightarrow> fair_error + unit" where
  "check_finite q name = ensure (InvalidNumber name) (representable q)"

definition require_non_empty_string :: "string \<Rightarrow> string \<Rightarrow> fair_error + unit" where
  "require_non_empty_string v name = ensure (EmptyText name) (v \<noteq> [])"

definition compare_numbers :: "rat \<Rightarrow> rat \<Rightarrow> int" where
  "compare_numbers left right = (if left < right then -1 else if left > right then 1 else 0)"

definition finite_positive_product :: "rat \<Rightarrow> rat \<Rightarrow> fair_error + rat" where
  "finite_positive_product left right =
     and_then (check_non_negative left ''weighted score value'') (\<lambda>_.
     and_then (check_non_negative right ''weighted score weight'') (\<lambda>_.
       if left = 0 \<or> right = 0 then Inr 0
       else Inr (if max_value / right < left then max_value else left * right)))"

fun sum_from :: "rat \<Rightarrow> rat list \<Rightarrow> fair_error + rat" where
  "sum_from acc [] = Inr acc"
| "sum_from acc (v # vs) =
     and_then (check_non_negative v ''weighted score term'') (\<lambda>_.
       if max_value - v < acc then Inr max_value else sum_from (acc + v) vs)"

definition finite_positive_sum :: "rat list \<Rightarrow> fair_error + rat" where
  "finite_positive_sum vs = sum_from 0 vs"

definition finite_difference :: "rat \<Rightarrow> rat \<Rightarrow> fair_error + rat" where
  "finite_difference left right =
     and_then (check_finite left ''difference.left'') (\<lambda>_.
     and_then (check_finite right ''difference.right'') (\<lambda>_.
       Inr (if representable (left - right) then left - right
            else if 0 \<le> left \<and> right < 0 then max_value else - max_value)))"

definition clamp :: "rat \<Rightarrow> rat \<Rightarrow> rat" where
  "clamp v maximum = min (max v 0) maximum"

section \<open>State\<close>

datatype fair_status = FQueued | FRunning | FDone | FFailed | FCancelled

record fair_unit =
  fu_unitId :: string
  fu_layer :: string
  fu_estimatedCost :: rat
  fu_dependencies :: "string list"
  fu_nextEligibleAt :: "rat option"
  enqueueAt :: rat
  layerEnteredAt :: rat
  layerFailures :: rat
  totalFailures :: rat
  fu_status :: fair_status
  chargedCost :: "rat option"
  parentUnitId :: "string option"

record fair_window =
  startSeq :: rat
  deadlineSeq :: rat
  populationN :: nat

type_synonym record_key = "string \<times> string"

record fair_record =
  fr_taskId :: string
  fr_recordId :: string
  taskCreatedAt :: rat
  serviceDebt :: rat
  waitingCredit :: rat
  cumulativeWaitingMs :: rat
  lastServedSeq :: "rat option"
  baselinePending :: bool
  fr_window :: "fair_window option"
  fr_units :: "(string \<times> fair_unit) list"

record fair =
  fc :: fair_config
  fair_records :: "(record_key \<times> fair_record) list"
  logicalNowMs :: rat
  dispatchSeq :: rat
  grantInProgress :: bool

definition new_fairness :: "fair_config_input \<Rightarrow> fair_error + fair" where
  "new_fairness i =
     and_then (merge_config i) (\<lambda>c.
       Inr \<lparr> fc = c, fair_records = [], logicalNowMs = 0, dispatchSeq = 0, grantInProgress = False \<rparr>)"

type_synonym 'a fair_proc = "(fair, fair_error, 'a) proc"

definition ensure_not_granting :: "unit fair_proc" where
  "ensure_not_granting = bindp get_state_of (\<lambda>s. demand GrantInProgress (\<not> grantInProgress s))"

definition require_record :: "record_key \<Rightarrow> fair_record fair_proc" where
  "require_record k =
     bindp get_state_of (\<lambda>s. case map_of (fair_records s) k of None \<Rightarrow> throw UnknownRecord | Some r \<Rightarrow> ret r)"

definition require_unit :: "record_key \<Rightarrow> string \<Rightarrow> fair_unit fair_proc" where
  "require_unit k u =
     bindp (require_record k) (\<lambda>r. case map_of (fr_units r) u of None \<Rightarrow> throw UnknownUnit | Some x \<Rightarrow> ret x)"

text \<open>Assignments to the fields of a record object or of a unit object.\<close>

definition on_record :: "record_key \<Rightarrow> (fair_record \<Rightarrow> fair_record) \<Rightarrow> fair \<Rightarrow> fair" where
  "on_record k f s =
     s\<lparr> fair_records := map (\<lambda>(k', r). (k', if k' = k then f r else r)) (fair_records s) \<rparr>"

definition on_unit :: "record_key \<Rightarrow> string \<Rightarrow> (fair_unit \<Rightarrow> fair_unit) \<Rightarrow> fair \<Rightarrow> fair" where
  "on_unit k u f =
     on_record k (\<lambda>r. r\<lparr> fr_units := map (\<lambda>(u', x). (u', if u' = u then f x else x)) (fr_units r) \<rparr>)"

section \<open>Eligibility and scores\<close>

definition is_dependency_done :: "fair_record \<Rightarrow> string \<Rightarrow> bool" where
  "is_dependency_done r d = (case map_of (fr_units r) d of None \<Rightarrow> False | Some x \<Rightarrow> fu_status x = FDone)"

definition fair_eligible :: "rat \<Rightarrow> fair_record \<Rightarrow> fair_unit \<Rightarrow> bool" where
  "fair_eligible now r u \<longleftrightarrow>
     fu_status u = FQueued \<and> (case fu_nextEligibleAt u of None \<Rightarrow> True | Some t \<Rightarrow> \<not> now < t) \<and>
     list_all (is_dependency_done r) (fu_dependencies u)"

definition has_eligible_unit :: "rat \<Rightarrow> fair_record \<Rightarrow> bool" where
  "has_eligible_unit now r = list_ex (\<lambda>(_, u). fair_eligible now r u) (fr_units r)"

definition outer_score :: "fair_config \<Rightarrow> fair_record \<Rightarrow> fair_error + rat" where
  "outer_score c r =
     and_then (finite_positive_product (serviceDebt r) (serviceDebtWeight c)) (\<lambda>debt. finite_difference (waitingCredit r) debt)"

definition unit_queue_credit :: "fair_config \<Rightarrow> rat \<Rightarrow> fair_unit \<Rightarrow> rat" where
  "unit_queue_credit c now u =
     (let credit = max 0 (now - enqueueAt u) / unitQueueCreditQuantumMs (inner c)
      in if representable credit then credit else max_value)"

definition compare_unit_queue_credit :: "fair_config \<Rightarrow> rat \<Rightarrow> fair_unit \<Rightarrow> fair_unit \<Rightarrow> int" where
  "compare_unit_queue_credit c now left right =
     (let lq = max 0 (now - enqueueAt left); rq = max 0 (now - enqueueAt right);
          lc = lq / unitQueueCreditQuantumMs (inner c); rc = rq / unitQueueCreditQuantumMs (inner c)
      in if representable lc \<and> representable rc then compare_numbers lc rc
         else if representable lc then -1
         else if representable rc then 1
         else compare_numbers lq rq)"

record fair_factors =
  layerWait :: rat
  taskAge :: rat
  unitQueueCredit :: rat
  sizeBonus :: rat
  layerFailure :: rat
  totalFailure :: rat
  completionProgress :: rat

definition inner_factors :: "fair_config \<Rightarrow> rat \<Rightarrow> fair_record \<Rightarrow> fair_unit \<Rightarrow> fair_factors" where
  "inner_factors c now r u =
     (let i = inner c; unitCount = max (length (fr_units r)) 1;
          completed = length (filter (\<lambda>(_, x). fu_status x = FDone) (fr_units r))
      in \<lparr> layerWait = clamp ((now - layerEnteredAt u) / layerWaitHorizonMs i) 1,
           taskAge = clamp ((now - taskCreatedAt r) / taskAgeHorizonMs i) 1,
           unitQueueCredit = unit_queue_credit c now u,
           sizeBonus = 1 - clamp (fu_estimatedCost u / sizeCostCap i) 1,
           layerFailure = clamp (layerFailures u / layerFailureCap i) 1,
           totalFailure = clamp (totalFailures u / totalFailureCap i) 1,
           completionProgress = clamp (of_nat completed / of_nat unitCount) 1 \<rparr>)"

record fair_candidate =
  fa_key :: record_key
  fa_unitId :: string
  fa_estimatedCost :: rat
  outerScore :: rat
  innerScore :: rat
  factors :: fair_factors
  fa_deadlineSeq :: "rat option"

definition to_candidate :: "fair_config \<Rightarrow> rat \<Rightarrow> fair_record \<Rightarrow> fair_unit \<Rightarrow> fair_error + fair_candidate" where
  "to_candidate c now r u =
     (let f = inner_factors c now r u; i = inner c in
     and_then (map_ok (\<lambda>(x, w). finite_positive_product x w)
       [(layerWait f, layerWaitWeight i), (taskAge f, taskAgeWeight i), (unitQueueCredit f, unitQueueCreditWeight i),
        (sizeBonus f, sizeWeight i), (layerFailure f, layerFailureWeight i), (totalFailure f, totalFailureWeight i),
        (completionProgress f, completionWeight i)]) (\<lambda>terms.
     and_then (finite_positive_sum terms) (\<lambda>score.
     and_then (outer_score c r) (\<lambda>outer.
       Inr \<lparr> fa_key = (fr_taskId r, fr_recordId r), fa_unitId = fu_unitId u, fa_estimatedCost = fu_estimatedCost u,
             outerScore = outer, innerScore = score, factors = f,
             fa_deadlineSeq = map_option deadlineSeq (fr_window r) \<rparr>))))"

section \<open>Windows and the clock\<close>

fun min_from :: "rat \<Rightarrow> rat list \<Rightarrow> rat" where
  "min_from m [] = m"
| "min_from m (x # xs) = min_from (min m x) xs"

fun max_from :: "rat \<Rightarrow> rat list \<Rightarrow> rat" where
  "max_from m [] = m"
| "max_from m (x # xs) = max_from (max m x) xs"

definition window_baseline :: "fair_config \<Rightarrow> fair_record list \<Rightarrow> fair_error + rat" where
  "window_baseline c incumbents =
     (case incumbents of [] \<Rightarrow> Inr 0
      | _ \<Rightarrow> and_then (map_ok (outer_score c) incumbents) (\<lambda>scores. Inr (min_from (hd scores) (tl scores))))"

definition enter_baseline :: "rat \<Rightarrow> record_key \<Rightarrow> unit fair_proc" where
  "enter_baseline baseline k =
     bindp get_state_of (\<lambda>s.
     bindp (require_record k) (\<lambda>r.
       if \<not> baselinePending r then ret ()
       else
         bindp (lift_sum (and_then (outer_score (fc s) r) (\<lambda>score. finite_difference score baseline))) (\<lambda>diff.
         let debt = (if 0 < diff then serviceDebt r + diff / serviceDebtWeight (fc s) else serviceDebt r) in
         thenp (modify (on_record k (\<lambda>r. r\<lparr> serviceDebt := debt \<rparr>)))
        (thenp (lift_sum (check_non_negative debt ''service debt''))
               (modify (on_record k (\<lambda>r. r\<lparr> baselinePending := False \<rparr>)))))))"

definition eligible_records :: "fair \<Rightarrow> (record_key \<times> fair_record) list" where
  "eligible_records s = filter (\<lambda>(_, r). has_eligible_unit (logicalNowMs s) r) (fair_records s)"

definition entering_keys :: "fair \<Rightarrow> record_key list" where
  "entering_keys s = map fst (filter (\<lambda>(_, r). fr_window r = None) (eligible_records s))"

definition next_window :: "fair \<Rightarrow> fair_window" where
  "next_window s =
     (let n = length (eligible_records s)
      in \<lparr> startSeq = dispatchSeq s, deadlineSeq = dispatchSeq s + 2 * of_nat n, populationN = n \<rparr>)"

definition close_windows :: "fair \<Rightarrow> fair" where
  "close_windows s = s\<lparr> fair_records := map (\<lambda>(k, r).
     (k, if has_eligible_unit (logicalNowMs s) r then r else r\<lparr> fr_window := None \<rparr>)) (fair_records s) \<rparr>"

definition reconcile_eligibility :: "unit fair_proc" where
  "reconcile_eligibility =
     bindp get_state_of (\<lambda>s.
     thenp (modify close_windows)
    (bindp (lift_sum (window_baseline (fc s) (map snd (filter (\<lambda>(_, r). fr_window r \<noteq> None) (eligible_records s))))) (\<lambda>baseline.
     thenp (for_each (enter_baseline baseline) (entering_keys s))
           (for_each (\<lambda>k. modify (on_record k (\<lambda>r. r\<lparr> fr_window := Some (next_window s) \<rparr>))) (entering_keys s)))))"

definition first_eligible_at :: "fair_record \<Rightarrow> rat \<Rightarrow> rat \<Rightarrow> rat option" where
  "first_eligible_at r start finish =
     foldl (\<lambda>earliest (_, u).
       if fu_status u \<noteq> FQueued \<or> \<not> list_all (is_dependency_done r) (fu_dependencies u) then earliest
       else let eligibleAt = max start (case fu_nextEligibleAt u of None \<Rightarrow> start | Some t \<Rightarrow> t)
            in if finish < eligibleAt \<or> (case earliest of None \<Rightarrow> False | Some e \<Rightarrow> e \<le> eligibleAt) then earliest
               else Some eligibleAt)
       None (fr_units r)"

definition rebase_waiting_credits :: "rat \<Rightarrow> unit fair_proc" where
  "rebase_waiting_credits increment =
     bindp get_state_of (\<lambda>s.
     let credits = map (\<lambda>(_, r). waitingCredit r) (fair_records s);
         magnitude = max_from 0 (map abs credits)
     in if magnitude \<le> max_value - increment then ret ()
        else let center = min_from (hd credits) (tl credits) / 2 + max_from (hd credits) (tl credits) / 2
             in if center = 0 then throw CreditRange
                else for_each (\<lambda>(k, _).
                       thenp (modify (on_record k (\<lambda>r. r\<lparr> waitingCredit := waitingCredit r - center \<rparr>)))
                             (bindp (require_record k) (\<lambda>r. lift_sum (check_finite (waitingCredit r) ''rebased waiting credit''))))
                     (fair_records s))"

text \<open>One round of the loop of \<open>addWaitingCredits\<close>: the credit of a step for every record that still waits.\<close>

definition credit_round :: "(record_key \<times> rat) list \<Rightarrow> unit fair_proc" where
  "credit_round credits =
     thenp (for_each (\<lambda>(_, x). lift_sum (check_non_negative x ''waiting-credit increment'')) credits)
    (thenp (rebase_waiting_credits (max_from (snd (hd credits)) (map snd (tl credits))))
           (for_each (\<lambda>(k, x). if x = 0 then ret ()
              else thenp (modify (on_record k (\<lambda>r. r\<lparr> waitingCredit := waitingCredit r + x \<rparr>)))
                         (bindp (require_record k) (\<lambda>r. lift_sum (check_finite (waitingCredit r) ''waiting credit'')))) credits))"

definition step_left :: "rat \<Rightarrow> rat \<Rightarrow> rat" where
  "step_left maxStep m = (if m \<le> 0 then m else m - min m maxStep)"

definition steps_needed :: "rat \<Rightarrow> rat \<Rightarrow> nat" where
  "steps_needed maxStep m = nat \<lceil>max m 0 / maxStep\<rceil>"

lemma steps_needed_decrease:
  assumes "0 < maxStep"
  shows "steps_needed maxStep (step_left maxStep m) \<le> steps_needed maxStep m"
    and "0 < m \<Longrightarrow> steps_needed maxStep (step_left maxStep m) < steps_needed maxStep m"
proof -
  have lt: "steps_needed maxStep (step_left maxStep m) < steps_needed maxStep m" if "0 < m"
  proof (cases "m \<le> maxStep")
    case True
    have "0 < \<lceil>m / maxStep\<rceil>" using that assms by simp
    with True that show ?thesis by (simp add: step_left_def steps_needed_def)
  next
    case False
    then have "max (m - maxStep) 0 / maxStep = m / maxStep - 1" using assms by (simp add: field_simps)
    moreover have "0 < \<lceil>m / maxStep\<rceil>" using that assms by simp
    ultimately show ?thesis using False that by (simp add: step_left_def steps_needed_def)
  qed
  show "0 < m \<Longrightarrow> steps_needed maxStep (step_left maxStep m) < steps_needed maxStep m" by (rule lt)
  show "steps_needed maxStep (step_left maxStep m) \<le> steps_needed maxStep m"
    using lt by (cases "0 < m") (auto simp: step_left_def less_imp_le)
qed

lemma sum_steps_decrease:
  assumes "0 < maxStep" "x \<in> set rem" "0 < snd x"
  shows "(\<Sum>(k, m) \<leftarrow> rem. steps_needed maxStep (step_left maxStep m)) < (\<Sum>(k, m) \<leftarrow> rem. steps_needed maxStep m)"
  using assms(2,3)
proof (induction rem)
  case (Cons y rem)
  have le: "(\<Sum>(k, m) \<leftarrow> rem. steps_needed maxStep (step_left maxStep m)) \<le> (\<Sum>(k, m) \<leftarrow> rem. steps_needed maxStep m)"
    by (rule sum_list_mono) (auto simp: steps_needed_decrease [OF assms(1)])
  show ?case
  proof (cases "x = y")
    case True
    with le steps_needed_decrease(2) [OF assms(1) Cons.prems(2)] show ?thesis by (cases y) auto
  next
    case False
    with Cons have "(\<Sum>(k, m) \<leftarrow> rem. steps_needed maxStep (step_left maxStep m)) < (\<Sum>(k, m) \<leftarrow> rem. steps_needed maxStep m)" by auto
    moreover obtain k m where "y = (k, m)" by (cases y)
    ultimately show ?thesis using steps_needed_decrease(1) [OF assms(1), of m] by simp
  qed
qed simp

function add_credits_from :: "rat \<Rightarrow> rat \<Rightarrow> (record_key \<times> rat) list \<Rightarrow> unit fair_proc" where
  "add_credits_from maxStep rate rem s =
     (if list_all (\<lambda>(_, m). m \<le> 0) rem then (Inr (), s)
      else if maxStep \<le> 0 then (Inl NoProgress, s)
      else case credit_round (map (\<lambda>(k, m). (k, if m \<le> 0 then 0 else min m maxStep * rate)) rem) s of
             (Inl e, s') \<Rightarrow> (Inl e, s')
           | (Inr _, s') \<Rightarrow> add_credits_from maxStep rate (map (\<lambda>(k, m). (k, step_left maxStep m)) rem) s')"
  by pat_completeness auto
termination
proof (relation "measure (\<lambda>(maxStep, rate, rem, s). \<Sum>(k, m) \<leftarrow> rem. steps_needed maxStep m)", simp)
  fix maxStep rate :: rat and rem :: "(record_key \<times> rat) list" and s s' :: fair and x :: "fair_error + unit" and xa y u
  assume active: "\<not> list_all (\<lambda>(_, m). m \<le> 0) rem" and pos: "\<not> maxStep \<le> 0"
  then obtain e where e: "e \<in> set rem" "0 < snd e" by (force simp: list_all_iff)
  have "(\<Sum>(k, m) \<leftarrow> rem. steps_needed maxStep (step_left maxStep m)) < (\<Sum>(k, m) \<leftarrow> rem. steps_needed maxStep m)"
    by (rule sum_steps_decrease [OF _ e]) (use pos in simp)
  then show "((maxStep, rate, map (\<lambda>(k, m). (k, step_left maxStep m)) rem, y), maxStep, rate, rem, s)
      \<in> measure (\<lambda>(maxStep, rate, rem, s). \<Sum>(k, m) \<leftarrow> rem. steps_needed maxStep m)"
    by (simp add: case_prod_unfold comp_def)
qed

declare add_credits_from.simps [simp del]

definition add_waiting_credits :: "(record_key \<times> rat) list \<Rightarrow> unit fair_proc" where
  "add_waiting_credits rem =
     bindp get_state_of (\<lambda>s. add_credits_from ((max_value / 4) / waitingCreditPerMs (fc s)) (waitingCreditPerMs (fc s)) rem)"

definition waited_in :: "rat \<Rightarrow> rat \<Rightarrow> fair \<Rightarrow> (record_key \<times> rat) list" where
  "waited_in previous next s =
     concat (map (\<lambda>(k, r). case first_eligible_at r previous next of
         None \<Rightarrow> [] | Some t \<Rightarrow> if next - t \<le> 0 then [] else [(k, next - t)]) (fair_records s))"

definition advance :: "jnum \<Rightarrow> unit fair_proc" where
  "advance elapsed =
     thenp ensure_not_granting
    (bindp (lift_sum (require_finite_non_negative elapsed ''elapsedMs'')) (\<lambda>ms.
     thenp reconcile_eligibility
    (bindp get_state_of (\<lambda>s.
     let next = logicalNowMs s + ms; waited = waited_in (logicalNowMs s) next s in
     thenp (lift_sum (check_finite next ''logical clock''))
    (thenp (for_each (\<lambda>(k, w). thenp (modify (on_record k (\<lambda>r. r\<lparr> cumulativeWaitingMs := cumulativeWaitingMs r + w \<rparr>)))
              (bindp (require_record k) (\<lambda>r. lift_sum (check_non_negative (cumulativeWaitingMs r) ''cumulative waiting time'')))) waited)
    (thenp (add_waiting_credits waited)
    (thenp (modify (\<lambda>s. s\<lparr> logicalNowMs := next \<rparr>)) reconcile_eligibility)))))))"

section \<open>Records and units\<close>

record fair_unit_input =
  in_unitId :: string
  in_layer :: string
  in_estimatedCost :: jnum
  in_dependencies :: "string list option"
  in_nextEligibleAt :: "jnum option"
  in_enqueueAt :: "jnum option"
  in_layerEnteredAt :: "jnum option"
  in_layerFailures :: "jnum option"
  in_totalFailures :: "jnum option"
  in_status :: "fair_status option"

definition optional_number :: "jnum option \<Rightarrow> string \<Rightarrow> fair_error + rat option" where
  "optional_number v name =
     (case v of None \<Rightarrow> Inr None | Some x \<Rightarrow> and_then (require_finite_non_negative x name) (\<lambda>q. Inr (Some q)))"

definition number_or :: "jnum option \<Rightarrow> rat \<Rightarrow> string \<Rightarrow> fair_error + rat" where
  "number_or v fallback name = (case v of None \<Rightarrow> Inr fallback | Some x \<Rightarrow> require_finite_non_negative x name)"

definition unit_of_input :: "rat \<Rightarrow> fair_unit_input \<Rightarrow> string option \<Rightarrow> fair_error + fair_unit" where
  "unit_of_input now i parent =
     and_then (require_finite_non_negative (in_estimatedCost i) ''estimatedCost'') (\<lambda>cost.
     and_then (number_or (in_enqueueAt i) now ''enqueueAt'') (\<lambda>enqueued.
     and_then (number_or (in_layerEnteredAt i) enqueued ''layerEnteredAt'') (\<lambda>entered.
     and_then (optional_number (in_nextEligibleAt i) ''nextEligibleAt'') (\<lambda>next.
     and_then (number_or (in_layerFailures i) 0 ''layerFailures'') (\<lambda>lf.
     and_then (number_or (in_totalFailures i) 0 ''totalFailures'') (\<lambda>tf.
       Inr \<lparr> fu_unitId = in_unitId i, fu_layer = in_layer i, fu_estimatedCost = cost,
             fu_dependencies = (case in_dependencies i of None \<Rightarrow> [] | Some d \<Rightarrow> d), fu_nextEligibleAt = next,
             enqueueAt = enqueued, layerEnteredAt = entered, layerFailures = lf, totalFailures = tf,
             fu_status = (case in_status i of None \<Rightarrow> FQueued | Some st \<Rightarrow> st), chargedCost = None,
             parentUnitId = parent \<rparr>))))))"

definition add_unit_to_record :: "record_key \<Rightarrow> fair_unit_input \<Rightarrow> string option \<Rightarrow> unit fair_proc" where
  "add_unit_to_record k i parent =
     bindp (require_record k) (\<lambda>r.
     bindp get_state_of (\<lambda>s.
     thenp (demand UnitExists (map_of (fr_units r) (in_unitId i) = None))
    (bindp (lift_sum (unit_of_input (logicalNowMs s) i parent)) (\<lambda>u.
       modify (on_record k (\<lambda>r. r\<lparr> fr_units := map_put (in_unitId i) u (fr_units r) \<rparr>))))))"

record fair_record_input =
  ri_taskId :: string
  ri_recordId :: string
  ri_taskCreatedAt :: jnum
  ri_serviceDebt :: "jnum option"
  ri_units :: "fair_unit_input list"

definition add_record :: "fair_record_input \<Rightarrow> unit fair_proc" where
  "add_record i =
     (let k = (ri_taskId i, ri_recordId i) in
     thenp ensure_not_granting
    (thenp (lift_sum (require_non_empty_string (ri_taskId i) ''taskId''))
    (thenp (lift_sum (require_non_empty_string (ri_recordId i) ''recordId''))
    (bindp get_state_of (\<lambda>s.
     thenp (demand RecordExists (map_of (fair_records s) k = None))
    (bindp (lift_sum (require_finite_non_negative (ri_taskCreatedAt i) ''taskCreatedAt'')) (\<lambda>created.
     bindp (lift_sum (number_or (ri_serviceDebt i) 0 ''serviceDebt'')) (\<lambda>debt.
     let r = \<lparr> fr_taskId = ri_taskId i, fr_recordId = ri_recordId i, taskCreatedAt = created, serviceDebt = debt,
               waitingCredit = 0, cumulativeWaitingMs = 0, lastServedSeq = None, baselinePending = True, fr_window = None,
               fr_units = [] \<rparr>
     in thenp (modify (\<lambda>s. s\<lparr> fair_records := map_put k r (fair_records s) \<rparr>))
              (for_each (\<lambda>u. add_unit_to_record k u None) (ri_units i))))))))))"

definition add_unit :: "record_key \<Rightarrow> fair_unit_input \<Rightarrow> unit fair_proc" where
  "add_unit k i = thenp ensure_not_granting (bindp (require_record k) (\<lambda>_. add_unit_to_record k i None))"

record fair_unit_update =
  up_layer :: "string option"
  up_estimatedCost :: "jnum option"
  up_dependencies :: "string list option"
  up_nextEligibleAt :: "jnum option"
  up_enqueueAt :: "jnum option"
  up_layerEnteredAt :: "jnum option"
  up_layerFailures :: "jnum option"
  up_totalFailures :: "jnum option"
  up_status :: "fair_status option"

definition assign_number :: "record_key \<Rightarrow> string \<Rightarrow> jnum option \<Rightarrow> string \<Rightarrow> (rat \<Rightarrow> fair_unit \<Rightarrow> fair_unit) \<Rightarrow> unit fair_proc" where
  "assign_number k u v name put =
     (case v of None \<Rightarrow> ret ()
      | Some x \<Rightarrow> bindp (lift_sum (require_finite_non_negative x name)) (\<lambda>q. modify (on_unit k u (put q))))"

definition update_unit :: "record_key \<Rightarrow> string \<Rightarrow> fair_unit_update \<Rightarrow> unit fair_proc" where
  "update_unit k u v =
     thenp ensure_not_granting
    (bindp (require_unit k u) (\<lambda>_.
     thenp (case up_layer v of None \<Rightarrow> ret () | Some l \<Rightarrow> modify (on_unit k u (\<lambda>x. x\<lparr> fu_layer := l \<rparr>)))
    (thenp (assign_number k u (up_estimatedCost v) ''estimatedCost'' (\<lambda>q x. x\<lparr> fu_estimatedCost := q \<rparr>))
    (thenp (case up_dependencies v of None \<Rightarrow> ret () | Some d \<Rightarrow> modify (on_unit k u (\<lambda>x. x\<lparr> fu_dependencies := d \<rparr>)))
    (thenp (assign_number k u (up_nextEligibleAt v) ''nextEligibleAt'' (\<lambda>q x. x\<lparr> fu_nextEligibleAt := Some q \<rparr>))
    (thenp (assign_number k u (up_enqueueAt v) ''enqueueAt'' (\<lambda>q x. x\<lparr> enqueueAt := q \<rparr>))
    (thenp (assign_number k u (up_layerEnteredAt v) ''layerEnteredAt'' (\<lambda>q x. x\<lparr> layerEnteredAt := q \<rparr>))
    (thenp (assign_number k u (up_layerFailures v) ''layerFailures'' (\<lambda>q x. x\<lparr> layerFailures := q \<rparr>))
    (thenp (assign_number k u (up_totalFailures v) ''totalFailures'' (\<lambda>q x. x\<lparr> totalFailures := q \<rparr>))
           (case up_status v of None \<Rightarrow> ret () | Some st \<Rightarrow> modify (on_unit k u (\<lambda>x. x\<lparr> fu_status := st \<rparr>))))))))))))"

text \<open>
  Settling an attempt. The debt, the charge and the status are changed before the new
  \<open>nextEligibleAt\<close> is checked.
\<close>

record settle_input =
  actualCost :: jnum
  st_status :: fair_status
  st_nextEligibleAt :: "jnum option"

definition settle_unit :: "record_key \<Rightarrow> string \<Rightarrow> settle_input \<Rightarrow> unit fair_proc" where
  "settle_unit k u i =
     thenp ensure_not_granting
    (bindp (lift_sum (require_finite_non_negative (actualCost i) ''actualCost'')) (\<lambda>actual.
     bindp (require_record k) (\<lambda>r.
     bindp (require_unit k u) (\<lambda>x.
     case (fu_status x = FRunning, chargedCost x) of
       (True, Some charged) \<Rightarrow>
         thenp (modify (on_record k (\<lambda>r. r\<lparr> serviceDebt := max 0 (serviceDebt r + actual - charged) \<rparr>)))
        (thenp (modify (on_unit k u (\<lambda>x. x\<lparr> chargedCost := None, fu_status := st_status i \<rparr>)))
        (thenp (if st_status i = FQueued
                then bindp (lift_sum (optional_number (st_nextEligibleAt i) ''nextEligibleAt'')) (\<lambda>next.
                       modify (on_unit k u (\<lambda>x. x\<lparr> fu_nextEligibleAt := next \<rparr>)))
                else ret ())
               reconcile_eligibility))
     | _ \<Rightarrow> throw NotRunning))))"

text \<open>A child of a split is a unit input whose cost may be missing.\<close>

definition split_unit :: "record_key \<Rightarrow> string \<Rightarrow> (fair_unit_input \<times> bool) list \<Rightarrow> unit fair_proc" where
  "split_unit k parent children =
     thenp ensure_not_granting
    (thenp (demand NoChildren (children \<noteq> []))
    (bindp (require_record k) (\<lambda>r.
     bindp (require_unit k parent) (\<lambda>p.
     thenp (demand NotSettledFailed (fu_status p = FFailed \<and> chargedCost p = None))
    (thenp (demand UnitExists (list_all (\<lambda>(i, _). map_of (fr_units r) (in_unitId i) = None) children))
    (let inherited = fu_estimatedCost p / of_nat (length children) in
     thenp (for_each (\<lambda>(i, hasCost). add_unit_to_record k (if hasCost then i else i\<lparr> in_estimatedCost := Fin inherited \<rparr>)
              (Some (fu_unitId p))) children)
           reconcile_eligibility))))))"

section \<open>Granting\<close>

definition compare_units_in :: "fair_config \<Rightarrow> rat \<Rightarrow> (fair_candidate \<times> fair_unit) \<Rightarrow> (fair_candidate \<times> fair_unit) \<Rightarrow> int" where
  "compare_units_in c now left right =
     (let (lc, lu) = left; (rc, ru) = right;
          rest = or_else (compare_numbers (innerScore rc) (innerScore lc))
                (or_else (compare_numbers (enqueueAt lu) (enqueueAt ru)) (compare_text (fa_unitId lc) (fa_unitId rc)))
      in if unitQueueCredit (factors lc) = max_value \<or> unitQueueCredit (factors rc) = max_value
         then or_else (compare_unit_queue_credit c now ru lu) rest else rest)"

type_synonym unit_key = "string \<times> string \<times> string"

definition select_unit :: "fair_config \<Rightarrow> rat \<Rightarrow> unit_key list \<Rightarrow> fair_record \<Rightarrow> fair_error + fair_candidate option" where
  "select_unit c now excluded r =
     (let units = filter (\<lambda>u. fair_eligible now r u \<and> (fr_taskId r, fr_recordId r, fu_unitId u) \<notin> set excluded)
                    (map snd (fr_units r))
      in and_then (map_ok (\<lambda>u. and_then (to_candidate c now r u) (\<lambda>x. Inr (x, u))) units) (\<lambda>xs.
         Inr (map_option fst (first_of (compare_units_in c now) xs))))"

definition compare_record_identity :: "fair_record \<Rightarrow> fair_record \<Rightarrow> int" where
  "compare_record_identity left right =
     or_else (compare_text (fr_taskId left) (fr_taskId right)) (compare_text (fr_recordId left) (fr_recordId right))"

text \<open>Both records have a window here: they passed the filter of the due ones.\<close>

definition compare_due_records :: "fair_record \<Rightarrow> fair_record \<Rightarrow> int" where
  "compare_due_records left right =
     (case (fr_window left, fr_window right) of
        (Some l, Some r) \<Rightarrow>
          or_else (compare_numbers (deadlineSeq l) (deadlineSeq r))
         (or_else (compare_numbers (startSeq l) (startSeq r))
         (or_else (compare_numbers (taskCreatedAt left) (taskCreatedAt right)) (compare_record_identity left right)))
      | _ \<Rightarrow> 0)"

definition compare_soft_records :: "(fair_record \<times> fair_candidate) \<Rightarrow> (fair_record \<times> fair_candidate) \<Rightarrow> int" where
  "compare_soft_records left right =
     or_else (compare_numbers (outerScore (snd right)) (outerScore (snd left)))
    (or_else (compare_numbers (taskCreatedAt (fst left)) (taskCreatedAt (fst right)))
    (or_else (compare_record_identity (fst left) (fst right)) (compare_text (fa_unitId (snd left)) (fa_unitId (snd right)))))"

definition window_due :: "rat \<Rightarrow> fair_record \<Rightarrow> bool" where
  "window_due seq r = (case fr_window r of None \<Rightarrow> False | Some w \<Rightarrow> deadlineSeq w \<le> seq + 1)"

definition select_candidate :: "fair \<Rightarrow> unit_key list \<Rightarrow> fair_error + fair_candidate option" where
  "select_candidate s excluded =
     and_then (map_ok (\<lambda>(_, r). and_then (select_unit (fc s) (logicalNowMs s) excluded r) (\<lambda>x. Inr (r, x))) (fair_records s)) (\<lambda>xs.
     let candidates = concat (map (\<lambda>(r, x). case x of None \<Rightarrow> [] | Some y \<Rightarrow> [(r, y)]) xs)
     in Inr (map_option snd
          (case first_of (\<lambda>a b. compare_due_records (fst a) (fst b)) (filter (\<lambda>(r, _). window_due (dispatchSeq s) r) candidates) of
             Some y \<Rightarrow> Some y
           | None \<Rightarrow> first_of compare_soft_records candidates)))"

definition unit_keys :: "fair \<Rightarrow> unit_key list" where
  "unit_keys s = concat (map (\<lambda>(_, r). map (\<lambda>(_, u). (fr_taskId r, fr_recordId r, fu_unitId u)) (fr_units r)) (fair_records s))"

definition candidate_key :: "fair_candidate \<Rightarrow> unit_key" where
  "candidate_key x = (fst (fa_key x), snd (fa_key x), fa_unitId x)"

lemma to_candidate_key: "to_candidate c now r u = Inr x \<Longrightarrow> fa_key x = (fr_taskId r, fr_recordId r) \<and> fa_unitId x = fu_unitId u"
  by (auto simp: to_candidate_def Let_def and_then_Inr)

lemma map_ok_mem:
  assumes "map_ok f xs = Inr ys" "y \<in> set ys"
  obtains x where "x \<in> set xs" "f x = Inr y"
proof -
  from assms obtain i where i: "i < length ys" "ys ! i = y" by (auto simp: in_set_conv_nth)
  with assms(1) have "i < length xs" "f (xs ! i) = Inr y" by (auto simp: map_ok_Inr list_all2_conv_all_nth)
  then show thesis using that [OF nth_mem] by blast
qed

lemma select_unit_mem:
  assumes "select_unit c now excluded r = Inr (Some x)"
  obtains u where "u \<in> snd ` set (fr_units r)" "fair_eligible now r u" "to_candidate c now r u = Inr x"
    "candidate_key x = (fr_taskId r, fr_recordId r, fu_unitId u)" "candidate_key x \<notin> set excluded"
proof -
  obtain xs where m: "map_ok (\<lambda>u. and_then (to_candidate c now r u) (\<lambda>x. Inr (x, u)))
      (filter (\<lambda>u. fair_eligible now r u \<and> (fr_taskId r, fr_recordId r, fu_unitId u) \<notin> set excluded) (map snd (fr_units r))) = Inr xs"
    and s: "map_option fst (first_of (compare_units_in c now) xs) = Some x"
    using assms by (auto simp: select_unit_def Let_def and_then_Inr)
  from s obtain v where "first_of (compare_units_in c now) xs = Some (x, v)" by auto
  then have v: "(x, v) \<in> set xs" by (rule first_of_mem)
  obtain u where "u \<in> set (filter (\<lambda>u. fair_eligible now r u \<and> (fr_taskId r, fr_recordId r, fu_unitId u) \<notin> set excluded) (map snd (fr_units r)))"
      "and_then (to_candidate c now r u) (\<lambda>x. Inr (x, u)) = Inr (x, v)" by (rule map_ok_mem [OF m v])
  then have u: "u \<in> snd ` set (fr_units r)" "fair_eligible now r u" "to_candidate c now r u = Inr x"
    and new: "(fr_taskId r, fr_recordId r, fu_unitId u) \<notin> set excluded" by (auto simp: and_then_Inr)
  have key: "candidate_key x = (fr_taskId r, fr_recordId r, fu_unitId u)"
    using to_candidate_key [OF u(3)] by (simp add: candidate_key_def)
  show thesis by (rule that [OF u key]) (simp only: key new not_False_eq_True)
qed

text \<open>The candidates of the records, and the one that is selected.\<close>

definition record_candidates :: "fair \<Rightarrow> unit_key list \<Rightarrow> fair_error + (fair_record \<times> fair_candidate) list" where
  "record_candidates s excluded =
     and_then (map_ok (\<lambda>(_, r). and_then (select_unit (fc s) (logicalNowMs s) excluded r) (\<lambda>x. Inr (r, x))) (fair_records s)) (\<lambda>xs.
     Inr (concat (map (\<lambda>(r, x). case x of None \<Rightarrow> [] | Some y \<Rightarrow> [(r, y)]) xs)))"

lemma select_candidate_alt:
  "select_candidate s excluded = and_then (record_candidates s excluded) (\<lambda>candidates.
     Inr (map_option snd
          (case first_of (\<lambda>a b. compare_due_records (fst a) (fst b)) (filter (\<lambda>(r, _). window_due (dispatchSeq s) r) candidates) of
             Some y \<Rightarrow> Some y
           | None \<Rightarrow> first_of compare_soft_records candidates)))"
  by (cases "map_ok (\<lambda>(_, r). and_then (select_unit (fc s) (logicalNowMs s) excluded r) (\<lambda>x. Inr (r, x))) (fair_records s)")
    (simp_all add: select_candidate_def record_candidates_def Let_def)

lemma record_candidates_mem:
  assumes "record_candidates s excluded = Inr cs" "(r, x) \<in> set cs"
  obtains k where "(k, r) \<in> set (fair_records s)" "select_unit (fc s) (logicalNowMs s) excluded r = Inr (Some x)"
proof -
  obtain xs where m: "map_ok (\<lambda>(_, r). and_then (select_unit (fc s) (logicalNowMs s) excluded r) (\<lambda>x. Inr (r, x))) (fair_records s) = Inr xs"
    and x: "(r, Some x) \<in> set xs"
    using assms by (auto simp: record_candidates_def and_then_Inr split: option.splits)
  obtain y where "y \<in> set (fair_records s)"
    "(\<lambda>(_, r). and_then (select_unit (fc s) (logicalNowMs s) excluded r) (\<lambda>x. Inr (r, x))) y = Inr (r, Some x)"
    by (rule map_ok_mem [OF m x])
  moreover obtain k r' where y: "y = (k, r')" by (cases y)
  ultimately have "(k, r) \<in> set (fair_records s)" "select_unit (fc s) (logicalNowMs s) excluded r = Inr (Some x)"
    by (auto simp: and_then_Inr)
  then show thesis by (rule that)
qed

lemma select_candidate_mem:
  assumes "select_candidate s excluded = Inr (Some x)"
  obtains k r where "(k, r) \<in> set (fair_records s)" "select_unit (fc s) (logicalNowMs s) excluded r = Inr (Some x)"
proof -
  let ?due = "\<lambda>cs. first_of (\<lambda>a b. compare_due_records (fst a) (fst b)) (filter (\<lambda>(r, _). window_due (dispatchSeq s) r) cs)"
  from assms obtain cs where cs: "record_candidates s excluded = Inr cs"
    and sel: "map_option snd (case ?due cs of Some y \<Rightarrow> Some y | None \<Rightarrow> first_of compare_soft_records cs) = Some x"
    unfolding select_candidate_alt and_then_Inr by blast
  have "\<exists>y \<in> set cs. snd y = x"
  proof (cases "?due cs")
    case None
    with sel obtain y where y: "first_of compare_soft_records cs = Some y" "snd y = x" by auto
    from first_of_mem [OF y(1)] y(2) show ?thesis by blast
  next
    case (Some y)
    then have "y \<in> set (filter (\<lambda>(r, _). window_due (dispatchSeq s) r) cs)" by (rule first_of_mem)
    then have "y \<in> set cs" by simp
    with Some sel show ?thesis by auto
  qed
  then have "\<exists>r. (r, x) \<in> set cs" by force
  then obtain r where "(r, x) \<in> set cs" ..
  from record_candidates_mem [OF cs this] that show thesis by blast
qed

datatype permit_decision = Permit | Deny | ContinueHandoff | PermitThrows

datatype grant_result = GrantedUnit rat fair_candidate | NoEligible | ProviderDenied fair_candidate

text \<open>
  The permit callback sees the units it has passed on in this grant. A callback that throws ends the
  grant with its own error, which is \<open>PermitFailed\<close> here, and the state stays as it is.
\<close>

definition commit_grant :: "fair_candidate \<Rightarrow> grant_result fair_proc" where
  "commit_grant x =
     bindp (require_record (fa_key x)) (\<lambda>r.
     bindp (require_unit (fa_key x) (fa_unitId x)) (\<lambda>u.
     bindp get_state_of (\<lambda>s.
     thenp (demand CandidateChanged (fair_eligible (logicalNowMs s) r u))
    (thenp (modify (on_unit (fa_key x) (fa_unitId x) (\<lambda>u. u\<lparr> fu_status := FRunning, chargedCost := Some (fu_estimatedCost u) \<rparr>)))
    (thenp (modify (\<lambda>s. s\<lparr> dispatchSeq := dispatchSeq s + 1 \<rparr>))
    (thenp (modify (on_record (fa_key x) (\<lambda>r. r\<lparr> serviceDebt := serviceDebt r + fu_estimatedCost u,
              lastServedSeq := Some (dispatchSeq s + 1), fr_window := None \<rparr>)))
           (ret (GrantedUnit (dispatchSeq s + 1) x))))))))"

lemma unit_keys_mem:
  "x \<in> set (unit_keys s) \<longleftrightarrow> (\<exists>y \<in> set (fair_records s). \<exists>z \<in> set (fr_units (snd y)).
     x = (fr_taskId (snd y), fr_recordId (snd y), fu_unitId (snd z)))"
  by (auto simp: unit_keys_def case_prod_unfold)

lemma select_candidate_new_key:
  assumes "select_candidate s denied = Inr (Some x)"
  shows "candidate_key x \<in> set (unit_keys s)" "candidate_key x \<notin> set denied"
proof -
  obtain k r where r: "(k, r) \<in> set (fair_records s)" "select_unit (fc s) (logicalNowMs s) denied r = Inr (Some x)"
    by (rule select_candidate_mem [OF assms])
  obtain u where "u \<in> snd ` set (fr_units r)" "candidate_key x = (fr_taskId r, fr_recordId r, fu_unitId u)"
    and "candidate_key x \<notin> set denied" by (rule select_unit_mem [OF r(2)])
  moreover from this obtain u' where "(u', u) \<in> set (fr_units r)" by force
  then have "(fr_taskId r, fr_recordId r, fu_unitId u) \<in> set (unit_keys s)"
    unfolding unit_keys_mem using r(1) by (intro bexI [of _ "(k, r)"] bexI [of _ "(u', u)"]) simp_all
  ultimately show "candidate_key x \<in> set (unit_keys s)" "candidate_key x \<notin> set denied" by simp_all
qed

function grant_loop :: "(unit_key list \<Rightarrow> fair_candidate \<Rightarrow> permit_decision) \<Rightarrow> unit_key list \<Rightarrow> fair_candidate option \<Rightarrow> grant_result fair_proc" where
  "grant_loop permit denied lastDenied s =
     (case select_candidate s denied of
        Inl e \<Rightarrow> (Inl e, s)
      | Inr None \<Rightarrow> (Inr (case lastDenied of None \<Rightarrow> NoEligible | Some x \<Rightarrow> ProviderDenied x), s)
      | Inr (Some x) \<Rightarrow>
          (case permit denied x of
             Permit \<Rightarrow> commit_grant x s
           | Deny \<Rightarrow> (Inr (ProviderDenied x), s)
           | ContinueHandoff \<Rightarrow> grant_loop permit (candidate_key x # denied) (Some x) s
           | PermitThrows \<Rightarrow> (Inl PermitFailed, s)))"
  by pat_completeness auto
termination
proof (relation "measure (\<lambda>(permit, denied, lastDenied, s). card (set (unit_keys s) - set denied))", simp)
  fix permit :: "unit_key list \<Rightarrow> fair_candidate \<Rightarrow> permit_decision"
    and denied and lastDenied :: "fair_candidate option" and s y x
  assume "select_candidate s denied = Inr y" "y = Some x"
  then have "candidate_key x \<in> set (unit_keys s) - set denied" using select_candidate_new_key by auto
  then have "card (set (unit_keys s) - insert (candidate_key x) (set denied)) < card (set (unit_keys s) - set denied)"
    by (intro psubset_card_mono) auto
  then show "((permit, candidate_key x # denied, Some x, s), permit, denied, lastDenied, s)
      \<in> measure (\<lambda>(permit, denied, lastDenied, s). card (set (unit_keys s) - set denied))" by simp
qed

declare grant_loop.simps [simp del]

definition grant_next :: "(unit_key list \<Rightarrow> fair_candidate \<Rightarrow> permit_decision) \<Rightarrow> grant_result fair_proc" where
  "grant_next permit = thenp reconcile_eligibility (\<lambda>s.
     let (res, s') = grant_loop permit [] None (s\<lparr> grantInProgress := True \<rparr>) in (res, s'\<lparr> grantInProgress := False \<rparr>))"

section \<open>Snapshots\<close>

record fair_unit_snapshot =
  sn_unitId :: string
  sn_layer :: string
  sn_estimatedCost :: jnum
  sn_dependencies :: "string list"
  sn_nextEligibleAt :: "jnum option"
  sn_enqueueAt :: jnum
  sn_layerEnteredAt :: jnum
  sn_layerFailures :: jnum
  sn_totalFailures :: jnum
  sn_status :: fair_status
  sn_chargedCost :: "rat option"
  sn_parentUnitId :: "string option"

record fair_record_snapshot =
  sr_taskId :: string
  sr_recordId :: string
  sr_taskCreatedAt :: jnum
  sr_serviceDebt :: jnum
  sr_waitingCredit :: jnum
  sr_cumulativeWaitingMs :: jnum
  sr_lastServedSeq :: "rat option"
  sr_baselinePending :: bool
  sr_window :: "fair_window option"
  sr_units :: "fair_unit_snapshot list"

record fair_snapshot =
  fs_version :: int
  fs_logicalNowMs :: jnum
  fs_dispatchSeq :: jnum
  fs_records :: "fair_record_snapshot list"

definition FAIRNESS_STATE_VERSION :: int where
  "FAIRNESS_STATE_VERSION = 2"

definition snapshot_unit :: "fair_unit \<Rightarrow> fair_unit_snapshot" where
  "snapshot_unit u =
     \<lparr> sn_unitId = fu_unitId u, sn_layer = fu_layer u, sn_estimatedCost = Fin (fu_estimatedCost u),
       sn_dependencies = fu_dependencies u, sn_nextEligibleAt = map_option Fin (fu_nextEligibleAt u),
       sn_enqueueAt = Fin (enqueueAt u), sn_layerEnteredAt = Fin (layerEnteredAt u),
       sn_layerFailures = Fin (layerFailures u), sn_totalFailures = Fin (totalFailures u), sn_status = fu_status u,
       sn_chargedCost = chargedCost u, sn_parentUnitId = parentUnitId u \<rparr>"

definition snapshot_record :: "fair_record \<Rightarrow> fair_record_snapshot" where
  "snapshot_record r =
     \<lparr> sr_taskId = fr_taskId r, sr_recordId = fr_recordId r, sr_taskCreatedAt = Fin (taskCreatedAt r),
       sr_serviceDebt = Fin (serviceDebt r), sr_waitingCredit = Fin (waitingCredit r),
       sr_cumulativeWaitingMs = Fin (cumulativeWaitingMs r), sr_lastServedSeq = lastServedSeq r,
       sr_baselinePending = baselinePending r, sr_window = fr_window r,
       sr_units = map snapshot_unit (sort_by (\<lambda>a b. compare_text (fu_unitId a) (fu_unitId b)) (map snd (fr_units r))) \<rparr>"

definition take_snapshot :: "fair \<Rightarrow> fair_snapshot" where
  "take_snapshot s =
     \<lparr> fs_version = FAIRNESS_STATE_VERSION, fs_logicalNowMs = Fin (logicalNowMs s), fs_dispatchSeq = Fin (dispatchSeq s),
       fs_records = map snapshot_record (sort_by compare_record_identity (map snd (fair_records s))) \<rparr>"

definition snapshot :: "fair_snapshot fair_proc" where
  "snapshot = thenp ensure_not_granting (thenp reconcile_eligibility (bindp get_state_of (\<lambda>s. ret (take_snapshot s))))"

definition get_record_state :: "record_key \<Rightarrow> fair_record_snapshot fair_proc" where
  "get_record_state k =
     thenp ensure_not_granting (thenp reconcile_eligibility (bindp (require_record k) (\<lambda>r. ret (snapshot_record r))))"

definition input_of_snapshot :: "fair_unit_snapshot \<Rightarrow> fair_unit_input" where
  "input_of_snapshot u =
     \<lparr> in_unitId = sn_unitId u, in_layer = sn_layer u, in_estimatedCost = sn_estimatedCost u,
       in_dependencies = Some (sn_dependencies u), in_nextEligibleAt = sn_nextEligibleAt u,
       in_enqueueAt = Some (sn_enqueueAt u), in_layerEnteredAt = Some (sn_layerEnteredAt u),
       in_layerFailures = Some (sn_layerFailures u), in_totalFailures = Some (sn_totalFailures u),
       in_status = Some (sn_status u) \<rparr>"

definition require_finite :: "jnum \<Rightarrow> string \<Rightarrow> fair_error + rat" where
  "require_finite v name = (case finite_of v of None \<Rightarrow> Inl (InvalidNumber name) | Some q \<Rightarrow> Inr q)"

definition load_unit :: "record_key \<Rightarrow> fair_unit_snapshot \<Rightarrow> unit fair_proc" where
  "load_unit k u =
     thenp (add_unit_to_record k (input_of_snapshot u) (sn_parentUnitId u))
    (bindp (require_unit k (sn_unitId u)) (\<lambda>_.
       modify (on_unit k (sn_unitId u) (\<lambda>x. x\<lparr> fu_status := sn_status u, chargedCost := sn_chargedCost u \<rparr>))))"

definition load_record :: "fair_record_snapshot \<Rightarrow> unit fair_proc" where
  "load_record r =
     (let k = (sr_taskId r, sr_recordId r) in
     thenp (lift_sum (require_non_empty_string (sr_taskId r) ''snapshot.taskId''))
    (thenp (lift_sum (require_non_empty_string (sr_recordId r) ''snapshot.recordId''))
    (bindp get_state_of (\<lambda>s.
     thenp (demand RecordExists (map_of (fair_records s) k = None))
    (bindp (lift_sum (require_finite_non_negative (sr_taskCreatedAt r) ''snapshot.taskCreatedAt'')) (\<lambda>created.
     bindp (lift_sum (require_finite_non_negative (sr_serviceDebt r) ''snapshot.serviceDebt'')) (\<lambda>debt.
     bindp (lift_sum (require_finite (sr_waitingCredit r) ''snapshot.waitingCredit'')) (\<lambda>credit.
     bindp (lift_sum (require_finite_non_negative (sr_cumulativeWaitingMs r) ''snapshot.cumulativeWaitingMs'')) (\<lambda>waited.
     let x = \<lparr> fr_taskId = sr_taskId r, fr_recordId = sr_recordId r, taskCreatedAt = created, serviceDebt = debt,
               waitingCredit = credit, cumulativeWaitingMs = waited, lastServedSeq = sr_lastServedSeq r,
               baselinePending = sr_baselinePending r, fr_window = sr_window r, fr_units = [] \<rparr>
     in thenp (modify (\<lambda>s. s\<lparr> fair_records := map_put k x (fair_records s) \<rparr>))
              (for_each (load_unit k) (sr_units r)))))))))))"

definition min_jnum :: "jnum \<Rightarrow> rat \<Rightarrow> jnum" where
  "min_jnum v m = (case finite_of v of None \<Rightarrow> v | Some q \<Rightarrow> Fin (min q m))"

text \<open>\<open>restore\<close> is static: it runs on the scheduler that it creates.\<close>

definition restore_fairness :: "fair_snapshot \<Rightarrow> fair_config_input \<Rightarrow> jnum \<Rightarrow> fair_error + fair" where
  "restore_fairness x ci elapsed =
     and_then (ensure UnsupportedVersion (fs_version x = FAIRNESS_STATE_VERSION)) (\<lambda>_.
     and_then (require_finite_non_negative (fs_logicalNowMs x) ''snapshot.logicalNowMs'') (\<lambda>now.
     and_then (require_finite_non_negative (fs_dispatchSeq x) ''snapshot.dispatchSeq'') (\<lambda>seq.
     and_then (require_finite_non_negative elapsed ''restartElapsedMs'') (\<lambda>ms.
     and_then (new_fairness ci) (\<lambda>s0.
       let (res, s) = thenp (for_each load_record (fs_records x))
           (thenp reconcile_eligibility
             (if 0 < ms then advance (min_jnum elapsed (maxRestartElapsedMs (fc s0))) else ret ()))
           (s0\<lparr> logicalNowMs := now, dispatchSeq := seq \<rparr>)
       in and_then res (\<lambda>_. Inr s))))))"

end
