(* ===== verification/SchedFairnessFacts.thy ===== *)
theory SchedFairnessFacts
  imports SchedFairness
begin

text \<open>
  Facts about the fair scheduler: well-formed states, what reconciling the windows does
  to every record, and what a granted permit changes.
\<close>

section \<open>Well-formed states\<close>

text \<open>
  A record is stored under its own two identifiers and a unit under its own, no identifier is stored twice,
  and what the code checks to be non-negative stays so.
\<close>

definition unit_ok :: "string \<Rightarrow> fair_unit \<Rightarrow> bool" where
  "unit_ok i u \<longleftrightarrow> fu_unitId u = i \<and> 0 \<le> fu_estimatedCost u \<and> (case fu_nextEligibleAt u of None \<Rightarrow> True | Some t \<Rightarrow> 0 \<le> t) \<and>
     0 \<le> enqueueAt u \<and> 0 \<le> layerEnteredAt u \<and> 0 \<le> layerFailures u \<and> 0 \<le> totalFailures u"

definition record_ok :: "record_key \<Rightarrow> fair_record \<Rightarrow> bool" where
  "record_ok k r \<longleftrightarrow> k = (fr_taskId r, fr_recordId r) \<and> distinct (map fst (fr_units r)) \<and>
     (\<forall>(i, u) \<in> set (fr_units r). unit_ok i u) \<and>
     0 \<le> taskCreatedAt r \<and> 0 \<le> serviceDebt r \<and> 0 \<le> cumulativeWaitingMs r"

definition fair_ok :: "fair \<Rightarrow> bool" where
  "fair_ok s \<longleftrightarrow> distinct (map fst (fair_records s)) \<and> (\<forall>(k, r) \<in> set (fair_records s). record_ok k r) \<and>
     0 < serviceDebtWeight (fc s) \<and> 0 \<le> logicalNowMs s \<and> 0 \<le> dispatchSeq s"

abbreviation record_at :: "fair \<Rightarrow> record_key \<Rightarrow> fair_record option" where
  "record_at s \<equiv> map_of (fair_records s)"

text \<open>Everything of the scheduler but its records.\<close>

definition same_clock :: "fair \<Rightarrow> fair \<Rightarrow> bool" where
  "same_clock s s' \<longleftrightarrow> fc s' = fc s \<and> logicalNowMs s' = logicalNowMs s \<and> dispatchSeq s' = dispatchSeq s \<and>
     grantInProgress s' = grantInProgress s \<and> map fst (fair_records s') = map fst (fair_records s)"

lemma same_clock_refl [simp]: "same_clock s s"
  by (simp add: same_clock_def)

lemma same_clock_trans: "same_clock s t \<Longrightarrow> same_clock t u \<Longrightarrow> same_clock s u"
  by (simp add: same_clock_def)

lemma map_of_map_at:
  "map_of (map (\<lambda>(k', r). (k', if k' = k then f r else r)) m) j = (if j = k then map_option f (map_of m k) else map_of m j)"
  by (induction m) auto

lemma record_at_on_record: "record_at (on_record k f s) j = (if j = k then map_option f (record_at s k) else record_at s j)"
  by (simp add: on_record_def map_of_map_at)

lemma same_clock_on_record [simp]: "same_clock s (on_record k f t) \<longleftrightarrow> same_clock s t"
  by (simp add: same_clock_def on_record_def case_prod_unfold comp_def)

lemma require_record_succeeds [proc_simps]:
  "succeeds (require_record k) s r s' \<longleftrightarrow> record_at s k = Some r \<and> s' = s"
  by (auto simp: require_record_def proc_simps split: option.splits)

lemma require_unit_succeeds [proc_simps]:
  "succeeds (require_unit k u) s x s' \<longleftrightarrow> (\<exists>r. record_at s k = Some r \<and> map_of (fr_units r) u = Some x) \<and> s' = s"
  by (auto simp: require_unit_def proc_simps split: option.splits)

lemma ensure_not_granting_succeeds [proc_simps]:
  "succeeds ensure_not_granting s x s' \<longleftrightarrow> \<not> grantInProgress s \<and> s' = s"
  by (auto simp: ensure_not_granting_def proc_simps)

text \<open>A loop whose body changes the record of its key only.\<close>

definition changes_record :: "record_key \<Rightarrow> (fair_record \<Rightarrow> fair_record \<Rightarrow> bool) \<Rightarrow> fair \<Rightarrow> fair \<Rightarrow> bool" where
  "changes_record k R s s' \<longleftrightarrow> same_clock s s' \<and> (\<forall>j. j \<noteq> k \<longrightarrow> record_at s' j = record_at s j) \<and>
     (\<forall>r. record_at s k = Some r \<longrightarrow> (\<exists>r'. record_at s' k = Some r' \<and> R r r'))"

lemma for_each_records:
  assumes "succeeds (for_each f ks) s () s'" and "distinct ks"
    and "\<And>k t t'. k \<in> set ks \<Longrightarrow> same_clock s t \<Longrightarrow> succeeds (f k) t () t' \<Longrightarrow> changes_record k (R k) t t'"
  shows "same_clock s s' \<and> (\<forall>j. j \<notin> set ks \<longrightarrow> record_at s' j = record_at s j) \<and>
     (\<forall>k \<in> set ks. \<forall>r. record_at s k = Some r \<longrightarrow> (\<exists>r'. record_at s' k = Some r' \<and> R k r r'))"
  using assms
proof (induction ks arbitrary: s)
  case Nil
  then show ?case by (simp add: for_each_Nil del: for_each.simps)
next
  case (Cons k ks)
  then obtain t where t: "succeeds (f k) s () t" "succeeds (for_each f ks) t () s'"
    by (auto simp: for_each_Cons simp del: for_each.simps)
  have k: "changes_record k (R k) s t" by (rule Cons.prems(3) [OF _ _ t(1)]) simp_all
  then have st: "same_clock s t" by (simp add: changes_record_def)
  have step: "changes_record k' (R k') u u'" if "k' \<in> set ks" "same_clock t u" "succeeds (f k') u () u'" for k' u u'
    by (rule Cons.prems(3) [OF _ same_clock_trans [OF st that(2)] that(3)]) (simp add: that(1))
  have ih: "same_clock t s' \<and> (\<forall>j. j \<notin> set ks \<longrightarrow> record_at s' j = record_at t j) \<and>
     (\<forall>k \<in> set ks. \<forall>r. record_at t k = Some r \<longrightarrow> (\<exists>r'. record_at s' k = Some r' \<and> R k r r'))"
    by (rule Cons.IH [OF t(2) _ step]) (use Cons.prems(2) in simp_all)
  have "k \<notin> set ks" using Cons.prems(2) by simp
  show ?case
  proof (intro conjI allI impI ballI)
    show "same_clock s s'" using st ih same_clock_trans by blast
    show "record_at s' j = record_at s j" if "j \<notin> set (k # ks)" for j
    proof -
      have "j \<noteq> k" "j \<notin> set ks" using that by auto
      then have "record_at t j = record_at s j" "record_at s' j = record_at t j"
        using k ih unfolding changes_record_def by blast+
      then show ?thesis by simp
    qed
    show "\<exists>r'. record_at s' k' = Some r' \<and> R k' r r'" if k': "k' \<in> set (k # ks)" "record_at s k' = Some r" for k' r
    proof (cases "k' = k")
      case True
      obtain r' where r': "record_at t k = Some r'" "R k r r'"
        using k k'(2) unfolding True changes_record_def by blast
      moreover have "record_at s' k = record_at t k" using ih \<open>k \<notin> set ks\<close> by blast
      ultimately show ?thesis using True by simp
    next
      case False
      then have "record_at t k' = Some r" using k k'(2) unfolding changes_record_def by metis
      moreover have "k' \<in> set ks" using False k'(1) by simp
      ultimately show ?thesis using ih by blast
    qed
  qed
qed

section \<open>Reconciling\<close>

definition entered :: "fair_record \<Rightarrow> fair_record \<Rightarrow> bool" where
  "entered r r' \<longleftrightarrow> (\<exists>d. serviceDebt r \<le> d \<and> r' = r\<lparr> serviceDebt := d, baselinePending := False \<rparr> \<and>
     (\<not> baselinePending r \<longrightarrow> d = serviceDebt r))"

lemma enter_baseline_changes:
  assumes run: "succeeds (enter_baseline b k) s () s'" and w: "0 < serviceDebtWeight (fc s)"
  shows "changes_record k entered s s'"
proof -
  obtain r where r: "record_at s k = Some r"
    using run by (auto simp: enter_baseline_def proc_simps)
  show ?thesis
  proof (cases "baselinePending r")
    case False
    with run r have "s' = s" by (auto simp: enter_baseline_def proc_simps)
    with r False show ?thesis by (auto simp: changes_record_def entered_def intro!: exI [of _ "serviceDebt r"])
  next
    case True
    with run r obtain diff where s': "s' = on_record k (\<lambda>r. r\<lparr> baselinePending := False \<rparr>) (on_record k (\<lambda>x. x\<lparr> serviceDebt :=
        (if 0 < diff then serviceDebt r + diff / serviceDebtWeight (fc s) else serviceDebt r) \<rparr>) s)"
      by (auto simp: enter_baseline_def proc_simps Let_def)
    have "serviceDebt r \<le> (if 0 < diff then serviceDebt r + diff / serviceDebtWeight (fc s) else serviceDebt r)"
      using w by simp
    with r True show ?thesis unfolding changes_record_def s' entered_def
      by (auto simp: record_at_on_record intro: same_clock_trans)
  qed
qed

text \<open>The three things that can happen to a record when the windows are reconciled.\<close>

definition reconciled :: "rat \<Rightarrow> fair_window \<Rightarrow> fair_record \<Rightarrow> fair_record \<Rightarrow> bool" where
  "reconciled now w r r' \<longleftrightarrow>
     (if \<not> has_eligible_unit now r then r' = r\<lparr> fr_window := None \<rparr>
      else if fr_window r \<noteq> None then r' = r
      else \<exists>d. serviceDebt r \<le> d \<and> r' = r\<lparr> serviceDebt := d, baselinePending := False, fr_window := Some w \<rparr> \<and>
        (\<not> baselinePending r \<longrightarrow> d = serviceDebt r))"

lemma reconcile_records:
  assumes run: "succeeds reconcile_eligibility s () s'" and ok: "fair_ok s"
  shows "same_clock s s' \<and> (\<forall>k r. record_at s k = Some r \<longrightarrow>
     (\<exists>r'. record_at s' k = Some r' \<and> reconciled (logicalNowMs s) (next_window s) r r'))"
proof -
  let ?now = "logicalNowMs s" and ?entering = "entering_keys s" and ?s1 = "close_windows s"
  obtain b t where t: "succeeds (for_each (enter_baseline b) ?entering) ?s1 () t"
    and s': "succeeds (for_each (\<lambda>k. modify (on_record k (\<lambda>r. r\<lparr> fr_window := Some (next_window s) \<rparr>)) :: unit fair_proc) ?entering) t () s'"
    using run unfolding reconcile_eligibility_def proc_simps by (auto simp del: for_each.simps)
  have dist: "distinct (map fst (fair_records s))" using ok by (simp add: fair_ok_def)
  have distinct: "distinct ?entering"
    using dist by (simp add: entering_keys_def eligible_records_def distinct_map_filter)
  have s1: "same_clock s ?s1" by (simp add: same_clock_def close_windows_def case_prod_unfold comp_def)
  have at1: "record_at ?s1 k = map_option (\<lambda>r. if has_eligible_unit ?now r then r else r\<lparr> fr_window := None \<rparr>) (record_at s k)" for k
    by (simp add: close_windows_def map_of_map)
  have mem: "k \<in> set ?entering \<longleftrightarrow> (\<exists>r. record_at s k = Some r \<and> has_eligible_unit ?now r \<and> fr_window r = None)" for k
    unfolding entering_keys_def eligible_records_def using dist
    by (simp add: image_iff case_prod_unfold) (metis fst_conv prod.collapse snd_conv)
  have a: "same_clock ?s1 t \<and> (\<forall>j. j \<notin> set ?entering \<longrightarrow> record_at t j = record_at ?s1 j) \<and>
     (\<forall>k \<in> set ?entering. \<forall>r. record_at ?s1 k = Some r \<longrightarrow> (\<exists>r'. record_at t k = Some r' \<and> entered r r'))"
  proof (rule for_each_records [OF t distinct])
    fix k u u' assume "same_clock ?s1 u" "succeeds (enter_baseline b k) u () u'"
    then show "changes_record k entered u u'"
      by (intro enter_baseline_changes) (use ok s1 in \<open>simp_all add: same_clock_def fair_ok_def\<close>)
  qed
  have b: "same_clock t s' \<and> (\<forall>j. j \<notin> set ?entering \<longrightarrow> record_at s' j = record_at t j) \<and>
     (\<forall>k \<in> set ?entering. \<forall>r. record_at t k = Some r \<longrightarrow> (\<exists>r'. record_at s' k = Some r' \<and> r' = r\<lparr> fr_window := Some (next_window s) \<rparr>))"
    by (rule for_each_records [OF s' distinct]) (auto simp: proc_simps changes_record_def record_at_on_record)
  have "\<exists>r'. record_at s' k = Some r' \<and> reconciled ?now (next_window s) r r'" if r: "record_at s k = Some r" for k r
  proof (cases "k \<in> set ?entering")
    case False
    then have "record_at t k = record_at ?s1 k" "record_at s' k = record_at t k" using a b by blast+
    then have at: "record_at s' k = Some (if has_eligible_unit ?now r then r else r\<lparr> fr_window := None \<rparr>)" using at1 r by simp
    have "\<not> (has_eligible_unit ?now r \<and> fr_window r = None)" using False mem r by blast
    with at show ?thesis by (auto simp: reconciled_def)
  next
    case True
    with mem r have e: "has_eligible_unit ?now r" "fr_window r = None" by auto
    have "record_at ?s1 k = Some r" using at1 r e by simp
    then obtain r1 where r1: "record_at t k = Some r1" "entered r r1" using True a by blast
    then have "record_at s' k = Some (r1\<lparr> fr_window := Some (next_window s) \<rparr>)" using True b by blast
    with r1(2) e show ?thesis by (auto simp: reconciled_def entered_def)
  qed
  moreover have "same_clock s s'" using s1 a b by (blast intro: same_clock_trans)
  ultimately show ?thesis by blast
qed


section \<open>Consequences for windows and identities\<close>

lemma reconciled_units:
  "reconciled now w r r' \<Longrightarrow> fr_units r' = fr_units r \<and> fr_taskId r' = fr_taskId r \<and> fr_recordId r' = fr_recordId r \<and>
     taskCreatedAt r' = taskCreatedAt r"
  by (auto simp: reconciled_def split: if_splits)

lemma fair_eligible_units:
  assumes "fr_units r' = fr_units r"
  shows "fair_eligible now r' = fair_eligible now r"
proof -
  have "is_dependency_done r' = is_dependency_done r" by (rule ext) (simp add: is_dependency_done_def assms)
  then show ?thesis by (intro ext) (simp add: fair_eligible_def)
qed

lemma has_eligible_units:
  assumes "fr_units r' = fr_units r"
  shows "has_eligible_unit now r' = has_eligible_unit now r"
  unfolding has_eligible_unit_def fair_eligible_units [OF assms] assms ..

lemma record_at_key: "fair_ok s \<Longrightarrow> record_at s k = Some r \<Longrightarrow> record_ok k r"
  by (auto simp: fair_ok_def dest: map_of_SomeD)

lemma fair_okI:
  assumes "map fst (fair_records s') = map fst (fair_records s)" "fair_ok s"
    and "fc s' = fc s" "0 \<le> logicalNowMs s'" "0 \<le> dispatchSeq s'"
    and "\<And>k r'. record_at s' k = Some r' \<Longrightarrow> record_ok k r'"
  shows "fair_ok s'"
  using assms by (auto simp: fair_ok_def)

lemma reconciled_ok: "reconciled now w r r' \<Longrightarrow> record_ok k r \<Longrightarrow> record_ok k r'"
  unfolding reconciled_def record_ok_def by (auto split: if_splits)

lemma reconcile_ok:
  assumes "succeeds reconcile_eligibility s () s'" "fair_ok s"
  shows "fair_ok s'"
proof (rule fair_okI)
  note r = reconcile_records [OF assms]
  show dom: "map fst (fair_records s') = map fst (fair_records s)" using r by (simp add: same_clock_def)
  show "fc s' = fc s" "0 \<le> logicalNowMs s'" "0 \<le> dispatchSeq s'"
    using r assms(2) by (simp_all add: same_clock_def fair_ok_def)
  show "record_ok k r'" if "record_at s' k = Some r'" for k r'
  proof -
    have "k \<in> fst ` set (fair_records s)" using that dom by (metis map_of_eq_None_iff option.distinct(1) set_map)
    then obtain r0 where r0: "record_at s k = Some r0" by (metis map_of_eq_None_iff not_None_eq)
    obtain r1 where "record_at s' k = Some r1" "reconciled (logicalNowMs s) (next_window s) r0 r1"
      using r [THEN conjunct2, rule_format, OF r0] by blast
    with that have "reconciled (logicalNowMs s) (next_window s) r0 r'" by simp
    then show ?thesis by (rule reconciled_ok [OF _ record_at_key [OF assms(2) r0]])
  qed
qed (rule assms(2))


section \<open>Orders\<close>

interpretation numbers: comparator compare_numbers
  by unfold_locales (auto simp: compare_numbers_def split: if_splits)

text \<open>The order of the due records, on all records.\<close>

definition due_order :: "fair_record \<Rightarrow> fair_record \<Rightarrow> int" where
  "due_order l r =
     (let d = (\<lambda>x. case fr_window x of None \<Rightarrow> 0 | Some w \<Rightarrow> deadlineSeq w);
          b = (\<lambda>x. case fr_window x of None \<Rightarrow> 0 | Some w \<Rightarrow> startSeq w)
      in or_else (compare_numbers (d l) (d r)) (or_else (compare_numbers (b l) (b r))
           (or_else (compare_numbers (taskCreatedAt l) (taskCreatedAt r)) (compare_record_identity l r))))"

lemma due_order_comparator: "comparator due_order"
  unfolding due_order_def Let_def compare_record_identity_def
  by (rule comparator_chain [OF comparator_key [OF numbers.comparator_axioms]
        comparator_chain [OF comparator_key [OF numbers.comparator_axioms]
        comparator_chain [OF comparator_key [OF numbers.comparator_axioms]
        comparator_chain [OF comparator_key [OF text_order.comparator_axioms] comparator_key [OF text_order.comparator_axioms]]]]])

lemma due_order_eq: "fr_window l \<noteq> None \<Longrightarrow> fr_window r \<noteq> None \<Longrightarrow> compare_due_records l r = due_order l r"
  by (auto simp: compare_due_records_def due_order_def)

lemma due_order_strict: "due_order l r = 0 \<Longrightarrow> (fr_taskId l, fr_recordId l) = (fr_taskId r, fr_recordId r)"
  by (simp add: due_order_def Let_def compare_record_identity_def)

section \<open>Selecting\<close>

lemma record_candidates_complete:
  assumes "record_candidates s excluded = Inr cs" "(k, r) \<in> set (fair_records s)" "excluded = []"
    "has_eligible_unit (logicalNowMs s) r"
  shows "\<exists>x. (r, x) \<in> set cs"
proof -
  let ?f = "\<lambda>(_, r). and_then (select_unit (fc s) (logicalNowMs s) excluded r) (\<lambda>x. Inr (r, x))"
  obtain xs where m: "map_ok ?f (fair_records s) = Inr xs"
    and cs: "cs = concat (map (\<lambda>(r, x). case x of None \<Rightarrow> [] | Some y \<Rightarrow> [(r, y)]) xs)"
    using assms(1) by (auto simp: record_candidates_def and_then_Inr)
  from assms(2) obtain i where i: "i < length (fair_records s)" "fair_records s ! i = (k, r)" by (auto simp: in_set_conv_nth)
  have f: "?f (fair_records s ! i) = Inr (xs ! i)" and len: "i < length xs"
    using m i(1) by (auto simp: map_ok_Inr list_all2_conv_all_nth)
  from f i(2) obtain y where y: "select_unit (fc s) (logicalNowMs s) excluded r = Inr y" "xs ! i = (r, y)"
    by (auto simp: and_then_Inr)
  have y2: "(r, y) \<in> set xs" using nth_mem [OF len] y(2) by simp
  have "y \<noteq> None"
  proof
    assume "y = None"
    with y(1) obtain zs where m2: "map_ok (\<lambda>u. and_then (to_candidate (fc s) (logicalNowMs s) r u) (\<lambda>x. Inr (x, u)))
        (filter (\<lambda>u. fair_eligible (logicalNowMs s) r u) (map snd (fr_units r))) = Inr zs" and "zs = []"
      using assms(3) by (auto simp: select_unit_def Let_def and_then_Inr)
    have "filter (\<lambda>u. fair_eligible (logicalNowMs s) r u) (map snd (fr_units r)) = []"
      using map_ok_length [OF m2] \<open>zs = []\<close> by (simp add: filter_map)
    with assms(4) show False by (auto simp: has_eligible_unit_def list_ex_iff filter_empty_conv)
  qed
  with y2 show ?thesis by (force simp: cs)
qed

lemma select_due:
  assumes sel: "select_candidate s [] = Inr y" and r: "(k, r) \<in> set (fair_records s)"
    and e: "has_eligible_unit (logicalNowMs s) r" and due: "window_due (dispatchSeq s) r"
  obtains x r' k' where "y = Some x" "(k', r') \<in> set (fair_records s)" "window_due (dispatchSeq s) r'" "due_order r' r \<le> 0"
    "select_unit (fc s) (logicalNowMs s) [] r' = Inr (Some x)"
proof -
  let ?cmp = "\<lambda>a b. compare_due_records (fst a) (fst b)" and ?ord = "\<lambda>a b. due_order (fst a) (fst b)"
  obtain cs where cs: "record_candidates s [] = Inr cs" and y: "y = map_option snd
      (case first_of ?cmp (filter (\<lambda>(r, _). window_due (dispatchSeq s) r) cs) of Some y \<Rightarrow> Some y | None \<Rightarrow> first_of compare_soft_records cs)"
    using sel unfolding select_candidate_alt and_then_Inr by blast
  let ?due = "filter (\<lambda>(r, _). window_due (dispatchSeq s) r) cs"
  obtain z where "(r, z) \<in> set cs" using record_candidates_complete [OF cs r refl e] by blast
  then have mem: "(r, z) \<in> set ?due" using due by simp
  have "first_of ?cmp ?due = first_of ?ord ?due"
    unfolding first_of_def
    by (subst sort_by_cong [of ?due ?cmp ?ord]) (auto intro!: due_order_eq simp: window_due_def split: option.splits)
  moreover obtain v where v: "first_of ?ord ?due = Some v" using mem by (metis first_of_None empty_iff list.set(1) not_None_eq)
  ultimately have yv: "y = Some (snd v)" using y by simp
  have vm: "v \<in> set ?due" by (rule first_of_mem [OF v])
  have "due_order (fst v) r \<le> 0"
    using first_of_least [OF comparator_key [OF due_order_comparator, of fst] v mem] by simp
  moreover have "(fst v, snd v) \<in> set cs" "window_due (dispatchSeq s) (fst v)" using vm by (auto simp: case_prod_unfold)
  ultimately show thesis using record_candidates_mem [OF cs] that [OF yv] by metis
qed


section \<open>Granting\<close>

text \<open>The record that a permit was granted to.\<close>

definition served_record :: "fair_candidate \<Rightarrow> rat \<Rightarrow> fair_unit \<Rightarrow> fair_record \<Rightarrow> fair_record" where
  "served_record x seq u r = r\<lparr> fr_units := map (\<lambda>(k, y). (k, if k = fa_unitId x
         then y\<lparr> fu_status := FRunning, chargedCost := Some (fu_estimatedCost y) \<rparr> else y)) (fr_units r),
       serviceDebt := serviceDebt r + fu_estimatedCost u, lastServedSeq := Some (seq + 1), fr_window := None \<rparr>"

lemma commit_grant_effect:
  assumes run: "commit_grant x s = (Inr res, s')"
  obtains r u where "record_at s (fa_key x) = Some r" "map_of (fr_units r) (fa_unitId x) = Some u"
    "fair_eligible (logicalNowMs s) r u" "res = GrantedUnit (dispatchSeq s + 1) x"
    "same_clock (s\<lparr> dispatchSeq := dispatchSeq s + 1 \<rparr>) s'"
    "\<And>j. record_at s' j = (if j = fa_key x then Some (served_record x (dispatchSeq s) u r) else record_at s j)"
proof -
  have "succeeds (commit_grant x) s res s'" using run by (simp add: succeeds_def)
  then obtain r u where r: "record_at s (fa_key x) = Some r" "map_of (fr_units r) (fa_unitId x) = Some u"
      "fair_eligible (logicalNowMs s) r u" "res = GrantedUnit (dispatchSeq s + 1) x"
    and s': "s' = on_record (fa_key x) (\<lambda>r. r\<lparr> serviceDebt := serviceDebt r + fu_estimatedCost u,
              lastServedSeq := Some (dispatchSeq s + 1), fr_window := None \<rparr>)
         ((on_unit (fa_key x) (fa_unitId x) (\<lambda>u. u\<lparr> fu_status := FRunning, chargedCost := Some (fu_estimatedCost u) \<rparr>) s)
            \<lparr> dispatchSeq := dispatchSeq s + 1 \<rparr>)"
    unfolding commit_grant_def by (auto simp: proc_simps on_unit_def on_record_def)
  let ?s1 = "(on_unit (fa_key x) (fa_unitId x) (\<lambda>u. u\<lparr> fu_status := FRunning, chargedCost := Some (fu_estimatedCost u) \<rparr>) s)"
  have s1: "record_at ?s1 j = (if j = fa_key x then map_option (\<lambda>r. r\<lparr> fr_units := map (\<lambda>(k, y). (k, if k = fa_unitId x
         then y\<lparr> fu_status := FRunning, chargedCost := Some (fu_estimatedCost y) \<rparr> else y)) (fr_units r) \<rparr>) (record_at s j)
      else record_at s j)" for j
    by (simp add: on_unit_def record_at_on_record)
  show thesis
  proof (rule that [OF r])
    show "same_clock (s\<lparr> dispatchSeq := dispatchSeq s + 1 \<rparr>) s'"
      by (simp add: s' same_clock_def on_record_def on_unit_def case_prod_unfold comp_def)
    show "record_at s' j = (if j = fa_key x then Some (served_record x (dispatchSeq s) u r) else record_at s j)" for j
      by (simp add: s' record_at_on_record s1 r(1) served_record_def)
  qed
qed

lemma select_candidate_granting [simp]: "select_candidate (s\<lparr> grantInProgress := b \<rparr>) d = select_candidate s d"
  by (simp add: select_candidate_def)

lemma grant_next_permit:
  assumes "grant_next (\<lambda>_ _. Permit) s = (Inr res, s')"
  obtains t y where "succeeds reconcile_eligibility s () t" "select_candidate t [] = Inr y"
    "(y = None \<and> res = NoEligible \<and> s' = t\<lparr> grantInProgress := False \<rparr>) \<or>
     (\<exists>x t'. y = Some x \<and> commit_grant x (t\<lparr> grantInProgress := True \<rparr>) = (Inr res, t') \<and> s' = t'\<lparr> grantInProgress := False \<rparr>)"
proof -
  obtain t where t: "reconcile_eligibility s = (Inr (), t)"
    and l: "(let (res, s') = grant_loop (\<lambda>_ _. Permit) [] None (t\<lparr> grantInProgress := True \<rparr>) in (res, s'\<lparr> grantInProgress := False \<rparr>)) = (Inr res, s')"
    using assms by (auto simp: grant_next_def thenp_def bindp_def split: prod.splits sum.splits)
  then obtain t' where t': "grant_loop (\<lambda>_ _. Permit) [] None (t\<lparr> grantInProgress := True \<rparr>) = (Inr res, t')" "s' = t'\<lparr> grantInProgress := False \<rparr>"
    by (auto simp: Let_def split: prod.splits)
  obtain y where y: "select_candidate t [] = Inr y"
    using t'(1) by (cases "select_candidate t []") (auto simp: grant_loop.simps)
  show thesis
    by (rule that [OF _ y]) (use t t' y in \<open>auto simp: succeeds_def grant_loop.simps split: option.splits\<close>)
qed

section \<open>One grant while a record waits\<close>

text \<open>A record with a window that still has an eligible unit.\<close>

definition waits :: "fair \<Rightarrow> record_key \<Rightarrow> fair_record \<Rightarrow> fair_window \<Rightarrow> bool" where
  "waits s k r w \<longleftrightarrow> record_at s k = Some r \<and> fr_window r = Some w \<and> has_eligible_unit (logicalNowMs s) r"

text \<open>The other records whose window ends no later.\<close>

definition overtakers :: "fair \<Rightarrow> record_key \<Rightarrow> rat \<Rightarrow> record_key set" where
  "overtakers s k d = {j. j \<noteq> k \<and> (\<exists>r w. record_at s j = Some r \<and> fr_window r = Some w \<and> deadlineSeq w \<le> d)}"

lemma overtakers_keys: "overtakers s k d \<subseteq> fst ` set (fair_records s) - {k}"
  by (auto simp: overtakers_def dest!: map_of_SomeD intro: rev_image_eqI)

lemma finite_overtakers [simp]: "finite (overtakers s k d)"
  by (rule finite_subset [OF overtakers_keys]) simp

lemma grant_eligible:
  assumes run: "grant_next (\<lambda>_ _. Permit) s = (Inr res, s')" and ok: "fair_ok s"
    and k: "waits s k r v"
  obtains t x t' where "succeeds reconcile_eligibility s () t" "select_candidate t [] = Inr (Some x)"
    "commit_grant x (t\<lparr> grantInProgress := True \<rparr>) = (Inr res, t')" "s' = t'\<lparr> grantInProgress := False \<rparr>" "waits t k r v"
proof -
  obtain t y where t: "succeeds reconcile_eligibility s () t" and y: "select_candidate t [] = Inr y"
    and c: "(y = None \<and> res = NoEligible \<and> s' = t\<lparr> grantInProgress := False \<rparr>) \<or>
     (\<exists>x t'. y = Some x \<and> commit_grant x (t\<lparr> grantInProgress := True \<rparr>) = (Inr res, t') \<and> s' = t'\<lparr> grantInProgress := False \<rparr>)"
    by (rule grant_next_permit [OF run])
  note rec = reconcile_records [OF t ok]
  have now: "logicalNowMs t = logicalNowMs s" using rec by (simp add: same_clock_def)
  obtain r' where "record_at t k = Some r'" "reconciled (logicalNowMs s) (next_window s) r r'"
    using rec [THEN conjunct2, rule_format, of k r] k by (auto simp: waits_def)
  then have kt: "waits t k r v" using k now by (simp add: waits_def reconciled_def)
  obtain cs where cs: "record_candidates t [] = Inr cs"
    using y unfolding select_candidate_alt and_then_Inr by blast
  have "(k, r) \<in> set (fair_records t)" using kt by (simp add: waits_def map_of_SomeD)
  then obtain z where "(r, z) \<in> set cs" using record_candidates_complete [OF cs _ refl] kt unfolding waits_def by blast
  then have "first_of compare_soft_records cs \<noteq> None" by auto
  then have "y \<noteq> None" using y cs unfolding select_candidate_alt by (auto simp del: first_of_None split: option.splits)
  with c obtain x t' where "y = Some x" "commit_grant x (t\<lparr> grantInProgress := True \<rparr>) = (Inr res, t')"
    "s' = t'\<lparr> grantInProgress := False \<rparr>" by blast
  with y that [OF t] kt show thesis by blast
qed

lemma next_window_late:
  assumes "fair_ok s" "waits s k r v"
  shows "dispatchSeq s + 2 \<le> deadlineSeq (next_window s)"
proof -
  have "(k, r) \<in> set (eligible_records s)"
    using assms(2) by (auto simp: waits_def eligible_records_def map_of_SomeD)
  then have "1 \<le> length (eligible_records s)" by (cases "eligible_records s") auto
  then have "(1::rat) \<le> of_nat (length (eligible_records s))" by (metis of_nat_1 of_nat_mono)
  then show ?thesis by (simp add: next_window_def Let_def)
qed

lemma reconciled_window:
  assumes "reconciled now w r r'" "fr_window r' = Some v" "v \<noteq> w"
  shows "r' = r"
  using assms by (auto simp: reconciled_def split: if_splits)

lemma mem_record_at: "fair_ok s \<Longrightarrow> (k, r) \<in> set (fair_records s) \<Longrightarrow> record_at s k = Some r"
  by (simp add: fair_ok_def)

lemma unit_ok_running [simp]: "unit_ok i (u\<lparr> fu_status := st, chargedCost := c \<rparr>) = unit_ok i u"
  by (simp add: unit_ok_def)

lemma unit_at_ok: "record_ok k r \<Longrightarrow> map_of (fr_units r) i = Some u \<Longrightarrow> unit_ok i u"
  by (auto simp: record_ok_def dest: map_of_SomeD)

lemma served_record_ok:
  assumes "record_ok k r" "0 \<le> fu_estimatedCost u"
  shows "record_ok k (served_record x q u r)"
proof -
  have "map fst (fr_units (served_record x q u r)) = map fst (fr_units r)"
    by (simp add: served_record_def case_prod_unfold comp_def)
  then have "distinct (map fst (fr_units (served_record x q u r)))" using assms by (simp only: record_ok_def)
  with assms show ?thesis by (auto simp: record_ok_def served_record_def)
qed

lemma commit_keeps_ok:
  assumes "commit_grant x s = (Inr res, s')" "fair_ok s"
  shows "fair_ok s'"
proof -
  obtain r u where r: "record_at s (fa_key x) = Some r" and u: "map_of (fr_units r) (fa_unitId x) = Some u"
    and dom: "same_clock (s\<lparr> dispatchSeq := dispatchSeq s + 1 \<rparr>) s'"
    and new: "\<And>j. record_at s' j = (if j = fa_key x then Some (served_record x (dispatchSeq s) u r) else record_at s j)"
    by (rule commit_grant_effect [OF assms(1)]) (rule that; assumption)
  show ?thesis
  proof (rule fair_okI [OF _ assms(2)])
    show "map fst (fair_records s') = map fst (fair_records s)" "fc s' = fc s" "0 \<le> logicalNowMs s'" "0 \<le> dispatchSeq s'"
      using dom assms(2) by (simp_all add: same_clock_def fair_ok_def)
    note ok = record_at_key [OF assms(2) r]
    show "record_ok k r'" if "record_at s' k = Some r'" for k r'
    proof (cases "k = fa_key x")
      case True
      with that new have "r' = served_record x (dispatchSeq s) u r" by simp
      then show ?thesis using served_record_ok [OF ok] unit_at_ok [OF ok u] True by (simp add: unit_ok_def)
    next
      case False
      with that new have "record_at s k = Some r'" by simp
      then show ?thesis by (rule record_at_key [OF assms(2)])
    qed
  qed
qed

lemma grant_step:
  assumes run: "grant_next (\<lambda>_ _. Permit) s = (Inr res, s')" and ok: "fair_ok s"
    and k: "waits s k r v"
  obtains x where "res = GrantedUnit (dispatchSeq s + 1) x" "fair_ok s'" "fc s' = fc s" "dispatchSeq s' = dispatchSeq s + 1"
    "map fst (fair_records s') = map fst (fair_records s)"
    "fa_key x \<noteq> k \<longrightarrow> waits s' k r v"
    "fa_key x \<noteq> k \<longrightarrow> deadlineSeq v \<le> dispatchSeq s + 1 \<longrightarrow> overtakers s' k (deadlineSeq v) \<subset> overtakers s k (deadlineSeq v)"
proof -
  obtain t x t' where t: "succeeds reconcile_eligibility s () t" and sel: "select_candidate t [] = Inr (Some x)"
    and c: "commit_grant x (t\<lparr> grantInProgress := True \<rparr>) = (Inr res, t')" and s': "s' = t'\<lparr> grantInProgress := False \<rparr>"
    and kt: "waits t k r v" by (rule grant_eligible [OF run ok k])
  note rec = reconcile_records [OF t ok]
  have st: "same_clock s t" using rec by simp
  have okt: "fair_ok t" by (rule reconcile_ok [OF t ok])
  let ?t = "t\<lparr> grantInProgress := True \<rparr>"
  obtain rx u where c': "res = GrantedUnit (dispatchSeq ?t + 1) x" "same_clock (?t\<lparr> dispatchSeq := dispatchSeq ?t + 1 \<rparr>) t'"
    "\<And>j. record_at t' j = (if j = fa_key x then Some (served_record x (dispatchSeq ?t) u rx) else record_at ?t j)"
    by (rule commit_grant_effect [OF c]) (rule that; assumption)
  have res: "res = GrantedUnit (dispatchSeq t + 1) x" using c'(1) by simp
  have tt': "fc t' = fc t" "logicalNowMs t' = logicalNowMs t" "dispatchSeq t' = dispatchSeq t + 1"
    "map fst (fair_records t') = map fst (fair_records t)" using c'(2) by (simp_all add: same_clock_def)
  have at: "record_at s' j = (if j = fa_key x then Some (served_record x (dispatchSeq t) u rx) else record_at t j)" for j
    using c'(3) [of j] by (simp add: s')
  have late: "\<not> deadlineSeq (next_window s) \<le> deadlineSeq v" if "deadlineSeq v \<le> dispatchSeq s + 1"
    using next_window_late [OF ok k] that by linarith
  have old: "record_at s j = Some rj" if "record_at t j = Some rj" "fr_window rj = Some wj" "deadlineSeq wj \<le> deadlineSeq v"
    "deadlineSeq v \<le> dispatchSeq s + 1" for j rj wj
  proof -
    have "j \<in> fst ` set (fair_records s)" using that(1) st unfolding same_clock_def
      by (metis map_of_eq_None_iff option.distinct(1) set_map)
    then obtain r0 where r0: "record_at s j = Some r0" by (metis map_of_eq_None_iff not_None_eq)
    obtain r1 where "record_at t j = Some r1" "reconciled (logicalNowMs s) (next_window s) r0 r1"
      using rec [THEN conjunct2, rule_format, OF r0] by blast
    moreover have "wj \<noteq> next_window s" using late that(3,4) by blast
    ultimately have "r1 = r0" "rj = r1" using that(1,2) by (auto intro: reconciled_window)
    then show ?thesis using r0 by simp
  qed
  have served: "fr_window (served_record x (dispatchSeq t) u rx) = None" by (simp add: served_record_def)
  show thesis
  proof (rule that [of x])
    show "res = GrantedUnit (dispatchSeq s + 1) x" using res st by (simp add: same_clock_def)
    have "fair_ok (t\<lparr> grantInProgress := True \<rparr>)" using okt by (simp add: fair_ok_def)
    then have "fair_ok t'" by (rule commit_keeps_ok [OF c])
    then show "fair_ok s'" by (simp add: fair_ok_def s')
    show "fc s' = fc s" "dispatchSeq s' = dispatchSeq s + 1" "map fst (fair_records s') = map fst (fair_records s)"
      using st tt' by (simp_all add: same_clock_def s')
    have now: "logicalNowMs s' = logicalNowMs t" using tt' by (simp add: s')
    show "fa_key x \<noteq> k \<longrightarrow> waits s' k r v" using kt at [of k] now by (auto simp: waits_def)
    show "fa_key x \<noteq> k \<longrightarrow> deadlineSeq v \<le> dispatchSeq s + 1 \<longrightarrow> overtakers s' k (deadlineSeq v) \<subset> overtakers s k (deadlineSeq v)"
    proof (intro impI psubsetI)
      assume ne: "fa_key x \<noteq> k" and due: "deadlineSeq v \<le> dispatchSeq s + 1"
      show "overtakers s' k (deadlineSeq v) \<subseteq> overtakers s k (deadlineSeq v)"
      proof
        fix j assume "j \<in> overtakers s' k (deadlineSeq v)"
        then obtain rj wj where j: "j \<noteq> k" "record_at s' j = Some rj" "fr_window rj = Some wj" "deadlineSeq wj \<le> deadlineSeq v"
          unfolding overtakers_def by blast
        then have "record_at t j = Some rj" using at [of j] served by (auto split: if_splits)
        from old [OF this j(3,4) due] j show "j \<in> overtakers s k (deadlineSeq v)" unfolding overtakers_def by blast
      qed
      have "(k, r) \<in> set (fair_records t)" "has_eligible_unit (logicalNowMs t) r" "window_due (dispatchSeq t) r"
        using kt due st by (auto simp: waits_def window_due_def same_clock_def map_of_SomeD)
      then obtain k' r' where k': "(k', r') \<in> set (fair_records t)" "window_due (dispatchSeq t) r'" "due_order r' r \<le> 0"
        "select_unit (fc t) (logicalNowMs t) [] r' = Inr (Some x)" by (rule select_due [OF sel]) auto
      have "fa_key x = (fr_taskId r', fr_recordId r')"
        by (rule select_unit_mem [OF k'(4)]) (simp add: candidate_key_def prod_eq_iff)
      then have key: "fa_key x = k'" using okt k'(1) by (auto simp: fair_ok_def record_ok_def)
      obtain w' where w': "fr_window r' = Some w'" using k'(2) by (auto simp: window_due_def split: option.splits)
      have "fr_window r = Some v" using kt by (simp add: waits_def)
      then have "deadlineSeq w' \<le> deadlineSeq v" using k'(3) w'
        by (auto simp: due_order_def Let_def compare_numbers_def or_else_def split: if_splits)
      moreover have "record_at s k' = Some r'"
        by (rule old [OF mem_record_at [OF okt k'(1)] w' calculation due])
      ultimately have "k' \<in> overtakers s k (deadlineSeq v)" using w' ne key unfolding overtakers_def by blast
      moreover have "k' \<notin> overtakers s' k (deadlineSeq v)"
        using at [of k'] key served by (auto simp: overtakers_def)
      ultimately show "overtakers s' k (deadlineSeq v) \<noteq> overtakers s k (deadlineSeq v)" by blast
    qed
  qed
qed

section \<open>Grants in a row\<close>

primrec grants :: "nat \<Rightarrow> grant_result list fair_proc" where
  "grants 0 = ret []"
| "grants (Suc n) = bindp (grant_next (\<lambda>_ _. Permit)) (\<lambda>x. bindp (grants n) (\<lambda>xs. ret (x # xs)))"

definition served :: "record_key \<Rightarrow> grant_result list \<Rightarrow> bool" where
  "served k rs = list_ex (\<lambda>res. case res of GrantedUnit _ x \<Rightarrow> fa_key x = k | _ \<Rightarrow> False) rs"

lemma grants_Suc:
  "succeeds (grants (Suc n)) s rs s' \<longleftrightarrow> (\<exists>res rest t. rs = res # rest \<and>
     grant_next (\<lambda>_ _. Permit) s = (Inr res, t) \<and> succeeds (grants n) t rest s')"
  by (auto simp: proc_simps) (auto simp: succeeds_def)

text \<open>A record that is due is served after at most one grant for each overtaker.\<close>

lemma due_served:
  assumes "succeeds (grants n) s rs s'" "fair_ok s" "waits s k r v"
    "deadlineSeq v \<le> dispatchSeq s + 1" "card (overtakers s k (deadlineSeq v)) < n"
  shows "served k rs"
  using assms
proof (induction n arbitrary: s rs)
  case (Suc n)
  obtain res rest t where rs: "rs = res # rest" and g: "grant_next (\<lambda>_ _. Permit) s = (Inr res, t)"
    and rest: "succeeds (grants n) t rest s'" using Suc.prems(1) grants_Suc by blast
  obtain x where x: "res = GrantedUnit (dispatchSeq s + 1) x" "fair_ok t" "fc t = fc s" "dispatchSeq t = dispatchSeq s + 1"
      "map fst (fair_records t) = map fst (fair_records s)" and skip: "fa_key x \<noteq> k \<longrightarrow> waits t k r v"
      "fa_key x \<noteq> k \<longrightarrow> deadlineSeq v \<le> dispatchSeq s + 1 \<longrightarrow> overtakers t k (deadlineSeq v) \<subset> overtakers s k (deadlineSeq v)"
    by (rule grant_step [OF g Suc.prems(2,3)])
  show ?case
  proof (cases "fa_key x = k")
    case True
    then show ?thesis by (simp add: rs served_def x(1))
  next
    case False
    have "card (overtakers t k (deadlineSeq v)) < card (overtakers s k (deadlineSeq v))"
      by (rule psubset_card_mono [OF finite_overtakers skip(2) [rule_format, OF False Suc.prems(4)]])
    then have "served k rest"
      by (intro Suc.IH [OF rest x(2) skip(1) [rule_format, OF False]]) (use Suc.prems(4,5) x(3,4) in simp_all)
    then show ?thesis by (simp add: rs served_def)
  qed
qed simp

lemma card_overtakers:
  assumes "waits s k r v"
  shows "card (overtakers s k d) < length (fair_records s)"
proof -
  have k: "k \<in> fst ` set (fair_records s)" using assms by (force simp: waits_def dest: map_of_SomeD)
  have "card (overtakers s k d) \<le> card (fst ` set (fair_records s) - {k})"
    by (rule card_mono [OF _ overtakers_keys]) simp
  also have "\<dots> < card (fst ` set (fair_records s))"
    by (rule psubset_card_mono) (use k in auto)
  also have "\<dots> \<le> length (fair_records s)" by (metis card_length set_map length_map)
  finally show ?thesis .
qed

lemma waiting_served:
  assumes "succeeds (grants n) s rs s'" "fair_ok s" "waits s k r v"
    "deadlineSeq v \<le> dispatchSeq s + 1 + of_nat m" "m + length (fair_records s) \<le> n"
  shows "served k rs"
  using assms
proof (induction m arbitrary: s rs n)
  case 0
  then show ?case using due_served [OF 0(1-3)] card_overtakers [OF 0(3)] by (auto intro: less_le_trans)
next
  case (Suc m)
  then obtain n' where n: "n = Suc n'" by (cases n) auto
  obtain res rest t where rs: "rs = res # rest" and g: "grant_next (\<lambda>_ _. Permit) s = (Inr res, t)"
    and rest: "succeeds (grants n') t rest s'" using Suc.prems(1) grants_Suc unfolding n by blast
  obtain x where x: "res = GrantedUnit (dispatchSeq s + 1) x" "fair_ok t" "fc t = fc s" "dispatchSeq t = dispatchSeq s + 1"
      "map fst (fair_records t) = map fst (fair_records s)" and skip: "fa_key x \<noteq> k \<longrightarrow> waits t k r v"
      "fa_key x \<noteq> k \<longrightarrow> deadlineSeq v \<le> dispatchSeq s + 1 \<longrightarrow> overtakers t k (deadlineSeq v) \<subset> overtakers s k (deadlineSeq v)"
    by (rule grant_step [OF g Suc.prems(2,3)])
  show ?case
  proof (cases "fa_key x = k")
    case True
    then show ?thesis by (simp add: rs served_def x(1))
  next
    case False
    have "length (fair_records t) = length (fair_records s)" using x(5) by (metis length_map)
    then have "served k rest"
      by (intro Suc.IH [OF rest x(2) skip(1) [rule_format, OF False]]) (use Suc.prems(4,5) x(3,4) n in simp_all)
    then show ?thesis by (simp add: rs served_def)
  qed
qed

end
