(* ===== verification/SchedFairnessKeeps.thy ===== *)
theory SchedFairnessKeeps
  imports SchedFairnessFacts
begin

text \<open>
  Every operation of the fair scheduler keeps the state well-formed, in calls that throw too. A scheduler
  is then driven by any sequence of operations.
\<close>

section \<open>Changes of the map\<close>

lemma map_put_mem: "x \<in> set (map_put k v m) \<Longrightarrow> x = (k, v) \<or> x \<in> set m"
  by (induction k v m rule: map_put.induct) (auto split: if_splits)

lemma fair_ok_fields [simp]:
  "fair_ok (s\<lparr> grantInProgress := b \<rparr>) = fair_ok s"
  "fair_ok s \<Longrightarrow> 0 \<le> t \<Longrightarrow> fair_ok (s\<lparr> logicalNowMs := t \<rparr>)"
  "fair_ok s \<Longrightarrow> 0 \<le> t \<Longrightarrow> fair_ok (s\<lparr> dispatchSeq := t \<rparr>)"
  by (simp_all add: fair_ok_def)

lemma fair_ok_on_record:
  assumes "fair_ok s" "\<And>r. record_ok k r \<Longrightarrow> record_ok k (f r)"
  shows "fair_ok (on_record k f s)"
proof (rule fair_okI [OF _ assms(1)])
  show "map fst (fair_records (on_record k f s)) = map fst (fair_records s)"
    "fc (on_record k f s) = fc s" "0 \<le> logicalNowMs (on_record k f s)" "0 \<le> dispatchSeq (on_record k f s)"
    using assms(1) by (simp_all add: on_record_def case_prod_unfold comp_def fair_ok_def)
  show "record_ok j r'" if "record_at (on_record k f s) j = Some r'" for j r'
  proof (cases "j = k")
    case True
    with that obtain r where "record_at s k = Some r" "r' = f r" by (auto simp: record_at_on_record)
    then show ?thesis using assms(2) record_at_key [OF assms(1)] True by blast
  next
    case False
    with that show ?thesis using record_at_key [OF assms(1)] by (simp add: record_at_on_record)
  qed
qed

lemma record_ok_map_units:
  assumes "record_ok k r" "\<And>u. unit_ok i u \<Longrightarrow> unit_ok i (f u)"
  shows "record_ok k (r\<lparr> fr_units := map (\<lambda>(j, x). (j, if j = i then f x else x)) (fr_units r) \<rparr>)"
proof -
  have "map fst (map (\<lambda>(j, x). (j, if j = i then f x else x)) (fr_units r)) = map fst (fr_units r)"
    by (simp add: case_prod_unfold comp_def)
  then have "distinct (map fst (map (\<lambda>(j, x). (j, if j = i then f x else x)) (fr_units r)))"
    using assms(1) by (simp only: record_ok_def)
  moreover have "unit_ok j (if j = i then f x else x)" if "(j, x) \<in> set (fr_units r)" for j x
    using that assms by (auto simp: record_ok_def)
  ultimately show ?thesis using assms(1) by (auto simp: record_ok_def case_prod_unfold)
qed

lemma fair_ok_on_unit: "fair_ok s \<Longrightarrow> (\<And>x. unit_ok u x \<Longrightarrow> unit_ok u (f x)) \<Longrightarrow> fair_ok (on_unit k u f s)"
  unfolding on_unit_def by (intro fair_ok_on_record record_ok_map_units)

lemma fair_ok_close_windows: "fair_ok s \<Longrightarrow> fair_ok (close_windows s)"
  by (auto simp: fair_ok_def close_windows_def case_prod_unfold comp_def record_ok_def)

lemma record_ok_put_unit: "record_ok k r \<Longrightarrow> unit_ok i u \<Longrightarrow> record_ok k (r\<lparr> fr_units := map_put i u (fr_units r) \<rparr>)"
  by (auto simp: record_ok_def distinct_map_put dest!: map_put_mem)

lemma fair_ok_put_record:
  "fair_ok s \<Longrightarrow> record_ok k r \<Longrightarrow> fair_ok (s\<lparr> fair_records := map_put k r (fair_records s) \<rparr>)"
  by (auto simp: fair_ok_def distinct_map_put dest!: map_put_mem)

section \<open>Procedures\<close>

named_theorems keeping \<open>procedures that keep the identities\<close>

lemma keeps_bind_lift: "(\<And>a. r = Inr a \<Longrightarrow> keeps I (f a)) \<Longrightarrow> keeps I (bindp (lift_sum r) f)"
  by (cases r) (auto simp: keeps_def bindp_def lift_sum_def)

lemma keeps_bind_get: "(\<And>s. I s \<Longrightarrow> keeps I (f s)) \<Longrightarrow> keeps I (bindp get_state_of f)"
  by (auto simp: keeps_def bindp_def get_state_of_def)

lemma keeps_bind_record: "(\<And>r. record_ok k r \<Longrightarrow> keeps fair_ok (f r)) \<Longrightarrow> keeps fair_ok (bindp (require_record k) f)"
  using record_at_key
  by (auto simp: keeps_def bindp_def require_record_def get_state_of_def throw_def ret_def split: prod.splits sum.splits option.splits)

lemma keeps_bind_unit: "(\<And>u. unit_ok i u \<Longrightarrow> keeps fair_ok (f u)) \<Longrightarrow> keeps fair_ok (bindp (require_unit k i) f)"
proof -
  assume f: "\<And>u. unit_ok i u \<Longrightarrow> keeps fair_ok (f u)"
  have "fair_ok (snd (bindp (require_unit k i) f s))" if ok: "fair_ok s" for s
  proof (cases "record_at s k")
    case None
    then show ?thesis using ok by (simp add: bindp_def require_unit_def require_record_def get_state_of_def throw_def)
  next
    case (Some r)
    then have r: "record_ok k r" by (rule record_at_key [OF ok])
    show ?thesis
    proof (cases "map_of (fr_units r) i")
      case None
      with Some ok show ?thesis by (simp add: bindp_def require_unit_def require_record_def get_state_of_def throw_def ret_def)
    next
      case (Some u)
      have "fair_ok (snd (f u s))" using f [OF unit_at_ok [OF r Some]] ok by (simp add: keeps_def)
      with Some \<open>record_at s k = Some r\<close> show ?thesis
        by (simp add: bindp_def require_unit_def require_record_def get_state_of_def ret_def)
    qed
  qed
  then show ?thesis by (simp add: keeps_def)
qed

lemmas keeps_basic = keeps_bind_lift keeps_bind_get keeps_bind_record keeps_bind_unit keeps_bind keeps_then keeps_if
  keeps_for_each keeps_simps

lemma keeps_option: "keeps I m \<Longrightarrow> (\<And>x. keeps I (f x)) \<Longrightarrow> keeps I (case v of None \<Rightarrow> m | Some x \<Rightarrow> f x)"
  by (cases v) simp_all

lemma keeps_ensure [keeping]: "keeps fair_ok ensure_not_granting"
  unfolding ensure_not_granting_def by (intro keeps_basic)

lemma keeps_require_record [keeping]: "keeps fair_ok (require_record k)"
  unfolding require_record_def by (intro keeps_basic keeps_option)

lemma keeps_require_unit [keeping]: "keeps fair_ok (require_unit k u)"
  unfolding require_unit_def by (intro keeps_basic keeping keeps_option)

lemma keeps_on_record [keeping]:
  "(\<And>r. record_ok k r \<Longrightarrow> record_ok k (f r)) \<Longrightarrow> keeps fair_ok (modify (on_record k f))"
  by (intro keeps_modify fair_ok_on_record)

lemma keeps_on_unit [keeping]: "(\<And>x. unit_ok u x \<Longrightarrow> unit_ok u (f x)) \<Longrightarrow> keeps fair_ok (modify (on_unit k u f))"
  by (intro keeps_modify fair_ok_on_unit)

lemma keeps_close_windows [keeping]: "keeps fair_ok (modify close_windows)"
  by (intro keeps_modify fair_ok_close_windows)

lemma keeps_clock [keeping]: "0 \<le> t \<Longrightarrow> keeps fair_ok (modify (\<lambda>s. s\<lparr> logicalNowMs := t \<rparr>))"
  by (intro keeps_modify) simp

lemma keeps_seq [keeping]: "keeps fair_ok (modify (\<lambda>s. s\<lparr> dispatchSeq := dispatchSeq s + 1 \<rparr>))"
  by (intro keeps_modify) (simp add: fair_ok_def)

lemma keeps_put_record [keeping]:
  "record_ok k r \<Longrightarrow> keeps fair_ok (modify (\<lambda>s. s\<lparr> fair_records := map_put k r (fair_records s) \<rparr>))"
  by (intro keeps_modify fair_ok_put_record)

lemma record_ok_fields [simp]:
  "record_ok k (r\<lparr> baselinePending := b \<rparr>) = record_ok k r"
  "record_ok k (r\<lparr> fr_window := w \<rparr>) = record_ok k r" "record_ok k (r\<lparr> waitingCredit := d \<rparr>) = record_ok k r"
  "record_ok k (r\<lparr> lastServedSeq := q \<rparr>) = record_ok k r"
  "record_ok k r \<Longrightarrow> 0 \<le> d \<Longrightarrow> record_ok k (r\<lparr> serviceDebt := d \<rparr>)"
  "record_ok k r \<Longrightarrow> 0 \<le> d \<Longrightarrow> record_ok k (r\<lparr> cumulativeWaitingMs := d \<rparr>)"
  by (simp_all add: record_ok_def)

lemma record_okD: "record_ok k r \<Longrightarrow> 0 \<le> serviceDebt r \<and> 0 \<le> cumulativeWaitingMs r"
  by (simp add: record_ok_def)

lemma fair_okD: "fair_ok s \<Longrightarrow> 0 < serviceDebtWeight (fc s) \<and> 0 \<le> logicalNowMs s \<and> 0 \<le> dispatchSeq s"
  by (simp add: fair_ok_def)

section \<open>Operations\<close>

lemma keeps_enter_baseline [keeping]: "keeps fair_ok (enter_baseline b k)"
  unfolding enter_baseline_def Let_def
  by (intro keeps_basic keeping) (auto intro!: record_ok_fields(5) add_nonneg_nonneg divide_nonneg_pos dest: record_okD fair_okD)

lemma keeps_reconcile [keeping]: "keeps fair_ok reconcile_eligibility"
  unfolding reconcile_eligibility_def by (intro keeps_basic keeping) simp_all

lemma keeps_rebase [keeping]: "keeps fair_ok (rebase_waiting_credits c)"
  unfolding rebase_waiting_credits_def Let_def by (intro keeps_basic keeping) (auto intro!: keeps_basic keeping)

lemma keeps_credit_round [keeping]: "keeps fair_ok (credit_round cs)"
  unfolding credit_round_def by (intro keeps_basic keeping) (auto intro!: keeps_basic keeping)

lemma keeps_add_credits_from: "fair_ok s \<Longrightarrow> fair_ok (snd (add_credits_from m q cs s))"
proof (induction m q cs s rule: add_credits_from.induct)
  case (1 maxStep rate rem s)
  let ?r = "credit_round (map (\<lambda>(k, m). (k, if m \<le> 0 then 0 else min m maxStep * rate)) rem) s"
  have "fair_ok (snd ?r)" using keeps_credit_round "1.prems" by (simp add: keeps_def)
  then show ?case using 1
    by (subst add_credits_from.simps) (auto split: prod.splits sum.splits)
qed

lemma keeps_add_waiting [keeping]: "keeps fair_ok (add_waiting_credits cs)"
  unfolding add_waiting_credits_def by (intro keeps_basic) (simp add: keeps_def keeps_add_credits_from)

lemma non_negative_number: "require_finite_non_negative x n = Inr q \<Longrightarrow> 0 \<le> q"
  by (auto simp: require_finite_non_negative_def split: option.splits if_splits)

lemma waited_in_positive: "(k, w) \<in> set (waited_in a b s) \<Longrightarrow> 0 \<le> w"
  by (auto simp: waited_in_def split: option.splits if_splits)

lemma keeps_advance [keeping]: "keeps fair_ok (advance e)"
  unfolding advance_def Let_def
  by (intro keeps_basic keeping)
    (auto intro!: keeps_basic keeping record_ok_fields(6) add_nonneg_nonneg
      dest: non_negative_number waited_in_positive fair_okD record_okD)

lemma number_or_nonneg: "number_or v d n = Inr q \<Longrightarrow> 0 \<le> d \<Longrightarrow> 0 \<le> q"
  by (auto simp: number_or_def split: option.splits dest: non_negative_number)

lemma optional_number_nonneg: "optional_number v n = Inr (Some q) \<Longrightarrow> 0 \<le> q"
  by (auto simp: optional_number_def and_then_Inr split: option.splits dest: non_negative_number)

lemma unit_of_input_ok:
  assumes "unit_of_input now i p = Inr u" "0 \<le> now"
  shows "unit_ok (in_unitId i) u"
proof -
  obtain cost enqueued ent nxt lf tf where n: "require_finite_non_negative (in_estimatedCost i) ''estimatedCost'' = Inr cost"
      "number_or (in_enqueueAt i) now ''enqueueAt'' = Inr enqueued"
      "number_or (in_layerEnteredAt i) enqueued ''layerEnteredAt'' = Inr ent"
      "optional_number (in_nextEligibleAt i) ''nextEligibleAt'' = Inr nxt"
      "number_or (in_layerFailures i) 0 ''layerFailures'' = Inr lf" "number_or (in_totalFailures i) 0 ''totalFailures'' = Inr tf"
    and u: "fu_unitId u = in_unitId i" "fu_estimatedCost u = cost" "enqueueAt u = enqueued" "layerEnteredAt u = ent"
      "fu_nextEligibleAt u = nxt" "layerFailures u = lf" "totalFailures u = tf"
    using assms(1) by (auto simp: unit_of_input_def and_then_Inr)
  have "0 \<le> enqueued" by (rule number_or_nonneg [OF n(2) assms(2)])
  moreover have "0 \<le> ent" by (rule number_or_nonneg [OF n(3) calculation])
  moreover have "case nxt of None \<Rightarrow> True | Some t \<Rightarrow> 0 \<le> t" using n(4) optional_number_nonneg by (cases "nxt") auto
  ultimately show ?thesis
    using non_negative_number [OF n(1)] number_or_nonneg [OF n(5)] number_or_nonneg [OF n(6)] by (simp add: unit_ok_def u)
qed

lemma keeps_add_unit_to_record [keeping]: "keeps fair_ok (add_unit_to_record k i p)"
  unfolding add_unit_to_record_def
  by (intro keeps_basic keeping record_ok_put_unit) (auto intro: unit_of_input_ok dest: fair_okD)

lemma keeps_add_record [keeping]: "keeps fair_ok (add_record i)"
  unfolding add_record_def Let_def
  by (intro keeps_basic keeping) (auto simp: record_ok_def dest: non_negative_number number_or_nonneg)

lemma keeps_add_unit [keeping]: "keeps fair_ok (add_unit k i)"
  unfolding add_unit_def by (intro keeps_basic keeping)

lemma unit_ok_fields [simp]:
  "unit_ok i (u\<lparr> fu_layer := l \<rparr>) = unit_ok i u" "unit_ok i (u\<lparr> fu_dependencies := d \<rparr>) = unit_ok i u"
  "unit_ok i (u\<lparr> fu_status := st \<rparr>) = unit_ok i u" "unit_ok i (u\<lparr> chargedCost := c \<rparr>) = unit_ok i u"
  "unit_ok i u \<Longrightarrow> 0 \<le> q \<Longrightarrow> unit_ok i (u\<lparr> fu_estimatedCost := q \<rparr>)"
  "unit_ok i u \<Longrightarrow> 0 \<le> q \<Longrightarrow> unit_ok i (u\<lparr> fu_nextEligibleAt := Some q \<rparr>)"
  "unit_ok i u \<Longrightarrow> unit_ok i (u\<lparr> fu_nextEligibleAt := None \<rparr>)"
  "unit_ok i u \<Longrightarrow> 0 \<le> q \<Longrightarrow> unit_ok i (u\<lparr> enqueueAt := q \<rparr>)"
  "unit_ok i u \<Longrightarrow> 0 \<le> q \<Longrightarrow> unit_ok i (u\<lparr> layerEnteredAt := q \<rparr>)"
  "unit_ok i u \<Longrightarrow> 0 \<le> q \<Longrightarrow> unit_ok i (u\<lparr> layerFailures := q \<rparr>)"
  "unit_ok i u \<Longrightarrow> 0 \<le> q \<Longrightarrow> unit_ok i (u\<lparr> totalFailures := q \<rparr>)"
  by (simp_all add: unit_ok_def)

lemma keeps_assign [keeping]:
  assumes "\<And>q x. unit_ok u x \<Longrightarrow> 0 \<le> q \<Longrightarrow> unit_ok u (f q x)"
  shows "keeps fair_ok (assign_number k u v name f)"
  unfolding assign_number_def by (intro keeps_option keeps_basic keeping) (auto intro: assms dest: non_negative_number)

lemma keeps_update_unit [keeping]: "keeps fair_ok (update_unit k u v)"
  unfolding update_unit_def by (intro keeps_basic keeps_option keeping) simp_all

lemma keeps_settle_unit [keeping]: "keeps fair_ok (settle_unit k u i)"
  unfolding settle_unit_def
proof (intro keeps_basic keeping)
  fix actual r x assume actual: "require_finite_non_negative (actualCost i) ''actualCost'' = Inr actual"
  show "keeps fair_ok (case (fu_status x = FRunning, chargedCost x) of (True, Some charged) \<Rightarrow>
      thenp (modify (on_record k (\<lambda>r. r\<lparr> serviceDebt := max 0 (serviceDebt r + actual - charged) \<rparr>)))
        (thenp (modify (on_unit k u (\<lambda>x. x\<lparr> chargedCost := None, fu_status := st_status i \<rparr>)))
        (thenp (if st_status i = FQueued
                then bindp (lift_sum (optional_number (st_nextEligibleAt i) ''nextEligibleAt'')) (\<lambda>next.
                       modify (on_unit k u (\<lambda>x. x\<lparr> fu_nextEligibleAt := next \<rparr>)))
                else ret ())
               reconcile_eligibility)) | _ \<Rightarrow> throw NotRunning)"
  proof (cases "(fu_status x = FRunning, chargedCost x)" rule: prod.exhaust)
    case (Pair run charged)
    have nextok: "unit_ok u (x\<lparr> fu_nextEligibleAt := nxt \<rparr>)"
      if "optional_number (st_nextEligibleAt i) ''nextEligibleAt'' = Inr nxt" "unit_ok u x" for nxt x
      using that optional_number_nonneg by (cases nxt) auto
    show ?thesis unfolding Pair
      by (cases run; cases charged) (auto intro!: keeps_basic keeping nextok)
  qed
qed

lemma keeps_split_unit [keeping]: "keeps fair_ok (split_unit k p cs)"
  unfolding split_unit_def Let_def by (intro keeps_basic keeping) (auto intro!: keeping)

lemma keeps_commit [keeping]: "keeps fair_ok (commit_grant x)"
  unfolding commit_grant_def
  by (intro keeps_basic keeping) (auto simp: record_ok_def unit_ok_def)

lemma keeps_grant_loop: "fair_ok s \<Longrightarrow> fair_ok (snd (grant_loop p d l s))"
proof (induction p d l s rule: grant_loop.induct)
  case (1 permit denied lastDenied s)
  have "fair_ok (snd (commit_grant x s))" for x using keeps_commit "1.prems" by (simp add: keeps_def)
  then show ?case using 1
    by (subst grant_loop.simps) (auto split: sum.splits option.splits permit_decision.splits)
qed

lemma keeps_grant_next [keeping]: "keeps fair_ok (grant_next p)"
  unfolding grant_next_def
proof (intro keeps_basic keeping)
  show "keeps fair_ok (\<lambda>s. let (res, s') = grant_loop p [] None (s\<lparr> grantInProgress := True \<rparr>) in (res, s'\<lparr> grantInProgress := False \<rparr>))"
    unfolding keeps_def Let_def case_prod_unfold snd_conv fair_ok_fields(1)
    by (intro allI impI keeps_grant_loop) simp
qed

lemma keeps_snapshot [keeping]: "keeps fair_ok snapshot" "keeps fair_ok (get_record_state k)"
  unfolding snapshot_def get_record_state_def by (intro keeps_basic keeping)+

lemma keeps_load_record [keeping]: "keeps fair_ok (load_record r)"
  unfolding load_record_def load_unit_def Let_def
  by (intro keeps_basic keeping) (auto simp: record_ok_def dest: non_negative_number)

section \<open>Runs\<close>

datatype fair_op =
  AddRecord fair_record_input | AddUnit record_key fair_unit_input | UpdateUnit record_key string fair_unit_update
| Advance jnum | SettleUnit record_key string settle_input
| SplitUnit record_key string "(fair_unit_input \<times> bool) list"
| GrantNext "unit_key list \<Rightarrow> fair_candidate \<Rightarrow> permit_decision" | Snapshot | GetRecordState record_key

text \<open>The caller may catch what a call throws and go on.\<close>

fun run_fair :: "fair_op \<Rightarrow> fair \<Rightarrow> fair" where
  "run_fair (AddRecord i) s = snd (add_record i s)"
| "run_fair (AddUnit k i) s = snd (add_unit k i s)"
| "run_fair (UpdateUnit k u v) s = snd (update_unit k u v s)"
| "run_fair (Advance e) s = snd (advance e s)"
| "run_fair (SettleUnit k u i) s = snd (settle_unit k u i s)"
| "run_fair (SplitUnit k p cs) s = snd (split_unit k p cs s)"
| "run_fair (GrantNext p) s = snd (grant_next p s)"
| "run_fair Snapshot s = snd (snapshot s)"
| "run_fair (GetRecordState k) s = snd (get_record_state k s)"

lemma keepsD: "keeps I m \<Longrightarrow> I s \<Longrightarrow> I (snd (m s))"
  by (simp add: keeps_def)

lemma run_fair_ok: "fair_ok s \<Longrightarrow> fair_ok (run_fair f s)"
  by (cases f) (auto intro!: keepsD [of fair_ok] keeping)

lemma fold_run_fair_ok: "fair_ok s \<Longrightarrow> fair_ok (fold run_fair fs s)"
  by (induction fs arbitrary: s) (auto intro: run_fair_ok)

lemma config_value_pos: "config_value v d = Inr q \<Longrightarrow> 0 < q"
  by (auto simp: config_value_def split: option.splits if_splits)

lemma new_fairness_ok:
  assumes "new_fairness i = Inr s"
  shows "fair_ok s"
proof -
  obtain c where c: "merge_config i = Inr c" and s: "s = \<lparr> fc = c, fair_records = [], logicalNowMs = 0, dispatchSeq = 0, grantInProgress = False \<rparr>"
    using assms by (auto simp: new_fairness_def and_then_Inr)
  from c obtain b where "config_value (ci_serviceDebtWeight i) (serviceDebtWeight DEFAULT_FAIRNESS_CONFIG) = Inr b" "serviceDebtWeight c = b"
    by (auto simp: merge_config_def Let_def and_then_Inr)
  with config_value_pos show ?thesis by (auto simp: fair_ok_def s)
qed

lemma restore_fairness_ok:
  assumes "restore_fairness x ci e = Inr s"
  shows "fair_ok s"
proof -
  obtain now seq s0 and ms :: rat where n: "require_finite_non_negative (fs_logicalNowMs x) ''snapshot.logicalNowMs'' = Inr now"
      "require_finite_non_negative (fs_dispatchSeq x) ''snapshot.dispatchSeq'' = Inr seq" and s0: "new_fairness ci = Inr s0"
    and s: "snd (thenp (for_each load_record (fs_records x)) (thenp reconcile_eligibility
             (if 0 < ms then advance (min_jnum e (maxRestartElapsedMs (fc s0))) else ret ())) (s0\<lparr> logicalNowMs := now, dispatchSeq := seq \<rparr>)) = s"
    using assms unfolding restore_fairness_def and_then_Inr Let_def case_prod_unfold
    sum.inject by blast
  have "fair_ok (s0\<lparr> logicalNowMs := now, dispatchSeq := seq \<rparr>)"
    using new_fairness_ok [OF s0] non_negative_number n by simp
  then show ?thesis unfolding s [symmetric] by (intro keepsD [of fair_ok] keeps_basic keeping)
qed

end
