(* ===== verification/SchedFairnessProps.thy ===== *)
theory SchedFairnessProps
  imports SchedFairnessKeeps
begin

text \<open>
  The properties of the fair scheduler: a waiting record is served after a bounded number of grants, the
  windows follow eligibility, every run keeps the state well-formed, a settled attempt is charged at its
  actual cost. A small scheduler with three records shows that their hypotheses can hold.
\<close>

section \<open>A scheduler with three records\<close>

definition no_config :: fair_config_input where
  "no_config = \<lparr> ci_waitingCreditPerMs = None, ci_serviceDebtWeight = None, ci_maxRestartElapsedMs = None,
     ci_layerWaitHorizonMs = None, ci_taskAgeHorizonMs = None, ci_unitQueueCreditQuantumMs = None, ci_sizeCostCap = None,
     ci_layerFailureCap = None, ci_totalFailureCap = None, ci_layerWaitWeight = None, ci_taskAgeWeight = None,
     ci_unitQueueCreditWeight = None, ci_sizeWeight = None, ci_layerFailureWeight = None, ci_totalFailureWeight = None,
     ci_completionWeight = None \<rparr>"

definition demo_unit :: "string \<Rightarrow> rat \<Rightarrow> fair_unit_input" where
  "demo_unit u cost = \<lparr> in_unitId = u, in_layer = ''L1'', in_estimatedCost = Fin cost, in_dependencies = None,
     in_nextEligibleAt = None, in_enqueueAt = None, in_layerEnteredAt = None, in_layerFailures = None,
     in_totalFailures = None, in_status = None \<rparr>"

definition demo_record :: "string \<Rightarrow> rat \<Rightarrow> string list \<Rightarrow> fair_record_input" where
  "demo_record r cost us = \<lparr> ri_taskId = ''t'', ri_recordId = r, ri_taskCreatedAt = Fin 0, ri_serviceDebt = None,
     ri_units = map (\<lambda>u. demo_unit u cost) us \<rparr>"

definition start_fair :: fair where
  "start_fair = \<lparr> fc = DEFAULT_FAIRNESS_CONFIG, fair_records = [], logicalNowMs = 0, dispatchSeq = 0, grantInProgress = False \<rparr>"

definition demo_fair :: fair where
  "demo_fair = fold run_fair [AddRecord (demo_record ''a'' 3 [''1'', ''2'']), AddRecord (demo_record ''b'' 3 [''1'']), Snapshot] start_fair"

definition crowded_fair :: fair where
  "crowded_fair = fold run_fair [AddRecord (demo_record ''a'' 0 [''1'', ''2'', ''3'', ''4'', ''5'']),
     AddRecord (demo_record ''b'' 0 [''1'']), AddRecord (demo_record ''c'' 0 [''1'']), Snapshot] start_fair"

definition grant_order :: "(fair_error + grant_result list) \<times> fair \<Rightarrow> (rat \<times> string) list option" where
  "grant_order r = (case fst r of Inl _ \<Rightarrow> None
     | Inr xs \<Rightarrow> Some (concat (map (\<lambda>x. case x of GrantedUnit q y \<Rightarrow> [(q, snd (fa_key y))] | _ \<Rightarrow> []) xs)))"

text \<open>
  Evaluation decides the comparisons with the largest number on small operands first.
\<close>

definition small_value :: rat where
  "small_value = 1000000000000"

lemma small_value: "0 < small_value" "4 * small_value * small_value \<le> max_value"
  by (simp_all add: max_value_def small_value_def)

lemma max_value_code [code]: "max_value = 179769313486231570814527423731704356798070567525844996598917476803157260780028538760589558632766878171540458953514382464234321326889464182768467546703537516986049910576551282076245490090389328944075868508455133942304583236903222948165808559332123348274797826204144723168738177180919299881250404026184124858368"
  by (simp add: max_value_def)

lemma representable_code [code]: "representable q \<longleftrightarrow> \<bar>q\<bar> \<le> small_value \<or> \<bar>q\<bar> \<le> max_value"
  using small_value by (auto simp: representable_def small_value_def)

lemma product_small:
  assumes "0 < right" "left \<le> small_value" "right \<le> small_value"
  shows "\<not> max_value / right < left"
proof (cases "0 \<le> left")
  case True
  then have "left * right \<le> small_value * small_value" using assms by (intro mult_mono) simp_all
  also have "\<dots> \<le> max_value" using small_value by (simp add: small_value_def)
  finally show ?thesis using assms(1) by (simp add: not_less pos_le_divide_eq)
next
  case False
  moreover have "0 < max_value / right" using assms(1) by (simp add: max_value_def)
  ultimately show ?thesis by linarith
qed

lemma finite_positive_product_code [code]:
  "finite_positive_product left right =
     and_then (check_non_negative left ''weighted score value'') (\<lambda>_.
     and_then (check_non_negative right ''weighted score weight'') (\<lambda>_.
       if left = 0 \<or> right = 0 then Inr 0
       else if left \<le> small_value \<and> right \<le> small_value then Inr (left * right)
       else Inr (if max_value / right < left then max_value else left * right)))"
  unfolding finite_positive_product_def
  by (cases "0 \<le> right") (auto simp: check_non_negative_def ensure_def product_small)

lemma sum_from_code [code]:
  "sum_from acc (v # vs) =
     and_then (check_non_negative v ''weighted score term'') (\<lambda>_.
       if acc \<le> small_value \<and> v \<le> small_value then sum_from (acc + v) vs
       else if max_value - v < acc then Inr max_value else sum_from (acc + v) vs)"
  "sum_from acc [] = Inr acc"
  using small_value by (auto simp: small_value_def)

lemma new_fairness_default: "new_fairness no_config = Inr start_fair"
  by code_simp

definition demo_settle :: settle_input where
  "demo_settle = \<lparr> actualCost = Fin 5, st_status = FDone, st_nextEligibleAt = None \<rparr>"

definition running_fair :: fair where
  "running_fair = snd (grant_next (\<lambda>_ _. Permit) demo_fair)"

definition granted_candidate :: "(fair_error + grant_result) \<times> fair \<Rightarrow> fair_candidate" where
  "granted_candidate r = (case projr (fst r) of GrantedUnit _ x \<Rightarrow> x)"

lemma succeeds_results: "\<not> isl (fst (m s)) \<Longrightarrow> succeeds m s (projr (fst (m s))) (snd (m s))"
  unfolding succeeds_def by (cases "m s") (auto simp: isl_def split: sum.splits elim: sum.exhaust_sel)

lemma demo_fair_ok: "fair_ok demo_fair" "fair_ok crowded_fair"
  unfolding demo_fair_def crowded_fair_def by (rule fold_run_fair_ok [OF new_fairness_ok [OF new_fairness_default]])+

section \<open>Waiting records are served\<close>

text \<open>
  C16: While permits are granted and no call throws, a record whose window is open and that keeps an
  eligible unit is served: when its deadline is at most \<open>m\<close> grants beyond the next one, it is among the first
  \<open>m + N\<close> grants, with \<open>N\<close> the number of records. (A due record can be overtaken only by records whose window
  ends no later, and each of those gets a later window once it is served.)
\<close>

theorem waiting_record_is_served:
  assumes "succeeds (grants n) s rs s'" "fair_ok s"
    and "record_at s k = Some r" "fr_window r = Some v" "has_eligible_unit (logicalNowMs s) r"
    and "deadlineSeq v \<le> dispatchSeq s + 1 + of_nat m" "m + length (fair_records s) \<le> n"
  shows "served k rs"
  by (rule waiting_served [OF assms(1,2) _ assms(6,7)]) (use assms(3-5) in \<open>simp add: waits_def\<close>)

theorem waiting_record_is_served_witness:
  "served (''t'', ''b'') (projr (fst (grants 5 demo_fair)))"
proof -
  let ?r = "the (record_at demo_fair (''t'', ''b''))"
  have ok: "\<not> isl (fst (grants 5 demo_fair))" by code_simp
  show ?thesis
  proof (rule waiting_record_is_served [where n = 5 and m = 3 and s = demo_fair and r = ?r and v = "the (fr_window ?r)"])
    show "succeeds (grants 5) demo_fair (projr (fst (grants 5 demo_fair))) (snd (grants 5 demo_fair))"
      by (rule succeeds_results [of "grants 5" demo_fair, OF ok])
    show "fair_ok demo_fair" by (rule demo_fair_ok)
  qed code_simp+
qed

text \<open>
  The deadline itself can be missed: of three records whose deadline is the sixth grant, \<open>b\<close> is served
  by the sixth and \<open>c\<close> by the seventh.
\<close>

theorem window_deadline_missed:
  "map_option (\<lambda>r. map_option deadlineSeq (fr_window r)) (record_at crowded_fair (''t'', ''c'')) = Some (Some 6) \<and>
   grant_order (grants 7 crowded_fair) = Some [(1, ''a''), (2, ''a''), (3, ''a''), (4, ''a''), (5, ''a''), (6, ''b''), (7, ''c'')]"
  by code_simp

section \<open>Windows\<close>

lemma reconcile_fixed:
  assumes "\<And>k r. (k, r) \<in> set (fair_records s) \<Longrightarrow> has_eligible_unit (logicalNowMs s) r = (fr_window r \<noteq> None)"
  shows "snd (reconcile_eligibility s) = s"
proof -
  have "map (\<lambda>(k, r). (k, if has_eligible_unit (logicalNowMs s) r then r else r\<lparr> fr_window := None \<rparr>)) (fair_records s) = fair_records s"
    by (rule map_idI) (use assms in \<open>auto\<close>)
  then have c: "close_windows s = s" by (simp add: close_windows_def)
  have "entering_keys s = []" using assms by (force simp: entering_keys_def eligible_records_def filter_empty_conv)
  with c show ?thesis
    by (simp add: reconcile_eligibility_def bindp_def thenp_def get_state_of_def modify_def lift_sum_def ret_def split: sum.split)
qed

text \<open>
  C17: Reconciling the windows opens one for exactly the records that have an eligible unit, and doing it
  again changes nothing.
\<close>

theorem windows_follow_eligibility:
  assumes "reconcile_eligibility s = (Inr (), s')" "fair_ok s"
  shows "list_all (\<lambda>(k, r). has_eligible_unit (logicalNowMs s') r = (fr_window r \<noteq> None)) (fair_records s')
    \<and> snd (reconcile_eligibility s') = s'"
proof -
  have run: "succeeds reconcile_eligibility s () s'" using assms(1) by (simp add: succeeds_def)
  note rec = reconcile_records [OF run assms(2)] and ok = reconcile_ok [OF run assms(2)]
  have *: "has_eligible_unit (logicalNowMs s') r = (fr_window r \<noteq> None)" if r: "(k, r) \<in> set (fair_records s')" for k r
  proof -
    have "map fst (fair_records s') = map fst (fair_records s)" using rec by (simp add: same_clock_def)
    then have "k \<in> fst ` set (fair_records s)" using r by (metis fst_conv image_eqI set_map)
    then obtain r0 where r0: "record_at s k = Some r0" by (metis map_of_eq_None_iff not_None_eq)
    obtain r1 where "record_at s' k = Some r1" "reconciled (logicalNowMs s) (next_window s) r0 r1"
      using rec [THEN conjunct2, rule_format, OF r0] by blast
    then have r1: "reconciled (logicalNowMs s) (next_window s) r0 r" using mem_record_at [OF ok r] by simp
    have "has_eligible_unit (logicalNowMs s) r = has_eligible_unit (logicalNowMs s) r0"
      by (rule has_eligible_units) (simp only: reconciled_units [OF r1])
    moreover have "logicalNowMs s' = logicalNowMs s" using rec by (simp add: same_clock_def)
    ultimately show ?thesis using r1 by (auto simp: reconciled_def split: if_splits)
  qed
  then show ?thesis using reconcile_fixed [of s'] by (auto simp: list_all_iff)
qed

theorem windows_follow_eligibility_witness:
  "snd (reconcile_eligibility (snd (reconcile_eligibility demo_fair))) = snd (reconcile_eligibility demo_fair)"
proof -
  have "\<not> isl (fst (reconcile_eligibility demo_fair))" by code_simp
  from succeeds_results [of reconcile_eligibility demo_fair, OF this] have "reconcile_eligibility demo_fair = (Inr (), snd (reconcile_eligibility demo_fair))"
    by (simp add: succeeds_def)
  from windows_follow_eligibility [OF this demo_fair_ok(1)] show ?thesis by blast
qed

section \<open>Well-formed states\<close>

text \<open>
  C18: From a new scheduler on, every sequence of operations, with permits that grant, deny, pass on or throw,
  and with calls that throw, leaves a well-formed state: records and units under their own identifiers, none
  twice, with debts, costs, waiting times and clocks that are not negative.
\<close>

theorem fairness_state_stays_well_formed:
  assumes "new_fairness i = Inr s"
  shows "fair_ok (fold run_fair fs s)"
  by (rule fold_run_fair_ok [OF new_fairness_ok [OF assms]])

theorem fairness_state_stays_well_formed_witness:
  "fair_ok (fold run_fair [AddRecord (demo_record ''a'' 3 [''1'']), GrantNext (\<lambda>_ _. PermitThrows), Advance NaN] start_fair)"
  by (rule fairness_state_stays_well_formed [OF new_fairness_default])

section \<open>Charging\<close>

text \<open>What settling does to the record before the windows are reconciled.\<close>

lemma settle_effect:
  assumes "settle_unit k u i s = (Inr (), s')" "fair_ok s" "record_at s k = Some r" "map_of (fr_units r) u = Some x"
    "chargedCost x = Some charged" "actualCost i = Fin a"
  obtains t r1 where "fair_ok t" "record_at t k = Some r1" "serviceDebt r1 = max 0 (serviceDebt r + a - charged)"
    "baselinePending r1 = baselinePending r" "succeeds reconcile_eligibility t () s'" "0 \<le> a"
proof -
  let ?t0 = "on_unit k u (\<lambda>x. x\<lparr> chargedCost := None, fu_status := st_status i \<rparr>)
     (on_record k (\<lambda>r. r\<lparr> serviceDebt := max 0 (serviceDebt r + a - charged) \<rparr>) s)"
  have "succeeds (settle_unit k u i) s () s'" using assms(1) by (simp add: succeeds_def)
  then have run: "succeeds (thenp (if st_status i = FQueued
                then bindp (lift_sum (optional_number (st_nextEligibleAt i) ''nextEligibleAt'')) (\<lambda>next.
                       modify (on_unit k u (\<lambda>x. x\<lparr> fu_nextEligibleAt := next \<rparr>)))
                else ret ()) reconcile_eligibility) ?t0 () s'" and a: "require_finite_non_negative (Fin a) ''actualCost'' = Inr a"
    using assms(3-6) unfolding settle_unit_def
    by (auto simp: proc_simps require_finite_non_negative_def split: bool.splits if_splits)
  obtain t where t: "t = ?t0 \<or> (\<exists>n. optional_number (st_nextEligibleAt i) ''nextEligibleAt'' = Inr n \<and> t = on_unit k u (\<lambda>x. x\<lparr> fu_nextEligibleAt := n \<rparr>) ?t0)"
    and rec: "succeeds reconcile_eligibility t () s'"
  proof (cases "st_status i = FQueued")
    case True
    with run obtain n where "optional_number (st_nextEligibleAt i) ''nextEligibleAt'' = Inr n"
      "succeeds reconcile_eligibility (on_unit k u (\<lambda>x. x\<lparr> fu_nextEligibleAt := n \<rparr>) ?t0) () s'"
      by (auto simp: proc_simps)
    then show thesis by (intro that disjI2 exI conjI) (assumption | rule refl)+
  next
    case False
    with run show thesis by (intro that disjI1) (simp_all add: proc_simps)
  qed
  have ok0: "fair_ok ?t0" by (intro fair_ok_on_unit fair_ok_on_record assms(2)) simp_all
  have "fair_ok (on_unit k u (\<lambda>x. x\<lparr> fu_nextEligibleAt := n \<rparr>) ?t0)"
    if "optional_number (st_nextEligibleAt i) ''nextEligibleAt'' = Inr n" for n
    using that optional_number_nonneg by (intro fair_ok_on_unit ok0) (cases n; auto)
  with t ok0 have "fair_ok t" by blast
  moreover have "\<exists>r1. record_at t k = Some r1 \<and> serviceDebt r1 = max 0 (serviceDebt r + a - charged) \<and>
      baselinePending r1 = baselinePending r"
    using t by (auto simp: on_unit_def record_at_on_record assms(3))
  moreover have "0 \<le> a" by (rule non_negative_number [OF a])
  ultimately show thesis using that rec by blast
qed

lemma reconcile_keeps_debt:
  assumes "succeeds reconcile_eligibility s () s'" "fair_ok s" "record_at s k = Some r" "\<not> baselinePending r"
  obtains r' where "record_at s' k = Some r'" "serviceDebt r' = serviceDebt r" "\<not> baselinePending r'"
    "fr_units r' = fr_units r"
proof -
  obtain r' where r': "record_at s' k = Some r'" "reconciled (logicalNowMs s) (next_window s) r r'"
    using reconcile_records [OF assms(1,2), THEN conjunct2, rule_format, OF assms(3)] by blast
  then show thesis using assms(4) by (intro that [OF r'(1)]) (auto simp: reconciled_def split: if_splits)
qed

text \<open>
  A granted attempt is charged its estimate and, once settled, exactly its actual cost: the service debt
  of a record that has joined a window grows by the actual cost, whatever the estimate was.
\<close>

theorem settled_attempt_costs_what_it_cost:
  assumes "fair_ok s" "record_at s k = Some r" "\<not> baselinePending r"
    and "grant_next (\<lambda>_ _. Permit) s = (Inr (GrantedUnit q x), s1)" "fa_key x = k"
    and "settle_unit k (fa_unitId x) i s1 = (Inr (), s2)" "actualCost i = Fin a"
  shows "map_option serviceDebt (record_at s2 k) = Some (serviceDebt r + a)"
proof -
  obtain t y where t: "succeeds reconcile_eligibility s () t"
    and c: "(y = None \<and> GrantedUnit q x = NoEligible \<and> s1 = t\<lparr> grantInProgress := False \<rparr>) \<or>
     (\<exists>x' t'. y = Some x' \<and> commit_grant x' (t\<lparr> grantInProgress := True \<rparr>) = (Inr (GrantedUnit q x), t') \<and> s1 = t'\<lparr> grantInProgress := False \<rparr>)"
    by (rule grant_next_permit [OF assms(4)])
  then obtain x' t' where x': "commit_grant x' (t\<lparr> grantInProgress := True \<rparr>) = (Inr (GrantedUnit q x), t')"
    and s1: "s1 = t'\<lparr> grantInProgress := False \<rparr>" by blast
  obtain r1 where r1: "record_at t k = Some r1" "serviceDebt r1 = serviceDebt r" "\<not> baselinePending r1" "fr_units r1 = fr_units r"
    by (rule reconcile_keeps_debt [OF t assms(1-3)])
  let ?t = "t\<lparr> grantInProgress := True \<rparr>"
  obtain ra u where c': "record_at ?t (fa_key x') = Some ra" "map_of (fr_units ra) (fa_unitId x') = Some u"
    "GrantedUnit q x = GrantedUnit (dispatchSeq ?t + 1) x'"
    "\<And>j. record_at t' j = (if j = fa_key x' then Some (served_record x' (dispatchSeq ?t) u ra) else record_at ?t j)"
    by (rule commit_grant_effect [OF x']) (rule that; assumption)
  have ra: "record_at t (fa_key x') = Some ra" "map_of (fr_units ra) (fa_unitId x') = Some u"
    and x: "GrantedUnit q x = GrantedUnit (dispatchSeq t + 1) x'" using c'(1-3) by simp_all
  have at: "record_at t' j = (if j = fa_key x' then Some (served_record x' (dispatchSeq t) u ra) else record_at t j)" for j
    using c'(4) [of j] by simp
  have key: "x' = x" "fa_key x' = k" using x assms(5) by simp_all
  have ra1: "ra = r1" using ra(1) r1(1) key by simp
  let ?served = "served_record x (dispatchSeq t) u r1"
  have s1k: "record_at s1 k = Some ?served" using at [of k] key ra1 by (simp add: s1)
  have "map_of (map (\<lambda>(k, y). (k, if k = fa_unitId x then f y else y)) m) (fa_unitId x) = map_option f (map_of m (fa_unitId x))"
    for f :: "fair_unit \<Rightarrow> fair_unit" and m by (simp add: map_of_map_at)
  then have unit: "map_of (fr_units ?served) (fa_unitId x) = Some (u\<lparr> fu_status := FRunning, chargedCost := Some (fu_estimatedCost u) \<rparr>)"
    using ra(2) by (simp add: served_record_def ra1 key)
  have ok1: "fair_ok s1" using commit_keeps_ok [OF x'] reconcile_ok [OF t assms(1)] by (simp add: s1)
  obtain t2 r2 where t2: "fair_ok t2" "record_at t2 k = Some r2" "serviceDebt r2 = max 0 (serviceDebt ?served + a - fu_estimatedCost u)"
    "baselinePending r2 = baselinePending ?served" "succeeds reconcile_eligibility t2 () s2" "0 \<le> a"
    by (rule settle_effect [OF assms(6) ok1 s1k unit _ assms(7)]) simp
  have "0 \<le> serviceDebt r" using record_at_key [OF assms(1,2)] by (simp add: record_ok_def)
  then have "serviceDebt r2 = serviceDebt r + a" using t2(3,6) r1(2) by (simp add: served_record_def)
  moreover have "\<not> baselinePending r2" using t2(4) r1(3) by (simp add: served_record_def)
  ultimately show ?thesis using reconcile_keeps_debt [OF t2(5,1,2)] by (metis option.simps(9))
qed

theorem settled_attempt_costs_what_it_cost_witness:
  "map_option serviceDebt (record_at (snd (settle_unit (''t'', ''a'') ''1'' demo_settle (snd (grant_next (\<lambda>_ _. Permit) demo_fair)))) (''t'', ''a''))
     = Some (serviceDebt (the (record_at demo_fair (''t'', ''a''))) + 5)"
proof -
  let ?g = "grant_next (\<lambda>_ _. Permit) demo_fair" and ?x = "granted_candidate (grant_next (\<lambda>_ _. Permit) demo_fair)"
  have g: "?g = (Inr (GrantedUnit 1 ?x), snd ?g)"
  proof -
    have "case fst ?g of Inl _ \<Rightarrow> False | Inr res \<Rightarrow> (case res of GrantedUnit q x \<Rightarrow> q = 1 | _ \<Rightarrow> False)" by code_simp
    then show ?thesis
      by (cases "?g") (simp add: granted_candidate_def split: sum.splits grant_result.splits)
  qed
  have x: "fa_key ?x = (''t'', ''a'')" "fa_unitId ?x = ''1''" by code_simp+
  have "\<not> isl (fst (settle_unit (''t'', ''a'') ''1'' demo_settle (snd ?g)))" by code_simp
  from succeeds_results [of "settle_unit (''t'', ''a'') ''1'' demo_settle" "snd ?g", OF this]
  have st: "settle_unit (''t'', ''a'') (fa_unitId ?x) demo_settle (snd ?g) = (Inr (), snd (settle_unit (''t'', ''a'') ''1'' demo_settle (snd ?g)))"
    by (simp add: succeeds_def x)
  show ?thesis
    by (rule settled_attempt_costs_what_it_cost [OF demo_fair_ok(1) _ _ g x(1) st]) code_simp+
qed

text \<open>
  C19: A rejected settlement is not undone: when a settled attempt is to be queued again and its
  \<open>nextEligibleAt\<close> is invalid, the call throws, with the debt already adjusted, the charge gone and the unit queued.
\<close>

theorem rejected_settlement_has_changed_the_unit:
  assumes "\<not> grantInProgress s" "record_at s k = Some r" "map_of (fr_units r) u = Some x"
    and "fu_status x = FRunning" "chargedCost x = Some c" "actualCost i = Fin a" "0 \<le> a"
    and "st_status i = FQueued" "st_nextEligibleAt i = Some v" "require_finite_non_negative v ''nextEligibleAt'' = Inl e"
  shows "fst (settle_unit k u i s) = Inl e \<and>
    (case record_at (snd (settle_unit k u i s)) k of None \<Rightarrow> False
     | Some r' \<Rightarrow> serviceDebt r' = max 0 (serviceDebt r + a - c) \<and>
         map_of (fr_units r') u = Some (x\<lparr> chargedCost := None, fu_status := FQueued \<rparr>))"
proof -
  let ?t = "on_unit k u (\<lambda>x. x\<lparr> chargedCost := None, fu_status := st_status i \<rparr>)
     (on_record k (\<lambda>r. r\<lparr> serviceDebt := max 0 (serviceDebt r + a - c) \<rparr>) s)"
  have "require_finite_non_negative (Fin a) ''actualCost'' = Inr a" using assms(7) by (simp add: require_finite_non_negative_def)
  then have "settle_unit k u i s = (Inl e, ?t)"
    using assms by (simp add: settle_unit_def thenp_def bindp_def ensure_not_granting_def demand_def get_state_of_def lift_sum_def
        require_record_def require_unit_def ret_def modify_def optional_number_def)
  then show ?thesis by (simp add: on_unit_def record_at_on_record assms map_of_map_at)
qed

theorem rejected_settlement_has_changed_the_unit_witness:
  "fst (settle_unit (''t'', ''a'') ''1'' (demo_settle\<lparr> st_status := FQueued, st_nextEligibleAt := Some NaN \<rparr>) running_fair)
     = Inl (InvalidNumber ''nextEligibleAt'')"
proof -
  let ?i = "demo_settle\<lparr> st_status := FQueued, st_nextEligibleAt := Some NaN \<rparr>"
  let ?r = "the (record_at running_fair (''t'', ''a''))"
  let ?x = "the (map_of (fr_units ?r) ''1'')"
  have v: "st_nextEligibleAt ?i = Some NaN" "require_finite_non_negative NaN ''nextEligibleAt'' = Inl (InvalidNumber ''nextEligibleAt'')"
    by code_simp+
  have "record_at running_fair (''t'', ''a'') = Some ?r" "map_of (fr_units ?r) ''1'' = Some ?x" "fu_status ?x = FRunning"
    "chargedCost ?x = Some 3" "\<not> grantInProgress running_fair" by code_simp+
  from rejected_settlement_has_changed_the_unit [OF this(5,1,2,3,4) _ _ _ v] show ?thesis
    by (simp add: demo_settle_def)
qed

end
