(* ===== verification/LedgerTypes.thy ===== *)
theory LedgerTypes
  imports ToolkitBase
begin

text \<open>
  The persisted state of the record scheduler (\<open>src/mcps/memory-store/src/record-scheduler-contracts.ts\<close>):
  the ledger of a task with its candidates, sources, works, units, attempts and commits.

  A ledger is read from JSON, so its numbers are finite: exact rationals. The record types stand for
  values whose fields have the declared types; what the checks of the code demand beyond that are
  definitions over them. The free-form \<open>filters\<close> of a snapshot, which no check reads, are left out.
\<close>

section \<open>Enumerations\<close>

datatype source_chain = SAntigravity | SCodex | SClaudeCode | SWindsurf | SDsh

datatype attempt_provider = PAntigravity | PCodex | PClaudeCode | PGrok | PAgy | PLocal

datatype model_route = RAuto | RProvider attempt_provider

datatype candidate_state = Fresh | Stale | Missing | Unresolved | Lost | Conflict

datatype ledger_failure_class =
  FcCongestion | FcAvailability | FcQuality | FcComplexity | FcLocalResource | FcUnknownOutcome
| FcDeterministicInput | FcPersistence

datatype repair_state = RepNone | RepRequired | RepRepairing | RepBlocked

datatype task_state =
  TAccepted | TPreparing | TQueued | TRunning | TCommitting | TCancelRequested | TCancelling | TSucceeded | TDeferred
| TFailedFinal | TCancelled | TRepairRequired

datatype ledger_unit_state =
  UMaterialized | UBlocked | UQueued | URunning | UWaitingRetry | UResultReady | UCommitting | USucceeded | UFailedFinal
| UUnknownOutcome | UCancelled | UDiscarded | USuperseded

datatype attempt_state =
  ACreated | ADispatchIntentPersisted | ADispatched | AKnownSuccess | AKnownFailure | AUnknownOutcome | ADiscarded

datatype attempt_outcome = OcDispatched | OcKnownSuccess | OcKnownFailure | OcUnknownOutcome | OcDiscarded

datatype commit_state =
  CNotStarted | CResultReady | CBodyStaged | CPublishIntent | CBodyPublished | CMainIndexWritten | CReaderIndexWritten
| CVerified | CCleanupPending | CCompensated | CRepairRequired | CAbandoned

datatype cleanup_state = KNotRequired | KCleanupIntentPersisted | KCompensating | KVerified | KRepairRequired

datatype admission_kind = ViaTransport | ViaSynthetic | ViaLocal

datatype dispatch_phase = PhPermitGranted | PhAttemptBound | PhInvoking

datatype traffic_class = TcForeground | TcRecord | TcAgyFirstRunOverflow | TcAgyFallback

section \<open>Snapshots\<close>

record blob_ref =
  bl_path :: string
  bl_hash :: string
  bl_byteLength :: rat

record read_range =
  rr_startRound :: rat
  rr_endRound :: rat
  rr_totalRounds :: rat

record snapshot_revision =
  sv_snapshotId :: string
  sv_snapshotRevision :: rat

record enumeration =
  en_chain :: source_chain
  en_complete :: bool
  en_paginationExhausted :: bool
  en_truncated :: bool
  en_watermark :: "string option"
  en_error :: "string option"

record candidate =
  cd_conversationId :: string
  cd_chain :: source_chain
  cd_workspaceHash :: string
  cd_state :: candidate_state
  cd_evidence :: "string list"
  cd_evidenceHash :: string
  cd_recordIndexRevision :: "string option"

datatype request_mode = RmNormal | RmForce | RmStaleOnly

record candidate_snapshot =
  cs_schemaVersion :: rat
  cs_snapshotId :: string
  cs_snapshotRevision :: rat
  cs_snapshotHash :: string
  cs_snapshotRef :: blob_ref
  cs_createdAt :: string
  cs_requestMode :: request_mode
  cs_selectionLimit :: "rat option"
  cs_enumerations :: "enumeration list"
  cs_candidates :: "candidate list"
  cs_recordIndexRevision :: "string option"

record source_snapshot =
  ss_schemaVersion :: rat
  ss_sourceSnapshotId :: string
  ss_snapshotRevision :: rat
  ss_snapshotHash :: string
  ss_snapshotRef :: blob_ref
  ss_conversationId :: string
  ss_chain :: source_chain
  ss_workspaceHash :: string
  ss_sourceRevision :: string
  ss_desiredRevision :: string
  ss_sourceRevisionSequence :: "rat option"
  ss_eventWatermark :: "string option"
  ss_contentHash :: string
  ss_contentRef :: blob_ref
  ss_formatterVersion :: string
  ss_readRange :: read_range
  ss_complete :: bool
  ss_gaps :: "string list"
  ss_parseWarnings :: "string list"

record materialization_selection =
  ms_sourceKey :: string
  ms_chain :: source_chain
  ms_workspaceHash :: string
  ms_conversationId :: string
  ms_candidateState :: candidate_state
  ms_evidenceHash :: string

datatype outcome_kind = OkAccepted | OkUnresolved | OkConflict

record materialization_outcome =
  mo_sourceKey :: string
  mo_kind :: outcome_kind
  mo_observedAt :: string
  mo_sourceSnapshotId :: "string option"
  mo_sourceRevision :: "string option"
  mo_contentHash :: "string option"
  mo_previousContentHash :: "string option"
  mo_evidenceHash :: "string option"
  mo_scanId :: "string option"
  mo_reason :: "string option"

datatype materialization_phase = MpIntent | MpSealed

record source_materialization =
  sm_schemaVersion :: rat
  sm_phase :: materialization_phase
  sm_candidateSnapshotId :: string
  sm_candidateSnapshotHash :: string
  sm_selectionHash :: string
  sm_selected :: "materialization_selection list"
  sm_outcomes :: "materialization_outcome list"
  sm_markerRef :: "blob_ref option"

record resolution_issue =
  ri_host :: source_chain
  ri_conversationId :: "string option"
  ri_code :: string
  ri_message :: string
  ri_evidenceHashes :: "string list"

datatype resolution_phase = RpPending | RpFrozen | RpMaterialized | RpDeferred

text \<open>\<open>deferredReason\<close> is any string of the JSON value; the declared type allows one.\<close>

record source_resolution =
  sr_phase :: resolution_phase
  sr_selectedCount :: "rat option"
  sr_materializedCount :: rat
  sr_unresolvedCount :: rat
  sr_deferredReason :: "string option"
  sr_issues :: "resolution_issue list"

section \<open>Commits\<close>

record fencing_token =
  ft_schedulerEpoch :: rat
  ft_recordCommitEpoch :: rat
  ft_fencingToken :: rat
  ft_workLeaseId :: string

record before_image =
  bi_path :: string
  bi_existed :: bool
  bi_revision :: "string option"
  bi_hash :: "string option"
  bi_contentRef :: "blob_ref option"

record before_image_bundle =
  bb_commitId :: string
  bb_capturedAt :: string
  bb_body :: before_image
  bb_mainIndexEntry :: before_image
  bb_readerIndexEntry :: before_image
  bb_fence :: fencing_token

datatype refresh_state = RsQueued | RsRunning

record pending_refresh =
  pr_refreshKey :: string
  pr_refreshTaskId :: string
  pr_sourceSnapshotId :: string
  pr_recordWorkKey :: string
  pr_chain :: source_chain
  pr_workspaceHash :: string
  pr_conversationId :: string
  pr_fromRevision :: string
  pr_desiredRevision :: string
  pr_persistedAt :: string
  pr_ledgerRevision :: rat
  pr_ledgerRef :: blob_ref
  pr_state :: refresh_state

record index_entry =
  ie_revision :: string
  ie_entryHash :: string
  ie_commitId :: string
  ie_recordWorkKey :: string
  ie_sourceSnapshotId :: string
  ie_bodyHash :: string
  ie_coveredRevision :: string

record read_back =
  rb_verifiedAt :: string
  rb_bodyHash :: string
  rb_mainIndexRevision :: string
  rb_readerIndexRevision :: string
  rb_mainIndexEntry :: index_entry
  rb_readerIndexEntry :: index_entry

datatype commit_ownership = TaskExclusive string | SharedOwners "string list"

datatype cleanup_disposition = CdAbsent | CdRestoredBeforeImage | CdSupersededByHigherEpoch

record cleanup_target =
  ct_path :: string
  ct_taskCommitVisible :: bool
  ct_disposition :: cleanup_disposition
  ct_observedHash :: "string option"
  ct_observedRevision :: "string option"
  ct_observedRecordCommitEpoch :: "rat option"
  ct_observedCommitId :: "string option"
  ct_observedRecordWorkKey :: "string option"

record superseding_commit =
  sc_commitId :: string
  sc_recordWorkKey :: string
  sc_recordCommitEpoch :: rat
  sc_bodyHash :: string
  sc_mainIndexEntryHash :: string
  sc_readerIndexEntryHash :: string

record cleanup_read_back =
  cb_commitId :: string
  cb_taskId :: string
  cb_recordWorkKey :: string
  cb_verifiedAt :: string
  cb_registryRevision :: rat
  cb_body :: cleanup_target
  cb_mainIndexEntry :: cleanup_target
  cb_readerIndexEntry :: cleanup_target
  cb_supersedingCommit :: "superseding_commit option"
  cb_fence :: fencing_token

text \<open>The recorded conditions are partial: a missing one is \<open>None\<close>.\<close>

datatype success_condition =
  CandidateSnapshotFrozen | SourceSnapshotPersisted | ModelOutputBoundAndQualified | BodyAtomicallyWritten
| MainIndexPublished | ReaderIndexConsistent | LedgerConsistent | ReadBackVerified

record commit =
  cm_schemaVersion :: rat
  cm_commitId :: string
  cm_taskId :: string
  cm_unitId :: string
  cm_attemptId :: string
  cm_recordWorkKey :: string
  cm_sourceSnapshotId :: string
  cm_inputHash :: string
  cm_outputHash :: string
  cm_accepted :: bool
  cm_reason :: "string option"
  cm_bodyRef :: blob_ref
  cm_bodyHash :: string
  cm_mainIndexRevision :: "string option"
  cm_readerIndexRevision :: "string option"
  cm_mainIndexEntry :: "index_entry option"
  cm_readerIndexEntry :: "index_entry option"
  cm_ownership :: commit_ownership
  cm_beforeImage :: "before_image_bundle option"
  cm_coveredRevision :: "string option"
  cm_observedSourceRevisionAtCommit :: string
  cm_pendingRefresh :: "pending_refresh option"
  cm_state :: commit_state
  cm_cleanupPhase :: cleanup_state
  cm_verifiedAt :: "string option"
  cm_readBack :: "read_back option"
  cm_cleanupReadBack :: "cleanup_read_back option"
  cm_successConditions :: "(success_condition \<times> bool) list"
  cm_fence :: fencing_token

section \<open>Works, tasks, units and attempts\<close>

record record_work =
  rw_recordWorkKey :: string
  rw_conversationId :: string
  rw_chain :: source_chain
  rw_workspaceHash :: string
  rw_desiredRevision :: string
  rw_recordCommitEpoch :: rat
  rw_registryRevision :: rat
  rw_registryRef :: blob_ref
  rw_schedulerEpoch :: rat
  rw_workLeaseId :: string
  rw_leaseOwnerId :: string
  rw_leaseExpiresAt :: string
  rw_activeTaskIds :: "string list"
  rw_currentFencingToken :: rat

record ledger_anchor =
  la_path :: string
  la_revision :: rat
  la_hash :: string

record admission_identity =
  ai_requestKey :: string
  ai_requestHash :: string

datatype task_admission = LedgerCreated | EnvelopeBound ledger_anchor blob_ref string

datatype task_request_mode = TmUpdate | TmBatchUpdate

record record_counts =
  rc_total :: rat
  rc_succeeded :: rat
  rc_failed :: rat
  rc_unresolved :: rat

record unit_counts =
  uc_materialized :: rat
  uc_eligible :: rat
  uc_running :: rat
  uc_done :: rat
  uc_failed :: rat

record task_ledger =
  tk_taskId :: string
  tk_schedulerEpoch :: rat
  tk_state :: task_state
  tk_requestMode :: task_request_mode
  tk_candidateSnapshotId :: string
  tk_candidateSnapshotRevision :: rat
  tk_admissionIdentity :: admission_identity
  tk_admission :: task_admission
  tk_createdAt :: string
  tk_updatedAt :: string
  tk_cancelRequestedAt :: "string option"
  tk_terminalState :: "task_state option"
  tk_repairState :: repair_state
  tk_sourceResolution :: "source_resolution option"
  tk_recordItems :: record_counts
  tk_units :: unit_counts
  tk_aheadTaskCount :: rat

datatype recipe_axis = AxRound | AxStep

record unit_prompt_recipe =
  up_recipeVersion :: rat
  up_templateId :: string
  up_axis :: recipe_axis
  up_start :: rat
  up_end :: rat
  up_composeOrder :: rat
  up_continuationKey :: "string option"

record compose_provenance =
  cp_childUnitIds :: "string list"
  cp_outputHash :: string
  cp_composedAt :: string

record unit_ledger =
  ul_unitId :: string
  ul_taskId :: string
  ul_recordId :: string
  ul_state :: ledger_unit_state
  ul_layer :: string
  ul_parentUnitId :: "string option"
  ul_splitDepth :: rat
  ul_recordWorkKey :: string
  ul_recordCommitEpoch :: rat
  ul_dependencies :: "string list"
  ul_continuationKey :: "string option"
  ul_composeOrder :: rat
  ul_sourceSnapshotId :: string
  ul_inputHash :: string
  ul_estimatedCost :: rat
  ul_routePlan :: "model_route list"
  ul_attemptedProviders :: "attempt_provider list"
  ul_retryBudget :: rat
  ul_routeCursor :: "rat option"
  ul_unitAttempts :: "rat option"
  ul_providerAttemptCounts :: "(attempt_provider \<times> rat) list option"
  ul_promptRecipe :: "unit_prompt_recipe option"
  ul_childUnitIds :: "string list option"
  ul_composeProvenance :: "compose_provenance option"
  ul_nextEligibleAt :: "string option"
  ul_enqueueTime :: string
  ul_layerEnterTime :: string
  ul_failureClass :: "ledger_failure_class option"
  ul_resultRef :: "blob_ref option"
  ul_coveredRevision :: "string option"
  ul_commitId :: "string option"

record lease_identity =
  li_provider :: attempt_provider
  li_trafficClass :: traffic_class
  li_attemptId :: string
  li_leaseId :: string
  li_ownerEpoch :: rat
  li_capacityGeneration :: rat
  li_acquiredAt :: rat
  li_expiresAt :: rat

text \<open>\<open>idempotencyKey\<close> may be absent, \<open>null\<close> or a string.\<close>

record attempt =
  at_attemptId :: string
  at_unitId :: string
  at_recordWorkKey :: string
  at_originTaskIds :: "string list"
  at_activeTaskIds :: "string list"
  at_state :: attempt_state
  at_outcome :: "attempt_outcome option"
  at_provider :: attempt_provider
  at_model :: string
  at_retryOrdinal :: "rat option"
  at_trafficClass :: "traffic_class option"
  at_dispatchIntentAt :: "string option"
  at_dispatchIntentLedgerRevision :: "rat option"
  at_dispatchIntentRef :: "blob_ref option"
  at_startedAt :: "string option"
  at_leaseExpiresAt :: "string option"
  at_unknownOutcomeUntil :: "string option"
  at_unknownOutcomeAt :: "string option"
  at_unknownOutcomeGraceMs :: "rat option"
  at_providerEvidence :: "string option"
  at_capacityGeneration :: "rat option"
  at_managedByProductionPump :: "bool option"
  at_providerAdmission :: "admission_kind option"
  at_providerLeaseIdentity :: "lease_identity option"
  at_dispatchPhase :: "dispatch_phase option"
  at_claimId :: "string option"
  at_permitId :: "string option"
  at_dispatchSeq :: "rat option"
  at_inputHash :: string
  at_idempotencyKey :: "string option option"
  at_outputRef :: "blob_ref option"
  at_errorClass :: "ledger_failure_class option"
  at_elapsedMs :: "rat option"
  at_fence :: fencing_token

record ledger =
  lg_schemaVersion :: rat
  lg_revision :: rat
  lg_persistedHash :: string
  lg_task :: task_ledger
  lg_candidateSnapshot :: candidate_snapshot
  lg_sourceSnapshots :: "source_snapshot list"
  lg_sourceMaterialization :: "source_materialization option"
  lg_recordWork :: "record_work list"
  lg_units :: "unit_ledger list"
  lg_attempts :: "attempt list"
  lg_commits :: "commit list"

end
