(* ===== verification/LedgerStates.thy ===== *)
theory LedgerStates
  imports LedgerTypes
begin

text \<open>
  The states of candidates, tasks, units, attempts, commits and cleanups with their transition tables, the
  evidence that a source is lost, timestamps, and the policies that depend on a state only.
\<close>

section \<open>Timestamps\<close>

text \<open>
  \<open>Date.parse\<close> of the format that the scheduler writes (\<open>toISOString\<close>: four-digit year, milliseconds, \<open>Z\<close>).
  What an engine makes of any other string is the parameter \<open>dates\<close>; \<open>None\<close> is \<open>NaN\<close>.
\<close>

type_synonym dates = "string \<Rightarrow> rat option"

definition days_in_month :: "int \<Rightarrow> int \<Rightarrow> int" where
  "days_in_month y m =
     (if m = 2 then (if y mod 4 = 0 \<and> (y mod 100 \<noteq> 0 \<or> y mod 400 = 0) then 29 else 28)
      else if m = 4 \<or> m = 6 \<or> m = 9 \<or> m = 11 then 30 else 31)"

definition days_before_year :: "int \<Rightarrow> int" where
  "days_before_year y = 365 * y + (y + 3) div 4 - (y + 99) div 100 + (y + 399) div 400"

definition day_number :: "int \<Rightarrow> int \<Rightarrow> int \<Rightarrow> int" where
  "day_number y m d =
     days_before_year y - days_before_year 1970 + sum_list (map (\<lambda>i. days_in_month y i) [1..m - 1]) + d - 1"

definition iso_date :: "string \<Rightarrow> rat option" where
  "iso_date s =
     (let num = (\<lambda>i n. int (read_digits 0 (take n (drop i s))));
          separators = [(4, CHR ''-''), (7, CHR ''-''), (10, CHR ''T''), (13, CHR '':''), (16, CHR '':''), (19, CHR ''.''), (23, CHR ''Z'')];
          digits = [0, 1, 2, 3, 5, 6, 8, 9, 11, 12, 14, 15, 17, 18, 20, 21, 22];
          y = num 0 4; m = num 5 2; d = num 8 2; h = num 11 2; i = num 14 2; sec = num 17 2; ms = num 20 3
      in if length s = 24 \<and> list_all (\<lambda>(p, c). s ! p = c) separators \<and> list_all (\<lambda>p. s ! p \<in> set ''0123456789'') digits
           \<and> 1 \<le> m \<and> m \<le> 12 \<and> 1 \<le> d \<and> d \<le> days_in_month y m \<and> h \<le> 23 \<and> i \<le> 59 \<and> sec \<le> 59
         then Some (of_int ((((day_number y m d * 24 + h) * 60 + i) * 60 + sec) * 1000 + ms)) else None)"

definition date_parse :: "dates \<Rightarrow> string \<Rightarrow> rat option" where
  "date_parse dates s = (case iso_date s of Some t \<Rightarrow> Some t | None \<Rightarrow> dates s)"

text \<open>Comparisons with \<open>NaN\<close> are false.\<close>

definition after :: "rat option \<Rightarrow> rat \<Rightarrow> bool" where
  "after t now = (case t of None \<Rightarrow> False | Some x \<Rightarrow> now < x)"

definition compare_dates :: "rat option \<Rightarrow> rat option \<Rightarrow> int" where
  "compare_dates a b = (case (a, b) of (Some x, Some y) \<Rightarrow> if x < y then -1 else if x > y then 1 else 0 | _ \<Rightarrow> 0)"

section \<open>Transitions\<close>

fun candidate_transitions :: "candidate_state \<Rightarrow> candidate_state list" where
  "candidate_transitions Fresh = [Fresh, Stale, Unresolved, Lost, Conflict]"
| "candidate_transitions Stale = [Fresh, Stale, Unresolved, Lost, Conflict]"
| "candidate_transitions Missing = [Fresh, Missing, Unresolved, Lost, Conflict]"
| "candidate_transitions Unresolved = [Fresh, Stale, Missing, Unresolved, Lost, Conflict]"
| "candidate_transitions Lost = [Fresh, Stale, Missing, Unresolved, Lost, Conflict]"
| "candidate_transitions Conflict = [Fresh, Stale, Missing, Unresolved, Lost, Conflict]"

fun task_transitions :: "task_state \<Rightarrow> task_state list" where
  "task_transitions TAccepted = [TPreparing, TCancelRequested, TFailedFinal, TRepairRequired]"
| "task_transitions TPreparing = [TQueued, TCancelRequested, TFailedFinal, TRepairRequired]"
| "task_transitions TQueued = [TRunning, TCancelRequested, TFailedFinal, TRepairRequired]"
| "task_transitions TRunning = [TCommitting, TQueued, TCancelRequested, TFailedFinal, TRepairRequired]"
| "task_transitions TCommitting = [TRunning, TSucceeded, TDeferred, TCancelRequested, TFailedFinal, TRepairRequired]"
| "task_transitions TCancelRequested = [TCancelling]"
| "task_transitions TCancelling = [TCancelled]"
| "task_transitions TSucceeded = []"
| "task_transitions TDeferred = []"
| "task_transitions TFailedFinal = []"
| "task_transitions TCancelled = []"
| "task_transitions TRepairRequired = []"

fun unit_transitions :: "ledger_unit_state \<Rightarrow> ledger_unit_state list" where
  "unit_transitions UMaterialized = [UBlocked, UQueued, UCancelled, USuperseded, UFailedFinal]"
| "unit_transitions UBlocked = [UQueued, UCancelled, USuperseded, UFailedFinal]"
| "unit_transitions UQueued = [URunning, UCancelled, USuperseded, UFailedFinal]"
| "unit_transitions URunning = [UResultReady, UWaitingRetry, UUnknownOutcome, UDiscarded, UFailedFinal, USuperseded]"
| "unit_transitions UWaitingRetry = [UQueued, UCancelled, UFailedFinal, USuperseded]"
| "unit_transitions UResultReady = [UCommitting, UDiscarded, USuperseded]"
| "unit_transitions UCommitting = [USucceeded, UFailedFinal, USuperseded, UDiscarded]"
| "unit_transitions USucceeded = []"
| "unit_transitions UFailedFinal = []"
| "unit_transitions UUnknownOutcome = [UWaitingRetry, UFailedFinal, USuperseded, UDiscarded]"
| "unit_transitions UCancelled = []"
| "unit_transitions UDiscarded = []"
| "unit_transitions USuperseded = []"

fun attempt_transitions :: "attempt_state \<Rightarrow> attempt_state list" where
  "attempt_transitions ACreated = [ADispatchIntentPersisted, ADiscarded]"
| "attempt_transitions ADispatchIntentPersisted = [ADispatched, ADiscarded]"
| "attempt_transitions ADispatched = [AKnownSuccess, AKnownFailure, AUnknownOutcome]"
| "attempt_transitions AKnownSuccess = [ADiscarded]"
| "attempt_transitions AKnownFailure = []"
| "attempt_transitions AUnknownOutcome = [ADiscarded]"
| "attempt_transitions ADiscarded = []"

fun commit_transitions :: "commit_state \<Rightarrow> commit_state list" where
  "commit_transitions CNotStarted = [CResultReady, CAbandoned]"
| "commit_transitions CResultReady = [CBodyStaged, CAbandoned]"
| "commit_transitions CBodyStaged = [CPublishIntent, CCleanupPending, CRepairRequired]"
| "commit_transitions CPublishIntent = [CBodyPublished, CCleanupPending, CRepairRequired]"
| "commit_transitions CBodyPublished = [CMainIndexWritten, CCleanupPending, CRepairRequired]"
| "commit_transitions CMainIndexWritten = [CReaderIndexWritten, CCleanupPending, CRepairRequired]"
| "commit_transitions CReaderIndexWritten = [CVerified, CCleanupPending, CRepairRequired]"
| "commit_transitions CVerified = [CCleanupPending]"
| "commit_transitions CCleanupPending = [CCompensated, CRepairRequired]"
| "commit_transitions CCompensated = []"
| "commit_transitions CRepairRequired = []"
| "commit_transitions CAbandoned = []"

fun cleanup_transitions :: "cleanup_state \<Rightarrow> cleanup_state list" where
  "cleanup_transitions KNotRequired = [KCleanupIntentPersisted]"
| "cleanup_transitions KCleanupIntentPersisted = [KCompensating, KRepairRequired]"
| "cleanup_transitions KCompensating = [KVerified, KRepairRequired]"
| "cleanup_transitions KVerified = []"
| "cleanup_transitions KRepairRequired = [KCompensating]"

definition can_transition :: "('s \<Rightarrow> 's list) \<Rightarrow> 's \<Rightarrow> 's \<Rightarrow> bool" where
  "can_transition transitions from_state to_state \<longleftrightarrow> to_state \<in> set (transitions from_state)"

definition can_transition_unit :: "ledger_unit_state \<Rightarrow> ledger_unit_state \<Rightarrow> bool" where
  "can_transition_unit a b = can_transition unit_transitions a b"

definition can_transition_attempt :: "attempt_state \<Rightarrow> attempt_state \<Rightarrow> bool" where
  "can_transition_attempt a b = can_transition attempt_transitions a b"

definition can_transition_commit :: "commit_state \<Rightarrow> commit_state \<Rightarrow> bool" where
  "can_transition_commit a b = can_transition commit_transitions a b"

definition can_transition_cleanup :: "cleanup_state \<Rightarrow> cleanup_state \<Rightarrow> bool" where
  "can_transition_cleanup a b = can_transition cleanup_transitions a b"

datatype ledger_error = IllegalTransition string | RevisionMismatch | StaleFencingToken

definition assert_transition :: "string \<Rightarrow> bool \<Rightarrow> ledger_error + unit" where
  "assert_transition kind allowed = ensure (IllegalTransition kind) allowed"

definition assert_unit_transition :: "ledger_unit_state \<Rightarrow> ledger_unit_state \<Rightarrow> ledger_error + unit" where
  "assert_unit_transition a b = assert_transition ''Unit'' (can_transition_unit a b)"

definition assert_attempt_transition :: "attempt_state \<Rightarrow> attempt_state \<Rightarrow> ledger_error + unit" where
  "assert_attempt_transition a b = assert_transition ''Attempt'' (can_transition_attempt a b)"

definition assert_commit_transition :: "commit_state \<Rightarrow> commit_state \<Rightarrow> ledger_error + unit" where
  "assert_commit_transition a b = assert_transition ''Commit'' (can_transition_commit a b)"

definition assert_cleanup_transition :: "cleanup_state \<Rightarrow> cleanup_state \<Rightarrow> ledger_error + unit" where
  "assert_cleanup_transition a b = assert_transition ''Cleanup'' (can_transition_cleanup a b)"

section \<open>Lost sources\<close>

definition LOST_SECOND_CHECK_INTERVAL_MS :: rat where
  "LOST_SECOND_CHECK_INTERVAL_MS = 60 * 60 * 1000"

definition UNKNOWN_OUTCOME_GRACE_MS :: rat where
  "UNKNOWN_OUTCOME_GRACE_MS = 30000"

record lost_observation =
  lo_scanId :: string
  lo_chain :: source_chain
  lo_workspaceHash :: string
  lo_conversationId :: string
  lo_completedAt :: string
  lo_complete :: bool
  lo_exactLookupSucceeded :: bool
  lo_found :: bool

record lost_target =
  lt_chain :: source_chain
  lt_workspaceHash :: string
  lt_conversationId :: string

record tombstone =
  tb_chain :: source_chain
  tb_workspaceHash :: string
  tb_conversationId :: string
  tb_observedAt :: string
  tb_exactLookupSucceeded :: bool

record candidate_context =
  cc_target :: "lost_target option"
  cc_tombstone :: "tombstone option"
  cc_observations :: "lost_observation list"

definition matches_target :: "lost_target \<Rightarrow> source_chain \<Rightarrow> string \<Rightarrow> string \<Rightarrow> bool" where
  "matches_target t c w v \<longleftrightarrow> c = lt_chain t \<and> w = lt_workspaceHash t \<and> v = lt_conversationId t"

definition proves_absence :: "lost_target \<Rightarrow> lost_observation \<Rightarrow> bool" where
  "proves_absence t o' \<longleftrightarrow>
     matches_target t (lo_chain o') (lo_workspaceHash o') (lo_conversationId o') \<and>
     lo_complete o' \<and> lo_exactLookupSucceeded o' \<and> \<not> lo_found o'"

definition is_lost_evidence_sufficient :: "dates \<Rightarrow> candidate_context \<Rightarrow> bool" where
  "is_lost_evidence_sufficient dates x =
     (case cc_target x of None \<Rightarrow> False
      | Some t \<Rightarrow>
          if (case cc_tombstone x of None \<Rightarrow> False
              | Some b \<Rightarrow> matches_target t (tb_chain b) (tb_workspaceHash b) (tb_conversationId b) \<and>
                  tb_exactLookupSucceeded b \<and> date_parse dates (tb_observedAt b) \<noteq> None) then True
          else if length (cc_observations x) < 2 then False
          else (let sorted = sort_by (\<lambda>a b. compare_dates (date_parse dates (lo_completedAt a)) (date_parse dates (lo_completedAt b)))
                               (filter (proves_absence t) (cc_observations x))
                in if length sorted < 2 then False
                   else lo_scanId (hd sorted) \<noteq> lo_scanId (last sorted) \<and>
                     (case (date_parse dates (lo_completedAt (hd sorted)), date_parse dates (lo_completedAt (last sorted))) of
                        (Some a, Some b) \<Rightarrow> LOST_SECOND_CHECK_INTERVAL_MS \<le> b - a | _ \<Rightarrow> False)))"

definition can_transition_candidate :: "dates \<Rightarrow> candidate_state \<Rightarrow> candidate_state \<Rightarrow> candidate_context \<Rightarrow> bool" where
  "can_transition_candidate dates a b x \<longleftrightarrow>
     can_transition candidate_transitions a b \<and> (b \<noteq> Lost \<or> a = Lost \<or> is_lost_evidence_sufficient dates x)"

definition assert_candidate_transition :: "dates \<Rightarrow> candidate_state \<Rightarrow> candidate_state \<Rightarrow> candidate_context \<Rightarrow> ledger_error + unit" where
  "assert_candidate_transition dates a b x = assert_transition ''Candidate'' (can_transition_candidate dates a b x)"

section \<open>Policies\<close>

definition TERMINAL_TASK_STATES :: "task_state list" where
  "TERMINAL_TASK_STATES = [TSucceeded, TDeferred, TFailedFinal, TCancelled, TRepairRequired]"

definition is_terminal_task_state :: "task_state \<Rightarrow> bool" where
  "is_terminal_task_state s \<longleftrightarrow> s \<in> set TERMINAL_TASK_STATES"

definition blocks_new_dispatch :: "task_state \<Rightarrow> repair_state \<Rightarrow> bool" where
  "blocks_new_dispatch s r \<longleftrightarrow> r \<noteq> RepNone \<or> s = TCancelRequested \<or> s = TCancelling \<or> is_terminal_task_state s"

definition can_dispatch_task :: "task_state \<Rightarrow> repair_state \<Rightarrow> bool" where
  "can_dispatch_task s r \<longleftrightarrow> r = RepNone \<and> (s = TQueued \<or> s = TRunning)"

record candidate_policy =
  cpol_mayAutoUpdate :: bool
  cpol_mayAutoCleanup :: bool
  cpol_countsAsDefiniteFailure :: bool
  cpol_requiresManualReview :: bool

definition candidate_state_policy :: "candidate_state \<Rightarrow> candidate_policy" where
  "candidate_state_policy s =
     \<lparr> cpol_mayAutoUpdate = (s = Stale \<or> s = Missing), cpol_mayAutoCleanup = False,
       cpol_countsAsDefiniteFailure = False, cpol_requiresManualReview = (s = Conflict) \<rparr>"

definition is_definite_failure_class :: "ledger_failure_class option \<Rightarrow> bool" where
  "is_definite_failure_class f \<longleftrightarrow> f = Some FcDeterministicInput"

section \<open>Revisions and fences\<close>

definition candidate_snapshot_revision :: "candidate_snapshot \<Rightarrow> snapshot_revision" where
  "candidate_snapshot_revision c = \<lparr> sv_snapshotId = cs_snapshotId c, sv_snapshotRevision = cs_snapshotRevision c \<rparr>"

definition source_snapshot_revision :: "source_snapshot \<Rightarrow> snapshot_revision" where
  "source_snapshot_revision s = \<lparr> sv_snapshotId = ss_sourceSnapshotId s, sv_snapshotRevision = ss_snapshotRevision s \<rparr>"

definition matches_snapshot_revision :: "snapshot_revision \<Rightarrow> snapshot_revision \<Rightarrow> bool" where
  "matches_snapshot_revision a b \<longleftrightarrow> sv_snapshotId a = sv_snapshotId b \<and> sv_snapshotRevision a = sv_snapshotRevision b"

definition assert_snapshot_revision :: "snapshot_revision \<Rightarrow> snapshot_revision \<Rightarrow> ledger_error + unit" where
  "assert_snapshot_revision a b = ensure RevisionMismatch (matches_snapshot_revision a b)"

definition has_current_fencing_token :: "fencing_token \<Rightarrow> fencing_token \<Rightarrow> bool" where
  "has_current_fencing_token c f \<longleftrightarrow>
     ft_schedulerEpoch c = ft_schedulerEpoch f \<and> ft_recordCommitEpoch c = ft_recordCommitEpoch f \<and>
     ft_fencingToken c = ft_fencingToken f \<and> ft_workLeaseId c = ft_workLeaseId f"

definition assert_current_fencing_token :: "fencing_token \<Rightarrow> fencing_token \<Rightarrow> ledger_error + unit" where
  "assert_current_fencing_token c f = ensure StaleFencingToken (has_current_fencing_token c f)"

lemma iso_date_examples:
  "iso_date ''1970-01-01T00:00:00.000Z'' = Some 0"
  "iso_date ''2000-02-29T12:34:56.789Z'' = Some 951827696789"
  "iso_date ''2025-11-19T00:00:00.001Z'' = Some 1763510400001"
  "iso_date ''2025-02-29T00:00:00.000Z'' = None"
  by code_simp+

end
