(* ===== verification/LedgerValid.thy ===== *)
theory LedgerValid
  imports LedgerStates
begin

text \<open>
  The checks of the parts of a ledger (the \<open>isValid...\<close> functions). The types of \<open>LedgerTypes\<close> already say
  that a value has its fields with the declared types and enumerations; the definitions here are the
  remaining conditions, in the order of the code.
\<close>

section \<open>Basic checks\<close>

definition RECORD_SCHEDULER_SCHEMA_VERSION :: rat where
  "RECORD_SCHEDULER_SCHEMA_VERSION = 5"

definition is_non_empty_string :: "string \<Rightarrow> bool" where
  "is_non_empty_string s \<longleftrightarrow> 0 < length s"

definition is_positive_integer :: "rat \<Rightarrow> bool" where
  "is_positive_integer q \<longleftrightarrow> is_integral q \<and> 0 < q"

definition is_non_negative_integer :: "rat \<Rightarrow> bool" where
  "is_non_negative_integer q \<longleftrightarrow> is_integral q \<and> 0 \<le> q"

definition is_non_negative_finite :: "rat \<Rightarrow> bool" where
  "is_non_negative_finite q \<longleftrightarrow> 0 \<le> q"

definition is_timestamp :: "dates \<Rightarrow> string \<Rightarrow> bool" where
  "is_timestamp dates s \<longleftrightarrow> is_non_empty_string s \<and> date_parse dates s \<noteq> None"

text \<open>\<open>value === undefined || check(value)\<close>\<close>

definition if_present :: "('a \<Rightarrow> bool) \<Rightarrow> 'a option \<Rightarrow> bool" where
  "if_present p v = (case v of None \<Rightarrow> True | Some x \<Rightarrow> p x)"

text \<open>A check that an absent value fails.\<close>

definition present :: "('a \<Rightarrow> bool) \<Rightarrow> 'a option \<Rightarrow> bool" where
  "present p v = (case v of None \<Rightarrow> False | Some x \<Rightarrow> p x)"

lemma if_present_simps [simp]: "if_present p None" "if_present p (Some x) = p x"
  by (simp_all add: if_present_def)

lemma present_simps [simp]: "\<not> present p None" "present p (Some x) = p x"
  by (simp_all add: present_def)

lemma present_iff: "present p v \<longleftrightarrow> (\<exists>x. v = Some x \<and> p x)"
  by (cases v) simp_all

definition is_unique :: "'a list \<Rightarrow> bool" where
  "is_unique vs \<longleftrightarrow> length (unique_list vs) = length vs"

definition same_string_set :: "string list \<Rightarrow> string list \<Rightarrow> bool" where
  "same_string_set l r \<longleftrightarrow> length l = length r \<and> list_all (\<lambda>v. v \<in> set r) l"

fun sorted_unique_keys :: "string list \<Rightarrow> bool" where
  "sorted_unique_keys (a # b # ks) \<longleftrightarrow> a < b \<and> sorted_unique_keys (b # ks)"
| "sorted_unique_keys _ \<longleftrightarrow> True"

definition is_sha256 :: "string \<Rightarrow> bool" where
  "is_sha256 s \<longleftrightarrow> length s = 64 \<and> list_all (\<lambda>c. c \<in> set ''0123456789abcdef'') s"

definition is_valid_blob_reference :: "blob_ref \<Rightarrow> bool" where
  "is_valid_blob_reference b \<longleftrightarrow>
     is_non_empty_string (bl_path b) \<and> is_non_empty_string (bl_hash b) \<and> is_non_negative_integer (bl_byteLength b)"

definition same_blob_reference :: "blob_ref \<Rightarrow> blob_ref \<Rightarrow> bool" where
  "same_blob_reference l r \<longleftrightarrow> bl_path l = bl_path r \<and> bl_hash l = bl_hash r \<and> bl_byteLength l = bl_byteLength r"

definition is_valid_ledger_anchor :: "ledger_anchor \<Rightarrow> bool" where
  "is_valid_ledger_anchor a \<longleftrightarrow> is_non_empty_string (la_path a) \<and> la_revision a = 1 \<and> is_sha256 (la_hash a)"

definition same_ledger_anchor :: "ledger_anchor \<Rightarrow> ledger_anchor \<Rightarrow> bool" where
  "same_ledger_anchor l r \<longleftrightarrow> la_path l = la_path r \<and> la_revision l = la_revision r \<and> la_hash l = la_hash r"

definition is_valid_admission_identity :: "admission_identity \<Rightarrow> bool" where
  "is_valid_admission_identity a \<longleftrightarrow>
     is_non_empty_string (ai_requestKey a) \<and> length (ai_requestKey a) \<le> 512 \<and> is_sha256 (ai_requestHash a)"

definition is_valid_task_admission :: "dates \<Rightarrow> task_admission \<Rightarrow> bool" where
  "is_valid_task_admission dates a =
     (case a of LedgerCreated \<Rightarrow> True
      | EnvelopeBound anchor capsule bound \<Rightarrow>
          is_valid_ledger_anchor anchor \<and> is_valid_blob_reference capsule \<and> is_sha256 (bl_hash capsule) \<and> is_timestamp dates bound)"

definition is_envelope_bound :: "task_admission \<Rightarrow> bool" where
  "is_envelope_bound a = (case a of LedgerCreated \<Rightarrow> False | EnvelopeBound _ _ _ \<Rightarrow> True)"

definition is_valid_fence :: "fencing_token \<Rightarrow> bool" where
  "is_valid_fence f \<longleftrightarrow>
     is_positive_integer (ft_schedulerEpoch f) \<and> is_positive_integer (ft_recordCommitEpoch f) \<and>
     is_positive_integer (ft_fencingToken f) \<and> is_non_empty_string (ft_workLeaseId f)"

section \<open>Candidates, task and sources\<close>

definition is_valid_candidate_snapshot :: "dates \<Rightarrow> candidate_snapshot \<Rightarrow> bool" where
  "is_valid_candidate_snapshot dates c \<longleftrightarrow>
     cs_schemaVersion c = RECORD_SCHEDULER_SCHEMA_VERSION \<and> is_non_empty_string (cs_snapshotId c) \<and>
     is_positive_integer (cs_snapshotRevision c) \<and> is_non_empty_string (cs_snapshotHash c) \<and>
     is_valid_blob_reference (cs_snapshotRef c) \<and> bl_hash (cs_snapshotRef c) = cs_snapshotHash c \<and>
     is_timestamp dates (cs_createdAt c) \<and>
     list_all (\<lambda>d. is_non_empty_string (cd_conversationId d) \<and> is_non_empty_string (cd_workspaceHash d) \<and>
       is_non_empty_string (cd_evidenceHash d)) (cs_candidates c)"

definition is_valid_source_resolution :: "source_resolution \<Rightarrow> task_state \<Rightarrow> bool" where
  "is_valid_source_resolution r s \<longleftrightarrow>
     if_present is_non_negative_integer (sr_selectedCount r) \<and> is_non_negative_integer (sr_materializedCount r) \<and>
     is_non_negative_integer (sr_unresolvedCount r) \<and> sr_unresolvedCount r = of_nat (length (sr_issues r)) \<and>
     list_all (\<lambda>i. if_present is_non_empty_string (ri_conversationId i) \<and> is_non_empty_string (ri_code i) \<and>
       is_non_empty_string (ri_message i)) (sr_issues r) \<and>
     if_present (\<lambda>n. sr_materializedCount r \<le> n) (sr_selectedCount r) \<and>
     (case sr_phase r of
        RpPending \<Rightarrow> sr_selectedCount r = None \<and> sr_materializedCount r = 0 \<and> sr_unresolvedCount r = 0 \<and> sr_deferredReason r = None
      | RpDeferred \<Rightarrow> s = TDeferred \<and> sr_deferredReason r = Some ''source_unresolved'' \<and> 0 < sr_unresolvedCount r
      | _ \<Rightarrow> sr_deferredReason r = None)"

definition is_valid_task_ledger :: "dates \<Rightarrow> task_ledger \<Rightarrow> bool" where
  "is_valid_task_ledger dates t \<longleftrightarrow>
     is_non_empty_string (tk_taskId t) \<and> is_positive_integer (tk_schedulerEpoch t) \<and>
     is_non_empty_string (tk_candidateSnapshotId t) \<and> is_positive_integer (tk_candidateSnapshotRevision t) \<and>
     is_valid_admission_identity (tk_admissionIdentity t) \<and> is_valid_task_admission dates (tk_admission t) \<and>
     is_timestamp dates (tk_createdAt t) \<and> is_timestamp dates (tk_updatedAt t) \<and>
     if_present (is_timestamp dates) (tk_cancelRequestedAt t) \<and>
     if_present (\<lambda>r. is_valid_source_resolution r (tk_state t)) (tk_sourceResolution t) \<and>
     (let c = tk_recordItems t in
        is_non_negative_integer (rc_total c) \<and> is_non_negative_integer (rc_succeeded c) \<and> is_non_negative_integer (rc_failed c) \<and>
        is_non_negative_integer (rc_unresolved c) \<and> rc_succeeded c + rc_failed c + rc_unresolved c \<le> rc_total c) \<and>
     (let c = tk_units t in
        is_non_negative_integer (uc_materialized c) \<and> is_non_negative_integer (uc_eligible c) \<and> is_non_negative_integer (uc_running c) \<and>
        is_non_negative_integer (uc_done c) \<and> is_non_negative_integer (uc_failed c)) \<and>
     is_non_negative_integer (tk_aheadTaskCount t) \<and>
     (if is_terminal_task_state (tk_state t) then tk_terminalState t = Some (tk_state t) else tk_terminalState t = None) \<and>
     (tk_cancelRequestedAt t = None \<or> tk_state t = TCancelRequested \<or> tk_state t = TCancelling \<or> tk_state t = TCancelled)"

definition is_valid_source_snapshot :: "dates \<Rightarrow> source_snapshot \<Rightarrow> bool" where
  "is_valid_source_snapshot dates s \<longleftrightarrow>
     ss_schemaVersion s = RECORD_SCHEDULER_SCHEMA_VERSION \<and> is_non_empty_string (ss_sourceSnapshotId s) \<and>
     is_positive_integer (ss_snapshotRevision s) \<and> is_non_empty_string (ss_snapshotHash s) \<and>
     is_valid_blob_reference (ss_snapshotRef s) \<and> bl_hash (ss_snapshotRef s) = ss_snapshotHash s \<and>
     is_non_empty_string (ss_conversationId s) \<and> is_non_empty_string (ss_workspaceHash s) \<and>
     is_non_empty_string (ss_sourceRevision s) \<and> is_non_empty_string (ss_desiredRevision s) \<and>
     is_non_empty_string (ss_contentHash s) \<and> is_valid_blob_reference (ss_contentRef s) \<and>
     bl_hash (ss_contentRef s) = ss_contentHash s \<and> is_non_empty_string (ss_formatterVersion s) \<and>
     (let r = ss_readRange s in
        is_non_negative_integer (rr_startRound r) \<and> is_non_negative_integer (rr_endRound r) \<and> is_non_negative_integer (rr_totalRounds r) \<and>
        rr_startRound r \<le> rr_endRound r \<and>
        (\<not> ss_complete s \<or> ss_sourceRevision s = ss_desiredRevision s \<and> rr_totalRounds r \<le> rr_endRound r \<and> ss_gaps s = []))"

definition is_valid_materialization_selection :: "materialization_selection \<Rightarrow> bool" where
  "is_valid_materialization_selection m \<longleftrightarrow>
     is_non_empty_string (ms_sourceKey m) \<and> is_non_empty_string (ms_workspaceHash m) \<and> is_non_empty_string (ms_conversationId m) \<and>
     is_non_empty_string (ms_evidenceHash m)"

definition is_valid_materialization_outcome :: "dates \<Rightarrow> materialization_outcome \<Rightarrow> bool" where
  "is_valid_materialization_outcome dates m \<longleftrightarrow>
     is_non_empty_string (mo_sourceKey m) \<and> is_timestamp dates (mo_observedAt m) \<and>
     if_present is_non_empty_string (mo_sourceSnapshotId m) \<and> if_present is_non_empty_string (mo_sourceRevision m) \<and>
     if_present is_non_empty_string (mo_contentHash m) \<and> if_present is_non_empty_string (mo_previousContentHash m) \<and>
     if_present is_non_empty_string (mo_evidenceHash m) \<and> if_present is_non_empty_string (mo_scanId m) \<and>
     if_present is_non_empty_string (mo_reason m)"

definition is_valid_record_work :: "dates \<Rightarrow> record_work \<Rightarrow> bool" where
  "is_valid_record_work dates w \<longleftrightarrow>
     is_non_empty_string (rw_recordWorkKey w) \<and> is_non_empty_string (rw_conversationId w) \<and> is_non_empty_string (rw_workspaceHash w) \<and>
     is_non_empty_string (rw_desiredRevision w) \<and> is_positive_integer (rw_recordCommitEpoch w) \<and> is_positive_integer (rw_registryRevision w) \<and>
     is_valid_blob_reference (rw_registryRef w) \<and> is_positive_integer (rw_schedulerEpoch w) \<and> is_non_empty_string (rw_workLeaseId w) \<and>
     is_non_empty_string (rw_leaseOwnerId w) \<and> is_timestamp dates (rw_leaseExpiresAt w) \<and>
     list_all is_non_empty_string (rw_activeTaskIds w) \<and> is_unique (rw_activeTaskIds w) \<and> is_positive_integer (rw_currentFencingToken w)"

section \<open>Units\<close>

definition is_model_provider :: "attempt_provider \<Rightarrow> bool" where
  "is_model_provider p \<longleftrightarrow> p \<noteq> PLocal"

definition is_model_route :: "model_route \<Rightarrow> bool" where
  "is_model_route r = (case r of RAuto \<Rightarrow> True | RProvider p \<Rightarrow> is_model_provider p)"

definition is_valid_provider_attempt_counts :: "(attempt_provider \<times> rat) list \<Rightarrow> bool" where
  "is_valid_provider_attempt_counts cs \<longleftrightarrow> list_all (\<lambda>(p, n). is_model_provider p \<and> is_non_negative_integer n) cs"

definition is_valid_prompt_recipe :: "unit_prompt_recipe \<Rightarrow> bool" where
  "is_valid_prompt_recipe p \<longleftrightarrow>
     up_recipeVersion p = 1 \<and> is_non_empty_string (up_templateId p) \<and> is_non_negative_integer (up_composeOrder p) \<and>
     is_non_negative_integer (up_start p) \<and> is_non_negative_integer (up_end p) \<and> up_start p \<le> up_end p \<and>
     if_present is_non_empty_string (up_continuationKey p)"

definition is_valid_compose_provenance :: "dates \<Rightarrow> compose_provenance \<Rightarrow> bool" where
  "is_valid_compose_provenance dates p \<longleftrightarrow>
     0 < length (cp_childUnitIds p) \<and> is_unique (cp_childUnitIds p) \<and> is_non_empty_string (cp_outputHash p) \<and>
     is_timestamp dates (cp_composedAt p)"

definition is_valid_unit :: "dates \<Rightarrow> unit_ledger \<Rightarrow> bool" where
  "is_valid_unit dates u \<longleftrightarrow>
     is_non_empty_string (ul_unitId u) \<and> is_non_empty_string (ul_taskId u) \<and> is_non_empty_string (ul_recordId u) \<and>
     is_non_empty_string (ul_layer u) \<and> is_non_negative_integer (ul_splitDepth u) \<and> is_non_empty_string (ul_recordWorkKey u) \<and>
     is_positive_integer (ul_recordCommitEpoch u) \<and> is_unique (ul_dependencies u) \<and> is_non_negative_integer (ul_composeOrder u) \<and>
     is_non_empty_string (ul_sourceSnapshotId u) \<and> is_non_empty_string (ul_inputHash u) \<and> is_non_negative_finite (ul_estimatedCost u) \<and>
     list_all is_model_route (ul_routePlan u) \<and> is_non_negative_integer (ul_retryBudget u) \<and>
     if_present is_non_negative_integer (ul_routeCursor u) \<and> if_present is_non_negative_integer (ul_unitAttempts u) \<and>
     if_present is_valid_provider_attempt_counts (ul_providerAttemptCounts u) \<and>
     if_present is_valid_prompt_recipe (ul_promptRecipe u) \<and> if_present is_unique (ul_childUnitIds u) \<and>
     if_present (is_valid_compose_provenance dates) (ul_composeProvenance u) \<and>
     is_timestamp dates (ul_enqueueTime u) \<and> is_timestamp dates (ul_layerEnterTime u) \<and>
     if_present (is_timestamp dates) (ul_nextEligibleAt u) \<and> if_present is_valid_blob_reference (ul_resultRef u)"

section \<open>Attempts\<close>

definition is_valid_lease_identity :: "lease_identity \<Rightarrow> bool" where
  "is_valid_lease_identity l \<longleftrightarrow>
     (li_provider l = PGrok \<or> li_provider l = PAgy) \<and> is_non_empty_string (li_attemptId l) \<and> is_non_empty_string (li_leaseId l) \<and>
     is_non_negative_integer (li_ownerEpoch l) \<and> is_non_negative_integer (li_capacityGeneration l) \<and>
     is_non_negative_finite (li_acquiredAt l) \<and> is_non_negative_finite (li_expiresAt l) \<and> li_acquiredAt l \<le> li_expiresAt l"

fun expected_outcome :: "attempt_state \<Rightarrow> attempt_outcome option" where
  "expected_outcome ACreated = None"
| "expected_outcome ADispatchIntentPersisted = None"
| "expected_outcome ADispatched = Some OcDispatched"
| "expected_outcome AKnownSuccess = Some OcKnownSuccess"
| "expected_outcome AKnownFailure = Some OcKnownFailure"
| "expected_outcome AUnknownOutcome = Some OcUnknownOutcome"
| "expected_outcome ADiscarded = Some OcDiscarded"

definition attempt_fields_ok :: "dates \<Rightarrow> attempt \<Rightarrow> bool" where
  "attempt_fields_ok dates a \<longleftrightarrow>
     is_non_empty_string (at_attemptId a) \<and> is_non_empty_string (at_unitId a) \<and> is_non_empty_string (at_recordWorkKey a) \<and>
     at_originTaskIds a \<noteq> [] \<and> list_all is_non_empty_string (at_originTaskIds a) \<and> is_unique (at_originTaskIds a) \<and>
     list_all is_non_empty_string (at_activeTaskIds a) \<and> is_unique (at_activeTaskIds a) \<and>
     list_all (\<lambda>t. t \<in> set (at_originTaskIds a)) (at_activeTaskIds a) \<and> is_non_empty_string (at_model a) \<and>
     if_present is_non_negative_integer (at_retryOrdinal a) \<and> is_non_empty_string (at_inputHash a) \<and> is_valid_fence (at_fence a) \<and>
     if_present (is_timestamp dates) (at_dispatchIntentAt a) \<and> if_present is_positive_integer (at_dispatchIntentLedgerRevision a) \<and>
     if_present is_valid_blob_reference (at_dispatchIntentRef a) \<and> if_present (is_timestamp dates) (at_startedAt a) \<and>
     if_present (is_timestamp dates) (at_leaseExpiresAt a) \<and> if_present (is_timestamp dates) (at_unknownOutcomeUntil a) \<and>
     if_present (is_timestamp dates) (at_unknownOutcomeAt a) \<and> if_present is_positive_integer (at_unknownOutcomeGraceMs a) \<and>
     if_present is_non_empty_string (at_providerEvidence a) \<and> if_present is_non_negative_integer (at_capacityGeneration a) \<and>
     if_present (\<lambda>b. b) (at_managedByProductionPump a) \<and> if_present is_valid_lease_identity (at_providerLeaseIdentity a) \<and>
     if_present is_non_empty_string (at_claimId a) \<and> if_present is_non_empty_string (at_permitId a) \<and>
     if_present is_positive_integer (at_dispatchSeq a) \<and> if_present (if_present is_non_empty_string) (at_idempotencyKey a) \<and>
     if_present is_valid_blob_reference (at_outputRef a) \<and> if_present is_non_negative_finite (at_elapsedMs a)"

definition has_claim_binding :: "attempt \<Rightarrow> bool" where
  "has_claim_binding a \<longleftrightarrow>
     at_dispatchPhase a \<noteq> None \<or> at_claimId a \<noteq> None \<or> at_permitId a \<noteq> None \<or> at_dispatchSeq a \<noteq> None \<or>
     at_providerAdmission a \<noteq> None \<or> at_providerLeaseIdentity a \<noteq> None"

definition claim_binding_ok :: "attempt \<Rightarrow> bool" where
  "claim_binding_ok a \<longleftrightarrow>
     at_providerAdmission a \<noteq> None \<and> at_dispatchPhase a \<noteq> None \<and> present is_non_empty_string (at_claimId a) \<and>
     present is_non_empty_string (at_permitId a) \<and> present is_positive_integer (at_dispatchSeq a) \<and>
     present is_non_empty_string (at_providerEvidence a) \<and>
     (at_provider a \<noteq> PLocal \<or> at_providerAdmission a = Some ViaLocal) \<and>
     (at_provider a = PLocal \<or> at_providerAdmission a \<noteq> Some ViaLocal) \<and>
     (if at_providerAdmission a = Some ViaTransport
      then present (\<lambda>l. is_valid_lease_identity l \<and> li_provider l = at_provider a \<and> li_attemptId l = at_attemptId a \<and>
             Some (li_leaseId l) = at_permitId a) (at_providerLeaseIdentity a)
      else at_providerLeaseIdentity a = None) \<and>
     (at_dispatchPhase a \<noteq> Some PhPermitGranted \<or> at_state a = ADispatchIntentPersisted) \<and>
     (at_dispatchPhase a \<noteq> Some PhAttemptBound \<or> at_state a = ADispatched) \<and>
     (at_dispatchPhase a \<noteq> Some PhInvoking \<or> at_state a \<in> set [ADispatched, AKnownSuccess, AKnownFailure, AUnknownOutcome, ADiscarded])"

text \<open>\<open>startedAt\<close> is a timestamp in this state (checked before).\<close>

definition unknown_outcome_ok :: "dates \<Rightarrow> attempt \<Rightarrow> bool" where
  "unknown_outcome_ok dates a \<longleftrightarrow>
     present (is_timestamp dates) (at_unknownOutcomeAt a) \<and> present (is_timestamp dates) (at_unknownOutcomeUntil a) \<and>
     present is_positive_integer (at_unknownOutcomeGraceMs a) \<and>
     (case (Option.bind (at_unknownOutcomeUntil a) (date_parse dates), Option.bind (at_unknownOutcomeAt a) (date_parse dates),
            Option.bind (at_startedAt a) (date_parse dates)) of
        (Some until, Some since, Some started) \<Rightarrow> Some (until - since) = at_unknownOutcomeGraceMs a \<and> \<not> since < started
      | _ \<Rightarrow> False) \<and>
     at_errorClass a = Some FcUnknownOutcome \<and> at_outputRef a = None \<and> present is_non_empty_string (at_providerEvidence a)"

definition is_valid_attempt :: "dates \<Rightarrow> attempt \<Rightarrow> bool" where
  "is_valid_attempt dates a \<longleftrightarrow>
     attempt_fields_ok dates a \<and> at_outcome a = expected_outcome (at_state a) \<and>
     (at_state a \<notin> set [ADispatchIntentPersisted, ADispatched, AKnownSuccess, AKnownFailure, AUnknownOutcome] \<or>
        present (is_timestamp dates) (at_dispatchIntentAt a) \<and> present is_positive_integer (at_dispatchIntentLedgerRevision a) \<and>
        present is_valid_blob_reference (at_dispatchIntentRef a)) \<and>
     (at_state a \<notin> set [ADispatched, AKnownSuccess, AKnownFailure, AUnknownOutcome] \<or>
        present (is_timestamp dates) (at_startedAt a) \<and> present (is_timestamp dates) (at_leaseExpiresAt a)) \<and>
     (at_state a \<noteq> AKnownSuccess \<or> present is_valid_blob_reference (at_outputRef a)) \<and>
     (at_state a \<noteq> AKnownFailure \<or> at_errorClass a \<noteq> None) \<and>
     (\<not> has_claim_binding a \<or> claim_binding_ok a) \<and>
     (at_state a \<noteq> AUnknownOutcome \<or> unknown_outcome_ok dates a)"

end
