(* ===== verification/LedgerCommit.thy ===== *)
theory LedgerCommit
  imports LedgerValid
begin

text \<open>
  The checks of a commit: its before images, index entries, read back, ownership and the proof that a
  compensated commit is not visible any more.
\<close>

definition RECORD_SUCCESS_CONDITION_KEYS :: "success_condition list" where
  "RECORD_SUCCESS_CONDITION_KEYS =
     [CandidateSnapshotFrozen, SourceSnapshotPersisted, ModelOutputBoundAndQualified, BodyAtomicallyWritten,
      MainIndexPublished, ReaderIndexConsistent, LedgerConsistent, ReadBackVerified]"

definition is_valid_success_conditions :: "(success_condition \<times> bool) list \<Rightarrow> bool" where
  "is_valid_success_conditions cs = list_all (\<lambda>k. map_of cs k \<noteq> None) RECORD_SUCCESS_CONDITION_KEYS"

definition is_valid_before_image :: "before_image \<Rightarrow> bool" where
  "is_valid_before_image b \<longleftrightarrow>
     is_non_empty_string (bi_path b) \<and> if_present is_valid_blob_reference (bi_contentRef b) \<and>
     (if \<not> bi_existed b then bi_revision b = None \<and> bi_hash b = None \<and> bi_contentRef b = None
      else present is_non_empty_string (bi_revision b) \<and> present is_non_empty_string (bi_hash b) \<and>
        present (\<lambda>r. is_valid_blob_reference r \<and> Some (bl_hash r) = bi_hash b) (bi_contentRef b))"

definition is_valid_before_image_bundle :: "dates \<Rightarrow> before_image_bundle \<Rightarrow> bool" where
  "is_valid_before_image_bundle dates b \<longleftrightarrow>
     is_non_empty_string (bb_commitId b) \<and> is_timestamp dates (bb_capturedAt b) \<and> is_valid_before_image (bb_body b) \<and>
     is_valid_before_image (bb_mainIndexEntry b) \<and> is_valid_before_image (bb_readerIndexEntry b) \<and> is_valid_fence (bb_fence b)"

definition is_valid_pending_refresh :: "dates \<Rightarrow> pending_refresh \<Rightarrow> bool" where
  "is_valid_pending_refresh dates p \<longleftrightarrow>
     is_non_empty_string (pr_refreshKey p) \<and> is_non_empty_string (pr_refreshTaskId p) \<and> is_non_empty_string (pr_sourceSnapshotId p) \<and>
     is_non_empty_string (pr_recordWorkKey p) \<and> is_non_empty_string (pr_workspaceHash p) \<and> is_non_empty_string (pr_conversationId p) \<and>
     is_non_empty_string (pr_fromRevision p) \<and> is_non_empty_string (pr_desiredRevision p) \<and> is_timestamp dates (pr_persistedAt p) \<and>
     is_positive_integer (pr_ledgerRevision p) \<and> is_valid_blob_reference (pr_ledgerRef p)"

definition is_valid_index_entry :: "index_entry \<Rightarrow> bool" where
  "is_valid_index_entry e \<longleftrightarrow>
     is_non_empty_string (ie_revision e) \<and> is_non_empty_string (ie_entryHash e) \<and> is_non_empty_string (ie_commitId e) \<and>
     is_non_empty_string (ie_recordWorkKey e) \<and> is_non_empty_string (ie_sourceSnapshotId e) \<and> is_non_empty_string (ie_bodyHash e) \<and>
     is_non_empty_string (ie_coveredRevision e)"

definition same_index_entry :: "index_entry \<Rightarrow> index_entry \<Rightarrow> bool" where
  "same_index_entry l r \<longleftrightarrow>
     ie_revision l = ie_revision r \<and> ie_entryHash l = ie_entryHash r \<and> ie_commitId l = ie_commitId r \<and>
     ie_recordWorkKey l = ie_recordWorkKey r \<and> ie_sourceSnapshotId l = ie_sourceSnapshotId r \<and>
     ie_bodyHash l = ie_bodyHash r \<and> ie_coveredRevision l = ie_coveredRevision r"

definition is_valid_commit_ownership :: "commit_ownership \<Rightarrow> bool" where
  "is_valid_commit_ownership x =
     (case x of TaskExclusive t \<Rightarrow> is_non_empty_string t
      | SharedOwners ts \<Rightarrow> 0 < length ts \<and> list_all is_non_empty_string ts \<and> is_unique ts)"

definition is_valid_read_back :: "dates \<Rightarrow> read_back \<Rightarrow> bool" where
  "is_valid_read_back dates r \<longleftrightarrow>
     is_timestamp dates (rb_verifiedAt r) \<and> is_non_empty_string (rb_bodyHash r) \<and> is_non_empty_string (rb_mainIndexRevision r) \<and>
     is_non_empty_string (rb_readerIndexRevision r) \<and> is_valid_index_entry (rb_mainIndexEntry r) \<and> is_valid_index_entry (rb_readerIndexEntry r)"

definition is_valid_cleanup_target :: "cleanup_target \<Rightarrow> bool" where
  "is_valid_cleanup_target c \<longleftrightarrow>
     is_non_empty_string (ct_path c) \<and> \<not> ct_taskCommitVisible c \<and> if_present is_positive_integer (ct_observedRecordCommitEpoch c)"

definition is_valid_superseding_commit :: "superseding_commit \<Rightarrow> bool" where
  "is_valid_superseding_commit s \<longleftrightarrow>
     is_non_empty_string (sc_commitId s) \<and> is_non_empty_string (sc_recordWorkKey s) \<and> is_positive_integer (sc_recordCommitEpoch s) \<and>
     is_non_empty_string (sc_bodyHash s) \<and> is_non_empty_string (sc_mainIndexEntryHash s) \<and> is_non_empty_string (sc_readerIndexEntryHash s)"

definition is_valid_cleanup_read_back :: "dates \<Rightarrow> cleanup_read_back \<Rightarrow> bool" where
  "is_valid_cleanup_read_back dates c \<longleftrightarrow>
     is_non_empty_string (cb_commitId c) \<and> is_non_empty_string (cb_taskId c) \<and> is_non_empty_string (cb_recordWorkKey c) \<and>
     is_timestamp dates (cb_verifiedAt c) \<and> is_positive_integer (cb_registryRevision c) \<and> is_valid_cleanup_target (cb_body c) \<and>
     is_valid_cleanup_target (cb_mainIndexEntry c) \<and> is_valid_cleanup_target (cb_readerIndexEntry c) \<and>
     if_present is_valid_superseding_commit (cb_supersedingCommit c) \<and> is_valid_fence (cb_fence c)"

definition cleanup_target_proves_invisible :: "cleanup_target \<Rightarrow> before_image \<Rightarrow> bool" where
  "cleanup_target_proves_invisible t b \<longleftrightarrow>
     ct_path t = bi_path b \<and> \<not> ct_taskCommitVisible t \<and>
     (case ct_disposition t of
        CdAbsent \<Rightarrow> \<not> bi_existed b
      | CdRestoredBeforeImage \<Rightarrow> bi_existed b \<and> ct_observedHash t = bi_hash b \<and> ct_observedRevision t = bi_revision b
      | CdSupersededByHigherEpoch \<Rightarrow> True)"

definition supersession_ok :: "cleanup_read_back \<Rightarrow> commit \<Rightarrow> bool" where
  "supersession_ok p c =
     (let targets = [cb_body p, cb_mainIndexEntry p, cb_readerIndexEntry p]
      in if \<not> list_ex (\<lambda>t. ct_disposition t = CdSupersededByHigherEpoch) targets then cb_supersedingCommit p = None
         else present (\<lambda>s.
           ft_recordCommitEpoch (cm_fence c) < sc_recordCommitEpoch s \<and>
           list_all (\<lambda>t. ct_disposition t = CdSupersededByHigherEpoch \<and> ct_observedRecordCommitEpoch t = Some (sc_recordCommitEpoch s) \<and>
             ct_observedCommitId t = Some (sc_commitId s) \<and> ct_observedRecordWorkKey t = Some (sc_recordWorkKey s)) targets \<and>
           ct_observedHash (cb_body p) = Some (sc_bodyHash s) \<and>
           ct_observedHash (cb_mainIndexEntry p) = Some (sc_mainIndexEntryHash s) \<and>
           ct_observedHash (cb_readerIndexEntry p) = Some (sc_readerIndexEntryHash s)) (cb_supersedingCommit p))"

definition cleanup_proves_commit_invisible :: "commit \<Rightarrow> bool" where
  "cleanup_proves_commit_invisible c =
     (case (cm_cleanupReadBack c, cm_beforeImage c) of
        (Some p, Some b) \<Rightarrow>
          cb_commitId p = cm_commitId c \<and> cb_taskId p = cm_taskId c \<and> cb_recordWorkKey p = cm_recordWorkKey c \<and>
          0 < cb_registryRevision p \<and> has_current_fencing_token (cb_fence p) (cm_fence c) \<and>
          cleanup_target_proves_invisible (cb_body p) (bb_body b) \<and>
          cleanup_target_proves_invisible (cb_mainIndexEntry p) (bb_mainIndexEntry b) \<and>
          cleanup_target_proves_invisible (cb_readerIndexEntry p) (bb_readerIndexEntry b) \<and> supersession_ok p c
      | _ \<Rightarrow> False)"

definition commit_fields_ok :: "dates \<Rightarrow> commit \<Rightarrow> bool" where
  "commit_fields_ok dates c \<longleftrightarrow>
     cm_schemaVersion c = RECORD_SCHEDULER_SCHEMA_VERSION \<and> is_non_empty_string (cm_commitId c) \<and> is_non_empty_string (cm_taskId c) \<and>
     is_non_empty_string (cm_unitId c) \<and> is_non_empty_string (cm_attemptId c) \<and> is_non_empty_string (cm_recordWorkKey c) \<and>
     is_non_empty_string (cm_sourceSnapshotId c) \<and> is_non_empty_string (cm_inputHash c) \<and> is_non_empty_string (cm_outputHash c) \<and>
     is_valid_blob_reference (cm_bodyRef c) \<and> is_non_empty_string (cm_bodyHash c) \<and> is_valid_commit_ownership (cm_ownership c) \<and>
     is_non_empty_string (cm_observedSourceRevisionAtCommit c) \<and> is_valid_success_conditions (cm_successConditions c) \<and>
     is_valid_fence (cm_fence c) \<and> if_present is_valid_index_entry (cm_mainIndexEntry c) \<and>
     if_present is_valid_index_entry (cm_readerIndexEntry c) \<and> if_present (is_timestamp dates) (cm_verifiedAt c) \<and>
     if_present (is_valid_before_image_bundle dates) (cm_beforeImage c) \<and>
     if_present (is_valid_pending_refresh dates) (cm_pendingRefresh c) \<and> if_present (is_valid_read_back dates) (cm_readBack c) \<and>
     if_present (is_valid_cleanup_read_back dates) (cm_cleanupReadBack c)"

definition verified_entry_ok :: "commit \<Rightarrow> string option \<Rightarrow> index_entry \<Rightarrow> bool" where
  "verified_entry_ok c r e \<longleftrightarrow>
     is_valid_index_entry e \<and> Some (ie_revision e) = r \<and> ie_commitId e = cm_commitId c \<and> ie_recordWorkKey e = cm_recordWorkKey c \<and>
     ie_sourceSnapshotId e = cm_sourceSnapshotId c \<and> ie_bodyHash e = cm_bodyHash c \<and> Some (ie_coveredRevision e) = cm_coveredRevision c"

definition verified_commit_ok :: "dates \<Rightarrow> commit \<Rightarrow> bool" where
  "verified_commit_ok dates c \<longleftrightarrow>
     cm_accepted c \<and> cm_cleanupPhase c = KNotRequired \<and> bl_hash (cm_bodyRef c) = cm_bodyHash c \<and>
     present is_non_empty_string (cm_mainIndexRevision c) \<and> present is_non_empty_string (cm_readerIndexRevision c) \<and>
     present (verified_entry_ok c (cm_mainIndexRevision c)) (cm_mainIndexEntry c) \<and>
     present (verified_entry_ok c (cm_readerIndexRevision c)) (cm_readerIndexEntry c) \<and>
     present is_non_empty_string (cm_coveredRevision c) \<and> present (is_timestamp dates) (cm_verifiedAt c) \<and>
     present (\<lambda>r. is_valid_read_back dates r \<and> Some (rb_verifiedAt r) = cm_verifiedAt c \<and> rb_bodyHash r = cm_bodyHash c \<and>
         Some (rb_mainIndexRevision r) = cm_mainIndexRevision c \<and> Some (rb_readerIndexRevision r) = cm_readerIndexRevision c \<and>
         present (same_index_entry (rb_mainIndexEntry r)) (cm_mainIndexEntry c) \<and>
         present (same_index_entry (rb_readerIndexEntry r)) (cm_readerIndexEntry c)) (cm_readBack c)"

definition is_valid_commit :: "dates \<Rightarrow> commit \<Rightarrow> bool" where
  "is_valid_commit dates c \<longleftrightarrow>
     commit_fields_ok dates c \<and>
     (cm_state c \<notin> set [CPublishIntent, CBodyPublished, CMainIndexWritten, CReaderIndexWritten, CVerified, CCleanupPending,
         CCompensated, CRepairRequired] \<or> present (is_valid_before_image_bundle dates) (cm_beforeImage c)) \<and>
     if_present (\<lambda>b. bb_commitId b = cm_commitId c \<and> has_current_fencing_token (bb_fence b) (cm_fence c)) (cm_beforeImage c) \<and>
     (cm_state c \<noteq> CVerified \<or> verified_commit_ok dates c) \<and>
     (cm_state c \<notin> set [CCleanupPending, CCompensated] \<or> cm_ownership c = TaskExclusive (cm_taskId c)) \<and>
     (cm_state c \<noteq> CCompensated \<or> cm_cleanupPhase c = KVerified \<and> cleanup_proves_commit_invisible c)"

end
