(* ===== verification/LedgerGraph.thy ===== *)
theory LedgerGraph
  imports LedgerCommit
begin

text \<open>
  The consistency of a whole ledger (\<open>isRecordSchedulerLedgerGraphConsistent\<close>, \<open>isCurrentRecordSchedulerLedger\<close>):
  unique identifiers, references that resolve, fences that are not ahead of the registry, one live attempt
  per unit, verified commits with their evidence, counters that add up.
\<close>

section \<open>Lookups\<close>

text \<open>\<open>new Map(xs.map(x => [key(x), x]))\<close>: the last element of a key wins.\<close>

definition index_by :: "('a \<Rightarrow> 'k) \<Rightarrow> 'a list \<Rightarrow> 'k \<Rightarrow> 'a option" where
  "index_by f xs = map_of (rev (map (\<lambda>x. (f x, x)) xs))"

text \<open>\<open>value || undefined\<close> and the truth of an optional text.\<close>

definition truthy_value :: "string option \<Rightarrow> string option" where
  "truthy_value v = (if v = Some [] then None else v)"

fun chain_name :: "source_chain \<Rightarrow> string" where
  "chain_name SAntigravity = ''antigravity''"
| "chain_name SCodex = ''codex''"
| "chain_name SClaudeCode = ''claude-code''"
| "chain_name SWindsurf = ''windsurf''"
| "chain_name SDsh = ''dsh''"

definition find_candidate :: "ledger \<Rightarrow> source_snapshot \<Rightarrow> candidate option" where
  "find_candidate l s =
     find (\<lambda>c. cd_conversationId c = ss_conversationId s \<and> cd_chain c = ss_chain s \<and> cd_workspaceHash c = ss_workspaceHash s)
       (cs_candidates (lg_candidateSnapshot l))"

definition find_enumeration :: "ledger \<Rightarrow> source_snapshot \<Rightarrow> enumeration option" where
  "find_enumeration l s = find (\<lambda>e. en_chain e = ss_chain s) (cs_enumerations (lg_candidateSnapshot l))"

definition current_fence :: "record_work \<Rightarrow> fencing_token" where
  "current_fence w =
     \<lparr> ft_schedulerEpoch = rw_schedulerEpoch w, ft_recordCommitEpoch = rw_recordCommitEpoch w,
       ft_fencingToken = rw_currentFencingToken w, ft_workLeaseId = rw_workLeaseId w \<rparr>"

definition is_candidate_selected_for_execution :: "candidate_snapshot \<Rightarrow> candidate \<Rightarrow> bool" where
  "is_candidate_selected_for_execution s c \<longleftrightarrow>
     cd_state c = Missing \<or> cd_state c = Stale \<or> cs_requestMode s = RmForce \<and> cd_state c = Fresh"

definition is_complete_source_snapshot :: "source_snapshot \<Rightarrow> bool" where
  "is_complete_source_snapshot s \<longleftrightarrow>
     ss_complete s \<and> 0 < length (ss_contentHash s) \<and> bl_hash (ss_contentRef s) = ss_contentHash s \<and>
     0 \<le> bl_byteLength (ss_contentRef s) \<and> rr_totalRounds (ss_readRange s) \<le> rr_endRound (ss_readRange s) \<and> ss_gaps s = []"

definition enumeration_complete :: "enumeration \<Rightarrow> bool" where
  "enumeration_complete e \<longleftrightarrow>
     en_complete e \<and> en_paginationExhausted e \<and> \<not> en_truncated e \<and> truthy_value (en_error e) = None"

definition has_complete_execution_source_boundary :: "ledger \<Rightarrow> enumeration option \<Rightarrow> bool" where
  "has_complete_execution_source_boundary l e \<longleftrightarrow>
     present enumeration_complete e \<or>
     present (\<lambda>r. sr_phase r = RpMaterialized \<and> present (\<lambda>n. n = sr_materializedCount r) (sr_selectedCount r) \<and>
       sr_unresolvedCount r = 0 \<and> sr_issues r = []) (tk_sourceResolution (lg_task l))"

section \<open>Source materialization\<close>

definition source_matches_selection :: "source_snapshot \<Rightarrow> materialization_selection \<Rightarrow> bool" where
  "source_matches_selection s m \<longleftrightarrow>
     ss_chain s = ms_chain m \<and> ss_workspaceHash s = ms_workspaceHash m \<and> ss_conversationId s = ms_conversationId m"

definition outcome_ok :: "ledger \<Rightarrow> source_materialization \<Rightarrow> materialization_outcome \<Rightarrow> bool" where
  "outcome_ok l m out =
     (case index_by ms_sourceKey (sm_selected m) (mo_sourceKey out) of
        None \<Rightarrow> False
      | Some sel \<Rightarrow>
          (let src = (case mo_sourceSnapshotId out of None \<Rightarrow> None
                      | Some i \<Rightarrow> index_by ss_sourceSnapshotId (lg_sourceSnapshots l) i)
           in (mo_sourceSnapshotId out = None \<or> present (\<lambda>s. source_matches_selection s sel) src) \<and>
              if_present (\<lambda>s. if_present (\<lambda>r. r = ss_sourceRevision s) (mo_sourceRevision out) \<and>
                 if_present (\<lambda>h. h = ss_contentHash s) (mo_contentHash out)) src \<and>
              (mo_kind out \<noteq> OkAccepted \<or> src \<noteq> None) \<and>
              (mo_kind out \<noteq> OkUnresolved \<or> mo_sourceSnapshotId out = None) \<and>
              (mo_kind out \<noteq> OkConflict \<or> src \<noteq> None \<or>
                 list_all (present is_non_empty_string)
                   [mo_sourceRevision out, mo_contentHash out, mo_previousContentHash out, mo_evidenceHash out, mo_scanId out, mo_reason out])))"

definition is_valid_source_materialization :: "dates \<Rightarrow> source_materialization \<Rightarrow> ledger \<Rightarrow> bool" where
  "is_valid_source_materialization dates m l \<longleftrightarrow>
     sm_schemaVersion m = 1 \<and> is_non_empty_string (sm_candidateSnapshotId m) \<and> is_non_empty_string (sm_candidateSnapshotHash m) \<and>
     is_non_empty_string (sm_selectionHash m) \<and> list_all is_valid_materialization_selection (sm_selected m) \<and>
     list_all (is_valid_materialization_outcome dates) (sm_outcomes m) \<and> if_present is_valid_blob_reference (sm_markerRef m) \<and>
     sm_candidateSnapshotId m = cs_snapshotId (lg_candidateSnapshot l) \<and>
     sm_candidateSnapshotHash m = cs_snapshotHash (lg_candidateSnapshot l) \<and>
     sorted_unique_keys (map ms_sourceKey (sm_selected m)) \<and> sorted_unique_keys (map mo_sourceKey (sm_outcomes m)) \<and>
     list_all (\<lambda>sel. list_ex (\<lambda>c. cd_chain c = ms_chain sel \<and> cd_workspaceHash c = ms_workspaceHash sel \<and>
         cd_conversationId c = ms_conversationId sel \<and> cd_state c = ms_candidateState sel \<and> cd_evidenceHash c = ms_evidenceHash sel)
       (cs_candidates (lg_candidateSnapshot l))) (sm_selected m) \<and>
     list_all (outcome_ok l m) (sm_outcomes m) \<and>
     (if sm_phase m = MpIntent then sm_markerRef m = None
      else sm_markerRef m \<noteq> None \<and> length (sm_outcomes m) = length (sm_selected m))"

section \<open>The graph\<close>

definition graph_ids_ok :: "ledger \<Rightarrow> bool" where
  "graph_ids_ok l \<longleftrightarrow>
     tk_candidateSnapshotId (lg_task l) = cs_snapshotId (lg_candidateSnapshot l) \<and>
     tk_candidateSnapshotRevision (lg_task l) = cs_snapshotRevision (lg_candidateSnapshot l) \<and>
     is_unique (map en_chain (cs_enumerations (lg_candidateSnapshot l))) \<and>
     is_unique (map (\<lambda>c. chain_name (cd_chain c) @ '':'' @ cd_workspaceHash c @ '':'' @ cd_conversationId c)
       (cs_candidates (lg_candidateSnapshot l))) \<and>
     is_unique (map ss_sourceSnapshotId (lg_sourceSnapshots l)) \<and> is_unique (map rw_recordWorkKey (lg_recordWork l)) \<and>
     is_unique (map ul_unitId (lg_units l)) \<and> is_unique (map at_attemptId (lg_attempts l)) \<and>
     is_unique (map cm_commitId (lg_commits l))"

abbreviation source_of :: "ledger \<Rightarrow> string \<Rightarrow> source_snapshot option" where
  "source_of l \<equiv> index_by ss_sourceSnapshotId (lg_sourceSnapshots l)"

abbreviation work_of :: "ledger \<Rightarrow> string \<Rightarrow> record_work option" where
  "work_of l \<equiv> index_by rw_recordWorkKey (lg_recordWork l)"

abbreviation unit_of :: "ledger \<Rightarrow> string \<Rightarrow> unit_ledger option" where
  "unit_of l \<equiv> index_by ul_unitId (lg_units l)"

abbreviation attempt_of :: "ledger \<Rightarrow> string \<Rightarrow> attempt option" where
  "attempt_of l \<equiv> index_by at_attemptId (lg_attempts l)"

abbreviation commit_of :: "ledger \<Rightarrow> string \<Rightarrow> commit option" where
  "commit_of l \<equiv> index_by cm_commitId (lg_commits l)"

definition recipe_graph_ok :: "unit_ledger \<Rightarrow> bool" where
  "recipe_graph_ok u =
     if_present (\<lambda>p.
       ul_layer u = ''provider-attempt'' \<and> ul_routePlan u \<noteq> [] \<and> is_unique (ul_routePlan u) \<and> RAuto \<notin> set (ul_routePlan u) \<and>
       list_all (\<lambda>q. q \<noteq> PLocal \<and> RProvider q \<in> set (ul_routePlan u)) (ul_attemptedProviders u) \<and>
       if_present (\<lambda>i. i < of_nat (length (ul_routePlan u))) (ul_routeCursor u) \<and>
       up_composeOrder p = ul_composeOrder u \<and> truthy_value (up_continuationKey p) = truthy_value (ul_continuationKey u))
     (ul_promptRecipe u)"

definition family_graph_ok :: "ledger \<Rightarrow> unit_ledger \<Rightarrow> bool" where
  "family_graph_ok l u \<longleftrightarrow>
     if_present (\<lambda>p. present (\<lambda>parent. present (\<lambda>cs. ul_unitId u \<in> set cs) (ul_childUnitIds parent) \<and>
       ul_splitDepth u = ul_splitDepth parent + 1) (unit_of l p)) (ul_parentUnitId u) \<and>
     (case ul_childUnitIds u of
        Some cs \<Rightarrow> list_all (\<lambda>c. present (\<lambda>x. ul_parentUnitId x = Some (ul_unitId u)) (unit_of l c)) cs \<and>
          if_present (\<lambda>p. same_string_set (cp_childUnitIds p) cs) (ul_composeProvenance u)
      | None \<Rightarrow> ul_composeProvenance u = None)"

definition unit_graph_ok :: "ledger \<Rightarrow> unit_ledger \<Rightarrow> bool" where
  "unit_graph_ok l u =
     (case (source_of l (ul_sourceSnapshotId u), work_of l (ul_recordWorkKey u)) of
        (Some s, Some w) \<Rightarrow>
          ul_taskId u = tk_taskId (lg_task l) \<and> ul_recordCommitEpoch u = rw_recordCommitEpoch w \<and>
          ss_conversationId s = rw_conversationId w \<and> ss_chain s = rw_chain w \<and> ss_workspaceHash s = rw_workspaceHash w \<and>
          ss_desiredRevision s = rw_desiredRevision w \<and> ul_recordId u = ss_conversationId s \<and>
          present (\<lambda>c. ul_state u \<notin> set [UQueued, URunning, UWaitingRetry, UResultReady, UCommitting] \<or>
            is_candidate_selected_for_execution (lg_candidateSnapshot l) c \<and> cd_evidence c \<noteq> [] \<and>
            has_complete_execution_source_boundary l (find_enumeration l s) \<and> is_complete_source_snapshot s) (find_candidate l s) \<and>
          list_all (\<lambda>d. d \<noteq> ul_unitId u \<and> unit_of l d \<noteq> None) (ul_dependencies u) \<and>
          recipe_graph_ok u \<and> family_graph_ok l u \<and>
          if_present (\<lambda>i. present (\<lambda>c. cm_unitId c = ul_unitId u) (commit_of l i)) (ul_commitId u)
      | _ \<Rightarrow> False)"

definition live_attempts :: "ledger \<Rightarrow> string \<Rightarrow> attempt list" where
  "live_attempts l u = filter (\<lambda>a. at_unitId a = u \<and> at_state a \<noteq> AKnownFailure \<and> at_state a \<noteq> ADiscarded) (lg_attempts l)"

definition unknown_attempts :: "ledger \<Rightarrow> string \<Rightarrow> attempt list" where
  "unknown_attempts l u = filter (\<lambda>a. at_state a = AUnknownOutcome) (live_attempts l u)"

definition ordered_attempts :: "dates \<Rightarrow> ledger \<Rightarrow> string \<Rightarrow> attempt list" where
  "ordered_attempts dates l u =
     sort_by (\<lambda>a b. compare_dates (Option.bind (at_dispatchIntentAt a) (date_parse dates)) (Option.bind (at_dispatchIntentAt b) (date_parse dates)))
       (filter (\<lambda>a. at_unitId a = u \<and> at_dispatchIntentAt a \<noteq> None) (lg_attempts l))"

fun tokens_increase :: "attempt list \<Rightarrow> bool" where
  "tokens_increase (a # b # xs) \<longleftrightarrow> ft_fencingToken (at_fence a) < ft_fencingToken (at_fence b) \<and> tokens_increase (b # xs)"
| "tokens_increase _ \<longleftrightarrow> True"

definition cancellation_in_progress :: "ledger \<Rightarrow> bool" where
  "cancellation_in_progress l \<longleftrightarrow> tk_state (lg_task l) \<in> set [TCancelRequested, TCancelling, TCancelled]"

definition attempts_by :: "ledger \<Rightarrow> string \<Rightarrow> attempt_provider \<Rightarrow> rat" where
  "attempts_by l u p = of_nat (length (filter (\<lambda>a. at_unitId a = u \<and> at_provider a = p) (lg_attempts l)))"

definition unit_attempts_ok :: "dates \<Rightarrow> ledger \<Rightarrow> unit_ledger \<Rightarrow> bool" where
  "unit_attempts_ok dates l u =
     (let live = live_attempts l (ul_unitId u); unknown = unknown_attempts l (ul_unitId u)
      in length live \<le> 1 \<and> length unknown \<le> 1 \<and> (ul_state u \<noteq> UUnknownOutcome \<or> length unknown = 1) \<and>
         (cancellation_in_progress l \<or> length unknown \<noteq> 1 \<or> ul_state u = UUnknownOutcome) \<and>
         tokens_increase (ordered_attempts dates l (ul_unitId u)) \<and>
         if_present (\<lambda>n. n = of_nat (length (filter (\<lambda>a. at_unitId a = ul_unitId u) (lg_attempts l)))) (ul_unitAttempts u) \<and>
         if_present (\<lambda>cs. list_all (\<lambda>p. (case map_of cs p of None \<Rightarrow> 0 | Some n \<Rightarrow> n) = attempts_by l (ul_unitId u) p)
           [PAntigravity, PCodex, PClaudeCode, PGrok, PAgy]) (ul_providerAttemptCounts u))"

definition attempt_graph_ok :: "ledger \<Rightarrow> attempt \<Rightarrow> bool" where
  "attempt_graph_ok l a =
     (case (unit_of l (at_unitId a), work_of l (at_recordWorkKey a)) of
        (Some u, Some w) \<Rightarrow>
          ul_recordWorkKey u = rw_recordWorkKey w \<and> at_inputHash a = ul_inputHash u \<and>
          tk_taskId (lg_task l) \<in> set (at_originTaskIds a) \<and>
          ft_recordCommitEpoch (at_fence a) = rw_recordCommitEpoch w \<and> ft_schedulerEpoch (at_fence a) \<le> rw_schedulerEpoch w \<and>
          ft_fencingToken (at_fence a) \<le> rw_currentFencingToken w \<and>
          (at_state a \<notin> set [ACreated, ADispatchIntentPersisted, ADispatched, AKnownSuccess] \<or>
             has_current_fencing_token (current_fence w) (at_fence a)) \<and>
          (at_state a \<noteq> AUnknownOutcome \<or>
             (if ft_fencingToken (at_fence a) = rw_currentFencingToken w
              then has_current_fencing_token (current_fence w) (at_fence a)
              else ft_workLeaseId (at_fence a) \<noteq> rw_workLeaseId w))
      | _ \<Rightarrow> False)"

definition is_persisted_refresh :: "dates \<Rightarrow> commit \<Rightarrow> source_snapshot \<Rightarrow> bool" where
  "is_persisted_refresh dates c s \<longleftrightarrow>
     cm_observedSourceRevisionAtCommit c = ss_desiredRevision s \<or>
     present (\<lambda>r. pr_sourceSnapshotId r = ss_sourceSnapshotId s \<and> pr_recordWorkKey r = cm_recordWorkKey c \<and> pr_chain r = ss_chain s \<and>
       pr_workspaceHash r = ss_workspaceHash s \<and> pr_conversationId r = ss_conversationId s \<and>
       pr_fromRevision r = ss_desiredRevision s \<and> pr_desiredRevision r = cm_observedSourceRevisionAtCommit c \<and>
       0 < pr_ledgerRevision r \<and> 0 < length (bl_hash (pr_ledgerRef r)) \<and> date_parse dates (pr_persistedAt r) \<noteq> None)
     (cm_pendingRefresh c)"

definition owns_commit :: "commit \<Rightarrow> bool" where
  "owns_commit c = (case cm_ownership c of TaskExclusive t \<Rightarrow> t = cm_taskId c | SharedOwners ts \<Rightarrow> cm_taskId c \<in> set ts)"

definition commit_graph_ok :: "dates \<Rightarrow> ledger \<Rightarrow> commit \<Rightarrow> bool" where
  "commit_graph_ok dates l c =
     (case (source_of l (cm_sourceSnapshotId c), work_of l (cm_recordWorkKey c), unit_of l (cm_unitId c), attempt_of l (cm_attemptId c)) of
        (Some s, Some w, Some u, Some a) \<Rightarrow>
          cm_taskId c = tk_taskId (lg_task l) \<and> ul_taskId u = tk_taskId (lg_task l) \<and> ul_recordWorkKey u = cm_recordWorkKey c \<and>
          at_unitId a = ul_unitId u \<and> at_recordWorkKey a = cm_recordWorkKey c \<and> ul_sourceSnapshotId u = cm_sourceSnapshotId c \<and>
          ul_inputHash u = cm_inputHash c \<and> at_inputHash a = cm_inputHash c \<and> owns_commit c \<and>
          ft_recordCommitEpoch (cm_fence c) = rw_recordCommitEpoch w \<and> ft_schedulerEpoch (cm_fence c) \<le> rw_schedulerEpoch w \<and>
          ft_fencingToken (cm_fence c) \<le> rw_currentFencingToken w \<and>
          (cm_state c \<notin> set [CResultReady, CBodyStaged, CPublishIntent, CBodyPublished, CMainIndexWritten, CReaderIndexWritten,
              CVerified, CCleanupPending] \<or> has_current_fencing_token (current_fence w) (cm_fence c)) \<and>
          (cm_state c \<noteq> CVerified \<or>
             at_state a = AKnownSuccess \<and> at_outcome a = Some OcKnownSuccess \<and>
             present (\<lambda>r. bl_hash r = cm_outputHash c) (at_outputRef a) \<and> ul_state u = USucceeded \<and>
             ul_commitId u = Some (cm_commitId c) \<and> ul_coveredRevision u = Some (ss_desiredRevision s) \<and>
             cm_coveredRevision c = Some (ss_desiredRevision s) \<and> is_persisted_refresh dates c s) \<and>
          if_present (\<lambda>b. bb_commitId b = cm_commitId c \<and> has_current_fencing_token (bb_fence b) (cm_fence c)) (cm_beforeImage c) \<and>
          if_present (\<lambda>p. cb_registryRevision p \<le> rw_registryRevision w) (cm_cleanupReadBack c)
      | _ \<Rightarrow> False)"

definition is_cancellation_unit_settled :: "ledger_unit_state \<Rightarrow> bool" where
  "is_cancellation_unit_settled s \<longleftrightarrow> s = USucceeded \<or> s = UFailedFinal \<or> s = UCancelled \<or> s = UDiscarded \<or> s = USuperseded"

definition units_in :: "ledger \<Rightarrow> (ledger_unit_state \<Rightarrow> bool) \<Rightarrow> rat" where
  "units_in l p = of_nat (length (filter (\<lambda>u. p (ul_state u)) (lg_units l)))"

definition graph_counts_ok :: "ledger \<Rightarrow> bool" where
  "graph_counts_ok l =
     (let c = tk_units (lg_task l)
      in uc_materialized c = of_nat (length (lg_units l)) \<and> uc_running c = units_in l (\<lambda>s. s = URunning \<or> s = UCommitting) \<and>
         uc_done c = units_in l is_cancellation_unit_settled \<and> uc_failed c = units_in l (\<lambda>s. s = UFailedFinal))"

text \<open>A unit and its fencing token identify an attempt (the code joins the two with a colon, and a token is a number).\<close>

definition is_ledger_graph_consistent :: "dates \<Rightarrow> ledger \<Rightarrow> bool" where
  "is_ledger_graph_consistent dates l \<longleftrightarrow>
     graph_ids_ok l \<and>
     if_present (\<lambda>m. is_valid_source_materialization dates m l) (lg_sourceMaterialization l) \<and>
     list_all (\<lambda>s. find_candidate l s \<noteq> None) (lg_sourceSnapshots l) \<and>
     list_all (unit_graph_ok l) (lg_units l) \<and>
     (tk_state (lg_task l) \<noteq> TQueued \<and> tk_state (lg_task l) \<noteq> TRunning \<or>
        list_all (\<lambda>w. rw_schedulerEpoch w = tk_schedulerEpoch (lg_task l) \<and> tk_taskId (lg_task l) \<in> set (rw_activeTaskIds w)) (lg_recordWork l)) \<and>
     is_unique (map (\<lambda>a. (at_unitId a, ft_fencingToken (at_fence a))) (lg_attempts l)) \<and>
     list_all (unit_attempts_ok dates l) (lg_units l) \<and>
     list_all (attempt_graph_ok l) (lg_attempts l) \<and>
     list_all (commit_graph_ok dates l) (lg_commits l) \<and>
     graph_counts_ok l"

definition is_current_ledger :: "dates \<Rightarrow> ledger \<Rightarrow> bool" where
  "is_current_ledger dates l \<longleftrightarrow>
     lg_schemaVersion l = RECORD_SCHEDULER_SCHEMA_VERSION \<and> is_positive_integer (lg_revision l) \<and>
     is_non_empty_string (lg_persistedHash l) \<and> is_valid_task_ledger dates (lg_task l) \<and>
     is_valid_candidate_snapshot dates (lg_candidateSnapshot l) \<and>
     list_all (is_valid_source_snapshot dates) (lg_sourceSnapshots l) \<and> list_all (is_valid_record_work dates) (lg_recordWork l) \<and>
     list_all (is_valid_unit dates) (lg_units l) \<and> list_all (is_valid_attempt dates) (lg_attempts l) \<and>
     list_all (is_valid_commit dates) (lg_commits l) \<and> is_ledger_graph_consistent dates l"

end
