(* ===== verification/LedgerRules.thy ===== *)
theory LedgerRules
  imports LedgerGraph
begin

text \<open>
  What a ledger allows: reporting success of a record or a task, dispatching an attempt, completing a
  cancellation, and what a reader of a stored ledger may do.
\<close>

section \<open>Success\<close>

definition all_recorded_conditions_true :: "(success_condition \<times> bool) list \<Rightarrow> bool" where
  "all_recorded_conditions_true cs = list_all (\<lambda>k. map_of cs k = Some True) RECORD_SUCCESS_CONDITION_KEYS"

definition index_entry_binds_commit :: "index_entry option \<Rightarrow> commit \<Rightarrow> source_snapshot \<Rightarrow> bool" where
  "index_entry_binds_commit e c s =
     present (\<lambda>e. ie_commitId e = cm_commitId c \<and> ie_recordWorkKey e = cm_recordWorkKey c \<and>
       ie_sourceSnapshotId e = ss_sourceSnapshotId s \<and> ie_bodyHash e = cm_bodyHash c \<and> ie_coveredRevision e = ss_desiredRevision s) e"

text \<open>The parts of the ledger that belong to a commit; each may be missing.\<close>

record success_parts =
  sp_commit :: "commit option"
  sp_source :: "source_snapshot option"
  sp_unit :: "unit_ledger option"
  sp_attempt :: "attempt option"
  sp_work :: "record_work option"

definition parts_of_commit :: "ledger \<Rightarrow> string \<Rightarrow> success_parts" where
  "parts_of_commit l i =
     (let c = find (\<lambda>c. cm_commitId c = i) (lg_commits l)
      in \<lparr> sp_commit = c,
           sp_source = Option.bind c (\<lambda>c. find (\<lambda>s. ss_sourceSnapshotId s = cm_sourceSnapshotId c) (lg_sourceSnapshots l)),
           sp_unit = Option.bind c (\<lambda>c. find (\<lambda>u. ul_unitId u = cm_unitId c) (lg_units l)),
           sp_attempt = Option.bind c (\<lambda>c. find (\<lambda>a. at_attemptId a = cm_attemptId c) (lg_attempts l)),
           sp_work = Option.bind c (\<lambda>c. find (\<lambda>w. rw_recordWorkKey w = cm_recordWorkKey c) (lg_recordWork l)) \<rparr>)"

definition candidate_snapshot_frozen :: "ledger \<Rightarrow> source_snapshot option \<Rightarrow> bool" where
  "candidate_snapshot_frozen l src =
     present (\<lambda>s. tk_candidateSnapshotId (lg_task l) = cs_snapshotId (lg_candidateSnapshot l) \<and>
       tk_candidateSnapshotRevision (lg_task l) = cs_snapshotRevision (lg_candidateSnapshot l) \<and>
       present (\<lambda>c. is_candidate_selected_for_execution (lg_candidateSnapshot l) c \<and> cd_evidence c \<noteq> [] \<and>
         0 < length (cd_evidenceHash c)) (find_candidate l s) \<and>
       present enumeration_complete (find_enumeration l s)) src"

definition model_output_bound :: "success_parts \<Rightarrow> bool" where
  "model_output_bound p =
     (case (sp_commit p, sp_source p, sp_unit p, sp_attempt p) of
        (Some c, Some s, Some u, Some a) \<Rightarrow>
          cm_accepted c \<and> ul_state u = USucceeded \<and> ul_commitId u = Some (cm_commitId c) \<and>
          ul_coveredRevision u = Some (ss_desiredRevision s) \<and> ul_sourceSnapshotId u = ss_sourceSnapshotId s \<and>
          ul_inputHash u = cm_inputHash c \<and> at_unitId a = ul_unitId u \<and> at_recordWorkKey a = cm_recordWorkKey c \<and>
          at_inputHash a = cm_inputHash c \<and> at_state a = AKnownSuccess \<and> at_outcome a = Some OcKnownSuccess \<and>
          at_provider a \<in> set (ul_attemptedProviders u) \<and> present (\<lambda>r. bl_hash r = cm_outputHash c) (at_outputRef a)
      | _ \<Rightarrow> False)"

definition body_atomically_written :: "commit option \<Rightarrow> bool" where
  "body_atomically_written v =
     present (\<lambda>c. 0 < length (cm_bodyHash c) \<and> bl_hash (cm_bodyRef c) = cm_bodyHash c \<and> 0 \<le> bl_byteLength (cm_bodyRef c)) v"

definition main_index_published :: "success_parts \<Rightarrow> bool" where
  "main_index_published p =
     (case (sp_commit p, sp_source p) of
        (Some c, Some s) \<Rightarrow>
          present (\<lambda>r. 0 < length r) (cm_mainIndexRevision c) \<and>
          map_option ie_revision (cm_mainIndexEntry c) = cm_mainIndexRevision c \<and>
          index_entry_binds_commit (cm_mainIndexEntry c) c s \<and> cm_coveredRevision c = Some (ss_desiredRevision s)
      | _ \<Rightarrow> False)"

definition reader_index_consistent :: "success_parts \<Rightarrow> bool" where
  "reader_index_consistent p =
     (case (sp_commit p, sp_source p) of
        (Some c, Some s) \<Rightarrow>
          present (\<lambda>r. 0 < length r) (cm_readerIndexRevision c) \<and>
          map_option ie_revision (cm_readerIndexEntry c) = cm_readerIndexRevision c \<and>
          index_entry_binds_commit (cm_readerIndexEntry c) c s
      | _ \<Rightarrow> False)"

definition ledger_binds_commit :: "ledger \<Rightarrow> success_parts \<Rightarrow> bool" where
  "ledger_binds_commit l p =
     (case (sp_commit p, sp_source p, sp_unit p, sp_attempt p, sp_work p) of
        (Some c, Some s, Some u, Some a, Some w) \<Rightarrow>
          cm_taskId c = tk_taskId (lg_task l) \<and> ul_taskId u = tk_taskId (lg_task l) \<and> ul_state u = USucceeded \<and>
          ul_commitId u = Some (cm_commitId c) \<and> ul_recordWorkKey u = rw_recordWorkKey w \<and>
          ul_recordCommitEpoch u = rw_recordCommitEpoch w \<and> ul_sourceSnapshotId u = ss_sourceSnapshotId s \<and>
          rw_conversationId w = ss_conversationId s \<and> rw_chain w = ss_chain s \<and> rw_workspaceHash w = ss_workspaceHash s \<and>
          rw_desiredRevision w = ss_desiredRevision s \<and> tk_schedulerEpoch (lg_task l) = rw_schedulerEpoch w \<and>
          has_current_fencing_token (current_fence w) (at_fence a) \<and> has_current_fencing_token (current_fence w) (cm_fence c) \<and>
          cm_state c = CVerified \<and> cm_cleanupPhase c = KNotRequired \<and> all_recorded_conditions_true (cm_successConditions c)
      | _ \<Rightarrow> False)"

definition read_back_verified :: "dates \<Rightarrow> success_parts \<Rightarrow> bool" where
  "read_back_verified dates p =
     (case (sp_commit p, sp_source p) of
        (Some c, Some s) \<Rightarrow>
          cm_verifiedAt c \<noteq> None \<and>
          present (\<lambda>r. Some (rb_verifiedAt r) = cm_verifiedAt c \<and> rb_bodyHash r = cm_bodyHash c \<and>
            Some (rb_mainIndexRevision r) = cm_mainIndexRevision c \<and> Some (rb_readerIndexRevision r) = cm_readerIndexRevision c)
            (cm_readBack c) \<and>
          is_persisted_refresh dates c s
      | _ \<Rightarrow> False)"

fun success_condition_holds :: "dates \<Rightarrow> ledger \<Rightarrow> success_parts \<Rightarrow> success_condition \<Rightarrow> bool" where
  "success_condition_holds dates l p CandidateSnapshotFrozen = candidate_snapshot_frozen l (sp_source p)"
| "success_condition_holds dates l p SourceSnapshotPersisted = present is_complete_source_snapshot (sp_source p)"
| "success_condition_holds dates l p ModelOutputBoundAndQualified = model_output_bound p"
| "success_condition_holds dates l p BodyAtomicallyWritten = body_atomically_written (sp_commit p)"
| "success_condition_holds dates l p MainIndexPublished = main_index_published p"
| "success_condition_holds dates l p ReaderIndexConsistent = reader_index_consistent p"
| "success_condition_holds dates l p LedgerConsistent = ledger_binds_commit l p"
| "success_condition_holds dates l p ReadBackVerified = read_back_verified dates p"

record success_assessment =
  sa_success :: bool
  sa_conditions :: "(success_condition \<times> bool) list"
  sa_missingConditions :: "success_condition list"

definition evaluate_record_success :: "dates \<Rightarrow> ledger \<Rightarrow> string \<Rightarrow> success_assessment" where
  "evaluate_record_success dates l i =
     (if \<not> is_current_ledger dates l
      then \<lparr> sa_success = False, sa_conditions = map (\<lambda>k. (k, False)) RECORD_SUCCESS_CONDITION_KEYS,
             sa_missingConditions = RECORD_SUCCESS_CONDITION_KEYS \<rparr>
      else (let holds = success_condition_holds dates l (parts_of_commit l i);
                missing = filter (\<lambda>k. \<not> holds k) RECORD_SUCCESS_CONDITION_KEYS
            in \<lparr> sa_success = (length missing = 0), sa_conditions = map (\<lambda>k. (k, holds k)) RECORD_SUCCESS_CONDITION_KEYS,
                 sa_missingConditions = missing \<rparr>))"

definition is_record_success :: "dates \<Rightarrow> ledger \<Rightarrow> string \<Rightarrow> bool" where
  "is_record_success dates l i = sa_success (evaluate_record_success dates l i)"

definition has_only_accepted_materialization :: "ledger \<Rightarrow> bool" where
  "has_only_accepted_materialization l =
     if_present (\<lambda>m. sm_phase m = MpSealed \<and> list_all (\<lambda>x. mo_kind x = OkAccepted) (sm_outcomes m)) (lg_sourceMaterialization l)"

definition is_materialization_accepted :: "ledger \<Rightarrow> source_snapshot option \<Rightarrow> bool" where
  "is_materialization_accepted l src =
     (case lg_sourceMaterialization l of None \<Rightarrow> True
      | Some m \<Rightarrow> present (\<lambda>s. sm_phase m = MpSealed \<and>
          list_ex (\<lambda>x. mo_kind x = OkAccepted \<and> mo_sourceSnapshotId x = Some (ss_sourceSnapshotId s) \<and>
            present (source_matches_selection s) (find (\<lambda>e. ms_sourceKey e = mo_sourceKey x) (sm_selected m))) (sm_outcomes m)) src)"

definition can_report_ledger_success :: "dates \<Rightarrow> ledger \<Rightarrow> bool" where
  "can_report_ledger_success dates l \<longleftrightarrow>
     is_current_ledger dates l \<and> tk_state (lg_task l) = TSucceeded \<and> has_only_accepted_materialization l \<and>
     (let r = tk_recordItems (lg_task l); c = tk_units (lg_task l); verified = filter (\<lambda>c. cm_state c = CVerified) (lg_commits l)
      in rc_total r = rc_succeeded r + rc_failed r + rc_unresolved r \<and> rc_failed r = 0 \<and> rc_unresolved r = 0 \<and>
         uc_running c = 0 \<and> uc_eligible c = 0 \<and> uc_failed c = 0 \<and> uc_done c = of_nat (length (lg_units l)) \<and>
         list_all (\<lambda>u. ul_state u = USucceeded \<or> ul_state u = USuperseded) (lg_units l) \<and>
         (if rc_total r = 0 then lg_units l = [] \<and> lg_attempts l = [] \<and> lg_commits l = []
          else length verified = length (lg_commits l) \<and> of_nat (length verified) = rc_succeeded r \<and>
            of_nat (length (unique_list (map cm_recordWorkKey verified))) = rc_succeeded r \<and>
            list_all (\<lambda>c. is_record_success dates l (cm_commitId c)) verified))"

definition is_source_snapshot_covered :: "source_snapshot \<Rightarrow> string option \<Rightarrow> bool" where
  "is_source_snapshot_covered s covered \<longleftrightarrow>
     ss_complete s \<and> 0 < length (ss_contentHash s) \<and> covered = Some (ss_desiredRevision s)"

section \<open>Dispatch\<close>

text \<open>A missing or unparsable time is not after \<open>now\<close>, and not up to \<open>now\<close> either.\<close>

definition has_blocking_unknown_outcome :: "dates \<Rightarrow> ledger \<Rightarrow> rat \<Rightarrow> bool" where
  "has_blocking_unknown_outcome dates l now =
     list_ex (\<lambda>a. at_state a = AUnknownOutcome \<and> present (\<lambda>t. after (date_parse dates t) now) (at_unknownOutcomeUntil a)) (lg_attempts l)"

definition has_expired_unknown_outcome :: "dates \<Rightarrow> ledger \<Rightarrow> rat \<Rightarrow> bool" where
  "has_expired_unknown_outcome dates l now =
     list_ex (\<lambda>a. at_state a = AUnknownOutcome \<and> present (\<lambda>t. \<not> after (date_parse dates t) now) (at_unknownOutcomeUntil a) \<and>
       if_present (\<lambda>w. rw_currentFencingToken w \<le> ft_fencingToken (at_fence a))
         (find (\<lambda>w. rw_recordWorkKey w = at_recordWorkKey a) (lg_recordWork l))) (lg_attempts l)"

record durability_receipt =
  dr_verifier :: string
  dr_verifiedAt :: string
  dr_ledgerRevision :: rat
  dr_ledgerHash :: string
  dr_admissionLedgerAnchor :: ledger_anchor
  dr_admissionCapsuleRef :: blob_ref
  dr_candidateSnapshotId :: string
  dr_candidateSnapshotRevision :: rat
  dr_candidateSnapshotRef :: blob_ref
  dr_sourceSnapshotId :: string
  dr_sourceSnapshotRevision :: rat
  dr_sourceSnapshotRef :: blob_ref
  dr_recordWorkKey :: string
  dr_registryRevision :: rat
  dr_registryRef :: blob_ref
  dr_workLeaseId :: string
  dr_attemptId :: string
  dr_attemptIntentLedgerRevision :: rat
  dr_attemptIntentRef :: blob_ref
  dr_inputHash :: string
  dr_fence :: fencing_token

definition receipt_binds_admission :: "durability_receipt \<Rightarrow> task_admission \<Rightarrow> bool" where
  "receipt_binds_admission r a =
     (case a of LedgerCreated \<Rightarrow> False
      | EnvelopeBound anchor capsule _ \<Rightarrow>
          same_ledger_anchor (dr_admissionLedgerAnchor r) anchor \<and> same_blob_reference (dr_admissionCapsuleRef r) capsule)"

definition receipt_binds :: "dates \<Rightarrow> durability_receipt \<Rightarrow> ledger \<Rightarrow> attempt \<Rightarrow> source_snapshot \<Rightarrow> record_work \<Rightarrow> bool" where
  "receipt_binds dates r l a s w \<longleftrightarrow>
     dr_verifier r = ''record-scheduler-store'' \<and> date_parse dates (dr_verifiedAt r) \<noteq> None \<and>
     dr_ledgerRevision r = lg_revision l \<and> dr_ledgerHash r = lg_persistedHash l \<and>
     receipt_binds_admission r (tk_admission (lg_task l)) \<and>
     dr_candidateSnapshotId r = cs_snapshotId (lg_candidateSnapshot l) \<and>
     dr_candidateSnapshotRevision r = cs_snapshotRevision (lg_candidateSnapshot l) \<and>
     same_blob_reference (dr_candidateSnapshotRef r) (cs_snapshotRef (lg_candidateSnapshot l)) \<and>
     dr_sourceSnapshotId r = ss_sourceSnapshotId s \<and> dr_sourceSnapshotRevision r = ss_snapshotRevision s \<and>
     same_blob_reference (dr_sourceSnapshotRef r) (ss_snapshotRef s) \<and>
     dr_recordWorkKey r = rw_recordWorkKey w \<and> dr_registryRevision r = rw_registryRevision w \<and>
     same_blob_reference (dr_registryRef r) (rw_registryRef w) \<and> dr_workLeaseId r = rw_workLeaseId w \<and>
     dr_attemptId r = at_attemptId a \<and> Some (dr_attemptIntentLedgerRevision r) = at_dispatchIntentLedgerRevision a \<and>
     present (same_blob_reference (dr_attemptIntentRef r)) (at_dispatchIntentRef a) \<and>
     dr_inputHash r = at_inputHash a \<and> has_current_fencing_token (dr_fence r) (at_fence a)"

definition is_attempt_dispatch_allowed :: "dates \<Rightarrow> ledger \<Rightarrow> string \<Rightarrow> durability_receipt \<Rightarrow> rat \<Rightarrow> bool" where
  "is_attempt_dispatch_allowed dates l i r now =
     (is_current_ledger dates l \<and>
      present (\<lambda>a.
        present (\<lambda>u.
          (case (find (\<lambda>s. ss_sourceSnapshotId s = ul_sourceSnapshotId u) (lg_sourceSnapshots l),
                 find (\<lambda>w. rw_recordWorkKey w = ul_recordWorkKey u) (lg_recordWork l)) of
             (Some s, Some w) \<Rightarrow>
               0 < lg_revision l \<and> can_dispatch_task (tk_state (lg_task l)) (tk_repairState (lg_task l)) \<and>
               at_state a = ADispatchIntentPersisted \<and> tk_taskId (lg_task l) \<in> set (at_activeTaskIds a) \<and> ul_state u = URunning \<and>
               present (\<lambda>c. is_candidate_selected_for_execution (lg_candidateSnapshot l) c \<and> cd_evidence c \<noteq> []) (find_candidate l s) \<and>
               is_complete_source_snapshot s \<and> is_materialization_accepted l (Some s) \<and>
               has_complete_execution_source_boundary l (find_enumeration l s) \<and>
               tk_taskId (lg_task l) \<in> set (rw_activeTaskIds w) \<and> after (date_parse dates (rw_leaseExpiresAt w)) now \<and>
               has_current_fencing_token (current_fence w) (at_fence a) \<and>
               \<not> has_blocking_unknown_outcome dates l now \<and> \<not> has_expired_unknown_outcome dates l now \<and>
               receipt_binds dates r l a s w
           | _ \<Rightarrow> False)) (find (\<lambda>u. ul_unitId u = at_unitId a) (lg_units l)))
        (find (\<lambda>a. at_attemptId a = i) (lg_attempts l)))"

section \<open>Cancellation\<close>

definition is_cancellation_attempt_settled :: "dates \<Rightarrow> attempt \<Rightarrow> rat \<Rightarrow> bool" where
  "is_cancellation_attempt_settled dates a now \<longleftrightarrow>
     at_state a = AKnownFailure \<or> at_state a = ADiscarded \<or>
     at_state a = AUnknownOutcome \<and> present (\<lambda>t. present (\<lambda>x. x \<le> now) (date_parse dates t)) (truthy_value (at_unknownOutcomeUntil a))"

definition is_cancellation_commit_invisible :: "commit \<Rightarrow> bool" where
  "is_cancellation_commit_invisible c =
     (if cm_state c = CCompensated then cm_cleanupPhase c = KVerified \<and> cleanup_proves_commit_invisible c
      else cm_state c \<in> set [CNotStarted, CResultReady, CBodyStaged, CAbandoned] \<and> cm_cleanupPhase c = KNotRequired)"

definition commit_safe_for_cancellation :: "ledger \<Rightarrow> commit \<Rightarrow> bool" where
  "commit_safe_for_cancellation l c =
     present (\<lambda>w. case cm_ownership c of
         TaskExclusive t \<Rightarrow> t = tk_taskId (lg_task l) \<and> rw_activeTaskIds w = [] \<and> is_cancellation_commit_invisible c
       | SharedOwners ts \<Rightarrow> cm_state c \<noteq> CCompensated \<and> cm_state c \<noteq> CCleanupPending \<and>
           list_ex (\<lambda>t. t \<noteq> tk_taskId (lg_task l) \<and> t \<in> set ts) (rw_activeTaskIds w)) (work_of l (cm_recordWorkKey c))"

record cancellation_evidence =
  ev_ledger :: ledger
  ev_taskSpoolVisible :: bool
  ev_nowMs :: rat

definition is_cancellation_cleanup_complete :: "dates \<Rightarrow> cancellation_evidence \<Rightarrow> bool" where
  "is_cancellation_cleanup_complete dates e =
     (let l = ev_ledger e; task = lg_task l
      in is_current_ledger dates l \<and> tk_state task = TCancelling \<and> tk_repairState task = RepNone \<and> \<not> ev_taskSpoolVisible e \<and>
         list_all (\<lambda>u. is_cancellation_unit_settled (ul_state u)) (lg_units l) \<and>
         list_all (\<lambda>u. if ul_state u \<noteq> USucceeded then True
           else present (\<lambda>i. present (commit_safe_for_cancellation l) (commit_of l i)) (ul_commitId u)) (lg_units l) \<and>
         list_all (\<lambda>a. tk_taskId task \<notin> set (at_activeTaskIds a) \<and>
           (at_activeTaskIds a \<noteq> [] \<or> is_cancellation_attempt_settled dates a (ev_nowMs e))) (lg_attempts l) \<and>
         list_all (\<lambda>w. tk_taskId task \<notin> set (rw_activeTaskIds w)) (lg_recordWork l) \<and>
         list_all (\<lambda>c. cm_taskId c = tk_taskId task \<and> commit_safe_for_cancellation l c) (lg_commits l))"

definition can_transition_task :: "dates \<Rightarrow> task_state \<Rightarrow> task_state \<Rightarrow> cancellation_evidence option \<Rightarrow> bool" where
  "can_transition_task dates a b e \<longleftrightarrow>
     can_transition task_transitions a b \<and>
     (a \<noteq> TCancelling \<or> b \<noteq> TCancelled \<or> present (is_cancellation_cleanup_complete dates) e)"

definition assert_task_transition :: "dates \<Rightarrow> task_state \<Rightarrow> task_state \<Rightarrow> cancellation_evidence option \<Rightarrow> ledger_error + unit" where
  "assert_task_transition dates a b e = assert_transition ''Task'' (can_transition_task dates a b e)"

section \<open>Reading a stored ledger\<close>

definition has_usable_dispatch_leases :: "dates \<Rightarrow> ledger \<Rightarrow> rat \<Rightarrow> bool" where
  "has_usable_dispatch_leases dates l now =
     list_all (\<lambda>k. present (\<lambda>w. rw_schedulerEpoch w = tk_schedulerEpoch (lg_task l) \<and> tk_taskId (lg_task l) \<in> set (rw_activeTaskIds w) \<and>
         after (date_parse dates (rw_leaseExpiresAt w)) now) (find (\<lambda>w. rw_recordWorkKey w = k) (lg_recordWork l)))
       (map ul_recordWorkKey (filter (\<lambda>u. ul_state u \<in> set [UQueued, UWaitingRetry, URunning]) (lg_units l)))"

datatype read_rejection = RjInvalid | RjUnsupportedSchema | RjFutureSchema | RjFutureLegacyVersion

text \<open>
  What is read: a value whose \<open>schemaVersion\<close> is a number and that has the shape of a ledger or not, a value
  with the \<open>version\<close> of a legacy ledger (and its shape or not), or anything else.
\<close>

datatype stored_value =
  StoredLedger ledger
| OtherSchema rat
| StoredLegacy rat bool
| OtherValue

record ledger_rights =
  lr_canDispatch :: bool
  lr_canRecoverDispatch :: bool
  lr_canReportSuccess :: bool

datatype read_result =
  ReadCurrent ledger | ReadLegacy rat | ReadRepairRequired | ReadRejected read_rejection

definition no_rights :: ledger_rights where
  "no_rights = \<lparr> lr_canDispatch = False, lr_canRecoverDispatch = False, lr_canReportSuccess = False \<rparr>"

definition ledger_rights_of :: "dates \<Rightarrow> ledger \<Rightarrow> rat \<Rightarrow> ledger_rights" where
  "ledger_rights_of dates l now =
     (let d = can_dispatch_task (tk_state (lg_task l)) (tk_repairState (lg_task l)) \<and> \<not> has_blocking_unknown_outcome dates l now \<and>
              \<not> has_expired_unknown_outcome dates l now \<and> has_usable_dispatch_leases dates l now
      in \<lparr> lr_canDispatch = d, lr_canRecoverDispatch = d, lr_canReportSuccess = can_report_ledger_success dates l \<rparr>)"

definition read_schema :: "rat \<Rightarrow> read_result option" where
  "read_schema v =
     (if RECORD_SCHEDULER_SCHEMA_VERSION < v then Some (ReadRejected RjFutureSchema)
      else if v \<noteq> RECORD_SCHEDULER_SCHEMA_VERSION then Some (ReadRejected RjUnsupportedSchema) else None)"

definition read_record_scheduler_ledger :: "dates \<Rightarrow> stored_value \<Rightarrow> rat \<Rightarrow> read_result \<times> ledger_rights" where
  "read_record_scheduler_ledger dates v now =
     (case v of
        StoredLedger l \<Rightarrow>
          (case read_schema (lg_schemaVersion l) of Some r \<Rightarrow> (r, no_rights)
           | None \<Rightarrow> if \<not> is_current_ledger dates l then (ReadRepairRequired, no_rights)
                     else (ReadCurrent l, ledger_rights_of dates l now))
      | OtherSchema s \<Rightarrow> (case read_schema s of Some r \<Rightarrow> (r, no_rights) | None \<Rightarrow> (ReadRepairRequired, no_rights))
      | StoredLegacy version shaped \<Rightarrow>
          if 2 < version then (ReadRejected RjFutureLegacyVersion, no_rights)
          else if (version = 1 \<or> version = 2) \<and> shaped then (ReadLegacy version, no_rights)
          else (ReadRejected RjInvalid, no_rights)
      | OtherValue \<Rightarrow> (ReadRejected RjInvalid, no_rights))"

end
