(* ===== verification/LedgerFacts.thy ===== *)
theory LedgerFacts
  imports LedgerRules
begin

text \<open>Facts about ledgers: lookups by identifier, what the graph check says of one attempt or one commit.\<close>

lemma is_unique_distinct [simp]: "is_unique xs \<longleftrightarrow> distinct xs"
proof -
  have "length (unique_list xs) = card (set xs)" by (metis distinct_card distinct_unique_list set_unique_list)
  then show ?thesis by (metis card_distinct distinct_card is_unique_def)
qed

lemma index_by_Some: "index_by f xs k = Some x \<Longrightarrow> x \<in> set xs \<and> f x = k"
  unfolding index_by_def by (auto dest!: map_of_SomeD)

lemma index_by_unique:
  assumes "distinct (map f xs)" "x \<in> set xs"
  shows "index_by f xs (f x) = Some x"
proof -
  have "map fst (rev (map (\<lambda>x. (f x, x)) xs)) = rev (map f xs)" by (simp add: rev_map comp_def)
  then have "distinct (map fst (rev (map (\<lambda>x. (f x, x)) xs)))" using assms(1) by (simp only: distinct_rev)
  then show ?thesis unfolding index_by_def by (rule map_of_is_SomeI) (use assms(2) in auto)
qed

lemma find_Some_mem: "find P xs = Some x \<Longrightarrow> x \<in> set xs \<and> P x"
  by (auto simp: find_Some_iff)

lemma unique_by_key: "distinct (map f xs) \<Longrightarrow> x \<in> set xs \<Longrightarrow> y \<in> set xs \<Longrightarrow> f x = f y \<Longrightarrow> x = y"
  by (meson distinct_map inj_onD)

lemma current_graph: "is_current_ledger d l \<Longrightarrow> is_ledger_graph_consistent d l"
  by (simp add: is_current_ledger_def)

lemma graph_ids: "is_ledger_graph_consistent d l \<Longrightarrow> graph_ids_ok l"
  by (simp add: is_ledger_graph_consistent_def)

lemma graph_attempt: "is_ledger_graph_consistent d l \<Longrightarrow> a \<in> set (lg_attempts l) \<Longrightarrow> attempt_graph_ok l a"
  by (simp add: is_ledger_graph_consistent_def list_all_iff)

lemma graph_commit: "is_ledger_graph_consistent d l \<Longrightarrow> c \<in> set (lg_commits l) \<Longrightarrow> commit_graph_ok d l c"
  by (simp add: is_ledger_graph_consistent_def list_all_iff)

lemma graph_unit_attempts: "is_ledger_graph_consistent d l \<Longrightarrow> u \<in> set (lg_units l) \<Longrightarrow> unit_attempts_ok d l u"
  by (simp add: is_ledger_graph_consistent_def list_all_iff)

lemma graph_tokens_distinct:
  "is_ledger_graph_consistent d l \<Longrightarrow> distinct (map (\<lambda>a. (at_unitId a, ft_fencingToken (at_fence a))) (lg_attempts l))"
  by (simp add: is_ledger_graph_consistent_def)

section \<open>One live attempt\<close>

lemma two_members_length: "x \<in> set xs \<Longrightarrow> y \<in> set xs \<Longrightarrow> x \<noteq> y \<Longrightarrow> 2 \<le> length xs"
  by (cases xs; cases "tl xs") auto

lemma one_live_attempt:
  assumes "is_ledger_graph_consistent d l" "a \<in> set (lg_attempts l)" "b \<in> set (lg_attempts l)" "at_unitId b = at_unitId a"
    and "at_state a \<noteq> AKnownFailure" "at_state a \<noteq> ADiscarded" "at_state b \<noteq> AKnownFailure" "at_state b \<noteq> ADiscarded"
  shows "b = a"
proof (rule ccontr)
  assume "b \<noteq> a"
  obtain u where u: "unit_of l (at_unitId a) = Some u"
    using graph_attempt [OF assms(1,2)] by (auto simp: attempt_graph_ok_def split: option.splits)
  then have "u \<in> set (lg_units l)" "ul_unitId u = at_unitId a" by (auto dest: index_by_Some)
  with graph_unit_attempts [OF assms(1)] have "length (live_attempts l (at_unitId a)) \<le> 1"
    by (force simp: unit_attempts_ok_def Let_def)
  moreover have "a \<in> set (live_attempts l (at_unitId a))" "b \<in> set (live_attempts l (at_unitId a))"
    using assms by (auto simp: live_attempts_def)
  ultimately show False using two_members_length \<open>b \<noteq> a\<close> by fastforce
qed

lemma attempt_work:
  assumes "is_ledger_graph_consistent d l" "a \<in> set (lg_attempts l)"
  obtains u w where "unit_of l (at_unitId a) = Some u" "work_of l (at_recordWorkKey a) = Some w"
    "ul_recordWorkKey u = rw_recordWorkKey w" "ft_fencingToken (at_fence a) \<le> rw_currentFencingToken w"
  using graph_attempt [OF assms] by (auto simp: attempt_graph_ok_def split: option.splits)

text \<open>All attempts of a unit belong to one work.\<close>

lemma same_unit_same_work:
  assumes "is_ledger_graph_consistent d l" "a \<in> set (lg_attempts l)" "b \<in> set (lg_attempts l)" "at_unitId b = at_unitId a"
  shows "at_recordWorkKey b = at_recordWorkKey a"
proof -
  obtain u w where a: "unit_of l (at_unitId a) = Some u" "work_of l (at_recordWorkKey a) = Some w" "ul_recordWorkKey u = rw_recordWorkKey w"
    by (rule attempt_work [OF assms(1,2)])
  obtain u' w' where b: "unit_of l (at_unitId b) = Some u'" "work_of l (at_recordWorkKey b) = Some w'" "ul_recordWorkKey u' = rw_recordWorkKey w'"
    by (rule attempt_work [OF assms(1,3)])
  show ?thesis using a b assms(4) by (auto dest!: index_by_Some)
qed

section \<open>Dispatch\<close>

lemma dispatch_parts:
  assumes "is_attempt_dispatch_allowed d l i r now"
  obtains a u s w where "is_current_ledger d l" "a \<in> set (lg_attempts l)" "at_attemptId a = i" "u \<in> set (lg_units l)" "ul_unitId u = at_unitId a"
    "s \<in> set (lg_sourceSnapshots l)" "ss_sourceSnapshotId s = ul_sourceSnapshotId u" "w \<in> set (lg_recordWork l)" "rw_recordWorkKey w = ul_recordWorkKey u"
    "at_state a = ADispatchIntentPersisted" "ul_state u = URunning" "has_current_fencing_token (current_fence w) (at_fence a)"
    "after (date_parse d (rw_leaseExpiresAt w)) now" "can_dispatch_task (tk_state (lg_task l)) (tk_repairState (lg_task l))"
    "receipt_binds d r l a s w" "is_complete_source_snapshot s"
proof -
  obtain a u where l: "is_current_ledger d l" and a: "find (\<lambda>a. at_attemptId a = i) (lg_attempts l) = Some a"
    and u: "find (\<lambda>u. ul_unitId u = at_unitId a) (lg_units l) = Some u"
    and rest: "case (find (\<lambda>s. ss_sourceSnapshotId s = ul_sourceSnapshotId u) (lg_sourceSnapshots l),
                 find (\<lambda>w. rw_recordWorkKey w = ul_recordWorkKey u) (lg_recordWork l)) of
             (Some s, Some w) \<Rightarrow>
               0 < lg_revision l \<and> can_dispatch_task (tk_state (lg_task l)) (tk_repairState (lg_task l)) \<and>
               at_state a = ADispatchIntentPersisted \<and> tk_taskId (lg_task l) \<in> set (at_activeTaskIds a) \<and> ul_state u = URunning \<and>
               present (\<lambda>c. is_candidate_selected_for_execution (lg_candidateSnapshot l) c \<and> cd_evidence c \<noteq> []) (find_candidate l s) \<and>
               is_complete_source_snapshot s \<and> is_materialization_accepted l (Some s) \<and>
               has_complete_execution_source_boundary l (find_enumeration l s) \<and>
               tk_taskId (lg_task l) \<in> set (rw_activeTaskIds w) \<and> after (date_parse d (rw_leaseExpiresAt w)) now \<and>
               has_current_fencing_token (current_fence w) (at_fence a) \<and>
               \<not> has_blocking_unknown_outcome d l now \<and> \<not> has_expired_unknown_outcome d l now \<and>
               receipt_binds d r l a s w
           | _ \<Rightarrow> False"
    using assms unfolding is_attempt_dispatch_allowed_def present_iff by blast
  from rest obtain s w where s: "find (\<lambda>s. ss_sourceSnapshotId s = ul_sourceSnapshotId u) (lg_sourceSnapshots l) = Some s"
    and w: "find (\<lambda>w. rw_recordWorkKey w = ul_recordWorkKey u) (lg_recordWork l) = Some w"
    by (auto split: option.splits)
  note found = find_Some_mem [OF a] find_Some_mem [OF u] find_Some_mem [OF s] find_Some_mem [OF w]
  show thesis by (rule that [of a u s w]) (use l found rest s w in simp_all)
qed

end
