(* ===== verification/LedgerDemo.thy ===== *)
theory LedgerDemo
  imports LedgerFacts
begin

text \<open>
  Three concrete ledgers of one task with one source, one unit and one attempt: about to dispatch, succeeded,
  and cancelling with everything settled. The witnesses of the properties run the checks on them.
\<close>

definition no_dates :: dates where
  "no_dates = (\<lambda>_. None)"

definition demo_time :: string where
  "demo_time = ''2025-11-19T00:00:00.000Z''"

definition demo_ms :: rat where
  "demo_ms = 1763510400000"

definition sample_hash :: string where
  "sample_hash = replicate 64 (CHR ''a'')"

definition demo_blob :: "string \<Rightarrow> blob_ref" where
  "demo_blob h = \<lparr> bl_path = ''blob'', bl_hash = h, bl_byteLength = 3 \<rparr>"

definition demo_candidates :: candidate_snapshot where
  "demo_candidates =
     \<lparr> cs_schemaVersion = 5, cs_snapshotId = ''snap'', cs_snapshotRevision = 1, cs_snapshotHash = ''h1'', cs_snapshotRef = demo_blob ''h1'',
       cs_createdAt = demo_time, cs_requestMode = RmNormal, cs_selectionLimit = None,
       cs_enumerations = [\<lparr> en_chain = SCodex, en_complete = True, en_paginationExhausted = True, en_truncated = False,
         en_watermark = None, en_error = None \<rparr>],
       cs_candidates = [\<lparr> cd_conversationId = ''conv'', cd_chain = SCodex, cd_workspaceHash = ''ws'', cd_state = Missing,
         cd_evidence = [''scan''], cd_evidenceHash = ''e'', cd_recordIndexRevision = None \<rparr>],
       cs_recordIndexRevision = None \<rparr>"

definition demo_source :: source_snapshot where
  "demo_source =
     \<lparr> ss_schemaVersion = 5, ss_sourceSnapshotId = ''src'', ss_snapshotRevision = 1, ss_snapshotHash = ''h2'', ss_snapshotRef = demo_blob ''h2'',
       ss_conversationId = ''conv'', ss_chain = SCodex, ss_workspaceHash = ''ws'', ss_sourceRevision = ''r1'', ss_desiredRevision = ''r1'',
       ss_sourceRevisionSequence = None, ss_eventWatermark = None, ss_contentHash = ''c'', ss_contentRef = demo_blob ''c'',
       ss_formatterVersion = ''f'', ss_readRange = \<lparr> rr_startRound = 0, rr_endRound = 4, rr_totalRounds = 4 \<rparr>, ss_complete = True,
       ss_gaps = [], ss_parseWarnings = [] \<rparr>"

definition demo_fence :: fencing_token where
  "demo_fence = \<lparr> ft_schedulerEpoch = 1, ft_recordCommitEpoch = 1, ft_fencingToken = 7, ft_workLeaseId = ''lease'' \<rparr>"

definition demo_work :: "string list \<Rightarrow> record_work" where
  "demo_work tasks =
     \<lparr> rw_recordWorkKey = ''work'', rw_conversationId = ''conv'', rw_chain = SCodex, rw_workspaceHash = ''ws'', rw_desiredRevision = ''r1'',
       rw_recordCommitEpoch = 1, rw_registryRevision = 2, rw_registryRef = demo_blob ''reg'', rw_schedulerEpoch = 1, rw_workLeaseId = ''lease'',
       rw_leaseOwnerId = ''owner'', rw_leaseExpiresAt = ''2025-11-19T01:00:00.000Z'', rw_activeTaskIds = tasks, rw_currentFencingToken = 7 \<rparr>"

definition demo_anchor :: ledger_anchor where
  "demo_anchor = \<lparr> la_path = ''ledger'', la_revision = 1, la_hash = sample_hash \<rparr>"

definition demo_task :: "task_state \<Rightarrow> rat \<Rightarrow> rat \<Rightarrow> rat \<Rightarrow> task_ledger" where
  "demo_task s succeeded running settled =
     \<lparr> tk_taskId = ''task'', tk_schedulerEpoch = 1, tk_state = s, tk_requestMode = TmUpdate, tk_candidateSnapshotId = ''snap'',
       tk_candidateSnapshotRevision = 1, tk_admissionIdentity = \<lparr> ai_requestKey = ''key'', ai_requestHash = sample_hash \<rparr>,
       tk_admission = EnvelopeBound demo_anchor (demo_blob sample_hash) demo_time, tk_createdAt = demo_time, tk_updatedAt = demo_time,
       tk_cancelRequestedAt = None, tk_terminalState = (if is_terminal_task_state s then Some s else None), tk_repairState = RepNone,
       tk_sourceResolution = None, tk_recordItems = \<lparr> rc_total = 1, rc_succeeded = succeeded, rc_failed = 0, rc_unresolved = 0 \<rparr>,
       tk_units = \<lparr> uc_materialized = 1, uc_eligible = 0, uc_running = running, uc_done = settled, uc_failed = 0 \<rparr>,
       tk_aheadTaskCount = 0 \<rparr>"

definition sample_unit :: "ledger_unit_state \<Rightarrow> unit_ledger" where
  "sample_unit s =
     \<lparr> ul_unitId = ''unit'', ul_taskId = ''task'', ul_recordId = ''conv'', ul_state = s, ul_layer = ''compose'', ul_parentUnitId = None,
       ul_splitDepth = 0, ul_recordWorkKey = ''work'', ul_recordCommitEpoch = 1, ul_dependencies = [], ul_continuationKey = None,
       ul_composeOrder = 0, ul_sourceSnapshotId = ''src'', ul_inputHash = ''in'', ul_estimatedCost = 1, ul_routePlan = [RAuto],
       ul_attemptedProviders = [PCodex], ul_retryBudget = 1, ul_routeCursor = None, ul_unitAttempts = Some 1, ul_providerAttemptCounts = None,
       ul_promptRecipe = None, ul_childUnitIds = None, ul_composeProvenance = None, ul_nextEligibleAt = None, ul_enqueueTime = demo_time,
       ul_layerEnterTime = demo_time, ul_failureClass = None, ul_resultRef = None,
       ul_coveredRevision = (if s = USucceeded then Some ''r1'' else None), ul_commitId = (if s = USucceeded then Some ''commit'' else None) \<rparr>"

definition demo_attempt :: "attempt_state \<Rightarrow> string list \<Rightarrow> attempt" where
  "demo_attempt s tasks =
     \<lparr> at_attemptId = ''attempt'', at_unitId = ''unit'', at_recordWorkKey = ''work'', at_originTaskIds = [''task''], at_activeTaskIds = tasks,
       at_state = s, at_outcome = expected_outcome s, at_provider = PCodex, at_model = ''m'', at_retryOrdinal = None, at_trafficClass = None,
       at_dispatchIntentAt = Some demo_time, at_dispatchIntentLedgerRevision = Some 3, at_dispatchIntentRef = Some (demo_blob ''i''),
       at_startedAt = Some demo_time, at_leaseExpiresAt = Some demo_time, at_unknownOutcomeUntil = None, at_unknownOutcomeAt = None,
       at_unknownOutcomeGraceMs = None, at_providerEvidence = None, at_capacityGeneration = None, at_managedByProductionPump = None,
       at_providerAdmission = None, at_providerLeaseIdentity = None, at_dispatchPhase = None, at_claimId = None, at_permitId = None,
       at_dispatchSeq = None, at_inputHash = ''in'', at_idempotencyKey = None,
       at_outputRef = (if s = AKnownSuccess then Some (demo_blob ''out'') else None), at_errorClass = None, at_elapsedMs = None,
       at_fence = demo_fence \<rparr>"

definition demo_entry :: index_entry where
  "demo_entry =
     \<lparr> ie_revision = ''rev'', ie_entryHash = ''eh'', ie_commitId = ''commit'', ie_recordWorkKey = ''work'', ie_sourceSnapshotId = ''src'',
       ie_bodyHash = ''body'', ie_coveredRevision = ''r1'' \<rparr>"

definition demo_image :: before_image where
  "demo_image = \<lparr> bi_path = ''p'', bi_existed = False, bi_revision = None, bi_hash = None, bi_contentRef = None \<rparr>"

definition demo_commit :: "commit_state \<Rightarrow> commit_ownership \<Rightarrow> commit" where
  "demo_commit s owners =
     \<lparr> cm_schemaVersion = 5, cm_commitId = ''commit'', cm_taskId = ''task'', cm_unitId = ''unit'', cm_attemptId = ''attempt'',
       cm_recordWorkKey = ''work'', cm_sourceSnapshotId = ''src'', cm_inputHash = ''in'', cm_outputHash = ''out'', cm_accepted = True,
       cm_reason = None, cm_bodyRef = demo_blob ''body'', cm_bodyHash = ''body'', cm_mainIndexRevision = Some ''rev'',
       cm_readerIndexRevision = Some ''rev'', cm_mainIndexEntry = Some demo_entry, cm_readerIndexEntry = Some demo_entry, cm_ownership = owners,
       cm_beforeImage = Some \<lparr> bb_commitId = ''commit'', bb_capturedAt = demo_time, bb_body = demo_image, bb_mainIndexEntry = demo_image,
         bb_readerIndexEntry = demo_image, bb_fence = demo_fence \<rparr>,
       cm_coveredRevision = Some ''r1'', cm_observedSourceRevisionAtCommit = ''r1'', cm_pendingRefresh = None, cm_state = s,
       cm_cleanupPhase = KNotRequired, cm_verifiedAt = Some demo_time,
       cm_readBack = Some \<lparr> rb_verifiedAt = demo_time, rb_bodyHash = ''body'', rb_mainIndexRevision = ''rev'', rb_readerIndexRevision = ''rev'',
         rb_mainIndexEntry = demo_entry, rb_readerIndexEntry = demo_entry \<rparr>,
       cm_cleanupReadBack = None, cm_successConditions = map (\<lambda>k. (k, True)) RECORD_SUCCESS_CONDITION_KEYS, cm_fence = demo_fence \<rparr>"

definition demo_ledger :: "task_ledger \<Rightarrow> record_work \<Rightarrow> unit_ledger \<Rightarrow> attempt \<Rightarrow> commit list \<Rightarrow> ledger" where
  "demo_ledger t w u a cs =
     \<lparr> lg_schemaVersion = 5, lg_revision = 4, lg_persistedHash = ''lh'', lg_task = t, lg_candidateSnapshot = demo_candidates,
       lg_sourceSnapshots = [demo_source], lg_sourceMaterialization = None, lg_recordWork = [w], lg_units = [u], lg_attempts = [a],
       lg_commits = cs \<rparr>"

definition dispatching_ledger :: ledger where
  "dispatching_ledger =
     demo_ledger (demo_task TRunning 0 1 0) (demo_work [''task'']) (sample_unit URunning) (demo_attempt ADispatchIntentPersisted [''task'']) []"

definition succeeded_ledger :: ledger where
  "succeeded_ledger =
     demo_ledger (demo_task TSucceeded 1 0 1) (demo_work [''task'']) (sample_unit USucceeded) (demo_attempt AKnownSuccess [''task''])
       [demo_commit CVerified (TaskExclusive ''task'')]"

text \<open>Another task still owns the commit that this cancelled task has published.\<close>

definition cancelling_ledger :: ledger where
  "cancelling_ledger =
     demo_ledger (demo_task TCancelling 0 0 1) (demo_work [''other'']) (sample_unit USucceeded)
       ((demo_attempt AKnownSuccess [''other'']) \<lparr> at_originTaskIds := [''task'', ''other''] \<rparr>)
       [demo_commit CVerified (SharedOwners [''task'', ''other''])]"

definition demo_receipt :: durability_receipt where
  "demo_receipt =
     \<lparr> dr_verifier = ''record-scheduler-store'', dr_verifiedAt = demo_time, dr_ledgerRevision = 4, dr_ledgerHash = ''lh'',
       dr_admissionLedgerAnchor = demo_anchor, dr_admissionCapsuleRef = demo_blob sample_hash, dr_candidateSnapshotId = ''snap'',
       dr_candidateSnapshotRevision = 1, dr_candidateSnapshotRef = demo_blob ''h1'', dr_sourceSnapshotId = ''src'',
       dr_sourceSnapshotRevision = 1, dr_sourceSnapshotRef = demo_blob ''h2'', dr_recordWorkKey = ''work'', dr_registryRevision = 2,
       dr_registryRef = demo_blob ''reg'', dr_workLeaseId = ''lease'', dr_attemptId = ''attempt'', dr_attemptIntentLedgerRevision = 3,
       dr_attemptIntentRef = demo_blob ''i'', dr_inputHash = ''in'', dr_fence = demo_fence \<rparr>"

lemma dispatching_ok: "is_attempt_dispatch_allowed no_dates dispatching_ledger ''attempt'' demo_receipt demo_ms"
  by code_simp

lemma succeeded_ok: "can_report_ledger_success no_dates succeeded_ledger"
  by code_simp

lemma cancelling_ok:
  "is_cancellation_cleanup_complete no_dates \<lparr> ev_ledger = cancelling_ledger, ev_taskSpoolVisible = False, ev_nowMs = demo_ms \<rparr>"
  by code_simp

end
