(* ===== verification/LedgerProps.thy ===== *)
theory LedgerProps
  imports LedgerDemo
begin

text \<open>
  The properties of the ledger contract: what a lost source, a dispatch, a reported success and a completed
  cancellation presuppose, and where the transition tables lead.
\<close>

section \<open>Transitions\<close>

text \<open>Moves of a task, with whatever evidence is at hand.\<close>

inductive task_moves :: "dates \<Rightarrow> task_state \<Rightarrow> task_state \<Rightarrow> bool" for d where
  here: "task_moves d s s"
| step: "task_moves d a b \<Longrightarrow> can_transition_task d b c e \<Longrightarrow> task_moves d a c"

lemma blocked_step:
  assumes "blocks_new_dispatch a RepNone" "can_transition_task d a b e"
  shows "blocks_new_dispatch b RepNone \<and> (a \<in> set [TCancelRequested, TCancelling, TCancelled] \<longrightarrow> b \<in> set [TCancelRequested, TCancelling, TCancelled])"
  using assms
  by (cases a)
    (auto simp: blocks_new_dispatch_def is_terminal_task_state_def TERMINAL_TASK_STATES_def can_transition_task_def can_transition_def)

text \<open>
  A task that blocks new dispatches (cancel requested, cancelling or ended) does so for ever, whatever its
  repair state becomes, and a cancelled one never ends in success.
\<close>

theorem blocked_task_stays_blocked:
  assumes "task_moves d a b" "blocks_new_dispatch a RepNone"
  shows "\<not> can_dispatch_task b r \<and> (a = TCancelRequested \<or> a = TCancelling \<longrightarrow> b \<noteq> TSucceeded)"
proof -
  have "blocks_new_dispatch b RepNone \<and> (a \<in> set [TCancelRequested, TCancelling, TCancelled] \<longrightarrow> b \<in> set [TCancelRequested, TCancelling, TCancelled])"
    using assms by (induction rule: task_moves.induct) (auto dest: blocked_step)
  then show ?thesis
    by (auto simp: blocks_new_dispatch_def can_dispatch_task_def is_terminal_task_state_def TERMINAL_TASK_STATES_def)
qed

theorem blocked_task_stays_blocked_witness: "\<not> can_dispatch_task TCancelled RepNone \<and> TCancelled \<noteq> TSucceeded"
proof -
  have "task_moves no_dates TCancelRequested TCancelling"
    by (rule step [OF here, where e = None]) (simp add: can_transition_task_def can_transition_def)
  then have "task_moves no_dates TCancelRequested TCancelled"
    by (rule step [where e = "Some \<lparr> ev_ledger = cancelling_ledger, ev_taskSpoolVisible = False, ev_nowMs = demo_ms \<rparr>"])
      (use cancelling_ok in \<open>simp add: can_transition_task_def can_transition_def\<close>)
  then show ?thesis
    using blocked_task_stays_blocked [of no_dates TCancelRequested TCancelled RepNone] by (simp add: blocks_new_dispatch_def)
qed

fun commit_path :: "commit_state list \<Rightarrow> bool" where
  "commit_path (a # b # cs) \<longleftrightarrow> can_transition_commit a b \<and> commit_path (b # cs)"
| "commit_path _ \<longleftrightarrow> True"

lemma dead_path:
  assumes "commit_path (s # cs)" "s \<in> {CCleanupPending, CRepairRequired, CCompensated, CAbandoned}"
  shows "last (s # cs) \<in> {CCleanupPending, CRepairRequired, CCompensated, CAbandoned}"
  using assms
proof (induction cs arbitrary: s)
  case (Cons c cs)
  then have "c \<in> {CCleanupPending, CRepairRequired, CCompensated, CAbandoned}"
    by (auto simp: can_transition_commit_def can_transition_def)
  with Cons show ?case by simp
qed simp

lemma commit_path_next:
  assumes "commit_path (s # cs)" "last (s # cs) = CVerified" "s \<noteq> CVerified"
    and "\<And>c. can_transition_commit s c \<Longrightarrow> c = n \<or> c \<in> {CCleanupPending, CRepairRequired, CAbandoned}"
  obtains cs' where "cs = n # cs'" "commit_path (n # cs')" "last (n # cs') = CVerified"
proof -
  obtain c cs' where cs: "cs = c # cs'" using assms(2,3) by (cases cs) auto
  have c: "c = n \<or> c \<in> {CCleanupPending, CRepairRequired, CAbandoned}"
    using assms(1,4) by (simp add: cs)
  have path: "commit_path (c # cs')" "last (c # cs') = CVerified" using assms(1,2) by (auto simp: cs)
  have "c \<notin> {CCleanupPending, CRepairRequired, CAbandoned}" using dead_path [OF path(1)] path(2) by auto
  with c have "c = n" by simp
  with path cs show thesis by (intro that) auto
qed

text \<open>
  A commit that is verified has gone through every publishing step in order: staged, intended, body, main
  index, reader index, and nothing in between.
\<close>

theorem verified_commit_took_every_step:
  assumes "commit_path (CNotStarted # cs)" "last (CNotStarted # cs) = CVerified"
  shows "cs = [CResultReady, CBodyStaged, CPublishIntent, CBodyPublished, CMainIndexWritten, CReaderIndexWritten, CVerified]"
proof -
  obtain c1 where c1: "cs = CResultReady # c1" "commit_path (CResultReady # c1)" "last (CResultReady # c1) = CVerified"
    by (rule commit_path_next [OF assms]) (auto simp: can_transition_commit_def can_transition_def)
  obtain c2 where c2: "c1 = CBodyStaged # c2" "commit_path (CBodyStaged # c2)" "last (CBodyStaged # c2) = CVerified"
    by (rule commit_path_next [OF c1(2,3)]) (auto simp: can_transition_commit_def can_transition_def)
  obtain c3 where c3: "c2 = CPublishIntent # c3" "commit_path (CPublishIntent # c3)" "last (CPublishIntent # c3) = CVerified"
    by (rule commit_path_next [OF c2(2,3)]) (auto simp: can_transition_commit_def can_transition_def)
  obtain c4 where c4: "c3 = CBodyPublished # c4" "commit_path (CBodyPublished # c4)" "last (CBodyPublished # c4) = CVerified"
    by (rule commit_path_next [OF c3(2,3)]) (auto simp: can_transition_commit_def can_transition_def)
  obtain c5 where c5: "c4 = CMainIndexWritten # c5" "commit_path (CMainIndexWritten # c5)" "last (CMainIndexWritten # c5) = CVerified"
    by (rule commit_path_next [OF c4(2,3)]) (auto simp: can_transition_commit_def can_transition_def)
  obtain c6 where c6: "c5 = CReaderIndexWritten # c6" "commit_path (CReaderIndexWritten # c6)" "last (CReaderIndexWritten # c6) = CVerified"
    by (rule commit_path_next [OF c5(2,3)]) (auto simp: can_transition_commit_def can_transition_def)
  obtain c7 where c7: "c6 = CVerified # c7" "commit_path (CVerified # c7)" "last (CVerified # c7) = CVerified"
    by (rule commit_path_next [OF c6(2,3)]) (auto simp: can_transition_commit_def can_transition_def)
  have "c7 = []"
  proof (cases c7)
    case (Cons x xs)
    then have "x = CCleanupPending" using c7(2) by (simp add: can_transition_commit_def can_transition_def)
    then show ?thesis using dead_path [of x xs] c7(2,3) Cons by simp
  qed
  with c1(1) c2(1) c3(1) c4(1) c5(1) c6(1) c7(1) show ?thesis by simp
qed

theorem verified_commit_took_every_step_witness:
  "tl [CNotStarted, CResultReady, CBodyStaged, CPublishIntent, CBodyPublished, CMainIndexWritten, CReaderIndexWritten, CVerified]
     = [CResultReady, CBodyStaged, CPublishIntent, CBodyPublished, CMainIndexWritten, CReaderIndexWritten, CVerified]"
  unfolding list.sel by (rule verified_commit_took_every_step) (simp_all add: can_transition_commit_def can_transition_def)

fun commit_rank :: "commit_state \<Rightarrow> nat" where
  "commit_rank CNotStarted = 9"
| "commit_rank CResultReady = 8"
| "commit_rank CBodyStaged = 7"
| "commit_rank CPublishIntent = 6"
| "commit_rank CBodyPublished = 5"
| "commit_rank CMainIndexWritten = 4"
| "commit_rank CReaderIndexWritten = 3"
| "commit_rank CVerified = 2"
| "commit_rank CCleanupPending = 1"
| "commit_rank _ = 0"

lemma commit_rank_falls: "can_transition_commit a b \<Longrightarrow> commit_rank b < commit_rank a"
  by (cases a) (auto simp: can_transition_commit_def can_transition_def)

lemma commit_path_length: "commit_path (s # cs) \<Longrightarrow> length cs \<le> commit_rank s"
proof (induction cs arbitrary: s)
  case (Cons c cs)
  then have "length cs \<le> commit_rank c" "commit_rank c < commit_rank s" by (simp_all add: commit_rank_falls)
  then show ?case by simp
qed simp

text \<open>
  C23: Every run of commit transitions ends: after at most nine moves no transition is left, and a run stops only
  in a state that is compensated, abandoned or needs repair.
\<close>

theorem commit_machine_ends:
  "(commit_path (s # cs) \<longrightarrow> length cs \<le> 9) \<and>
   ((\<forall>c. \<not> can_transition_commit s c) = (s = CCompensated \<or> s = CAbandoned \<or> s = CRepairRequired))"
proof
  have "commit_rank s \<le> 9" by (cases s) simp_all
  then show "commit_path (s # cs) \<longrightarrow> length cs \<le> 9" using commit_path_length by fastforce
  show "(\<forall>c. \<not> can_transition_commit s c) = (s = CCompensated \<or> s = CAbandoned \<or> s = CRepairRequired)"
    by (cases s) (auto simp: can_transition_commit_def can_transition_def)
qed

theorem commit_machine_ends_witness: "length [CResultReady, CBodyStaged, CCleanupPending, CCompensated] \<le> 9"
  using commit_machine_ends [of CNotStarted "[CResultReady, CBodyStaged, CCleanupPending, CCompensated]"]
  by (simp add: can_transition_commit_def can_transition_def)

section \<open>Lost sources\<close>

text \<open>
  A source is declared lost only on evidence for that very source: a valid tombstone, or two complete
  exact scans that did not find it, by different scans at least an hour apart.
\<close>

theorem lost_needs_evidence:
  assumes "can_transition_candidate d a Lost x" "a \<noteq> Lost"
  shows "\<exists>t. cc_target x = Some t \<and>
    ((\<exists>b. cc_tombstone x = Some b \<and> matches_target t (tb_chain b) (tb_workspaceHash b) (tb_conversationId b) \<and>
        tb_exactLookupSucceeded b \<and> date_parse d (tb_observedAt b) \<noteq> None) \<or>
     (\<exists>p q i j. p \<in> set (cc_observations x) \<and> q \<in> set (cc_observations x) \<and> proves_absence t p \<and> proves_absence t q \<and>
        lo_scanId p \<noteq> lo_scanId q \<and> date_parse d (lo_completedAt p) = Some i \<and> date_parse d (lo_completedAt q) = Some j \<and>
        i + 60 * 60 * 1000 \<le> j))"
proof -
  have e: "is_lost_evidence_sufficient d x" using assms by (simp add: can_transition_candidate_def)
  then obtain t where t: "cc_target x = Some t" by (auto simp: is_lost_evidence_sufficient_def split: option.splits)
  let ?tomb = "case cc_tombstone x of None \<Rightarrow> False | Some b \<Rightarrow> matches_target t (tb_chain b) (tb_workspaceHash b) (tb_conversationId b) \<and>
                  tb_exactLookupSucceeded b \<and> date_parse d (tb_observedAt b) \<noteq> None"
  show ?thesis
  proof (cases ?tomb)
    case True
    with t show ?thesis by (auto split: option.splits)
  next
    case False
    let ?s = "sort_by (\<lambda>a b. compare_dates (date_parse d (lo_completedAt a)) (date_parse d (lo_completedAt b)))
                               (filter (proves_absence t) (cc_observations x))"
    have s: "2 \<le> length ?s" "lo_scanId (hd ?s) \<noteq> lo_scanId (last ?s)"
      "case (date_parse d (lo_completedAt (hd ?s)), date_parse d (lo_completedAt (last ?s))) of
                        (Some a, Some b) \<Rightarrow> LOST_SECOND_CHECK_INTERVAL_MS \<le> b - a | _ \<Rightarrow> False"
      using e False unfolding is_lost_evidence_sufficient_def t Let_def by (auto split: if_splits)
    then have ne: "?s \<noteq> []" by auto
    have "hd ?s \<in> set ?s" "last ?s \<in> set ?s" using ne by (auto simp del: set_sort_by sort_by_eq_Nil)
    then have mem: "hd ?s \<in> set (filter (proves_absence t) (cc_observations x))" "last ?s \<in> set (filter (proves_absence t) (cc_observations x))"
      by (simp_all only: set_sort_by)
    obtain i j where "date_parse d (lo_completedAt (hd ?s)) = Some i" "date_parse d (lo_completedAt (last ?s)) = Some j"
      "LOST_SECOND_CHECK_INTERVAL_MS \<le> j - i" using s(3) by (auto split: option.splits)
    moreover from this(3) have "i + 60 * 60 * 1000 \<le> j" by (simp add: LOST_SECOND_CHECK_INTERVAL_MS_def)
    ultimately show ?thesis using t mem s(2) by (simp only: set_filter mem_Collect_eq) blast
  qed
qed

definition demo_context :: candidate_context where
  "demo_context =
     \<lparr> cc_target = Some \<lparr> lt_chain = SCodex, lt_workspaceHash = ''ws'', lt_conversationId = ''conv'' \<rparr>, cc_tombstone = None,
       cc_observations = map (\<lambda>(i, t). \<lparr> lo_scanId = i, lo_chain = SCodex, lo_workspaceHash = ''ws'', lo_conversationId = ''conv'',
         lo_completedAt = t, lo_complete = True, lo_exactLookupSucceeded = True, lo_found = False \<rparr>)
         [(''b'', ''2025-11-19T01:00:00.000Z''), (''a'', demo_time)] \<rparr>"

theorem lost_needs_evidence_witness: "cc_target demo_context \<noteq> None"
proof -
  have "can_transition_candidate no_dates Stale Lost demo_context" by code_simp
  then show ?thesis using lost_needs_evidence [of no_dates Stale demo_context] by fastforce
qed

section \<open>Dispatch\<close>

text \<open>
  C20: An attempt that may be dispatched is the only live attempt of its unit, carries the fence of the
  registry, whose lease has not expired, and has a strictly higher token than every other attempt of the unit.
\<close>

theorem dispatched_attempt_is_the_only_live_one:
  assumes "is_attempt_dispatch_allowed d l i r now"
  shows "\<exists>a w. a \<in> set (lg_attempts l) \<and> at_attemptId a = i \<and> w \<in> set (lg_recordWork l) \<and>
    has_current_fencing_token (current_fence w) (at_fence a) \<and> after (date_parse d (rw_leaseExpiresAt w)) now \<and>
    list_all (\<lambda>b. at_unitId b \<noteq> at_unitId a \<or> b = a \<or>
      (at_state b = AKnownFailure \<or> at_state b = ADiscarded) \<and> ft_fencingToken (at_fence b) < ft_fencingToken (at_fence a)) (lg_attempts l)"
proof -
  obtain a u s w where l: "is_current_ledger d l" and a: "a \<in> set (lg_attempts l)" "at_attemptId a = i"
    and u: "u \<in> set (lg_units l)" "ul_unitId u = at_unitId a" and "s \<in> set (lg_sourceSnapshots l)" "ss_sourceSnapshotId s = ul_sourceSnapshotId u"
    and w: "w \<in> set (lg_recordWork l)" "rw_recordWorkKey w = ul_recordWorkKey u"
    and st: "at_state a = ADispatchIntentPersisted" and "ul_state u = URunning"
    and f: "has_current_fencing_token (current_fence w) (at_fence a)" "after (date_parse d (rw_leaseExpiresAt w)) now"
    and "can_dispatch_task (tk_state (lg_task l)) (tk_repairState (lg_task l))" "receipt_binds d r l a s w" "is_complete_source_snapshot s"
    by (rule dispatch_parts [OF assms])
  note g = current_graph [OF l]
  have ids: "distinct (map rw_recordWorkKey (lg_recordWork l))" "distinct (map ul_unitId (lg_units l))"
    using graph_ids [OF g] by (simp_all add: graph_ids_ok_def)
  have "at_unitId b \<noteq> at_unitId a \<or> b = a \<or>
      (at_state b = AKnownFailure \<or> at_state b = ADiscarded) \<and> ft_fencingToken (at_fence b) < ft_fencingToken (at_fence a)"
    if b: "b \<in> set (lg_attempts l)" for b
  proof (cases "at_unitId b = at_unitId a \<and> b \<noteq> a")
    case True
    have "at_state b = AKnownFailure \<or> at_state b = ADiscarded"
      using one_live_attempt [OF g a(1) b] True st by auto
    moreover have "ft_fencingToken (at_fence b) < ft_fencingToken (at_fence a)"
    proof -
      obtain u' w' where b': "unit_of l (at_unitId b) = Some u'" "work_of l (at_recordWorkKey b) = Some w'"
        "ul_recordWorkKey u' = rw_recordWorkKey w'" "ft_fencingToken (at_fence b) \<le> rw_currentFencingToken w'"
        by (rule attempt_work [OF g b])
      have "u' = u" using b'(1) u True unique_by_key [OF ids(2)] by (auto dest!: index_by_Some)
      then have "w' = w" using b'(2,3) w unique_by_key [OF ids(1)] by (auto dest!: index_by_Some)
      then have "ft_fencingToken (at_fence b) \<le> ft_fencingToken (at_fence a)"
        using b'(4) f(1) by (simp add: has_current_fencing_token_def current_fence_def)
      moreover have "ft_fencingToken (at_fence b) \<noteq> ft_fencingToken (at_fence a)"
        using unique_by_key [OF graph_tokens_distinct [OF g] b a(1)] True by auto
      ultimately show ?thesis by simp
    qed
    ultimately show ?thesis by blast
  qed blast
  then have "list_all (\<lambda>b. at_unitId b \<noteq> at_unitId a \<or> b = a \<or>
      (at_state b = AKnownFailure \<or> at_state b = ADiscarded) \<and> ft_fencingToken (at_fence b) < ft_fencingToken (at_fence a)) (lg_attempts l)"
    by (simp only: list_all_iff) blast
  with a w(1) f show ?thesis by blast
qed

theorem dispatched_attempt_is_the_only_live_one_witness:
  "list_ex (\<lambda>w. after (date_parse no_dates (rw_leaseExpiresAt w)) demo_ms) (lg_recordWork dispatching_ledger)"
  using dispatched_attempt_is_the_only_live_one [OF dispatching_ok] unfolding list_ex_iff by blast

section \<open>Reported success\<close>

lemma success_conditions:
  assumes "is_record_success d l i"
  shows "\<And>k. k \<in> set RECORD_SUCCESS_CONDITION_KEYS \<Longrightarrow> success_condition_holds d l (parts_of_commit l i) k"
  using assms by (auto simp: is_record_success_def evaluate_record_success_def Let_def filter_empty_conv split: if_splits)

lemma find_by_key:
  assumes "distinct (map f xs)" "x \<in> set xs"
  shows "find (\<lambda>y. f y = f x) xs = Some x"
proof (cases "find (\<lambda>y. f y = f x) xs")
  case None
  then show ?thesis using assms(2) by (auto simp: find_None_iff)
next
  case (Some y)
  with find_Some_mem [OF Some] unique_by_key [OF assms(1) _ assms(2)] show ?thesis by auto
qed

text \<open>What stands behind one commit: its index entries, its read back, and the unit, attempt and work it belongs to.\<close>

definition entry_published :: "commit \<Rightarrow> source_snapshot \<Rightarrow> string option \<Rightarrow> index_entry option \<Rightarrow> bool" where
  "entry_published c s r v =
     present (\<lambda>e. r = Some (ie_revision e) \<and> ie_revision e \<noteq> [] \<and> ie_commitId e = cm_commitId c \<and> ie_recordWorkKey e = cm_recordWorkKey c \<and>
       ie_bodyHash e = cm_bodyHash c \<and> ie_sourceSnapshotId e = ss_sourceSnapshotId s \<and> ie_coveredRevision e = ss_desiredRevision s) v"

definition body_backed :: "commit \<Rightarrow> source_snapshot \<Rightarrow> bool" where
  "body_backed c s \<longleftrightarrow>
     cm_bodyHash c \<noteq> [] \<and> bl_hash (cm_bodyRef c) = cm_bodyHash c \<and> cm_coveredRevision c = Some (ss_desiredRevision s) \<and>
     entry_published c s (cm_mainIndexRevision c) (cm_mainIndexEntry c) \<and>
     entry_published c s (cm_readerIndexRevision c) (cm_readerIndexEntry c) \<and>
     present (\<lambda>r. rb_bodyHash r = cm_bodyHash c \<and> cm_verifiedAt c = Some (rb_verifiedAt r) \<and>
       cm_mainIndexRevision c = Some (rb_mainIndexRevision r) \<and> cm_readerIndexRevision c = Some (rb_readerIndexRevision r)) (cm_readBack c)"

definition unit_backs :: "commit \<Rightarrow> source_snapshot \<Rightarrow> unit_ledger \<Rightarrow> bool" where
  "unit_backs c s u \<longleftrightarrow>
     ul_unitId u = cm_unitId c \<and> ul_taskId u = cm_taskId c \<and> ul_state u = USucceeded \<and> ul_commitId u = Some (cm_commitId c) \<and>
     ul_inputHash u = cm_inputHash c \<and> ul_recordWorkKey u = cm_recordWorkKey c \<and> ul_sourceSnapshotId u = ss_sourceSnapshotId s \<and>
     ul_coveredRevision u = Some (ss_desiredRevision s)"

definition attempt_backs :: "commit \<Rightarrow> unit_ledger \<Rightarrow> record_work \<Rightarrow> attempt \<Rightarrow> bool" where
  "attempt_backs c u w a \<longleftrightarrow>
     at_attemptId a = cm_attemptId c \<and> at_unitId a = ul_unitId u \<and> at_recordWorkKey a = cm_recordWorkKey c \<and>
     at_state a = AKnownSuccess \<and> at_outcome a = Some OcKnownSuccess \<and> at_provider a \<in> set (ul_attemptedProviders u) \<and>
     at_inputHash a = cm_inputHash c \<and> present (\<lambda>r. bl_hash r = cm_outputHash c) (at_outputRef a) \<and>
     has_current_fencing_token (current_fence w) (at_fence a)"

definition work_backs :: "ledger \<Rightarrow> commit \<Rightarrow> source_snapshot \<Rightarrow> unit_ledger \<Rightarrow> record_work \<Rightarrow> bool" where
  "work_backs l c s u w \<longleftrightarrow>
     rw_recordWorkKey w = cm_recordWorkKey c \<and> has_current_fencing_token (current_fence w) (cm_fence c) \<and>
     rw_recordCommitEpoch w = ul_recordCommitEpoch u \<and> rw_schedulerEpoch w = tk_schedulerEpoch (lg_task l) \<and>
     rw_conversationId w = ss_conversationId s \<and> rw_chain w = ss_chain s \<and> rw_workspaceHash w = ss_workspaceHash s \<and>
     rw_desiredRevision w = ss_desiredRevision s"

definition commit_backed :: "dates \<Rightarrow> ledger \<Rightarrow> commit \<Rightarrow> bool" where
  "commit_backed d l c \<longleftrightarrow>
     cm_accepted c \<and> cm_taskId c = tk_taskId (lg_task l) \<and> cm_cleanupPhase c = KNotRequired \<and>
     all_recorded_conditions_true (cm_successConditions c) \<and>
     (\<exists>s \<in> set (lg_sourceSnapshots l). \<exists>u \<in> set (lg_units l). \<exists>a \<in> set (lg_attempts l). \<exists>w \<in> set (lg_recordWork l).
        ss_sourceSnapshotId s = cm_sourceSnapshotId c \<and> is_complete_source_snapshot s \<and> candidate_snapshot_frozen l (Some s) \<and>
        is_persisted_refresh d c s \<and> body_backed c s \<and> unit_backs c s u \<and> attempt_backs c u w a \<and> work_backs l c s u w)"

lemmas backed_defs = entry_published_def body_backed_def unit_backs_def attempt_backs_def work_backs_def

lemmas success_defs = model_output_bound_def body_atomically_written_def main_index_published_def reader_index_consistent_def
  ledger_binds_commit_def read_back_verified_def index_entry_binds_commit_def

lemma record_success_backed:
  assumes "is_record_success d l (cm_commitId c)" "c \<in> set (lg_commits l)" "distinct (map cm_commitId (lg_commits l))"
  shows "commit_backed d l c"
proof -
  let ?p = "parts_of_commit l (cm_commitId c)"
  have p: "sp_commit ?p = Some c" "sp_source ?p = find (\<lambda>s. ss_sourceSnapshotId s = cm_sourceSnapshotId c) (lg_sourceSnapshots l)"
    "sp_unit ?p = find (\<lambda>u. ul_unitId u = cm_unitId c) (lg_units l)"
    "sp_attempt ?p = find (\<lambda>a. at_attemptId a = cm_attemptId c) (lg_attempts l)"
    "sp_work ?p = find (\<lambda>w. rw_recordWorkKey w = cm_recordWorkKey c) (lg_recordWork l)"
    using find_by_key [OF assms(3,2)] by (simp_all add: parts_of_commit_def)
  note k = success_conditions [OF assms(1), simplified RECORD_SUCCESS_CONDITION_KEYS_def]
  have holds: "candidate_snapshot_frozen l (sp_source ?p)" "present is_complete_source_snapshot (sp_source ?p)" "model_output_bound ?p"
    "body_atomically_written (sp_commit ?p)" "main_index_published ?p" "reader_index_consistent ?p" "ledger_binds_commit l ?p"
    "read_back_verified d ?p"
    using k [of CandidateSnapshotFrozen] k [of SourceSnapshotPersisted] k [of ModelOutputBoundAndQualified] k [of BodyAtomicallyWritten]
      k [of MainIndexPublished] k [of ReaderIndexConsistent] k [of LedgerConsistent] k [of ReadBackVerified] by simp_all
  obtain s u a w where parts: "sp_source ?p = Some s" "sp_unit ?p = Some u" "sp_attempt ?p = Some a" "sp_work ?p = Some w"
    using holds(7) by (auto simp: ledger_binds_commit_def split: option.splits)
  have found: "s \<in> set (lg_sourceSnapshots l)" "ss_sourceSnapshotId s = cm_sourceSnapshotId c" "u \<in> set (lg_units l)" "ul_unitId u = cm_unitId c"
    "a \<in> set (lg_attempts l)" "at_attemptId a = cm_attemptId c" "w \<in> set (lg_recordWork l)" "rw_recordWorkKey w = cm_recordWorkKey c"
    using find_Some_mem [OF trans [OF sym [OF p(2)] parts(1)]] find_Some_mem [OF trans [OF sym [OF p(3)] parts(2)]]
      find_Some_mem [OF trans [OF sym [OF p(4)] parts(3)]] find_Some_mem [OF trans [OF sym [OF p(5)] parts(4)]] by simp_all
  note h = holds [unfolded success_defs p(1) parts, simplified]
  have "body_backed c s" using h by (auto simp: backed_defs present_iff)
  moreover have "unit_backs c s u" "attempt_backs c u w a" "work_backs l c s u w" using h found by (auto simp: backed_defs)
  ultimately show ?thesis using h found unfolding commit_backed_def by blast
qed

text \<open>
  C21: When success of a task is reported, its commits are all verified, one per record and as many as records,
  and each is backed: the body and its reference carry the hash of the commit, and so do both index entries, at
  the revisions the commit names, and the read back of those revisions; the unit that ended with this commit and
  the attempt that succeeded have its input hash, the attempt its output hash; all of them cover the revision of
  one complete source snapshot; and the commit and the attempt carry the current fence of their work.
\<close>

theorem reported_success_is_backed:
  assumes "can_report_ledger_success d l"
  shows "distinct (map cm_recordWorkKey (lg_commits l)) \<and> rc_total (tk_recordItems (lg_task l)) = of_nat (length (lg_commits l)) \<and>
    list_all (\<lambda>c. cm_state c = CVerified \<and> commit_backed d l c) (lg_commits l)"
proof (cases "rc_total (tk_recordItems (lg_task l)) = 0")
  case True
  then have "lg_commits l = []" using assms by (simp add: can_report_ledger_success_def Let_def)
  with True show ?thesis by simp
next
  case False
  let ?v = "filter (\<lambda>c. cm_state c = CVerified) (lg_commits l)"
  have h: "is_current_ledger d l" "length ?v = length (lg_commits l)" "of_nat (length ?v) = rc_succeeded (tk_recordItems (lg_task l))"
    "rc_total (tk_recordItems (lg_task l)) = rc_succeeded (tk_recordItems (lg_task l))"
    "of_nat (length (unique_list (map cm_recordWorkKey ?v))) = rc_succeeded (tk_recordItems (lg_task l))"
    "list_all (\<lambda>c. is_record_success d l (cm_commitId c)) ?v"
    using assms False by (simp_all add: can_report_ledger_success_def Let_def)
  have v: "?v = lg_commits l" using h(2) by (metis filter_id_conv length_filter_less less_irrefl)
  then have all: "list_all (\<lambda>c. cm_state c = CVerified) (lg_commits l)" by (metis (no_types, lifting) filter_id_conv list_all_iff)
  have "is_unique (map cm_recordWorkKey (lg_commits l))"
    using h(3,5) v unfolding is_unique_def by (metis length_map of_nat_eq_iff)
  then have keys: "distinct (map cm_recordWorkKey (lg_commits l))" by simp
  have ids: "distinct (map cm_commitId (lg_commits l))"
    using graph_ids [OF current_graph [OF h(1)]] by (simp add: graph_ids_ok_def)
  have "commit_backed d l c" if "c \<in> set (lg_commits l)" for c
    by (rule record_success_backed [of d, OF _ that ids]) (use h(6) v that in \<open>simp add: list_all_iff\<close>)
  with all keys h(3,4) v show ?thesis by (simp add: list_all_iff)
qed

theorem reported_success_is_backed_witness: "list_all (commit_backed no_dates succeeded_ledger) (lg_commits succeeded_ledger)"
  using reported_success_is_backed [OF succeeded_ok] by (simp add: list_all_iff)

section \<open>Cancellation\<close>

text \<open>What must hold of a commit when its task is cancelled, over the works of the ledger.\<close>

definition commit_gone :: "ledger \<Rightarrow> commit \<Rightarrow> bool" where
  "commit_gone l c \<longleftrightarrow>
     cm_taskId c = tk_taskId (lg_task l) \<and>
     (\<exists>w \<in> set (lg_recordWork l). rw_recordWorkKey w = cm_recordWorkKey c \<and>
        (case cm_ownership c of
           TaskExclusive t \<Rightarrow> t = tk_taskId (lg_task l) \<and> rw_activeTaskIds w = [] \<and>
             (cm_state c \<in> {CNotStarted, CResultReady, CBodyStaged, CAbandoned} \<and> cm_cleanupPhase c = KNotRequired \<or>
              cm_state c = CCompensated \<and> cm_cleanupPhase c = KVerified \<and> cleanup_proves_commit_invisible c)
         | SharedOwners ts \<Rightarrow> cm_state c \<noteq> CCompensated \<and> cm_state c \<noteq> CCleanupPending \<and>
             (\<exists>t \<in> set (rw_activeTaskIds w). t \<noteq> tk_taskId (lg_task l) \<and> t \<in> set ts)))"

lemma safe_commit_gone:
  assumes "commit_safe_for_cancellation l c" "cm_taskId c = tk_taskId (lg_task l)"
  shows "commit_gone l c"
proof -
  obtain w where w: "work_of l (cm_recordWorkKey c) = Some w"
    and safe: "case cm_ownership c of
       TaskExclusive t \<Rightarrow> t = tk_taskId (lg_task l) \<and> rw_activeTaskIds w = [] \<and> is_cancellation_commit_invisible c
     | SharedOwners ts \<Rightarrow> cm_state c \<noteq> CCompensated \<and> cm_state c \<noteq> CCleanupPending \<and>
         list_ex (\<lambda>t. t \<noteq> tk_taskId (lg_task l) \<and> t \<in> set ts) (rw_activeTaskIds w)"
    using assms(1) unfolding commit_safe_for_cancellation_def present_iff by blast
  have "w \<in> set (lg_recordWork l)" "rw_recordWorkKey w = cm_recordWorkKey c" using index_by_Some [OF w] by simp_all
  then show ?thesis using safe assms(2)
    by (cases "cm_ownership c") (auto simp: commit_gone_def is_cancellation_commit_invisible_def list_ex_iff split: if_splits)
qed

text \<open>
  C22: A task enters \<open>Cancelled\<close> only from \<open>Cancelling\<close> and only on evidence, a current ledger of the cancelling
  task without repair or visible spool, in which nothing of it is left: every unit has ended, and one that
  succeeded names a commit of the ledger; no attempt and no work lists the task, and an attempt that no task
  owns has failed, was discarded or is past its unknown-outcome deadline; and each commit is of this task and
  either owned by it alone, idle and invisible, or shared with another task that its work still lists.
\<close>

theorem cancelled_task_leaves_nothing:
  assumes "can_transition_task d a TCancelled ev"
  shows "a = TCancelling \<and>
    (\<exists>e. ev = Some e \<and> is_current_ledger d (ev_ledger e) \<and> tk_state (lg_task (ev_ledger e)) = TCancelling \<and>
       tk_repairState (lg_task (ev_ledger e)) = RepNone \<and> \<not> ev_taskSpoolVisible e \<and>
       list_all (\<lambda>u. ul_state u \<in> {UFailedFinal, UCancelled, UDiscarded, USuperseded} \<or>
         ul_state u = USucceeded \<and> list_ex (\<lambda>c. ul_commitId u = Some (cm_commitId c)) (lg_commits (ev_ledger e))) (lg_units (ev_ledger e)) \<and>
       list_all (\<lambda>t. tk_taskId (lg_task (ev_ledger e)) \<notin> set (at_activeTaskIds t) \<and>
         (at_activeTaskIds t \<noteq> [] \<or> at_state t = AKnownFailure \<or> at_state t = ADiscarded \<or>
          at_state t = AUnknownOutcome \<and>
            (\<exists>s x. at_unknownOutcomeUntil t = Some s \<and> date_parse d s = Some x \<and> x \<le> ev_nowMs e))) (lg_attempts (ev_ledger e)) \<and>
       list_all (\<lambda>w. tk_taskId (lg_task (ev_ledger e)) \<notin> set (rw_activeTaskIds w)) (lg_recordWork (ev_ledger e)) \<and>
       list_all (commit_gone (ev_ledger e)) (lg_commits (ev_ledger e)))"
proof -
  have from_state: "a = TCancelling" using assms by (cases a) (simp_all add: can_transition_task_def can_transition_def)
  then obtain e where e: "ev = Some e" and c: "is_cancellation_cleanup_complete d e"
    using assms by (auto simp: can_transition_task_def present_iff)
  note c = c [unfolded is_cancellation_cleanup_complete_def Let_def]
  have "ul_state u \<in> {UFailedFinal, UCancelled, UDiscarded, USuperseded} \<or>
      ul_state u = USucceeded \<and> list_ex (\<lambda>c. ul_commitId u = Some (cm_commitId c)) (lg_commits (ev_ledger e))"
    if "u \<in> set (lg_units (ev_ledger e))" for u
  proof -
    have settled: "is_cancellation_unit_settled (ul_state u)" using c that by (simp add: list_all_iff)
    have "\<exists>i x. ul_commitId u = Some i \<and> commit_of (ev_ledger e) i = Some x" if "ul_state u = USucceeded"
    proof -
      have "present (\<lambda>i. present (commit_safe_for_cancellation (ev_ledger e)) (commit_of (ev_ledger e) i)) (ul_commitId u)"
        using c that \<open>u \<in> set (lg_units (ev_ledger e))\<close> by (simp add: list_all_iff)
      then show ?thesis by (auto simp: present_iff)
    qed
    with settled show ?thesis by (fastforce simp: is_cancellation_unit_settled_def list_ex_iff dest: index_by_Some)
  qed
  then have units: "list_all (\<lambda>u. ul_state u \<in> {UFailedFinal, UCancelled, UDiscarded, USuperseded} \<or>
      ul_state u = USucceeded \<and> list_ex (\<lambda>c. ul_commitId u = Some (cm_commitId c)) (lg_commits (ev_ledger e))) (lg_units (ev_ledger e))"
    unfolding list_all_iff by blast
  have "list_all (commit_gone (ev_ledger e)) (lg_commits (ev_ledger e))" using c by (auto simp: list_all_iff intro: safe_commit_gone)
  moreover have "at_activeTaskIds t \<noteq> [] \<or> at_state t = AKnownFailure \<or> at_state t = ADiscarded \<or> at_state t = AUnknownOutcome \<and>
      (\<exists>s x. at_unknownOutcomeUntil t = Some s \<and> date_parse d s = Some x \<and> x \<le> ev_nowMs e)" if "t \<in> set (lg_attempts (ev_ledger e))" for t
    using c that by (auto simp: list_all_iff is_cancellation_attempt_settled_def present_iff truthy_value_def split: option.splits if_splits)
  ultimately show ?thesis using from_state e units c by (simp add: list_all_iff)
qed

theorem cancelled_task_leaves_nothing_witness:
  "list_all (commit_gone cancelling_ledger) (lg_commits cancelling_ledger) \<and> lg_commits cancelling_ledger \<noteq> [] \<and>
   list_ex (\<lambda>w. list_ex (\<lambda>t. t \<noteq> ''task'') (rw_activeTaskIds w)) (lg_recordWork cancelling_ledger)"
proof -
  have "can_transition_task no_dates TCancelling TCancelled (Some \<lparr> ev_ledger = cancelling_ledger, ev_taskSpoolVisible = False, ev_nowMs = demo_ms \<rparr>)"
    using cancelling_ok by (simp add: can_transition_task_def can_transition_def)
  from cancelled_task_leaves_nothing [OF this] have "list_all (commit_gone cancelling_ledger) (lg_commits cancelling_ledger)" by simp
  then show ?thesis by (simp add: cancelling_ledger_def demo_ledger_def demo_commit_def commit_gone_def demo_task_def demo_work_def)
qed

section \<open>Reading\<close>

text \<open>
  Reading a stored value gives rights over a current, consistent ledger only, never to a legacy, a future or
  a broken one; and a reader may never both dispatch and report success.
\<close>

theorem rights_need_a_current_ledger:
  "let (res, r) = read_record_scheduler_ledger d v now
   in (r = no_rights \<or> (\<exists>l. v = StoredLedger l \<and> res = ReadCurrent l \<and> is_current_ledger d l)) \<and>
      (lr_canDispatch r \<longrightarrow> lr_canRecoverDispatch r \<and> \<not> lr_canReportSuccess r)"
  by (auto simp: read_record_scheduler_ledger_def ledger_rights_of_def no_rights_def Let_def can_report_ledger_success_def can_dispatch_task_def
      split: stored_value.splits option.splits prod.splits if_splits)

theorem rights_need_a_current_ledger_witness:
  "\<not> lr_canReportSuccess (snd (read_record_scheduler_ledger no_dates (StoredLedger dispatching_ledger) demo_ms))"
proof -
  let ?r = "read_record_scheduler_ledger no_dates (StoredLedger dispatching_ledger) demo_ms"
  have "lr_canDispatch (snd ?r)" by code_simp
  with rights_need_a_current_ledger [of no_dates "StoredLedger dispatching_ledger" demo_ms] show ?thesis
    by (cases ?r) simp
qed

end
