(* ===== verification/BudgetTypes.thy ===== *)
theory BudgetTypes
  imports LedgerStates UnitJson
begin

text \<open>
  The accounting state of the agent server (\<open>src/mcps/sandbox/src/agent-server/accounting/budget-ledger.ts\<close>):
  root budgets, the quota limits that several budgets share, the reservations of attempts and the charges
  that providers report; the commands over them and the errors.

  The tables of the code are objects under quoted keys (\<open>JSON.stringify\<close> of an identifier, or of the
  triple that identifies a charge). Quoting is injective and no quoted key looks like an array index, so the
  tables are association lists in insertion order under the identifiers themselves.
\<close>

section \<open>Budgets and limits\<close>

datatype budget_mode = Hard | Estimated | Metered

record budget_definition =
  bd_rootBudgetId :: string
  bd_mode :: "budget_mode option"
  bd_currency :: string
  bd_maxCostMicros :: "rat option"
  bd_maxModelCalls :: rat
  bd_maxOutputTokens :: rat
  bd_deadlineAt :: string
  bd_sourceRef :: string
  bd_quotaLimitId :: "string option"

record budget = budget_definition +
  bu_unsettledCalls :: "rat option"
  bu_spentCalls :: rat
  bu_heldCalls :: rat
  bu_spentMicros :: rat
  bu_heldMicros :: rat
  bu_amountUnknown :: bool
  bu_overdrawn :: bool
  bu_version :: rat
  bu_definitionHash :: string
  bu_blockedReason :: "string option"

datatype limit_mode = HardLimit | EstimatedLimit

record quota_definition =
  qd_quotaLimitId :: string
  qd_amountMode :: "limit_mode option"
  qd_currency :: string
  qd_maxCostMicros :: rat
  qd_quotaScopeIds :: "string list"
  qd_sourceRef :: string

text \<open>\<open>ql_estimateNotice\<close>: the fixed notice of an estimated limit is present.\<close>

record quota = quota_definition +
  ql_unsettledCalls :: "rat option"
  ql_estimateNotice :: bool
  ql_spentMicros :: rat
  ql_heldMicros :: rat
  ql_spentCalls :: rat
  ql_heldCalls :: rat
  ql_blockedReason :: "string option"
  ql_overdrawn :: bool
  ql_definitionHash :: string
  ql_version :: rat

record quota_carry =
  qc_spentMicros :: rat
  qc_heldMicros :: rat
  qc_spentCalls :: rat
  qc_heldCalls :: rat
  qc_unsettledCalls :: "rat option"

section \<open>Reservations and charges\<close>

datatype bound_source = PriceTable | AccountCap | Fixture | EstimatedPrice

record estimate_basis =
  eb_inputTokens :: rat
  eb_outputTokens :: rat
  eb_outputLimitKind :: string
  eb_missingHardBounds :: "string list"

record upper_bound =
  ub_currency :: string
  ub_amountMicros :: "rat option"
  ub_reliable :: bool
  ub_source :: bound_source
  ub_sourceRef :: string
  ub_expiresAt :: "string option"
  ub_estimateBasis :: "estimate_basis option"

datatype bound_method = ReportedTotalTokens | OriginalOutputCap

record response_bound =
  pb_amountMicros :: rat
  pb_currency :: string
  pb_sourceRef :: string
  pb_priceVersion :: string
  pb_usageRevision :: rat
  pb_inputTokens :: rat
  pb_originalMaxOutputTokens :: rat
  pb_boundedRemainingTokens :: rat
  pb_reportedTotalTokens :: "rat option"
  pb_method :: bound_method

datatype reservation_identity = SnapshotIdentity string | FinancialIdentity string

record reservation_input =
  in_rootBudgetId :: string
  in_attemptId :: string
  in_actionId :: string
  in_quotaScopeId :: string
  in_upperBound :: upper_bound
  in_foregroundCallFloor :: "rat option"
  in_snapshotHash :: "string option"
  in_financialIntentId :: "string option"

datatype reservation_state = RsReserved | RsDispatched | RsUnknown | RsUnsettled | RsSettled | RsRejected

datatype reservation_mode = EstimatedAmount | MeteredAmount

text \<open>A charge is identified by quota scope, execution and component.\<close>

type_synonym charge_key = "string \<times> string \<times> string"

record reservation =
  re_amountMode :: "reservation_mode option"
  re_attemptId :: string
  re_rootBudgetId :: string
  re_actionId :: string
  re_quotaScopeId :: string
  re_identity :: reservation_identity
  re_upperMicros :: "rat option"
  re_originalUpperBound :: upper_bound
  re_postResponseUpperBound :: "response_bound option"
  re_heldMicros :: rat
  re_amountUnknown :: bool
  re_state :: reservation_state
  re_dispatched :: bool
  re_callHeld :: bool
  re_intentHash :: string
  re_executionKey :: string
  re_reportedExecutionId :: "string option"
  re_chargeKeys :: "charge_key list"
  re_evidenceRef :: "string option"
  re_version :: rat
  re_expiresAt :: "string option"

datatype charge_kind = ProviderReported | Calculated

record charge_input =
  ci_component :: string
  ci_amountMicros :: "rat option"
  ci_currency :: string
  ci_usage :: json
  ci_kind :: charge_kind

record charge =
  ch_quotaScopeId :: string
  ch_executionKey :: string
  ch_component :: string
  ch_attemptId :: string
  ch_rootBudgetId :: string
  ch_usageRevision :: rat
  ch_amountMicros :: "rat option"
  ch_currency :: string
  ch_usage :: json
  ch_kind :: charge_kind

text \<open>An absent \<open>quotaLimits\<close> or \<open>quotaCarry\<close> table reads as an empty one.\<close>

record accounting =
  ac_schemaVersion :: rat
  ac_budgets :: "(string \<times> budget) list"
  ac_reservations :: "(string \<times> reservation) list"
  ac_charges :: "(charge_key \<times> charge) list"
  ac_quotaLimits :: "(string \<times> quota) list"
  ac_quotaCarry :: "(string \<times> quota_carry) list"

definition empty_accounting_state :: accounting where
  "empty_accounting_state =
     \<lparr> ac_schemaVersion = 1, ac_budgets = [], ac_reservations = [], ac_charges = [], ac_quotaLimits = [], ac_quotaCarry = [] \<rparr>"

section \<open>Commands, results, errors\<close>

datatype acceptance = NotSent | RejectedByProvider

record settle_command =
  sc_attemptId :: string
  sc_usageRevision :: rat
  sc_providerExecutionId :: "string option"
  sc_charges :: "charge_input list"
  sc_complete :: bool
  sc_postResponseUpperBound :: "response_bound option"

datatype accounting_command =
  GetQuotaLimit "string option"
| CreateQuotaLimit quota_definition
| HaltQuotaLimit string string string
| CreateBudget budget_definition
| HaltBudget string string string
| Reserve reservation_input
| MarkDispatched string
| MarkUnknown string
| RejectAttempt string acceptance string
| Settle settle_command
| Reconcile string string string

record accounting_result =
  ar_budget :: "budget option"
  ar_quotaLimit :: "quota option"
  ar_quotaLimits :: "quota list option"
  ar_reservation :: "reservation option"
  ar_replayed :: bool

text \<open>A deferred background request names the error it would have been.\<close>

datatype accounting_error =
  E_SCHEMA_VERSION | E_ACCOUNTING_IDENTITY | E_ACCOUNTING_RANGE | E_GLOBAL_BUDGET_REQUIRED | BUDGET_REQUIRED
| E_EXECUTION_CONFLICT | E_USAGE_CONFLICT | E_USAGE_INCOMPLETE | E_USAGE_STALE | E_USAGE_LIMIT
| E_GLOBAL_BUDGET_CONFLICT | E_GLOBAL_BUDGET_HALTED | E_GLOBAL_BUDGET_EXCEEDED | E_ACCEPTANCE_EVIDENCE
| E_CURRENCY_MISMATCH | E_BUDGET_CONFLICT | E_BUDGET_EXCEEDED | E_BUDGET_DEADLINE | E_BUDGET_HALTED | BUDGET_UNBOUNDED
| E_PRICE_UNKNOWN | E_ATTEMPT_CONFLICT | E_ATTEMPT_LIMIT | E_ATTEMPT_STATE | E_RESERVATION_MISSING | E_UPPER_BOUND_CONFLICT
| E_BACKGROUND_BUDGET_DEFERRED accounting_error

section \<open>Basic checks\<close>

definition exact_amount :: "rat \<Rightarrow> bool" where
  "exact_amount q \<longleftrightarrow> is_integral q \<and> 0 \<le> q \<and> q \<le> of_int max_safe"

definition required_identity :: "string \<Rightarrow> accounting_error + unit" where
  "required_identity v = ensure E_ACCOUNTING_IDENTITY (v \<noteq> [] \<and> length v \<le> 512)"

definition safe_add :: "rat \<Rightarrow> rat \<Rightarrow> accounting_error + rat" where
  "safe_add l r = (if exact_amount (l + r) then Inr (l + r) else Inl E_ACCOUNTING_RANGE)"

text \<open>\<open>/^[A-Z]{3}$/\<close> and the pattern of a random UUID, whose letters may be of either case.\<close>

definition is_currency :: "string \<Rightarrow> bool" where
  "is_currency s \<longleftrightarrow> length s = 3 \<and> list_all (\<lambda>c. c \<in> set ''ABCDEFGHIJKLMNOPQRSTUVWXYZ'') s"

definition is_random_uuid :: "string \<Rightarrow> bool" where
  "is_random_uuid s \<longleftrightarrow>
     length s = 36 \<and> list_all (\<lambda>i. s ! i = CHR ''-'') [8, 13, 18, 23] \<and> s ! 14 = CHR ''4'' \<and> s ! 19 \<in> set ''89abAB'' \<and>
     list_all (\<lambda>i. i \<in> set [8, 13, 18, 23] \<or> s ! i \<in> set ''0123456789abcdefABCDEF'') [0..<36]"

text \<open>An empty text is falsy.\<close>

definition filled :: "string option \<Rightarrow> string option" where
  "filled v = (if v = Some [] then None else v)"

definition starts_with :: "string \<Rightarrow> string \<Rightarrow> bool" where
  "starts_with p s \<longleftrightarrow> take (length p) s = p"

text \<open>Length in UTF-8: the code units from U+0080 take two bytes.\<close>

definition utf8_length :: "string \<Rightarrow> nat" where
  "utf8_length s = length s + length (filter (\<lambda>c. 128 \<le> (of_char c :: nat)) s)"

section \<open>Hashes\<close>

text \<open>Fields that are \<open>undefined\<close> do not occur in the text that is hashed.\<close>

definition opt_field :: "string \<Rightarrow> ('a \<Rightarrow> json) \<Rightarrow> 'a option \<Rightarrow> (string \<times> json) list" where
  "opt_field k f v = (case v of None \<Rightarrow> [] | Some x \<Rightarrow> [(k, f x)])"

definition nullable :: "('a \<Rightarrow> json) \<Rightarrow> 'a option \<Rightarrow> json" where
  "nullable f v = (case v of None \<Rightarrow> Null | Some x \<Rightarrow> f x)"

definition hash_of :: "host \<Rightarrow> json \<Rightarrow> string" where
  "hash_of h v = sha256 h (canonical_text h v)"

fun mode_text :: "budget_mode \<Rightarrow> string" where
  "mode_text Hard = ''hard''" | "mode_text Estimated = ''estimated''" | "mode_text Metered = ''metered''"

definition budget_json :: "budget_definition \<Rightarrow> json" where
  "budget_json d =
     Obj ([(''rootBudgetId'', Str (bd_rootBudgetId d)), (''currency'', Str (bd_currency d)),
           (''maxCostMicros'', nullable Num (bd_maxCostMicros d)), (''maxModelCalls'', Num (bd_maxModelCalls d)),
           (''maxOutputTokens'', Num (bd_maxOutputTokens d)), (''deadlineAt'', Str (bd_deadlineAt d)), (''sourceRef'', Str (bd_sourceRef d))]
          @ opt_field ''mode'' (\<lambda>m. Str (mode_text m)) (bd_mode d) @ opt_field ''quotaLimitId'' Str (bd_quotaLimitId d))"

text \<open>Only an estimated limit hashes its \<open>amountMode\<close>.\<close>

definition quota_json :: "quota_definition \<Rightarrow> json" where
  "quota_json d =
     Obj ([(''quotaLimitId'', Str (qd_quotaLimitId d)), (''currency'', Str (qd_currency d)), (''maxCostMicros'', Num (qd_maxCostMicros d)),
           (''quotaScopeIds'', Arr (map Str (qd_quotaScopeIds d))), (''sourceRef'', Str (qd_sourceRef d))]
          @ (if qd_amountMode d = Some EstimatedLimit then [(''amountMode'', Str ''estimated'')] else []))"

fun source_text :: "bound_source \<Rightarrow> string" where
  "source_text PriceTable = ''price_table''" | "source_text AccountCap = ''account_cap''"
| "source_text Fixture = ''fixture''" | "source_text EstimatedPrice = ''estimated''"

definition bound_json :: "upper_bound \<Rightarrow> json" where
  "bound_json u =
     Obj ([(''currency'', Str (ub_currency u)), (''amountMicros'', nullable Num (ub_amountMicros u)), (''reliable'', Bool (ub_reliable u)),
           (''source'', Str (source_text (ub_source u))), (''sourceRef'', Str (ub_sourceRef u))]
          @ opt_field ''expiresAt'' Str (ub_expiresAt u)
          @ opt_field ''estimateBasis'' (\<lambda>b. Obj [(''inputTokens'', Num (eb_inputTokens b)), (''outputTokens'', Num (eb_outputTokens b)),
              (''outputLimitKind'', Str (eb_outputLimitKind b)), (''missingHardBounds'', Arr (map Str (eb_missingHardBounds b)))])
              (ub_estimateBasis u))"

definition reserve_json :: "reservation_input \<Rightarrow> json" where
  "reserve_json c =
     Obj ([(''type'', Str ''reserve''), (''rootBudgetId'', Str (in_rootBudgetId c)), (''attemptId'', Str (in_attemptId c)),
           (''actionId'', Str (in_actionId c)), (''quotaScopeId'', Str (in_quotaScopeId c)), (''upperBound'', bound_json (in_upperBound c))]
          @ opt_field ''foregroundCallFloor'' Num (in_foregroundCallFloor c) @ opt_field ''snapshotHash'' Str (in_snapshotHash c)
          @ opt_field ''financialIntentId'' Str (in_financialIntentId c))"

fun method_text :: "bound_method \<Rightarrow> string" where
  "method_text ReportedTotalTokens = ''reported_total_tokens''" | "method_text OriginalOutputCap = ''original_output_cap''"

definition response_json :: "response_bound \<Rightarrow> json" where
  "response_json p =
     Obj [(''amountMicros'', Num (pb_amountMicros p)), (''currency'', Str (pb_currency p)), (''source'', Str ''frozen_price_usage''),
          (''sourceRef'', Str (pb_sourceRef p)), (''priceVersion'', Str (pb_priceVersion p)), (''usageRevision'', Num (pb_usageRevision p)),
          (''inputTokens'', Num (pb_inputTokens p)), (''originalMaxOutputTokens'', Num (pb_originalMaxOutputTokens p)),
          (''boundedRemainingTokens'', Num (pb_boundedRemainingTokens p)),
          (''reportedTotalTokens'', nullable Num (pb_reportedTotalTokens p)), (''method'', Str (method_text (pb_method p)))]"

definition usage_hash :: "host \<Rightarrow> rat option \<Rightarrow> json \<Rightarrow> string" where
  "usage_hash h amount usage = hash_of h (Obj [(''amount'', nullable Num amount), (''usage'', usage)])"

end
