(* ===== verification/BudgetLedger.thy ===== *)
theory BudgetLedger
  imports BudgetTypes
begin

text \<open>
  The accounting commands (\<open>applyAccountingCommand\<close> and its helpers). A command maps the previous state to the
  next one and a result, or throws; a thrown error leaves the previous state. The quota table \<open>previous.quotaLimits ?? {}\<close>
  and the texts of the errors are not part of the state.
\<close>

fun fold_ok :: "('a \<Rightarrow> 's \<Rightarrow> 'e + 's) \<Rightarrow> 'a list \<Rightarrow> 's \<Rightarrow> 'e + 's" where
  "fold_ok f [] s = Inr s"
| "fold_ok f (x # xs) s = and_then (f x s) (fold_ok f xs)"

abbreviation budgets_of :: "accounting \<Rightarrow> string \<Rightarrow> budget option" where
  "budgets_of s \<equiv> map_of (ac_budgets s)"

abbreviation limits_of :: "accounting \<Rightarrow> string \<Rightarrow> quota option" where
  "limits_of s \<equiv> map_of (ac_quotaLimits s)"

abbreviation reservations_of :: "accounting \<Rightarrow> string \<Rightarrow> reservation option" where
  "reservations_of s \<equiv> map_of (ac_reservations s)"

abbreviation charges_of :: "accounting \<Rightarrow> charge_key \<Rightarrow> charge option" where
  "charges_of s \<equiv> map_of (ac_charges s)"

definition put_budget :: "budget \<Rightarrow> accounting \<Rightarrow> accounting" where
  "put_budget b s = s\<lparr> ac_budgets := map_put (bd_rootBudgetId b) b (ac_budgets s) \<rparr>"

definition put_limit :: "quota \<Rightarrow> accounting \<Rightarrow> accounting" where
  "put_limit l s = s\<lparr> ac_quotaLimits := map_put (qd_quotaLimitId l) l (ac_quotaLimits s) \<rparr>"

definition put_reservation :: "reservation \<Rightarrow> accounting \<Rightarrow> accounting" where
  "put_reservation r s = s\<lparr> ac_reservations := map_put (re_attemptId r) r (ac_reservations s) \<rparr>"

definition put_charge :: "charge_key \<Rightarrow> charge \<Rightarrow> accounting \<Rightarrow> accounting" where
  "put_charge k c s = s\<lparr> ac_charges := map_put k c (ac_charges s) \<rparr>"

definition quota_limit_for :: "accounting \<Rightarrow> string \<Rightarrow> accounting_error + quota" where
  "quota_limit_for s i = (case limits_of s i of None \<Rightarrow> Inl E_GLOBAL_BUDGET_REQUIRED | Some l \<Rightarrow> Inr l)"

definition budget_for :: "accounting \<Rightarrow> string \<Rightarrow> accounting_error + budget" where
  "budget_for s i = (case budgets_of s i of None \<Rightarrow> Inl BUDGET_REQUIRED | Some b \<Rightarrow> Inr b)"

text \<open>The limit that a budget draws on, if any.\<close>

definition limit_of :: "accounting \<Rightarrow> budget \<Rightarrow> accounting_error + quota option" where
  "limit_of s b = (case filled (bd_quotaLimitId b) of None \<Rightarrow> Inr None | Some i \<Rightarrow> and_then (quota_limit_for s i) (\<lambda>l. Inr (Some l)))"

section \<open>Totals\<close>

definition carry_ok :: "quota_carry \<Rightarrow> bool" where
  "carry_ok c \<longleftrightarrow> exact_amount (qc_spentMicros c) \<and> exact_amount (qc_heldMicros c) \<and> exact_amount (qc_spentCalls c) \<and>
     exact_amount (qc_heldCalls c) \<and> (case qc_unsettledCalls c of None \<Rightarrow> True | Some n \<Rightarrow> exact_amount n)"

definition no_carry :: quota_carry where
  "no_carry = \<lparr> qc_spentMicros = 0, qc_heldMicros = 0, qc_spentCalls = 0, qc_heldCalls = 0, qc_unsettledCalls = None \<rparr>"

definition or_zero :: "rat option \<Rightarrow> rat" where
  "or_zero v = (case v of None \<Rightarrow> 0 | Some q \<Rightarrow> q)"

definition reset_limit :: "accounting \<Rightarrow> quota \<Rightarrow> accounting_error + quota" where
  "reset_limit s l =
     (let c = (case map_of (ac_quotaCarry s) (qd_quotaLimitId l) of None \<Rightarrow> no_carry | Some c \<Rightarrow> c)
      in if \<not> carry_ok c then Inl E_ACCOUNTING_RANGE
         else Inr (l\<lparr> ql_spentMicros := qc_spentMicros c, ql_heldMicros := qc_heldMicros c, ql_spentCalls := qc_spentCalls c,
                ql_heldCalls := qc_heldCalls c,
                ql_unsettledCalls := (if qd_amountMode l = Some EstimatedLimit then Some (or_zero (qc_unsettledCalls c)) else ql_unsettledCalls l) \<rparr>))"

definition reset_budget :: "accounting \<Rightarrow> budget \<Rightarrow> accounting_error + budget" where
  "reset_budget s b =
     and_then (limit_of s b) (\<lambda>l.
       Inr (b\<lparr> bu_spentCalls := 0, bu_heldCalls := 0, bu_spentMicros := 0, bu_heldMicros := 0, bu_amountUnknown := False,
              bu_unsettledCalls := (case l of Some x \<Rightarrow> if qd_amountMode x = Some EstimatedLimit then Some 0 else bu_unsettledCalls b
                                      | None \<Rightarrow> bu_unsettledCalls b) \<rparr>))"

definition add_charge :: "charge \<Rightarrow> accounting \<Rightarrow> accounting_error + accounting" where
  "add_charge c s =
     and_then (budget_for s (ch_rootBudgetId c)) (\<lambda>b.
       if ch_currency c = bd_currency b
       then and_then (safe_add (bu_spentMicros b) (or_zero (ch_amountMicros c))) (\<lambda>q. Inr (put_budget (b\<lparr> bu_spentMicros := q \<rparr>) s))
       else if bd_mode b = Some Metered then Inr (put_budget (b\<lparr> bu_amountUnknown := True \<rparr>) s)
       else Inr s)"

definition add_reservation :: "reservation \<Rightarrow> accounting \<Rightarrow> accounting_error + accounting" where
  "add_reservation r s =
     and_then (budget_for s (re_rootBudgetId r)) (\<lambda>b.
     and_then (safe_add (bu_heldMicros b) (re_heldMicros r)) (\<lambda>q.
       Inr (put_budget (b\<lparr>
         bu_spentCalls := bu_spentCalls b + (if re_dispatched r then 1 else 0),
         bu_heldCalls := bu_heldCalls b + (if re_callHeld r then 1 else 0),
         bu_heldMicros := q,
         bu_amountUnknown := (bu_amountUnknown b \<or> re_state r \<noteq> RsSettled \<and> re_state r \<noteq> RsRejected \<and> re_amountUnknown r),
         bu_unsettledCalls := (if (re_state r = RsUnknown \<or> re_state r = RsUnsettled) \<and> re_amountUnknown r
                               then map_option (\<lambda>n. n + 1) (bu_unsettledCalls b) else bu_unsettledCalls b) \<rparr>) s)))"

definition exceeds :: "rat option \<Rightarrow> rat \<Rightarrow> bool" where
  "exceeds m q = (case m of None \<Rightarrow> False | Some x \<Rightarrow> x < q)"

definition add_to_limit :: "budget \<Rightarrow> accounting \<Rightarrow> accounting_error + accounting" where
  "add_to_limit v s =
     (let b = v\<lparr> bu_overdrawn := (bu_overdrawn v \<or> exceeds (bd_maxCostMicros v) (bu_spentMicros v + bu_heldMicros v)) \<rparr>
      in and_then (limit_of s b) (\<lambda>ql.
         case ql of None \<Rightarrow> Inr (put_budget b s)
         | Some l \<Rightarrow>
             and_then (safe_add (ql_spentMicros l) (bu_spentMicros b)) (\<lambda>spent.
             and_then (safe_add (ql_heldMicros l) (bu_heldMicros b)) (\<lambda>held.
               Inr (put_limit (l\<lparr> ql_spentMicros := spent, ql_heldMicros := held,
                      ql_spentCalls := ql_spentCalls l + bu_spentCalls b, ql_heldCalls := ql_heldCalls l + bu_heldCalls b,
                      ql_unsettledCalls := (if qd_amountMode l = Some EstimatedLimit
                        then Some (or_zero (ql_unsettledCalls l) + or_zero (bu_unsettledCalls b)) else ql_unsettledCalls l),
                      ql_overdrawn := (ql_overdrawn l \<or> bu_overdrawn b) \<rparr>) (put_budget b s))))))"

definition close_limit :: "quota \<Rightarrow> quota" where
  "close_limit l = l\<lparr> ql_overdrawn := (ql_overdrawn l \<or> qd_maxCostMicros l < ql_spentMicros l + ql_heldMicros l) \<rparr>"

text \<open>The loops of \<open>refreshTotals\<close>, each over the values of one table.\<close>

definition reset_totals :: "accounting \<Rightarrow> accounting_error + accounting" where
  "reset_totals s =
     and_then (map_ok (\<lambda>(k, l). and_then (reset_limit s l) (\<lambda>l'. Inr (k, l'))) (ac_quotaLimits s)) (\<lambda>ls.
     and_then (map_ok (\<lambda>(k, b). and_then (reset_budget (s\<lparr> ac_quotaLimits := ls \<rparr>) b) (\<lambda>b'. Inr (k, b'))) (ac_budgets s)) (\<lambda>bs.
       Inr (s\<lparr> ac_quotaLimits := ls, ac_budgets := bs \<rparr>)))"

definition refresh_totals :: "accounting \<Rightarrow> accounting_error + accounting" where
  "refresh_totals s =
     and_then (reset_totals s) (\<lambda>s1.
     and_then (fold_ok add_charge (map snd (ac_charges s1)) s1) (\<lambda>s2.
     and_then (fold_ok add_reservation (map snd (ac_reservations s2)) s2) (\<lambda>s3.
     and_then (fold_ok add_to_limit (map snd (ac_budgets s3)) s3) (\<lambda>s4.
       Inr (s4\<lparr> ac_quotaLimits := map (\<lambda>(k, l). (k, close_limit l)) (ac_quotaLimits s4) \<rparr>)))))"

section \<open>Costs of an attempt\<close>

definition known_costs :: "accounting \<Rightarrow> reservation \<Rightarrow> accounting_error + rat" where
  "known_costs s r =
     fold_ok (\<lambda>k q. case charges_of s k of None \<Rightarrow> Inr q
       | Some c \<Rightarrow> if ch_attemptId c = re_attemptId r then safe_add q (or_zero (ch_amountMicros c)) else Inr q) (re_chargeKeys r) 0"

definition effective_upper :: "reservation \<Rightarrow> rat" where
  "effective_upper r = (case re_postResponseUpperBound r of Some p \<Rightarrow> pb_amountMicros p | None \<Rightarrow> or_zero (re_upperMicros r))"

definition release_known_costs :: "reservation \<Rightarrow> bool \<Rightarrow> accounting \<Rightarrow> accounting_error + accounting" where
  "release_known_costs r final s =
     and_then (known_costs s r) (\<lambda>known.
       let r' = r\<lparr> re_heldMicros := (if final then 0 else max 0 (effective_upper r - known)), re_amountUnknown := \<not> final,
                   re_state := (if final then RsSettled else RsUnsettled), re_callHeld := False, re_dispatched := True \<rparr>
       in if re_amountMode r = None \<and> (re_postResponseUpperBound r \<noteq> None \<or> re_upperMicros r \<noteq> None) \<and> effective_upper r < known
          then and_then (budget_for s (re_rootBudgetId r)) (\<lambda>b. Inr (put_budget (b\<lparr> bu_overdrawn := True \<rparr>) (put_reservation r' s)))
          else Inr (put_reservation r' s))"

definition rename_keys :: "charge_key \<Rightarrow> charge_key \<Rightarrow> reservation \<Rightarrow> reservation" where
  "rename_keys old new r = r\<lparr> re_chargeKeys := unique_list (map (\<lambda>v. if v = old then new else v) (re_chargeKeys r)) \<rparr>"

definition merge_charge :: "host \<Rightarrow> string \<Rightarrow> charge_key \<Rightarrow> accounting \<Rightarrow> accounting_error + accounting" where
  "merge_charge h execution k s =
     (case charges_of s k of None \<Rightarrow> Inr s
      | Some old \<Rightarrow>
          if ch_executionKey old = execution then Inr s
          else (let new = (ch_quotaScopeId old, execution, ch_component old);
                    move = (\<lambda>t. t\<lparr> ac_charges := map_del k (ac_charges t),
                                   ac_reservations := map (\<lambda>(i, r). (i, rename_keys k new r)) (ac_reservations t) \<rparr>)
                in case charges_of s new of
                     Some e \<Rightarrow>
                       if ch_currency e \<noteq> ch_currency old \<or> ch_usageRevision e = ch_usageRevision old \<and>
                          usage_hash h (ch_amountMicros e) (ch_usage e) \<noteq> usage_hash h (ch_amountMicros old) (ch_usage old)
                       then Inl E_USAGE_CONFLICT
                       else Inr (move (if ch_usageRevision e < ch_usageRevision old
                              then put_charge new (e\<lparr> ch_usageRevision := ch_usageRevision old, ch_amountMicros := ch_amountMicros old,
                                     ch_usage := ch_usage old, ch_kind := ch_kind old \<rparr>) s
                              else s))
                   | None \<Rightarrow> Inr (move (put_charge new (old\<lparr> ch_executionKey := execution \<rparr>) s))))"

text \<open>The reservation is read again after the loop: its charge keys were renamed.\<close>

definition merge_execution :: "host \<Rightarrow> string \<Rightarrow> string \<Rightarrow> accounting \<Rightarrow> accounting_error + accounting" where
  "merge_execution h attempt provider s =
     and_then (required_identity provider) (\<lambda>_.
       case reservations_of s attempt of None \<Rightarrow> Inl E_RESERVATION_MISSING
       | Some r \<Rightarrow>
           (let execution = ''execution:'' @ provider
            in if starts_with ''execution:'' (re_executionKey r) \<and> re_executionKey r \<noteq> execution then Inl E_EXECUTION_CONFLICT
               else and_then (fold_ok (merge_charge h execution) (re_chargeKeys r) s) (\<lambda>t.
                 case reservations_of t attempt of None \<Rightarrow> Inl E_RESERVATION_MISSING
                 | Some r' \<Rightarrow> Inr (put_reservation (r'\<lparr> re_executionKey := execution, re_reportedExecutionId := Some provider \<rparr>) t))))"

end
