(* ===== verification/BudgetCommands.thy ===== *)
theory BudgetCommands
  imports BudgetLedger
begin

text \<open>The commands of the accounting state, branch by branch, and the port that runs them in order.\<close>

section \<open>Limits\<close>

definition no_result :: accounting_result where
  "no_result = \<lparr> ar_budget = None, ar_quotaLimit = None, ar_quotaLimits = None, ar_reservation = None, ar_replayed = False \<rparr>"

definition get_quota_limit :: "string option \<Rightarrow> accounting \<Rightarrow> accounting_result" where
  "get_quota_limit i s =
     no_result\<lparr> ar_quotaLimit := Option.bind (filled i) (limits_of s),
       ar_quotaLimits := Some (filter (\<lambda>l. filled i = None \<or> Some (qd_quotaLimitId l) = i) (map snd (ac_quotaLimits s))) \<rparr>"

definition quota_definition_ok :: "quota_definition \<Rightarrow> bool" where
  "quota_definition_ok d \<longleftrightarrow>
     is_currency (qd_currency d) \<and> exact_amount (qd_maxCostMicros d) \<and> qd_sourceRef d \<noteq> [] \<and> qd_quotaScopeIds d \<noteq> [] \<and>
     list_all (\<lambda>x. x \<noteq> []) (qd_quotaScopeIds d) \<and> (qd_amountMode d \<noteq> Some EstimatedLimit \<or> 1 \<le> qd_maxCostMicros d)"

definition new_limit :: "host \<Rightarrow> quota_definition \<Rightarrow> quota" where
  "new_limit h d =
     quota_definition.extend d
       (quota.fields (if qd_amountMode d = Some EstimatedLimit then Some 0 else None) (qd_amountMode d = Some EstimatedLimit)
          0 0 0 0 None False (hash_of h (quota_json d)) 1)"

definition create_quota_limit :: "host \<Rightarrow> quota_definition \<Rightarrow> accounting \<Rightarrow> accounting_error + accounting \<times> accounting_result" where
  "create_quota_limit h d s =
     and_then (required_identity (qd_quotaLimitId d)) (\<lambda>_.
     and_then (ensure E_GLOBAL_BUDGET_REQUIRED (quota_definition_ok d)) (\<lambda>_.
       case limits_of s (qd_quotaLimitId d) of
         Some l \<Rightarrow> if ql_definitionHash l \<noteq> hash_of h (quota_json d) then Inl E_GLOBAL_BUDGET_CONFLICT
                   else Inr (s, no_result\<lparr> ar_quotaLimit := Some l, ar_replayed := True \<rparr>)
       | None \<Rightarrow> (let l = new_limit h d in Inr (put_limit l s, no_result\<lparr> ar_quotaLimit := Some l \<rparr>))))"

definition halt_quota_limit :: "string \<Rightarrow> string \<Rightarrow> string \<Rightarrow> accounting \<Rightarrow> accounting_error + accounting \<times> accounting_result" where
  "halt_quota_limit i reason evidence s =
     and_then (quota_limit_for s i) (\<lambda>l.
     and_then (ensure E_ACCEPTANCE_EVIDENCE (reason \<noteq> [] \<and> evidence \<noteq> [])) (\<lambda>_.
       let l' = l\<lparr> ql_blockedReason := Some reason, ql_version := ql_version l + 1 \<rparr>
       in Inr (put_limit l' s, no_result\<lparr> ar_quotaLimit := Some l' \<rparr>)))"

section \<open>Budgets\<close>

text \<open>What a command leaves for the totals: the state, the budget, the attempt if any, and whether it was a replay.\<close>

type_synonym pending = "accounting \<times> string \<times> string option \<times> bool"

definition bump_budget :: "budget \<Rightarrow> accounting \<Rightarrow> accounting" where
  "bump_budget b s = put_budget (b\<lparr> bu_version := bu_version b + 1 \<rparr>) s"

definition is_given :: "string option \<Rightarrow> bool" where
  "is_given v \<longleftrightarrow> filled v \<noteq> None"

definition halt_budget :: "string \<Rightarrow> string \<Rightarrow> string \<Rightarrow> accounting \<Rightarrow> accounting_error + pending" where
  "halt_budget i reason evidence s =
     and_then (budget_for s i) (\<lambda>b.
     and_then (ensure E_ACCEPTANCE_EVIDENCE (reason \<noteq> [] \<and> evidence \<noteq> [])) (\<lambda>_.
     let s1 = bump_budget (b\<lparr> bu_blockedReason := Some reason \<rparr>) s
     in if is_given (bd_quotaLimitId b) \<and> reason = ''E_QUOTA''
        then and_then (limit_of s1 b) (\<lambda>ql.
               case ql of None \<Rightarrow> Inr (s1, i, None, False)
               | Some l \<Rightarrow> Inr (put_limit (l\<lparr> ql_blockedReason := Some reason \<rparr>) s1, i, None, False))
        else Inr (s1, i, None, False)))"

definition later_than :: "dates \<Rightarrow> string \<Rightarrow> rat \<Rightarrow> bool" where
  "later_than dates t now = after (date_parse dates t) now"

definition budget_definition_ok :: "dates \<Rightarrow> rat \<Rightarrow> budget_definition \<Rightarrow> bool" where
  "budget_definition_ok dates now d \<longleftrightarrow>
     is_currency (bd_currency d) \<and> bd_sourceRef d \<noteq> [] \<and> exact_amount (bd_maxModelCalls d) \<and> 1 \<le> bd_maxModelCalls d \<and>
     exact_amount (bd_maxOutputTokens d) \<and> 1 \<le> bd_maxOutputTokens d \<and> later_than dates (bd_deadlineAt d) now \<and>
     (case bd_maxCostMicros d of None \<Rightarrow> True | Some q \<Rightarrow> exact_amount q) \<and>
     (bd_mode d \<noteq> Some Hard \<or> bd_maxCostMicros d \<noteq> None) \<and>
     (bd_mode d \<noteq> Some Metered \<or> bd_maxCostMicros d = None \<and> \<not> is_given (bd_quotaLimitId d))"

definition limit_blocked :: "quota \<Rightarrow> bool" where
  "limit_blocked l \<longleftrightarrow> is_given (ql_blockedReason l) \<or> ql_overdrawn l"

definition budget_limit_ok :: "accounting \<Rightarrow> budget_definition \<Rightarrow> accounting_error + unit" where
  "budget_limit_ok s d =
     (case filled (bd_quotaLimitId d) of None \<Rightarrow> Inr ()
      | Some i \<Rightarrow>
          and_then (quota_limit_for s i) (\<lambda>l.
            if qd_currency l \<noteq> bd_currency d then Inl E_CURRENCY_MISMATCH
            else if qd_amountMode l = Some EstimatedLimit \<and> bd_mode d = Some Estimated \<and>
                    (case bd_maxCostMicros d of None \<Rightarrow> True | Some q \<Rightarrow> q < 1) then Inl BUDGET_REQUIRED
            else ensure E_GLOBAL_BUDGET_HALTED (\<not> limit_blocked l)))"

definition new_budget :: "host \<Rightarrow> budget_definition \<Rightarrow> budget" where
  "new_budget h d =
     budget_definition.extend d (budget.fields None 0 0 0 0 False False 1 (hash_of h (budget_json d)) None)"

definition default_mode :: "budget_definition \<Rightarrow> budget_definition" where
  "default_mode d = d\<lparr> bd_mode := Some (case bd_mode d of None \<Rightarrow> Hard | Some m \<Rightarrow> m) \<rparr>"

definition create_budget :: "host \<Rightarrow> dates \<Rightarrow> rat \<Rightarrow> budget_definition \<Rightarrow> accounting \<Rightarrow> accounting_error + pending" where
  "create_budget h dates now v s =
     (let d = default_mode v
      in and_then (required_identity (bd_rootBudgetId d)) (\<lambda>_.
         and_then (ensure BUDGET_REQUIRED (budget_definition_ok dates now d)) (\<lambda>_.
         and_then (budget_limit_ok s d) (\<lambda>_.
           case budgets_of s (bd_rootBudgetId d) of
             Some b \<Rightarrow> if bu_definitionHash b \<noteq> hash_of h (budget_json d) then Inl E_BUDGET_CONFLICT
                       else Inr (s, bd_rootBudgetId d, None, True)
           | None \<Rightarrow> Inr (put_budget (new_budget h d) s, bd_rootBudgetId d, None, False)))))"

section \<open>Reserving\<close>

definition identity_of :: "reservation_input \<Rightarrow> accounting_error + reservation_identity" where
  "identity_of c =
     (case (in_snapshotHash c, in_financialIntentId c) of
        (Some x, None) \<Rightarrow> and_then (required_identity x) (\<lambda>_. Inr (SnapshotIdentity x))
      | (None, Some x) \<Rightarrow>
          and_then (required_identity x) (\<lambda>_. if is_random_uuid x then Inr (FinancialIdentity x) else Inl E_ACCOUNTING_IDENTITY)
      | _ \<Rightarrow> Inl E_ACCOUNTING_IDENTITY)"

definition check_reserve_input :: "reservation_input \<Rightarrow> accounting_error + reservation_identity" where
  "check_reserve_input c =
     (if in_foregroundCallFloor c \<noteq> None \<and> in_foregroundCallFloor c \<noteq> Some 1 then Inl E_ACCOUNTING_RANGE
      else and_then (each_ok required_identity [in_attemptId c, in_actionId c, in_quotaScopeId c]) (\<lambda>_. identity_of c))"

definition bound_unreliable :: "upper_bound \<Rightarrow> bool" where
  "bound_unreliable u \<longleftrightarrow> ub_amountMicros u = None \<or> \<not> ub_reliable u \<or> ub_source u = EstimatedPrice"

definition estimated_mode :: "budget \<Rightarrow> quota option \<Rightarrow> bool" where
  "estimated_mode b ql \<longleftrightarrow> bd_mode b = Some Estimated \<and> (case ql of None \<Rightarrow> False | Some l \<Rightarrow> qd_amountMode l = Some EstimatedLimit)"

definition has_unsettled :: "quota \<Rightarrow> bool" where
  "has_unsettled l \<longleftrightarrow> qd_amountMode l = Some EstimatedLimit \<and> 0 < or_zero (ql_unsettledCalls l)"

definition check_limit_use :: "quota option \<Rightarrow> budget \<Rightarrow> reservation_input \<Rightarrow> accounting_error + unit" where
  "check_limit_use ql b c =
     (case ql of
        None \<Rightarrow> ensure E_GLOBAL_BUDGET_REQUIRED (bd_mode b = Some Metered \<or> ub_source (in_upperBound c) = Fixture)
      | Some l \<Rightarrow> ensure E_GLOBAL_BUDGET_HALTED (in_quotaScopeId c \<in> set (qd_quotaScopeIds l) \<and> \<not> limit_blocked l \<and> \<not> has_unsettled l))"

definition check_bound :: "dates \<Rightarrow> rat \<Rightarrow> quota option \<Rightarrow> budget \<Rightarrow> upper_bound \<Rightarrow> accounting_error + unit" where
  "check_bound dates now ql b u =
     (if ub_currency u \<noteq> bd_currency b then Inl E_CURRENCY_MISMATCH
      else if \<not> (case ub_amountMicros u of None \<Rightarrow> True | Some q \<Rightarrow> exact_amount q) then Inl E_PRICE_UNKNOWN
      else if ub_sourceRef u = [] \<or> (case ub_expiresAt u of None \<Rightarrow> False | Some t \<Rightarrow> \<not> later_than dates t now) then Inl E_PRICE_UNKNOWN
      else if bd_mode b = Some Hard \<and> bound_unreliable u then Inl BUDGET_UNBOUNDED
      else if ql \<noteq> None \<and> \<not> estimated_mode b ql \<and> bound_unreliable u then Inl BUDGET_UNBOUNDED
      else ensure BUDGET_UNBOUNDED (\<not> estimated_mode b ql \<or>
             (case ub_amountMicros u of None \<Rightarrow> False | Some q \<Rightarrow> 1 \<le> q) \<and> (ub_reliable u \<or> ub_source u = EstimatedPrice)))"

definition reject_budget :: "reservation_input \<Rightarrow> accounting_error \<Rightarrow> accounting_error" where
  "reject_budget c e = (if in_foregroundCallFloor c = Some 1 then E_BACKGROUND_BUDGET_DEFERRED e else e)"

text \<open>An unparsable deadline is not up (\<open>NaN <= now\<close> is false).\<close>

definition deadline_reached :: "dates \<Rightarrow> string \<Rightarrow> rat \<Rightarrow> bool" where
  "deadline_reached dates t now = (case date_parse dates t of None \<Rightarrow> False | Some x \<Rightarrow> x \<le> now)"

definition check_room :: "dates \<Rightarrow> rat \<Rightarrow> quota option \<Rightarrow> budget \<Rightarrow> reservation_input \<Rightarrow> accounting_error + unit" where
  "check_room dates now ql b c =
     (let amount = or_zero (ub_amountMicros (in_upperBound c)); calls = bu_spentCalls b + bu_heldCalls b
      in if deadline_reached dates (bd_deadlineAt b) now then Inl E_BUDGET_DEADLINE
         else if is_given (bu_blockedReason b) then Inl E_BUDGET_HALTED
         else if (case ql of None \<Rightarrow> False | Some l \<Rightarrow> qd_maxCostMicros l < ql_spentMicros l + ql_heldMicros l + amount)
         then Inl (reject_budget c E_GLOBAL_BUDGET_EXCEEDED)
         else if bu_overdrawn b \<or> bd_maxModelCalls b \<le> calls \<or> exceeds (bd_maxCostMicros b) (bu_spentMicros b + bu_heldMicros b + amount)
         then Inl (reject_budget c E_BUDGET_EXCEEDED)
         else if in_foregroundCallFloor c = Some 1 \<and> bd_maxModelCalls b < calls + 2 then Inl (reject_budget c E_BUDGET_EXCEEDED)
         else Inr ())"

definition action_attempts :: "accounting \<Rightarrow> string \<Rightarrow> string \<Rightarrow> reservation list" where
  "action_attempts s i action = filter (\<lambda>r. re_rootBudgetId r = i \<and> re_actionId r = action) (map snd (ac_reservations s))"

definition new_reservation :: "host \<Rightarrow> quota option \<Rightarrow> budget \<Rightarrow> reservation_identity \<Rightarrow> reservation_input \<Rightarrow> reservation" where
  "new_reservation h ql b x c =
     (let u = in_upperBound c
      in \<lparr> re_amountMode = (if bd_mode b = Some Metered then Some MeteredAmount
                            else if estimated_mode b ql then Some EstimatedAmount else None),
           re_attemptId = in_attemptId c, re_rootBudgetId = in_rootBudgetId c, re_actionId = in_actionId c,
           re_quotaScopeId = in_quotaScopeId c, re_identity = x, re_upperMicros = ub_amountMicros u, re_originalUpperBound = u,
           re_postResponseUpperBound = None, re_heldMicros = or_zero (ub_amountMicros u),
           re_amountUnknown = (ub_amountMicros u = None \<or> \<not> ub_reliable u), re_state = RsReserved, re_dispatched = False,
           re_callHeld = True, re_intentHash = hash_of h (reserve_json c), re_executionKey = ''attempt:'' @ in_attemptId c,
           re_reportedExecutionId = None, re_chargeKeys = [], re_evidenceRef = None, re_version = 1, re_expiresAt = ub_expiresAt u \<rparr>)"

text \<open>A replayed reservation returns at once (\<open>Inl\<close> the stored one), before any total is refreshed.\<close>

definition reserve :: "host \<Rightarrow> dates \<Rightarrow> rat \<Rightarrow> reservation_input \<Rightarrow> accounting \<Rightarrow> accounting_error + (budget \<times> reservation) + pending" where
  "reserve h dates now c s =
     and_then (check_reserve_input c) (\<lambda>x.
     and_then (budget_for s (in_rootBudgetId c)) (\<lambda>b.
       case reservations_of s (in_attemptId c) of
         Some r \<Rightarrow> if re_intentHash r \<noteq> hash_of h (reserve_json c) then Inl E_ATTEMPT_CONFLICT else Inr (Inl (b, r))
       | None \<Rightarrow>
           if in_financialIntentId c \<noteq> None \<and> list_ex (\<lambda>r. re_identity r = x) (map snd (ac_reservations s)) then Inl E_ATTEMPT_CONFLICT
           else and_then (limit_of s b) (\<lambda>ql.
                and_then (check_limit_use ql b c) (\<lambda>_.
                and_then (check_bound dates now ql b (in_upperBound c)) (\<lambda>_.
                and_then (check_room dates now ql b c) (\<lambda>_.
                  if 3 \<le> length (action_attempts s (in_rootBudgetId c) (in_actionId c)) then Inl E_ATTEMPT_LIMIT
                  else Inr (Inr (bump_budget b (put_reservation (new_reservation h ql b x c) s),
                              in_rootBudgetId c, Some (in_attemptId c), False))))))))"

section \<open>Sending and ending an attempt\<close>

definition dispatch_attempt :: "dates \<Rightarrow> rat \<Rightarrow> reservation \<Rightarrow> budget \<Rightarrow> accounting \<Rightarrow> accounting_error + accounting \<times> bool" where
  "dispatch_attempt dates now r b s =
     (if re_state r = RsDispatched then Inr (s, True)
      else if re_state r \<noteq> RsReserved then Inl E_ATTEMPT_STATE
      else if deadline_reached dates (bd_deadlineAt b) now \<or> bu_overdrawn b \<or> is_given (bu_blockedReason b) then Inl E_BUDGET_EXCEEDED
      else if (case filled (re_expiresAt r) of None \<Rightarrow> False | Some t \<Rightarrow> deadline_reached dates t now) then Inl E_PRICE_UNKNOWN
      else and_then (limit_of s b) (\<lambda>ql.
             if (case ql of None \<Rightarrow> False | Some l \<Rightarrow> limit_blocked l \<or> has_unsettled l) then Inl E_GLOBAL_BUDGET_HALTED
             else Inr (put_reservation (r\<lparr> re_dispatched := True, re_callHeld := False, re_state := RsDispatched \<rparr>) s, False)))"

definition mark_unknown :: "reservation \<Rightarrow> accounting \<Rightarrow> accounting_error + accounting \<times> bool" where
  "mark_unknown r s =
     (if re_state r = RsSettled \<or> re_state r = RsRejected then Inl E_ATTEMPT_STATE
      else Inr (put_reservation (r\<lparr> re_state := RsUnknown, re_amountUnknown := True, re_dispatched := True, re_callHeld := False \<rparr>) s, False))"

definition reject_attempt :: "string \<Rightarrow> reservation \<Rightarrow> accounting \<Rightarrow> accounting_error + accounting \<times> bool" where
  "reject_attempt evidence r s =
     (if evidence = [] then Inl E_ACCEPTANCE_EVIDENCE
      else if re_chargeKeys r \<noteq> [] then Inl E_USAGE_CONFLICT
      else Inr (put_reservation (r\<lparr> re_state := RsRejected, re_amountUnknown := False, re_heldMicros := 0, re_callHeld := False,
                  re_evidenceRef := Some evidence \<rparr>) s, False))"

text \<open>The reservation as the state has it now (it is in the table: the callers have just put it there).\<close>

definition current_reservation :: "reservation \<Rightarrow> accounting \<Rightarrow> reservation" where
  "current_reservation r s = (case reservations_of s (re_attemptId r) of None \<Rightarrow> r | Some x \<Rightarrow> x)"

definition reconcile :: "host \<Rightarrow> string \<Rightarrow> string \<Rightarrow> reservation \<Rightarrow> accounting \<Rightarrow> accounting_error + accounting \<times> bool" where
  "reconcile h provider evidence r s =
     (if evidence = [] then Inl E_ACCEPTANCE_EVIDENCE
      else and_then (merge_execution h (re_attemptId r) provider s) (\<lambda>t.
             Inr (put_reservation ((current_reservation r t)\<lparr> re_evidenceRef := Some evidence \<rparr>) t, False)))"

section \<open>Settling\<close>

definition narrowed_ok :: "response_bound \<Rightarrow> rat \<Rightarrow> budget \<Rightarrow> reservation \<Rightarrow> bool" where
  "narrowed_ok p revision b r \<longleftrightarrow>
     pb_currency p = bd_currency b \<and> pb_usageRevision p = revision \<and> pb_sourceRef p \<noteq> [] \<and> pb_priceVersion p \<noteq> [] \<and>
     exact_amount (pb_amountMicros p) \<and> (case re_upperMicros r of None \<Rightarrow> False | Some u \<Rightarrow> pb_amountMicros p \<le> u) \<and>
     exact_amount (pb_inputTokens p) \<and> exact_amount (pb_originalMaxOutputTokens p) \<and> 1 \<le> pb_originalMaxOutputTokens p \<and>
     exact_amount (pb_boundedRemainingTokens p) \<and>
     (case pb_method p of
        ReportedTotalTokens \<Rightarrow>
          (case pb_reportedTotalTokens p of None \<Rightarrow> False
           | Some t \<Rightarrow> exact_amount t \<and> pb_inputTokens p \<le> t \<and> pb_boundedRemainingTokens p = t - pb_inputTokens p)
      | OriginalOutputCap \<Rightarrow> pb_reportedTotalTokens p = None \<and> pb_boundedRemainingTokens p = pb_originalMaxOutputTokens p)"

definition narrow_bound :: "host \<Rightarrow> rat \<Rightarrow> budget \<Rightarrow> response_bound \<Rightarrow> reservation \<Rightarrow> accounting_error + reservation" where
  "narrow_bound h revision b p r =
     (if \<not> narrowed_ok p revision b r then Inl E_UPPER_BOUND_CONFLICT
      else and_then (each_ok required_identity [pb_sourceRef p, pb_priceVersion p]) (\<lambda>_.
        if (case re_postResponseUpperBound r of None \<Rightarrow> False
            | Some q \<Rightarrow> pb_usageRevision p < pb_usageRevision q \<or> pb_amountMicros q < pb_amountMicros p \<or>
                pb_usageRevision p = pb_usageRevision q \<and> hash_of h (response_json p) \<noteq> hash_of h (response_json q))
        then Inl E_UPPER_BOUND_CONFLICT else Inr (r\<lparr> re_postResponseUpperBound := Some p \<rparr>)))"

definition charge_input_ok :: "host \<Rightarrow> budget \<Rightarrow> charge_input \<Rightarrow> accounting_error + unit" where
  "charge_input_ok h b c =
     and_then (required_identity (ci_component c)) (\<lambda>_.
     and_then (ensure E_CURRENCY_MISMATCH (ci_currency c = bd_currency b \<or> bd_mode b = Some Metered)) (\<lambda>_.
     and_then (ensure E_PRICE_UNKNOWN (case ci_amountMicros c of None \<Rightarrow> True | Some q \<Rightarrow> exact_amount q)) (\<lambda>_.
       ensure E_USAGE_LIMIT (int (utf8_length (canonical_text h (ci_usage c))) \<le> 65536))))"

definition new_charge :: "rat \<Rightarrow> reservation \<Rightarrow> charge_input \<Rightarrow> charge" where
  "new_charge revision r c =
     \<lparr> ch_quotaScopeId = re_quotaScopeId r, ch_executionKey = re_executionKey r, ch_component = ci_component c,
       ch_attemptId = re_attemptId r, ch_rootBudgetId = re_rootBudgetId r, ch_usageRevision = revision, ch_amountMicros = ci_amountMicros c,
       ch_currency = ci_currency c, ch_usage = ci_usage c, ch_kind = ci_kind c \<rparr>"

text \<open>A later report replaces the known charge of a component; \<open>True\<close> says that the report was a replay.\<close>

definition update_charge :: "host \<Rightarrow> budget \<Rightarrow> rat \<Rightarrow> charge_input \<Rightarrow> charge \<Rightarrow> accounting_error + charge \<times> bool" where
  "update_charge h b revision c e =
     (if revision < ch_usageRevision e then Inl E_USAGE_STALE
      else if ch_currency e \<noteq> ci_currency c \<and>
        \<not> (bd_mode b = Some Metered \<and> ch_currency e = ''XXX'' \<and> ch_amountMicros e = None \<and> ch_usageRevision e < revision \<and> is_currency (ci_currency c))
      then Inl E_CURRENCY_MISMATCH
      else if revision = ch_usageRevision e
      then if usage_hash h (ci_amountMicros c) (ci_usage c) \<noteq> usage_hash h (ch_amountMicros e) (ch_usage e) then Inl E_USAGE_CONFLICT
           else Inr (e, True)
      else if ch_amountMicros e \<noteq> None \<and> ci_amountMicros c = None then Inl E_USAGE_CONFLICT
      else Inr (e\<lparr> ch_usageRevision := revision, ch_amountMicros := ci_amountMicros c, ch_currency := ci_currency c,
                  ch_usage := ci_usage c, ch_kind := ci_kind c \<rparr>, False))"

definition charge_id :: "reservation \<Rightarrow> charge_input \<Rightarrow> charge_key" where
  "charge_id r c = (re_quotaScopeId r, re_executionKey r, ci_component c)"

definition add_key :: "charge_key \<Rightarrow> reservation \<Rightarrow> reservation" where
  "add_key k r = (if k \<in> set (re_chargeKeys r) then r else r\<lparr> re_chargeKeys := re_chargeKeys r @ [k] \<rparr>)"

text \<open>The loop over the reported charges carries the charge table, the reservation and the replay flag.\<close>

definition settle_charge :: "host \<Rightarrow> budget \<Rightarrow> rat \<Rightarrow> charge_input \<Rightarrow>
    (charge_key \<times> charge) list \<times> reservation \<times> bool \<Rightarrow> accounting_error + (charge_key \<times> charge) list \<times> reservation \<times> bool" where
  "settle_charge h b revision c = (\<lambda>(cs, r, replayed).
     and_then (charge_input_ok h b c) (\<lambda>_.
       case map_of cs (charge_id r c) of
         Some e \<Rightarrow> and_then (update_charge h b revision c e) (\<lambda>(e', again).
                     Inr (map_put (charge_id r c) e' cs, add_key (charge_id r c) r, replayed \<or> again))
       | None \<Rightarrow> Inr (map_put (charge_id r c) (new_charge revision r c) cs, add_key (charge_id r c) r, replayed)))"

definition same_execution :: "reservation \<Rightarrow> charge \<Rightarrow> bool" where
  "same_execution r c \<longleftrightarrow> ch_quotaScopeId c = re_quotaScopeId r \<and> ch_executionKey c = re_executionKey r"

definition join_keys :: "charge_key list \<Rightarrow> reservation \<Rightarrow> reservation" where
  "join_keys ks r = r\<lparr> re_chargeKeys := unique_list (re_chargeKeys r @ ks) \<rparr>"

definition is_related :: "reservation \<Rightarrow> reservation \<Rightarrow> bool" where
  "is_related r x \<longleftrightarrow>
     re_attemptId x \<noteq> re_attemptId r \<and> re_quotaScopeId x = re_quotaScopeId r \<and> re_executionKey x = re_executionKey r \<and>
     re_state x \<in> set [RsUnsettled, RsUnknown, RsDispatched]"

definition bump_reservation :: "reservation \<Rightarrow> accounting \<Rightarrow> accounting" where
  "bump_reservation r s = put_reservation ((current_reservation r s)\<lparr> re_version := re_version (current_reservation r s) + 1 \<rparr>) s"

definition settle_related :: "reservation \<Rightarrow> bool \<Rightarrow> reservation \<Rightarrow> accounting \<Rightarrow> accounting_error + accounting" where
  "settle_related r final x s =
     (if is_related r x
      then and_then (release_known_costs (join_keys (re_chargeKeys r) x) final s) (\<lambda>t. Inr (bump_reservation x t))
      else Inr s)"

definition adopt_execution :: "host \<Rightarrow> settle_command \<Rightarrow> reservation \<Rightarrow> accounting \<Rightarrow> accounting_error + accounting" where
  "adopt_execution h c r s =
     (case filled (sc_providerExecutionId c) of None \<Rightarrow> Inr (put_reservation r s)
      | Some x \<Rightarrow>
          (let t = put_reservation (r\<lparr> re_reportedExecutionId := Some x \<rparr>) s
           in if starts_with ''unverified-provider:'' (re_quotaScopeId r) then Inr t else merge_execution h (re_attemptId r) x t))"

definition check_settle :: "settle_command \<Rightarrow> reservation \<Rightarrow> accounting_error + unit" where
  "check_settle c r =
     (if re_state r = RsSettled \<and> \<not> sc_complete c then Inl E_USAGE_CONFLICT
      else if \<not> distinct (map ci_component (sc_charges c)) then Inl E_USAGE_CONFLICT
      else ensure E_USAGE_INCOMPLETE (\<not> sc_complete c \<or> sc_charges c \<noteq> [] \<and> list_all (\<lambda>x. ci_amountMicros x \<noteq> None) (sc_charges c)))"

definition settle_attempt :: "host \<Rightarrow> settle_command \<Rightarrow> reservation \<Rightarrow> budget \<Rightarrow> accounting \<Rightarrow> accounting_error + accounting \<times> bool" where
  "settle_attempt h c r0 b s =
     and_then (ensure E_USAGE_CONFLICT (exact_amount (sc_usageRevision c) \<and> 1 \<le> sc_usageRevision c \<and> re_state r0 \<noteq> RsRejected)) (\<lambda>_.
     and_then (case sc_postResponseUpperBound c of None \<Rightarrow> Inr r0 | Some p \<Rightarrow> narrow_bound h (sc_usageRevision c) b p r0) (\<lambda>r1.
     and_then (adopt_execution h c r1 s) (\<lambda>s2.
     let r2 = current_reservation r1 s2
     in and_then (check_settle c r2) (\<lambda>_.
        and_then (fold_ok (settle_charge h b (sc_usageRevision c)) (sc_charges c) (ac_charges s2, r2, False)) (\<lambda>(cs, r3, replayed).
        let r4 = join_keys (map fst (filter (\<lambda>(_, e). same_execution r3 e) cs)) r3; s4 = s2\<lparr> ac_charges := cs \<rparr>
        in if sc_complete c \<and> list_ex (\<lambda>k. map_option ch_amountMicros (map_of cs k) = Some None) (re_chargeKeys r4) then Inl E_USAGE_INCOMPLETE
           else and_then (release_known_costs r4 (sc_complete c) s4) (\<lambda>s5.
                and_then (fold_ok (settle_related r4 (sc_complete c)) (map snd (ac_reservations s5)) s5) (\<lambda>s6. Inr (s6, replayed))))))))"

section \<open>A command\<close>

definition attempt_command :: "host \<Rightarrow> dates \<Rightarrow> rat \<Rightarrow> string \<Rightarrow>
    (reservation \<Rightarrow> budget \<Rightarrow> accounting \<Rightarrow> accounting_error + accounting \<times> bool) \<Rightarrow> accounting \<Rightarrow> accounting_error + pending" where
  "attempt_command h dates now i f s =
     (case reservations_of s i of None \<Rightarrow> Inl E_RESERVATION_MISSING
      | Some r \<Rightarrow>
          and_then (budget_for s (re_rootBudgetId r)) (\<lambda>b.
          and_then (f r b s) (\<lambda>(t, replayed).
          and_then (budget_for t (re_rootBudgetId r)) (\<lambda>b'.
            Inr (bump_budget b' (bump_reservation r t), re_rootBudgetId r, Some i, replayed)))))"

text \<open>
  The version of a budget or limit moves exactly when anything else of it has changed: the code compares the
  canonical texts, which are equal for equal values only.
\<close>

definition budget_version :: "accounting \<Rightarrow> string \<times> budget \<Rightarrow> string \<times> budget" where
  "budget_version previous = (\<lambda>(k, b).
     case budgets_of previous k of None \<Rightarrow> (k, b)
     | Some old \<Rightarrow> (k, b\<lparr> bu_version := (if old\<lparr> bu_version := 0 \<rparr> = b\<lparr> bu_version := 0 \<rparr> then bu_version old else bu_version old + 1) \<rparr>))"

definition limit_version :: "accounting \<Rightarrow> string \<times> quota \<Rightarrow> string \<times> quota" where
  "limit_version previous = (\<lambda>(k, l).
     case limits_of previous k of None \<Rightarrow> (k, l)
     | Some old \<Rightarrow> (k, l\<lparr> ql_version := (if old\<lparr> ql_version := 0 \<rparr> = l\<lparr> ql_version := 0 \<rparr> then ql_version old else ql_version old + 1) \<rparr>))"

definition finish_command :: "accounting \<Rightarrow> pending \<Rightarrow> accounting_error + accounting \<times> accounting_result" where
  "finish_command previous = (\<lambda>(s, i, attempt, replayed).
     and_then (refresh_totals s) (\<lambda>t.
     let u = t\<lparr> ac_budgets := map (budget_version previous) (ac_budgets t), ac_quotaLimits := map (limit_version previous) (ac_quotaLimits t) \<rparr>
     in and_then (budget_for u i) (\<lambda>b.
        and_then (limit_of u b) (\<lambda>ql.
          Inr (u, \<lparr> ar_budget = Some b, ar_quotaLimit = ql, ar_quotaLimits = None,
                   ar_reservation = Option.bind attempt (reservations_of u), ar_replayed = replayed \<rparr>)))))"

definition apply_accounting_command :: "host \<Rightarrow> dates \<Rightarrow> accounting \<Rightarrow> accounting_command \<Rightarrow> rat \<Rightarrow> accounting_error + accounting \<times> accounting_result" where
  "apply_accounting_command h dates s c now =
     (if ac_schemaVersion s \<noteq> 1 then Inl E_SCHEMA_VERSION
      else case c of
        GetQuotaLimit i \<Rightarrow> Inr (s, get_quota_limit i s)
      | CreateQuotaLimit d \<Rightarrow> create_quota_limit h d s
      | HaltQuotaLimit i reason evidence \<Rightarrow> halt_quota_limit i reason evidence s
      | HaltBudget i reason evidence \<Rightarrow> and_then (halt_budget i reason evidence s) (finish_command s)
      | CreateBudget d \<Rightarrow> and_then (create_budget h dates now d s) (finish_command s)
      | Reserve i \<Rightarrow>
          and_then (reserve h dates now i s) (\<lambda>x. case x of
            Inl (b, r) \<Rightarrow> Inr (s, no_result\<lparr> ar_budget := Some b, ar_reservation := Some r, ar_replayed := True \<rparr>)
          | Inr p \<Rightarrow> finish_command s p)
      | MarkDispatched i \<Rightarrow> and_then (attempt_command h dates now i (dispatch_attempt dates now) s) (finish_command s)
      | MarkUnknown i \<Rightarrow> and_then (attempt_command h dates now i (\<lambda>r b. mark_unknown r) s) (finish_command s)
      | RejectAttempt i _ evidence \<Rightarrow> and_then (attempt_command h dates now i (\<lambda>r b. reject_attempt evidence r) s) (finish_command s)
      | Settle k \<Rightarrow> and_then (attempt_command h dates now (sc_attemptId k) (settle_attempt h k) s) (finish_command s)
      | Reconcile i provider evidence \<Rightarrow>
          and_then (attempt_command h dates now i (\<lambda>r b. reconcile h provider evidence r) s) (finish_command s))"

section \<open>The port\<close>

text \<open>
  The memory port runs the queued commands one after the other, each at the time of its start; a command that
  throws rejects its promise and leaves the state.
\<close>

definition execute_command :: "host \<Rightarrow> dates \<Rightarrow> accounting_command \<times> rat \<Rightarrow> accounting \<Rightarrow> (accounting_error + accounting_result) \<times> accounting" where
  "execute_command h dates = (\<lambda>(c, now) s.
     case apply_accounting_command h dates s c now of Inl e \<Rightarrow> (Inl e, s) | Inr (t, r) \<Rightarrow> (Inr r, t))"

fun run_commands :: "host \<Rightarrow> dates \<Rightarrow> (accounting_command \<times> rat) list \<Rightarrow> accounting \<Rightarrow> accounting" where
  "run_commands h dates [] s = s"
| "run_commands h dates (c # cs) s = run_commands h dates cs (snd (execute_command h dates c s))"

record budget_view =
  bv_budget :: budget
  bv_reservations :: "reservation list"
  bv_charges :: "charge list"
  bv_quotaLimit :: "quota option"

definition read_budget :: "accounting \<Rightarrow> string \<Rightarrow> accounting_error + budget_view" where
  "read_budget s i =
     and_then (budget_for s i) (\<lambda>b.
     and_then (limit_of s b) (\<lambda>ql.
       Inr \<lparr> bv_budget = b, bv_reservations = filter (\<lambda>r. re_rootBudgetId r = i) (map snd (ac_reservations s)),
             bv_charges = filter (\<lambda>c. ch_rootBudgetId c = i) (map snd (ac_charges s)), bv_quotaLimit = ql \<rparr>))"

end
