(* ===== verification/BudgetFacts.thy ===== *)
theory BudgetFacts
  imports BudgetCommands
begin

text \<open>
  Facts about the accounting state: what a command may do to budgets and reservations before the totals are
  refreshed, and what the refreshed totals are.
\<close>

section \<open>Loops and tables\<close>

lemma fold_ok_invariant:
  assumes "fold_ok f xs s = Inr t" "P s" "\<And>x s t. x \<in> set xs \<Longrightarrow> P s \<Longrightarrow> f x s = Inr t \<Longrightarrow> P t"
  shows "P t"
  using assms by (induction xs arbitrary: s) (auto simp: result_simps)

lemma sum_map_put:
  fixes f :: "'v \<Rightarrow> rat"
  shows "sum_list (map (\<lambda>x. f (snd x)) (map_put k v m)) =
    sum_list (map (\<lambda>x. f (snd x)) m) + f v - (case map_of m k of None \<Rightarrow> 0 | Some w \<Rightarrow> f w)"
  by (induction m) auto

lemma set_map_put: "(a, b) \<in> set (map_put k v m) \<Longrightarrow> (a, b) \<in> set m \<or> a = k \<and> b = v"
  by (induction m) (auto split: if_splits)

lemma keys_map_put_old: "map_of m k \<noteq> None \<Longrightarrow> map fst (map_put k v m) = map fst m"
  by (induction m) auto

section \<open>Frames\<close>

text \<open>A command keeps the definition of a budget, and never takes a stop or an overdraft back.\<close>

definition budget_frame :: "budget \<Rightarrow> budget \<Rightarrow> bool" where
  "budget_frame b b' \<longleftrightarrow>
     budget_definition.truncate b' = budget_definition.truncate b \<and> (bu_overdrawn b \<longrightarrow> bu_overdrawn b') \<and>
     (is_given (bu_blockedReason b) \<longrightarrow> is_given (bu_blockedReason b'))"

lemma budget_frame_refl [simp]: "budget_frame b b"
  by (simp add: budget_frame_def)

lemma budget_frame_trans: "budget_frame a b \<Longrightarrow> budget_frame b c \<Longrightarrow> budget_frame a c"
  by (simp add: budget_frame_def)

lemma truncate_budget:
  "budget_definition.truncate (b :: budget) = budget_definition.truncate (b' :: budget) \<longleftrightarrow>
     bd_rootBudgetId b = bd_rootBudgetId b' \<and> bd_mode b = bd_mode b' \<and> bd_currency b = bd_currency b' \<and>
     bd_maxCostMicros b = bd_maxCostMicros b' \<and> bd_maxModelCalls b = bd_maxModelCalls b' \<and> bd_maxOutputTokens b = bd_maxOutputTokens b' \<and>
     bd_deadlineAt b = bd_deadlineAt b' \<and> bd_sourceRef b = bd_sourceRef b' \<and> bd_quotaLimitId b = bd_quotaLimitId b'"
  by (auto simp: budget_definition.truncate_def)

definition has_call :: "reservation \<Rightarrow> bool" where
  "has_call r \<longleftrightarrow> re_dispatched r \<or> re_callHeld r"

text \<open>A reservation holds its call or has spent it, never both; only a rejected one may have given it back.\<close>

definition reservation_ok :: "reservation \<Rightarrow> bool" where
  "reservation_ok r \<longleftrightarrow> \<not> (re_dispatched r \<and> re_callHeld r) \<and> (re_state r = RsRejected \<or> has_call r) \<and> 0 \<le> re_heldMicros r"

definition progress :: "reservation \<Rightarrow> reservation \<Rightarrow> bool" where
  "progress r r' \<longleftrightarrow>
     re_attemptId r' = re_attemptId r \<and> re_rootBudgetId r' = re_rootBudgetId r \<and> re_actionId r' = re_actionId r \<and>
     re_intentHash r' = re_intentHash r \<and> (has_call r' \<longrightarrow> has_call r) \<and> (reservation_ok r \<longrightarrow> reservation_ok r')"

lemma progress_refl [simp]: "progress r r"
  by (simp add: progress_def)

lemma progress_trans: "progress a b \<Longrightarrow> progress b c \<Longrightarrow> progress a c"
  by (simp add: progress_def)

section \<open>Well-formed tables\<close>

definition tables_ok :: "accounting \<Rightarrow> bool" where
  "tables_ok s \<longleftrightarrow>
     ac_schemaVersion s = 1 \<and>
     distinct (map fst (ac_budgets s)) \<and> list_all (\<lambda>(k, b). bd_rootBudgetId b = k) (ac_budgets s) \<and>
     distinct (map fst (ac_reservations s)) \<and> list_all (\<lambda>(k, r). re_attemptId r = k \<and> reservation_ok r) (ac_reservations s)"

lemma budget_key: "tables_ok s \<Longrightarrow> budgets_of s i = Some b \<Longrightarrow> bd_rootBudgetId b = i"
  by (auto simp: tables_ok_def list_all_iff dest!: map_of_SomeD)

lemma reservation_key: "tables_ok s \<Longrightarrow> reservations_of s i = Some r \<Longrightarrow> re_attemptId r = i \<and> reservation_ok r"
  by (auto simp: tables_ok_def list_all_iff dest!: map_of_SomeD)

lemma list_all_map_put: "list_all P m \<Longrightarrow> P (k, v) \<Longrightarrow> list_all P (map_put k v m)"
  by (auto simp: list_all_iff dest!: set_map_put)

lemma tables_put_budget: "tables_ok s \<Longrightarrow> tables_ok (put_budget b s)"
  by (simp add: tables_ok_def put_budget_def distinct_map_put list_all_map_put)

lemma tables_put_reservation: "tables_ok s \<Longrightarrow> reservation_ok r \<Longrightarrow> tables_ok (put_reservation r s)"
  by (simp add: tables_ok_def put_reservation_def distinct_map_put list_all_map_put)

lemma tables_put_limit: "tables_ok (put_limit l s) \<longleftrightarrow> tables_ok s"
  by (simp add: tables_ok_def put_limit_def)

section \<open>Moves\<close>

text \<open>What every command on an attempt does to the tables: the same rows, each of them in its frame.\<close>

definition row :: "('v \<Rightarrow> 'v \<Rightarrow> bool) \<Rightarrow> 'k \<times> 'v \<Rightarrow> 'k \<times> 'v \<Rightarrow> bool" where
  "row R a b \<longleftrightarrow> fst a = fst b \<and> R (snd a) (snd b)"

lemma row_pair [simp]: "row R (i, x) (j, y) \<longleftrightarrow> i = j \<and> R x y"
  by (simp add: row_def)

definition moves :: "accounting \<Rightarrow> accounting \<Rightarrow> bool" where
  "moves s t \<longleftrightarrow> tables_ok t \<and> list_all2 (row budget_frame) (ac_budgets s) (ac_budgets t) \<and>
     list_all2 (row progress) (ac_reservations s) (ac_reservations t)"

lemma rows_refl: "(\<And>x. R x x) \<Longrightarrow> list_all2 (row R) m m"
  by (simp add: list.rel_refl row_def)

lemma rows_trans:
  assumes "list_all2 (row R) l m" "list_all2 (row R) m n" "\<And>x y z. R x y \<Longrightarrow> R y z \<Longrightarrow> R x z"
  shows "list_all2 (row R) l n"
  by (rule list_all2_trans [OF _ assms(1,2)]) (use assms(3) in \<open>auto simp: row_def\<close>)

lemma moves_refl: "tables_ok s \<Longrightarrow> moves s s"
  by (simp add: moves_def rows_refl)

lemma moves_trans:
  assumes "moves r s" "moves s t"
  shows "moves r t"
proof -
  have "list_all2 (row budget_frame) (ac_budgets r) (ac_budgets t)"
    by (rule rows_trans [of _ _ "ac_budgets s"]) (use assms budget_frame_trans in \<open>auto simp: moves_def\<close>)
  moreover have "list_all2 (row progress) (ac_reservations r) (ac_reservations t)"
    by (rule rows_trans [of _ _ "ac_reservations s"]) (use assms progress_trans in \<open>auto simp: moves_def\<close>)
  ultimately show ?thesis using assms(2) by (simp add: moves_def)
qed

lemma moves_tables: "moves s t \<Longrightarrow> tables_ok t"
  by (simp add: moves_def)

lemma rows_put:
  assumes "map_of m k = Some w" "R w v" "\<And>x. R x x"
  shows "list_all2 (row R) m (map_put k v m)"
  using assms(1)
proof (induction m)
  case (Cons e m)
  have "list_all2 (row R) m m" by (rule rows_refl) (rule assms(3))
  with Cons assms(2,3) show ?case by (cases e) (auto split: if_splits)
qed simp

lemma rows_map_of:
  assumes "list_all2 (row R) m n"
  shows "rel_option R (map_of m k) (map_of n k)"
  using assms by (induction m n rule: list_all2_induct) (auto simp: row_def)

lemma rows_keys: "list_all2 (row R) m n \<Longrightarrow> map fst m = map fst n"
  by (induction m n rule: list_all2_induct) (auto simp: row_def)

lemma put_budget_moves:
  assumes "tables_ok s" "budgets_of s i = Some b" "budget_frame b b'"
  shows "moves s (put_budget b' s)"
proof -
  have "bd_rootBudgetId b' = i" using budget_key [OF assms(1,2)] assms(3) by (simp add: budget_frame_def truncate_budget)
  moreover have "list_all2 (row budget_frame) (ac_budgets s) (map_put i b' (ac_budgets s))"
    by (rule rows_put) (use assms in simp_all)
  ultimately show ?thesis using tables_put_budget [OF assms(1), of b'] by (simp add: moves_def put_budget_def rows_refl)
qed

lemma put_reservation_moves:
  assumes "tables_ok s" "reservations_of s i = Some r" "progress r r'"
  shows "moves s (put_reservation r' s)"
proof -
  have r: "re_attemptId r = i" "reservation_ok r" using reservation_key [OF assms(1,2)] by simp_all
  have "re_attemptId r' = i" "reservation_ok r'" using r assms(3) by (simp_all add: progress_def)
  moreover have "list_all2 (row progress) (ac_reservations s) (map_put i r' (ac_reservations s))"
    by (rule rows_put) (use assms in simp_all)
  ultimately show ?thesis using tables_put_reservation [OF assms(1), of r'] by (simp add: moves_def put_reservation_def rows_refl)
qed

lemma charges_moves: "tables_ok s \<Longrightarrow> moves s (s\<lparr> ac_charges := cs \<rparr>)"
  using moves_refl [of s] by (simp add: moves_def tables_ok_def)

lemma moves_reservation:
  assumes "moves s t" "reservations_of s i = Some r"
  obtains r' where "reservations_of t i = Some r'" "progress r r'"
  using assms rows_map_of [of progress "ac_reservations s" "ac_reservations t" i]
  by (auto simp: moves_def option_rel_Some1)

lemma moves_budget:
  assumes "moves s t" "budgets_of s i = Some b"
  obtains b' where "budgets_of t i = Some b'" "budget_frame b b'"
  using assms rows_map_of [of budget_frame "ac_budgets s" "ac_budgets t" i]
  by (auto simp: moves_def option_rel_Some1)

section \<open>The commands on an attempt\<close>

lemma budget_for_Inr [simp]: "budget_for s i = Inr b \<longleftrightarrow> budgets_of s i = Some b"
  by (simp add: budget_for_def split: option.splits)

lemma release_moves:
  assumes "release_known_costs r' final s = Inr t" "tables_ok s" "reservations_of s i = Some r" "progress r r'" "re_state r' \<noteq> RsRejected"
  shows "moves s t"
proof -
  define q where "q known = r'\<lparr> re_heldMicros := (if final then 0 else max 0 (effective_upper r' - known)), re_amountUnknown := \<not> final,
                   re_state := (if final then RsSettled else RsUnsettled), re_callHeld := False, re_dispatched := True \<rparr>" for known
  have ok: "reservation_ok r" "re_attemptId r = i" using reservation_key [OF assms(2,3)] by simp_all
  then have "reservation_ok r'" using assms(4) by (simp add: progress_def)
  then have "has_call r'" using assms(5) by (simp add: reservation_ok_def)
  then have "progress r (q known)" for known
    using assms(4) ok by (simp add: progress_def q_def has_call_def reservation_ok_def)
  then have put: "moves s (put_reservation (q known) s)" for known by (rule put_reservation_moves [OF assms(2,3)])
  obtain known where "(if re_amountMode r' = None \<and> (re_postResponseUpperBound r' \<noteq> None \<or> re_upperMicros r' \<noteq> None) \<and> effective_upper r' < known
      then and_then (budget_for s (re_rootBudgetId r')) (\<lambda>b. Inr (put_budget (b\<lparr> bu_overdrawn := True \<rparr>) (put_reservation (q known) s)))
      else Inr (put_reservation (q known) s)) = Inr t"
    using assms(1) unfolding release_known_costs_def and_then_Inr Let_def q_def by blast
  then have "t = put_reservation (q known) s \<or>
     (\<exists>b. budgets_of s (re_rootBudgetId r') = Some b \<and> t = put_budget (b\<lparr> bu_overdrawn := True \<rparr>) (put_reservation (q known) s))"
    by (auto simp: result_simps split: if_splits)
  then show ?thesis
  proof
    assume "\<exists>b. budgets_of s (re_rootBudgetId r') = Some b \<and> t = put_budget (b\<lparr> bu_overdrawn := True \<rparr>) (put_reservation (q known) s)"
    then obtain b where b: "budgets_of s (re_rootBudgetId r') = Some b" and t: "t = put_budget (b\<lparr> bu_overdrawn := True \<rparr>) (put_reservation (q known) s)"
      by blast
    have "moves (put_reservation (q known) s) t"
      unfolding t by (rule put_budget_moves [OF moves_tables [OF put], of _ "re_rootBudgetId r'" b])
        (use b in \<open>simp_all add: put_reservation_def budget_frame_def budget_definition.truncate_def\<close>)
    with put show ?thesis by (rule moves_trans)
  qed (use put in simp)
qed

lemma merge_charge_moves:
  assumes "merge_charge h e k s = Inr t" "tables_ok s"
  shows "moves s t"
proof -
  have frame: "progress r (rename_keys k new r)" for new r
    by (simp add: progress_def rename_keys_def has_call_def reservation_ok_def)
  have rename: "moves s (s'\<lparr> ac_charges := cs, ac_reservations := map (\<lambda>(i, r). (i, rename_keys k new r)) (ac_reservations s') \<rparr>)"
    if s': "s' = s\<lparr> ac_charges := cs' \<rparr>" for s' cs cs' new
  proof -
    have "list_all2 (row progress) (ac_reservations s) (map (\<lambda>(i, r). (i, rename_keys k new r)) (ac_reservations s))"
      by (auto simp: list_all2_map2 frame intro!: list.rel_refl_strong)
    moreover have "list_all (\<lambda>(k, r). re_attemptId r = k \<and> reservation_ok r) (map (\<lambda>(i, r). (i, rename_keys k new r)) (ac_reservations s))"
      using assms(2) by (auto simp: tables_ok_def list_all_iff rename_keys_def reservation_ok_def has_call_def)
    ultimately show ?thesis
      using assms(2) by (simp add: moves_def tables_ok_def s' rows_refl comp_def case_prod_beta)
  qed
  have same: "s = s\<lparr> ac_charges := ac_charges s \<rparr>" by simp
  show ?thesis
    using assms(1) moves_refl [OF assms(2)] rename [OF same] rename [OF refl]
    by (auto simp: merge_charge_def Let_def put_charge_def split: option.splits if_splits)
qed

lemma fold_moves:
  assumes "fold_ok f xs s = Inr t" "tables_ok s"
    and "\<And>x s t. x \<in> set xs \<Longrightarrow> tables_ok s \<Longrightarrow> f x s = Inr t \<Longrightarrow> moves s t"
  shows "moves s t"
proof -
  have "moves s t"
    by (rule fold_ok_invariant [OF assms(1), of "moves s"])
      (use assms(2,3) moves_refl moves_trans moves_tables in blast)+
  then show ?thesis .
qed

lemma merge_moves:
  assumes "merge_execution h i p s = Inr t" "tables_ok s"
  shows "moves s t"
proof -
  obtain r u r' e where r: "reservations_of s i = Some r" and u: "fold_ok (merge_charge h e) (re_chargeKeys r) s = Inr u"
    and r': "reservations_of u i = Some r'"
    and t: "t = put_reservation (r'\<lparr> re_executionKey := e, re_reportedExecutionId := Some p \<rparr>) u"
    using assms(1) by (auto simp: merge_execution_def result_simps Let_def split: option.splits if_splits)
  have "moves s u" using fold_moves [OF u assms(2)] merge_charge_moves by blast
  moreover have "moves u t"
    unfolding t by (rule put_reservation_moves [OF moves_tables [OF \<open>moves s u\<close>] r'])
      (simp add: progress_def has_call_def reservation_ok_def)
  ultimately show ?thesis by (rule moves_trans)
qed

lemma dispatch_moves:
  assumes "dispatch_attempt dates now r b s = Inr (t, again)" "tables_ok s" "reservations_of s i = Some r"
  shows "moves s t"
proof -
  have "t = s \<or> re_state r = RsReserved \<and> t = put_reservation (r\<lparr> re_dispatched := True, re_callHeld := False, re_state := RsDispatched \<rparr>) s"
    using assms(1) by (auto simp: dispatch_attempt_def result_simps split: if_splits)
  then show ?thesis
  proof
    assume t: "re_state r = RsReserved \<and> t = put_reservation (r\<lparr> re_dispatched := True, re_callHeld := False, re_state := RsDispatched \<rparr>) s"
    then have "progress r (r\<lparr> re_dispatched := True, re_callHeld := False, re_state := RsDispatched \<rparr>)"
      using reservation_key [OF assms(2,3)] by (simp add: progress_def reservation_ok_def has_call_def)
    with t put_reservation_moves [OF assms(2,3)] show ?thesis by blast
  qed (simp add: moves_refl [OF assms(2)])
qed

lemma unknown_moves:
  assumes "mark_unknown r s = Inr (t, again)" "tables_ok s" "reservations_of s i = Some r"
  shows "moves s t"
proof -
  let ?r = "r\<lparr> re_state := RsUnknown, re_amountUnknown := True, re_dispatched := True, re_callHeld := False \<rparr>"
  have t: "re_state r \<noteq> RsRejected" "t = put_reservation ?r s"
    using assms(1) by (auto simp: mark_unknown_def split: if_splits)
  then have "progress r ?r"
    using reservation_key [OF assms(2,3)] by (auto simp: progress_def reservation_ok_def has_call_def)
  with t put_reservation_moves [OF assms(2,3)] show ?thesis by blast
qed

lemma reject_moves:
  assumes "reject_attempt evidence r s = Inr (t, again)" "tables_ok s" "reservations_of s i = Some r"
  shows "moves s t"
proof -
  let ?r = "r\<lparr> re_state := RsRejected, re_amountUnknown := False, re_heldMicros := 0, re_callHeld := False, re_evidenceRef := Some evidence \<rparr>"
  have t: "t = put_reservation ?r s"
    using assms(1) by (auto simp: reject_attempt_def split: if_splits)
  have "progress r ?r" by (simp add: progress_def reservation_ok_def has_call_def)
  with t put_reservation_moves [OF assms(2,3)] show ?thesis by blast
qed

lemma current_reservation_of: "tables_ok s \<Longrightarrow> reservations_of s (re_attemptId r) = Some x \<Longrightarrow> current_reservation r s = x"
  by (simp add: current_reservation_def)

text \<open>Fields that no frame speaks about may be set at will.\<close>

lemma set_current_moves:
  assumes "moves s t" "reservations_of s (re_attemptId r) = Some x" "\<And>y. progress y (f y)"
  shows "moves s (put_reservation (f (current_reservation r t)) t)"
proof -
  obtain y where y: "reservations_of t (re_attemptId r) = Some y" by (rule moves_reservation [OF assms(1,2)])
  have "moves t (put_reservation (f y) t)"
    by (rule put_reservation_moves [OF moves_tables [OF assms(1)] y assms(3)])
  with assms(1) y show ?thesis by (auto simp: current_reservation_def intro: moves_trans)
qed

lemma bump_moves:
  assumes "moves s t" "reservations_of s (re_attemptId r) = Some x"
  shows "moves s (bump_reservation r t)"
  unfolding bump_reservation_def
  by (rule set_current_moves [OF assms, of "\<lambda>y. y\<lparr> re_version := re_version y + 1 \<rparr>"])
    (simp add: progress_def reservation_ok_def has_call_def)

lemma reconcile_moves:
  assumes "reconcile h p evidence r s = Inr (t, again)" "tables_ok s" "reservations_of s (re_attemptId r) = Some r"
  shows "moves s t"
proof -
  obtain u where u: "merge_execution h (re_attemptId r) p s = Inr u"
    and t: "t = put_reservation ((current_reservation r u)\<lparr> re_evidenceRef := Some evidence \<rparr>) u"
    using assms(1) by (auto simp: reconcile_def result_simps split: if_splits)
  show ?thesis
    unfolding t by (rule set_current_moves [OF merge_moves [OF u assms(2)] assms(3), of "\<lambda>y. y\<lparr> re_evidenceRef := Some evidence \<rparr>"])
      (simp add: progress_def reservation_ok_def has_call_def)
qed

section \<open>Settling\<close>

lemma narrow_progress:
  assumes "narrow_bound h v b p r = Inr r'"
  shows "progress r r' \<and> re_state r' = re_state r"
  using assms by (auto simp: narrow_bound_def result_simps progress_def reservation_ok_def has_call_def split: if_splits)

lemma settle_charge_progress:
  assumes "settle_charge h b v c (cs, r, x) = Inr (cs', r', x')"
  shows "progress r r' \<and> re_state r' = re_state r"
  using assms
  by (auto simp: settle_charge_def result_simps add_key_def progress_def reservation_ok_def has_call_def split: option.splits if_splits)

lemma settle_charges_progress:
  assumes "fold_ok (settle_charge h b v) ks (cs, r, x) = Inr (cs', r', x')"
  shows "progress r r' \<and> re_state r' = re_state r"
  using assms
proof (induction ks arbitrary: cs r x)
  case (Cons k ks)
  then obtain cs1 r1 x1 where a: "settle_charge h b v k (cs, r, x) = Inr (cs1, r1, x1)"
    and b: "fold_ok (settle_charge h b v) ks (cs1, r1, x1) = Inr (cs', r', x')"
    by (auto simp: result_simps)
  from settle_charge_progress [OF a] Cons.IH [OF b] show ?case by (auto intro: progress_trans)
qed simp

lemma adopt_moves:
  assumes "adopt_execution h c r1 s = Inr t" "tables_ok s" "reservations_of s i = Some r" "progress r r1"
  shows "moves s t"
proof -
  have put: "moves s (put_reservation r1 s)" by (rule put_reservation_moves [OF assms(2,3,4)])
  have put': "moves s (put_reservation (r1\<lparr> re_reportedExecutionId := Some x \<rparr>) s)" for x
    by (rule put_reservation_moves [OF assms(2,3)]) (use assms(4) in \<open>simp add: progress_def reservation_ok_def has_call_def\<close>)
  have "moves s t" if "merge_execution h j x (put_reservation (r1\<lparr> re_reportedExecutionId := Some x \<rparr>) s) = Inr t" for j x
    using moves_trans [OF put' merge_moves [OF that moves_tables [OF put']]] .
  then show ?thesis
    using assms(1) put put' by (auto simp: adopt_execution_def Let_def split: option.splits if_splits)
qed

lemma join_progress: "progress r (join_keys ks r) \<and> re_state (join_keys ks r) = re_state r"
  by (simp add: join_keys_def progress_def reservation_ok_def has_call_def)

text \<open>The related attempts are settled one after the other, each as the table had it at the start of the loop.\<close>

lemma settle_related_moves:
  assumes "settle_related r final x s = Inr t" "tables_ok s" "reservations_of s (re_attemptId x) = Some x"
  shows "moves s t"
proof (cases "is_related r x")
  case True
  obtain u where u: "release_known_costs (join_keys (re_chargeKeys r) x) final s = Inr u" and t: "t = bump_reservation x u"
    using assms(1) True by (auto simp: settle_related_def result_simps)
  have "moves s u"
    by (rule release_moves [OF u assms(2,3)]) (use True join_progress in \<open>auto simp: is_related_def join_keys_def\<close>)
  then show ?thesis unfolding t by (rule bump_moves) (rule assms(3))
next
  case False
  then show ?thesis using assms(1,2) by (simp add: settle_related_def moves_refl)
qed

lemma other_reservation:
  assumes "settle_related r final x s = Inr t" "re_attemptId x \<noteq> j"
  shows "reservations_of t j = reservations_of s j"
proof -
  have *: "reservations_of (put_reservation y u) j = reservations_of u j" if "re_attemptId y = re_attemptId x" for y u
    using that assms(2) by (simp add: put_reservation_def)
  have r: "reservations_of u j = reservations_of s j \<and> (\<exists>y. reservations_of u (re_attemptId x) = Some y \<and> re_attemptId y = re_attemptId x)"
    if "release_known_costs z final s = Inr u" "re_attemptId z = re_attemptId x" for z u
    using that assms(2)
    by (auto simp: release_known_costs_def result_simps Let_def put_reservation_def put_budget_def split: if_splits)
  have b: "reservations_of (bump_reservation x u) j = reservations_of u j"
    if "reservations_of u (re_attemptId x) = Some y" "re_attemptId y = re_attemptId x" for y u
    using that assms(2) by (simp add: bump_reservation_def current_reservation_def put_reservation_def)
  show ?thesis
    using assms(1) r [of "join_keys (re_chargeKeys r) x"] b
    by (fastforce simp: settle_related_def result_simps join_keys_def split: if_splits)
qed

lemma settle_all_related_moves:
  assumes "fold_ok (settle_related r final) xs s = Inr t" "tables_ok s" "distinct (map re_attemptId xs)"
    and "\<And>x. x \<in> set xs \<Longrightarrow> reservations_of s (re_attemptId x) = Some x"
  shows "moves s t"
  using assms
proof (induction xs arbitrary: s)
  case (Cons x xs)
  obtain u where u: "settle_related r final x s = Inr u" and rest: "fold_ok (settle_related r final) xs u = Inr t"
    using Cons.prems(1) by (auto simp: result_simps)
  have m: "moves s u" by (rule settle_related_moves [OF u Cons.prems(2)]) (simp add: Cons.prems(4))
  have "moves u t"
  proof (rule Cons.IH [OF rest moves_tables [OF m]])
    show "distinct (map re_attemptId xs)" using Cons.prems(3) by simp
    fix y assume y: "y \<in> set xs"
    then have "re_attemptId x \<noteq> re_attemptId y" using Cons.prems(3) by (auto simp del: set_map) (metis image_eqI list.set_map)
    with other_reservation [OF u] Cons.prems(4) y show "reservations_of u (re_attemptId y) = Some y" by simp
  qed
  with m show ?case by (rule moves_trans)
qed (simp add: moves_refl)

lemma table_rows:
  assumes "tables_ok s"
  shows "distinct (map re_attemptId (map snd (ac_reservations s)))"
    "x \<in> set (map snd (ac_reservations s)) \<Longrightarrow> reservations_of s (re_attemptId x) = Some x"
proof -
  have keys: "map re_attemptId (map snd (ac_reservations s)) = map fst (ac_reservations s)"
    using assms by (auto simp: tables_ok_def list_all_iff)
  show "distinct (map re_attemptId (map snd (ac_reservations s)))" unfolding keys using assms by (simp add: tables_ok_def)
  assume "x \<in> set (map snd (ac_reservations s))"
  then obtain k where "(k, x) \<in> set (ac_reservations s)" by auto
  moreover from this have "k = re_attemptId x" using assms by (auto simp: tables_ok_def list_all_iff)
  ultimately show "reservations_of s (re_attemptId x) = Some x" using assms by (simp add: tables_ok_def)
qed

text \<open>Adopting an execution keeps the state of every attempt.\<close>

definition state_of :: "accounting \<Rightarrow> string \<Rightarrow> reservation_state option" where
  "state_of s i = map_option re_state (reservations_of s i)"

lemma put_state_of:
  "reservations_of s (re_attemptId r) = Some x \<Longrightarrow> re_state r = re_state x \<Longrightarrow> state_of (put_reservation r s) = state_of s"
  by (auto simp: state_of_def put_reservation_def fun_eq_iff)

lemma merge_charge_state:
  assumes "merge_charge h e k s = Inr t"
  shows "state_of t = state_of s"
proof -
  have "map_option re_state (map_of (map (\<lambda>(i, r). (i, rename_keys k new r)) m) i) = map_option re_state (map_of m i)" for new m i
    by (induction m) (auto simp: rename_keys_def)
  then show ?thesis
    using assms by (auto simp: merge_charge_def Let_def put_charge_def state_of_def fun_eq_iff split: option.splits if_splits)
qed

lemma merge_state:
  assumes "merge_execution h i p s = Inr t" "tables_ok s"
  shows "state_of t = state_of s"
proof -
  obtain r u r' e where r: "reservations_of s i = Some r" and u: "fold_ok (merge_charge h e) (re_chargeKeys r) s = Inr u"
    and r': "reservations_of u i = Some r'"
    and t: "t = put_reservation (r'\<lparr> re_executionKey := e, re_reportedExecutionId := Some p \<rparr>) u"
    using assms(1) by (auto simp: merge_execution_def result_simps Let_def split: option.splits if_splits)
  have "state_of u = state_of s"
    by (rule fold_ok_invariant [OF u, of "\<lambda>v. state_of v = state_of s"]) (auto simp: merge_charge_state)
  moreover have "moves s u" using fold_moves [OF u assms(2)] merge_charge_moves by blast
  then have "re_attemptId r' = i" using reservation_key [OF moves_tables r'] by blast
  then have "state_of t = state_of u" unfolding t by (intro put_state_of) (use r' in simp_all)
  ultimately show ?thesis by simp
qed

lemma adopt_state:
  assumes "adopt_execution h c r1 s = Inr t" "tables_ok s" "reservations_of s (re_attemptId r1) = Some r" "progress r r1"
    and "re_state r1 = re_state r"
  shows "state_of t = state_of s"
proof -
  have put: "state_of (put_reservation r1 s) = state_of s" by (rule put_state_of) (use assms in simp_all)
  have put': "state_of (put_reservation (r1\<lparr> re_reportedExecutionId := Some x \<rparr>) s) = state_of s" for x
    by (rule put_state_of) (use assms in simp_all)
  have "tables_ok (put_reservation (r1\<lparr> re_reportedExecutionId := Some x \<rparr>) s)" for x
    by (rule tables_put_reservation [OF assms(2)])
      (use assms(4) reservation_key [OF assms(2,3)] in \<open>simp add: progress_def reservation_ok_def has_call_def\<close>)
  then show ?thesis
    using assms(1) put put' by (auto simp: adopt_execution_def Let_def merge_state split: option.splits if_splits)
qed

lemma settle_moves:
  assumes "settle_attempt h c r0 b s = Inr (t, again)" "tables_ok s" "reservations_of s (re_attemptId r0) = Some r0"
  shows "moves s t"
proof -
  obtain r1 s2 cs r3 x s5 where n: "re_state r0 \<noteq> RsRejected"
      "(case sc_postResponseUpperBound c of None \<Rightarrow> Inr r0 | Some p \<Rightarrow> narrow_bound h (sc_usageRevision c) b p r0) = Inr r1"
    and a: "adopt_execution h c r1 s = Inr s2"
    and f: "fold_ok (settle_charge h b (sc_usageRevision c)) (sc_charges c) (ac_charges s2, current_reservation r1 s2, False) = Inr (cs, r3, x)"
    and rel: "release_known_costs (join_keys (map fst (filter (\<lambda>(_, e). same_execution r3 e) cs)) r3) (sc_complete c) (s2\<lparr> ac_charges := cs \<rparr>) = Inr s5"
    and all: "fold_ok (settle_related (join_keys (map fst (filter (\<lambda>(_, e). same_execution r3 e) cs)) r3) (sc_complete c))
                (map snd (ac_reservations s5)) s5 = Inr t"
    using assms(1) by (auto simp: settle_attempt_def result_simps Let_def split: if_splits)
  have r1: "progress r0 r1 \<and> re_state r1 = re_state r0"
    using n(2) narrow_progress by (auto split: option.splits)
  have m: "moves s s2" by (rule adopt_moves [OF a assms(2,3)]) (simp add: r1)
  have id: "re_attemptId r1 = re_attemptId r0" using r1 by (simp add: progress_def)
  have "state_of s2 = state_of s" by (rule adopt_state [OF a assms(2)]) (use assms(3) id r1 in simp_all)
  moreover obtain r2 where r2: "reservations_of s2 (re_attemptId r0) = Some r2" "progress r0 r2"
    by (rule moves_reservation [OF m assms(3)])
  ultimately have st: "re_state r2 = re_state r0" using assms(3) by (simp add: state_of_def fun_eq_iff) (metis option.inject option.simps(9))
  let ?s3 = "s2\<lparr> ac_charges := cs \<rparr>" and ?r4 = "join_keys (map fst (filter (\<lambda>(_, e). same_execution r3 e) cs)) r3"
  have "current_reservation r1 s2 = r2" using r2(1) id by (simp add: current_reservation_def)
  then have r3: "progress r2 r3 \<and> re_state r3 = re_state r2" using settle_charges_progress f by metis
  have m3: "moves s ?s3" using moves_trans [OF m charges_moves [OF moves_tables [OF m]]] .
  have m5: "moves ?s3 s5"
    by (rule release_moves [OF rel moves_tables [OF m3], of "re_attemptId r0" r2])
      (use r2 r3 st n(1) join_progress progress_trans in \<open>auto\<close>)
  have "moves s5 t"
    by (rule settle_all_related_moves [OF all moves_tables [OF m5]]) (use table_rows [OF moves_tables [OF m5]] in simp_all)
  with m3 m5 show ?thesis by (blast intro: moves_trans)
qed

end
