(* ===== verification/BudgetTotals.thy ===== *)
theory BudgetTotals
  imports BudgetFacts
begin

text \<open>
  The totals of a budget are sums over the tables: what \<open>refreshTotals\<close> computes with loops that update the
  budgets in place, as closed expressions over reservations and charges.
\<close>

section \<open>Sums over the tables\<close>

definition charge_amount :: "string \<Rightarrow> string \<Rightarrow> charge \<Rightarrow> rat" where
  "charge_amount i currency c = (if ch_rootBudgetId c = i \<and> ch_currency c = currency then or_zero (ch_amountMicros c) else 0)"

definition one_if :: "bool \<Rightarrow> rat" where
  "one_if b = (if b then 1 else 0)"

definition spent_calls :: "accounting \<Rightarrow> string \<Rightarrow> rat" where
  "spent_calls s i = sum_list (map (\<lambda>e. one_if (re_rootBudgetId (snd e) = i \<and> re_dispatched (snd e))) (ac_reservations s))"

definition held_calls :: "accounting \<Rightarrow> string \<Rightarrow> rat" where
  "held_calls s i = sum_list (map (\<lambda>e. one_if (re_rootBudgetId (snd e) = i \<and> re_callHeld (snd e))) (ac_reservations s))"

definition held_micros :: "accounting \<Rightarrow> string \<Rightarrow> rat" where
  "held_micros s i = sum_list (map (\<lambda>e. if re_rootBudgetId (snd e) = i then re_heldMicros (snd e) else 0) (ac_reservations s))"

definition spent_micros :: "accounting \<Rightarrow> string \<Rightarrow> string \<Rightarrow> rat" where
  "spent_micros s i currency = sum_list (map (\<lambda>e. charge_amount i currency (snd e)) (ac_charges s))"

definition call_count :: "accounting \<Rightarrow> string \<Rightarrow> rat" where
  "call_count s i = sum_list (map (\<lambda>e. one_if (re_rootBudgetId (snd e) = i \<and> has_call (snd e))) (ac_reservations s))"

definition action_count :: "accounting \<Rightarrow> string \<Rightarrow> string \<Rightarrow> rat" where
  "action_count s i a = sum_list (map (\<lambda>e. one_if (re_rootBudgetId (snd e) = i \<and> re_actionId (snd e) = a)) (ac_reservations s))"

text \<open>What the refreshed budget is: its totals are the sums, the overdraft flag is kept or raised.\<close>

definition refreshed :: "accounting \<Rightarrow> string \<Rightarrow> budget \<Rightarrow> budget \<Rightarrow> bool" where
  "refreshed s i b b' \<longleftrightarrow> (\<exists>unk uns.
     b' = b\<lparr> bu_spentCalls := spent_calls s i, bu_heldCalls := held_calls s i, bu_spentMicros := spent_micros s i (bd_currency b),
            bu_heldMicros := held_micros s i, bu_amountUnknown := unk, bu_unsettledCalls := uns,
            bu_overdrawn := (bu_overdrawn b \<or> exceeds (bd_maxCostMicros b) (spent_micros s i (bd_currency b) + held_micros s i)) \<rparr>)"

section \<open>One loop after the other\<close>

definition charge_on :: "string \<Rightarrow> charge \<Rightarrow> budget \<Rightarrow> budget" where
  "charge_on i c b =
     (if ch_rootBudgetId c \<noteq> i then b
      else if ch_currency c = bd_currency b then b\<lparr> bu_spentMicros := bu_spentMicros b + or_zero (ch_amountMicros c) \<rparr>
      else if bd_mode b = Some Metered then b\<lparr> bu_amountUnknown := True \<rparr> else b)"

definition reservation_on :: "string \<Rightarrow> reservation \<Rightarrow> budget \<Rightarrow> budget" where
  "reservation_on i r b =
     (if re_rootBudgetId r \<noteq> i then b
      else b\<lparr> bu_spentCalls := bu_spentCalls b + one_if (re_dispatched r), bu_heldCalls := bu_heldCalls b + one_if (re_callHeld r),
             bu_heldMicros := bu_heldMicros b + re_heldMicros r,
             bu_amountUnknown := (bu_amountUnknown b \<or> re_state r \<noteq> RsSettled \<and> re_state r \<noteq> RsRejected \<and> re_amountUnknown r),
             bu_unsettledCalls := (if (re_state r = RsUnknown \<or> re_state r = RsUnsettled) \<and> re_amountUnknown r
                               then map_option (\<lambda>n. n + 1) (bu_unsettledCalls b) else bu_unsettledCalls b) \<rparr>)"

definition overdrawn_on :: "budget \<Rightarrow> budget" where
  "overdrawn_on b = b\<lparr> bu_overdrawn := (bu_overdrawn b \<or> exceeds (bd_maxCostMicros b) (bu_spentMicros b + bu_heldMicros b)) \<rparr>"

lemma charge_on_other [simp]: "ch_rootBudgetId c \<noteq> i \<Longrightarrow> charge_on i c b = b"
  by (simp add: charge_on_def)

lemma on_id [simp]:
  "bd_rootBudgetId (charge_on i c b) = bd_rootBudgetId b" "bd_rootBudgetId (reservation_on i r b) = bd_rootBudgetId b"
  by (simp_all add: charge_on_def reservation_on_def)

lemma reservation_on_other [simp]: "re_rootBudgetId r \<noteq> i \<Longrightarrow> reservation_on i r b = b"
  by (simp add: reservation_on_def)

lemma charge_on_eq:
  "\<exists>unk. charge_on i c b =
     b\<lparr> bu_spentMicros := bu_spentMicros b + charge_amount i (bd_currency b) c, bu_amountUnknown := unk \<rparr>"
  by (rule exI [of _ "bu_amountUnknown (charge_on i c b)"]) (simp add: charge_on_def charge_amount_def)

lemma reservation_on_eq:
  "\<exists>unk uns. reservation_on i r b =
     b\<lparr> bu_spentCalls := bu_spentCalls b + one_if (re_rootBudgetId r = i \<and> re_dispatched r),
        bu_heldCalls := bu_heldCalls b + one_if (re_rootBudgetId r = i \<and> re_callHeld r),
        bu_heldMicros := bu_heldMicros b + (if re_rootBudgetId r = i then re_heldMicros r else 0),
        bu_amountUnknown := unk, bu_unsettledCalls := uns \<rparr>"
  by (rule exI [of _ "bu_amountUnknown (reservation_on i r b)"], rule exI [of _ "bu_unsettledCalls (reservation_on i r b)"])
    (simp add: reservation_on_def one_if_def)

text \<open>A step that changes budgets only, each by the function that belongs to its identifier.\<close>

definition budgets_step :: "(string \<Rightarrow> budget \<Rightarrow> budget) \<Rightarrow> accounting \<Rightarrow> accounting \<Rightarrow> bool" where
  "budgets_step g s t \<longleftrightarrow>
     tables_ok t \<and> map fst (ac_budgets t) = map fst (ac_budgets s) \<and> ac_reservations t = ac_reservations s \<and> ac_charges t = ac_charges s \<and>
     (\<forall>i. budgets_of t i = map_option (g i) (budgets_of s i))"

lemma budgets_step_put:
  assumes "tables_ok s" "budgets_of s (bd_rootBudgetId b) = Some b0" "b = g (bd_rootBudgetId b) b0"
    and "\<And>i x. i \<noteq> bd_rootBudgetId b \<Longrightarrow> g i x = x"
  shows "budgets_step g s (put_budget b s)"
proof -
  have "budgets_of (put_budget b s) i = map_option (g i) (budgets_of s i)" for i
    using assms(2,3) by (cases "i = bd_rootBudgetId b"; cases "budgets_of s i") (simp_all add: put_budget_def assms(4))
  moreover have "map fst (map_put (bd_rootBudgetId b) b (ac_budgets s)) = map fst (ac_budgets s)"
    using assms(2) by (intro keys_map_put_old) simp
  ultimately show ?thesis using tables_put_budget [OF assms(1)] by (simp add: budgets_step_def) (simp add: put_budget_def)
qed

lemma add_charge_step:
  assumes "add_charge c s = Inr t" "tables_ok s"
  shows "budgets_step (\<lambda>i. charge_on i c) s t"
proof -
  obtain b where b: "budgets_of s (ch_rootBudgetId c) = Some b" using assms(1) by (auto simp: add_charge_def result_simps)
  note key = budget_key [OF assms(2) b]
  have none: "budgets_step (\<lambda>i. charge_on i c) s s" if "charge_on (ch_rootBudgetId c) c b = b"
  proof -
    have "budgets_of s i = map_option (charge_on i c) (budgets_of s i)" for i
      using b that by (cases "i = ch_rootBudgetId c"; cases "budgets_of s i") simp_all
    then show ?thesis using assms(2) by (simp add: budgets_step_def)
  qed
  have put: "budgets_step (\<lambda>i. charge_on i c) s (put_budget (charge_on (ch_rootBudgetId c) c b) s)"
    by (rule budgets_step_put [OF assms(2)]) (use b key in simp_all)
  consider "t = put_budget (charge_on (ch_rootBudgetId c) c b) s" | "t = s" "charge_on (ch_rootBudgetId c) c b = b"
    using assms(1) b by (auto simp: add_charge_def result_simps charge_on_def safe_add_def split: if_splits)
  then show ?thesis by cases (use put none in simp_all)
qed

lemma add_reservation_step:
  assumes "add_reservation r s = Inr t" "tables_ok s"
  shows "budgets_step (\<lambda>i. reservation_on i r) s t"
proof -
  obtain b where b: "budgets_of s (re_rootBudgetId r) = Some b" and t: "t = put_budget (reservation_on (re_rootBudgetId r) r b) s"
    using assms(1) by (auto simp: add_reservation_def result_simps reservation_on_def safe_add_def one_if_def split: if_splits)
  show ?thesis
    unfolding t by (rule budgets_step_put [OF assms(2)]) (use b budget_key [OF assms(2) b] in simp_all)
qed

lemma fold_step:
  assumes "fold_ok f xs s = Inr t" "tables_ok s"
    and "\<And>x s t. f x s = Inr t \<Longrightarrow> tables_ok s \<Longrightarrow> budgets_step (\<lambda>i. g i x) s t"
  shows "budgets_step (\<lambda>i. fold (g i) xs) s t"
  using assms(1,2)
proof (induction xs arbitrary: s)
  case (Cons x xs)
  then obtain u where u: "f x s = Inr u" and rest: "fold_ok f xs u = Inr t" by (auto simp: result_simps)
  have a: "budgets_step (\<lambda>i. g i x) s u" by (rule assms(3) [OF u Cons.prems(2)])
  then have "budgets_step (\<lambda>i. fold (g i) xs) u t" using Cons.IH [OF rest] by (simp add: budgets_step_def)
  with a show ?case by (simp add: budgets_step_def option.map_comp comp_def)
qed (simp add: budgets_step_def option.map_ident id_def)

lemma fold_charges:
  "\<exists>unk. fold (charge_on i) cs b =
     b\<lparr> bu_spentMicros := bu_spentMicros b + sum_list (map (charge_amount i (bd_currency b)) cs), bu_amountUnknown := unk \<rparr>"
proof (induction cs arbitrary: b)
  case Nil
  show ?case by (rule exI [of _ "bu_amountUnknown b"]) simp
next
  case (Cons c cs)
  obtain u where u: "charge_on i c b = b\<lparr> bu_spentMicros := bu_spentMicros b + charge_amount i (bd_currency b) c, bu_amountUnknown := u \<rparr>"
    using charge_on_eq by blast
  obtain v where "fold (charge_on i) cs (charge_on i c b) = (charge_on i c b)\<lparr> bu_spentMicros := bu_spentMicros (charge_on i c b)
       + sum_list (map (charge_amount i (bd_currency (charge_on i c b))) cs), bu_amountUnknown := v \<rparr>"
    using Cons.IH by blast
  then show ?case by (intro exI [of _ v]) (simp add: u add.assoc)
qed

lemma fold_reservations:
  "\<exists>unk uns. fold (reservation_on i) rs b =
     b\<lparr> bu_spentCalls := bu_spentCalls b + sum_list (map (\<lambda>r. one_if (re_rootBudgetId r = i \<and> re_dispatched r)) rs),
        bu_heldCalls := bu_heldCalls b + sum_list (map (\<lambda>r. one_if (re_rootBudgetId r = i \<and> re_callHeld r)) rs),
        bu_heldMicros := bu_heldMicros b + sum_list (map (\<lambda>r. if re_rootBudgetId r = i then re_heldMicros r else 0) rs),
        bu_amountUnknown := unk, bu_unsettledCalls := uns \<rparr>"
proof (induction rs arbitrary: b)
  case Nil
  show ?case by (rule exI [of _ "bu_amountUnknown b"], rule exI [of _ "bu_unsettledCalls b"]) simp
next
  case (Cons r rs)
  obtain u v where u: "reservation_on i r b = b\<lparr> bu_spentCalls := bu_spentCalls b + one_if (re_rootBudgetId r = i \<and> re_dispatched r),
        bu_heldCalls := bu_heldCalls b + one_if (re_rootBudgetId r = i \<and> re_callHeld r),
        bu_heldMicros := bu_heldMicros b + (if re_rootBudgetId r = i then re_heldMicros r else 0),
        bu_amountUnknown := u, bu_unsettledCalls := v \<rparr>"
    using reservation_on_eq by blast
  obtain x y where "fold (reservation_on i) rs (reservation_on i r b) = (reservation_on i r b)\<lparr>
        bu_spentCalls := bu_spentCalls (reservation_on i r b) + sum_list (map (\<lambda>r. one_if (re_rootBudgetId r = i \<and> re_dispatched r)) rs),
        bu_heldCalls := bu_heldCalls (reservation_on i r b) + sum_list (map (\<lambda>r. one_if (re_rootBudgetId r = i \<and> re_callHeld r)) rs),
        bu_heldMicros := bu_heldMicros (reservation_on i r b) + sum_list (map (\<lambda>r. if re_rootBudgetId r = i then re_heldMicros r else 0) rs),
        bu_amountUnknown := x, bu_unsettledCalls := y \<rparr>"
    using Cons.IH by blast
  then show ?case by (intro exI [of _ x] exI [of _ y]) (simp add: u add.assoc)
qed

section \<open>The whole refresh\<close>

lemma map_ok_rows:
  assumes "map_ok (\<lambda>(k, v). and_then (g v) (\<lambda>v'. Inr (k, v'))) m = Inr n"
  shows "list_all2 (row (\<lambda>v v'. g v = Inr v')) m n"
proof -
  have "list_all2 (\<lambda>x y. (\<lambda>(k, v). and_then (g v) (\<lambda>v'. Inr (k, v'))) x = Inr y) m n"
    using assms by (simp only: map_ok_Inr)
  then show ?thesis by (rule list_all2_mono) (auto simp: result_simps row_def)
qed

definition reset_frame :: "budget \<Rightarrow> budget \<Rightarrow> bool" where
  "reset_frame b b' \<longleftrightarrow> (\<exists>uns. b' = b\<lparr> bu_spentCalls := 0, bu_heldCalls := 0, bu_spentMicros := 0, bu_heldMicros := 0,
     bu_amountUnknown := False, bu_unsettledCalls := uns \<rparr>)"

lemma reset_step:
  assumes "reset_totals s = Inr t" "tables_ok s"
  shows "tables_ok t \<and> map fst (ac_budgets t) = map fst (ac_budgets s) \<and> ac_reservations t = ac_reservations s \<and> ac_charges t = ac_charges s \<and>
    (\<forall>i. rel_option reset_frame (budgets_of s i) (budgets_of t i))"
proof -
  obtain ls bs where bs: "map_ok (\<lambda>(k, b). and_then (reset_budget (s\<lparr> ac_quotaLimits := ls \<rparr>) b) (\<lambda>b'. Inr (k, b'))) (ac_budgets s) = Inr bs"
    and t: "t = s\<lparr> ac_quotaLimits := ls, ac_budgets := bs \<rparr>"
    using assms(1) by (auto simp: reset_totals_def result_simps)
  have "list_all2 (row (\<lambda>b b'. reset_budget (s\<lparr> ac_quotaLimits := ls \<rparr>) b = Inr b')) (ac_budgets s) bs" by (rule map_ok_rows [OF bs])
  then have rows: "list_all2 (row reset_frame) (ac_budgets s) bs"
    by (rule list_all2_mono) (auto simp: row_def reset_budget_def result_simps reset_frame_def)
  then have "list_all (\<lambda>(k, b). bd_rootBudgetId b = k) bs"
    using assms(2) unfolding tables_ok_def list_all2_conv_all_nth list_all_length
    by (auto simp: row_def reset_frame_def case_prod_beta)
  with rows_keys [OF rows] rows_map_of [OF rows] assms(2) show ?thesis by (simp add: t tables_ok_def)
qed

lemma limits_step: "budgets_step g s (t\<lparr> ac_quotaLimits := l \<rparr>) = budgets_step g s t"
  by (simp add: budgets_step_def tables_ok_def)

lemma add_to_limit_put:
  assumes "add_to_limit v s = Inr t"
  obtains l where "t = (put_budget (overdrawn_on v) s)\<lparr> ac_quotaLimits := l \<rparr>"
proof -
  have "\<exists>l. t = (put_budget (overdrawn_on v) s)\<lparr> ac_quotaLimits := l \<rparr>"
    using assms unfolding add_to_limit_def Let_def overdrawn_on_def [symmetric] put_limit_def
    by (auto simp: result_simps split: option.splits)
      (metis accounting.surjective accounting.update_convs(5))
  with that show thesis by blast
qed

lemma overdraw_step:
  assumes "fold_ok add_to_limit vs s = Inr t" "tables_ok s" "distinct (map bd_rootBudgetId vs)"
    and "\<And>v. v \<in> set vs \<Longrightarrow> budgets_of s (bd_rootBudgetId v) = Some v"
  shows "budgets_step (\<lambda>i b. if i \<in> set (map bd_rootBudgetId vs) then overdrawn_on b else b) s t"
  using assms
proof (induction vs arbitrary: s)
  case Nil
  then show ?case by (simp add: budgets_step_def option.map_ident)
next
  case (Cons v vs)
  obtain u where u: "add_to_limit v s = Inr u" and rest: "fold_ok add_to_limit vs u = Inr t"
    using Cons.prems(1) by (auto simp: result_simps)
  obtain l where l: "u = (put_budget (overdrawn_on v) s)\<lparr> ac_quotaLimits := l \<rparr>" by (rule add_to_limit_put [OF u])
  have id: "bd_rootBudgetId (overdrawn_on v) = bd_rootBudgetId v" by (simp add: overdrawn_on_def)
  have step: "budgets_step (\<lambda>i b. if i = bd_rootBudgetId v then overdrawn_on b else b) s u"
    unfolding l limits_step
    by (rule budgets_step_put [OF Cons.prems(2), of _ v]) (use Cons.prems(4) id in simp_all)
  then have u_ok: "tables_ok u" by (simp add: budgets_step_def)
  have "budgets_step (\<lambda>i b. if i \<in> set (map bd_rootBudgetId vs) then overdrawn_on b else b) u t"
  proof (rule Cons.IH [OF rest u_ok])
    show "distinct (map bd_rootBudgetId vs)" using Cons.prems(3) by simp
    fix w assume w: "w \<in> set vs"
    then have "bd_rootBudgetId w \<in> bd_rootBudgetId ` set vs" by (rule imageI)
    then have "bd_rootBudgetId w \<noteq> bd_rootBudgetId v" using Cons.prems(3) by auto
    with step Cons.prems(4) [of w] w show "budgets_of u (bd_rootBudgetId w) = Some w" by (simp add: budgets_step_def)
  qed
  moreover have "overdrawn_on (overdrawn_on b) = overdrawn_on b" for b by (simp add: overdrawn_on_def)
  ultimately show ?case
    using step by (auto simp: budgets_step_def option.map_comp comp_def intro!: option.map_cong0)
qed

lemma budget_rows:
  assumes "tables_ok s"
  shows "map bd_rootBudgetId (map snd (ac_budgets s)) = map fst (ac_budgets s)"
    "v \<in> set (map snd (ac_budgets s)) \<Longrightarrow> budgets_of s (bd_rootBudgetId v) = Some v"
proof -
  show "map bd_rootBudgetId (map snd (ac_budgets s)) = map fst (ac_budgets s)" using assms by (auto simp: tables_ok_def list_all_iff)
  assume "v \<in> set (map snd (ac_budgets s))"
  then obtain k where "(k, v) \<in> set (ac_budgets s)" by auto
  moreover from this have "k = bd_rootBudgetId v" using assms by (auto simp: tables_ok_def list_all_iff)
  ultimately show "budgets_of s (bd_rootBudgetId v) = Some v" using assms by (simp add: tables_ok_def)
qed

lemma refresh_budgets:
  assumes "refresh_totals s = Inr t" "tables_ok s"
  shows "tables_ok t \<and> ac_reservations t = ac_reservations s \<and> ac_charges t = ac_charges s \<and>
    (\<forall>i. rel_option (refreshed s i) (budgets_of s i) (budgets_of t i))"
proof -
  obtain s1 s2 s3 s4 where r1: "reset_totals s = Inr s1" and r2: "fold_ok add_charge (map snd (ac_charges s1)) s1 = Inr s2"
    and r3: "fold_ok add_reservation (map snd (ac_reservations s2)) s2 = Inr s3"
    and r4: "fold_ok add_to_limit (map snd (ac_budgets s3)) s3 = Inr s4"
    and t: "t = s4\<lparr> ac_quotaLimits := map (\<lambda>(k, l). (k, close_limit l)) (ac_quotaLimits s4) \<rparr>"
    using assms(1) by (auto simp: refresh_totals_def result_simps)
  note a1 = reset_step [OF r1 assms(2)]
  have a2: "budgets_step (\<lambda>i. fold (charge_on i) (map snd (ac_charges s1))) s1 s2"
    by (rule fold_step [OF r2]) (use a1 add_charge_step in auto)
  then have a2': "tables_ok s2" "ac_reservations s2 = ac_reservations s" "ac_charges s2 = ac_charges s" using a1 by (simp_all add: budgets_step_def)
  have a3: "budgets_step (\<lambda>i. fold (reservation_on i) (map snd (ac_reservations s2))) s2 s3"
    by (rule fold_step [OF r3 a2'(1)]) (use add_reservation_step in auto)
  then have a3': "tables_ok s3" "ac_reservations s3 = ac_reservations s" "ac_charges s3 = ac_charges s" using a2' by (simp_all add: budgets_step_def)
  have a4: "budgets_step (\<lambda>i b. if i \<in> set (map bd_rootBudgetId (map snd (ac_budgets s3))) then overdrawn_on b else b) s3 s4"
    by (rule overdraw_step [OF r4 a3'(1)])
      (use budget_rows [OF a3'(1)] a3'(1) in \<open>simp_all only: tables_ok_def\<close>)
  have "rel_option (refreshed s i) (budgets_of s i) (budgets_of t i)" for i
  proof (cases "budgets_of s i")
    case None
    then show ?thesis using a1 a2 a3 a4 by (auto simp: budgets_step_def t rel_option_iff split: option.splits)
  next
    case (Some b)
    then obtain b1 where b1: "budgets_of s1 i = Some b1" "reset_frame b b1" using a1 by (metis option_rel_Some1)
    define b2 where "b2 = fold (charge_on i) (map snd (ac_charges s)) b1"
    define b3 where "b3 = fold (reservation_on i) (map snd (ac_reservations s)) b2"
    have b3_of: "budgets_of s3 i = Some b3" using b1(1) a1 a2 a2' a3 by (simp add: budgets_step_def b2_def b3_def)
    from b3_of have "i \<in> set (map fst (ac_budgets s3))" by (metis domI dom_map_of_conv_image_fst list.set_map)
    then have b4: "budgets_of t i = Some (overdrawn_on b3)"
      using b3_of a4 budget_rows(1) [OF a3'(1)] by (simp only: budgets_step_def t) simp
    obtain u1 where e2: "b2 = b1\<lparr> bu_spentMicros := bu_spentMicros b1 + sum_list (map (charge_amount i (bd_currency b1)) (map snd (ac_charges s))), bu_amountUnknown := u1 \<rparr>"
      unfolding b2_def using fold_charges by blast
    obtain u2 u3 where e3: "b3 = b2\<lparr>
        bu_spentCalls := bu_spentCalls b2 + sum_list (map (\<lambda>r. one_if (re_rootBudgetId r = i \<and> re_dispatched r)) (map snd (ac_reservations s))),
        bu_heldCalls := bu_heldCalls b2 + sum_list (map (\<lambda>r. one_if (re_rootBudgetId r = i \<and> re_callHeld r)) (map snd (ac_reservations s))),
        bu_heldMicros := bu_heldMicros b2 + sum_list (map (\<lambda>r. if re_rootBudgetId r = i then re_heldMicros r else 0) (map snd (ac_reservations s))),
        bu_amountUnknown := u2, bu_unsettledCalls := u3 \<rparr>"
      unfolding b3_def using fold_reservations by blast
    have "refreshed s i b (overdrawn_on b3)"
      unfolding refreshed_def e3 e2
      by (rule exI [of _ u2], rule exI [of _ u3])
        (use b1(2) in \<open>auto simp: reset_frame_def overdrawn_on_def spent_calls_def held_calls_def spent_micros_def held_micros_def comp_def\<close>)
    with Some b4 show ?thesis by simp
  qed
  with a4 a3' show ?thesis by (simp add: budgets_step_def t tables_ok_def)
qed

end
