(* ===== verification/BudgetInvariant.thy ===== *)
theory BudgetInvariant
  imports BudgetTotals
begin

text \<open>The invariant of the accounting state, and that every command keeps it.\<close>

section \<open>Counts\<close>

lemma one_if_count: "sum_list (map (\<lambda>e. one_if (P e)) xs) = of_nat (length (filter P xs))"
  by (induction xs) (auto simp: one_if_def)

lemma integer_below:
  assumes "is_integral q" "of_nat n < q"
  shows "of_nat n + 1 \<le> q"
proof -
  have q: "q = of_int \<lfloor>q\<rfloor>" using assms(1) unfolding is_integral_def by (rule sym)
  have "rat_of_int (int n) < of_int \<lfloor>q\<rfloor>" using assms(2) q by (metis of_int_of_nat_eq)
  then have "int n + 1 \<le> \<lfloor>q\<rfloor>" by (simp only: of_int_less_iff)
  then have "rat_of_int (int n + 1) \<le> of_int \<lfloor>q\<rfloor>" by (simp only: of_int_le_iff)
  then have "of_nat n + 1 \<le> rat_of_int \<lfloor>q\<rfloor>" by simp
  then show ?thesis by (subst q)
qed

lemma calls_split:
  assumes "tables_ok s"
  shows "spent_calls s i + held_calls s i = call_count s i"
proof -
  have "sum_list (map (\<lambda>e. one_if (re_rootBudgetId (snd e) = i \<and> re_dispatched (snd e))) m)
      + sum_list (map (\<lambda>e. one_if (re_rootBudgetId (snd e) = i \<and> re_callHeld (snd e))) m)
      = sum_list (map (\<lambda>e. one_if (re_rootBudgetId (snd e) = i \<and> has_call (snd e))) m)"
    if "list_all (\<lambda>(k, r). re_attemptId r = k \<and> reservation_ok r) m" for m
    using that by (induction m) (auto simp: one_if_def reservation_ok_def has_call_def)
  then show ?thesis using assms by (simp add: tables_ok_def spent_calls_def held_calls_def call_count_def)
qed

lemma moves_counts:
  assumes "moves s t"
  shows "call_count t i \<le> call_count s i" "action_count t i a = action_count s i a"
proof -
  have rows: "list_all2 (row progress) (ac_reservations s) (ac_reservations t)" using assms by (simp add: moves_def)
  show "call_count t i \<le> call_count s i"
    using rows unfolding call_count_def
    by (induction rule: list_all2_induct) (auto simp: row_def progress_def one_if_def)
  show "action_count t i a = action_count s i a"
    using rows unfolding action_count_def
    by (induction rule: list_all2_induct) (auto simp: row_def progress_def)
qed

section \<open>The invariant\<close>

definition totals_ok :: "accounting \<Rightarrow> string \<Rightarrow> budget \<Rightarrow> bool" where
  "totals_ok s i b \<longleftrightarrow>
     bu_spentCalls b = spent_calls s i \<and> bu_heldCalls b = held_calls s i \<and> bu_spentMicros b = spent_micros s i (bd_currency b) \<and>
     bu_heldMicros b = held_micros s i \<and> (bu_overdrawn b \<or> \<not> exceeds (bd_maxCostMicros b) (bu_spentMicros b + bu_heldMicros b))"

definition limits_ok :: "accounting \<Rightarrow> bool" where
  "limits_ok s \<longleftrightarrow>
     tables_ok s \<and> (\<forall>i b. budgets_of s i = Some b \<longrightarrow> is_integral (bd_maxModelCalls b) \<and> call_count s i \<le> bd_maxModelCalls b) \<and>
     (\<forall>i a. action_count s i a \<le> 3)"

definition rooted :: "accounting \<Rightarrow> bool" where
  "rooted s \<longleftrightarrow> list_all (\<lambda>e. budgets_of s (re_rootBudgetId (snd e)) \<noteq> None) (ac_reservations s) \<and>
     list_all (\<lambda>e. budgets_of s (ch_rootBudgetId (snd e)) \<noteq> None) (ac_charges s)"

definition accounts_ok :: "accounting \<Rightarrow> bool" where
  "accounts_ok s \<longleftrightarrow> limits_ok s \<and> rooted s \<and> (\<forall>i b. budgets_of s i = Some b \<longrightarrow> totals_ok s i b)"

lemma accounts_tables: "accounts_ok s \<Longrightarrow> tables_ok s"
  by (simp add: accounts_ok_def limits_ok_def)

lemma sum_zero: "list_all (\<lambda>e. f e = 0) m \<Longrightarrow> sum_list (map f m) = (0 :: rat)"
  by (induction m) auto

lemma unrooted_sums:
  assumes "rooted s" "budgets_of s i = None"
  shows "spent_calls s i = 0" "held_calls s i = 0" "held_micros s i = 0" "spent_micros s i c = 0" "call_count s i = 0"
proof -
  have r: "list_all (\<lambda>e. re_rootBudgetId (snd e) \<noteq> i) (ac_reservations s)" "list_all (\<lambda>e. ch_rootBudgetId (snd e) \<noteq> i) (ac_charges s)"
    using assms by (auto simp: rooted_def list_all_iff)
  show "spent_calls s i = 0" "held_calls s i = 0" "held_micros s i = 0" "call_count s i = 0"
    unfolding spent_calls_def held_calls_def held_micros_def call_count_def
    by (rule sum_zero, use r(1) in \<open>auto simp: list_all_iff one_if_def\<close>)+
  show "spent_micros s i c = 0"
    unfolding spent_micros_def by (rule sum_zero) (use r(2) in \<open>auto simp: list_all_iff charge_amount_def\<close>)
qed

section \<open>Finishing a command\<close>

lemma charges_rooted:
  assumes "fold_ok add_charge cs s = Inr t" "tables_ok s"
  shows "list_all (\<lambda>c. budgets_of s (ch_rootBudgetId c) \<noteq> None) cs"
  using assms
proof (induction cs arbitrary: s)
  case (Cons c cs)
  then obtain u where u: "add_charge c s = Inr u" "fold_ok add_charge cs u = Inr t" by (auto simp: result_simps)
  have step: "budgets_step (\<lambda>i. charge_on i c) s u" by (rule add_charge_step [OF u(1) Cons.prems(2)])
  then have "list_all (\<lambda>c. budgets_of u (ch_rootBudgetId c) \<noteq> None) cs" using Cons.IH [OF u(2)] by (simp add: budgets_step_def)
  with step u(1) show ?case by (auto simp: budgets_step_def list_all_iff add_charge_def result_simps)
qed simp

lemma reservations_rooted:
  assumes "fold_ok add_reservation rs s = Inr t" "tables_ok s"
  shows "list_all (\<lambda>r. budgets_of s (re_rootBudgetId r) \<noteq> None) rs"
  using assms
proof (induction rs arbitrary: s)
  case (Cons r rs)
  then obtain u where u: "add_reservation r s = Inr u" "fold_ok add_reservation rs u = Inr t" by (auto simp: result_simps)
  have step: "budgets_step (\<lambda>i. reservation_on i r) s u" by (rule add_reservation_step [OF u(1) Cons.prems(2)])
  then have "list_all (\<lambda>r. budgets_of u (re_rootBudgetId r) \<noteq> None) rs" using Cons.IH [OF u(2)] by (simp add: budgets_step_def)
  with step u(1) show ?case by (auto simp: budgets_step_def list_all_iff add_reservation_def result_simps)
qed simp

lemma refresh_rooted:
  assumes "refresh_totals s = Inr t" "tables_ok s"
  shows "rooted s"
proof -
  obtain s1 s2 s3 where r1: "reset_totals s = Inr s1" and r2: "fold_ok add_charge (map snd (ac_charges s1)) s1 = Inr s2"
    and r3: "fold_ok add_reservation (map snd (ac_reservations s2)) s2 = Inr s3"
    using assms(1) by (auto simp: refresh_totals_def result_simps)
  note a1 = reset_step [OF r1 assms(2)]
  have a2: "budgets_step (\<lambda>i. fold (charge_on i) (map snd (ac_charges s1))) s1 s2"
    by (rule fold_step [OF r2]) (use a1 add_charge_step in auto)
  have none: "budgets_of s1 i = None \<longleftrightarrow> budgets_of s i = None" for i
    using a1 by (metis option.rel_distinct(1) option.rel_distinct(2) option.exhaust)
  have "list_all (\<lambda>c. budgets_of s1 (ch_rootBudgetId c) \<noteq> None) (map snd (ac_charges s1))"
    by (rule charges_rooted [OF r2]) (use a1 in simp)
  moreover have "list_all (\<lambda>r. budgets_of s2 (re_rootBudgetId r) \<noteq> None) (map snd (ac_reservations s2))"
    by (rule reservations_rooted [OF r3]) (use a2 in \<open>simp add: budgets_step_def\<close>)
  ultimately have "list_all (\<lambda>c. budgets_of s1 (ch_rootBudgetId c) \<noteq> None) (map snd (ac_charges s))"
    "list_all (\<lambda>r. budgets_of s1 (re_rootBudgetId r) \<noteq> None) (map snd (ac_reservations s))"
    using a1 a2 by (simp_all add: budgets_step_def)
  then show ?thesis unfolding none by (simp add: rooted_def list_all_iff)
qed

text \<open>The budgets after a command: those it left, with fresh totals and possibly a new version.\<close>

definition finished :: "accounting \<Rightarrow> string \<Rightarrow> budget \<Rightarrow> budget \<Rightarrow> bool" where
  "finished s i b b' \<longleftrightarrow> (\<exists>v b1. refreshed s i b b1 \<and> b' = b1\<lparr> bu_version := v \<rparr>)"

lemma versions_of:
  "map_of (map (budget_version p) m) i = map_option (\<lambda>b. snd (budget_version p (i, b))) (map_of m i)"
  "map fst (map (budget_version p) m) = map fst m"
  by (induction m) (auto simp: budget_version_def split: option.splits)

lemma finish_budgets:
  assumes "finish_command p (s, j, a, again) = Inr (t, r)" "tables_ok s"
  shows "tables_ok t \<and> rooted t \<and> ac_reservations t = ac_reservations s \<and> ac_charges t = ac_charges s \<and>
    (\<forall>i. rel_option (finished s i) (budgets_of s i) (budgets_of t i))"
proof -
  obtain u where u: "refresh_totals s = Inr u"
    and t: "t = u\<lparr> ac_budgets := map (budget_version p) (ac_budgets u), ac_quotaLimits := map (limit_version p) (ac_quotaLimits u) \<rparr>"
    using assms(1) by (auto simp: finish_command_def result_simps Let_def)
  note f = refresh_budgets [OF u assms(2)]
  have v: "\<exists>v. snd (budget_version p (i, b)) = b\<lparr> bu_version := v \<rparr>" for i b
    by (cases "budgets_of p i") (auto simp: budget_version_def intro: exI [of _ "bu_version b"])
  have "list_all (\<lambda>(k, b). bd_rootBudgetId b = k) (map (budget_version p) (ac_budgets u))"
    using f by (auto simp: tables_ok_def list_all_iff budget_version_def split: option.splits prod.splits)
  moreover have "tables_ok u" using f by blast
  ultimately have tab: "tables_ok t" by (simp add: t tables_ok_def versions_of(2) del: map_map)
  have rel: "rel_option (finished s i) (budgets_of s i) (budgets_of t i)" for i
  proof (cases "budgets_of s i")
    case None
    with f have "budgets_of u i = None" by (metis option.rel_distinct(1) option.exhaust)
    with None show ?thesis by (simp add: t versions_of)
  next
    case (Some b)
    with f obtain b1 where b1: "budgets_of u i = Some b1" "refreshed s i b b1" by (metis option_rel_Some1)
    obtain v where "snd (budget_version p (i, b1)) = b1\<lparr> bu_version := v \<rparr>" using v by blast
    with Some b1 show ?thesis by (auto simp: t versions_of finished_def)
  qed
  have "budgets_of t i = None \<longleftrightarrow> budgets_of s i = None" for i
    using rel [of i] by (metis option.rel_distinct(1) option.rel_distinct(2) option.exhaust)
  with refresh_rooted [OF u assms(2)] f tab rel show ?thesis by (auto simp: t rooted_def)
qed

lemma sums_same:
  assumes "ac_reservations t = ac_reservations s" "ac_charges t = ac_charges s"
  shows "spent_calls t = spent_calls s" "held_calls t = held_calls s" "spent_micros t = spent_micros s" "held_micros t = held_micros s"
    "call_count t = call_count s" "action_count t = action_count s"
  using assms by (simp_all add: fun_eq_iff spent_calls_def held_calls_def spent_micros_def held_micros_def call_count_def action_count_def)

lemma finish_ok:
  assumes "finish_command p (s, j, a, again) = Inr (t, r)" "limits_ok s"
  shows "accounts_ok t"
proof -
  have tab: "tables_ok s" using assms(2) by (simp add: limits_ok_def)
  note f = finish_budgets [OF assms(1) tab]
  note same = sums_same [of t s]
  have "totals_ok t i b' \<and> is_integral (bd_maxModelCalls b') \<and> call_count t i \<le> bd_maxModelCalls b'" if b': "budgets_of t i = Some b'" for i b'
  proof -
    obtain b where b: "budgets_of s i = Some b" "finished s i b b'" using f b' by (metis option_rel_Some2)
    then have "is_integral (bd_maxModelCalls b)" "call_count s i \<le> bd_maxModelCalls b" using assms(2) by (auto simp: limits_ok_def)
    with b(2) f same show ?thesis by (auto simp: finished_def refreshed_def totals_ok_def)
  qed
  with f same assms(2) show ?thesis by (auto simp: accounts_ok_def limits_ok_def)
qed

section \<open>Every command\<close>

lemma moves_limits:
  assumes "moves s t" "limits_ok s"
  shows "limits_ok t"
proof -
  have "is_integral (bd_maxModelCalls b') \<and> call_count t i \<le> bd_maxModelCalls b'" if b': "budgets_of t i = Some b'" for i b'
  proof -
    have "rel_option budget_frame (budgets_of s i) (budgets_of t i)" by (rule rows_map_of) (use assms(1) in \<open>simp add: moves_def\<close>)
    with b' obtain b where b: "budgets_of s i = Some b" "budget_frame b b'" by (auto simp: option_rel_Some2)
    then have "bd_maxModelCalls b' = bd_maxModelCalls b" by (simp add: budget_frame_def truncate_budget)
    moreover have "is_integral (bd_maxModelCalls b) \<and> call_count s i \<le> bd_maxModelCalls b" using assms(2) b(1) by (simp add: limits_ok_def)
    ultimately show ?thesis using moves_counts(1) [OF assms(1), of i] by auto
  qed
  then show ?thesis using assms moves_counts(2) [OF assms(1)] by (simp add: limits_ok_def moves_def)
qed

lemma bump_budget_moves: "tables_ok s \<Longrightarrow> budgets_of s i = Some b \<Longrightarrow> moves s (bump_budget b s)"
  unfolding bump_budget_def by (rule put_budget_moves [of s i b]) (simp_all add: budget_frame_def budget_definition.truncate_def)

lemma attempt_moves:
  assumes "attempt_command h dates now i f s = Inr (t, j, a, again)" "tables_ok s"
    and "\<And>r b u x. f r b s = Inr (u, x) \<Longrightarrow> reservations_of s i = Some r \<Longrightarrow> moves s u"
  shows "moves s t"
proof -
  obtain r b u x b' where r: "reservations_of s i = Some r" and u: "f r b s = Inr (u, x)" and b': "budgets_of u (re_rootBudgetId r) = Some b'"
    and t: "t = bump_budget b' (bump_reservation r u)"
    using assms(1) by (auto simp: attempt_command_def result_simps split: option.splits)
  have r': "reservations_of s (re_attemptId r) = Some r" using r reservation_key [OF assms(2) r] by simp
  have m: "moves s (bump_reservation r u)" by (rule bump_moves [OF assms(3) [OF u r] r'])
  have "budgets_of (bump_reservation r u) (re_rootBudgetId r) = Some b'" using b' by (simp add: bump_reservation_def put_reservation_def)
  then have "moves (bump_reservation r u) t" unfolding t by (rule bump_budget_moves [OF moves_tables [OF m]])
  with m show ?thesis by (rule moves_trans)
qed

lemma halt_moves:
  assumes "halt_budget i reason evidence s = Inr (t, j, a, again)" "tables_ok s"
  shows "moves s t"
proof -
  obtain b where b: "budgets_of s i = Some b" "reason \<noteq> []"
    and t: "t = bump_budget (b\<lparr> bu_blockedReason := Some reason \<rparr>) s \<or>
      (\<exists>l. t = put_limit l (bump_budget (b\<lparr> bu_blockedReason := Some reason \<rparr>) s))"
    using assms(1) by (auto simp: halt_budget_def result_simps Let_def split: if_splits option.splits)
  have m: "moves s (bump_budget (b\<lparr> bu_blockedReason := Some reason \<rparr>) s)"
    unfolding bump_budget_def
    by (rule put_budget_moves [OF assms(2) b(1)]) (use b(2) in \<open>simp add: budget_frame_def budget_definition.truncate_def is_given_def filled_def\<close>)
  have "moves s (put_limit l u)" if "moves s u" for l u using that by (simp add: moves_def tables_put_limit) (simp add: put_limit_def)
  with m t show ?thesis by blast
qed

lemma put_new_limits:
  assumes "accounts_ok s" "budgets_of s (bd_rootBudgetId b) = None" "is_integral (bd_maxModelCalls b)" "0 \<le> bd_maxModelCalls b"
  shows "limits_ok (put_budget b s)"
proof -
  have s: "limits_ok s" "rooted s" using assms(1) by (simp_all add: accounts_ok_def)
  have "ac_reservations (put_budget b s) = ac_reservations s" "ac_charges (put_budget b s) = ac_charges s"
    by (simp_all add: put_budget_def)
  note same = sums_same(5,6) [OF this]
  have b: "budgets_of (put_budget b s) = (budgets_of s)(bd_rootBudgetId b \<mapsto> b)" by (simp add: put_budget_def)
  have "tables_ok (put_budget b s)" using s(1) by (simp add: limits_ok_def tables_put_budget)
  moreover have "is_integral (bd_maxModelCalls x) \<and> call_count s i \<le> bd_maxModelCalls x" if x: "budgets_of (put_budget b s) i = Some x" for i x
  proof (cases "i = bd_rootBudgetId b")
    case True
    with x b have "x = b" by simp
    then show ?thesis using True assms(3,4) unrooted_sums(5) [OF s(2) assms(2)] by simp
  next
    case False
    with x b have "budgets_of s i = Some x" by simp
    with s(1) show ?thesis by (simp add: limits_ok_def)
  qed
  ultimately show ?thesis using s(1) by (simp add: limits_ok_def same)
qed

lemma new_budget_fields [simp]:
  "bd_rootBudgetId (new_budget h d) = bd_rootBudgetId d" "bd_maxModelCalls (new_budget h d) = bd_maxModelCalls d"
  "bd_maxCostMicros (new_budget h d) = bd_maxCostMicros d" "\<not> bu_overdrawn (new_budget h d)"
  by (simp_all add: new_budget_def budget_definition.defs budget.defs)

lemma create_cases:
  assumes "create_budget h dates now v s = Inr (t, j, a, again)"
  obtains "t = s"
  | d where "budget_definition_ok dates now d" "budgets_of s (bd_rootBudgetId d) = None" "t = put_budget (new_budget h d) s"
proof -
  define d where "d = default_mode v"
  have ok: "budget_definition_ok dates now d" and rest: "(case budgets_of s (bd_rootBudgetId d) of
             Some b \<Rightarrow> if bu_definitionHash b \<noteq> hash_of h (budget_json d) then Inl E_BUDGET_CONFLICT
                       else Inr (s, bd_rootBudgetId d, None, True)
           | None \<Rightarrow> Inr (put_budget (new_budget h d) s, bd_rootBudgetId d, None, False)) = Inr (t, j, a, again)"
    using assms unfolding create_budget_def Let_def and_then_Inr ensure_Inr d_def [symmetric] by blast+
  show thesis
  proof (cases "budgets_of s (bd_rootBudgetId d)")
    case None
    with rest ok that(2) show thesis by simp
  next
    case (Some b)
    with rest that(1) show thesis by (simp split: if_splits)
  qed
qed

lemma create_ok:
  assumes "create_budget h dates now d s = Inr (t, j, a, again)" "accounts_ok s"
  shows "limits_ok t"
  using assms(1)
proof (cases rule: create_cases)
  case 1
  with assms(2) show ?thesis by (simp add: accounts_ok_def)
next
  case (2 d)
  then show ?thesis
    by (simp only: 2(3)) (rule put_new_limits [OF assms(2)], simp_all add: budget_definition_ok_def exact_amount_def)
qed

text \<open>A new reservation: the attempt is unknown, the budget has a free call and room for the amount.\<close>

lemma reserve_new:
  assumes "reserve h dates now c s = Inr (Inr (t, j, a, again))"
  obtains b ql x where "budgets_of s (in_rootBudgetId c) = Some b" "reservations_of s (in_attemptId c) = None"
    "t = bump_budget b (put_reservation (new_reservation h ql b x c) s)"
    "check_bound dates now ql b (in_upperBound c) = Inr ()" "check_room dates now ql b c = Inr ()"
    "length (action_attempts s (in_rootBudgetId c) (in_actionId c)) < 3" "limit_of s b = Inr ql" "check_limit_use ql b c = Inr ()"
    "j = in_rootBudgetId c"
proof -
  obtain x b where b: "budget_for s (in_rootBudgetId c) = Inr b" and rest: "(case reservations_of s (in_attemptId c) of
         Some r \<Rightarrow> if re_intentHash r \<noteq> hash_of h (reserve_json c) then Inl E_ATTEMPT_CONFLICT else Inr (Inl (b, r))
       | None \<Rightarrow>
           if in_financialIntentId c \<noteq> None \<and> list_ex (\<lambda>r. re_identity r = x) (map snd (ac_reservations s)) then Inl E_ATTEMPT_CONFLICT
           else and_then (limit_of s b) (\<lambda>ql.
                and_then (check_limit_use ql b c) (\<lambda>_.
                and_then (check_bound dates now ql b (in_upperBound c)) (\<lambda>_.
                and_then (check_room dates now ql b c) (\<lambda>_.
                  if 3 \<le> length (action_attempts s (in_rootBudgetId c) (in_actionId c)) then Inl E_ATTEMPT_LIMIT
                  else Inr (Inr (bump_budget b (put_reservation (new_reservation h ql b x c) s),
                              in_rootBudgetId c, Some (in_attemptId c), False))))))) = Inr (Inr (t, j, a, again))"
    using assms unfolding reserve_def and_then_Inr by blast
  have none: "reservations_of s (in_attemptId c) = None" using rest by (auto split: option.splits if_splits)
  with rest that [OF b [simplified]] show thesis by (auto simp: result_simps split: if_splits)
qed

lemma room_for_call: "check_room dates now ql b c = Inr () \<Longrightarrow> bu_spentCalls b + bu_heldCalls b < bd_maxModelCalls b"
  by (auto simp: check_room_def Let_def split: if_splits)

lemma bound_amount: "check_bound dates now ql b u = Inr () \<Longrightarrow> 0 \<le> or_zero (ub_amountMicros u)"
  by (auto simp: check_bound_def or_zero_def exact_amount_def split: if_splits option.splits)

lemma bump_counts:
  "call_count (bump_budget b s) = call_count s" "action_count (bump_budget b s) = action_count s"
  "spent_micros (bump_budget b s) = spent_micros s" "held_micros (bump_budget b s) = held_micros s"
proof -
  have "ac_reservations (bump_budget b s) = ac_reservations s" "ac_charges (bump_budget b s) = ac_charges s"
    by (simp_all add: bump_budget_def put_budget_def)
  note * = sums_same [OF this]
  show "call_count (bump_budget b s) = call_count s" "action_count (bump_budget b s) = action_count s"
    "spent_micros (bump_budget b s) = spent_micros s" "held_micros (bump_budget b s) = held_micros s" by (rule *)+
qed

lemma new_reservation_counts:
  assumes "reservations_of s (re_attemptId r) = None"
  shows "call_count (put_reservation r s) i = call_count s i + one_if (re_rootBudgetId r = i \<and> has_call r)"
    "action_count (put_reservation r s) i e = action_count s i e + one_if (re_rootBudgetId r = i \<and> re_actionId r = e)"
    "held_micros (put_reservation r s) i = held_micros s i + (if re_rootBudgetId r = i then re_heldMicros r else 0)"
  using assms sum_map_put [of "\<lambda>r. one_if (re_rootBudgetId r = i \<and> has_call r)" "re_attemptId r" r "ac_reservations s"]
    sum_map_put [of "\<lambda>r. one_if (re_rootBudgetId r = i \<and> re_actionId r = e)" "re_attemptId r" r "ac_reservations s"]
    sum_map_put [of "\<lambda>r. if re_rootBudgetId r = i then re_heldMicros r else 0" "re_attemptId r" r "ac_reservations s"]
  by (simp_all add: call_count_def action_count_def held_micros_def put_reservation_def)

lemma new_reservation_fields [simp]:
  "re_attemptId (new_reservation h ql b x c) = in_attemptId c" "re_rootBudgetId (new_reservation h ql b x c) = in_rootBudgetId c"
  "re_actionId (new_reservation h ql b x c) = in_actionId c" "re_heldMicros (new_reservation h ql b x c) = or_zero (ub_amountMicros (in_upperBound c))"
  "has_call (new_reservation h ql b x c)" "re_chargeKeys (new_reservation h ql b x c) = []"
  by (simp_all add: new_reservation_def Let_def has_call_def)

lemma new_reservation_ok: "0 \<le> or_zero (ub_amountMicros (in_upperBound c)) \<Longrightarrow> reservation_ok (new_reservation h ql b x c)"
  by (simp add: reservation_ok_def new_reservation_def Let_def has_call_def)

lemma action_count_length: "action_count s i a = of_nat (length (action_attempts s i a))"
proof -
  have "length (filter (\<lambda>e. P (snd e)) m) = length (filter P (map snd m))" for P and m :: "(string \<times> reservation) list"
    by (induction m) auto
  from this [of "\<lambda>r. re_rootBudgetId r = i \<and> re_actionId r = a" "ac_reservations s"] show ?thesis
    by (simp add: action_count_def one_if_count action_attempts_def)
qed

lemma reserve_ok:
  assumes "reserve h dates now c s = Inr (Inr (t, j, a, again))" "accounts_ok s"
  shows "limits_ok t"
proof -
  obtain b ql x where b: "budgets_of s (in_rootBudgetId c) = Some b" and none: "reservations_of s (in_attemptId c) = None"
    and t: "t = bump_budget b (put_reservation (new_reservation h ql b x c) s)" and bound: "check_bound dates now ql b (in_upperBound c) = Inr ()"
    and room: "check_room dates now ql b c = Inr ()" and act: "length (action_attempts s (in_rootBudgetId c) (in_actionId c)) < 3"
    by (rule reserve_new [OF assms(1)])
  let ?r = "new_reservation h ql b x c" and ?u = "put_reservation (new_reservation h ql b x c) s"
  have lim: "limits_ok s" "tables_ok s" and tot: "totals_ok s (in_rootBudgetId c) b"
    using assms(2) b by (simp_all add: accounts_ok_def limits_ok_def)
  have count: "call_count ?u i = call_count s i + one_if (in_rootBudgetId c = i)" for i
    using new_reservation_counts(1) [of s ?r i] none by simp
  have "call_count s (in_rootBudgetId c) < bd_maxModelCalls b"
    using room_for_call [OF room] tot calls_split [OF lim(2)] by (simp add: totals_ok_def)
  then have room1: "call_count s (in_rootBudgetId c) + 1 \<le> bd_maxModelCalls b"
    using integer_below [of "bd_maxModelCalls b"] lim(1) b by (simp add: limits_ok_def call_count_def one_if_count)
  have acts: "action_count ?u i e \<le> 3" for i e
  proof (cases "in_rootBudgetId c = i \<and> in_actionId c = e")
    case True
    have "action_count s i e + 1 \<le> 3" using act True by (auto simp: action_count_length)
    then show ?thesis using new_reservation_counts(2) [of s ?r i e] none True by (simp add: one_if_def)
  next
    case False
    then show ?thesis using new_reservation_counts(2) [of s ?r i e] none lim(1) by (auto simp: one_if_def limits_ok_def)
  qed
  have u_ok: "tables_ok ?u" by (rule tables_put_reservation [OF lim(2) new_reservation_ok [OF bound_amount [OF bound]]])
  have bud: "budgets_of ?u = budgets_of s" by (simp add: put_reservation_def)
  have "is_integral (bd_maxModelCalls y) \<and> call_count ?u i \<le> bd_maxModelCalls y" if y: "budgets_of s i = Some y" for i y
  proof (cases "i = in_rootBudgetId c")
    case True
    with y b have "y = b" by simp
    with True room1 lim(1) b show ?thesis by (simp add: count one_if_def limits_ok_def)
  next
    case False
    with lim(1) y show ?thesis by (simp add: count one_if_def limits_ok_def)
  qed
  then have "limits_ok ?u" using u_ok acts by (simp add: limits_ok_def bud)
  moreover have "moves ?u t" unfolding t by (rule bump_budget_moves [OF u_ok]) (use b bud in simp)
  ultimately show ?thesis by (rule moves_limits [rotated])
qed

section \<open>Commands and runs\<close>

text \<open>The commands of an attempt move its tables.\<close>

lemma attempt_commands_move:
  assumes "tables_ok s" "reservations_of s i = Some r"
  shows "dispatch_attempt dates now r b s = Inr (u, x) \<Longrightarrow> moves s u" "mark_unknown r s = Inr (u, x) \<Longrightarrow> moves s u"
    "reject_attempt evidence r s = Inr (u, x) \<Longrightarrow> moves s u" "settle_attempt h k r b s = Inr (u, x) \<Longrightarrow> moves s u"
    "reconcile h p evidence r s = Inr (u, x) \<Longrightarrow> moves s u"
proof -
  have r: "reservations_of s (re_attemptId r) = Some r" using assms reservation_key [OF assms] by simp
  show "dispatch_attempt dates now r b s = Inr (u, x) \<Longrightarrow> moves s u" by (rule dispatch_moves [OF _ assms])
  show "mark_unknown r s = Inr (u, x) \<Longrightarrow> moves s u" by (rule unknown_moves [OF _ assms])
  show "reject_attempt evidence r s = Inr (u, x) \<Longrightarrow> moves s u" by (rule reject_moves [OF _ assms])
  show "settle_attempt h k r b s = Inr (u, x) \<Longrightarrow> moves s u" by (rule settle_moves [OF _ assms(1) r])
  show "reconcile h p evidence r s = Inr (u, x) \<Longrightarrow> moves s u" by (rule reconcile_moves [OF _ assms(1) r])
qed

text \<open>What a command hands over to the totals.\<close>

definition prepared :: "host \<Rightarrow> dates \<Rightarrow> rat \<Rightarrow> accounting \<Rightarrow> accounting_command \<Rightarrow> pending \<Rightarrow> bool" where
  "prepared h dates now s c p \<longleftrightarrow>
     (case c of
        HaltBudget i reason evidence \<Rightarrow> halt_budget i reason evidence s = Inr p
      | CreateBudget d \<Rightarrow> create_budget h dates now d s = Inr p
      | Reserve i \<Rightarrow> reserve h dates now i s = Inr (Inr p)
      | MarkDispatched i \<Rightarrow> attempt_command h dates now i (dispatch_attempt dates now) s = Inr p
      | MarkUnknown i \<Rightarrow> attempt_command h dates now i (\<lambda>r b. mark_unknown r) s = Inr p
      | RejectAttempt i _ evidence \<Rightarrow> attempt_command h dates now i (\<lambda>r b. reject_attempt evidence r) s = Inr p
      | Settle k \<Rightarrow> attempt_command h dates now (sc_attemptId k) (settle_attempt h k) s = Inr p
      | Reconcile i provider evidence \<Rightarrow> attempt_command h dates now i (\<lambda>r b. reconcile h provider evidence r) s = Inr p
      | _ \<Rightarrow> False)"

text \<open>Every other command leaves the tables of budgets, reservations and charges; a replayed reservation leaves everything.\<close>

definition same_tables :: "accounting \<Rightarrow> accounting \<Rightarrow> bool" where
  "same_tables s t \<longleftrightarrow> (\<exists>ls. t = s\<lparr> ac_quotaLimits := ls \<rparr>)"

lemma same_tables_intros [intro]: "same_tables s s" "same_tables s (put_limit l s)"
proof -
  have "s = s\<lparr> ac_quotaLimits := ac_quotaLimits s \<rparr>" by simp
  then show "same_tables s s" unfolding same_tables_def by blast
  show "same_tables s (put_limit l s)" unfolding same_tables_def put_limit_def by blast
qed

lemma apply_cases:
  assumes "apply_accounting_command h dates s c now = Inr (t, r)" "ac_schemaVersion s = 1"
  shows "(\<exists>p. prepared h dates now s c p \<and> finish_command s p = Inr (t, r)) \<or>
    same_tables s t \<and> (\<forall>i. c = Reserve i \<longrightarrow> t = s \<and> ar_replayed r)"
proof -
  note a = assms(1) [unfolded apply_accounting_command_def]
  show ?thesis
  proof (cases c)
    case (Reserve i)
    with a assms(2) obtain z where z: "reserve h dates now i s = Inr z"
      and t: "(case z of Inl (b, r) \<Rightarrow> Inr (s, no_result\<lparr> ar_budget := Some b, ar_reservation := Some r, ar_replayed := True \<rparr>)
          | Inr p \<Rightarrow> finish_command s p) = Inr (t, r)"
      by (auto simp: result_simps)
    with Reserve show ?thesis by (cases z) (auto simp: prepared_def)
  qed (use a assms(2) in \<open>auto simp: result_simps prepared_def create_quota_limit_def halt_quota_limit_def Let_def
      split: option.splits if_splits\<close>)
qed

text \<open>The budgets that a command prepares: every old one in its frame.\<close>

definition keeps_budgets :: "accounting \<Rightarrow> accounting \<Rightarrow> bool" where
  "keeps_budgets s t \<longleftrightarrow> (\<forall>i b. budgets_of s i = Some b \<longrightarrow> (\<exists>b'. budgets_of t i = Some b' \<and> budget_frame b b'))"

lemma moves_keeps: "moves s t \<Longrightarrow> keeps_budgets s t"
  unfolding keeps_budgets_def by (blast elim: moves_budget)

lemma reserve_keeps:
  assumes "reserve h dates now c s = Inr (Inr (t, j, a, again))" "tables_ok s"
  shows "keeps_budgets s t"
proof -
  obtain b ql x where b: "budgets_of s (in_rootBudgetId c) = Some b"
    and t: "t = bump_budget b (put_reservation (new_reservation h ql b x c) s)"
    by (rule reserve_new [OF assms(1)])
  have id: "bd_rootBudgetId b = in_rootBudgetId c" by (rule budget_key [OF assms(2) b])
  have "budget_frame b (b\<lparr> bu_version := bu_version b + 1 \<rparr>)" by (simp add: budget_frame_def budget_definition.truncate_def)
  then show ?thesis using b id by (auto simp: keeps_budgets_def t bump_budget_def put_budget_def put_reservation_def)
qed

lemma prepared_cases:
  assumes "prepared h dates now s c (u, j, x, y)" "accounts_ok s"
  obtains "moves s u"
  | d where "c = CreateBudget d" "create_budget h dates now d s = Inr (u, j, x, y)"
  | i where "c = Reserve i" "reserve h dates now i s = Inr (Inr (u, j, x, y))"
proof -
  note tab = accounts_tables [OF assms(2)]
  note mv = attempt_commands_move [OF tab]
  have "moves s u \<or> (\<exists>d. c = CreateBudget d) \<or> (\<exists>i. c = Reserve i)"
  proof (cases c)
    case (HaltBudget i reason evidence)
    with assms(1) halt_moves [OF _ tab] show ?thesis by (simp add: prepared_def)
  next
    case (MarkDispatched i)
    with assms(1) attempt_moves [OF _ tab mv(1)] show ?thesis unfolding prepared_def by (simp; blast)
  next
    case (MarkUnknown i)
    with assms(1) attempt_moves [OF _ tab mv(2)] show ?thesis unfolding prepared_def by (simp; blast)
  next
    case (RejectAttempt i x evidence)
    with assms(1) attempt_moves [OF _ tab mv(3)] show ?thesis unfolding prepared_def by (simp; blast)
  next
    case (Settle k)
    with assms(1) attempt_moves [OF _ tab mv(4)] show ?thesis unfolding prepared_def by (simp; blast)
  next
    case (Reconcile i q evidence)
    with assms(1) attempt_moves [OF _ tab mv(5)] show ?thesis unfolding prepared_def by (simp; blast)
  qed (use assms in \<open>simp_all add: prepared_def\<close>)
  with that assms(1) show thesis by (auto simp: prepared_def)
qed

lemma prepared_ok:
  assumes "prepared h dates now s c (u, j, x, y)" "accounts_ok s"
  shows "limits_ok u \<and> keeps_budgets s u"
  using assms
proof (cases rule: prepared_cases)
  case 1
  have "limits_ok s" using assms(2) by (simp add: accounts_ok_def)
  with moves_limits [OF 1] moves_keeps [OF 1] show ?thesis by simp
next
  case (2 d)
  have "keeps_budgets s u" by (rule create_cases [OF 2(2)]) (auto simp: keeps_budgets_def put_budget_def)
  with create_ok [OF 2(2) assms(2)] show ?thesis by simp
next
  case (3 i)
  with reserve_ok [OF 3(2) assms(2)] reserve_keeps [OF 3(2) accounts_tables [OF assms(2)]] show ?thesis by simp
qed

lemma same_tables_ok: "same_tables s t \<Longrightarrow> accounts_ok s \<Longrightarrow> accounts_ok t"
proof -
  assume st: "same_tables s t" and s: "accounts_ok s"
  obtain ls where t: "t = s\<lparr> ac_quotaLimits := ls \<rparr>" using st by (auto simp: same_tables_def)
  have same: "ac_reservations t = ac_reservations s" "ac_charges t = ac_charges s" "ac_budgets t = ac_budgets s" by (simp_all add: t)
  have "totals_ok t = totals_ok s"
    by (intro ext) (simp only: totals_ok_def sums_same [OF same(1,2)])
  then show ?thesis
    using s sums_same [OF same(1,2)] same by (simp add: accounts_ok_def limits_ok_def rooted_def) (simp add: t tables_ok_def)
qed

lemma finished_frame: "finished s i b b' \<Longrightarrow> budget_frame b b'"
  by (auto simp: finished_def refreshed_def budget_frame_def budget_definition.truncate_def)

lemma keeps_trans: "keeps_budgets r s \<Longrightarrow> keeps_budgets s t \<Longrightarrow> keeps_budgets r t"
  unfolding keeps_budgets_def by (meson budget_frame_trans)

lemma apply_ok:
  assumes "apply_accounting_command h dates s c now = Inr (t, r)" "accounts_ok s"
  shows "accounts_ok t \<and> keeps_budgets s t"
proof -
  have "ac_schemaVersion s = 1" using accounts_tables [OF assms(2)] by (simp add: tables_ok_def)
  from apply_cases [OF assms(1) this] show ?thesis
  proof (elim disjE exE conjE)
    fix p assume p: "prepared h dates now s c p" "finish_command s p = Inr (t, r)"
    obtain u j x y where u: "p = (u, j, x, y)" by (cases p)
    have lim: "limits_ok u" "keeps_budgets s u" using prepared_ok [OF p(1) [unfolded u] assms(2)] by simp_all
    then have "tables_ok u" by (simp add: limits_ok_def)
    then have "\<forall>i. rel_option (finished u i) (budgets_of u i) (budgets_of t i)" using finish_budgets p(2) u by blast
    then have "keeps_budgets u t" unfolding keeps_budgets_def by (metis finished_frame option_rel_Some1)
    with finish_ok [OF p(2) [unfolded u] lim(1)] lim(2) show ?thesis by (auto intro: keeps_trans)
  next
    assume "same_tables s t"
    then show ?thesis using same_tables_ok [OF _ assms(2)] by (auto simp: same_tables_def keeps_budgets_def)
  qed
qed

text \<open>The reservations of a state stay, under the same intent.\<close>

definition keeps_intents :: "accounting \<Rightarrow> accounting \<Rightarrow> bool" where
  "keeps_intents s t \<longleftrightarrow> (\<forall>i r. reservations_of s i = Some r \<longrightarrow> (\<exists>r'. reservations_of t i = Some r' \<and> re_intentHash r' = re_intentHash r))"

lemma keeps_intents_trans: "keeps_intents r s \<Longrightarrow> keeps_intents s t \<Longrightarrow> keeps_intents r t"
  unfolding keeps_intents_def by metis

lemma moves_intents: "moves s t \<Longrightarrow> keeps_intents s t"
  unfolding keeps_intents_def by (metis moves_reservation progress_def)

lemma prepared_intents:
  assumes "prepared h dates now s c (u, j, x, y)" "accounts_ok s"
  shows "keeps_intents s u"
  using assms
proof (cases rule: prepared_cases)
  case (2 d)
  show ?thesis by (rule create_cases [OF 2(2)]) (simp_all add: keeps_intents_def put_budget_def)
next
  case (3 i)
  show ?thesis by (rule reserve_new [OF 3(2)]) (auto simp: keeps_intents_def bump_budget_def put_budget_def put_reservation_def)
qed (rule moves_intents)

lemma apply_intents:
  assumes "apply_accounting_command h dates s c now = Inr (t, r)" "accounts_ok s"
  shows "keeps_intents s t"
proof -
  have "ac_schemaVersion s = 1" using accounts_tables [OF assms(2)] by (simp add: tables_ok_def)
  from apply_cases [OF assms(1) this] show ?thesis
  proof (elim disjE exE conjE)
    fix p assume p: "prepared h dates now s c p" "finish_command s p = Inr (t, r)"
    obtain u j x y where u: "p = (u, j, x, y)" by (cases p)
    have "tables_ok u" using prepared_ok [OF p(1) [unfolded u] assms(2)] by (simp add: limits_ok_def)
    then have "ac_reservations t = ac_reservations u" using finish_budgets [OF p(2) [unfolded u]] by blast
    with prepared_intents [OF p(1) [unfolded u] assms(2)] show ?thesis by (simp add: keeps_intents_def)
  qed (auto simp: same_tables_def keeps_intents_def)
qed

lemma empty_ok: "accounts_ok empty_accounting_state"
  by (simp add: accounts_ok_def limits_ok_def tables_ok_def rooted_def empty_accounting_state_def action_count_def)

lemma execute_ok: "accounts_ok s \<Longrightarrow> accounts_ok (snd (execute_command h dates c s)) \<and> keeps_budgets s (snd (execute_command h dates c s))"
proof -
  assume s: "accounts_ok s"
  obtain k now where c: "c = (k, now)" by (cases c)
  show ?thesis
  proof (cases "apply_accounting_command h dates s k now")
    case (Inl e)
    with s show ?thesis by (simp add: execute_command_def c keeps_budgets_def)
  next
    case (Inr tr)
    then obtain t r where "apply_accounting_command h dates s k now = Inr (t, r)" by (cases tr) simp
    with apply_ok [OF this s] show ?thesis by (simp add: execute_command_def c)
  qed
qed

lemma run_ok: "accounts_ok s \<Longrightarrow> accounts_ok (run_commands h dates cs s) \<and> keeps_budgets s (run_commands h dates cs s)"
proof (induction cs arbitrary: s)
  case (Cons c cs)
  let ?t = "snd (execute_command h dates c s)"
  have t: "accounts_ok ?t" "keeps_budgets s ?t" using execute_ok [OF Cons.prems] by simp_all
  then have "accounts_ok (run_commands h dates cs ?t)" "keeps_budgets ?t (run_commands h dates cs ?t)" using Cons.IH by simp_all
  with keeps_trans [OF t(2)] show ?case by simp
qed (simp add: keeps_budgets_def)

lemma run_intents: "accounts_ok s \<Longrightarrow> keeps_intents s (run_commands h dates cs s)"
proof (induction cs arbitrary: s)
  case (Cons c cs)
  obtain k now where c: "c = (k, now)" by (cases c)
  have "keeps_intents s (snd (execute_command h dates c s))"
    using apply_intents [OF _ Cons.prems] by (auto simp: execute_command_def c keeps_intents_def split: sum.splits)
  moreover have "accounts_ok (snd (execute_command h dates c s))" using execute_ok [OF Cons.prems] by simp
  ultimately show ?case using Cons.IH keeps_intents_trans by simp
qed (simp add: keeps_intents_def)

end
