(* ===== verification/BudgetProps.thy ===== *)
theory BudgetProps
  imports BudgetInvariant
begin

text \<open>
  The properties of the accounting: calls and attempts stay within the budget, the totals are the sums of what
  a reader sees, a stopped budget sends nothing any more, only reported charges can overdraw a budget, and a
  repeated reservation is a replay.
\<close>

section \<open>A sample run\<close>

definition plain_host :: host where
  "plain_host = \<lparr> sha256 = take 8, num_text = (\<lambda>q. show_int \<lfloor>q\<rfloor>), locale_compare = compare_text \<rparr>"

definition any_dates :: dates where
  "any_dates = (\<lambda>_. None)"

definition sample_limit :: quota_definition where
  "sample_limit = \<lparr> qd_quotaLimitId = ''L'', qd_amountMode = None, qd_currency = ''USD'', qd_maxCostMicros = 100,
     qd_quotaScopeIds = [''acct''], qd_sourceRef = ''owner'' \<rparr>"

definition sample_budget :: budget_definition where
  "sample_budget = \<lparr> bd_rootBudgetId = ''B'', bd_mode = None, bd_currency = ''USD'', bd_maxCostMicros = Some 50, bd_maxModelCalls = 2,
     bd_maxOutputTokens = 10, bd_deadlineAt = ''1970-01-01T00:00:01.000Z'', bd_sourceRef = ''owner'', bd_quotaLimitId = Some ''L'' \<rparr>"

definition sample_reservation :: "string \<Rightarrow> rat \<Rightarrow> reservation_input" where
  "sample_reservation a q = \<lparr> in_rootBudgetId = ''B'', in_attemptId = a, in_actionId = ''act'', in_quotaScopeId = ''acct'',
     in_upperBound = \<lparr> ub_currency = ''USD'', ub_amountMicros = Some q, ub_reliable = True, ub_source = PriceTable, ub_sourceRef = ''prices'',
       ub_expiresAt = None, ub_estimateBasis = None \<rparr>,
     in_foregroundCallFloor = None, in_snapshotHash = Some ''s'', in_financialIntentId = None \<rparr>"

definition sample_settle :: "string \<Rightarrow> rat \<Rightarrow> settle_command" where
  "sample_settle a q = \<lparr> sc_attemptId = a, sc_usageRevision = 1, sc_providerExecutionId = Some ''x'',
     sc_charges = [\<lparr> ci_component = ''tokens'', ci_amountMicros = Some q, ci_currency = ''USD'', ci_usage = Null, ci_kind = ProviderReported \<rparr>],
     sc_complete = True, sc_postResponseUpperBound = None \<rparr>"

definition sample_commands :: "(accounting_command \<times> rat) list" where
  "sample_commands = [(CreateQuotaLimit sample_limit, 1), (CreateBudget sample_budget, 2), (Reserve (sample_reservation ''a'' 20), 3),
     (MarkDispatched ''a'', 4), (Settle (sample_settle ''a'' 15), 5), (Reserve (sample_reservation ''b'' 30), 6)]"

definition sample_state :: accounting where
  "sample_state = run_commands plain_host any_dates sample_commands empty_accounting_state"

definition halt_sample :: "accounting_command \<times> rat" where
  "halt_sample = (HaltBudget ''B'' ''stop'' ''ticket'', 7)"

text \<open>The run is evaluated once, for all examples below.\<close>

lemma sample_facts:
  "case apply_accounting_command plain_host any_dates (run_commands plain_host any_dates (take 2 sample_commands) empty_accounting_state)
      (Reserve (sample_reservation ''a'' 20)) 3 of
     Inl e \<Rightarrow> False
   | Inr (s3, r3) \<Rightarrow>
       (let s5 = run_commands plain_host any_dates [(MarkDispatched ''a'', 4), (Settle (sample_settle ''a'' 15), 5)] s3
        in (case budgets_of s5 ''B'' of None \<Rightarrow> False | Some b \<Rightarrow> \<not> bu_overdrawn b) \<and>
           (case apply_accounting_command plain_host any_dates s5 (Reserve (sample_reservation ''b'' 30)) 6 of
              Inl e \<Rightarrow> False
            | Inr (s6, r6) \<Rightarrow>
                map_option (\<lambda>b. (bu_spentCalls b, bu_heldCalls b, bu_spentMicros b, bu_heldMicros b)) (budgets_of s6 ''B'') = Some (1, 1, 15, 30) \<and>
                \<not> isl (read_budget s6 ''B'') \<and>
                (case budgets_of (snd (execute_command plain_host any_dates halt_sample s6)) ''B'' of
                   None \<Rightarrow> False | Some b \<Rightarrow> bu_overdrawn b \<or> is_given (bu_blockedReason b))))"
  by code_simp

lemma run_append: "run_commands h dates (cs @ ds) s = run_commands h dates ds (run_commands h dates cs s)"
  by (induction cs arbitrary: s) auto

lemma run_accepted: "apply_accounting_command h dates s c now = Inr (t, r) \<Longrightarrow> run_commands h dates ((c, now) # cs) s = run_commands h dates cs t"
  by (simp add: execute_command_def)

lemma sample_run:
  obtains s3 r3 r6 where
    "apply_accounting_command plain_host any_dates (run_commands plain_host any_dates (take 2 sample_commands) empty_accounting_state)
      (Reserve (sample_reservation ''a'' 20)) 3 = Inr (s3, r3)"
    "run_commands plain_host any_dates (drop 3 sample_commands) s3 = sample_state"
    "\<exists>b. budgets_of (run_commands plain_host any_dates (take 5 sample_commands) empty_accounting_state) ''B'' = Some b \<and> \<not> bu_overdrawn b"
    "apply_accounting_command plain_host any_dates (run_commands plain_host any_dates (take 5 sample_commands) empty_accounting_state)
      (Reserve (sample_reservation ''b'' 30)) 6 = Inr (sample_state, r6)"
    "map_option (\<lambda>b. (bu_spentCalls b, bu_heldCalls b, bu_spentMicros b, bu_heldMicros b)) (budgets_of sample_state ''B'') = Some (1, 1, 15, 30)"
    "\<exists>v. read_budget sample_state ''B'' = Inr v"
    "\<exists>b. budgets_of (run_commands plain_host any_dates (sample_commands @ [halt_sample]) empty_accounting_state) ''B'' = Some b \<and>
       (bu_overdrawn b \<or> is_given (bu_blockedReason b))"
proof -
  define s2 where "s2 = run_commands plain_host any_dates (take 2 sample_commands) empty_accounting_state"
  obtain s3 r3 where s3: "apply_accounting_command plain_host any_dates s2 (Reserve (sample_reservation ''a'' 20)) 3 = Inr (s3, r3)"
    using sample_facts by (auto simp: s2_def split: sum.splits)
  define s5 where "s5 = run_commands plain_host any_dates [(MarkDispatched ''a'', 4), (Settle (sample_settle ''a'' 15), 5)] s3"
  note f = sample_facts [folded s2_def, unfolded s3 sum.case prod.case, folded s5_def, unfolded Let_def, folded s5_def]
  obtain s6 r6 where s6: "apply_accounting_command plain_host any_dates s5 (Reserve (sample_reservation ''b'' 30)) 6 = Inr (s6, r6)"
    using f by (auto split: sum.splits)
  have five: "run_commands plain_host any_dates (take 5 sample_commands) empty_accounting_state = s5"
  proof -
    have "take 5 sample_commands = take 2 sample_commands @ (Reserve (sample_reservation ''a'' 20), 3) #
        [(MarkDispatched ''a'', 4), (Settle (sample_settle ''a'' 15), 5)]"
      by (simp add: sample_commands_def)
    then show ?thesis by (simp only: run_append s2_def [symmetric] run_accepted [OF s3] s5_def)
  qed
  have six: "sample_state = s6"
  proof -
    have "sample_commands = take 5 sample_commands @ [(Reserve (sample_reservation ''b'' 30), 6)]" by (simp add: sample_commands_def)
    then have "sample_state = run_commands plain_host any_dates [(Reserve (sample_reservation ''b'' 30), 6)] s5"
      unfolding sample_state_def using five run_append by metis
    then show ?thesis using s6 by (simp add: execute_command_def)
  qed
  have drop3: "run_commands plain_host any_dates (drop 3 sample_commands) s3 = sample_state"
  proof -
    have "drop 3 sample_commands = [(MarkDispatched ''a'', 4), (Settle (sample_settle ''a'' 15), 5)] @ [(Reserve (sample_reservation ''b'' 30), 6)]"
      by (simp add: sample_commands_def)
    then show ?thesis by (simp only: run_append s5_def [symmetric] run_accepted [OF s6] run_commands.simps(1) six)
  qed
  have "run_commands plain_host any_dates (sample_commands @ [halt_sample]) empty_accounting_state =
      snd (execute_command plain_host any_dates halt_sample s6)"
    by (simp only: run_append six [unfolded sample_state_def] run_commands.simps)
  with f s6 have seven: "\<exists>b. budgets_of (run_commands plain_host any_dates (sample_commands @ [halt_sample]) empty_accounting_state) ''B'' = Some b \<and>
       (bu_overdrawn b \<or> is_given (bu_blockedReason b))"
    by (simp split: option.splits)
  have "\<exists>b. budgets_of s5 ''B'' = Some b \<and> \<not> bu_overdrawn b" using f by (simp split: option.splits)
  moreover have "\<exists>v. read_budget s6 ''B'' = Inr v" using f s6 by (cases "read_budget s6 ''B''") simp_all
  ultimately show thesis
    using that [OF s3 [unfolded s2_def] drop3] s6 seven f unfolding five six by simp
qed

lemma reachable_ok: "accounts_ok (run_commands h dates cs empty_accounting_state)"
  using run_ok [OF empty_ok] by simp

section \<open>Calls\<close>

text \<open>
  C24: After any commands, accepted or refused, a budget has spent and holds together at most its number of
  model calls, and an action of a budget has at most three attempts.
\<close>

theorem budget_calls_bounded:
  assumes "budgets_of (run_commands h dates cs empty_accounting_state) i = Some b"
  shows "bu_spentCalls b + bu_heldCalls b \<le> bd_maxModelCalls b \<and>
    length (action_attempts (run_commands h dates cs empty_accounting_state) i a) \<le> 3"
proof -
  let ?s = "run_commands h dates cs empty_accounting_state"
  have ok: "totals_ok ?s i b" "tables_ok ?s" "call_count ?s i \<le> bd_maxModelCalls b" "action_count ?s i a \<le> 3"
    using reachable_ok [of h dates cs] assms by (simp_all add: accounts_ok_def limits_ok_def)
  have "rat_of_nat (length (action_attempts ?s i a)) \<le> of_nat 3" using ok(4) by (simp add: action_count_length)
  then have "length (action_attempts ?s i a) \<le> 3" by (simp only: of_nat_le_iff)
  with ok(1,3) calls_split [OF ok(2), of i] show ?thesis by (simp add: totals_ok_def)
qed

theorem budget_calls_bounded_witness:
  "case budgets_of sample_state ''B'' of None \<Rightarrow> False | Some b \<Rightarrow> bu_spentCalls b + bu_heldCalls b \<le> bd_maxModelCalls b"
proof (cases "budgets_of sample_state ''B''")
  case None
  with sample_run show ?thesis by (metis option.simps(3) option.map_disc_iff)
next
  case (Some b)
  with budget_calls_bounded [of plain_host any_dates sample_commands "''B''" b] show ?thesis by (simp add: sample_state_def)
qed

section \<open>Totals\<close>

text \<open>
  C25: The totals that the ledger keeps are those of the reservations and charges that a reader of the budget
  sees: calls spent and held, amounts held, and charges in the currency of the budget.
\<close>

theorem totals_are_sums:
  assumes "read_budget (run_commands h dates cs empty_accounting_state) i = Inr v"
  shows "bu_spentCalls (bv_budget v) = of_nat (length (filter re_dispatched (bv_reservations v))) \<and>
    bu_heldCalls (bv_budget v) = of_nat (length (filter re_callHeld (bv_reservations v))) \<and>
    bu_heldMicros (bv_budget v) = sum_list (map re_heldMicros (bv_reservations v)) \<and>
    bu_spentMicros (bv_budget v) =
      sum_list (map (\<lambda>c. or_zero (ch_amountMicros c)) (filter (\<lambda>c. ch_currency c = bd_currency (bv_budget v)) (bv_charges v)))"
proof -
  let ?s = "run_commands h dates cs empty_accounting_state"
  obtain b where b: "budgets_of ?s i = Some b" "bv_budget v = b"
    and r: "bv_reservations v = filter (\<lambda>r. re_rootBudgetId r = i) (map snd (ac_reservations ?s))"
    and c: "bv_charges v = filter (\<lambda>c. ch_rootBudgetId c = i) (map snd (ac_charges ?s))"
    using assms by (auto simp: read_budget_def result_simps)
  have t: "totals_ok ?s i b" using reachable_ok [of h dates cs] b(1) by (simp add: accounts_ok_def)
  have count: "sum_list (map (\<lambda>e. one_if (re_rootBudgetId (snd e) = i \<and> P (snd e))) m) =
      of_nat (length (filter P (filter (\<lambda>r. re_rootBudgetId r = i) (map snd m))))" for P and m :: "(string \<times> reservation) list"
    by (induction m) (auto simp: one_if_def)
  have held: "sum_list (map (\<lambda>e. if re_rootBudgetId (snd e) = i then re_heldMicros (snd e) else 0) m) =
      sum_list (map re_heldMicros (filter (\<lambda>r. re_rootBudgetId r = i) (map snd m)))" for m :: "(string \<times> reservation) list"
    by (induction m) auto
  have spent: "sum_list (map (\<lambda>e. charge_amount i x (snd e)) m) =
      sum_list (map (\<lambda>c. or_zero (ch_amountMicros c)) (filter (\<lambda>c. ch_currency c = x) (filter (\<lambda>c. ch_rootBudgetId c = i) (map snd m))))"
    for x and m :: "(charge_key \<times> charge) list"
    by (induction m) (auto simp: charge_amount_def)
  show ?thesis
    using t unfolding totals_ok_def spent_calls_def held_calls_def held_micros_def spent_micros_def count held spent b(2) r c by simp
qed

theorem totals_are_sums_witness:
  "case read_budget sample_state ''B'' of Inl e \<Rightarrow> False | Inr v \<Rightarrow> bu_heldMicros (bv_budget v) = sum_list (map re_heldMicros (bv_reservations v))"
proof -
  obtain v where "read_budget sample_state ''B'' = Inr v" by (rule sample_run) blast
  with totals_are_sums [of plain_host any_dates sample_commands "''B''" v] show ?thesis by (simp add: sample_state_def)
qed

section \<open>Stopped budgets\<close>

definition is_stopped :: "accounting \<Rightarrow> string \<Rightarrow> bool" where
  "is_stopped s i \<longleftrightarrow> (case budgets_of s i of None \<Rightarrow> False | Some b \<Rightarrow> bu_overdrawn b \<or> is_given (bu_blockedReason b))"

lemma keeps_stopped: "keeps_budgets s t \<Longrightarrow> is_stopped s i \<Longrightarrow> is_stopped t i"
  by (fastforce simp: keeps_budgets_def is_stopped_def budget_frame_def split: option.splits)

lemma stopped_no_room: "budgets_of s i = Some b \<Longrightarrow> is_stopped s i \<Longrightarrow> check_room dates now ql b c \<noteq> Inr ()"
  by (auto simp: is_stopped_def check_room_def Let_def split: if_splits)

text \<open>
  C26: A budget that is overdrawn or halted stays so through any commands, and from then on no attempt of it is
  newly reserved and none is sent: a reservation or dispatch that is accepted repeats an earlier one.
\<close>

theorem stopped_budget_sends_nothing:
  assumes "is_stopped (run_commands h dates cs empty_accounting_state) i"
    and "t = run_commands h dates ds (run_commands h dates cs empty_accounting_state)"
  shows "(\<forall>c now u r. in_rootBudgetId c = i \<longrightarrow> apply_accounting_command h dates t (Reserve c) now = Inr (u, r) \<longrightarrow> ar_replayed r \<and> u = t) \<and>
    (\<forall>a now u r x. reservations_of t a = Some x \<longrightarrow> re_rootBudgetId x = i \<longrightarrow>
       apply_accounting_command h dates t (MarkDispatched a) now = Inr (u, r) \<longrightarrow> re_state x = RsDispatched)"
proof -
  have t: "accounts_ok t" "is_stopped t i"
    using run_ok [OF reachable_ok [of h dates cs], of h dates ds] keeps_stopped assms by auto
  have schema: "ac_schemaVersion t = 1" using accounts_tables [OF t(1)] by (simp add: tables_ok_def)
  have "ar_replayed r \<and> u = t" if c: "in_rootBudgetId c = i" and a: "apply_accounting_command h dates t (Reserve c) now = Inr (u, r)" for c now u r
    using apply_cases [OF a schema]
  proof (elim disjE exE conjE)
    fix p assume "prepared h dates now t (Reserve c) p"
    then obtain u j x y where z: "reserve h dates now c t = Inr (Inr (u, j, x, y))" by (cases p) (auto simp: prepared_def)
    obtain b ql where "budgets_of t (in_rootBudgetId c) = Some b" "check_room dates now ql b c = Inr ()"
      by (rule reserve_new [OF z])
    with stopped_no_room t(2) c show ?thesis by blast
  qed simp
  moreover have "re_state x = RsDispatched"
    if x: "reservations_of t a = Some x" "re_rootBudgetId x = i" and d: "apply_accounting_command h dates t (MarkDispatched a) now = Inr (u, r)" for a now u r x
  proof (rule ccontr)
    assume n: "re_state x \<noteq> RsDispatched"
    obtain p where p: "attempt_command h dates now a (dispatch_attempt dates now) t = Inr p"
      using d schema by (auto simp: apply_accounting_command_def result_simps)
    then obtain b v where b: "budgets_of t i = Some b" and v: "dispatch_attempt dates now x b t = Inr v"
      using x by (auto simp: attempt_command_def result_simps)
    then have "bu_overdrawn b \<or> is_given (bu_blockedReason b)" using t(2) by (simp add: is_stopped_def)
    with v n show False by (auto simp: dispatch_attempt_def split: if_splits)
  qed
  ultimately show ?thesis by blast
qed

theorem stopped_budget_sends_nothing_witness:
  "case apply_accounting_command plain_host any_dates (run_commands plain_host any_dates (sample_commands @ [halt_sample]) empty_accounting_state)
      (Reserve (sample_reservation ''d'' 1)) 8 of Inl e \<Rightarrow> True | Inr (u, r) \<Rightarrow> ar_replayed r"
proof -
  let ?s = "run_commands plain_host any_dates (sample_commands @ [halt_sample]) empty_accounting_state"
  have stop: "is_stopped ?s ''B''" by (rule sample_run) (auto simp: is_stopped_def)
  have "in_rootBudgetId (sample_reservation ''d'' 1) = ''B''" by (simp add: sample_reservation_def)
  with stopped_budget_sends_nothing [of plain_host any_dates "sample_commands @ [halt_sample]" "''B''" ?s "[]"] stop
  show ?thesis by (simp split: sum.splits)
qed

section \<open>What can overdraw a budget\<close>

definition over :: "accounting \<Rightarrow> string \<Rightarrow> bool" where
  "over s i \<longleftrightarrow> (case budgets_of s i of None \<Rightarrow> False | Some b \<Rightarrow> bu_overdrawn b)"

text \<open>A state is quiet after another when finishing it raises no overdraft that was not there.\<close>

definition quiet :: "accounting \<Rightarrow> accounting \<Rightarrow> bool" where
  "quiet s u \<longleftrightarrow> (\<forall>i b. budgets_of u i = Some b \<longrightarrow>
     bu_overdrawn b \<or> exceeds (bd_maxCostMicros b) (spent_micros u i (bd_currency b) + held_micros u i) \<longrightarrow> over s i)"

lemma quiet_finish:
  assumes "finish_command p (u, j, a, again) = Inr (t, r)" "tables_ok u" "quiet s u" "over t i"
  shows "over s i"
proof -
  obtain b' where b': "budgets_of t i = Some b'" "bu_overdrawn b'" using assms(4) by (auto simp: over_def split: option.splits)
  then obtain b where "budgets_of u i = Some b" "finished u i b b'" using finish_budgets [OF assms(1,2)] by (metis option_rel_Some2)
  with b'(2) assms(3) show ?thesis by (auto simp: finished_def refreshed_def quiet_def)
qed

lemma exceeds_mono: "exceeds m q \<Longrightarrow> q \<le> r \<Longrightarrow> exceeds m r"
  by (auto simp: exceeds_def split: option.splits)

lemma quiet_moves:
  assumes "accounts_ok s" "moves s u" "ac_charges u = ac_charges s" "\<And>i. held_micros u i \<le> held_micros s i"
    and "\<And>i. over u i \<Longrightarrow> over s i"
  shows "quiet s u"
  unfolding quiet_def
proof (intro allI impI)
  fix i b assume b: "budgets_of u i = Some b" "bu_overdrawn b \<or> exceeds (bd_maxCostMicros b) (spent_micros u i (bd_currency b) + held_micros u i)"
  have "rel_option budget_frame (budgets_of s i) (budgets_of u i)" by (rule rows_map_of) (use assms(2) in \<open>simp add: moves_def\<close>)
  with b(1) obtain b0 where b0: "budgets_of s i = Some b0" "budget_frame b0 b" by (auto simp: option_rel_Some2)
  then have def: "bd_maxCostMicros b = bd_maxCostMicros b0" "bd_currency b = bd_currency b0" by (simp_all add: budget_frame_def truncate_budget)
  have tot: "totals_ok s i b0" using assms(1) b0(1) by (simp add: accounts_ok_def)
  have "spent_micros u i (bd_currency b) = spent_micros s i (bd_currency b0)" by (simp add: spent_micros_def assms(3) def(2))
  then show "over s i"
    using b tot assms(4) [of i] assms(5) [of i] exceeds_mono [of "bd_maxCostMicros b0" _ "spent_micros s i (bd_currency b0) + held_micros s i"]
    by (auto simp: over_def b0(1) def(1) totals_ok_def)
qed

lemma put_held:
  assumes "reservations_of s (re_attemptId r) = Some x" "re_rootBudgetId r = re_rootBudgetId x" "re_heldMicros r \<le> re_heldMicros x"
  shows "held_micros (put_reservation r s) i \<le> held_micros s i"
  using assms sum_map_put [of "\<lambda>r. if re_rootBudgetId r = i then re_heldMicros r else 0" "re_attemptId r" r "ac_reservations s"]
  by (simp add: held_micros_def put_reservation_def)

lemma over_bump:
  assumes "budgets_of s k = Some b" "tables_ok s"
  shows "over (bump_budget b s) i = over s i"
  using assms(1) budget_key [OF assms(2,1)] by (simp add: over_def bump_budget_def put_budget_def)

text \<open>The commands that write one reservation back, holding no more than before.\<close>

lemma light_attempt:
  assumes "attempt_command h dates now i f s = Inr (u, j, a, again)" "accounts_ok s"
    and m: "\<And>r b v x. f r b s = Inr (v, x) \<Longrightarrow> reservations_of s i = Some r \<Longrightarrow> moves s v"
    and light: "\<And>r b v x. f r b s = Inr (v, x) \<Longrightarrow> reservations_of s i = Some r \<Longrightarrow>
      v = s \<or> (\<exists>r'. v = put_reservation r' s \<and> re_attemptId r' = re_attemptId r \<and> re_rootBudgetId r' = re_rootBudgetId r \<and> re_heldMicros r' \<le> re_heldMicros r)"
  shows "quiet s u"
proof (rule quiet_moves [OF assms(2)])
  have tab: "tables_ok s" by (rule accounts_tables [OF assms(2)])
  show "moves s u" by (rule attempt_moves [OF assms(1) tab m])
  obtain r b v x b' where r: "reservations_of s i = Some r" and v: "f r b s = Inr (v, x)" and b': "budgets_of v (re_rootBudgetId r) = Some b'"
    and u: "u = bump_budget b' (bump_reservation r v)"
    using assms(1) by (auto simp: attempt_command_def result_simps split: option.splits)
  have id: "re_attemptId r = i" using reservation_key [OF tab r] by simp
  obtain y where y: "reservations_of v i = Some y" "re_attemptId y = i" and held: "held_micros v k \<le> held_micros s k"
    and same: "ac_charges v = ac_charges s" "ac_budgets v = ac_budgets s" for k
    using light [OF v r]
  proof (elim disjE exE conjE)
    fix r' assume r': "v = put_reservation r' s" "re_attemptId r' = re_attemptId r" "re_rootBudgetId r' = re_rootBudgetId r"
      "re_heldMicros r' \<le> re_heldMicros r"
    have "held_micros v k \<le> held_micros s k" for k unfolding r'(1) by (rule put_held) (use r' r id in simp_all)
    with r' id show thesis by (intro that [of r']) (simp_all add: put_reservation_def)
  qed (use r id that in simp)
  let ?w = "bump_reservation r v"
  have w: "?w = put_reservation (y\<lparr> re_version := re_version y + 1 \<rparr>) v" using y id by (simp add: bump_reservation_def current_reservation_def)
  have "held_micros ?w k \<le> held_micros v k" for k unfolding w by (rule put_held [of _ _ y]) (use y in simp_all)
  then show "held_micros u k \<le> held_micros s k" for k using held [of k] by (simp only: u bump_counts) (rule order_trans)
  show "ac_charges u = ac_charges s" by (simp add: u w same bump_budget_def put_budget_def put_reservation_def)
  have bw: "ac_budgets ?w = ac_budgets s" by (simp add: w put_reservation_def same)
  have "budgets_of ?w (re_rootBudgetId r) = Some b'" using b' same bw by simp
  moreover have "tables_ok ?w"
  proof -
    have "re_attemptId r = i" by (rule id)
    then show ?thesis using moves_tables [OF bump_moves [OF m [OF v r]]] r by blast
  qed
  ultimately show "over s k" if "over u k" for k using that over_bump [of ?w] bw by (simp add: u) (simp add: over_def)
qed

lemma halt_quiet:
  assumes "halt_budget i reason evidence s = Inr (u, j, a, again)" "accounts_ok s"
  shows "quiet s u"
proof (rule quiet_moves [OF assms(2) halt_moves [OF assms(1) accounts_tables [OF assms(2)]]])
  obtain b where b: "budgets_of s i = Some b"
    and u: "u = bump_budget (b\<lparr> bu_blockedReason := Some reason \<rparr>) s \<or>
      (\<exists>l. u = put_limit l (bump_budget (b\<lparr> bu_blockedReason := Some reason \<rparr>) s))"
    using assms(1) by (auto simp: halt_budget_def result_simps Let_def split: if_splits option.splits)
  have "bd_rootBudgetId b = i" using budget_key [OF accounts_tables [OF assms(2)] b] .
  with u b show "ac_charges u = ac_charges s" "held_micros u k \<le> held_micros s k" "over u k \<Longrightarrow> over s k" for k
    by (auto simp: bump_budget_def put_budget_def put_limit_def held_micros_def over_def split: if_splits)
qed

lemma create_quiet:
  assumes "create_budget h dates now v s = Inr (u, j, a, again)" "accounts_ok s"
  shows "quiet s u"
proof -
  have s: "rooted s" "\<And>i b. budgets_of s i = Some b \<Longrightarrow> totals_ok s i b" using assms(2) by (simp_all add: accounts_ok_def)
  have self: "quiet s s"
    unfolding quiet_def
  proof (intro allI impI)
    fix i b assume b: "budgets_of s i = Some b" "bu_overdrawn b \<or> exceeds (bd_maxCostMicros b) (spent_micros s i (bd_currency b) + held_micros s i)"
    with s(2) [OF b(1)] show "over s i" by (auto simp: over_def totals_ok_def)
  qed
  show ?thesis
    using assms(1)
  proof (cases rule: create_cases)
    case (2 d)
    have same: "spent_micros u = spent_micros s" "held_micros u = held_micros s"
      by (rule sums_same; simp add: 2(3) put_budget_def)+
    have none: "\<not> exceeds (bd_maxCostMicros d) 0" using 2(1) by (auto simp: budget_definition_ok_def exceeds_def exact_amount_def split: option.splits)
    show ?thesis
      unfolding quiet_def same
    proof (intro allI impI)
      fix i b assume b: "budgets_of u i = Some b" "bu_overdrawn b \<or> exceeds (bd_maxCostMicros b) (spent_micros s i (bd_currency b) + held_micros s i)"
      show "over s i"
      proof (cases "i = bd_rootBudgetId d")
        case True
        then have "b = new_budget h d" using b(1) 2(3) by (simp add: put_budget_def)
        with b(2) none True unrooted_sums [OF s(1) 2(2)] show ?thesis by simp
      next
        case False
        then have "budgets_of s i = Some b" using b(1) 2(3) by (simp add: put_budget_def)
        with b(2) self show ?thesis unfolding quiet_def by blast
      qed
    qed
  qed (simp add: self)
qed

lemma reserve_quiet:
  assumes "reserve h dates now c s = Inr (Inr (u, j, a, again))" "accounts_ok s"
  shows "quiet s u"
proof -
  obtain b ql x where b: "budgets_of s (in_rootBudgetId c) = Some b" and none: "reservations_of s (in_attemptId c) = None"
    and u: "u = bump_budget b (put_reservation (new_reservation h ql b x c) s)" and room: "check_room dates now ql b c = Inr ()"
    by (rule reserve_new [OF assms(1)])
  have tot: "totals_ok s i y" if "budgets_of s i = Some y" for i y using assms(2) that by (simp add: accounts_ok_def)
  have held: "held_micros u i = held_micros s i + (if in_rootBudgetId c = i then or_zero (ub_amountMicros (in_upperBound c)) else 0)" for i
    using new_reservation_counts(3) [of s "new_reservation h ql b x c" i] none by (simp add: u bump_counts)
  have spent: "spent_micros u = spent_micros s" by (simp add: u bump_counts) (simp add: fun_eq_iff spent_micros_def put_reservation_def)
  have key: "bd_rootBudgetId b = in_rootBudgetId c" by (rule budget_key [OF accounts_tables [OF assms(2)] b])
  have fits: "\<not> bu_overdrawn b" "\<not> exceeds (bd_maxCostMicros b) (bu_spentMicros b + bu_heldMicros b + or_zero (ub_amountMicros (in_upperBound c)))"
    using room by (auto simp: check_room_def Let_def split: if_splits)
  show ?thesis
    unfolding quiet_def
  proof (intro allI impI)
    fix i y assume y: "budgets_of u i = Some y" "bu_overdrawn y \<or> exceeds (bd_maxCostMicros y) (spent_micros u i (bd_currency y) + held_micros u i)"
    show "over s i"
    proof (cases "i = in_rootBudgetId c")
      case True
      then have "y = b\<lparr> bu_version := bu_version b + 1 \<rparr>" using y(1) by (simp add: u bump_budget_def put_budget_def key)
      with y(2) True fits tot [OF b] show ?thesis by (simp add: totals_ok_def held spent add.assoc)
    next
      case False
      then have s_y: "budgets_of s i = Some y" using y(1) by (simp add: u bump_budget_def put_budget_def put_reservation_def key)
      with y(2) False tot [OF s_y] show ?thesis by (auto simp: over_def totals_ok_def held spent)
    qed
  qed
qed

definition reports_usage :: "accounting_command \<Rightarrow> bool" where
  "reports_usage c = (case c of Settle _ \<Rightarrow> True | Reconcile _ _ _ \<Rightarrow> True | _ \<Rightarrow> False)"

lemma prepared_quiet:
  assumes "prepared h dates now s c (u, j, a, again)" "accounts_ok s" "\<not> reports_usage c"
  shows "quiet s u"
proof (cases c)
  case (MarkDispatched i)
  with assms(1) have c: "attempt_command h dates now i (dispatch_attempt dates now) s = Inr (u, j, a, again)" by (simp add: prepared_def)
  show ?thesis
    by (rule light_attempt [OF c assms(2)], rule attempt_commands_move(1) [OF accounts_tables [OF assms(2)]])
      (auto simp: dispatch_attempt_def result_simps split: if_splits)
next
  case (MarkUnknown i)
  with assms(1) have c: "attempt_command h dates now i (\<lambda>r b. mark_unknown r) s = Inr (u, j, a, again)" by (simp add: prepared_def)
  show ?thesis
    by (rule light_attempt [OF c assms(2)], rule attempt_commands_move(2) [OF accounts_tables [OF assms(2)]])
      (auto simp: mark_unknown_def split: if_splits)
next
  case (RejectAttempt i x e)
  with assms(1) have c: "attempt_command h dates now i (\<lambda>r b. reject_attempt e r) s = Inr (u, j, a, again)" by (simp add: prepared_def)
  have "0 \<le> re_heldMicros r" if "reservations_of s i = Some r" for r
    using reservation_key [OF accounts_tables [OF assms(2)] that] by (simp add: reservation_ok_def)
  then show ?thesis
    by (intro light_attempt [OF c assms(2)], intro attempt_commands_move(3) [OF accounts_tables [OF assms(2)]])
      (auto simp: reject_attempt_def split: if_splits)
qed (use assms halt_quiet create_quiet reserve_quiet in \<open>simp_all add: prepared_def reports_usage_def\<close>)

text \<open>
  Only usage reports overdraw: a command that is neither a settlement nor a reconciliation leaves no budget
  overdrawn that was not overdrawn before it.
\<close>

theorem only_usage_overdraws:
  assumes "apply_accounting_command h dates (run_commands h dates cs empty_accounting_state) c now = Inr (t, r)"
    and "\<not> reports_usage c" "over t i"
  shows "over (run_commands h dates cs empty_accounting_state) i"
proof -
  let ?s = "run_commands h dates cs empty_accounting_state"
  have ok: "accounts_ok ?s" by (rule reachable_ok)
  then have schema: "ac_schemaVersion ?s = 1" using accounts_tables by (simp add: tables_ok_def)
  show ?thesis
    using apply_cases [OF assms(1) schema]
  proof (elim disjE exE conjE)
    fix p assume p: "prepared h dates now ?s c p" "finish_command ?s p = Inr (t, r)"
    obtain u j a again where u: "p = (u, j, a, again)" by (cases p)
    have "limits_ok u" using prepared_ok [OF p(1) [unfolded u] ok] by simp
    then show ?thesis using quiet_finish [OF p(2) [unfolded u] _ prepared_quiet [OF p(1) [unfolded u] ok assms(2)] assms(3)] by (simp add: limits_ok_def)
  qed (use assms(3) in \<open>auto simp: same_tables_def over_def\<close>)
qed

theorem only_usage_overdraws_witness:
  "\<not> over sample_state ''B''"
proof -
  let ?s = "run_commands plain_host any_dates (take 5 sample_commands) empty_accounting_state"
  obtain r where a: "apply_accounting_command plain_host any_dates ?s (Reserve (sample_reservation ''b'' 30)) 6 = Inr (sample_state, r)"
    by (rule sample_run) blast
  have no: "\<not> over ?s ''B''" by (rule sample_run) (auto simp: over_def)
  have "\<not> reports_usage (Reserve (sample_reservation ''b'' 30))" by (simp add: reports_usage_def)
  with only_usage_overdraws [OF a] no show ?thesis by blast
qed

section \<open>Repeated reservations\<close>

lemma replay_reserve:
  assumes "reserve h dates now c s = Inr z" "keeps_budgets s t" "reservations_of t (in_attemptId c) = Some r"
    and "re_intentHash r = hash_of h (reserve_json c)"
  shows "\<exists>b. reserve h dates now' c t = Inr (Inl (b, r))"
proof -
  obtain x b where x: "check_reserve_input c = Inr x" "budgets_of s (in_rootBudgetId c) = Some b"
    using assms(1) by (auto simp: reserve_def result_simps)
  then obtain b' where "budgets_of t (in_rootBudgetId c) = Some b'" using assms(2) by (auto simp: keeps_budgets_def)
  with x(1) assms(3,4) show ?thesis by (simp add: reserve_def result_simps)
qed

text \<open>A reservation that is accepted, new or replayed, is in the state under its intent.\<close>

lemma reserved_intent:
  assumes "apply_accounting_command h dates s (Reserve c) now = Inr (t, res)" "accounts_ok s"
  shows "\<exists>z r. reserve h dates now c s = Inr z \<and> reservations_of t (in_attemptId c) = Some r \<and> re_intentHash r = hash_of h (reserve_json c)"
proof -
  have schema: "ac_schemaVersion s = 1" using accounts_tables [OF assms(2)] by (simp add: tables_ok_def)
  with assms(1) obtain z where z: "reserve h dates now c s = Inr z"
    and t: "(case z of Inl (b, r) \<Rightarrow> Inr (s, no_result\<lparr> ar_budget := Some b, ar_reservation := Some r, ar_replayed := True \<rparr>)
        | Inr p \<Rightarrow> finish_command s p) = Inr (t, res)"
    by (auto simp: apply_accounting_command_def result_simps)
  show ?thesis
  proof (cases z)
    case (Inl v)
    with z t show ?thesis by (cases v) (auto simp: reserve_def result_simps split: option.splits if_splits)
  next
    case (Inr p)
    obtain u j x y where p: "p = (u, j, x, y)" by (cases p)
    have prep: "prepared h dates now s (Reserve c) (u, j, x, y)" using z Inr p by (simp add: prepared_def)
    have "tables_ok u" using prepared_ok [OF prep assms(2)] by (simp add: limits_ok_def)
    moreover have "finish_command s (u, j, x, y) = Inr (t, res)" using t Inr p by simp
    ultimately have "ac_reservations t = ac_reservations u" using finish_budgets by blast
    moreover have "\<exists>r. reservations_of u (in_attemptId c) = Some r \<and> re_intentHash r = hash_of h (reserve_json c)"
      by (rule reserve_new [OF z [unfolded Inr p]])
        (auto simp: bump_budget_def put_budget_def put_reservation_def new_reservation_def Let_def)
    ultimately show ?thesis using z by auto
  qed
qed

text \<open>
  A reservation that was accepted once is a replay for ever: after any further commands, at any time, the
  same request is accepted again, returns the stored reservation, says so and leaves the state as it is.
\<close>

theorem repeated_reservation_is_replayed:
  assumes "apply_accounting_command h dates (run_commands h dates cs empty_accounting_state) (Reserve c) now = Inr (s, res)"
    and "t = run_commands h dates ds s"
  shows "\<exists>b r. reservations_of t (in_attemptId c) = Some r \<and>
    apply_accounting_command h dates t (Reserve c) later = Inr (t, no_result\<lparr> ar_budget := Some b, ar_reservation := Some r, ar_replayed := True \<rparr>)"
proof -
  have ok: "accounts_ok (run_commands h dates cs empty_accounting_state)" by (rule reachable_ok)
  note s = apply_ok [OF assms(1) ok]
  have t: "accounts_ok t" "keeps_budgets s t" "keeps_intents s t"
    using run_ok run_intents s assms(2) by blast+
  obtain z r where z: "reserve h dates now c (run_commands h dates cs empty_accounting_state) = Inr z"
    and r: "reservations_of s (in_attemptId c) = Some r" "re_intentHash r = hash_of h (reserve_json c)"
    using reserved_intent [OF assms(1) ok] by blast
  obtain r' where r': "reservations_of t (in_attemptId c) = Some r'" "re_intentHash r' = hash_of h (reserve_json c)"
    using t(3) r unfolding keeps_intents_def by metis
  have "keeps_budgets (run_commands h dates cs empty_accounting_state) t" using s t(2) keeps_trans by blast
  from replay_reserve [OF z this r'] obtain b where "reserve h dates later c t = Inr (Inl (b, r'))" by blast
  moreover have "ac_schemaVersion t = 1" using accounts_tables [OF t(1)] by (simp add: tables_ok_def)
  ultimately show ?thesis using r'(1) by (auto simp: apply_accounting_command_def result_simps)
qed

theorem repeated_reservation_is_replayed_witness:
  "case apply_accounting_command plain_host any_dates sample_state (Reserve (sample_reservation ''a'' 20)) 9 of
     Inl e \<Rightarrow> False | Inr (u, r) \<Rightarrow> ar_replayed r"
proof -
  let ?s = "run_commands plain_host any_dates (take 2 sample_commands) empty_accounting_state"
  obtain t r where a: "apply_accounting_command plain_host any_dates ?s (Reserve (sample_reservation ''a'' 20)) 3 = Inr (t, r)"
    and s: "sample_state = run_commands plain_host any_dates (drop 3 sample_commands) t"
    by (rule sample_run) simp
  show ?thesis using repeated_reservation_is_replayed [OF a s, of 9] by (auto simp: no_result_def)
qed

end
