(* ===== verification/SchedQueue.thy ===== *)
theory SchedQueue
  imports LedgerStates SchedFairness
begin

text \<open>
  The queue of the record scheduler (\<open>src/mcps/memory-store/src/record-scheduler-queue.ts\<close>): an index of the
  units of all ledgers, the units that may be dispatched now, a bounded store of prompts that are materialized
  ahead, and the timer for the next unit whose backoff ends.

  Every operation is a procedure on the queue object. The clock is read once per operation and is an argument;
  so are the reader of dates and the callback that renders a prompt (\<open>None\<close>: it throws). The wake callback
  runs after the operation has left the queue, so an operation returns the wake that it reports.
\<close>

section \<open>State\<close>

datatype wake_reason = WakeTimer | WakeProvider | WakeDependency | WakeResource | WakeCancel | WakeRebuild

datatype waiting_reason = BlockedDependency | WaitingBackoff | WaitingResource | WaitingSource

datatype queue_mode = Materializing | EligibilityOnly

datatype queue_error =
  BadMaximum | DuplicateTask string | DuplicateUnit string string | QueueMaterializeReentrancy | PromptFailed

record queue_recipe =
  qr_sourceSnapshotId :: string
  qr_sourceSpool :: blob_ref
  qr_unitId :: string
  qr_layer :: string
  qr_continuationKey :: "string option"
  qr_composeOrder :: rat
  qr_inputHash :: string

record 'p queue_prompt =
  qp_taskId :: string
  qp_recordId :: string
  qp_unitId :: string
  qp_recipe :: queue_recipe
  qp_prompt :: 'p
  qp_materializedAt :: rat

record queue_view =
  qv_taskId :: string
  qv_recordId :: string
  qv_unitId :: string
  qv_state :: ledger_unit_state
  qv_dependencies :: "string list"
  qv_continuationKey :: "string option"
  qv_composeOrder :: rat
  qv_nextEligibleAt :: "rat option"
  qv_promptRecipe :: "queue_recipe option"

record bucket_view =
  bk_taskId :: string
  bk_recordId :: string
  bk_unitIds :: "string list"

record queue_snapshot =
  qs_logicalUnitCount :: nat
  qs_eligibleUnitCount :: nat
  qs_materializedPromptCount :: nat
  qs_dispatchCandidateUnitIds :: "string list"
  qs_recordBuckets :: "bucket_view list"
  qs_waitingReasons :: "waiting_reason list"
  qs_nextWakeAt :: "rat option"

record indexed_task =
  it_task :: task_ledger
  it_createdAt :: string

record indexed_unit =
  iu_taskId :: string
  iu_recordId :: string
  iu_unit :: unit_ledger
  iu_task :: indexed_task
  iu_source :: "source_snapshot option"
  iu_promptRecipe :: "queue_recipe option"

record indexed_bucket =
  ib_taskId :: string
  ib_recordId :: string
  ib_unitKeys :: "string list"

text \<open>\<open>qu_timer\<close>: the delay with which the pending timer was armed.\<close>

record 'p queue =
  qu_mode :: queue_mode
  qu_maxMaterializedPrompts :: rat
  qu_tasks :: "(string \<times> indexed_task) list"
  qu_units :: "(string \<times> indexed_unit) list"
  qu_buckets :: "(string \<times> indexed_bucket) list"
  qu_materializedPrompts :: "(string \<times> 'p queue_prompt) list"
  qu_claimedPrompts :: "string list"
  qu_cancelledTaskIds :: "string list"
  qu_completedUnitKeys :: "string list"
  qu_memorySoftLimit :: bool
  qu_diskSoftLimit :: bool
  qu_timer :: "rat option"
  qu_scheduledWakeAt :: "rat option"
  qu_materializeInProgress :: bool

definition new_queue :: "queue_mode option \<Rightarrow> rat option \<Rightarrow> queue_error + 'p queue" where
  "new_queue mode maximum =
     (let m = (case maximum of None \<Rightarrow> 32 | Some x \<Rightarrow> x)
      in if \<not> is_integral m \<or> m < 1 then Inl BadMaximum
         else Inr \<lparr> qu_mode = (case mode of None \<Rightarrow> Materializing | Some x \<Rightarrow> x), qu_maxMaterializedPrompts = m, qu_tasks = [], qu_units = [],
                qu_buckets = [], qu_materializedPrompts = [], qu_claimedPrompts = [], qu_cancelledTaskIds = [], qu_completedUnitKeys = [],
                qu_memorySoftLimit = False, qu_diskSoftLimit = False, qu_timer = None, qu_scheduledWakeAt = None,
                qu_materializeInProgress = False \<rparr>)"

section \<open>Keys and orders\<close>

definition queue_unit_key :: "string \<Rightarrow> string \<Rightarrow> string" where
  "queue_unit_key task unit = task @ CHR 0x00 # unit"

definition bucket_key :: "string \<Rightarrow> string \<Rightarrow> string" where
  "bucket_key task recd = task @ CHR 0x00 # recd"

definition key_of :: "indexed_unit \<Rightarrow> string" where
  "key_of u = queue_unit_key (iu_taskId u) (ul_unitId (iu_unit u))"

definition add_to_set :: "'a \<Rightarrow> 'a list \<Rightarrow> 'a list" where
  "add_to_set x xs = (if x \<in> set xs then xs else xs @ [x])"

definition compare_ledger_units :: "unit_ledger \<Rightarrow> unit_ledger \<Rightarrow> int" where
  "compare_ledger_units l r =
     or_else (compare_text (ul_recordId l) (ul_recordId r))
    (or_else (compare_numbers (ul_composeOrder l) (ul_composeOrder r)) (compare_text (ul_unitId l) (ul_unitId r)))"

definition compare_units :: "indexed_unit \<Rightarrow> indexed_unit \<Rightarrow> int" where
  "compare_units l r =
     or_else (compare_text (it_createdAt (iu_task l)) (it_createdAt (iu_task r)))
    (or_else (compare_text (iu_recordId l) (iu_recordId r))
    (or_else (compare_numbers (ul_composeOrder (iu_unit l)) (ul_composeOrder (iu_unit r)))
             (compare_text (ul_unitId (iu_unit l)) (ul_unitId (iu_unit r)))))"

definition timestamp_ms :: "dates \<Rightarrow> string option \<Rightarrow> rat option" where
  "timestamp_ms dates v = Option.bind v (date_parse dates)"

section \<open>Eligibility\<close>

definition is_candidate_state :: "ledger_unit_state \<Rightarrow> bool" where
  "is_candidate_state s \<longleftrightarrow> s = UMaterialized \<or> s = UBlocked \<or> s = UQueued \<or> s = UWaitingRetry"

definition is_dependency_ready :: "unit_ledger \<Rightarrow> bool" where
  "is_dependency_ready u \<longleftrightarrow> ul_state u = USucceeded \<or> ul_state u = UResultReady \<and> ul_resultRef u \<noteq> None"

definition is_task_cancelled :: "'p queue \<Rightarrow> indexed_unit \<Rightarrow> bool" where
  "is_task_cancelled q u \<longleftrightarrow> iu_taskId u \<in> set (qu_cancelledTaskIds q)"

definition is_task_dispatchable :: "'p queue \<Rightarrow> indexed_unit \<Rightarrow> bool" where
  "is_task_dispatchable q u \<longleftrightarrow>
     \<not> is_task_cancelled q u \<and> can_dispatch_task (tk_state (it_task (iu_task u))) (tk_repairState (it_task (iu_task u)))"

definition dependencies_satisfied :: "'p queue \<Rightarrow> indexed_unit \<Rightarrow> bool" where
  "dependencies_satisfied q u \<longleftrightarrow>
     list_all (\<lambda>d. case map_of (qu_units q) (queue_unit_key (iu_taskId u) d) of None \<Rightarrow> False
       | Some x \<Rightarrow> is_dependency_ready (iu_unit x) \<or> queue_unit_key (iu_taskId u) d \<in> set (qu_completedUnitKeys q)) (ul_dependencies (iu_unit u))"

definition is_eligible :: "dates \<Rightarrow> rat \<Rightarrow> 'p queue \<Rightarrow> indexed_unit \<Rightarrow> bool" where
  "is_eligible dates now q u \<longleftrightarrow>
     key_of u \<notin> set (qu_completedUnitKeys q) \<and> is_task_dispatchable q u \<and> iu_promptRecipe u \<noteq> None \<and>
     is_candidate_state (ul_state (iu_unit u)) \<and> dependencies_satisfied q u \<and>
     (case timestamp_ms dates (ul_nextEligibleAt (iu_unit u)) of None \<Rightarrow> True | Some t \<Rightarrow> t \<le> now)"

definition eligible_units :: "dates \<Rightarrow> rat \<Rightarrow> 'p queue \<Rightarrow> indexed_unit list" where
  "eligible_units dates now q = sort_by compare_units (filter (is_eligible dates now q) (map snd (qu_units q)))"

definition resources_limited :: "'p queue \<Rightarrow> bool" where
  "resources_limited q \<longleftrightarrow> qu_memorySoftLimit q \<or> qu_diskSoftLimit q"

section \<open>Refreshing\<close>

definition drop_prompt :: "string \<Rightarrow> 'p queue \<Rightarrow> 'p queue" where
  "drop_prompt k q = q\<lparr> qu_materializedPrompts := map_del k (qu_materializedPrompts q) \<rparr>"

definition unclaim :: "string \<Rightarrow> 'p queue \<Rightarrow> 'p queue" where
  "unclaim k q = q\<lparr> qu_claimedPrompts := removeAll k (qu_claimedPrompts q) \<rparr>"

definition prune_prompt :: "dates \<Rightarrow> rat \<Rightarrow> string \<times> 'p queue_prompt \<Rightarrow> 'p queue \<Rightarrow> 'p queue" where
  "prune_prompt dates now = (\<lambda>(k, p) q.
     case map_of (qu_units q) k of
       None \<Rightarrow> if k \<in> set (qu_claimedPrompts q) then q else drop_prompt k q
     | Some u \<Rightarrow>
         if is_task_cancelled q u \<or> k \<notin> set (qu_claimedPrompts q) \<and> \<not> is_eligible dates now q u then unclaim k (drop_prompt k q)
         else (let q1 = (if resources_limited q \<and> k \<notin> set (qu_claimedPrompts q) then drop_prompt k q else q)
               in if qp_taskId p \<noteq> iu_taskId u \<or> qp_unitId p \<noteq> ul_unitId (iu_unit u) then drop_prompt k q1 else q1))"

definition prune_materialized_prompts :: "dates \<Rightarrow> rat \<Rightarrow> 'p queue \<Rightarrow> 'p queue" where
  "prune_materialized_prompts dates now q = fold (prune_prompt dates now) (qu_materializedPrompts q) q"

text \<open>While the callback renders a prompt the queue refuses every operation; the flag is reset in any case.\<close>

definition in_progress :: "bool \<Rightarrow> 'p queue \<Rightarrow> 'p queue" where
  "in_progress b q = q\<lparr> qu_materializeInProgress := b \<rparr>"

definition materialize_one :: "(queue_recipe \<Rightarrow> 'p option) \<Rightarrow> rat \<Rightarrow> indexed_unit \<Rightarrow> queue_recipe \<Rightarrow> ('p queue, queue_error, unit) proc" where
  "materialize_one render now u r =
     thenp (modify (in_progress True))
    (case render r of
       None \<Rightarrow> thenp (modify (in_progress False)) (throw PromptFailed)
     | Some p \<Rightarrow>
         modify (\<lambda>q. (in_progress False q)\<lparr> qu_materializedPrompts :=
           map_put (key_of u) \<lparr> qp_taskId = iu_taskId u, qp_recordId = iu_recordId u, qp_unitId = ul_unitId (iu_unit u), qp_recipe = r,
             qp_prompt = p, qp_materializedAt = now \<rparr> (qu_materializedPrompts q) \<rparr>))"

text \<open>The loop over the candidates stops when the vacant slots are used.\<close>

fun materialize_from :: "(queue_recipe \<Rightarrow> 'p option) \<Rightarrow> rat \<Rightarrow> rat \<Rightarrow> indexed_unit list \<Rightarrow> ('p queue, queue_error, unit) proc" where
  "materialize_from render now vacant [] = ret ()"
| "materialize_from render now vacant (u # us) =
     (if vacant \<le> 0 then ret ()
      else bindp get_state_of (\<lambda>q.
        if map_of (qu_materializedPrompts q) (key_of u) \<noteq> None then materialize_from render now vacant us
        else case iu_promptRecipe u of
          None \<Rightarrow> materialize_from render now vacant us
        | Some r \<Rightarrow> thenp (materialize_one render now u r) (materialize_from render now (vacant - 1) us)))"

definition materialize_eligible_prompts :: "dates \<Rightarrow> (queue_recipe \<Rightarrow> 'p option) \<Rightarrow> rat \<Rightarrow> ('p queue, queue_error, unit) proc" where
  "materialize_eligible_prompts dates render now =
     bindp get_state_of (\<lambda>q.
       materialize_from render now (qu_maxMaterializedPrompts q - of_nat (length (qu_materializedPrompts q))) (eligible_units dates now q))"

definition waits_for_backoff :: "dates \<Rightarrow> rat \<Rightarrow> 'p queue \<Rightarrow> indexed_unit \<Rightarrow> rat option" where
  "waits_for_backoff dates now q u =
     (if \<not> is_task_dispatchable q u \<or> iu_promptRecipe u = None \<or> \<not> is_candidate_state (ul_state (iu_unit u)) \<or> \<not> dependencies_satisfied q u
      then None
      else (case timestamp_ms dates (ul_nextEligibleAt (iu_unit u)) of None \<Rightarrow> None | Some t \<Rightarrow> if now < t then Some t else None))"

definition sooner :: "rat option \<Rightarrow> rat option \<Rightarrow> rat option" where
  "sooner t earliest =
     (case t of None \<Rightarrow> earliest | Some x \<Rightarrow> (case earliest of None \<Rightarrow> Some x | Some e \<Rightarrow> if x < e then Some x else Some e))"

definition earliest_wake :: "dates \<Rightarrow> rat \<Rightarrow> 'p queue \<Rightarrow> rat option" where
  "earliest_wake dates now q = fold (\<lambda>u. sooner (waits_for_backoff dates now q u)) (map snd (qu_units q)) None"

definition arm_earliest_wake :: "dates \<Rightarrow> rat \<Rightarrow> 'p queue \<Rightarrow> 'p queue" where
  "arm_earliest_wake dates now q =
     (let e = earliest_wake dates now q
      in if e = qu_scheduledWakeAt q \<and> qu_timer q \<noteq> None then q
         else q\<lparr> qu_scheduledWakeAt := e, qu_timer := map_option (\<lambda>t. max 0 (t - now)) e \<rparr>)"

definition refresh :: "dates \<Rightarrow> (queue_recipe \<Rightarrow> 'p option) \<Rightarrow> rat \<Rightarrow> ('p queue, queue_error, unit) proc" where
  "refresh dates render now =
     thenp (modify (prune_materialized_prompts dates now))
    (thenp (bindp get_state_of (\<lambda>q. if qu_mode q = Materializing \<and> \<not> resources_limited q then materialize_eligible_prompts dates render now else ret ()))
           (modify (arm_earliest_wake dates now)))"

section \<open>Indexing\<close>

definition create_prompt_recipe :: "unit_ledger \<Rightarrow> source_snapshot \<Rightarrow> queue_recipe" where
  "create_prompt_recipe u s =
     \<lparr> qr_sourceSnapshotId = ss_sourceSnapshotId s, qr_sourceSpool = ss_contentRef s, qr_unitId = ul_unitId u, qr_layer = ul_layer u,
       qr_continuationKey = ul_continuationKey u, qr_composeOrder = ul_composeOrder u, qr_inputHash = ul_inputHash u \<rparr>"

definition index_unit :: "string \<Rightarrow> indexed_task \<Rightarrow> (string \<times> source_snapshot) list \<Rightarrow> unit_ledger \<Rightarrow> indexed_unit" where
  "index_unit task t sources u =
     (let s = map_of sources (ul_sourceSnapshotId u)
      in \<lparr> iu_taskId = task, iu_recordId = ul_recordId u, iu_unit = u, iu_task = t, iu_source = s,
           iu_promptRecipe = map_option (create_prompt_recipe u) s \<rparr>)"

definition add_to_bucket :: "string \<Rightarrow> unit_ledger \<Rightarrow> 'p queue \<Rightarrow> 'p queue" where
  "add_to_bucket task u q =
     (let k = bucket_key task (ul_recordId u);
          b = (case map_of (qu_buckets q) k of Some b \<Rightarrow> b | None \<Rightarrow> \<lparr> ib_taskId = task, ib_recordId = ul_recordId u, ib_unitKeys = [] \<rparr>)
      in q\<lparr> qu_buckets := map_put k (b\<lparr> ib_unitKeys := ib_unitKeys b @ [queue_unit_key task (ul_unitId u)] \<rparr>) (qu_buckets q) \<rparr>)"

definition index_ledger_unit :: "string \<Rightarrow> indexed_task \<Rightarrow> (string \<times> source_snapshot) list \<Rightarrow> unit_ledger \<Rightarrow> ('p queue, queue_error, unit) proc" where
  "index_ledger_unit task t sources u =
     bindp get_state_of (\<lambda>q.
       if map_of (qu_units q) (queue_unit_key task (ul_unitId u)) \<noteq> None then throw (DuplicateUnit task (ul_unitId u))
       else modify (\<lambda>q. add_to_bucket task u
              (q\<lparr> qu_units := map_put (queue_unit_key task (ul_unitId u)) (index_unit task t sources u) (qu_units q) \<rparr>)))"

text \<open>The keys of a bucket name indexed units only, so the fallback of the comparison is never taken.\<close>

definition compare_keys :: "'p queue \<Rightarrow> string \<Rightarrow> string \<Rightarrow> int" where
  "compare_keys q l r =
     (case (map_of (qu_units q) l, map_of (qu_units q) r) of (Some x, Some y) \<Rightarrow> compare_units x y | _ \<Rightarrow> 0)"

definition sort_buckets :: "'p queue \<Rightarrow> 'p queue" where
  "sort_buckets q = q\<lparr> qu_buckets := map (\<lambda>(k, b). (k, b\<lparr> ib_unitKeys := sort_by (compare_keys q) (ib_unitKeys b) \<rparr>)) (qu_buckets q) \<rparr>"

definition index_ledger :: "ledger \<Rightarrow> ('p queue, queue_error, unit) proc" where
  "index_ledger l =
     (let task = tk_taskId (lg_task l); t = \<lparr> it_task = lg_task l, it_createdAt = tk_createdAt (lg_task l) \<rparr>;
          sources = fold (\<lambda>s. map_put (ss_sourceSnapshotId s) s) (lg_sourceSnapshots l) []
      in bindp get_state_of (\<lambda>q.
           if map_of (qu_tasks q) task \<noteq> None then throw (DuplicateTask task)
           else thenp (modify (\<lambda>q. q\<lparr> qu_tasks := map_put task t (qu_tasks q) \<rparr>))
               (thenp (for_each (index_ledger_unit task t sources) (sort_by compare_ledger_units (lg_units l)))
                      (modify sort_buckets))))"

definition clear_index :: "'p queue \<Rightarrow> 'p queue" where
  "clear_index q = q\<lparr> qu_tasks := [], qu_units := [], qu_buckets := [], qu_materializedPrompts := [], qu_claimedPrompts := [],
     qu_cancelledTaskIds := [], qu_completedUnitKeys := [] \<rparr>"

section \<open>Operations\<close>

definition ensure_not_materializing :: "('p queue, queue_error, unit) proc" where
  "ensure_not_materializing = bindp get_state_of (\<lambda>q. demand QueueMaterializeReentrancy (\<not> qu_materializeInProgress q))"

definition pending_materialized_prompts :: "'p queue \<Rightarrow> 'p queue_prompt list" where
  "pending_materialized_prompts q =
     sort_by (\<lambda>l r. case (map_of (qu_units q) (queue_unit_key (qp_taskId l) (qp_unitId l)), map_of (qu_units q) (queue_unit_key (qp_taskId r) (qp_unitId r))) of
         (Some x, Some y) \<Rightarrow> compare_units x y | _ \<Rightarrow> compare_text (qp_unitId l) (qp_unitId r))
       (map snd (filter (\<lambda>(k, p). k \<notin> set (qu_claimedPrompts q)) (qu_materializedPrompts q)))"

definition to_unit_view :: "dates \<Rightarrow> indexed_unit \<Rightarrow> queue_view" where
  "to_unit_view dates u =
     \<lparr> qv_taskId = iu_taskId u, qv_recordId = iu_recordId u, qv_unitId = ul_unitId (iu_unit u), qv_state = ul_state (iu_unit u),
       qv_dependencies = ul_dependencies (iu_unit u), qv_continuationKey = ul_continuationKey (iu_unit u),
       qv_composeOrder = ul_composeOrder (iu_unit u), qv_nextEligibleAt = timestamp_ms dates (ul_nextEligibleAt (iu_unit u)),
       qv_promptRecipe = iu_promptRecipe u \<rparr>"

definition first_unit_of :: "'p queue \<Rightarrow> indexed_bucket \<Rightarrow> indexed_unit option" where
  "first_unit_of q b = (case ib_unitKeys b of [] \<Rightarrow> None | k # _ \<Rightarrow> map_of (qu_units q) k)"

definition record_buckets :: "'p queue \<Rightarrow> bucket_view list" where
  "record_buckets q =
     map (\<lambda>b. \<lparr> bk_taskId = ib_taskId b, bk_recordId = ib_recordId b,
                bk_unitIds = map (\<lambda>k. case map_of (qu_units q) k of None \<Rightarrow> [] | Some u \<Rightarrow> ul_unitId (iu_unit u)) (ib_unitKeys b) \<rparr>)
       (sort_by (\<lambda>l r. case (first_unit_of q l, first_unit_of q r) of (Some x, Some y) \<Rightarrow> compare_units x y
                     | _ \<Rightarrow> compare_text (ib_recordId l) (ib_recordId r)) (map snd (qu_buckets q)))"

text \<open>The reasons in the order of their texts, which is the order of the constructors here.\<close>

definition waiting_reasons :: "dates \<Rightarrow> rat \<Rightarrow> 'p queue \<Rightarrow> waiting_reason list" where
  "waiting_reasons dates now q =
     (let us = filter (\<lambda>u. is_task_dispatchable q u \<and> is_candidate_state (ul_state (iu_unit u))) (map snd (qu_units q))
      in filter (\<lambda>r. case r of
            WaitingResource \<Rightarrow> resources_limited q \<and> list_ex (\<lambda>u. dependencies_satisfied q u \<and> iu_promptRecipe u \<noteq> None) us
          | WaitingSource \<Rightarrow> list_ex (\<lambda>u. iu_promptRecipe u = None) us
          | BlockedDependency \<Rightarrow> list_ex (\<lambda>u. iu_promptRecipe u \<noteq> None \<and> \<not> dependencies_satisfied q u) us
          | WaitingBackoff \<Rightarrow> list_ex (\<lambda>u. iu_promptRecipe u \<noteq> None \<and> dependencies_satisfied q u \<and>
              after (timestamp_ms dates (ul_nextEligibleAt (iu_unit u))) now) us)
        [BlockedDependency, WaitingBackoff, WaitingResource, WaitingSource])"

definition emit_wake :: "dates \<Rightarrow> (queue_recipe \<Rightarrow> 'p option) \<Rightarrow> rat \<Rightarrow> wake_reason \<Rightarrow> ('p queue, queue_error, wake_reason) proc" where
  "emit_wake dates render now r = thenp (refresh dates render now) (ret r)"

definition rebuild :: "dates \<Rightarrow> (queue_recipe \<Rightarrow> 'p option) \<Rightarrow> rat \<Rightarrow> ledger list \<Rightarrow> ('p queue, queue_error, wake_reason) proc" where
  "rebuild dates render now ledgers =
     thenp ensure_not_materializing
    (thenp (modify clear_index)
    (thenp (for_each index_ledger (sort_by (\<lambda>l r. compare_text (tk_taskId (lg_task l)) (tk_taskId (lg_task r))) ledgers))
           (emit_wake dates render now WakeRebuild)))"

definition set_resources :: "dates \<Rightarrow> (queue_recipe \<Rightarrow> 'p option) \<Rightarrow> rat \<Rightarrow> bool option \<Rightarrow> bool option \<Rightarrow> ('p queue, queue_error, wake_reason) proc" where
  "set_resources dates render now memory disk =
     thenp ensure_not_materializing
    (thenp (modify (\<lambda>q. q\<lparr> qu_memorySoftLimit := (case memory of None \<Rightarrow> qu_memorySoftLimit q | Some b \<Rightarrow> b),
                            qu_diskSoftLimit := (case disk of None \<Rightarrow> qu_diskSoftLimit q | Some b \<Rightarrow> b) \<rparr>))
           (emit_wake dates render now WakeResource))"

definition notify_provider_changed :: "dates \<Rightarrow> (queue_recipe \<Rightarrow> 'p option) \<Rightarrow> rat \<Rightarrow> ('p queue, queue_error, wake_reason) proc" where
  "notify_provider_changed dates render now = thenp ensure_not_materializing (emit_wake dates render now WakeProvider)"

definition notify_dependencies_changed :: "dates \<Rightarrow> (queue_recipe \<Rightarrow> 'p option) \<Rightarrow> rat \<Rightarrow> ('p queue, queue_error, wake_reason) proc" where
  "notify_dependencies_changed dates render now = thenp ensure_not_materializing (emit_wake dates render now WakeDependency)"

definition notify_dependency_succeeded :: "dates \<Rightarrow> (queue_recipe \<Rightarrow> 'p option) \<Rightarrow> rat \<Rightarrow> string \<Rightarrow> string \<Rightarrow> ('p queue, queue_error, wake_reason) proc" where
  "notify_dependency_succeeded dates render now task unit =
     thenp ensure_not_materializing
    (thenp (modify (\<lambda>q. drop_prompt (queue_unit_key task unit) (unclaim (queue_unit_key task unit)
              (q\<lparr> qu_completedUnitKeys := add_to_set (queue_unit_key task unit) (qu_completedUnitKeys q) \<rparr>))))
           (emit_wake dates render now WakeDependency))"

definition notify_cancelled :: "dates \<Rightarrow> (queue_recipe \<Rightarrow> 'p option) \<Rightarrow> rat \<Rightarrow> string \<Rightarrow> ('p queue, queue_error, wake_reason) proc" where
  "notify_cancelled dates render now task =
     thenp ensure_not_materializing
    (thenp (modify (\<lambda>q. q\<lparr> qu_cancelledTaskIds := add_to_set task (qu_cancelledTaskIds q),
              qu_materializedPrompts := filter (\<lambda>(k, p). \<not> (qp_taskId p = task \<and> k \<notin> set (qu_claimedPrompts q))) (qu_materializedPrompts q) \<rparr>))
           (emit_wake dates render now WakeCancel))"

definition get_eligible_units :: "dates \<Rightarrow> (queue_recipe \<Rightarrow> 'p option) \<Rightarrow> rat \<Rightarrow> ('p queue, queue_error, queue_view list) proc" where
  "get_eligible_units dates render now =
     thenp ensure_not_materializing
    (thenp (refresh dates render now) (bindp get_state_of (\<lambda>q. ret (map (to_unit_view dates) (eligible_units dates now q)))))"

definition get_dispatch_candidates :: "dates \<Rightarrow> (queue_recipe \<Rightarrow> 'p option) \<Rightarrow> rat \<Rightarrow> ('p queue, queue_error, 'p queue_prompt list) proc" where
  "get_dispatch_candidates dates render now =
     thenp ensure_not_materializing (thenp (refresh dates render now) (bindp get_state_of (\<lambda>q. ret (pending_materialized_prompts q))))"

definition claim_next :: "dates \<Rightarrow> (queue_recipe \<Rightarrow> 'p option) \<Rightarrow> rat \<Rightarrow> ('p queue, queue_error, 'p queue_prompt option) proc" where
  "claim_next dates render now =
     thenp ensure_not_materializing
    (thenp (refresh dates render now)
    (bindp get_state_of (\<lambda>q.
       case pending_materialized_prompts q of
         [] \<Rightarrow> ret None
       | p # _ \<Rightarrow>
           thenp (modify (\<lambda>q. q\<lparr> qu_claimedPrompts := add_to_set (queue_unit_key (qp_taskId p) (qp_unitId p)) (qu_claimedPrompts q) \<rparr>)) (ret (Some p)))))"

definition release_prompt :: "dates \<Rightarrow> (queue_recipe \<Rightarrow> 'p option) \<Rightarrow> rat \<Rightarrow> string \<Rightarrow> string \<Rightarrow> ('p queue, queue_error, unit) proc" where
  "release_prompt dates render now task unit =
     thenp ensure_not_materializing
    (thenp (modify (\<lambda>q. drop_prompt (queue_unit_key task unit) (unclaim (queue_unit_key task unit) q))) (refresh dates render now))"

definition take_queue_snapshot :: "dates \<Rightarrow> (queue_recipe \<Rightarrow> 'p option) \<Rightarrow> rat \<Rightarrow> ('p queue, queue_error, queue_snapshot) proc" where
  "take_queue_snapshot dates render now =
     thenp ensure_not_materializing
    (thenp (refresh dates render now)
    (bindp get_state_of (\<lambda>q. ret
       \<lparr> qs_logicalUnitCount = length (qu_units q), qs_eligibleUnitCount = length (eligible_units dates now q),
         qs_materializedPromptCount = length (qu_materializedPrompts q),
         qs_dispatchCandidateUnitIds = map qp_unitId (pending_materialized_prompts q), qs_recordBuckets = record_buckets q,
         qs_waitingReasons = waiting_reasons dates now q, qs_nextWakeAt = qu_scheduledWakeAt q \<rparr>)))"

definition dispose :: "('p queue, queue_error, unit) proc" where
  "dispose = thenp ensure_not_materializing (modify (\<lambda>q. q\<lparr> qu_timer := None, qu_scheduledWakeAt := None \<rparr>))"

text \<open>The callback of the pending timer; it can fire only while a timer is armed.\<close>

definition timer_fires :: "dates \<Rightarrow> (queue_recipe \<Rightarrow> 'p option) \<Rightarrow> rat \<Rightarrow> ('p queue, queue_error, wake_reason) proc" where
  "timer_fires dates render now =
     thenp (modify (\<lambda>q. q\<lparr> qu_timer := None, qu_scheduledWakeAt := None \<rparr>)) (emit_wake dates render now WakeTimer)"

section \<open>Runs\<close>

datatype queue_op =
  Rebuild "ledger list" | SetResources "bool option" "bool option" | ProviderChanged | DependenciesChanged
| DependencySucceeded string string | TaskCancelled string | ReadEligible | ReadCandidates | ClaimNext
| ReleasePrompt string string | ReadSnapshot | Dispose | TimerFires

definition queue_step :: "dates \<Rightarrow> (queue_recipe \<Rightarrow> 'p option) \<Rightarrow> queue_op \<times> rat \<Rightarrow> 'p queue \<Rightarrow> 'p queue" where
  "queue_step dates render = (\<lambda>(c, now) q. case c of
     Rebuild ls \<Rightarrow> snd (rebuild dates render now ls q)
   | SetResources m d \<Rightarrow> snd (set_resources dates render now m d q)
   | ProviderChanged \<Rightarrow> snd (notify_provider_changed dates render now q)
   | DependenciesChanged \<Rightarrow> snd (notify_dependencies_changed dates render now q)
   | DependencySucceeded t u \<Rightarrow> snd (notify_dependency_succeeded dates render now t u q)
   | TaskCancelled t \<Rightarrow> snd (notify_cancelled dates render now t q)
   | ReadEligible \<Rightarrow> snd (get_eligible_units dates render now q)
   | ReadCandidates \<Rightarrow> snd (get_dispatch_candidates dates render now q)
   | ClaimNext \<Rightarrow> snd (claim_next dates render now q)
   | ReleasePrompt t u \<Rightarrow> snd (release_prompt dates render now t u q)
   | ReadSnapshot \<Rightarrow> snd (take_queue_snapshot dates render now q)
   | Dispose \<Rightarrow> snd (dispose q)
   | TimerFires \<Rightarrow> if qu_timer q = None then q else snd (timer_fires dates render now q))"

definition queue_run :: "dates \<Rightarrow> (queue_recipe \<Rightarrow> 'p option) \<Rightarrow> (queue_op \<times> rat) list \<Rightarrow> 'p queue \<Rightarrow> 'p queue" where
  "queue_run dates render ops q = fold (queue_step dates render) ops q"

end
