(* ===== verification/SchedQueueFacts.thy ===== *)
theory SchedQueueFacts
  imports SchedQueue SchedFairnessFacts
begin

text \<open>
  Facts about the queue: what a refresh leaves, and the invariant that every operation keeps, in calls that
  throw too.
\<close>

section \<open>Orders\<close>

lemma comparator_compare_units: "comparator compare_units"
  unfolding compare_units_def
  by (intro comparator_chain comparator_key [OF text_order.comparator_axioms] comparator_key [OF numbers.comparator_axioms])

section \<open>The invariant\<close>

text \<open>A stored prompt is the rendered recipe of the indexed unit of its key.\<close>

definition entry_of :: "(queue_recipe \<Rightarrow> 'p option) \<Rightarrow> indexed_unit \<Rightarrow> string \<times> 'p queue_prompt \<Rightarrow> bool" where
  "entry_of render u e \<longleftrightarrow>
     fst e = key_of u \<and> qp_taskId (snd e) = iu_taskId u \<and> qp_recordId (snd e) = iu_recordId u \<and> qp_unitId (snd e) = ul_unitId (iu_unit u) \<and>
     iu_promptRecipe u = Some (qp_recipe (snd e)) \<and> render (qp_recipe (snd e)) = Some (qp_prompt (snd e))"

definition index_ok :: "'p queue \<Rightarrow> bool" where
  "index_ok q \<longleftrightarrow> distinct (map fst (qu_units q)) \<and> list_all (\<lambda>(k, u). k = key_of u) (qu_units q)"

definition prompts_ok :: "(queue_recipe \<Rightarrow> 'p option) \<Rightarrow> 'p queue \<Rightarrow> bool" where
  "prompts_ok render q \<longleftrightarrow>
     distinct (map fst (qu_materializedPrompts q)) \<and>
     list_all (\<lambda>e. \<exists>u. map_of (qu_units q) (fst e) = Some u \<and> entry_of render u e) (qu_materializedPrompts q) \<and>
     set (qu_claimedPrompts q) \<subseteq> set (map fst (qu_materializedPrompts q))"

definition capacity_ok :: "'p queue \<Rightarrow> bool" where
  "capacity_ok q \<longleftrightarrow>
     (\<exists>n. qu_maxMaterializedPrompts q = of_nat n) \<and> of_nat (length (qu_materializedPrompts q)) \<le> qu_maxMaterializedPrompts q \<and>
     (qu_mode q = EligibilityOnly \<longrightarrow> qu_materializedPrompts q = [])"

definition timer_ok :: "'p queue \<Rightarrow> bool" where
  "timer_ok q \<longleftrightarrow> (qu_timer q = None \<longleftrightarrow> qu_scheduledWakeAt q = None)"

definition queue_ok :: "(queue_recipe \<Rightarrow> 'p option) \<Rightarrow> 'p queue \<Rightarrow> bool" where
  "queue_ok render q \<longleftrightarrow> index_ok q \<and> prompts_ok render q \<and> capacity_ok q \<and> timer_ok q \<and> \<not> qu_materializeInProgress q"

text \<open>The part of the queue that a refresh reads only.\<close>

definition same_index :: "'p queue \<Rightarrow> 'p queue \<Rightarrow> bool" where
  "same_index q q' \<longleftrightarrow>
     qu_mode q' = qu_mode q \<and> qu_maxMaterializedPrompts q' = qu_maxMaterializedPrompts q \<and> qu_units q' = qu_units q \<and>
     qu_cancelledTaskIds q' = qu_cancelledTaskIds q \<and> qu_completedUnitKeys q' = qu_completedUnitKeys q \<and>
     qu_memorySoftLimit q' = qu_memorySoftLimit q \<and> qu_diskSoftLimit q' = qu_diskSoftLimit q"

lemma same_index_refl [simp]: "same_index q q"
  by (simp add: same_index_def)

lemma same_index_trans: "same_index q r \<Longrightarrow> same_index r s \<Longrightarrow> same_index q s"
  by (simp add: same_index_def)

lemma same_index_reads:
  assumes "same_index q q'"
  shows "is_task_cancelled q' = is_task_cancelled q" "is_task_dispatchable q' = is_task_dispatchable q"
    "dependencies_satisfied q' = dependencies_satisfied q" "is_eligible dates now q' = is_eligible dates now q"
    "eligible_units dates now q' = eligible_units dates now q" "resources_limited q' = resources_limited q" "qu_units q' = qu_units q"
    "earliest_wake dates now q' = earliest_wake dates now q"
proof -
  show c: "is_task_cancelled q' = is_task_cancelled q" using assms by (simp add: same_index_def is_task_cancelled_def fun_eq_iff)
  then show d: "is_task_dispatchable q' = is_task_dispatchable q" by (simp add: is_task_dispatchable_def fun_eq_iff)
  have a: "qu_units q' = qu_units q" "qu_completedUnitKeys q' = qu_completedUnitKeys q" using assms by (simp_all add: same_index_def)
  show s: "dependencies_satisfied q' = dependencies_satisfied q"
    by (rule ext) (simp only: dependencies_satisfied_def a)
  show "is_eligible dates now q' = is_eligible dates now q" for dates now
    using assms by (simp add: is_eligible_def fun_eq_iff d s) (simp add: same_index_def)
  then show "eligible_units dates now q' = eligible_units dates now q" using assms by (simp add: eligible_units_def same_index_def)
  show "resources_limited q' = resources_limited q" "qu_units q' = qu_units q" using assms by (simp_all add: same_index_def resources_limited_def)
  then show "earliest_wake dates now q' = earliest_wake dates now q"
    by (simp add: earliest_wake_def waits_for_backoff_def d s)
qed

lemma unit_at: "index_ok q \<Longrightarrow> map_of (qu_units q) k = Some u \<Longrightarrow> key_of u = k \<and> u \<in> set (map snd (qu_units q))"
  by (force simp: index_ok_def list_all_iff dest: map_of_SomeD)

lemma unit_in: "index_ok q \<Longrightarrow> u \<in> set (map snd (qu_units q)) \<Longrightarrow> map_of (qu_units q) (key_of u) = Some u"
  by (force simp: index_ok_def list_all_iff)

section \<open>Pruning\<close>

definition kept :: "dates \<Rightarrow> rat \<Rightarrow> 'p queue \<Rightarrow> string \<Rightarrow> bool" where
  "kept dates now q k \<longleftrightarrow> (case map_of (qu_units q) k of None \<Rightarrow> False
     | Some u \<Rightarrow> \<not> is_task_cancelled q u \<and> (k \<in> set (qu_claimedPrompts q) \<or> is_eligible dates now q u \<and> \<not> resources_limited q))"

definition forget :: "string set \<Rightarrow> 'p queue \<Rightarrow> 'p queue" where
  "forget D q = q\<lparr> qu_materializedPrompts := filter (\<lambda>e. fst e \<notin> D) (qu_materializedPrompts q),
     qu_claimedPrompts := filter (\<lambda>k. k \<notin> D) (qu_claimedPrompts q) \<rparr>"

lemma forget_none [simp]: "forget {} q = q"
  by (simp add: forget_def)

lemma forget_twice: "forget D (forget {k} q) = forget (insert k D) q"
  by (simp add: forget_def)

lemma forget_same_index [simp]: "same_index q (forget D q)"
  by (simp add: same_index_def forget_def)

lemma prune_prompt_forgets:
  assumes "map_of (qu_units q) (fst e) = Some u" "entry_of render u e"
  shows "prune_prompt dates now e q = (if kept dates now q (fst e) then q else forget {fst e} q)"
proof -
  obtain k p where e: "e = (k, p)" by (cases e)
  have del: "map_del x m = filter (\<lambda>e. fst e \<noteq> x) m" for x and m :: "(string \<times> 'a queue_prompt) list"
    by (simp add: map_del_def) (rule filter_cong, auto)
  have rem: "removeAll x c = filter (\<lambda>y. y \<noteq> x) c" for x :: string and c
    by (induction c) auto
  have same: "filter (\<lambda>y. y \<noteq> x) c = c" if "x \<notin> set c" for x :: string and c
    using that by (induction c) auto
  show ?thesis
    using assms unfolding e prune_prompt_def forget_def unclaim_def drop_prompt_def kept_def entry_of_def
    by (auto simp: del rem same)
qed

lemma fold_prune:
  assumes "distinct (map fst es)" "\<And>e. e \<in> set es \<Longrightarrow> \<exists>u. map_of (qu_units q) (fst e) = Some u \<and> entry_of render u e"
  shows "fold (prune_prompt dates now) es q = forget {k \<in> fst ` set es. \<not> kept dates now q k} q"
  using assms
proof (induction es arbitrary: q)
  case (Cons e es)
  obtain u where u: "map_of (qu_units q) (fst e) = Some u" "entry_of render u e" using Cons.prems(2) [of e] by auto
  define q1 where "q1 = prune_prompt dates now e q"
  have q1: "q1 = (if kept dates now q (fst e) then q else forget {fst e} q)" unfolding q1_def by (rule prune_prompt_forgets [OF u])
  have idx: "same_index q q1" by (simp add: q1)
  have claim: "k \<in> set (qu_claimedPrompts q1) \<longleftrightarrow> k \<in> set (qu_claimedPrompts q)" if "k \<noteq> fst e" for k
    using that by (simp add: q1 forget_def)
  have other: "kept dates now q1 k = kept dates now q k" if "k \<noteq> fst e" for k
    using claim [OF that] by (simp add: kept_def same_index_reads [OF idx] split: option.splits)
  have new: "fst e \<notin> fst ` set es" using Cons.prems(1) by simp
  have keep: "{k \<in> fst ` set es. \<not> kept dates now q1 k} = {k \<in> fst ` set es. \<not> kept dates now q k}"
  proof (rule Collect_cong)
    fix k
    show "k \<in> fst ` set es \<and> \<not> kept dates now q1 k \<longleftrightarrow> k \<in> fst ` set es \<and> \<not> kept dates now q k"
    proof (cases "k = fst e")
      case True
      with new show ?thesis by simp
    qed (simp add: other)
  qed
  have "fold (prune_prompt dates now) es q1 = forget {k \<in> fst ` set es. \<not> kept dates now q1 k} q1"
  proof (rule Cons.IH)
    show "distinct (map fst es)" using Cons.prems(1) by simp
    fix x assume "x \<in> set es"
    with Cons.prems(2) [of x] show "\<exists>u. map_of (qu_units q1) (fst x) = Some u \<and> entry_of render u x"
      by (simp only: same_index_reads(7) [OF idx] list.set) simp
  qed
  moreover have "fold (prune_prompt dates now) (e # es) q = fold (prune_prompt dates now) es q1" by (simp add: q1_def)
  ultimately have *: "fold (prune_prompt dates now) (e # es) q = forget {k \<in> fst ` set es. \<not> kept dates now q k} q1"
    by (simp only: keep)
  show ?case
  proof (cases "kept dates now q (fst e)")
    case True
    then have "{k \<in> fst ` set (e # es). \<not> kept dates now q k} = {k \<in> fst ` set es. \<not> kept dates now q k}" by auto
    with * True show ?thesis by (simp add: q1)
  next
    case False
    then have "{k \<in> fst ` set (e # es). \<not> kept dates now q k} = insert (fst e) {k \<in> fst ` set es. \<not> kept dates now q k}" by auto
    with * False show ?thesis by (simp only: q1 if_False forget_twice)
  qed
qed simp

lemma prune_is_forget:
  assumes "prompts_ok render q"
  shows "prune_materialized_prompts dates now q =
    forget {k \<in> fst ` set (qu_materializedPrompts q). \<not> kept dates now q k} q"
  unfolding prune_materialized_prompts_def
  by (rule fold_prune [of _ _ render]) (use assms in \<open>auto simp: prompts_ok_def list_all_iff\<close>)

lemma forget_ok:
  assumes "queue_ok render q"
  shows "queue_ok render (forget D q)"
proof -
  let ?m = "qu_materializedPrompts q"
  have p: "prompts_ok render q" and c: "capacity_ok q" using assms by (simp_all add: queue_ok_def)
  have "distinct (map fst (filter (\<lambda>e. fst e \<notin> D) ?m))" using p by (simp add: prompts_ok_def distinct_map_filter)
  moreover have "set (filter (\<lambda>k. k \<notin> D) (qu_claimedPrompts q)) \<subseteq> set (map fst (filter (\<lambda>e. fst e \<notin> D) ?m))"
    using p by (fastforce simp: prompts_ok_def)
  ultimately have "prompts_ok render (forget D q)"
    using p by (simp add: prompts_ok_def forget_def list_all_iff)
  moreover have "capacity_ok (forget D q)"
  proof -
    have "length (filter (\<lambda>e. fst e \<notin> D) ?m) \<le> length ?m" by (rule length_filter_le)
    then have "rat_of_nat (length (filter (\<lambda>e. fst e \<notin> D) ?m)) \<le> of_nat (length ?m)" by (simp only: of_nat_le_iff)
    then have "rat_of_nat (length (filter (\<lambda>e. fst e \<notin> D) ?m)) \<le> qu_maxMaterializedPrompts q"
      using c unfolding capacity_ok_def by (elim conjE) (rule order_trans)
    with c show ?thesis by (simp add: capacity_ok_def forget_def)
  qed
  ultimately show ?thesis using assms by (simp add: queue_ok_def index_ok_def timer_ok_def forget_def)
qed

section \<open>Materializing\<close>

text \<open>What the loop leaves whether or not the callback throws: some of the candidates have got prompts.\<close>

definition grown :: "(queue_recipe \<Rightarrow> 'p option) \<Rightarrow> indexed_unit list \<Rightarrow> 'p queue \<Rightarrow> 'p queue \<Rightarrow> bool" where
  "grown render us q q' \<longleftrightarrow>
     (\<exists>m. q' = q\<lparr> qu_materializedPrompts := m \<rparr>) \<and> set (qu_materializedPrompts q) \<subseteq> set (qu_materializedPrompts q') \<and>
     (\<forall>e \<in> set (qu_materializedPrompts q'). e \<in> set (qu_materializedPrompts q) \<or> (\<exists>u \<in> set us. entry_of render u e)) \<and>
     (distinct (map fst (qu_materializedPrompts q)) \<longrightarrow> distinct (map fst (qu_materializedPrompts q')))"

lemma grown_refl: "grown render us q q"
proof -
  have "q = q\<lparr> qu_materializedPrompts := qu_materializedPrompts q \<rparr>" by simp
  then show ?thesis unfolding grown_def by blast
qed

lemma grown_trans:
  assumes "grown render us q r" "grown render us r s"
  shows "grown render us q s"
proof -
  obtain m n where r: "r = q\<lparr> qu_materializedPrompts := m \<rparr>" and s: "s = r\<lparr> qu_materializedPrompts := n \<rparr>"
    using assms unfolding grown_def by blast
  then have "s = q\<lparr> qu_materializedPrompts := n \<rparr>" by simp
  then show ?thesis using assms unfolding grown_def by blast
qed

lemma grown_key:
  assumes "grown render us q q'" "e \<in> set (qu_materializedPrompts q)"
  shows "map_of (qu_materializedPrompts q') (fst e) \<noteq> None"
proof -
  have "e \<in> set (qu_materializedPrompts q')" using assms by (auto simp: grown_def)
  then have "fst e \<in> fst ` set (qu_materializedPrompts q')" by (rule imageI)
  then show ?thesis by (simp add: map_of_eq_None_iff)
qed

lemma map_put_new: "map_of m k = None \<Longrightarrow> map_put k v m = m @ [(k, v)]"
  by (induction m) (auto split: if_splits)

lemma materialize_one_run:
  assumes "map_of (qu_materializedPrompts q) (key_of u) = None" "\<not> qu_materializeInProgress q" "iu_promptRecipe u = Some r"
  obtains "render r = None" "materialize_one render now u r q = (Inl PromptFailed, q)"
  | e where "entry_of render u e" "materialize_one render now u r q = (Inr (), q\<lparr> qu_materializedPrompts := qu_materializedPrompts q @ [e] \<rparr>)"
proof (cases "render r")
  case None
  have "in_progress False (in_progress True q) = q" using assms(2) by (simp add: in_progress_def)
  then have "materialize_one render now u r q = (Inl PromptFailed, q)"
    by (simp add: materialize_one_def None thenp_def bindp_def modify_def throw_def)
  then show thesis by (rule that(1) [OF None])
next
  case (Some p)
  let ?e = "(key_of u, \<lparr> qp_taskId = iu_taskId u, qp_recordId = iu_recordId u, qp_unitId = ul_unitId (iu_unit u), qp_recipe = r,
     qp_prompt = p, qp_materializedAt = now \<rparr>)"
  have "q\<lparr> qu_materializeInProgress := False \<rparr> = q" using assms(2) by simp
  then have "materialize_one render now u r q = (Inr (), q\<lparr> qu_materializedPrompts := qu_materializedPrompts q @ [?e] \<rparr>)"
    by (simp add: materialize_one_def Some thenp_def bindp_def modify_def in_progress_def map_put_new assms(1))
  moreover have "entry_of render u ?e" using assms(3) Some by (simp add: entry_of_def)
  ultimately show thesis by (rule that(2) [rotated])
qed

lemma grown_append:
  assumes "map_of (qu_materializedPrompts q) (key_of u) = None" "entry_of render u e" "u \<in> set us"
  shows "grown render us q (q\<lparr> qu_materializedPrompts := qu_materializedPrompts q @ [e] \<rparr>)"
  using assms by (auto simp: grown_def entry_of_def map_of_eq_None_iff)

lemma materialize_from_run:
  assumes "materialize_from render now vacant us q = (res, q')" "\<not> qu_materializeInProgress q" "vacant \<in> \<int>" "set us \<subseteq> set vs"
  shows "grown render vs q q' \<and>
    (0 \<le> vacant \<longrightarrow> of_nat (length (qu_materializedPrompts q')) \<le> of_nat (length (qu_materializedPrompts q)) + vacant) \<and>
    (vacant \<le> 0 \<longrightarrow> q' = q) \<and>
    (res = Inr () \<longrightarrow> of_nat (length (qu_materializedPrompts q)) + vacant \<le> of_nat (length (qu_materializedPrompts q')) \<or>
       (\<forall>u \<in> set us. iu_promptRecipe u \<noteq> None \<longrightarrow> map_of (qu_materializedPrompts q') (key_of u) \<noteq> None))"
  using assms
proof (induction us arbitrary: vacant q)
  case Nil
  then show ?case by (auto simp: ret_def grown_refl)
next
  case (Cons u us)
  show ?case
  proof (cases "vacant \<le> 0")
    case True
    with Cons.prems(1) show ?thesis by (auto simp: ret_def grown_refl)
  next
    case False
    show ?thesis
    proof (cases "map_of (qu_materializedPrompts q) (key_of u) \<noteq> None \<or> iu_promptRecipe u = None")
      case True
      then have run: "materialize_from render now vacant us q = (res, q')"
        using Cons.prems(1) False by (auto simp: bindp_def get_state_of_def split: if_splits option.splits)
      have sub: "set us \<subseteq> set vs" using Cons.prems(4) by simp
      note ih = Cons.IH [OF run Cons.prems(2,3) sub]
      have u_in: "iu_promptRecipe u \<noteq> None \<longrightarrow> map_of (qu_materializedPrompts q') (key_of u) \<noteq> None"
      proof
        assume "iu_promptRecipe u \<noteq> None"
        with True obtain p where "(key_of u, p) \<in> set (qu_materializedPrompts q)" by (metis map_of_SomeD not_None_eq)
        with grown_key ih show "map_of (qu_materializedPrompts q') (key_of u) \<noteq> None" by fastforce
      qed
      have "\<not> vacant \<le> 0" by (rule False)
      with ih u_in show ?thesis by (simp only: list.set ball_simps) blast
    next
      case new: False
      then obtain r where r: "iu_promptRecipe u = Some r" and none: "map_of (qu_materializedPrompts q) (key_of u) = None" by auto
      have run: "thenp (materialize_one render now u r) (materialize_from render now (vacant - 1) us) q = (res, q')"
        using Cons.prems(1) False r none by (simp add: bindp_def get_state_of_def)
      obtain n where n: "vacant = of_int n" using Cons.prems(3) by (auto elim: Ints_cases)
      have one: "1 \<le> vacant" using False n by simp
      show ?thesis
      proof (rule materialize_one_run [OF none Cons.prems(2) r, where render = render and now = now])
        assume "materialize_one render now u r q = (Inl PromptFailed, q)"
        with run have "res = Inl PromptFailed" "q' = q" by (auto simp: thenp_def bindp_def)
        with False show ?thesis by (auto simp: grown_refl)
      next
        fix e assume e: "entry_of render u e"
          and step: "materialize_one render now u r q = (Inr (), q\<lparr> qu_materializedPrompts := qu_materializedPrompts q @ [e] \<rparr>)"
        let ?q = "q\<lparr> qu_materializedPrompts := qu_materializedPrompts q @ [e] \<rparr>"
        have rest: "materialize_from render now (vacant - 1) us ?q = (res, q')" using run step by (simp add: thenp_def bindp_def)
        have "vacant - 1 \<in> \<int>" using Cons.prems(3) by simp
        note ih = Cons.IH [OF rest _ this]
        have g: "grown render vs q ?q" by (rule grown_append [OF none e]) (use Cons.prems(4) in simp)
        have "grown render vs ?q q'" using ih Cons.prems(2,4) by simp
        moreover have "map_of (qu_materializedPrompts q') (key_of u) \<noteq> None" if "grown render vs ?q q'"
          using grown_key [OF that, of e] e by (simp add: entry_of_def)
        ultimately show ?thesis
          using ih grown_trans [OF g] one Cons.prems(2,4) by (auto simp: algebra_simps)
      qed
    qed
  qed
qed

section \<open>Refreshing\<close>

lemma grown_ok:
  assumes "grown render (eligible_units dates now q) q q'" "queue_ok render q" "qu_mode q = Materializing"
    and "of_nat (length (qu_materializedPrompts q')) \<le> qu_maxMaterializedPrompts q"
  shows "queue_ok render q' \<and> same_index q q' \<and> qu_claimedPrompts q' = qu_claimedPrompts q"
proof -
  obtain m where m: "q' = q\<lparr> qu_materializedPrompts := m \<rparr>" using assms(1) by (auto simp: grown_def)
  have idx: "index_ok q" and p: "prompts_ok render q" using assms(2) by (simp_all add: queue_ok_def)
  have "\<exists>u. map_of (qu_units q) (fst e) = Some u \<and> entry_of render u e" if "e \<in> set m" for e
  proof -
    have "\<forall>e \<in> set (qu_materializedPrompts q'). e \<in> set (qu_materializedPrompts q) \<or> (\<exists>u \<in> set (eligible_units dates now q). entry_of render u e)"
      using assms(1) unfolding grown_def by blast
    moreover have "e \<in> set (qu_materializedPrompts q')" using that by (simp add: m)
    ultimately consider "e \<in> set (qu_materializedPrompts q)" | u where "u \<in> set (eligible_units dates now q)" "entry_of render u e"
      by blast
    then show ?thesis
    proof cases
      case 1
      with p show ?thesis by (simp add: prompts_ok_def list_all_iff)
    next
      case (2 u)
      then have "u \<in> set (map snd (qu_units q))" by (auto simp: eligible_units_def)
      from unit_in [OF idx this] 2(2) show ?thesis by (auto simp: entry_of_def)
    qed
  qed
  moreover have "distinct (map fst m)" using assms(1) p by (simp add: grown_def prompts_ok_def m)
  moreover have "set (map fst (qu_materializedPrompts q)) \<subseteq> set (map fst m)" using assms(1) by (auto simp: grown_def m)
  ultimately have "prompts_ok render q'" using p by (auto simp: prompts_ok_def m list_all_iff)
  moreover have "capacity_ok q'" using assms(2,3,4) by (simp add: m queue_ok_def capacity_ok_def)
  moreover have "same_index q q'" by (simp add: m same_index_def)
  ultimately show ?thesis using assms(2) by (simp add: m queue_ok_def index_ok_def timer_ok_def)
qed

lemma arm_ok:
  shows "queue_ok render q \<Longrightarrow> queue_ok render (arm_earliest_wake dates now q)" "same_index q (arm_earliest_wake dates now q)"
    "qu_claimedPrompts (arm_earliest_wake dates now q) = qu_claimedPrompts q"
    "qu_materializedPrompts (arm_earliest_wake dates now q) = qu_materializedPrompts q"
    "timer_ok q \<Longrightarrow> qu_scheduledWakeAt (arm_earliest_wake dates now q) = earliest_wake dates now q \<and> timer_ok (arm_earliest_wake dates now q)"
  by (auto simp: arm_earliest_wake_def Let_def same_index_def queue_ok_def index_ok_def prompts_ok_def capacity_ok_def timer_ok_def)

text \<open>What a refresh leaves, whether or not it throws.\<close>

definition refreshed_to :: "dates \<Rightarrow> (queue_recipe \<Rightarrow> 'p option) \<Rightarrow> rat \<Rightarrow> 'p queue \<Rightarrow> 'p queue \<Rightarrow> bool" where
  "refreshed_to dates render now q q' \<longleftrightarrow>
     queue_ok render q' \<and> same_index q q' \<and>
     (\<forall>k. k \<in> set (qu_claimedPrompts q') \<longleftrightarrow> k \<in> set (qu_claimedPrompts q) \<and> kept dates now q k) \<and>
     (\<forall>e \<in> set (qu_materializedPrompts q'). fst e \<notin> set (qu_claimedPrompts q') \<longrightarrow>
        (\<exists>u. map_of (qu_units q) (fst e) = Some u \<and> is_eligible dates now q u \<and> \<not> resources_limited q))"

text \<open>What it leaves when it does not throw: no vacancy is left unused, and the timer is set.\<close>

definition filled_up :: "dates \<Rightarrow> rat \<Rightarrow> 'p queue \<Rightarrow> bool" where
  "filled_up dates now q \<longleftrightarrow>
     (qu_mode q = Materializing \<and> \<not> resources_limited q \<longrightarrow>
        qu_maxMaterializedPrompts q \<le> of_nat (length (qu_materializedPrompts q)) \<or>
        (\<forall>u \<in> set (eligible_units dates now q). map_of (qu_materializedPrompts q) (key_of u) \<noteq> None)) \<and>
     qu_scheduledWakeAt q = earliest_wake dates now q"

lemma prune_refreshes:
  assumes "queue_ok render q"
  shows "refreshed_to dates render now q (prune_materialized_prompts dates now q)"
proof -
  let ?D = "{k \<in> fst ` set (qu_materializedPrompts q). \<not> kept dates now q k}"
  have p: "prompts_ok render q" using assms by (simp add: queue_ok_def)
  have q1: "prune_materialized_prompts dates now q = forget ?D q" by (rule prune_is_forget [OF p])
  have claims: "k \<in> set (qu_claimedPrompts (forget ?D q)) \<longleftrightarrow> k \<in> set (qu_claimedPrompts q) \<and> kept dates now q k" for k
    using p by (auto simp: forget_def prompts_ok_def)
  have "\<exists>u. map_of (qu_units q) (fst e) = Some u \<and> is_eligible dates now q u \<and> \<not> resources_limited q"
    if e: "e \<in> set (qu_materializedPrompts (forget ?D q))" "fst e \<notin> set (qu_claimedPrompts (forget ?D q))" for e
  proof -
    have k: "kept dates now q (fst e)" using e(1) by (auto simp: forget_def)
    with e(2) claims have "fst e \<notin> set (qu_claimedPrompts q)" by blast
    with k show ?thesis by (auto simp: kept_def split: option.splits)
  qed
  with forget_ok [OF assms, of ?D] claims show ?thesis by (simp add: refreshed_to_def q1)
qed

lemma refresh_runs:
  assumes "refresh dates render now q = (res, q')" "queue_ok render q"
  shows "refreshed_to dates render now q q'" "res = Inr () \<Longrightarrow> filled_up dates now q'"
proof -
  define q1 where "q1 = prune_materialized_prompts dates now q"
  have r1: "refreshed_to dates render now q q1" unfolding q1_def by (rule prune_refreshes [OF assms(2)])
  then have ok1: "queue_ok render q1" and i1: "same_index q q1" by (simp_all add: refreshed_to_def)
  obtain res2 q2 where m: "(if qu_mode q1 = Materializing \<and> \<not> resources_limited q1 then materialize_eligible_prompts dates render now else ret ()) q1 = (res2, q2)"
    by fastforce
  have run: "(res, q') = (case res2 of Inl e \<Rightarrow> (Inl e, q2) | Inr _ \<Rightarrow> (Inr (), arm_earliest_wake dates now q2))"
    using assms(1) m by (auto simp: refresh_def thenp_def bindp_def modify_def get_state_of_def q1_def split: sum.splits)
  have r2: "refreshed_to dates render now q q2 \<and> (res2 = Inr () \<longrightarrow> qu_mode q2 = Materializing \<and> \<not> resources_limited q2 \<longrightarrow>
        qu_maxMaterializedPrompts q2 \<le> of_nat (length (qu_materializedPrompts q2)) \<or>
        (\<forall>u \<in> set (eligible_units dates now q2). map_of (qu_materializedPrompts q2) (key_of u) \<noteq> None))"
  proof (cases "qu_mode q1 = Materializing \<and> \<not> resources_limited q1")
    case False
    then have "q2 = q1" using m by (auto simp: ret_def)
    with False r1 show ?thesis by blast
  next
    case True
    define v where "v = qu_maxMaterializedPrompts q1 - of_nat (length (qu_materializedPrompts q1))"
    have cap: "capacity_ok q1" using ok1 by (simp add: queue_ok_def)
    then obtain n where "qu_maxMaterializedPrompts q1 = of_nat n" by (auto simp: capacity_ok_def)
    then have v: "v \<in> \<int>" by (simp add: v_def)
    have v0: "0 \<le> v" using cap by (simp add: v_def capacity_ok_def)
    have run2: "materialize_from render now v (eligible_units dates now q1) q1 = (res2, q2)"
      using m True by (simp add: materialize_eligible_prompts_def bindp_def get_state_of_def v_def)
    have "\<not> qu_materializeInProgress q1" using ok1 by (simp add: queue_ok_def)
    note f = materialize_from_run [OF run2 this v subset_refl]
    have "of_nat (length (qu_materializedPrompts q2)) \<le> qu_maxMaterializedPrompts q1" using f v0 by (simp add: v_def)
    with f have g: "queue_ok render q2 \<and> same_index q1 q2 \<and> qu_claimedPrompts q2 = qu_claimedPrompts q1"
      using grown_ok [OF _ ok1, of dates now q2] True by blast
    have "\<exists>u. map_of (qu_units q) (fst e) = Some u \<and> is_eligible dates now q u \<and> \<not> resources_limited q"
      if e: "e \<in> set (qu_materializedPrompts q2)" "fst e \<notin> set (qu_claimedPrompts q2)" for e
    proof -
      consider "e \<in> set (qu_materializedPrompts q1)" | u where "u \<in> set (eligible_units dates now q1)" "entry_of render u e"
        using f e(1) by (auto simp: grown_def)
      then show ?thesis
      proof cases
        case 1
        with r1 e(2) g show ?thesis by (auto simp: refreshed_to_def)
      next
        case (2 u)
        then have u: "u \<in> set (map snd (qu_units q1))" "is_eligible dates now q1 u" by (auto simp: eligible_units_def)
        have "map_of (qu_units q1) (key_of u) = Some u" by (rule unit_in) (use ok1 u in \<open>simp_all add: queue_ok_def\<close>)
        with u(2) 2(2) True show ?thesis by (auto simp: same_index_reads [OF i1] entry_of_def)
      qed
    qed
    then have "refreshed_to dates render now q q2"
      using r1 g same_index_trans [OF i1] by (simp add: refreshed_to_def)
    moreover have "qu_maxMaterializedPrompts q2 \<le> of_nat (length (qu_materializedPrompts q2)) \<or>
        (\<forall>u \<in> set (eligible_units dates now q2). map_of (qu_materializedPrompts q2) (key_of u) \<noteq> None)" if "res2 = Inr ()"
    proof -
      have e: "eligible_units dates now q2 = eligible_units dates now q1" using g same_index_reads(5) by blast
      have "iu_promptRecipe u \<noteq> None" if "u \<in> set (eligible_units dates now q1)" for u
        using that by (auto simp: eligible_units_def is_eligible_def)
      moreover have "qu_maxMaterializedPrompts q2 = qu_maxMaterializedPrompts q1" using g by (simp add: same_index_def)
      ultimately show ?thesis using f that by (auto simp: e v_def)
    qed
    ultimately show ?thesis by blast
  qed
  have a: "refreshed_to dates render now q (arm_earliest_wake dates now q2)"
    using r2 arm_ok(1) [of render q2] same_index_trans [OF _ arm_ok(2) [of q2]] by (auto simp: refreshed_to_def arm_ok(3,4))
  show "refreshed_to dates render now q q'" using run r2 a by (auto split: sum.splits)
  assume "res = Inr ()"
  with run have res2: "res2 = Inr ()" and q': "q' = arm_earliest_wake dates now q2" by (auto split: sum.splits)
  have i: "same_index q2 q'" unfolding q' by (rule arm_ok(2))
  have "timer_ok q2" using r2 by (simp add: refreshed_to_def queue_ok_def)
  then have "qu_scheduledWakeAt q' = earliest_wake dates now q2" unfolding q' using arm_ok(5) by blast
  moreover have "qu_mode q' = qu_mode q2" "qu_maxMaterializedPrompts q' = qu_maxMaterializedPrompts q2" using i by (simp_all add: same_index_def)
  moreover have "qu_materializedPrompts q' = qu_materializedPrompts q2" unfolding q' by (rule arm_ok(4))
  ultimately show "filled_up dates now q'" using r2 res2 unfolding filled_up_def by (simp add: same_index_reads [OF i])
qed

end
