(* ===== verification/SchedQueueKeeps.thy ===== *)
theory SchedQueueKeeps
  imports SchedQueueFacts
begin

text \<open>Every operation of the queue keeps its invariant, and a claim lasts until it is given back.\<close>

section \<open>Running an operation\<close>

lemma thenp_modify: "thenp (modify f) m q = m (f q)"
  by (simp add: thenp_def bindp_def modify_def)

lemma thenp_ensure: "\<not> qu_materializeInProgress q \<Longrightarrow> thenp ensure_not_materializing m q = m q"
  by (simp add: thenp_def bindp_def ensure_not_materializing_def get_state_of_def demand_def)

lemma thenp_snd: "(\<And>t. snd (m2 t) = t) \<Longrightarrow> snd (thenp m1 m2 q) = snd (m1 q)"
  by (auto simp: thenp_def bindp_def split: prod.splits sum.splits)

lemma emit_snd: "snd (emit_wake dates render now r q) = snd (refresh dates render now q)"
  unfolding emit_wake_def by (rule thenp_snd) (simp add: ret_def)

lemma read_snd: "snd (thenp m (bindp get_state_of (\<lambda>q. ret (f q))) q) = snd (m q)"
  by (rule thenp_snd) (simp add: bindp_def get_state_of_def ret_def)

lemma refresh_snd: "queue_ok render q \<Longrightarrow> refreshed_to dates render now q (snd (refresh dates render now q))"
  by (rule refresh_runs(1) [of dates render now q "fst (refresh dates render now q)"]) simp

section \<open>The changes before a refresh\<close>

lemma queue_same_tables_ok:
  assumes "queue_ok render q" "qu_units r = qu_units q" "qu_materializedPrompts r = qu_materializedPrompts q"
    "qu_claimedPrompts r = qu_claimedPrompts q" "qu_mode r = qu_mode q" "qu_maxMaterializedPrompts r = qu_maxMaterializedPrompts q"
    "timer_ok r" "qu_materializeInProgress r = qu_materializeInProgress q"
  shows "queue_ok render r"
  using assms by (simp add: queue_ok_def index_ok_def prompts_ok_def capacity_ok_def del: map_of_eq_Some_iff)

lemma drop_is_forget:
  shows "drop_prompt k (unclaim k q) = forget {k} q"
proof -
  have "map_del k m = filter (\<lambda>e. fst e \<notin> {k}) m" for m :: "(string \<times> 'a queue_prompt) list"
    by (simp add: map_del_def) (rule filter_cong, auto)
  moreover have "removeAll k c = filter (\<lambda>y. y \<notin> {k}) c" for c :: "string list"
    by (induction c) auto
  ultimately show ?thesis by (simp add: drop_prompt_def unclaim_def forget_def)
qed

definition cancelled_by :: "string \<Rightarrow> 'p queue \<Rightarrow> 'p queue" where
  "cancelled_by t q = q\<lparr> qu_cancelledTaskIds := add_to_set t (qu_cancelledTaskIds q),
     qu_materializedPrompts := filter (\<lambda>(k, p). \<not> (qp_taskId p = t \<and> k \<notin> set (qu_claimedPrompts q))) (qu_materializedPrompts q) \<rparr>"

definition completed_by :: "string \<Rightarrow> 'p queue \<Rightarrow> 'p queue" where
  "completed_by k q = forget {k} (q\<lparr> qu_completedUnitKeys := add_to_set k (qu_completedUnitKeys q) \<rparr>)"

lemma cancelled_ok:
  assumes "queue_ok render q"
  shows "queue_ok render (cancelled_by t q)"
proof -
  let ?P = "\<lambda>(k, p). \<not> (qp_taskId p = t \<and> k \<notin> set (qu_claimedPrompts q))"
  have p: "prompts_ok render q" and c: "capacity_ok q" using assms by (simp_all add: queue_ok_def)
  have "distinct (map fst (filter ?P (qu_materializedPrompts q)))" using p by (simp add: prompts_ok_def distinct_map_filter)
  moreover have "set (qu_claimedPrompts q) \<subseteq> set (map fst (filter ?P (qu_materializedPrompts q)))"
    using p by (fastforce simp: prompts_ok_def)
  ultimately have "prompts_ok render (cancelled_by t q)" using p by (simp add: prompts_ok_def cancelled_by_def list_all_iff)
  moreover have "length (filter ?P (qu_materializedPrompts q)) \<le> length (qu_materializedPrompts q)" by (rule length_filter_le)
  then have "rat_of_nat (length (filter ?P (qu_materializedPrompts q))) \<le> of_nat (length (qu_materializedPrompts q))" by (simp only: of_nat_le_iff)
  then have "rat_of_nat (length (filter ?P (qu_materializedPrompts q))) \<le> qu_maxMaterializedPrompts q"
    using c unfolding capacity_ok_def by (elim conjE) (rule order_trans)
  with c have "capacity_ok (cancelled_by t q)" by (simp add: capacity_ok_def cancelled_by_def)
  ultimately show ?thesis using assms by (simp add: queue_ok_def index_ok_def timer_ok_def cancelled_by_def)
qed

lemma completed_ok: "queue_ok render q \<Longrightarrow> queue_ok render (completed_by k q)"
  unfolding completed_by_def by (rule forget_ok) (rule queue_same_tables_ok, auto simp: queue_ok_def timer_ok_def)

lemma resources_ok: "queue_ok render q \<Longrightarrow> queue_ok render (q\<lparr> qu_memorySoftLimit := m, qu_diskSoftLimit := d \<rparr>)"
  by (rule queue_same_tables_ok) (auto simp: queue_ok_def timer_ok_def)

lemma no_timer_ok: "queue_ok render q \<Longrightarrow> queue_ok render (q\<lparr> qu_timer := None, qu_scheduledWakeAt := None \<rparr>)"
  by (rule queue_same_tables_ok) (auto simp: timer_ok_def)

section \<open>Indexing\<close>

definition indexing :: "(queue_recipe \<Rightarrow> 'p option) \<Rightarrow> 'p queue \<Rightarrow> bool" where
  "indexing render q \<longleftrightarrow> queue_ok render q \<and> qu_materializedPrompts q = []"

lemma indexing_clear: "queue_ok render q \<Longrightarrow> indexing render (clear_index q)"
  by (auto simp: indexing_def queue_ok_def index_ok_def prompts_ok_def capacity_ok_def timer_ok_def clear_index_def)

lemma indexing_units:
  assumes "indexing render q" "index_ok r" "qu_materializedPrompts r = []" "qu_claimedPrompts r = qu_claimedPrompts q"
    "qu_mode r = qu_mode q" "qu_maxMaterializedPrompts r = qu_maxMaterializedPrompts q" "qu_timer r = qu_timer q"
    "qu_scheduledWakeAt r = qu_scheduledWakeAt q" "qu_materializeInProgress r = qu_materializeInProgress q"
  shows "indexing render r"
proof -
  have "set (qu_claimedPrompts q) = {}" using assms(1) by (auto simp: indexing_def queue_ok_def prompts_ok_def)
  then have "qu_claimedPrompts q = []" by simp
  with assms show ?thesis by (simp add: indexing_def queue_ok_def prompts_ok_def capacity_ok_def timer_ok_def)
qed

lemma set_map_put_pair: "e \<in> set (map_put k v m) \<Longrightarrow> e \<in> set m \<or> e = (k, v)"
  by (induction m) (auto split: if_splits)

lemma indexing_add_unit:
  assumes "indexing render q"
  shows "indexing render (add_to_bucket task u
    (q\<lparr> qu_units := map_put (queue_unit_key task (ul_unitId u)) (index_unit task t sources u) (qu_units q) \<rparr>))"
proof -
  have "index_ok q" using assms by (simp add: indexing_def queue_ok_def)
  then have "index_ok (add_to_bucket task u (q\<lparr> qu_units := map_put (queue_unit_key task (ul_unitId u)) (index_unit task t sources u) (qu_units q) \<rparr>))"
    by (simp add: index_ok_def add_to_bucket_def Let_def distinct_map_put)
      (auto simp: list_all_iff key_of_def index_unit_def Let_def dest!: set_map_put_pair)
  then show ?thesis by (rule indexing_units [OF assms]) (use assms in \<open>simp_all add: indexing_def add_to_bucket_def Let_def\<close>)
qed

lemma keeps_bind_state: "(\<And>s. I s \<Longrightarrow> keeps I (f s)) \<Longrightarrow> keeps I (bindp get_state_of f)"
  by (auto simp: keeps_def bindp_def get_state_of_def)

lemma keeps_index_unit: "keeps (indexing render) (index_ledger_unit task t sources u)"
  unfolding index_ledger_unit_def
  by (intro keeps_bind_state keeps_if keeps_modify keeps_simps indexing_add_unit)

lemma keeps_index_ledger: "keeps (indexing render) (index_ledger l)"
proof -
  have tasks: "indexing render (q\<lparr> qu_tasks := x \<rparr>)" if "indexing render q" for x q
    by (rule indexing_units [OF that]) (use that in \<open>simp_all add: indexing_def queue_ok_def index_ok_def\<close>)
  have sorted: "indexing render (sort_buckets q)" if "indexing render q" for q
    by (rule indexing_units [OF that]) (use that in \<open>simp_all add: indexing_def queue_ok_def index_ok_def sort_buckets_def\<close>)
  show ?thesis
    unfolding index_ledger_def Let_def
    by (intro keeps_bind_state keeps_if keeps_then keeps_modify keeps_for_each keeps_simps keeps_index_unit tasks sorted)
qed

lemma keeps_index_all: "keeps (indexing render) (for_each index_ledger ls)"
  by (intro keeps_for_each keeps_index_ledger)

section \<open>Steps\<close>

lemma pending_prompt:
  assumes "p \<in> set (pending_materialized_prompts q)" "prompts_ok render q"
  obtains u where "map_of (qu_units q) (queue_unit_key (qp_taskId p) (qp_unitId p)) = Some u"
    "(queue_unit_key (qp_taskId p) (qp_unitId p), p) \<in> set (qu_materializedPrompts q)"
    "queue_unit_key (qp_taskId p) (qp_unitId p) \<notin> set (qu_claimedPrompts q)"
    "entry_of render u (queue_unit_key (qp_taskId p) (qp_unitId p), p)"
proof -
  obtain k where k: "(k, p) \<in> set (qu_materializedPrompts q)" "k \<notin> set (qu_claimedPrompts q)"
    using assms(1) by (auto simp: pending_materialized_prompts_def)
  then obtain u where u: "map_of (qu_units q) k = Some u" "entry_of render u (k, p)" using assms(2) by (fastforce simp: prompts_ok_def list_all_iff)
  then have "k = queue_unit_key (qp_taskId p) (qp_unitId p)" by (simp add: entry_of_def key_of_def)
  with k u that show thesis by blast
qed

lemma claim_ok:
  assumes "queue_ok render q" "p \<in> set (pending_materialized_prompts q)"
  shows "queue_ok render (q\<lparr> qu_claimedPrompts := add_to_set (queue_unit_key (qp_taskId p) (qp_unitId p)) (qu_claimedPrompts q) \<rparr>)"
proof -
  have p: "prompts_ok render q" using assms(1) by (simp add: queue_ok_def)
  obtain u where "(queue_unit_key (qp_taskId p) (qp_unitId p), p) \<in> set (qu_materializedPrompts q)"
    by (rule pending_prompt [OF assms(2) p])
  then have "queue_unit_key (qp_taskId p) (qp_unitId p) \<in> fst ` set (qu_materializedPrompts q)" by force
  with assms(1) show ?thesis
    by (auto simp: queue_ok_def index_ok_def prompts_ok_def capacity_ok_def timer_ok_def add_to_set_def)
qed

lemma claim_next_run:
  assumes "claim_next dates render now q = (res, q')" "queue_ok render q"
  obtains e where "refresh dates render now q = (Inl e, q')" "res = Inl e"
  | "refresh dates render now q = (Inr (), q')" "res = Inr None" "pending_materialized_prompts q' = []"
  | r p ps where "refresh dates render now q = (Inr (), r)" "res = Inr (Some p)" "pending_materialized_prompts r = p # ps"
      "q' = r\<lparr> qu_claimedPrompts := add_to_set (queue_unit_key (qp_taskId p) (qp_unitId p)) (qu_claimedPrompts r) \<rparr>"
proof -
  obtain x r where r: "refresh dates render now q = (x, r)" by fastforce
  have "\<not> qu_materializeInProgress q" using assms(2) by (simp add: queue_ok_def)
  note run = assms(1) [unfolded claim_next_def thenp_ensure [OF this]]
  show thesis
  proof (cases x)
    case (Inl e)
    with run r that(1) [of e] show thesis by (simp add: thenp_def bindp_def)
  next
    case (Inr u)
    show thesis
    proof (cases "pending_materialized_prompts r")
      case Nil
      with run r Inr that(2) show thesis by (simp add: thenp_def bindp_def get_state_of_def ret_def)
    next
      case (Cons p ps)
      with run r Inr that(3) [of r p ps] show thesis by (simp add: thenp_def bindp_def get_state_of_def modify_def ret_def)
    qed
  qed
qed

lemma refresh_ok: "queue_ok render q \<Longrightarrow> queue_ok render (snd (refresh dates render now q))"
  using refresh_snd [of render q dates now] by (simp add: refreshed_to_def)

text \<open>Apart from claims, rebuilding and disposal, an operation is a change followed by a refresh.\<close>

definition change_of :: "queue_op \<Rightarrow> 'p queue \<Rightarrow> 'p queue" where
  "change_of c q = (case c of
     SetResources m d \<Rightarrow> q\<lparr> qu_memorySoftLimit := (case m of None \<Rightarrow> qu_memorySoftLimit q | Some b \<Rightarrow> b),
       qu_diskSoftLimit := (case d of None \<Rightarrow> qu_diskSoftLimit q | Some b \<Rightarrow> b) \<rparr>
   | DependencySucceeded t u \<Rightarrow> completed_by (queue_unit_key t u) q
   | TaskCancelled t \<Rightarrow> cancelled_by t q
   | ReleasePrompt t u \<Rightarrow> forget {queue_unit_key t u} q
   | TimerFires \<Rightarrow> q\<lparr> qu_timer := None, qu_scheduledWakeAt := None \<rparr>
   | _ \<Rightarrow> q)"

lemma change_ok: "queue_ok render q \<Longrightarrow> queue_ok render (change_of c q)"
  by (cases c) (simp_all add: change_of_def resources_ok completed_ok cancelled_ok forget_ok no_timer_ok)

lemma step_cases:
  assumes "queue_ok render q"
  obtains ls where "c = Rebuild ls" "queue_ok render (queue_step dates render (c, now) q)"
  | p where "c = ClaimNext" "p \<in> set (pending_materialized_prompts (snd (refresh dates render now q)))"
      "queue_step dates render (c, now) q = (snd (refresh dates render now q))\<lparr> qu_claimedPrompts :=
         add_to_set (queue_unit_key (qp_taskId p) (qp_unitId p)) (qu_claimedPrompts (snd (refresh dates render now q))) \<rparr>"
  | "c = Dispose \<or> c = TimerFires \<and> qu_timer q = None" "queue_step dates render (c, now) q = q\<lparr> qu_timer := None, qu_scheduledWakeAt := None \<rparr>"
  | "queue_step dates render (c, now) q = snd (refresh dates render now (change_of c q))"
proof -
  have free: "\<not> qu_materializeInProgress q" and t: "timer_ok q" using assms by (simp_all add: queue_ok_def)
  note run = thenp_ensure [OF free] thenp_modify emit_snd read_snd
  show thesis
  proof (cases c)
    case (Rebuild ls)
    let ?m = "for_each index_ledger (sort_by (\<lambda>l r. compare_text (tk_taskId (lg_task l)) (tk_taskId (lg_task r))) ls)"
    have "keeps (indexing render) ?m" by (rule keeps_index_all)
    with indexing_clear [OF assms] have i: "indexing render (snd (?m (clear_index q)))" by (simp add: keeps_def)
    have "queue_ok render (snd (thenp ?m (emit_wake dates render now WakeRebuild) (clear_index q)))"
    proof (cases "?m (clear_index q)")
      case (Pair x r)
      with i have "queue_ok render r" by (simp add: indexing_def)
      with Pair refresh_ok [OF this] show ?thesis
        by (cases x) (simp_all add: thenp_def bindp_def emit_snd)
    qed
    with Rebuild that(1) show thesis by (simp add: queue_step_def rebuild_def run)
  next
    case ClaimNext
    obtain res q' where cl: "claim_next dates render now q = (res, q')" by fastforce
    then have st: "queue_step dates render (c, now) q = q'" using ClaimNext by (simp add: queue_step_def)
    show thesis
      using cl assms
    proof (cases rule: claim_next_run)
      case (3 r p ps)
      with st have "queue_step dates render (c, now) q = (snd (refresh dates render now q))\<lparr> qu_claimedPrompts :=
         add_to_set (queue_unit_key (qp_taskId p) (qp_unitId p)) (qu_claimedPrompts (snd (refresh dates render now q))) \<rparr>" by simp
      then show thesis by (rule that(2) [OF ClaimNext, rotated]) (use 3 in simp)
    qed (use that(4) ClaimNext st in \<open>simp_all add: change_of_def\<close>)
  next
    case Dispose
    then show thesis using that(3) by (simp add: queue_step_def dispose_def run) (simp add: modify_def)
  next
    case TimerFires
    show thesis
    proof (cases "qu_timer q")
      case None
      then have "q\<lparr> qu_timer := None, qu_scheduledWakeAt := None \<rparr> = q" using t by (simp add: timer_ok_def)
      with None TimerFires that(3) show thesis by (simp add: queue_step_def)
    next
      case (Some d)
      with TimerFires that(4) show thesis by (simp add: queue_step_def timer_fires_def change_of_def run)
    qed
  next
    case (SetResources m d)
    with that(4) show thesis by (simp add: queue_step_def set_resources_def change_of_def run)
  next
    case ProviderChanged
    with that(4) show thesis by (simp add: queue_step_def notify_provider_changed_def change_of_def run)
  next
    case DependenciesChanged
    with that(4) show thesis by (simp add: queue_step_def notify_dependencies_changed_def change_of_def run)
  next
    case (DependencySucceeded t u)
    with that(4) show thesis
      by (simp add: queue_step_def notify_dependency_succeeded_def change_of_def completed_by_def drop_is_forget run)
  next
    case (TaskCancelled t)
    with that(4) show thesis by (simp add: queue_step_def notify_cancelled_def change_of_def cancelled_by_def run)
  next
    case ReadEligible
    with that(4) show thesis by (simp add: queue_step_def get_eligible_units_def change_of_def run)
  next
    case ReadCandidates
    with that(4) show thesis by (simp add: queue_step_def get_dispatch_candidates_def change_of_def run)
  next
    case (ReleasePrompt t u)
    with that(4) show thesis by (simp add: queue_step_def release_prompt_def change_of_def drop_is_forget run)
  next
    case ReadSnapshot
    with that(4) show thesis by (simp add: queue_step_def take_queue_snapshot_def change_of_def run)
  qed
qed

lemma step_ok:
  assumes "queue_ok render q"
  shows "queue_ok render (queue_step dates render (c, now) q)"
proof (rule step_cases [OF assms, where c = c and now = now and dates = dates])
  assume "queue_step dates render (c, now) q = snd (refresh dates render now (change_of c q))"
  with refresh_ok [OF change_ok [OF assms]] show ?thesis by simp
next
  fix p assume "p \<in> set (pending_materialized_prompts (snd (refresh dates render now q)))"
    "queue_step dates render (c, now) q = (snd (refresh dates render now q))\<lparr> qu_claimedPrompts :=
         add_to_set (queue_unit_key (qp_taskId p) (qp_unitId p)) (qu_claimedPrompts (snd (refresh dates render now q))) \<rparr>"
  with claim_ok [OF refresh_ok [OF assms]] show ?thesis by simp
qed (simp_all add: no_timer_ok [OF assms])

lemma queue_run_ok: "queue_ok render q \<Longrightarrow> queue_ok render (queue_run dates render ops q)"
  unfolding queue_run_def by (induction ops arbitrary: q) (auto intro: step_ok)

lemma new_queue_ok: "new_queue mode maximum = Inr q \<Longrightarrow> queue_ok render q"
proof -
  assume q: "new_queue mode maximum = Inr q"
  define m where "m = (case maximum of None \<Rightarrow> 32 | Some x \<Rightarrow> x)"
  have m: "is_integral m" "1 \<le> m" "qu_maxMaterializedPrompts q = m" using q by (auto simp: new_queue_def Let_def m_def split: if_splits)
  have "of_int \<lfloor>m\<rfloor> = m" using m(1) unfolding is_integral_def .
  moreover have "rat_of_int \<lfloor>m\<rfloor> = of_nat (nat \<lfloor>m\<rfloor>)" using m(2) by simp
  ultimately have "m = of_nat (nat \<lfloor>m\<rfloor>)" by (rule trans [OF sym])
  with m have "\<exists>n. qu_maxMaterializedPrompts q = of_nat n" by blast
  then show ?thesis using q m(2,3)
    by (auto simp: queue_ok_def index_ok_def prompts_ok_def capacity_ok_def timer_ok_def new_queue_def Let_def split: if_splits)
qed

section \<open>Claims\<close>

definition claimed :: "'p queue \<Rightarrow> string \<Rightarrow> string \<Rightarrow> bool" where
  "claimed q t k \<longleftrightarrow> k \<in> set (qu_claimedPrompts q) \<and> (\<exists>u. map_of (qu_units q) k = Some u \<and> iu_taskId u = t \<and> \<not> is_task_cancelled q u)"

definition gives_back :: "string \<Rightarrow> string \<Rightarrow> queue_op \<Rightarrow> bool" where
  "gives_back t u c \<longleftrightarrow> (case c of Rebuild ls \<Rightarrow> True | DependencySucceeded t' u' \<Rightarrow> queue_unit_key t' u' = queue_unit_key t u
     | ReleasePrompt t' u' \<Rightarrow> queue_unit_key t' u' = queue_unit_key t u | TaskCancelled t' \<Rightarrow> t' = t | _ \<Rightarrow> False)"

lemma refresh_claimed:
  assumes "refreshed_to dates render now q q'" "claimed q t k"
  shows "claimed q' t k"
proof -
  have i: "same_index q q'" using assms(1) by (simp add: refreshed_to_def)
  have "kept dates now q k" using assms(2) by (auto simp: kept_def claimed_def)
  with assms show ?thesis by (auto simp: refreshed_to_def claimed_def same_index_reads [OF i])
qed

lemma change_claimed: "claimed q t (queue_unit_key t u) \<Longrightarrow> \<not> gives_back t u c \<Longrightarrow> claimed (change_of c q) t (queue_unit_key t u)"
  by (cases c) (auto simp: claimed_def change_of_def gives_back_def completed_by_def cancelled_by_def forget_def is_task_cancelled_def add_to_set_def)

lemma step_claimed:
  assumes "queue_ok render q" "claimed q t (queue_unit_key t u)" "\<not> gives_back t u c"
  shows "claimed (queue_step dates render (c, now) q) t (queue_unit_key t u)"
proof (rule step_cases [OF assms(1), where c = c and now = now and dates = dates])
  fix ls assume "c = Rebuild ls"
  with assms(3) show ?thesis by (simp add: gives_back_def)
next
  fix p assume "queue_step dates render (c, now) q = (snd (refresh dates render now q))\<lparr> qu_claimedPrompts :=
         add_to_set (queue_unit_key (qp_taskId p) (qp_unitId p)) (qu_claimedPrompts (snd (refresh dates render now q))) \<rparr>"
  moreover have "claimed (snd (refresh dates render now q)) t (queue_unit_key t u)" by (rule refresh_claimed [OF refresh_snd [OF assms(1)] assms(2)])
  ultimately show ?thesis by (auto simp: claimed_def add_to_set_def is_task_cancelled_def)
next
  assume "queue_step dates render (c, now) q = q\<lparr> qu_timer := None, qu_scheduledWakeAt := None \<rparr>"
  with assms(2) show ?thesis by (simp add: claimed_def is_task_cancelled_def)
next
  assume "queue_step dates render (c, now) q = snd (refresh dates render now (change_of c q))"
  with refresh_claimed [OF refresh_snd [OF change_ok [OF assms(1)]] change_claimed [OF assms(2,3)]] show ?thesis by simp
qed

lemma run_claimed:
  assumes "queue_ok render q" "claimed q t (queue_unit_key t u)" "list_all (\<lambda>(c, _). \<not> gives_back t u c) ops"
  shows "claimed (queue_run dates render ops q) t (queue_unit_key t u)"
  using assms unfolding queue_run_def
  by (induction ops arbitrary: q) (auto intro: step_ok step_claimed)

section \<open>Wakes\<close>

lemma fold_sooner:
  "fold (\<lambda>u. sooner (w u)) us acc = Some t \<Longrightarrow> acc = Some t \<or> (\<exists>u \<in> set us. w u = Some t)"
proof (induction us arbitrary: acc)
  case (Cons u us)
  then have "sooner (w u) acc = Some t \<or> (\<exists>u \<in> set us. w u = Some t)" by simp
  moreover have "sooner (w u) acc = Some t \<Longrightarrow> acc = Some t \<or> w u = Some t" by (auto simp: sooner_def split: option.splits if_splits)
  ultimately show ?case by auto
qed simp

lemma fold_sooner_acc: "acc = Some x \<Longrightarrow> \<exists>t. fold (\<lambda>u. sooner (w u)) us acc = Some t \<and> t \<le> x"
proof (induction us arbitrary: acc x)
  case (Cons u us)
  have "\<exists>y. sooner (w u) acc = Some y \<and> y \<le> x" using Cons.prems by (auto simp: sooner_def split: option.splits)
  then obtain y where y: "sooner (w u) acc = Some y" "y \<le> x" by blast
  from Cons.IH [OF y(1)] y(2) show ?case by (auto intro: order_trans)
qed simp

lemma fold_sooner_least:
  assumes "u \<in> set us" "w u = Some x"
  shows "\<exists>t. fold (\<lambda>u. sooner (w u)) us acc = Some t \<and> t \<le> x"
  using assms(1)
proof (induction us arbitrary: acc)
  case (Cons v us)
  show ?case
  proof (cases "v = u")
    case True
    have "\<exists>y. sooner (w v) acc = Some y \<and> y \<le> x" using True assms(2) by (auto simp: sooner_def split: option.splits)
    then obtain y where y: "sooner (w v) acc = Some y" "y \<le> x" by blast
    from fold_sooner_acc [OF y(1), of w us] y(2) show ?thesis by (auto intro: order_trans)
  next
    case False
    then have "u \<in> set us" using Cons.prems by simp
    from Cons.IH [OF this] show ?thesis by simp
  qed
qed simp

lemma earliest_wake_future: "earliest_wake dates now q = Some t \<Longrightarrow> now < t"
  unfolding earliest_wake_def by (auto dest!: fold_sooner simp: waits_for_backoff_def split: if_splits option.splits)

text \<open>A unit that becomes eligible by the passing of time alone is waiting for its backoff.\<close>

lemma becomes_eligible:
  assumes "is_eligible dates t q u" "\<not> is_eligible dates now q u"
  shows "\<exists>x. waits_for_backoff dates now q u = Some x \<and> x \<le> t"
  using assms by (auto simp: is_eligible_def waits_for_backoff_def split: option.splits)

end
