(* ===== verification/SchedQueueProps.thy ===== *)
theory SchedQueueProps
  imports SchedQueueKeeps LedgerDemo
begin

text \<open>
  The properties of the queue: what it hands out may be dispatched, one claim at a time, nothing is held back
  without a reason, and the timer misses no unit.
\<close>

section \<open>A sample queue\<close>

definition sample_render :: "queue_recipe \<Rightarrow> string option" where
  "sample_render r = Some (qr_unitId r)"

definition queued_task :: task_ledger where
  "queued_task = (demo_task TRunning 0 0 0)
     \<lparr> tk_createdAt := ''t'', tk_updatedAt := ''t'', tk_admission := LedgerCreated,
        tk_admissionIdentity := \<lparr> ai_requestKey = ''k'', ai_requestHash = ''h'' \<rparr> \<rparr>"

definition queued_unit :: "string \<Rightarrow> rat \<Rightarrow> string option \<Rightarrow> unit_ledger" where
  "queued_unit i n t = (sample_unit UQueued)
     \<lparr> ul_unitId := i, ul_composeOrder := n, ul_nextEligibleAt := t, ul_enqueueTime := ''t'', ul_layerEnterTime := ''t'' \<rparr>"

definition queued_ledger :: ledger where
  "queued_ledger = dispatching_ledger
     \<lparr> lg_task := queued_task, lg_attempts := [],
        lg_units := [queued_unit ''u'' 0 None, queued_unit ''v'' 1 (Some ''1970-01-01T00:00:05.000Z'')] \<rparr>"

definition sample_queue :: "string queue" where
  "sample_queue = (case new_queue None (Some 1) of Inr q \<Rightarrow> q)"

definition sample_ops :: "(queue_op \<times> rat) list" where
  "sample_ops = [(Rebuild [queued_ledger], 1000)]"

lemma sample_new: "new_queue None (Some 1) = Inr sample_queue"
  by (simp add: sample_queue_def new_queue_def Let_def is_integral_def)

text \<open>The sample run is evaluated once.\<close>

lemma sample_claims:
  "let q = queue_run no_dates sample_render sample_ops sample_queue; c1 = claim_next no_dates sample_render 1000 q;
       q1 = snd c1; q2 = snd (take_queue_snapshot no_dates sample_render 1000 q1)
   in (case fst c1 of Inr (Some p) \<Rightarrow> qp_unitId p = ''u'' \<and> qp_taskId p = ''task'' | _ \<Rightarrow> False) \<and>
      (case fst (claim_next no_dates sample_render 6000 q1) of Inr None \<Rightarrow> True | _ \<Rightarrow> False) \<and>
      (case fst (take_queue_snapshot no_dates sample_render 1000 q1) of Inr s \<Rightarrow> qs_nextWakeAt s = Some 5000 | _ \<Rightarrow> False) \<and>
      list_ex (\<lambda>u. is_eligible no_dates 6000 q2 u \<and> \<not> is_eligible no_dates 1000 q2 u) (map snd (qu_units q2))"
  by code_simp

definition sample_index :: "string queue" where
  "sample_index = queue_run no_dates sample_render sample_ops sample_queue"

lemma sample_first:
  obtains p q1 where "claim_next no_dates sample_render 1000 sample_index = (Inr (Some p), q1)" "qp_unitId p = ''u''" "qp_taskId p = ''task''"
    "\<exists>q2. claim_next no_dates sample_render 6000 q1 = (Inr None, q2)"
    "\<exists>s q2. take_queue_snapshot no_dates sample_render 1000 q1 = (Inr s, q2) \<and> qs_nextWakeAt s = Some 5000 \<and>
       list_ex (\<lambda>u. is_eligible no_dates 6000 q2 u \<and> \<not> is_eligible no_dates 1000 q2 u) (map snd (qu_units q2))"
proof -
  obtain res q1 where c: "claim_next no_dates sample_render 1000 sample_index = (res, q1)" by fastforce
  note f = sample_claims [unfolded Let_def, folded sample_index_def, unfolded c fst_conv snd_conv]
  obtain p where p: "res = Inr (Some p)" "qp_unitId p = ''u''" "qp_taskId p = ''task''"
    using f by (auto split: sum.splits option.splits)
  obtain r2 q2 where c2: "claim_next no_dates sample_render 6000 q1 = (r2, q2)" by fastforce
  obtain r3 q3 where c3: "take_queue_snapshot no_dates sample_render 1000 q1 = (r3, q3)" by fastforce
  note g = f [unfolded c2 c3 fst_conv snd_conv]
  have "r2 = Inr None" using g by (simp split: sum.splits option.splits)
  moreover have "\<exists>s. r3 = Inr s \<and> qs_nextWakeAt s = Some 5000" using g by (simp split: sum.splits)
  moreover have "list_ex (\<lambda>u. is_eligible no_dates 6000 q3 u \<and> \<not> is_eligible no_dates 1000 q3 u) (map snd (qu_units q3))" using g by blast
  ultimately show thesis using that [of p q1] c c2 c3 p by blast
qed

section \<open>What is handed out\<close>

lemma queue_reachable_ok: "new_queue mode maximum = Inr q0 \<Longrightarrow> queue_ok render (queue_run dates render ops q0)"
  by (rule queue_run_ok [OF new_queue_ok])

text \<open>A claim of a reachable queue: the refreshed queue and the prompt that heads it.\<close>

lemma claim_some:
  assumes "claim_next dates render now q = (Inr (Some p), q')" "queue_ok render q"
  obtains r u where "refreshed_to dates render now q r" "queue_unit_key (qp_taskId p) (qp_unitId p) \<notin> set (qu_claimedPrompts r)"
    "q' = r\<lparr> qu_claimedPrompts := add_to_set (queue_unit_key (qp_taskId p) (qp_unitId p)) (qu_claimedPrompts r) \<rparr>"
    "map_of (qu_units q) (queue_unit_key (qp_taskId p) (qp_unitId p)) = Some u" "is_eligible dates now q u" "\<not> resources_limited q"
    "entry_of render u (queue_unit_key (qp_taskId p) (qp_unitId p), p)"
proof -
  let ?k = "queue_unit_key (qp_taskId p) (qp_unitId p)"
  obtain r ps where run: "refresh dates render now q = (Inr (), r)" and pend: "pending_materialized_prompts r = p # ps"
    and q': "q' = r\<lparr> qu_claimedPrompts := add_to_set ?k (qu_claimedPrompts r) \<rparr>"
    using assms by (cases rule: claim_next_run) auto
  have rf: "refreshed_to dates render now q r" by (rule refresh_runs(1) [OF run assms(2)])
  then have ok: "prompts_ok render r" and i: "same_index q r" by (simp_all add: refreshed_to_def queue_ok_def)
  obtain u where u: "map_of (qu_units r) ?k = Some u" "(?k, p) \<in> set (qu_materializedPrompts r)" "?k \<notin> set (qu_claimedPrompts r)"
    "entry_of render u (?k, p)"
    by (rule pending_prompt [OF _ ok, of p]) (simp_all add: pend)
  have units: "qu_units r = qu_units q" by (rule same_index_reads(7) [OF i])
  obtain v where "map_of (qu_units q) ?k = Some v" "is_eligible dates now q v" "\<not> resources_limited q"
    using rf u(2,3) by (fastforce simp: refreshed_to_def)
  with u that [OF rf u(3) q', of u] units show thesis by simp
qed

text \<open>
  C27: Whatever operations came before, a prompt that is claimed belongs to an indexed unit that may be dispatched
  now: its task is queued or running, needs no repair and is not cancelled, the unit is a candidate and not
  completed, its dependencies are ready, its backoff is over, no resource limit is set, and the prompt is what the
  callback makes of the recipe of this very unit.
\<close>

theorem claimed_prompt_is_dispatchable:
  assumes "new_queue mode maximum = Inr q0" "q = queue_run dates render ops q0" "claim_next dates render now q = (Inr (Some p), q')"
  shows "\<exists>u. u \<in> set (map snd (qu_units q)) \<and> iu_taskId u = qp_taskId p \<and> ul_unitId (iu_unit u) = qp_unitId p \<and>
    can_dispatch_task (tk_state (it_task (iu_task u))) (tk_repairState (it_task (iu_task u))) \<and> qp_taskId p \<notin> set (qu_cancelledTaskIds q) \<and>
    queue_unit_key (qp_taskId p) (qp_unitId p) \<notin> set (qu_completedUnitKeys q) \<and>
    ul_state (iu_unit u) \<in> {UMaterialized, UBlocked, UQueued, UWaitingRetry} \<and>
    (\<forall>d \<in> set (ul_dependencies (iu_unit u)). \<exists>x. map_of (qu_units q) (queue_unit_key (qp_taskId p) d) = Some x \<and>
       (is_dependency_ready (iu_unit x) \<or> queue_unit_key (qp_taskId p) d \<in> set (qu_completedUnitKeys q))) \<and>
    \<not> after (timestamp_ms dates (ul_nextEligibleAt (iu_unit u))) now \<and> \<not> qu_memorySoftLimit q \<and> \<not> qu_diskSoftLimit q \<and>
    iu_promptRecipe u = Some (qp_recipe p) \<and> render (qp_recipe p) = Some (qp_prompt p)"
proof -
  have ok: "queue_ok render q" unfolding assms(2) by (rule queue_reachable_ok [OF assms(1)])
  then have idx: "index_ok q" by (simp add: queue_ok_def)
  obtain r u where u: "map_of (qu_units q) (queue_unit_key (qp_taskId p) (qp_unitId p)) = Some u" "is_eligible dates now q u" "\<not> resources_limited q"
    "entry_of render u (queue_unit_key (qp_taskId p) (qp_unitId p), p)"
    by (rule claim_some [OF assms(3) ok]) blast
  note e = u(4) [unfolded entry_of_def fst_conv snd_conv]
  have key: "queue_unit_key (qp_taskId p) (qp_unitId p) = key_of u" using e by blast
  have t: "iu_taskId u = qp_taskId p" "ul_unitId (iu_unit u) = qp_unitId p" using e by simp_all
  note el = u(2) [unfolded is_eligible_def is_task_dispatchable_def is_task_cancelled_def]
  have "u \<in> set (map snd (qu_units q))" using unit_at [OF idx u(1)] by simp
  moreover have "qp_taskId p \<notin> set (qu_cancelledTaskIds q)" using el t(1) by simp
  moreover have "queue_unit_key (qp_taskId p) (qp_unitId p) \<notin> set (qu_completedUnitKeys q)" using el key by simp
  moreover have "ul_state (iu_unit u) \<in> {UMaterialized, UBlocked, UQueued, UWaitingRetry}" using el by (simp add: is_candidate_state_def)
  moreover have "\<forall>d \<in> set (ul_dependencies (iu_unit u)). \<exists>x. map_of (qu_units q) (queue_unit_key (qp_taskId p) d) = Some x \<and>
       (is_dependency_ready (iu_unit x) \<or> queue_unit_key (qp_taskId p) d \<in> set (qu_completedUnitKeys q))"
    using u(2) t(1) by (auto simp: is_eligible_def dependencies_satisfied_def list_all_iff split: option.splits)
  moreover have "\<not> after (timestamp_ms dates (ul_nextEligibleAt (iu_unit u))) now" using el by (auto simp: after_def split: option.splits)
  moreover have "\<not> qu_memorySoftLimit q" "\<not> qu_diskSoftLimit q" using u(3) by (simp_all add: resources_limited_def)
  ultimately show ?thesis using el e t by blast
qed

theorem claimed_prompt_is_dispatchable_witness:
  "case fst (claim_next no_dates sample_render 1000 sample_index) of
     Inr (Some p) \<Rightarrow> sample_render (qp_recipe p) = Some (qp_prompt p) \<and> \<not> qu_memorySoftLimit sample_index | _ \<Rightarrow> False"
proof (rule sample_first)
  fix p q1 assume "claim_next no_dates sample_render 1000 sample_index = (Inr (Some p), q1)"
  with claimed_prompt_is_dispatchable [OF sample_new sample_index_def this] show ?thesis by auto
qed

section \<open>One claim at a time\<close>

text \<open>
  C28: A prompt that is claimed is not handed out again, whatever operations follow and whether they throw, until
  its unit is released or reported as done, its task is cancelled, or the queue is rebuilt.
\<close>

theorem claims_are_exclusive:
  assumes "new_queue mode maximum = Inr q0" "q = queue_run dates render ops q0" "claim_next dates render now q = (Inr (Some p), q1)"
    and "list_all (\<lambda>(c, _). \<not> gives_back (qp_taskId p) (qp_unitId p) c) rest"
    and "claim_next dates render later (queue_run dates render rest q1) = (Inr (Some p'), q2)"
  shows "\<not> (qp_taskId p' = qp_taskId p \<and> qp_unitId p' = qp_unitId p)"
proof -
  let ?k = "queue_unit_key (qp_taskId p) (qp_unitId p)"
  have ok: "queue_ok render q" unfolding assms(2) by (rule queue_reachable_ok [OF assms(1)])
  have ok1: "queue_ok render q1"
    using step_ok [OF ok, of dates ClaimNext now] assms(3) by (simp add: queue_step_def)
  obtain r u where rf: "refreshed_to dates render now q r" and q1: "q1 = r\<lparr> qu_claimedPrompts := add_to_set ?k (qu_claimedPrompts r) \<rparr>"
    and u: "map_of (qu_units q) ?k = Some u" "is_eligible dates now q u" "entry_of render u (?k, p)"
    by (rule claim_some [OF assms(3) ok]) blast
  have i: "same_index q r" using rf by (simp add: refreshed_to_def)
  have "\<not> is_task_cancelled r u" using u(2) by (simp add: is_eligible_def is_task_dispatchable_def same_index_reads(1) [OF i])
  then have "claimed q1 (qp_taskId p) ?k"
    using u(1,3) by (auto simp: claimed_def q1 add_to_set_def same_index_reads(7) [OF i] is_task_cancelled_def entry_of_def)
  then have c2: "claimed (queue_run dates render rest q1) (qp_taskId p) ?k" by (rule run_claimed [OF ok1 _ assms(4)])
  have ok2: "queue_ok render (queue_run dates render rest q1)" by (rule queue_run_ok [OF ok1])
  obtain r2 where "refreshed_to dates render later (queue_run dates render rest q1) r2"
    "queue_unit_key (qp_taskId p') (qp_unitId p') \<notin> set (qu_claimedPrompts r2)"
    by (rule claim_some [OF assms(5) ok2]) blast
  with refresh_claimed [OF _ c2] have "queue_unit_key (qp_taskId p') (qp_unitId p') \<noteq> ?k" by (metis claimed_def)
  then show ?thesis by auto
qed

text \<open>
  A queue of two prompts hands out \<open>u\<close>; after a snapshot, a release of the other unit and the cancellation of another
  task it hands out \<open>v\<close>, whose backoff is then over, and not \<open>u\<close> again.
\<close>

definition more_ops :: "(queue_op \<times> rat) list" where
  "more_ops = [(ReadSnapshot, 2000), (ReleasePrompt ''task'' ''v'', 2000), (TaskCancelled ''other'', 2000)]"

definition pair_queue :: "string queue" where
  "pair_queue = (case new_queue None (Some 2) of Inr q \<Rightarrow> q)"

definition pair_index :: "string queue" where
  "pair_index = queue_run no_dates sample_render sample_ops pair_queue"

lemma pair_new: "new_queue None (Some 2) = Inr pair_queue"
  by (simp add: pair_queue_def new_queue_def Let_def is_integral_def)

lemma pair_claims:
  "case claim_next no_dates sample_render 1000 pair_index of
     (Inr (Some p), q1) \<Rightarrow> qp_taskId p = ''task'' \<and> qp_unitId p = ''u'' \<and>
       (case fst (claim_next no_dates sample_render 6000 (queue_run no_dates sample_render more_ops q1)) of
          Inr (Some p') \<Rightarrow> qp_taskId p' = ''task'' | _ \<Rightarrow> False)
   | _ \<Rightarrow> False"
  by code_simp

theorem claims_are_exclusive_witness:
  "case claim_next no_dates sample_render 1000 pair_index of
     (Inr (Some p), q1) \<Rightarrow>
       (case fst (claim_next no_dates sample_render 6000 (queue_run no_dates sample_render more_ops q1)) of
          Inr (Some p') \<Rightarrow> qp_taskId p' = ''task'' \<and> qp_unitId p = ''u'' \<and> qp_unitId p' \<noteq> ''u'' | _ \<Rightarrow> False)
   | _ \<Rightarrow> False"
proof -
  obtain res1 q1 where c1: "claim_next no_dates sample_render 1000 pair_index = (res1, q1)" by fastforce
  obtain res q2 where c: "claim_next no_dates sample_render 6000 (queue_run no_dates sample_render more_ops q1) = (res, q2)" by fastforce
  note f = pair_claims [unfolded c1 prod.case c fst_conv]
  obtain p where p: "res1 = Inr (Some p)" "qp_taskId p = ''task''" "qp_unitId p = ''u''"
    using f by (auto split: sum.splits option.splits)
  obtain p' where p': "res = Inr (Some p')" "qp_taskId p' = ''task''"
    using f p(1) by (auto split: sum.splits option.splits)
  have m: "list_all (\<lambda>(c, _). \<not> gives_back (qp_taskId p) (qp_unitId p) c) more_ops"
    by (simp add: more_ops_def gives_back_def p queue_unit_key_def)
  have "\<not> (qp_taskId p' = qp_taskId p \<and> qp_unitId p' = qp_unitId p)"
    by (rule claims_are_exclusive [OF pair_new pair_index_def c1 [unfolded p(1)] m c [unfolded p'(1)]])
  with p p' show ?thesis by (simp add: c1 c)
qed

section \<open>Nothing is held back\<close>

text \<open>
  C29: The queue hands out nothing only for a reason: it keeps no prompts at all, a resource limit is set, as many
  prompts are claimed as may be stored, or every unit that is eligible is claimed already. It never stores more
  prompts than the maximum.
\<close>

theorem nothing_is_held_back:
  assumes "new_queue mode maximum = Inr q0" "q = queue_run dates render ops q0" "claim_next dates render now q = (Inr None, q')"
  shows "of_nat (length (qu_materializedPrompts q')) \<le> qu_maxMaterializedPrompts q' \<and>
    set (map fst (qu_materializedPrompts q')) = set (qu_claimedPrompts q') \<and>
    (qu_mode q' = EligibilityOnly \<or> resources_limited q' \<or>
     of_nat (length (qu_materializedPrompts q')) = qu_maxMaterializedPrompts q' \<or>
     (\<forall>u \<in> set (eligible_units dates now q'). key_of u \<in> set (qu_claimedPrompts q')))"
proof -
  have ok: "queue_ok render q" unfolding assms(2) by (rule queue_reachable_ok [OF assms(1)])
  have run: "refresh dates render now q = (Inr (), q')" and none: "pending_materialized_prompts q' = []"
    using assms(3) ok by (cases rule: claim_next_run; simp)+
  have "refreshed_to dates render now q q'" "filled_up dates now q'" using refresh_runs [OF run ok] by simp_all
  then have q': "queue_ok render q'" and full: "filled_up dates now q'" by (simp_all add: refreshed_to_def)
  have all: "fst e \<in> set (qu_claimedPrompts q')" if "e \<in> set (qu_materializedPrompts q')" for e
  proof -
    have "filter (\<lambda>(k, p). k \<notin> set (qu_claimedPrompts q')) (qu_materializedPrompts q') = []"
      using none by (simp add: pending_materialized_prompts_def)
    with that show ?thesis by (auto simp: filter_empty_conv)
  qed
  then have keys: "set (map fst (qu_materializedPrompts q')) = set (qu_claimedPrompts q')"
    using q' by (auto simp: queue_ok_def prompts_ok_def)
  have cap: "of_nat (length (qu_materializedPrompts q')) \<le> qu_maxMaterializedPrompts q'" using q' by (simp add: queue_ok_def capacity_ok_def)
  have "key_of u \<in> set (qu_claimedPrompts q')" if "map_of (qu_materializedPrompts q') (key_of u) \<noteq> None" for u
    using that keys by (simp add: map_of_eq_None_iff)
  with full cap keys show ?thesis unfolding filled_up_def by (cases "qu_mode q'") auto
qed

theorem nothing_is_held_back_witness:
  "case claim_next no_dates sample_render 1000 sample_index of
     (Inr (Some p), q1) \<Rightarrow>
       (case claim_next no_dates sample_render 6000 q1 of (Inr None, q2) \<Rightarrow> set (map fst (qu_materializedPrompts q2)) = set (qu_claimedPrompts q2) | _ \<Rightarrow> False)
   | _ \<Rightarrow> False"
proof (rule sample_first)
  fix p q1 assume p: "claim_next no_dates sample_render 1000 sample_index = (Inr (Some p), q1)"
    and "\<exists>q2. claim_next no_dates sample_render 6000 q1 = (Inr None, q2)"
  then obtain q2 where c: "claim_next no_dates sample_render 6000 q1 = (Inr None, q2)" by blast
  have "q1 = queue_run no_dates sample_render (sample_ops @ [(ClaimNext, 1000)]) sample_queue"
    using p by (simp add: queue_run_def sample_index_def queue_step_def)
  from nothing_is_held_back [OF sample_new this c] p c show ?thesis by simp
qed

section \<open>Wakes\<close>

text \<open>
  C30: The timer misses no unit: a unit that is not eligible at a snapshot and becomes eligible by the passing of
  time alone does so not before the wake that the snapshot announces, and the timer for it is armed.
\<close>

theorem no_wake_is_missed:
  assumes "new_queue mode maximum = Inr q0" "q = queue_run dates render ops q0" "take_queue_snapshot dates render now q = (Inr s, q')"
    and "u \<in> set (map snd (qu_units q'))" "\<not> is_eligible dates now q' u" "is_eligible dates t q' u"
  shows "\<exists>w. qs_nextWakeAt s = Some w \<and> now < w \<and> w \<le> t \<and> qu_timer q' \<noteq> None"
proof -
  have ok: "queue_ok render q" unfolding assms(2) by (rule queue_reachable_ok [OF assms(1)])
  then have free: "\<not> qu_materializeInProgress q" by (simp add: queue_ok_def)
  have run: "refresh dates render now q = (Inr (), q')" and s: "qs_nextWakeAt s = qu_scheduledWakeAt q'"
    using assms(3) [unfolded take_queue_snapshot_def thenp_ensure [OF free]]
    by (auto simp: thenp_def bindp_def get_state_of_def ret_def split: prod.splits sum.splits)
  have "queue_ok render q'" "filled_up dates now q'" using refresh_runs [OF run ok] by (simp_all add: refreshed_to_def)
  then have timer: "timer_ok q'" and wake: "qu_scheduledWakeAt q' = earliest_wake dates now q'" by (simp_all add: queue_ok_def filled_up_def)
  obtain x where x: "waits_for_backoff dates now q' u = Some x" "x \<le> t" using becomes_eligible [OF assms(6,5)] by blast
  from fold_sooner_least [where w = "waits_for_backoff dates now q'", OF assms(4) x(1)] obtain w
    where w: "earliest_wake dates now q' = Some w" "w \<le> x" by (auto simp: earliest_wake_def)
  with earliest_wake_future [OF w(1)] x(2) timer wake s show ?thesis by (auto simp: timer_ok_def)
qed

theorem no_wake_is_missed_witness:
  "\<exists>w. (case claim_next no_dates sample_render 1000 sample_index of (r, q1) \<Rightarrow>
     map_option qs_nextWakeAt (case fst (take_queue_snapshot no_dates sample_render 1000 q1) of Inl e \<Rightarrow> None | Inr s \<Rightarrow> Some s)) = Some (Some w) \<and> w \<le> 6000"
proof (rule sample_first)
  fix p q1 assume p: "claim_next no_dates sample_render 1000 sample_index = (Inr (Some p), q1)"
    and "\<exists>s q2. take_queue_snapshot no_dates sample_render 1000 q1 = (Inr s, q2) \<and> qs_nextWakeAt s = Some 5000 \<and>
       list_ex (\<lambda>u. is_eligible no_dates 6000 q2 u \<and> \<not> is_eligible no_dates 1000 q2 u) (map snd (qu_units q2))"
  then obtain s q2 u where s: "take_queue_snapshot no_dates sample_render 1000 q1 = (Inr s, q2)"
    and u: "u \<in> set (map snd (qu_units q2))" "\<not> is_eligible no_dates 1000 q2 u" "is_eligible no_dates 6000 q2 u"
    by (auto simp: list_ex_iff)
  have "q1 = queue_run no_dates sample_render (sample_ops @ [(ClaimNext, 1000)]) sample_queue"
    using p by (simp add: queue_run_def sample_index_def queue_step_def)
  from no_wake_is_missed [OF sample_new this s u] p s show ?thesis by auto
qed

end
