(* ===== verification/AgyWatermark.thy ===== *)
theory AgyWatermark
  imports ToolkitBase "HOL-Library.Word"
begin

unbundle bit_operations_syntax

text \<open>
  The memory watermark of the agy provider (\<open>src/mcps/memory-store/src/agy-memory-watermark.ts\<close>): an
  additive-increase, multiplicative-decrease limit on concurrent processes that follows samples of the used
  memory and freezes at zero when a sample or the clock cannot be trusted.

  A caller passes plain numbers, which the code checks before it uses them. The records are therefore
  parameterised by the types of their integers, of their times and of the failure reason: what a caller passes
  or a store returns holds JavaScript numbers and strings (\<open>raw\<close>), what the checks let through holds integers,
  rationals and one of the six reasons. Objects are copied before they are changed (\<open>cloneMemoryState\<close>), so
  they are values here. \<open>dtoa\<close> is the text of a number that is no integer; error messages are reduced to the
  name they report.
\<close>

section \<open>Data\<close>

datatype failure_reason =
    MonotonicTimeUnavailable | MonotonicTimeNonFinite | MonotonicTimeReversed
  | MemorySamplingFailed | MemorySampleInvalid | MemorySampleNonFinite

datatype watermark_reason =
    HighWatermark | LowWatermarkRecovery | LowWatermarkWaiting | MiddleBand
  | ManualFrozen | ManualClear | FailureReason failure_reason

fun failure_text :: "failure_reason \<Rightarrow> string" where
  "failure_text MonotonicTimeUnavailable = ''monotonic_time_unavailable''"
| "failure_text MonotonicTimeNonFinite = ''monotonic_time_non_finite''"
| "failure_text MonotonicTimeReversed = ''monotonic_time_reversed''"
| "failure_text MemorySamplingFailed = ''memory_sampling_failed''"
| "failure_text MemorySampleInvalid = ''memory_sample_invalid''"
| "failure_text MemorySampleNonFinite = ''memory_sample_non_finite''"

fun watermark_reason_text :: "watermark_reason \<Rightarrow> string" where
  "watermark_reason_text HighWatermark = ''high_watermark''"
| "watermark_reason_text LowWatermarkRecovery = ''low_watermark_recovery''"
| "watermark_reason_text LowWatermarkWaiting = ''low_watermark_waiting''"
| "watermark_reason_text MiddleBand = ''middle_band''"
| "watermark_reason_text ManualFrozen = ''manual_frozen''"
| "watermark_reason_text ManualClear = ''manual_clear''"
| "watermark_reason_text (FailureReason r) = failure_text r"

text \<open>\<open>isFailureReason\<close>, with the reason it recognises.\<close>

definition failure_reason_of :: "string \<Rightarrow> failure_reason option" where
  "failure_reason_of s = find (\<lambda>r. failure_text r = s)
     [MonotonicTimeUnavailable, MonotonicTimeNonFinite, MonotonicTimeReversed,
      MemorySamplingFailed, MemorySampleInvalid, MemorySampleNonFinite]"

record ('i, 't, 'r) frozen_state =
  frozen_reason :: 'r
  frozen_evidence_hash :: string
  frozen_observed_at :: "'t option"
  frozen_observed_bytes :: "'i option"
  frozen_capacity_bytes :: "'i option"

record ('i, 't, 'r) memory_state =
  memory_aimd_limit :: 'i
  recovery_credits :: 'i
  last_pressure_at :: "'t option"
  high_water_samples :: 'i
  low_water_samples :: 'i
  last_sampled_at :: "'t option"
  frozen_memory :: "('i, 't, 'r) frozen_state option"

record ('i, 't, 'r) control_snapshot =
  control_revision :: 'i
  owner_epoch :: 'i
  physical_max :: 'i
  current_limit :: 'i
  active_slots :: 'i
  snapshot_memory :: "('i, 't, 'r) memory_state"

record ('i, 'q) watermark_config =
  low_watermark_ratio :: 'q
  high_watermark_ratio :: 'q
  low_water_recovery_samples :: 'i
  reduction_factor :: 'q
  recovery_step :: 'i
  min_memory_aimd_limit :: 'i

type_synonym raw_memory = "(jnum, jnum, string) memory_state"
type_synonym memory = "(int, rat, failure_reason) memory_state"
type_synonym raw_snapshot = "(jnum, jnum, string) control_snapshot"
type_synonym control = "(int, rat, failure_reason) control_snapshot"
type_synonym raw_config = "(jnum, jnum) watermark_config"
type_synonym config = "(int, rat) watermark_config"

text \<open>What \<open>sampleMemory\<close> returns: no object at all, or one whose fields may be no numbers.\<close>

datatype sample_value = NoObject | Sampled "jnum option" "jnum option"

datatype grant_reason = GrantManualFrozen | EffectiveLimitReached | CapacityAvailable

record grant_policy =
  permit_new_grant :: bool
  policy_reason :: grant_reason
  policy_active_slots :: int
  policy_effective_limit :: int
  terminate_running_processes :: bool

record watermark_transition =
  expected_control_revision :: int
  transition_owner_epoch :: int
  evidence_hash :: string
  transition_reason :: watermark_reason
  observed_bytes :: "int option"
  observed_capacity_bytes :: "int option"
  observed_at :: "rat option"
  utilization_ratio :: "rat option"
  limit_before :: int
  limit_after :: int
  effective_before :: int
  effective_after :: int
  next_memory :: memory
  grant_of :: grant_policy

datatype watermark_error = ConfigurationError string | EvidenceError string

definition default_watermark_config :: raw_config where
  "default_watermark_config =
     \<lparr>low_watermark_ratio = Fin (65 / 100), high_watermark_ratio = Fin (85 / 100),
      low_water_recovery_samples = Fin 3, reduction_factor = Fin (1 / 2), recovery_step = Fin 1,
      min_memory_aimd_limit = Fin 0\<rparr>"

section \<open>Checks\<close>

definition assert_safe_integer_in_range :: "jnum \<Rightarrow> int \<Rightarrow> int \<Rightarrow> string \<Rightarrow> watermark_error + int" where
  "assert_safe_integer_in_range v minimum maximum name =
     (case safe_integer_of v of
        None \<Rightarrow> Inl (ConfigurationError name)
      | Some i \<Rightarrow> if i < minimum \<or> i > maximum then Inl (ConfigurationError name) else Inr i)"

text \<open>\<open>isValidTimestamp\<close>, with the time.\<close>

definition valid_timestamp :: "jnum \<Rightarrow> rat option" where
  "valid_timestamp v =
     (case finite_of v of
        None \<Rightarrow> None
      | Some q \<Rightarrow> if q \<ge> 0 \<and> q \<le> of_int max_safe then Some q else None)"

fun assert_nullable_timestamp :: "jnum option \<Rightarrow> string \<Rightarrow> watermark_error + rat option" where
  "assert_nullable_timestamp None name = Inr None"
| "assert_nullable_timestamp (Some v) name =
     (case valid_timestamp v of None \<Rightarrow> Inl (ConfigurationError name) | Some q \<Rightarrow> Inr (Some q))"

fun assert_nullable_observed_bytes :: "jnum option \<Rightarrow> string \<Rightarrow> watermark_error + int option" where
  "assert_nullable_observed_bytes None name = Inr None"
| "assert_nullable_observed_bytes (Some v) name =
     (case safe_integer_of v of
        None \<Rightarrow> Inl (ConfigurationError name)
      | Some i \<Rightarrow> if i < 0 then Inl (ConfigurationError name) else Inr (Some i))"

definition assert_frozen_state ::
  "(jnum, jnum, string) frozen_state \<Rightarrow> watermark_error + (int, rat, failure_reason) frozen_state" where
  "assert_frozen_state f =
     (case failure_reason_of (frozen_reason f) of
        None \<Rightarrow> Inl (ConfigurationError ''frozen'')
      | Some r \<Rightarrow>
          if frozen_evidence_hash f = [] then Inl (ConfigurationError ''frozen'')
          else and_then (assert_nullable_timestamp (frozen_observed_at f) ''frozen.observedAtMonotonicMs'') (\<lambda>a.
               and_then (assert_nullable_observed_bytes (frozen_observed_bytes f) ''frozen.observedBytes'') (\<lambda>b.
               and_then (assert_nullable_observed_bytes (frozen_capacity_bytes f) ''frozen.observedCapacityBytes'') (\<lambda>c.
               Inr \<lparr>frozen_reason = r, frozen_evidence_hash = frozen_evidence_hash f,
                    frozen_observed_at = a, frozen_observed_bytes = b, frozen_capacity_bytes = c\<rparr>))))"

fun assert_nullable_frozen ::
  "(jnum, jnum, string) frozen_state option \<Rightarrow> watermark_error + (int, rat, failure_reason) frozen_state option" where
  "assert_nullable_frozen None = Inr None"
| "assert_nullable_frozen (Some f) = and_then (assert_frozen_state f) (\<lambda>g. Inr (Some g))"

definition assert_memory_state :: "raw_memory \<Rightarrow> int \<Rightarrow> watermark_error + memory" where
  "assert_memory_state m maximum =
     and_then (assert_safe_integer_in_range (memory_aimd_limit m) 0 maximum ''memoryAimdLimit'') (\<lambda>limit.
     and_then (assert_safe_integer_in_range (recovery_credits m) 0 max_safe ''recoveryCredits'') (\<lambda>credits.
     and_then (assert_safe_integer_in_range (high_water_samples m) 0 max_safe ''highWaterSamples'') (\<lambda>high.
     and_then (assert_safe_integer_in_range (low_water_samples m) 0 max_safe ''lowWaterSamples'') (\<lambda>low.
     and_then (assert_nullable_timestamp (last_pressure_at m) ''lastPressureAtMs'') (\<lambda>pressure.
     and_then (assert_nullable_timestamp (last_sampled_at m) ''lastSampledAtMonotonicMs'') (\<lambda>sampled.
     and_then (assert_nullable_frozen (frozen_memory m)) (\<lambda>f.
     Inr \<lparr>memory_aimd_limit = limit, recovery_credits = credits, last_pressure_at = pressure,
          high_water_samples = high, low_water_samples = low, last_sampled_at = sampled, frozen_memory = f\<rparr>)))))))"

definition assert_snapshot :: "raw_snapshot \<Rightarrow> watermark_error + control" where
  "assert_snapshot s =
     and_then (assert_safe_integer_in_range (control_revision s) 1 max_safe ''controlRevision'') (\<lambda>revision.
     and_then (assert_safe_integer_in_range (owner_epoch s) 0 max_safe ''ownerEpoch'') (\<lambda>epoch.
     and_then (assert_safe_integer_in_range (physical_max s) 1 max_safe ''physicalMax'') (\<lambda>physical.
     and_then (assert_safe_integer_in_range (current_limit s) 0 physical ''currentLimit'') (\<lambda>current.
     and_then (assert_safe_integer_in_range (active_slots s) 0 max_safe ''activeSlots'') (\<lambda>active.
     and_then (assert_memory_state (snapshot_memory s) physical) (\<lambda>m.
     Inr \<lparr>control_revision = revision, owner_epoch = epoch, physical_max = physical, current_limit = current,
          active_slots = active, snapshot_memory = m\<rparr>))))))"

definition assert_watermark_config :: "raw_config \<Rightarrow> int \<Rightarrow> watermark_error + config" where
  "assert_watermark_config c physical =
     (case (finite_of (low_watermark_ratio c), finite_of (high_watermark_ratio c)) of
        (Some low, Some high) \<Rightarrow>
          if low < 0 \<or> low \<ge> high \<or> high > 1 then Inl (ConfigurationError ''watermarkRatio'')
          else
            and_then (assert_safe_integer_in_range (low_water_recovery_samples c) 1 max_safe ''lowWaterRecoverySamples'')
              (\<lambda>samples.
            case finite_of (reduction_factor c) of
              None \<Rightarrow> Inl (ConfigurationError ''reductionFactor'')
            | Some factor \<Rightarrow>
                if factor < 0 \<or> factor \<ge> 1 then Inl (ConfigurationError ''reductionFactor'')
                else
                  and_then (assert_safe_integer_in_range (recovery_step c) 1 physical ''recoveryStep'') (\<lambda>step.
                  and_then (assert_safe_integer_in_range (min_memory_aimd_limit c) 0 physical ''minMemoryAimdLimit'')
                    (\<lambda>least.
                  Inr \<lparr>low_watermark_ratio = low, high_watermark_ratio = high, low_water_recovery_samples = samples,
                       reduction_factor = factor, recovery_step = step, min_memory_aimd_limit = least\<rparr>)))
      | _ \<Rightarrow> Inl (ConfigurationError ''watermarkRatio''))"

text \<open>\<open>validateSample\<close>: the failure, or the used and the total bytes.\<close>

fun validate_sample :: "sample_value \<Rightarrow> failure_reason + int \<times> int" where
  "validate_sample NoObject = Inl MemorySampleInvalid"
| "validate_sample (Sampled (Some used) (Some capacity)) =
     (if finite_of used = None \<or> finite_of capacity = None then Inl MemorySampleNonFinite
      else case (safe_integer_of used, safe_integer_of capacity) of
             (Some u, Some t) \<Rightarrow>
               if u < 0 \<or> t \<le> 0 \<or> u > t then Inl MemorySampleInvalid else Inr (u, t)
           | _ \<Rightarrow> Inl MemorySampleInvalid)"
| "validate_sample (Sampled _ _) = Inl MemorySampleInvalid"

section \<open>Evidence hashes\<close>

text \<open>\<open>String(x)\<close> of a finite number.\<close>

definition number_text :: "(rat \<Rightarrow> string) \<Rightarrow> rat \<Rightarrow> string" where
  "number_text dtoa q = (if is_integral q then show_int \<lfloor>q\<rfloor> else dtoa q)"

fun null_text :: "('a \<Rightarrow> string) \<Rightarrow> 'a option \<Rightarrow> string" where
  "null_text f None = ''null''"
| "null_text f (Some a) = f a"

fun join_parts :: "string list \<Rightarrow> string" where
  "join_parts [] = []"
| "join_parts [p] = p"
| "join_parts (p # q # ps) = p @ CHR ''|'' # join_parts (q # ps)"

definition fnv_step :: "64 word \<Rightarrow> char \<Rightarrow> 64 word" where
  "fnv_step h c = (h XOR word_of_nat (of_char c)) * 0x100000001b3"

definition fnv1a64 :: "string \<Rightarrow> 64 word" where
  "fnv1a64 s = foldl fnv_step 0xcbf29ce484222325 s"

definition hex_digit :: "nat \<Rightarrow> char" where
  "hex_digit d = (if d < 10 then char_of (48 + d) else char_of (87 + d))"

text \<open>\<open>toString(16)\<close>.\<close>

fun hex_text :: "nat \<Rightarrow> string" where
  "hex_text n = (if n < 16 then [hex_digit n] else hex_text (n div 16) @ [hex_digit (n mod 16)])"

declare hex_text.simps [simp del]

definition pad_start :: "nat \<Rightarrow> char \<Rightarrow> string \<Rightarrow> string" where
  "pad_start n c s = replicate (n - length s) c @ s"

definition hash_evidence :: "string list \<Rightarrow> string" where
  "hash_evidence parts =
     ''fnv1a64:'' @ pad_start 16 (CHR ''0'') (hex_text (unat (fnv1a64 (join_parts parts))))"

section \<open>Transitions\<close>

definition effective_watermark_limit :: "control \<Rightarrow> int" where
  "effective_watermark_limit s =
     min (physical_max s) (min (current_limit s) (memory_aimd_limit (snapshot_memory s)))"

definition build_grant_policy :: "int \<Rightarrow> int \<Rightarrow> bool \<Rightarrow> grant_policy" where
  "build_grant_policy active effective is_frozen =
     (if is_frozen
      then \<lparr>permit_new_grant = False, policy_reason = GrantManualFrozen, policy_active_slots = active,
            policy_effective_limit = effective, terminate_running_processes = False\<rparr>
      else \<lparr>permit_new_grant = (active < effective),
            policy_reason = (if active < effective then CapacityAvailable else EffectiveLimitReached),
            policy_active_slots = active, policy_effective_limit = effective,
            terminate_running_processes = False\<rparr>)"

definition build_transition ::
  "(rat \<Rightarrow> string) \<Rightarrow> control \<Rightarrow> memory \<Rightarrow> watermark_reason \<Rightarrow> int option \<Rightarrow> int option \<Rightarrow> rat option
   \<Rightarrow> rat option \<Rightarrow> int \<Rightarrow> string option \<Rightarrow> string option \<Rightarrow> watermark_transition" where
  "build_transition dtoa s next_m reason bytes capacity at_ms ratio before acknowledgement override =
     (let after_limit = min (physical_max s) (min (current_limit s) (memory_aimd_limit next_m));
          evidence =
            (case override of
               Some h \<Rightarrow> h
             | None \<Rightarrow> hash_evidence
                 [''observation'', watermark_reason_text reason, show_int (control_revision s),
                  show_int (owner_epoch s), null_text show_int bytes, null_text show_int capacity,
                  null_text (number_text dtoa) at_ms, show_int (memory_aimd_limit (snapshot_memory s)),
                  show_int (memory_aimd_limit next_m),
                  null_text (number_text dtoa) (last_sampled_at (snapshot_memory s)),
                  (case acknowledgement of None \<Rightarrow> [] | Some a \<Rightarrow> a)])
      in \<lparr>expected_control_revision = control_revision s, transition_owner_epoch = owner_epoch s,
          evidence_hash = evidence, transition_reason = reason, observed_bytes = bytes,
          observed_capacity_bytes = capacity, observed_at = at_ms, utilization_ratio = ratio,
          limit_before = memory_aimd_limit (snapshot_memory s), limit_after = memory_aimd_limit next_m,
          effective_before = before, effective_after = after_limit, next_memory = next_m,
          grant_of = build_grant_policy (active_slots s) after_limit (frozen_memory next_m \<noteq> None)\<rparr>)"

definition fail_closed ::
  "(rat \<Rightarrow> string) \<Rightarrow> control \<Rightarrow> failure_reason \<Rightarrow> int option \<Rightarrow> int option \<Rightarrow> rat option
   \<Rightarrow> watermark_transition" where
  "fail_closed dtoa s reason bytes capacity at_ms =
     (let m = snapshot_memory s;
          hash = hash_evidence
            [''failure'', failure_text reason, show_int (control_revision s), show_int (owner_epoch s),
             null_text show_int bytes, null_text show_int capacity, null_text (number_text dtoa) at_ms,
             null_text (number_text dtoa) (last_sampled_at m)];
          zeroed = m\<lparr>memory_aimd_limit := 0, recovery_credits := 0, high_water_samples := 0,
                    low_water_samples := 0\<rparr>;
          advances = (case at_ms of
                        None \<Rightarrow> False
                      | Some t \<Rightarrow> (case last_sampled_at m of None \<Rightarrow> True | Some l \<Rightarrow> t \<ge> l));
          timed = (if advances then zeroed\<lparr>last_pressure_at := at_ms, last_sampled_at := at_ms\<rparr> else zeroed);
          next_m = timed\<lparr>frozen_memory := Some \<lparr>frozen_reason = reason, frozen_evidence_hash = hash,
                     frozen_observed_at = at_ms, frozen_observed_bytes = bytes, frozen_capacity_bytes = capacity\<rparr>\<rparr>
      in build_transition dtoa s next_m (FailureReason reason) bytes capacity at_ms None
           (effective_watermark_limit s) None (Some hash))"

definition increment_counter :: "int \<Rightarrow> int" where
  "increment_counter v = min max_safe (v + 1)"

text \<open>The memory after a sample at or above the high, at or below the low watermark, and between them.\<close>

definition high_watermark_memory :: "config \<Rightarrow> rat \<Rightarrow> memory \<Rightarrow> memory" where
  "high_watermark_memory c at_ms m =
     m\<lparr>memory_aimd_limit :=
          max (min_memory_aimd_limit c) \<lfloor>of_int (memory_aimd_limit m) * reduction_factor c\<rfloor>,
       recovery_credits := 0, high_water_samples := increment_counter (high_water_samples m),
       low_water_samples := 0, last_pressure_at := Some at_ms, last_sampled_at := Some at_ms\<rparr>"

definition low_watermark_memory :: "config \<Rightarrow> int \<Rightarrow> rat \<Rightarrow> memory \<Rightarrow> watermark_reason \<times> memory" where
  "low_watermark_memory c physical at_ms m =
     (let n = m\<lparr>high_water_samples := 0, low_water_samples := increment_counter (low_water_samples m),
               recovery_credits := increment_counter (recovery_credits m), last_sampled_at := Some at_ms\<rparr>
      in if recovery_credits n \<ge> low_water_recovery_samples c \<and> memory_aimd_limit n < physical
         then (LowWatermarkRecovery,
               n\<lparr>memory_aimd_limit := min physical (memory_aimd_limit n + recovery_step c),
                 recovery_credits := 0, low_water_samples := 0\<rparr>)
         else (LowWatermarkWaiting, n))"

definition middle_band_memory :: "rat \<Rightarrow> memory \<Rightarrow> memory" where
  "middle_band_memory at_ms m =
     m\<lparr>recovery_credits := 0, high_water_samples := 0, low_water_samples := 0, last_sampled_at := Some at_ms\<rparr>"

definition sampled_memory :: "config \<Rightarrow> int \<Rightarrow> rat \<Rightarrow> rat \<Rightarrow> memory \<Rightarrow> watermark_reason \<times> memory" where
  "sampled_memory c physical at_ms ratio m =
     (if frozen_memory m \<noteq> None
      then (ManualFrozen, m\<lparr>memory_aimd_limit := 0, last_sampled_at := Some at_ms\<rparr>)
      else if ratio \<ge> high_watermark_ratio c then (HighWatermark, high_watermark_memory c at_ms m)
      else if ratio \<le> low_watermark_ratio c then low_watermark_memory c physical at_ms m
      else (MiddleBand, middle_band_memory at_ms m))"

text \<open>
  \<open>observeAgyMemoryWatermark\<close>. The clock and the sampler are called once at most; \<open>None\<close> is a call that
  throws.
\<close>

definition observe_checked ::
  "(rat \<Rightarrow> string) \<Rightarrow> control \<Rightarrow> config \<Rightarrow> jnum option \<Rightarrow> sample_value option \<Rightarrow> watermark_transition" where
  "observe_checked dtoa s c clock sample =
     (case clock of
        None \<Rightarrow> fail_closed dtoa s MonotonicTimeUnavailable None None None
      | Some v \<Rightarrow>
          (case valid_timestamp v of
             None \<Rightarrow> fail_closed dtoa s MonotonicTimeNonFinite None None None
           | Some t \<Rightarrow>
               if (case last_sampled_at (snapshot_memory s) of None \<Rightarrow> False | Some l \<Rightarrow> t < l)
               then fail_closed dtoa s MonotonicTimeReversed None None (Some t)
               else
                 (case sample of
                    None \<Rightarrow> fail_closed dtoa s MemorySamplingFailed None None (Some t)
                  | Some x \<Rightarrow>
                      (case validate_sample x of
                         Inl r \<Rightarrow> fail_closed dtoa s r None None (Some t)
                       | Inr (used, capacity) \<Rightarrow>
                           let ratio = of_int used / of_int capacity;
                               (reason, next_m) = sampled_memory c (physical_max s) t ratio (snapshot_memory s)
                           in build_transition dtoa s next_m reason (Some used) (Some capacity) (Some t)
                                (Some ratio) (effective_watermark_limit s) None None))))"

definition observe_memory ::
  "(rat \<Rightarrow> string) \<Rightarrow> raw_snapshot \<Rightarrow> raw_config \<Rightarrow> jnum option \<Rightarrow> sample_value option
   \<Rightarrow> watermark_error + watermark_transition" where
  "observe_memory dtoa raw c clock sample =
     and_then (assert_snapshot raw) (\<lambda>s.
     and_then (assert_watermark_config c (physical_max s)) (\<lambda>cfg.
     Inr (observe_checked dtoa s cfg clock sample)))"

definition clear_memory_freeze ::
  "(rat \<Rightarrow> string) \<Rightarrow> raw_snapshot \<Rightarrow> string \<Rightarrow> string \<Rightarrow> jnum option \<Rightarrow> watermark_error + watermark_transition" where
  "clear_memory_freeze dtoa raw acknowledgement hash clock =
     and_then (assert_snapshot raw) (\<lambda>s.
       (case frozen_memory (snapshot_memory s) of
          None \<Rightarrow> Inl (EvidenceError ''not frozen'')
        | Some f \<Rightarrow>
            if trim acknowledgement = [] then Inl (EvidenceError ''acknowledgement'')
            else if hash \<noteq> frozen_evidence_hash f then Inl (EvidenceError ''evidence hash'')
            else
              (case clock of
                 None \<Rightarrow> Inl (EvidenceError ''clock unavailable'')
               | Some v \<Rightarrow>
                   (case valid_timestamp v of
                      None \<Rightarrow> Inl (EvidenceError ''clock invalid'')
                    | Some t \<Rightarrow>
                        if (case last_sampled_at (snapshot_memory s) of None \<Rightarrow> False | Some l \<Rightarrow> t < l)
                        then Inl (EvidenceError ''clock reversed'')
                        else
                          let next_m = (snapshot_memory s)\<lparr>frozen_memory := None, last_sampled_at := Some t\<rparr>
                          in Inr (build_transition dtoa s next_m ManualClear (frozen_observed_bytes f)
                                    (frozen_capacity_bytes f) (Some t) None (effective_watermark_limit s)
                                    (Some acknowledgement) None)))))"

definition create_initial_memory_state :: "jnum \<Rightarrow> watermark_error + memory" where
  "create_initial_memory_state limit =
     and_then (assert_safe_integer_in_range limit 0 max_safe ''memoryAimdLimit'') (\<lambda>l.
     Inr \<lparr>memory_aimd_limit = l, recovery_credits = 0, last_pressure_at = None, high_water_samples = 0,
          low_water_samples = 0, last_sampled_at = None, frozen_memory = None\<rparr>)"

definition restore_memory_state :: "raw_memory \<Rightarrow> jnum \<Rightarrow> watermark_error + memory" where
  "restore_memory_state m physical =
     and_then (assert_safe_integer_in_range physical 1 max_safe ''physicalMax'') (\<lambda>p. assert_memory_state m p)"

section \<open>Runs\<close>

text \<open>The numbers and strings of a checked state, as a store or a caller holds them.\<close>

definition raw_int :: "int \<Rightarrow> jnum" where
  "raw_int i = Fin (of_int i)"

definition raw_frozen :: "(int, rat, failure_reason) frozen_state \<Rightarrow> (jnum, jnum, string) frozen_state" where
  "raw_frozen f =
     \<lparr>frozen_reason = failure_text (frozen_reason f), frozen_evidence_hash = frozen_evidence_hash f,
      frozen_observed_at = map_option Fin (frozen_observed_at f),
      frozen_observed_bytes = map_option raw_int (frozen_observed_bytes f),
      frozen_capacity_bytes = map_option raw_int (frozen_capacity_bytes f)\<rparr>"

definition raw_memory_of :: "memory \<Rightarrow> raw_memory" where
  "raw_memory_of m =
     \<lparr>memory_aimd_limit = raw_int (memory_aimd_limit m), recovery_credits = raw_int (recovery_credits m),
      last_pressure_at = map_option Fin (last_pressure_at m),
      high_water_samples = raw_int (high_water_samples m), low_water_samples = raw_int (low_water_samples m),
      last_sampled_at = map_option Fin (last_sampled_at m),
      frozen_memory = map_option raw_frozen (frozen_memory m)\<rparr>"

text \<open>
  What the owner of the limit calls: an observation or a clear on a snapshot whose fields other than the
  memory are arbitrary numbers, the memory being the one the last transition returned. A call that throws
  returns no transition, so the memory stays.
\<close>

record watermark_control =
  wc_revision :: jnum
  wc_epoch :: jnum
  wc_current :: jnum
  wc_active :: jnum

datatype watermark_op =
    ObserveMemory watermark_control raw_config "jnum option" "sample_value option"
  | ClearFreeze watermark_control string string "jnum option"

definition raw_snapshot_of :: "watermark_control \<Rightarrow> int \<Rightarrow> memory \<Rightarrow> raw_snapshot" where
  "raw_snapshot_of w physical m =
     \<lparr>control_revision = wc_revision w, owner_epoch = wc_epoch w, physical_max = raw_int physical,
      current_limit = wc_current w, active_slots = wc_active w, snapshot_memory = raw_memory_of m\<rparr>"

fun watermark_call :: "(rat \<Rightarrow> string) \<Rightarrow> int \<Rightarrow> memory \<Rightarrow> watermark_op \<Rightarrow> watermark_error + watermark_transition" where
  "watermark_call dtoa physical m (ObserveMemory w c clock sample) =
     observe_memory dtoa (raw_snapshot_of w physical m) c clock sample"
| "watermark_call dtoa physical m (ClearFreeze w ack hash clock) =
     clear_memory_freeze dtoa (raw_snapshot_of w physical m) ack hash clock"

definition watermark_step :: "(rat \<Rightarrow> string) \<Rightarrow> int \<Rightarrow> memory \<Rightarrow> watermark_op \<Rightarrow> memory" where
  "watermark_step dtoa physical m op =
     (case watermark_call dtoa physical m op of Inl _ \<Rightarrow> m | Inr t \<Rightarrow> next_memory t)"

definition watermark_run :: "(rat \<Rightarrow> string) \<Rightarrow> int \<Rightarrow> watermark_op list \<Rightarrow> memory \<Rightarrow> memory" where
  "watermark_run dtoa physical ops m = foldl (watermark_step dtoa physical) m ops"

end
