(* ===== verification/AgyWatermarkFacts.thy ===== *)
theory AgyWatermarkFacts
  imports AgyWatermark
begin

text \<open>
  Facts about the memory watermark: which states the checks accept, that every call keeps them, and that the
  evidence hash is injective in every single character.
\<close>

unbundle bit_operations_syntax

section \<open>Evidence hashes\<close>

lemma fnv_prime_inverse: "(0x100000001b3 :: 64 word) * 0xce965057aff6957b = 1"
  by simp

lemma times_unit_inject: "(p :: 64 word) * q = 1 \<Longrightarrow> a * p = b * p \<longleftrightarrow> a = b"
proof
  assume unit: "p * q = 1" and same: "a * p = b * p"
  have "a = (a * p) * q" using unit by (simp add: mult.assoc)
  also have "\<dots> = (b * p) * q" using same by simp
  also have "\<dots> = b" using unit by (simp add: mult.assoc)
  finally show "a = b" .
qed simp

lemmas times_prime_inject = times_unit_inject [OF fnv_prime_inverse]

lemma xor_right_inject: "(b :: 64 word) XOR a = c XOR a \<longleftrightarrow> b = c"
proof
  assume "b XOR a = c XOR a"
  then have "(b XOR a) XOR a = (c XOR a) XOR a" by (rule arg_cong [where f = "\<lambda>x. x XOR a"])
  then show "b = c" by (simp add: xor.assoc)
qed simp

lemma xor_left_inject: "(a :: 64 word) XOR b = a XOR c \<longleftrightarrow> b = c"
  by (simp add: xor.commute [of a] xor_right_inject)

lemma char_word_inject: "(word_of_nat (of_char c) :: 64 word) = word_of_nat (of_char d) \<longleftrightarrow> c = d"
proof
  have small: "take_bit 64 (of_char e :: nat) = of_char e" for e :: char
  proof (rule take_bit_nat_eq_self)
    have "(of_char e :: nat) = of_char e mod 256" by (simp add: of_char_mod_256)
    also have "\<dots> < 256" by (rule mod_less_divisor) simp
    also have "256 < (2::nat) ^ 64" by simp
    finally show "(of_char e :: nat) < 2 ^ 64" .
  qed
  assume "(word_of_nat (of_char c) :: 64 word) = word_of_nat (of_char d)"
  then have "take_bit 64 (of_char c :: nat) = take_bit 64 (of_char d)"
    by (simp add: word_of_nat_eq_iff)
  then have "(of_char c :: nat) = of_char d" by (simp only: small)
  then show "c = d" by simp
qed simp

lemma fnv_step_state_inject [simp]: "fnv_step g c = fnv_step h c \<longleftrightarrow> g = h"
  unfolding fnv_step_def times_prime_inject xor_right_inject ..

lemma fnv_step_char_inject [simp]: "fnv_step h c = fnv_step h d \<longleftrightarrow> c = d"
  unfolding fnv_step_def times_prime_inject xor_left_inject char_word_inject ..

lemma fnv_fold_inject: "foldl fnv_step g s = foldl fnv_step h s \<longleftrightarrow> g = h"
  by (induction s arbitrary: g h) auto

lemma fnv1a64_single_change: "fnv1a64 (xs @ c # ys) = fnv1a64 (xs @ d # ys) \<longleftrightarrow> c = d"
  by (simp add: fnv1a64_def fnv_fold_inject)

text \<open>Reading the hexadecimal digits back.\<close>

definition hex_value :: "char \<Rightarrow> nat" where
  "hex_value c = (if of_char c < (87::nat) then of_char c - 48 else of_char c - 87)"

definition read_hex :: "string \<Rightarrow> nat" where
  "read_hex s = foldl (\<lambda>a c. 16 * a + hex_value c) 0 s"

lemma hex_value_digit: "d < 16 \<Longrightarrow> hex_value (hex_digit d) = d"
  by (auto simp: hex_value_def hex_digit_def)

lemma read_hex_text: "read_hex (hex_text n) = n"
proof (induction n rule: hex_text.induct)
  case (1 n)
  show ?case
  proof (cases "n < 16")
    case True
    then show ?thesis by (simp add: hex_text.simps [of n] read_hex_def hex_value_digit)
  next
    case False
    have split: "hex_text n = hex_text (n div 16) @ [hex_digit (n mod 16)]"
      using False by (simp add: hex_text.simps [of n])
    have "read_hex (hex_text n) = 16 * read_hex (hex_text (n div 16)) + n mod 16"
      unfolding split read_hex_def by (simp add: hex_value_digit)
    then show ?thesis using 1 [OF False] by simp
  qed
qed

lemma read_hex_zeros: "read_hex (replicate k (CHR ''0'') @ s) = read_hex s"
proof -
  have "foldl (\<lambda>a c. 16 * a + hex_value c) 0 (replicate k (CHR ''0'')) = 0"
    by (induction k) (simp_all add: hex_value_def)
  then show ?thesis by (simp add: read_hex_def)
qed

lemma read_hash_evidence: "read_hex (drop 8 (hash_evidence parts)) = unat (fnv1a64 (join_parts parts))"
  by (simp add: hash_evidence_def pad_start_def read_hex_zeros read_hex_text)

lemma hash_evidence_eq: "hash_evidence ps = hash_evidence qs \<longleftrightarrow> fnv1a64 (join_parts ps) = fnv1a64 (join_parts qs)"
proof
  assume "hash_evidence ps = hash_evidence qs"
  then show "fnv1a64 (join_parts ps) = fnv1a64 (join_parts qs)"
    using read_hash_evidence [of ps] read_hash_evidence [of qs] by (simp add: word_unat_eq_iff)
qed (simp add: hash_evidence_def)

lemma hash_evidence_not_empty [simp]: "hash_evidence parts \<noteq> []"
  by (simp add: hash_evidence_def)

section \<open>States the checks accept\<close>

definition timestamp_ok :: "rat option \<Rightarrow> bool" where
  "timestamp_ok t \<longleftrightarrow> (case t of None \<Rightarrow> True | Some q \<Rightarrow> 0 \<le> q \<and> q \<le> of_int max_safe)"

definition counter_ok :: "int \<Rightarrow> bool" where
  "counter_ok i \<longleftrightarrow> 0 \<le> i \<and> i \<le> max_safe"

definition bytes_ok :: "int option \<Rightarrow> bool" where
  "bytes_ok b \<longleftrightarrow> (case b of None \<Rightarrow> True | Some i \<Rightarrow> counter_ok i)"

definition frozen_ok :: "(int, rat, failure_reason) frozen_state \<Rightarrow> bool" where
  "frozen_ok f \<longleftrightarrow> frozen_evidence_hash f \<noteq> [] \<and> timestamp_ok (frozen_observed_at f)
     \<and> bytes_ok (frozen_observed_bytes f) \<and> bytes_ok (frozen_capacity_bytes f)"

definition memory_ok :: "int \<Rightarrow> memory \<Rightarrow> bool" where
  "memory_ok p m \<longleftrightarrow> 0 \<le> memory_aimd_limit m \<and> memory_aimd_limit m \<le> p
     \<and> counter_ok (recovery_credits m) \<and> counter_ok (high_water_samples m) \<and> counter_ok (low_water_samples m)
     \<and> timestamp_ok (last_pressure_at m) \<and> timestamp_ok (last_sampled_at m)
     \<and> (case frozen_memory m of None \<Rightarrow> True | Some f \<Rightarrow> frozen_ok f)"

lemmas ok_defs = timestamp_ok_def counter_ok_def bytes_ok_def frozen_ok_def memory_ok_def

lemma max_safe_pos [simp]: "0 < max_safe" "0 \<le> max_safe" "1 \<le> max_safe"
  by (simp_all add: max_safe_def)

lemma failure_reason_of_text [simp]: "failure_reason_of (failure_text r) = Some r"
  by (cases r) (simp_all add: failure_reason_of_def)

lemma safe_raw_int: "counter_ok i \<Longrightarrow> safe_integer_of (raw_int i) = Some i"
  by (simp add: raw_int_def safe_integer_of_int counter_ok_def)

lemma assert_range_Inr:
  "assert_safe_integer_in_range v lo hi name = Inr i \<longleftrightarrow> safe_integer_of v = Some i \<and> lo \<le> i \<and> i \<le> hi"
  by (auto simp: assert_safe_integer_in_range_def split: option.splits)

lemma assert_range_raw:
  "counter_ok i \<Longrightarrow> lo \<le> i \<Longrightarrow> i \<le> hi \<Longrightarrow> assert_safe_integer_in_range (raw_int i) lo hi name = Inr i"
  by (simp add: assert_range_Inr safe_raw_int)

lemma valid_timestamp_Some: "valid_timestamp v = Some q \<Longrightarrow> 0 \<le> q \<and> q \<le> of_int max_safe"
  by (auto simp: valid_timestamp_def split: option.splits if_splits)

lemma valid_timestamp_Fin: "0 \<le> q \<Longrightarrow> q \<le> of_int max_safe \<Longrightarrow> valid_timestamp (Fin q) = Some q"
  by (simp add: valid_timestamp_def)

lemma assert_timestamp_ok: "assert_nullable_timestamp v name = Inr t \<Longrightarrow> timestamp_ok t"
  by (cases v) (auto simp: timestamp_ok_def split: option.splits dest: valid_timestamp_Some)

lemma assert_timestamp_raw: "timestamp_ok t \<Longrightarrow> assert_nullable_timestamp (map_option Fin t) name = Inr t"
  by (cases t) (auto simp: timestamp_ok_def valid_timestamp_Fin)

lemma assert_bytes_ok: "assert_nullable_observed_bytes v name = Inr b \<Longrightarrow> bytes_ok b"
  by (cases v) (auto simp: bytes_ok_def counter_ok_def split: option.splits if_splits dest: safe_integer_of_bound)

lemma assert_bytes_raw: "bytes_ok b \<Longrightarrow> assert_nullable_observed_bytes (map_option raw_int b) name = Inr b"
  by (cases b) (auto simp: bytes_ok_def safe_raw_int counter_ok_def)

lemma assert_frozen_ok: "assert_frozen_state f = Inr g \<Longrightarrow> frozen_ok g"
  by (auto simp: assert_frozen_state_def frozen_ok_def result_simps split: option.splits if_splits
      dest: assert_timestamp_ok assert_bytes_ok)

lemma assert_frozen_raw: "frozen_ok f \<Longrightarrow> assert_frozen_state (raw_frozen f) = Inr f"
  by (simp add: assert_frozen_state_def raw_frozen_def frozen_ok_def assert_timestamp_raw assert_bytes_raw)

lemma assert_nullable_frozen_ok:
  "assert_nullable_frozen v = Inr f \<Longrightarrow> (case f of None \<Rightarrow> True | Some g \<Rightarrow> frozen_ok g)"
  by (cases v) (auto simp: result_simps dest: assert_frozen_ok)

lemma assert_nullable_frozen_raw:
  "(case f of None \<Rightarrow> True | Some g \<Rightarrow> frozen_ok g) \<Longrightarrow> assert_nullable_frozen (map_option raw_frozen f) = Inr f"
  by (cases f) (simp_all add: assert_frozen_raw)

lemma assert_memory_ok: "assert_memory_state r p = Inr m \<Longrightarrow> memory_ok p m"
  by (auto simp: assert_memory_state_def result_simps memory_ok_def counter_ok_def assert_range_Inr
      dest: assert_timestamp_ok assert_nullable_frozen_ok)

lemma assert_memory_raw:
  assumes "memory_ok p m" and "p \<le> max_safe"
  shows "assert_memory_state (raw_memory_of m) p = Inr m"
proof -
  have "counter_ok (memory_aimd_limit m)" using assms by (simp add: ok_defs)
  then show ?thesis using assms(1)
    by (simp add: assert_memory_state_def raw_memory_of_def assert_range_raw assert_timestamp_raw
        assert_nullable_frozen_raw memory_ok_def counter_ok_def)
qed

lemma restore_ok: "restore_memory_state r q = Inr m \<Longrightarrow> \<exists>p. safe_integer_of q = Some p \<and> 1 \<le> p \<and> p \<le> max_safe \<and> memory_ok p m"
  by (auto simp: restore_memory_state_def result_simps assert_range_Inr dest: assert_memory_ok)

lemma restore_raw: "memory_ok p m \<Longrightarrow> 1 \<le> p \<Longrightarrow> p \<le> max_safe \<Longrightarrow> restore_memory_state (raw_memory_of m) (raw_int p) = Inr m"
  by (simp add: restore_memory_state_def assert_range_raw assert_memory_raw counter_ok_def)

lemma assert_snapshot_raw:
  assumes "assert_snapshot (raw_snapshot_of w p m) = Inr s" and "memory_ok p m" and "1 \<le> p" and "p \<le> max_safe"
  shows "snapshot_memory s = m" "physical_max s = p" "0 \<le> current_limit s" "current_limit s \<le> p" "0 \<le> active_slots s"
proof -
  have "counter_ok p" using assms by (simp add: counter_ok_def)
  then show "snapshot_memory s = m" "physical_max s = p" "0 \<le> current_limit s" "current_limit s \<le> p"
    "0 \<le> active_slots s"
    using assms by (auto simp: assert_snapshot_def raw_snapshot_of_def result_simps assert_range_Inr safe_raw_int
        assert_memory_raw)
qed

section \<open>Every call keeps the state acceptable\<close>

text \<open>Besides being acceptable, a frozen memory has the limit 0 in every state reached from a new one.\<close>

definition shut_when_frozen :: "memory \<Rightarrow> bool" where
  "shut_when_frozen m \<longleftrightarrow> frozen_memory m = None \<or> memory_aimd_limit m = 0"

definition config_ok :: "int \<Rightarrow> config \<Rightarrow> bool" where
  "config_ok p c \<longleftrightarrow> 0 \<le> low_watermark_ratio c \<and> low_watermark_ratio c < high_watermark_ratio c
     \<and> high_watermark_ratio c \<le> 1 \<and> 1 \<le> low_water_recovery_samples c \<and> low_water_recovery_samples c \<le> max_safe
     \<and> 0 \<le> reduction_factor c \<and> reduction_factor c < 1 \<and> 1 \<le> recovery_step c \<and> recovery_step c \<le> p
     \<and> 0 \<le> min_memory_aimd_limit c \<and> min_memory_aimd_limit c \<le> p"

lemma assert_config_ok: "assert_watermark_config c p = Inr d \<Longrightarrow> config_ok p d"
  by (cases "finite_of (low_watermark_ratio c)"; cases "finite_of (high_watermark_ratio c)";
      cases "finite_of (reduction_factor c)")
    (simp_all add: assert_watermark_config_def config_ok_def result_simps assert_range_Inr split: if_splits, auto)

lemma counter_ok_simps [simp]: "counter_ok 0" "counter_ok v \<Longrightarrow> counter_ok (increment_counter v)"
  by (auto simp: counter_ok_def increment_counter_def)

lemma reduced_bounds:
  assumes "config_ok p c" and "0 \<le> l" and "l \<le> p"
  shows "0 \<le> max (min_memory_aimd_limit c) \<lfloor>of_int l * reduction_factor c\<rfloor>"
    and "max (min_memory_aimd_limit c) \<lfloor>of_int l * reduction_factor c\<rfloor> \<le> p"
    and "\<lfloor>of_int l * reduction_factor c\<rfloor> \<le> l"
proof -
  have f: "0 \<le> reduction_factor c" "reduction_factor c \<le> 1" using assms(1) by (auto simp: config_ok_def)
  have "of_int l * reduction_factor c \<le> of_int l * 1"
    by (rule mult_left_mono) (use f assms(2) in simp_all)
  then have "of_int l * reduction_factor c \<le> of_int l" by simp
  then show below: "\<lfloor>of_int l * reduction_factor c\<rfloor> \<le> l" by linarith
  show "0 \<le> max (min_memory_aimd_limit c) \<lfloor>of_int l * reduction_factor c\<rfloor>"
    using assms(1) by (simp add: config_ok_def le_max_iff_disj)
  show "max (min_memory_aimd_limit c) \<lfloor>of_int l * reduction_factor c\<rfloor> \<le> p"
    using assms below by (simp add: config_ok_def)
qed

lemma sampled_memory_ok:
  assumes "memory_ok p m" and "config_ok p c" and "timestamp_ok (Some t)"
    and "sampled_memory c p t ratio m = (reason, n)"
  shows "memory_ok p n"
proof -
  have red: "0 \<le> max (min_memory_aimd_limit c) \<lfloor>of_int (memory_aimd_limit m) * reduction_factor c\<rfloor>"
    "max (min_memory_aimd_limit c) \<lfloor>of_int (memory_aimd_limit m) * reduction_factor c\<rfloor> \<le> p"
    using assms(1) by (auto simp only: memory_ok_def intro!: reduced_bounds [OF assms(2)])
  show ?thesis
    using assms red
    by (auto simp: sampled_memory_def high_watermark_memory_def low_watermark_memory_def middle_band_memory_def
        memory_ok_def config_ok_def Let_def split: if_splits)
qed

lemma build_transition_sel [simp]:
  "next_memory (build_transition dtoa s n r b cap t ratio before ack ovr) = n"
  "grant_of (build_transition dtoa s n r b cap t ratio before ack ovr) =
     build_grant_policy (active_slots s) (min (physical_max s) (min (current_limit s) (memory_aimd_limit n)))
       (frozen_memory n \<noteq> None)"
  "effective_after (build_transition dtoa s n r b cap t ratio before ack ovr) =
     min (physical_max s) (min (current_limit s) (memory_aimd_limit n))"
  by (simp_all add: build_transition_def Let_def)

lemma fail_closed_memory:
  "memory_aimd_limit (next_memory (fail_closed dtoa s r b cap t)) = 0"
  "frozen_memory (next_memory (fail_closed dtoa s r b cap t)) \<noteq> None"
  by (simp_all add: fail_closed_def Let_def)

lemma fail_closed_ok:
  "memory_ok p (snapshot_memory s) \<Longrightarrow> timestamp_ok t \<Longrightarrow> bytes_ok b \<Longrightarrow> bytes_ok cap \<Longrightarrow> 0 \<le> p
   \<Longrightarrow> memory_ok p (next_memory (fail_closed dtoa s r b cap t))"
  by (auto simp: fail_closed_def Let_def memory_ok_def frozen_ok_def)

text \<open>The two ways an accepted observation ends.\<close>

lemma observe_checked_cases:
  obtains (failed) r t where "observe_checked dtoa s c clock sample = fail_closed dtoa s r None None t" "timestamp_ok t"
  | (sampled) v t x used capacity reason n where "clock = Some v" "valid_timestamp v = Some t" "sample = Some x"
      "validate_sample x = Inr (used, capacity)"
      "sampled_memory c (physical_max s) t (of_int used / of_int capacity) (snapshot_memory s) = (reason, n)"
      "case last_sampled_at (snapshot_memory s) of None \<Rightarrow> True | Some l \<Rightarrow> l \<le> t"
      "observe_checked dtoa s c clock sample = build_transition dtoa s n reason (Some used) (Some capacity) (Some t)
         (Some (of_int used / of_int capacity)) (effective_watermark_limit s) None None"
proof (cases clock)
  case None
  then show ?thesis by (intro failed [of MonotonicTimeUnavailable None]) (simp_all add: observe_checked_def timestamp_ok_def)
next
  case v: (Some v)
  show ?thesis
  proof (cases "valid_timestamp v")
    case None
    then show ?thesis using v
      by (intro failed [of MonotonicTimeNonFinite None]) (simp_all add: observe_checked_def timestamp_ok_def)
  next
    case t: (Some t)
    then have tok: "timestamp_ok (Some t)" by (auto simp: timestamp_ok_def dest: valid_timestamp_Some)
    show ?thesis
    proof (cases "case last_sampled_at (snapshot_memory s) of None \<Rightarrow> False | Some l \<Rightarrow> t < l")
      case True
      then show ?thesis using v t tok
        by (intro failed [of MonotonicTimeReversed "Some t"]) (simp_all add: observe_checked_def)
    next
      case late: False
      show ?thesis
      proof (cases sample)
        case None
        then show ?thesis using v t tok late
          by (intro failed [of MemorySamplingFailed "Some t"]) (simp_all add: observe_checked_def)
      next
        case x: (Some x)
        show ?thesis
        proof (cases "validate_sample x")
          case (Inl r)
          then show ?thesis using v t tok late x
            by (intro failed [of r "Some t"]) (simp_all add: observe_checked_def)
        next
          case (Inr uc)
          obtain used capacity where uc: "uc = (used, capacity)" by (cases uc)
          obtain reason n where n: "sampled_memory c (physical_max s) t (of_int used / of_int capacity)
            (snapshot_memory s) = (reason, n)" by fastforce
          show ?thesis
            by (rule sampled [OF v t x Inr [unfolded uc] n])
              (use v t late x Inr uc n in \<open>auto simp: observe_checked_def Let_def split: option.splits\<close>)
        qed
      qed
    qed
  qed
qed

lemma observe_ok:
  assumes "observe_memory dtoa (raw_snapshot_of w p m) c clock sample = Inr t" and "memory_ok p m" and "1 \<le> p"
    and "p \<le> max_safe"
  shows "memory_ok p (next_memory t)"
proof -
  obtain s d where s: "assert_snapshot (raw_snapshot_of w p m) = Inr s" and d: "assert_watermark_config c (physical_max s) = Inr d"
    and t: "t = observe_checked dtoa s d clock sample"
    using assms(1) by (auto simp: observe_memory_def result_simps)
  note s = assert_snapshot_raw [OF s assms(2,3,4)]
  have d: "config_ok p d" using assert_config_ok [OF d] s by simp
  show ?thesis
  proof (cases rule: observe_checked_cases [of dtoa s d clock sample])
    case (failed r u)
    then show ?thesis using t s assms by (auto intro!: fail_closed_ok simp: bytes_ok_def)
  next
    case (sampled v u x used capacity reason n)
    then have "timestamp_ok (Some u)" by (auto simp: timestamp_ok_def dest: valid_timestamp_Some)
    then show ?thesis using sampled t s assms d by (auto intro: sampled_memory_ok)
  qed
qed

lemma clear_cases:
  assumes "clear_memory_freeze dtoa (raw_snapshot_of w p m) ack hash clock = Inr t" and "memory_ok p m" and "1 \<le> p"
    and "p \<le> max_safe"
  obtains s f u where "assert_snapshot (raw_snapshot_of w p m) = Inr s" "frozen_memory m = Some f"
    "trim ack \<noteq> []" "hash = frozen_evidence_hash f" "timestamp_ok (Some u)"
    "case last_sampled_at m of None \<Rightarrow> True | Some l \<Rightarrow> l \<le> u"
    "t = build_transition dtoa s (m\<lparr>frozen_memory := None, last_sampled_at := Some u\<rparr>) ManualClear
       (frozen_observed_bytes f) (frozen_capacity_bytes f) (Some u) None (effective_watermark_limit s) (Some ack) None"
proof -
  obtain s where s: "assert_snapshot (raw_snapshot_of w p m) = Inr s"
    using assms(1) by (auto simp: clear_memory_freeze_def result_simps)
  have m: "snapshot_memory s = m" by (rule assert_snapshot_raw(1) [OF s assms(2,3,4)])
  obtain f v u where f: "frozen_memory m = Some f" "trim ack \<noteq> []" "hash = frozen_evidence_hash f"
    and u: "valid_timestamp v = Some u" "\<not> (case last_sampled_at m of None \<Rightarrow> False | Some l \<Rightarrow> u < l)"
    and t: "t = build_transition dtoa s (m\<lparr>frozen_memory := None, last_sampled_at := Some u\<rparr>) ManualClear
       (frozen_observed_bytes f) (frozen_capacity_bytes f) (Some u) None (effective_watermark_limit s) (Some ack) None"
    using assms(1) s m
    by (auto simp: clear_memory_freeze_def Let_def split: option.splits if_splits)
  have "timestamp_ok (Some u)" using valid_timestamp_Some [OF u(1)] by (simp add: timestamp_ok_def)
  moreover have "case last_sampled_at m of None \<Rightarrow> True | Some l \<Rightarrow> l \<le> u"
    using u(2) by (auto split: option.splits)
  ultimately show ?thesis using that [OF s f] t by blast
qed

lemma clear_ok:
  assumes "clear_memory_freeze dtoa (raw_snapshot_of w p m) ack hash clock = Inr t" and "memory_ok p m" and "1 \<le> p"
    and "p \<le> max_safe"
  shows "memory_ok p (next_memory t)"
  by (rule clear_cases [OF assms]) (use assms(2) in \<open>auto simp: memory_ok_def\<close>)

lemma watermark_step_ok:
  "memory_ok p m \<Longrightarrow> 1 \<le> p \<Longrightarrow> p \<le> max_safe \<Longrightarrow> memory_ok p (watermark_step dtoa p m op)"
  by (cases op) (auto simp: watermark_step_def split: sum.splits intro: observe_ok clear_ok)

lemma watermark_run_ok:
  "memory_ok p m \<Longrightarrow> 1 \<le> p \<Longrightarrow> p \<le> max_safe \<Longrightarrow> memory_ok p (watermark_run dtoa p ops m)"
  unfolding watermark_run_def by (induction ops arbitrary: m) (auto intro: watermark_step_ok)

end
