(* ===== verification/AgyWatermarkProps.thy ===== *)
theory AgyWatermarkProps
  imports AgyWatermarkFacts
begin

text \<open>
  The properties of the memory watermark: every state it reaches is restored unchanged, a frozen limit stays
  shut until the freeze is acknowledged by its evidence, low samples raise the limit at a fixed rate, pressure
  lowers it geometrically, and evidence that differs in one character has another hash.
\<close>

section \<open>The sample runs of the witnesses\<close>

definition demo_control :: watermark_control where
  "demo_control = \<lparr>wc_revision = Fin 1, wc_epoch = Fin 0, wc_current = Fin 4, wc_active = Fin 0\<rparr>"

definition demo_config :: raw_config where
  "demo_config = default_watermark_config\<lparr>low_water_recovery_samples := Fin 2, min_memory_aimd_limit := Fin 1\<rparr>"

definition demo_limits :: config where
  "demo_limits = \<lparr>low_watermark_ratio = 65 / 100, high_watermark_ratio = 85 / 100, low_water_recovery_samples = 2,
     reduction_factor = 1 / 2, recovery_step = 1, min_memory_aimd_limit = 1\<rparr>"

lemma demo_config_accepted: "assert_watermark_config demo_config 4 = Inr demo_limits"
  by code_simp

definition demo_memory :: memory where
  "demo_memory = \<lparr>memory_aimd_limit = 3, recovery_credits = 0, last_pressure_at = None, high_water_samples = 0,
     low_water_samples = 0, last_sampled_at = None, frozen_memory = None\<rparr>"

definition demo_dtoa :: "rat \<Rightarrow> string" where
  "demo_dtoa q = ''?''"

definition demo_reading :: "rat \<Rightarrow> int \<Rightarrow> watermark_op" where
  "demo_reading t used = ObserveMemory demo_control demo_config (Some (Fin t)) (Some (Sampled (Some (raw_int used)) (Some (Fin 100))))"

definition demo_failure :: watermark_op where
  "demo_failure = ObserveMemory demo_control demo_config None None"

section \<open>A frozen limit\<close>

lemma watermark_step_shut:
  assumes "memory_ok p m" and "1 \<le> p" and "p \<le> max_safe" and "shut_when_frozen m"
  shows "shut_when_frozen (watermark_step dtoa p m op)"
proof (cases "watermark_call dtoa p m op")
  case (Inl e)
  then show ?thesis using assms by (simp add: watermark_step_def)
next
  case (Inr t)
  have "shut_when_frozen (next_memory t)"
  proof (cases op)
    case (ObserveMemory w c clock sample)
    then obtain s d where s: "assert_snapshot (raw_snapshot_of w p m) = Inr s"
      and t: "t = observe_checked dtoa s d clock sample"
      using Inr by (auto simp: observe_memory_def result_simps)
    note s = assert_snapshot_raw [OF s assms(1,2,3)]
    show ?thesis
    proof (cases rule: observe_checked_cases [of dtoa s d clock sample])
      case (failed r u)
      then show ?thesis using t by (simp add: shut_when_frozen_def fail_closed_memory)
    next
      case (sampled v u x used capacity reason n)
      then show ?thesis using t s assms(4)
        by (auto simp: shut_when_frozen_def sampled_memory_def high_watermark_memory_def low_watermark_memory_def
            middle_band_memory_def Let_def split: if_splits)
    qed
  next
    case (ClearFreeze w ack hash clock)
    then have "clear_memory_freeze dtoa (raw_snapshot_of w p m) ack hash clock = Inr t" using Inr by simp
    then show ?thesis by (rule clear_cases [OF _ assms(1-3)]) (simp add: shut_when_frozen_def)
  qed
  then show ?thesis using Inr by (simp add: watermark_step_def)
qed

lemma watermark_run_shut:
  "memory_ok p m \<Longrightarrow> 1 \<le> p \<Longrightarrow> p \<le> max_safe \<Longrightarrow> shut_when_frozen m \<Longrightarrow> shut_when_frozen (watermark_run dtoa p ops m)"
  unfolding watermark_run_def by (induction ops arbitrary: m) (auto intro: watermark_step_ok watermark_step_shut)

text \<open>A call on a frozen memory: nothing may be granted, and only a matching clear ends the freeze.\<close>

lemma frozen_call:
  assumes "memory_ok p m" and "1 \<le> p" and "p \<le> max_safe" and "shut_when_frozen m" and f: "frozen_memory m = Some f"
    and call: "watermark_call dtoa p m op = Inr t"
  shows "memory_aimd_limit (next_memory t) = 0 \<and> \<not> permit_new_grant (grant_of t)
    \<and> (frozen_memory (next_memory t) \<noteq> None \<or>
       (case op of ClearFreeze w ack hash clock \<Rightarrow> hash = frozen_evidence_hash f \<and> trim ack \<noteq> [] | _ \<Rightarrow> False))"
proof (cases op)
  case (ObserveMemory w c clock sample)
  then obtain s d where s: "assert_snapshot (raw_snapshot_of w p m) = Inr s"
    and t: "t = observe_checked dtoa s d clock sample"
    using call by (auto simp: observe_memory_def result_simps)
  note s = assert_snapshot_raw [OF s assms(1,2,3)]
  show ?thesis
  proof (cases rule: observe_checked_cases [of dtoa s d clock sample])
    case (failed r u)
    have "grant_of t = build_grant_policy (active_slots s) (effective_after t) True"
      unfolding t failed by (simp add: fail_closed_def Let_def)
    then show ?thesis using failed t fail_closed_memory [of dtoa s r None None u]
      by (simp add: build_grant_policy_def)
  next
    case (sampled v u x used capacity reason n)
    then have "n = m\<lparr>memory_aimd_limit := 0, last_sampled_at := Some u\<rparr>"
      using s f by (auto simp: sampled_memory_def)
    then show ?thesis using t sampled f by (simp add: build_grant_policy_def)
  qed
next
  case (ClearFreeze w ack hash clock)
  then have clear: "clear_memory_freeze dtoa (raw_snapshot_of w p m) ack hash clock = Inr t" using call by simp
  have l: "memory_aimd_limit m = 0" using assms(4) f by (simp add: shut_when_frozen_def)
  show ?thesis
  proof (rule clear_cases [OF clear assms(1-3)])
    fix s g u
    assume s: "assert_snapshot (raw_snapshot_of w p m) = Inr s"
      and g: "frozen_memory m = Some g" "trim ack \<noteq> []" "hash = frozen_evidence_hash g"
      and t: "t = build_transition dtoa s (m\<lparr>frozen_memory := None, last_sampled_at := Some u\<rparr>) ManualClear
       (frozen_observed_bytes g) (frozen_capacity_bytes g) (Some u) None (effective_watermark_limit s) (Some ack) None"
    note s = assert_snapshot_raw [OF s assms(1,2,3)]
    show ?thesis using f g t l s ClearFreeze by (simp add: build_grant_policy_def)
  qed
qed

definition control_valid :: "int \<Rightarrow> watermark_control \<Rightarrow> bool" where
  "control_valid p w =
     ((case safe_integer_of (wc_revision w) of None \<Rightarrow> False | Some i \<Rightarrow> 1 \<le> i)
      \<and> (case safe_integer_of (wc_epoch w) of None \<Rightarrow> False | Some i \<Rightarrow> 0 \<le> i)
      \<and> (case safe_integer_of (wc_current w) of None \<Rightarrow> False | Some i \<Rightarrow> 0 \<le> i \<and> i \<le> p)
      \<and> (case safe_integer_of (wc_active w) of None \<Rightarrow> False | Some i \<Rightarrow> 0 \<le> i))"

lemma assert_snapshot_total:
  assumes "memory_ok p m" and "1 \<le> p" and "p \<le> max_safe" and "control_valid p w"
  obtains s where "assert_snapshot (raw_snapshot_of w p m) = Inr s" "snapshot_memory s = m" "physical_max s = p"
proof -
  have "\<exists>s. assert_snapshot (raw_snapshot_of w p m) = Inr s"
    using assms by (auto simp: assert_snapshot_def raw_snapshot_of_def control_valid_def result_simps assert_range_Inr
        safe_raw_int counter_ok_def assert_memory_raw split: option.splits dest: safe_integer_of_bound)
  then show thesis using assert_snapshot_raw [OF _ assms(1-3)] that by blast
qed

lemma observation_returns:
  assumes "memory_ok p m" and "1 \<le> p" and "p \<le> max_safe" and "control_valid p w" and "assert_watermark_config c p = Inr d"
  shows "\<exists>s. watermark_call dtoa p m (ObserveMemory w c clock sample) = Inr (observe_checked dtoa s d clock sample)"
proof -
  obtain s where "assert_snapshot (raw_snapshot_of w p m) = Inr s" "physical_max s = p"
    using assert_snapshot_total [OF assms(1-4)] by blast
  then show ?thesis using assms(5) by (auto simp: observe_memory_def)
qed

lemma restored_ok:
  assumes "restore_memory_state stored (raw_int p) = Inr m"
  shows "1 \<le> p" "p \<le> max_safe" "memory_ok p m"
  using restore_ok [OF assms] by (auto simp: raw_int_def safe_integer_of_int split: if_splits)

section \<open>Rates\<close>

text \<open>
  An accepted reading: valid control numbers, a clock that does not go back and a sample with this utilisation.
\<close>

record watermark_reading =
  rd_control :: watermark_control
  rd_time :: rat
  rd_used :: int
  rd_capacity :: int

definition reading_op :: "raw_config \<Rightarrow> watermark_reading \<Rightarrow> watermark_op" where
  "reading_op c r = ObserveMemory (rd_control r) c (Some (Fin (rd_time r)))
     (Some (Sampled (Some (raw_int (rd_used r))) (Some (raw_int (rd_capacity r)))))"

definition reading_valid :: "int \<Rightarrow> watermark_reading \<Rightarrow> bool" where
  "reading_valid p r = (control_valid p (rd_control r) \<and> 0 \<le> rd_time r \<and> rd_time r \<le> of_int max_safe
     \<and> 0 \<le> rd_used r \<and> rd_used r \<le> rd_capacity r \<and> 0 < rd_capacity r \<and> rd_capacity r \<le> max_safe)"

definition utilisation :: "watermark_reading \<Rightarrow> rat" where
  "utilisation r = of_int (rd_used r) / of_int (rd_capacity r)"

definition demo_rested :: "rat \<Rightarrow> watermark_reading" where
  "demo_rested t = \<lparr>rd_control = demo_control, rd_time = t, rd_used = 20, rd_capacity = 100\<rparr>"

definition demo_pressed :: "rat \<Rightarrow> watermark_reading" where
  "demo_pressed t = \<lparr>rd_control = demo_control, rd_time = t, rd_used = 90, rd_capacity = 100\<rparr>"

text \<open>The readings are valid and in the order of time, from the last sampled time on.\<close>

fun readings_in_order :: "int \<Rightarrow> rat option \<Rightarrow> watermark_reading list \<Rightarrow> bool" where
  "readings_in_order p before [] = True"
| "readings_in_order p before (r # rs) =
     (reading_valid p r \<and> (case before of None \<Rightarrow> True | Some b \<Rightarrow> b \<le> rd_time r)
      \<and> readings_in_order p (Some (rd_time r)) rs)"

lemma reading_step:
  assumes "memory_ok p m" and "1 \<le> p" and "p \<le> max_safe" and "reading_valid p r"
    and "case last_sampled_at m of None \<Rightarrow> True | Some l \<Rightarrow> l \<le> rd_time r"
    and "assert_watermark_config c p = Inr d"
  shows "watermark_step dtoa p m (reading_op c r) = snd (sampled_memory d p (rd_time r) (utilisation r) m)"
proof -
  have v: "control_valid p (rd_control r)" "0 \<le> rd_time r" "rd_time r \<le> of_int max_safe"
    "0 \<le> rd_used r" "rd_used r \<le> rd_capacity r" "0 < rd_capacity r" "rd_capacity r \<le> max_safe"
    using assms(4) by (simp_all add: reading_valid_def)
  obtain s where s: "assert_snapshot (raw_snapshot_of (rd_control r) p m) = Inr s" "snapshot_memory s = m" "physical_max s = p"
    using assert_snapshot_total [OF assms(1-3) v(1)] by blast
  have sample: "validate_sample (Sampled (Some (raw_int (rd_used r))) (Some (raw_int (rd_capacity r)))) = Inr (rd_used r, rd_capacity r)"
    using v by (simp add: safe_raw_int counter_ok_def) (simp add: raw_int_def)
  obtain reason n where n: "sampled_memory d p (rd_time r) (utilisation r) m = (reason, n)" by fastforce
  have late: "\<not> (case last_sampled_at m of None \<Rightarrow> False | Some l \<Rightarrow> rd_time r < l)"
    using assms(5) by (auto split: option.splits)
  have "observe_checked dtoa s d (Some (Fin (rd_time r)))
      (Some (Sampled (Some (raw_int (rd_used r))) (Some (raw_int (rd_capacity r))))) =
    build_transition dtoa s n reason (Some (rd_used r)) (Some (rd_capacity r)) (Some (rd_time r))
      (Some (utilisation r)) (effective_watermark_limit s) None None"
    using n late
    by (simp add: observe_checked_def valid_timestamp_Fin [OF v(2,3)] sample s Let_def utilisation_def del: validate_sample.simps)
  then show ?thesis
    by (simp add: watermark_step_def reading_op_def observe_memory_def s assms(6) n)
qed

lemma sampled_time [simp]: "last_sampled_at (snd (sampled_memory d p t u m)) = Some t"
  by (simp add: sampled_memory_def high_watermark_memory_def low_watermark_memory_def middle_band_memory_def Let_def)

lemma low_step:
  assumes "config_ok p d" and "memory_ok p m" and "frozen_memory m = None" and "u \<le> low_watermark_ratio d"
    and "memory_aimd_limit m < p \<Longrightarrow> recovery_credits m < low_water_recovery_samples d"
  shows "frozen_memory (snd (sampled_memory d p t u m)) = None"
    and "memory_aimd_limit (snd (sampled_memory d p t u m)) =
      (if memory_aimd_limit m < p \<and> recovery_credits m + 1 = low_water_recovery_samples d
       then min p (memory_aimd_limit m + recovery_step d) else memory_aimd_limit m)"
    and "memory_aimd_limit m < p \<Longrightarrow> recovery_credits (snd (sampled_memory d p t u m)) =
      (if recovery_credits m + 1 = low_water_recovery_samples d then 0 else recovery_credits m + 1)"
  using assms by (auto simp: sampled_memory_def low_watermark_memory_def Let_def increment_counter_def config_ok_def)

text \<open>At the physical maximum low samples change nothing; below it \<open>n\<close> more credits make \<open>(c + n) div N\<close> recoveries.\<close>

lemma low_run:
  assumes "assert_watermark_config c p = Inr d" and p: "1 \<le> p" "p \<le> max_safe"
  shows "memory_ok p m \<Longrightarrow> frozen_memory m = None
    \<Longrightarrow> (memory_aimd_limit m < p \<Longrightarrow> recovery_credits m < low_water_recovery_samples d)
    \<Longrightarrow> readings_in_order p (last_sampled_at m) rs \<Longrightarrow> list_all (\<lambda>r. utilisation r \<le> low_watermark_ratio d) rs
    \<Longrightarrow> memory_aimd_limit (watermark_run dtoa p (map (reading_op c) rs) m) =
      (if memory_aimd_limit m < p
       then min p (memory_aimd_limit m + recovery_step d * ((recovery_credits m + int (length rs)) div low_water_recovery_samples d))
       else p)"
proof (induction rs arbitrary: m)
  case Nil
  then show ?case by (auto simp: watermark_run_def memory_ok_def counter_ok_def div_pos_pos_trivial)
next
  case (Cons r rs)
  define n where "n = watermark_step dtoa p m (reading_op c r)"
  define N where "N = low_water_recovery_samples d"
  define D where "D = recovery_step d"
  have d: "config_ok p d" by (rule assert_config_ok [OF assms(1)])
  then have N: "1 \<le> N" and D: "1 \<le> D" by (simp_all add: N_def D_def config_ok_def)
  have c0: "0 \<le> recovery_credits m" and le: "memory_aimd_limit m \<le> p"
    using Cons.prems(1) by (simp_all add: memory_ok_def counter_ok_def)
  have n: "n = snd (sampled_memory d p (rd_time r) (utilisation r) m)"
    unfolding n_def by (rule reading_step) (use Cons.prems assms in simp_all)
  have u: "utilisation r \<le> low_watermark_ratio d" using Cons.prems by simp
  note step = low_step [OF d Cons.prems(1,2) u Cons.prems(3), where t = "rd_time r", folded n N_def D_def]
  have ok: "memory_ok p n" unfolding n_def by (rule watermark_step_ok [OF Cons.prems(1) p])
  have order: "readings_in_order p (last_sampled_at n) rs" using Cons.prems(4) by (simp add: n)
  have small: "recovery_credits n < N" if "memory_aimd_limit n < p"
  proof -
    have "memory_aimd_limit m < p" using that step(2) D by (auto split: if_splits)
    then show ?thesis using step(3) Cons.prems(3) N by (auto simp: N_def split: if_splits)
  qed
  have run: "memory_aimd_limit (watermark_run dtoa p (map (reading_op c) (r # rs)) m) =
    (if memory_aimd_limit n < p then min p (memory_aimd_limit n + D * ((recovery_credits n + int (length rs)) div N)) else p)"
    using Cons.IH [OF ok step(1) small [unfolded N_def] order] Cons.prems(5)
    by (simp add: watermark_run_def n_def N_def D_def)
  show ?case
  proof (cases "memory_aimd_limit m < p")
    case False
    then have "\<not> memory_aimd_limit n < p" using step(2) le by simp
    then show ?thesis unfolding run using False by simp
  next
    case below: True
    show ?thesis
    proof (cases "recovery_credits m + 1 = N")
      case False
      then have "memory_aimd_limit n = memory_aimd_limit m" "recovery_credits n = recovery_credits m + 1"
        using step(2,3) below by simp_all
      then show ?thesis unfolding run using below by (simp add: N_def D_def ac_simps)
    next
      case True
      then have l: "memory_aimd_limit n = min p (memory_aimd_limit m + D)" and k: "recovery_credits n = 0"
        using step(2,3) below by simp_all
      have "(recovery_credits m + int (length (r # rs))) div N = (N + int (length rs)) div N"
        using True by (intro arg_cong [where f = "\<lambda>x. x div N"]) simp
      also have "\<dots> = 1 + int (length rs) div N" using N by simp
      finally have count: "(recovery_credits m + int (length (r # rs))) div N = 1 + int (length rs) div N" .
      have "0 \<le> D * (int (length rs) div N)" using D N by (simp add: pos_imp_zdiv_nonneg_iff)
      then show ?thesis unfolding run count [unfolded N_def] using below
        by (simp add: l k N_def D_def algebra_simps)
    qed
  qed
qed

lemma high_step:
  assumes "frozen_memory m = None" and "high_watermark_ratio d \<le> u"
  shows "frozen_memory (snd (sampled_memory d p t u m)) = None"
    and "memory_aimd_limit (snd (sampled_memory d p t u m)) =
      max (min_memory_aimd_limit d) \<lfloor>of_int (memory_aimd_limit m) * reduction_factor d\<rfloor>"
  using assms by (simp_all add: sampled_memory_def high_watermark_memory_def)

lemma high_run:
  assumes "assert_watermark_config c p = Inr d" and p: "1 \<le> p" "p \<le> max_safe"
  shows "memory_ok p m \<Longrightarrow> frozen_memory m = None \<Longrightarrow> readings_in_order p (last_sampled_at m) rs
    \<Longrightarrow> list_all (\<lambda>r. high_watermark_ratio d \<le> utilisation r) rs
    \<Longrightarrow> of_int (memory_aimd_limit (watermark_run dtoa p (map (reading_op c) rs) m)) \<le>
      max (of_int (min_memory_aimd_limit d)) (of_int (memory_aimd_limit m) * reduction_factor d ^ length rs)"
proof (induction rs arbitrary: m)
  case Nil
  then show ?case by (simp add: watermark_run_def)
next
  case (Cons r rs)
  define n where "n = watermark_step dtoa p m (reading_op c r)"
  have d: "config_ok p d" by (rule assert_config_ok [OF assms(1)])
  have f: "0 \<le> reduction_factor d" "reduction_factor d \<le> 1" and least: "0 \<le> min_memory_aimd_limit d"
    using d by (simp_all add: config_ok_def)
  have n: "n = snd (sampled_memory d p (rd_time r) (utilisation r) m)"
    unfolding n_def by (rule reading_step) (use Cons.prems assms in simp_all)
  have u: "high_watermark_ratio d \<le> utilisation r" using Cons.prems by simp
  note step = high_step [OF Cons.prems(2) u, where t = "rd_time r" and p = p, folded n]
  have ok: "memory_ok p n" unfolding n_def by (rule watermark_step_ok [OF Cons.prems(1) p])
  have order: "readings_in_order p (last_sampled_at n) rs" using Cons.prems(3) by (simp add: n)
  define b where "b = (of_int (min_memory_aimd_limit d) :: rat)"
  define x where "x = (of_int (memory_aimd_limit m) :: rat)"
  define g where "g = reduction_factor d ^ length rs"
  have g: "0 \<le> g" "g \<le> 1" using f by (simp_all add: g_def power_le_one)
  have "of_int (memory_aimd_limit n) \<le> max b (x * reduction_factor d)"
    unfolding step(2) b_def x_def of_int_max by (intro max.mono order_refl of_int_floor_le)
  then have "of_int (memory_aimd_limit n) * g \<le> max b (x * reduction_factor d) * g"
    using g(1) by (rule mult_right_mono)
  also have "\<dots> = max (b * g) (x * reduction_factor d * g)" using g by (simp add: max_mult_distrib_right)
  also have "\<dots> \<le> max b (x * reduction_factor d * g)"
    using g least by (intro max.mono) (simp_all add: b_def mult_left_le)
  finally have bound: "of_int (memory_aimd_limit n) * g \<le> max b (x * (reduction_factor d * g))" by (simp add: mult.assoc)
  have "of_int (memory_aimd_limit (watermark_run dtoa p (map (reading_op c) rs) n)) \<le> max b (of_int (memory_aimd_limit n) * g)"
    using Cons.IH [OF ok step(1) order] Cons.prems(4) by (simp add: b_def g_def)
  also have "\<dots> \<le> max b (x * (reduction_factor d * g))" using bound by simp
  finally show ?case by (simp add: watermark_run_def n_def b_def x_def g_def)
qed

section \<open>The properties\<close>

text \<open>C31: Whatever calls follow on a restored state, the state they leave is accepted and returned unchanged when it is stored and restored.\<close>

theorem watermark_state_round_trip:
  assumes "restore_memory_state stored (raw_int p) = Inr m0"
  shows "restore_memory_state (raw_memory_of (watermark_run dtoa p ops m0)) (raw_int p) = Inr (watermark_run dtoa p ops m0)"
  using restored_ok [OF assms] by (intro restore_raw watermark_run_ok)

theorem watermark_state_round_trip_witness:
  "restore_memory_state (raw_memory_of (watermark_run demo_dtoa 4 [demo_reading 5 90, demo_failure, demo_reading 7 20] demo_memory))
     (raw_int 4) = Inr (watermark_run demo_dtoa 4 [demo_reading 5 90, demo_failure, demo_reading 7 20] demo_memory)"
proof (rule watermark_state_round_trip)
  show "restore_memory_state (raw_memory_of demo_memory) (raw_int 4) = Inr demo_memory"
    by (rule restore_raw) (simp_all add: demo_memory_def ok_defs max_safe_def)
qed

text \<open>C32: A frozen limit of a run from a new state is 0 and permits no grant, and only a clear with the hash of the frozen evidence and a non-blank acknowledgement ends the freeze, which leaves the limit at 0.\<close>

theorem frozen_limit_stays_shut:
  assumes "create_initial_memory_state limit = Inr m0" and "memory_aimd_limit m0 \<le> p" and "1 \<le> p" and "p \<le> max_safe"
    and "frozen_memory (watermark_run dtoa p ops m0) = Some f"
    and "watermark_call dtoa p (watermark_run dtoa p ops m0) op = Inr t"
  shows "memory_aimd_limit (next_memory t) = 0 \<and> \<not> permit_new_grant (grant_of t)
    \<and> (frozen_memory (next_memory t) \<noteq> None \<or>
       (case op of ClearFreeze w ack hash clock \<Rightarrow> hash = frozen_evidence_hash f \<and> trim ack \<noteq> [] | _ \<Rightarrow> False))"
proof -
  have "memory_ok p m0" "shut_when_frozen m0"
    using assms(1,2) by (auto simp: create_initial_memory_state_def result_simps assert_range_Inr ok_defs shut_when_frozen_def)
  then show ?thesis
    by (intro frozen_call [OF _ assms(3,4) _ assms(5,6)] watermark_run_ok [OF _ assms(3,4)] watermark_run_shut [OF _ assms(3,4)])
qed

theorem frozen_limit_stays_shut_witness:
  "\<exists>t f. watermark_call demo_dtoa 4 (watermark_run demo_dtoa 4 [demo_failure] demo_memory) (demo_reading 7 20) = Inr t
     \<and> frozen_memory (watermark_run demo_dtoa 4 [demo_failure] demo_memory) = Some f
     \<and> memory_aimd_limit (next_memory t) = 0 \<and> \<not> permit_new_grant (grant_of t) \<and> frozen_memory (next_memory t) \<noteq> None"
proof -
  define m where "m = watermark_run demo_dtoa 4 [demo_failure] demo_memory"
  have new: "create_initial_memory_state (Fin 3) = Inr demo_memory"
    using safe_integer_of_int [of 3]
    by (simp add: create_initial_memory_state_def assert_safe_integer_in_range_def max_safe_def demo_memory_def)
  have control: "control_valid 4 demo_control" by code_simp
  obtain d where d: "assert_watermark_config demo_config 4 = Inr d"
    by (cases "assert_watermark_config demo_config 4") (use demo_config_accepted in simp_all)
  have start: "memory_ok 4 demo_memory" by (simp add: demo_memory_def ok_defs max_safe_def)
  have four: "(1::int) \<le> 4" "4 \<le> max_safe" by (simp_all add: max_safe_def)
  obtain s where "watermark_call demo_dtoa 4 demo_memory demo_failure = Inr (observe_checked demo_dtoa s d None None)"
    using observation_returns [OF start four control d, of demo_dtoa None None] unfolding demo_failure_def by blast
  then have "frozen_memory m \<noteq> None"
    by (simp add: m_def watermark_run_def watermark_step_def observe_checked_def fail_closed_memory)
  then obtain f where f: "frozen_memory m = Some f" by blast
  have ok: "memory_ok 4 m" unfolding m_def by (rule watermark_run_ok [OF start four])
  obtain t where t: "watermark_call demo_dtoa 4 m (demo_reading 7 20) = Inr t"
    using observation_returns [OF ok four control d] unfolding demo_reading_def by blast
  have "memory_aimd_limit demo_memory \<le> 4" by (simp add: demo_memory_def)
  from frozen_limit_stays_shut [OF new this four f [unfolded m_def] t [unfolded m_def]] t f show ?thesis
    unfolding m_def by (auto simp: demo_reading_def)
qed

text \<open>C33: As long as every reading is at or below the low watermark, the limit is what it was plus one step per full round of the required samples, up to the physical maximum.\<close>

theorem low_readings_restore_the_limit:
  assumes "restore_memory_state stored (raw_int p) = Inr m" and "frozen_memory m = None"
    and "assert_watermark_config c p = Inr d" and "recovery_credits m < low_water_recovery_samples d"
    and "readings_in_order p (last_sampled_at m) rs" and "list_all (\<lambda>r. utilisation r \<le> low_watermark_ratio d) rs"
  shows "memory_aimd_limit (watermark_run dtoa p (map (reading_op c) rs) m) =
    min p (memory_aimd_limit m + recovery_step d * ((recovery_credits m + int (length rs)) div low_water_recovery_samples d))"
proof -
  note ok = restored_ok [OF assms(1)]
  have "0 \<le> recovery_step d * ((recovery_credits m + int (length rs)) div low_water_recovery_samples d)"
    using assert_config_ok [OF assms(3)] ok(3)
    by (simp add: config_ok_def memory_ok_def counter_ok_def pos_imp_zdiv_nonneg_iff)
  then show ?thesis
    using low_run [OF assms(3) ok assms(2,4,5,6)] ok(3) by (auto simp: memory_ok_def)
qed

theorem low_readings_restore_the_limit_witness:
  "memory_aimd_limit (watermark_run demo_dtoa 4 (map (reading_op demo_config) (map demo_rested [1, 2, 2, 5, 9])) (demo_memory\<lparr>memory_aimd_limit := 1\<rparr>)) = 3"
proof -
  let ?m = "demo_memory\<lparr>memory_aimd_limit := 1\<rparr>"
  have "memory_aimd_limit (watermark_run demo_dtoa 4 (map (reading_op demo_config) (map demo_rested [1, 2, 2, 5, 9])) ?m) =
    min 4 (memory_aimd_limit ?m + recovery_step demo_limits * ((recovery_credits ?m + int (length (map demo_rested [1, 2, 2, 5, 9])))
      div low_water_recovery_samples demo_limits))"
  proof (rule low_readings_restore_the_limit)
    show "restore_memory_state (raw_memory_of ?m) (raw_int 4) = Inr ?m"
      by (rule restore_raw) (simp_all add: demo_memory_def ok_defs max_safe_def)
    show "readings_in_order 4 (last_sampled_at ?m) (map demo_rested [1, 2, 2, 5, 9])" by code_simp
    show "list_all (\<lambda>r. utilisation r \<le> low_watermark_ratio demo_limits) (map demo_rested [1, 2, 2, 5, 9])" by code_simp
  qed (simp_all add: demo_config_accepted demo_memory_def demo_limits_def)
  then show ?thesis by (simp add: demo_memory_def demo_limits_def)
qed

text \<open>Under readings at or above the high watermark the limit falls below the geometric bound, or to the configured minimum.\<close>

theorem pressure_lowers_the_limit:
  assumes "restore_memory_state stored (raw_int p) = Inr m" and "frozen_memory m = None"
    and "assert_watermark_config c p = Inr d"
    and "readings_in_order p (last_sampled_at m) rs" and "list_all (\<lambda>r. high_watermark_ratio d \<le> utilisation r) rs"
  shows "of_int (memory_aimd_limit (watermark_run dtoa p (map (reading_op c) rs) m)) \<le>
    max (of_int (min_memory_aimd_limit d)) (of_int (memory_aimd_limit m) * reduction_factor d ^ length rs)"
  by (rule high_run [OF assms(3) restored_ok [OF assms(1)] assms(2,4,5)])

theorem pressure_lowers_the_limit_witness:
  "of_int (memory_aimd_limit (watermark_run demo_dtoa 4 (map (reading_op demo_config) (map demo_pressed [1, 2, 2])) demo_memory)) \<le> (1 :: rat)"
proof -
  have "of_int (memory_aimd_limit (watermark_run demo_dtoa 4 (map (reading_op demo_config) (map demo_pressed [1, 2, 2])) demo_memory)) \<le>
    max (of_int (min_memory_aimd_limit demo_limits)) (of_int (memory_aimd_limit demo_memory) * reduction_factor demo_limits ^ length (map demo_pressed [1, 2, 2]))"
  proof (rule pressure_lowers_the_limit)
    show "restore_memory_state (raw_memory_of demo_memory) (raw_int 4) = Inr demo_memory"
      by (rule restore_raw) (simp_all add: demo_memory_def ok_defs max_safe_def)
    show "readings_in_order 4 (last_sampled_at demo_memory) (map demo_pressed [1, 2, 2])" by code_simp
    show "list_all (\<lambda>r. high_watermark_ratio demo_limits \<le> utilisation r) (map demo_pressed [1, 2, 2])" by code_simp
  qed (simp_all add: demo_config_accepted demo_memory_def)
  then show ?thesis by (simp add: demo_memory_def demo_limits_def power3_eq_cube)
qed

text \<open>Evidence texts that differ in exactly one character have different evidence hashes.\<close>

theorem evidence_hash_sees_one_character:
  assumes "join_parts ps = before @ c # after" and "join_parts qs = before @ d # after" and "c \<noteq> d"
  shows "hash_evidence ps \<noteq> hash_evidence qs"
  using assms by (simp add: hash_evidence_eq fnv1a64_single_change)

theorem evidence_hash_sees_one_character_witness:
  "hash_evidence [''failure'', ''7''] \<noteq> hash_evidence [''failure'', ''8'']"
  by (rule evidence_hash_sees_one_character [of _ "''failure|''" "CHR ''7''" "[]" _ "CHR ''8''"]) simp_all

text \<open>
  With a positive minimum a sample of high pressure raises a limit of 0, which a cleared freeze leaves: the new
  limit is the maximum of the minimum and the reduced limit.
\<close>

theorem pressure_raises_a_cleared_limit:
  "case sampled_memory demo_limits 4 9 (95 / 100) (demo_memory\<lparr>memory_aimd_limit := 0\<rparr>) of
     (reason, n) \<Rightarrow> reason = HighWatermark \<and> memory_aimd_limit n = 1"
  by (simp add: sampled_memory_def high_watermark_memory_def demo_memory_def demo_limits_def)

end
