(* ===== verification/MemoryQuery.thy ===== *)
theory MemoryQuery
  imports ToolkitBase
begin

text \<open>
  The parser of memory queries (\<open>src/mcps/memory-store/src/query-parser.ts\<close>): a query with inline operators
  and structured tiers becomes three buckets of weighted terms.

  The parser indexes a string by UTF-16 code units, so a text is a list of integers from 0 to 65535 here. The loops
  over an index are recursions over the rest of the text. \<open>lower\<close> stands for \<open>toLowerCase\<close>, whose tables are
  data of the runtime. Weights are exact rationals; structured weights come from JSON, where numbers are finite.
  A message about a conflict is reduced to the values it reports.
\<close>

type_synonym wide = "int list"

definition units :: "string \<Rightarrow> wide" where
  "units s = map of_char s"

section \<open>Characters\<close>

text \<open>The characters of \<open>\s\<close> in a regular expression, which are those of \<open>trim\<close> and of \<open>Number\<close>.\<close>

definition is_space :: "int \<Rightarrow> bool" where
  "is_space c \<longleftrightarrow> 9 \<le> c \<and> c \<le> 13 \<or> c = 32 \<or> c = 160 \<or> c = 5760 \<or> 8192 \<le> c \<and> c \<le> 8202
     \<or> c = 8232 \<or> c = 8233 \<or> c = 8239 \<or> c = 8287 \<or> c = 12288 \<or> c = 65279"

definition trim_text :: "wide \<Rightarrow> wide" where
  "trim_text s = rev (dropWhile is_space (rev (dropWhile is_space s)))"

text \<open>\<open>split(/\s+/).filter(t => t.length > 0)\<close>: the maximal runs of other characters.\<close>

function split_words :: "wide \<Rightarrow> wide list" where
  "split_words s =
     (case dropWhile is_space s of
        [] \<Rightarrow> []
      | c # cs \<Rightarrow> (c # takeWhile (\<lambda>x. \<not> is_space x) cs) # split_words (dropWhile (\<lambda>x. \<not> is_space x) cs))"
  by pat_completeness auto
termination
proof (relation "measure length")
  fix s :: wide and c cs
  assume s: "dropWhile is_space s = c # cs"
  have "length (dropWhile (\<lambda>x. \<not> is_space x) cs) \<le> length cs" by (rule length_dropWhile_le)
  also have "\<dots> < length (dropWhile is_space s)" by (simp add: s)
  also have "\<dots> \<le> length s" by (rule length_dropWhile_le)
  finally show "(dropWhile (\<lambda>x. \<not> is_space x) cs, s) \<in> measure length" by simp
qed simp

declare split_words.simps [simp del]

definition QUOTE :: int where "QUOTE = 34"
definition BACKSLASH :: int where "BACKSLASH = 92"
definition PLUS :: int where "PLUS = 43"
definition MINUS :: int where "MINUS = 45"
definition CARET :: int where "CARET = 94"

text \<open>The sentinel before a character that was escaped.\<close>

definition NUL_SENTINEL :: int where "NUL_SENTINEL = 0"

lemmas char_codes = QUOTE_def BACKSLASH_def PLUS_def MINUS_def CARET_def NUL_SENTINEL_def

definition is_cjk :: "int \<Rightarrow> bool" where
  "is_cjk c \<longleftrightarrow> 0x4E00 \<le> c \<and> c \<le> 0x9FFF \<or> 0x3400 \<le> c \<and> c \<le> 0x4DBF \<or> 0xF900 \<le> c \<and> c \<le> 0xFAFF"

section \<open>Numbers in a text\<close>

definition is_digit :: "int \<Rightarrow> bool" where
  "is_digit c \<longleftrightarrow> 48 \<le> c \<and> c \<le> 57"

text \<open>The value of a letter or digit in a radix up to 16.\<close>

definition digit_value :: "int \<Rightarrow> int option" where
  "digit_value c = (if is_digit c then Some (c - 48)
     else if 97 \<le> c \<and> c \<le> 102 then Some (c - 87)
     else if 65 \<le> c \<and> c \<le> 70 then Some (c - 55) else None)"

fun radix_value :: "int \<Rightarrow> int \<Rightarrow> wide \<Rightarrow> int option" where
  "radix_value radix acc [] = Some acc"
| "radix_value radix acc (c # cs) =
     (case digit_value c of
        None \<Rightarrow> None
      | Some d \<Rightarrow> if d < radix then radix_value radix (radix * acc + d) cs else None)"

definition power_of_ten :: "int \<Rightarrow> rat" where
  "power_of_ten e = (if e \<ge> 0 then 10 ^ nat e else 1 / 10 ^ nat (- e))"

text \<open>The exponent after the mantissa: nothing, or \<open>e\<close> with at least one digit.\<close>

definition exponent_value :: "wide \<Rightarrow> int option" where
  "exponent_value s =
     (case s of
        [] \<Rightarrow> Some 0
      | c # cs \<Rightarrow>
          if c = 101 \<or> c = 69 then
            (let negative = (case cs of d # _ \<Rightarrow> d = MINUS | [] \<Rightarrow> False);
                 ds = (case cs of d # r \<Rightarrow> if d = PLUS \<or> d = MINUS then r else cs | [] \<Rightarrow> cs)
             in if ds = [] \<or> \<not> list_all is_digit ds then None
                else map_option (\<lambda>n. if negative then - n else n) (radix_value 10 0 ds))
          else None)"

text \<open>Digits with an optional fraction and exponent; the sign has been read.\<close>

definition decimal_value :: "wide \<Rightarrow> rat option" where
  "decimal_value s =
     (let whole = takeWhile is_digit s;
          rest = dropWhile is_digit s;
          point = (case rest of c # _ \<Rightarrow> c = 46 | [] \<Rightarrow> False);
          fraction = (if point then takeWhile is_digit (tl rest) else []);
          tail = (if point then dropWhile is_digit (tl rest) else rest)
      in if whole = [] \<and> fraction = [] then None
         else case (radix_value 10 0 (whole @ fraction), exponent_value tail) of
                (Some n, Some e) \<Rightarrow> Some (of_int n * power_of_ten (e - int (length fraction)))
              | _ \<Rightarrow> None)"

text \<open>From here on a number rounds to \<open>Infinity\<close>.\<close>

definition overflow_threshold :: rat where
  "overflow_threshold = 2 ^ 1024 - 2 ^ 970"

text \<open>\<open>Number(s)\<close>, if it is finite.\<close>

definition finite_number_of :: "wide \<Rightarrow> rat option" where
  "finite_number_of s =
     (let t = trim_text s;
          v = (case t of
                 [] \<Rightarrow> Some 0
               | [c] \<Rightarrow> decimal_value t
               | c # d # ds \<Rightarrow>
                   if c = 48 \<and> (d = 120 \<or> d = 88)
                   then (if ds = [] then None else map_option of_int (radix_value 16 0 ds))
                   else if c = 48 \<and> (d = 111 \<or> d = 79)
                   then (if ds = [] then None else map_option of_int (radix_value 8 0 ds))
                   else if c = 48 \<and> (d = 98 \<or> d = 66)
                   then (if ds = [] then None else map_option of_int (radix_value 2 0 ds))
                   else if c = PLUS then decimal_value (d # ds)
                   else if c = MINUS then map_option uminus (decimal_value (d # ds))
                   else decimal_value t)
      in case v of
           None \<Rightarrow> None
         | Some q \<Rightarrow> if \<bar>q\<bar> < overflow_threshold then Some q else None)"

text \<open>\<open>/^\d+(?:\.\d+)?$/\<close>\<close>

definition plain_decimal :: "wide \<Rightarrow> bool" where
  "plain_decimal s =
     (let rest = dropWhile is_digit s
      in takeWhile is_digit s \<noteq> [] \<and>
         (rest = [] \<or> (hd rest = 46 \<and> tl rest \<noteq> [] \<and> list_all is_digit (tl rest))))"

section \<open>Terms\<close>

datatype tier = High | Med | Low

datatype occur = Must | Should | MustNot

record query_term =
  term_raw :: wide
  term_tokens :: "wide list"
  term_occur :: occur
  term_tier :: tier
  term_weight :: rat
  term_phrase :: bool

text \<open>
  \<open>tierConflict\<close>: a word both required and excluded, or one whose two buckets disagree, with the bucket that
  was there, the new one and the one taken.
\<close>

datatype conflict = MustAndMustNot wide | BucketConflict wide occur occur occur

record parsed_query =
  pq_must :: "query_term list"
  pq_should :: "query_term list"
  pq_mustNot :: "query_term list"
  pq_isPlain :: bool
  pq_rawWords :: "wide list"
  pq_tierConflict :: "conflict list option"

record tier_input =
  ti_high :: "wide list option"
  ti_med :: "wide list option"
  ti_low :: "wide list option"
  ti_required :: "wide list option"
  ti_exclude :: "wide list option"

record tier_weights =
  tw_high :: "rat option"
  tw_med :: "rat option"
  tw_low :: "rat option"

record parse_options =
  po_tiers :: "tier_input option"
  po_tierWeights :: "tier_weights option"
  po_parseInline :: "bool option"

text \<open>The variables \<open>MEMORY_STORE_TIER_WEIGHT_...\<close> of the process, read when the module is loaded.\<close>

record weight_env =
  env_high :: "wide option"
  env_med :: "wide option"
  env_low :: "wide option"

definition num_env :: "wide option \<Rightarrow> rat \<Rightarrow> rat" where
  "num_env raw def =
     (case raw of
        None \<Rightarrow> def
      | Some s \<Rightarrow> if s = [] then def else (case finite_number_of s of None \<Rightarrow> def | Some v \<Rightarrow> v))"

definition TIER_WEIGHT_HIGH :: "weight_env \<Rightarrow> rat" where
  "TIER_WEIGHT_HIGH e = num_env (env_high e) 2"

definition TIER_WEIGHT_MED :: "weight_env \<Rightarrow> rat" where
  "TIER_WEIGHT_MED e = num_env (env_med e) 1"

definition TIER_WEIGHT_LOW :: "weight_env \<Rightarrow> rat" where
  "TIER_WEIGHT_LOW e = num_env (env_low e) (3 / 10)"

fun override_of :: "(tier_weights \<Rightarrow> rat option) \<Rightarrow> tier_weights option \<Rightarrow> rat \<Rightarrow> rat" where
  "override_of field None fallback = fallback"
| "override_of field (Some w) fallback = (case field w of None \<Rightarrow> fallback | Some v \<Rightarrow> v)"

fun tier_default_weight :: "weight_env \<Rightarrow> tier \<Rightarrow> tier_weights option \<Rightarrow> rat" where
  "tier_default_weight e High w = override_of tw_high w (TIER_WEIGHT_HIGH e)"
| "tier_default_weight e Low w = override_of tw_low w (TIER_WEIGHT_LOW e)"
| "tier_default_weight e Med w = override_of tw_med w (TIER_WEIGHT_MED e)"

section \<open>Tokens of a word\<close>

fun bigrams :: "wide \<Rightarrow> wide list" where
  "bigrams (a # b # cs) = [a, b] # bigrams (b # cs)"
| "bigrams _ = []"

definition expand_word_tokens :: "(wide \<Rightarrow> wide) \<Rightarrow> wide \<Rightarrow> wide list" where
  "expand_word_tokens lower raw =
     (let word = lower raw
      in unique_list (filter (\<lambda>t. t \<noteq> [])
           (word # (if length word > 2 \<and> list_ex is_cjk word then bigrams word else []))))"

definition expand_phrase_tokens :: "(wide \<Rightarrow> wide) \<Rightarrow> wide \<Rightarrow> wide list" where
  "expand_phrase_tokens lower phrase =
     unique_list (concat (map (expand_word_tokens lower) (split_words (lower phrase))))"

section \<open>Raw tokens\<close>

record raw_token =
  rt_text :: wide
  rt_quoted :: bool
  rt_phraseOccur :: "occur option"
  rt_phraseCaret :: "wide option"

text \<open>After the opening quote: the unescaped text and what follows the closing quote.\<close>

fun read_quoted_phrase :: "wide \<Rightarrow> wide \<times> wide" where
  "read_quoted_phrase [] = ([], [])"
| "read_quoted_phrase (c # cs) =
     (if c = QUOTE then ([], cs)
      else if c = BACKSLASH \<and> cs \<noteq> []
      then (let (t, r) = read_quoted_phrase (tl cs) in (hd cs # t, r))
      else (let (t, r) = read_quoted_phrase cs in (c # t, r)))"

text \<open>After the closing quote: a weight directly behind it, and the rest.\<close>

definition attach_phrase_caret :: "wide \<Rightarrow> wide option \<times> wide" where
  "attach_phrase_caret s =
     (case s of
        c # cs \<Rightarrow>
          if c = CARET then
            (let inside = (\<lambda>x. \<not> is_space x \<and> x \<noteq> QUOTE); suffix = takeWhile inside cs
             in if suffix \<noteq> [] then (Some suffix, dropWhile inside cs) else (None, s))
          else (None, s)
      | [] \<Rightarrow> (None, s))"

text \<open>A word up to the next white space, with the sentinel before every escaped character.\<close>

fun read_word :: "wide \<Rightarrow> wide \<times> wide" where
  "read_word [] = ([], [])"
| "read_word (c # cs) =
     (if is_space c then ([], c # cs)
      else if c = BACKSLASH \<and> cs \<noteq> []
      then (let (w, r) = read_word (tl cs) in (NUL_SENTINEL # hd cs # w, r))
      else (let (w, r) = read_word cs in (c # w, r)))"

definition phrase_token :: "wide \<Rightarrow> occur option \<Rightarrow> wide option \<Rightarrow> raw_token" where
  "phrase_token t oc caret = \<lparr>rt_text = t, rt_quoted = True, rt_phraseOccur = oc, rt_phraseCaret = caret\<rparr>"

definition word_token :: "wide \<Rightarrow> raw_token" where
  "word_token t = \<lparr>rt_text = t, rt_quoted = False, rt_phraseOccur = None, rt_phraseCaret = None\<rparr>"

text \<open>The text of a phrase, its weight and the rest, from after the opening quote.\<close>

definition read_phrase :: "occur option \<Rightarrow> wide \<Rightarrow> raw_token \<times> wide" where
  "read_phrase oc s =
     (let (t, r) = read_quoted_phrase s; (caret, r') = attach_phrase_caret r
      in (phrase_token t oc caret, r'))"

text \<open>One token from a text that starts with no white space.\<close>

definition read_token :: "int \<Rightarrow> wide \<Rightarrow> raw_token \<times> wide" where
  "read_token c cs =
     (if (c = PLUS \<or> c = MINUS \<or> c = CARET) \<and> cs \<noteq> [] \<and> hd cs = QUOTE
      then read_phrase (if c = PLUS then Some Must else if c = MINUS then Some MustNot else None) (tl cs)
      else if c = QUOTE then read_phrase None cs
      else (let (w, r) = read_word (c # cs) in (word_token w, r)))"

lemma read_quoted_phrase_length: "length (snd (read_quoted_phrase s)) \<le> length s"
proof (induction s rule: read_quoted_phrase.induct)
  case (2 c cs)
  have "length (snd (read_quoted_phrase (tl cs))) \<le> length cs" if "c \<noteq> QUOTE" "c = BACKSLASH \<and> cs \<noteq> []"
    using "2.IH"(1) [OF that] by simp
  then show ?case using "2.IH"(2) by (auto simp: case_prod_beta le_SucI)
qed simp

lemma attach_phrase_caret_length: "length (snd (attach_phrase_caret s)) \<le> length s"
  by (cases s) (auto simp: attach_phrase_caret_def Let_def le_SucI length_dropWhile_le)

lemma read_phrase_length: "length (snd (read_phrase oc s)) \<le> length s"
  using read_quoted_phrase_length [of s] attach_phrase_caret_length [of "snd (read_quoted_phrase s)"]
  by (simp add: read_phrase_def Let_def case_prod_beta)

lemma read_word_length: "length (snd (read_word s)) \<le> length s"
proof (induction s rule: read_word.induct)
  case (2 c cs)
  have "length (snd (read_word (tl cs))) \<le> length cs" if "\<not> is_space c" "c = BACKSLASH \<and> cs \<noteq> []"
    using "2.IH"(1) [OF that] by simp
  then show ?case using "2.IH"(2) by (auto simp: case_prod_beta le_SucI)
qed simp

lemma read_word_Cons_length:
  assumes "\<not> is_space c"
  shows "length (snd (read_word (c # cs))) \<le> length cs"
  using assms read_word_length [of "tl cs"] read_word_length [of cs] by (auto simp: case_prod_beta)

lemma read_token_length:
  assumes "\<not> is_space c"
  shows "length (snd (read_token c cs)) \<le> length cs"
proof -
  have "length (snd (read_phrase oc (tl cs))) \<le> length cs" for oc
    using read_phrase_length [of oc "tl cs"] by simp
  then show ?thesis
    using read_word_Cons_length [OF assms, of cs] read_phrase_length [of None cs]
    unfolding read_token_def case_prod_beta Let_def by (cases cs) (auto simp del: read_word.simps)
qed

function tokenize_raw :: "wide \<Rightarrow> raw_token list" where
  "tokenize_raw s =
     (case dropWhile is_space s of
        [] \<Rightarrow> []
      | c # cs \<Rightarrow> fst (read_token c cs) # tokenize_raw (snd (read_token c cs)))"
  by pat_completeness auto
termination
proof (relation "measure length")
  fix s :: wide and c cs
  assume s: "dropWhile is_space s = c # cs"
  then have "\<not> is_space c" by (metis hd_dropWhile list.discI list.sel(1))
  then have "length (snd (read_token c cs)) < length (dropWhile is_space s)"
    using read_token_length [of c cs] by (simp add: s)
  also have "\<dots> \<le> length s" by (rule length_dropWhile_le)
  finally show "(snd (read_token c cs), s) \<in> measure length" by simp
qed simp

declare tokenize_raw.simps [simp del]

section \<open>Operators inside a word\<close>

definition strip_sentinels :: "wide \<Rightarrow> wide" where
  "strip_sentinels s = filter (\<lambda>c. c \<noteq> NUL_SENTINEL) s"

text \<open>The positions of the carets that were not escaped, in order.\<close>

definition unescaped_carets :: "wide \<Rightarrow> nat list" where
  "unescaped_carets s = filter (\<lambda>i. s ! i = CARET \<and> \<not> (0 < i \<and> s ! (i - 1) = NUL_SENTINEL)) [0..<length s]"

definition count_unescaped_caret :: "wide \<Rightarrow> nat" where
  "count_unescaped_caret s = length (unescaped_carets s)"

definition find_last_unescaped_caret :: "wide \<Rightarrow> nat option" where
  "find_last_unescaped_caret s = (case unescaped_carets s of [] \<Rightarrow> None | i # is \<Rightarrow> Some (last (i # is)))"

record caret_suffix =
  cs_tier :: tier
  cs_weight :: rat
  cs_numeric :: bool

definition parse_caret_suffix :: "weight_env \<Rightarrow> (wide \<Rightarrow> wide) \<Rightarrow> wide \<Rightarrow> caret_suffix option" where
  "parse_caret_suffix e lower suffix =
     (let low = lower suffix
      in if low = units ''high'' \<or> low = units ''h''
         then Some \<lparr>cs_tier = High, cs_weight = TIER_WEIGHT_HIGH e, cs_numeric = False\<rparr>
         else if low = units ''low'' \<or> low = units ''l''
         then Some \<lparr>cs_tier = Low, cs_weight = TIER_WEIGHT_LOW e, cs_numeric = False\<rparr>
         else if low = units ''med'' \<or> low = units ''m''
         then Some \<lparr>cs_tier = Med, cs_weight = TIER_WEIGHT_MED e, cs_numeric = False\<rparr>
         else if suffix = [] then None
         else case finite_number_of suffix of
                None \<Rightarrow> None
              | Some v \<Rightarrow> if v \<ge> 0 then Some \<lparr>cs_tier = Med, cs_weight = v, cs_numeric = True\<rparr> else None)"

record inline_token =
  it_occur :: occur
  it_tier :: tier
  it_explicitWeight :: "rat option"
  it_explicitNumeric :: bool
  it_body :: wide

text \<open>The prefix of a word, unless its first character was escaped.\<close>

definition inline_prefix :: "wide \<Rightarrow> occur \<times> wide" where
  "inline_prefix raw =
     (case raw of
        c # cs \<Rightarrow> if c = PLUS then (Must, cs) else if c = MINUS then (MustNot, cs) else (Should, raw)
      | [] \<Rightarrow> (Should, raw))"

definition parse_inline_token :: "weight_env \<Rightarrow> (wide \<Rightarrow> wide) \<Rightarrow> wide \<Rightarrow> inline_token" where
  "parse_inline_token e lower raw =
     (let (oc, s) = inline_prefix raw;
          plain = \<lparr>it_occur = oc, it_tier = Med, it_explicitWeight = None, it_explicitNumeric = False,
                   it_body = strip_sentinels s\<rparr>
      in case find_last_unescaped_caret s of
           None \<Rightarrow> plain
         | Some i \<Rightarrow>
             if oc \<noteq> Should then plain
             else
               (let suffix = strip_sentinels (drop (i + 1) s);
                    body = strip_sentinels (take i s)
                in case parse_caret_suffix e lower suffix of
                     None \<Rightarrow> plain
                   | Some p \<Rightarrow>
                       if body \<noteq> [] \<and> count_unescaped_caret s = 1
                          \<and> (\<not> cs_numeric p \<or> (\<not> plain_decimal body \<and> plain_decimal suffix))
                       then \<lparr>it_occur = oc, it_tier = cs_tier p, it_explicitWeight = Some (cs_weight p),
                             it_explicitNumeric = cs_numeric p, it_body = body\<rparr>
                       else plain))"

section \<open>Drafts\<close>

record draft =
  df_occur :: occur
  df_tier :: tier
  df_weight :: "rat option"
  df_numeric :: bool
  df_phrase :: bool

fun occur_rank :: "occur \<Rightarrow> int" where
  "occur_rank Must = 4"
| "occur_rank MustNot = 3"
| "occur_rank Should = 0"

fun tier_rank :: "tier \<Rightarrow> int" where
  "tier_rank High = 2"
| "tier_rank Med = 1"
| "tier_rank Low = 0"

fun weight_or :: "rat \<Rightarrow> rat option \<Rightarrow> rat" where
  "weight_or fallback None = fallback"
| "weight_or fallback (Some w) = w"

text \<open>The better of two drafts of the same bucket; \<open>d\<close> is the new one.\<close>

definition better_draft :: "draft \<Rightarrow> draft \<Rightarrow> draft" where
  "better_draft cur d =
     (if df_numeric d \<and> df_numeric cur
      then if weight_or 0 (df_weight d) \<ge> weight_or 0 (df_weight cur) then d else cur
      else if df_numeric d then d
      else if df_numeric cur then cur
      else if tier_rank (df_tier d) \<noteq> tier_rank (df_tier cur)
      then if tier_rank (df_tier d) > tier_rank (df_tier cur) then d else cur
      else if weight_or (-1) (df_weight d) \<ge> weight_or (-1) (df_weight cur) then d else cur)"

type_synonym collector = "(wide \<times> draft) list \<times> conflict list"

definition merge_draft :: "wide \<times> draft \<Rightarrow> collector \<Rightarrow> collector" where
  "merge_draft kd st =
     (let (key, d) = kd; (drafts, conflicts) = st
      in case map_of drafts key of
           None \<Rightarrow> (map_put key d drafts, conflicts)
         | Some cur \<Rightarrow>
             if df_occur cur \<noteq> df_occur d
             then
               (let winner = (if occur_rank (df_occur d) > occur_rank (df_occur cur) then d else cur);
                    c = (if df_occur cur = Must \<and> df_occur d = MustNot \<or> df_occur cur = MustNot \<and> df_occur d = Must
                         then MustAndMustNot key
                         else BucketConflict key (df_occur cur) (df_occur d) (df_occur winner))
                in (map_put key winner drafts, conflicts @ [c]))
             else (map_put key (better_draft cur d) drafts, conflicts))"

section \<open>What a query contributes\<close>

text \<open>The parts of a query call \<open>merge\<close> with a key and a draft; here they list these calls in order.\<close>

definition soft_draft :: "occur \<Rightarrow> tier \<Rightarrow> bool \<Rightarrow> draft" where
  "soft_draft oc t is_phrase = \<lparr>df_occur = oc, df_tier = t, df_weight = None, df_numeric = False, df_phrase = is_phrase\<rparr>"

definition body_of :: "weight_env \<Rightarrow> (wide \<Rightarrow> wide) \<Rightarrow> raw_token option \<Rightarrow> wide option" where
  "body_of e lower t =
     (case t of
        None \<Rightarrow> None
      | Some rt \<Rightarrow>
          (let b = lower (trim_text (if rt_quoted rt then rt_text rt else it_body (parse_inline_token e lower (rt_text rt))))
           in if b = [] then None else Some b))"

fun marked :: "wide option \<Rightarrow> occur \<Rightarrow> (wide \<times> draft) list" where
  "marked None oc = []"
| "marked (Some b) oc = [(b, soft_draft oc High False)]"

definition apply_reserved_word ::
  "weight_env \<Rightarrow> (wide \<Rightarrow> wide) \<Rightarrow> wide \<Rightarrow> raw_token option \<Rightarrow> raw_token option \<Rightarrow> (wide \<times> draft) list" where
  "apply_reserved_word e lower word prev follow =
     (if word = units ''AND''
      then marked (body_of e lower prev) Must @ marked (body_of e lower follow) Must
      else if word = units ''NOT'' then marked (body_of e lower follow) MustNot
      else [])"

definition is_reserved :: "wide \<Rightarrow> bool" where
  "is_reserved w \<longleftrightarrow> w = units ''AND'' \<or> w = units ''OR'' \<or> w = units ''NOT''"

definition phrase_draft :: "weight_env \<Rightarrow> (wide \<Rightarrow> wide) \<Rightarrow> raw_token \<Rightarrow> draft" where
  "phrase_draft e lower rt =
     (let oc = (case rt_phraseOccur rt of None \<Rightarrow> Should | Some oc \<Rightarrow> oc);
          caret = (if oc = Should then
                     (case rt_phraseCaret rt of None \<Rightarrow> None | Some c \<Rightarrow> parse_caret_suffix e lower c)
                   else None)
      in case caret of
           None \<Rightarrow> soft_draft oc Med True
         | Some p \<Rightarrow> \<lparr>df_occur = oc, df_tier = cs_tier p,
                      df_weight = (if cs_numeric p then Some (cs_weight p) else None),
                      df_numeric = cs_numeric p, df_phrase = True\<rparr>)"

definition inline_contribution ::
  "weight_env \<Rightarrow> (wide \<Rightarrow> wide) \<Rightarrow> raw_token option \<Rightarrow> raw_token \<Rightarrow> raw_token option \<Rightarrow> (wide \<times> draft) list" where
  "inline_contribution e lower prev rt follow =
     (if rt_quoted rt
      then (let body = trim_text (rt_text rt) in if body = [] then [] else [(lower body, phrase_draft e lower rt)])
      else if is_reserved (strip_sentinels (rt_text rt))
      then apply_reserved_word e lower (strip_sentinels (rt_text rt)) prev follow
      else (let p = parse_inline_token e lower (rt_text rt); body = trim_text (it_body p)
            in if body = [] then []
               else [(lower body, \<lparr>df_occur = it_occur p, df_tier = it_tier p,
                        df_weight = (if it_explicitNumeric p then it_explicitWeight p else None),
                        df_numeric = it_explicitNumeric p, df_phrase = False\<rparr>)]))"

fun inline_contributions ::
  "weight_env \<Rightarrow> (wide \<Rightarrow> wide) \<Rightarrow> raw_token option \<Rightarrow> raw_token list \<Rightarrow> (wide \<times> draft) list" where
  "inline_contributions e lower prev [] = []"
| "inline_contributions e lower prev (rt # rts) =
     inline_contribution e lower prev rt (case rts of [] \<Rightarrow> None | r # _ \<Rightarrow> Some r)
       @ inline_contributions e lower (Some rt) rts"

definition add_structured :: "(wide \<Rightarrow> wide) \<Rightarrow> occur \<Rightarrow> tier \<Rightarrow> wide \<Rightarrow> (wide \<times> draft) list" where
  "add_structured lower oc t word =
     (let key = lower (trim_text word)
      in if key = [] then [] else [(key, soft_draft oc t (list_ex is_space key))])"

fun given_words :: "wide list option \<Rightarrow> wide list" where
  "given_words None = []"
| "given_words (Some ws) = ws"

definition structured_contributions :: "(wide \<Rightarrow> wide) \<Rightarrow> tier_input option \<Rightarrow> (wide \<times> draft) list" where
  "structured_contributions lower tiers =
     (case tiers of
        None \<Rightarrow> []
      | Some t \<Rightarrow>
          concat (map (add_structured lower Must High) (given_words (ti_required t)))
          @ concat (map (add_structured lower MustNot High) (given_words (ti_exclude t)))
          @ concat (map (add_structured lower Should High) (given_words (ti_high t)))
          @ concat (map (add_structured lower Should Med) (given_words (ti_med t)))
          @ concat (map (add_structured lower Should Low) (given_words (ti_low t))))"

section \<open>The parser\<close>

definition raw_words :: "(wide \<Rightarrow> wide) \<Rightarrow> wide \<Rightarrow> wide list" where
  "raw_words lower query = split_words (lower query)"

definition text_contributions :: "weight_env \<Rightarrow> (wide \<Rightarrow> wide) \<Rightarrow> wide \<Rightarrow> parse_options \<Rightarrow> (wide \<times> draft) list" where
  "text_contributions e lower query opts =
     (if po_parseInline opts \<noteq> Some False
      then inline_contributions e lower None (tokenize_raw query)
      else map (\<lambda>w. (w, soft_draft Should Med False)) (raw_words lower query))"

definition collect_drafts :: "(wide \<times> draft) list \<Rightarrow> collector" where
  "collect_drafts kds = fold merge_draft kds ([], [])"

definition term_of_draft :: "weight_env \<Rightarrow> (wide \<Rightarrow> wide) \<Rightarrow> tier_weights option \<Rightarrow> wide \<times> draft \<Rightarrow> query_term" where
  "term_of_draft e lower weights kd =
     (let (key, d) = kd
      in \<lparr>term_raw = key,
          term_tokens = (if df_phrase d then expand_phrase_tokens lower key else expand_word_tokens lower key),
          term_occur = df_occur d, term_tier = df_tier d,
          term_weight = (case df_weight d of None \<Rightarrow> tier_default_weight e (df_tier d) weights | Some w \<Rightarrow> w),
          term_phrase = df_phrase d\<rparr>)"

definition has_structured :: "parse_options \<Rightarrow> bool" where
  "has_structured opts =
     (case po_tiers opts of
        None \<Rightarrow> False
      | Some t \<Rightarrow> list_ex (\<lambda>ws. given_words ws \<noteq> [])
          [ti_high t, ti_med t, ti_low t, ti_required t, ti_exclude t])"

definition has_tier_weights :: "parse_options \<Rightarrow> bool" where
  "has_tier_weights opts =
     (case po_tierWeights opts of
        None \<Rightarrow> False
      | Some w \<Rightarrow> tw_high w \<noteq> None \<or> tw_med w \<noteq> None \<or> tw_low w \<noteq> None)"

definition fallback_term :: "weight_env \<Rightarrow> (wide \<Rightarrow> wide) \<Rightarrow> tier_weights option \<Rightarrow> wide \<Rightarrow> query_term" where
  "fallback_term e lower weights w = term_of_draft e lower weights (w, soft_draft Should Med False)"

definition parse_query :: "weight_env \<Rightarrow> (wide \<Rightarrow> wide) \<Rightarrow> wide \<Rightarrow> parse_options \<Rightarrow> parsed_query" where
  "parse_query e lower query opts =
     (let words = raw_words lower query;
          (drafts, conflicts) =
            collect_drafts (text_contributions e lower query opts @ structured_contributions lower (po_tiers opts));
          terms = map (term_of_draft e lower (po_tierWeights opts)) drafts;
          must = filter (\<lambda>t. term_occur t = Must) terms;
          mustNot = filter (\<lambda>t. term_occur t = MustNot) terms;
          should = filter (\<lambda>t. term_occur t = Should) terms;
          operators = (must \<noteq> [] \<or> mustNot \<noteq> [] \<or>
            list_ex (\<lambda>t. term_phrase t \<or> term_weight t \<noteq> TIER_WEIGHT_MED e \<or> term_tier t \<noteq> Med) should);
          plain = (\<not> has_structured opts \<and> \<not> has_tier_weights opts \<and> \<not> operators \<and> should \<noteq> []);
          conflict = (if conflicts \<noteq> [] then Some conflicts else None)
      in if must = [] \<and> should = [] \<and> mustNot = []
         then \<lparr>pq_must = [], pq_should = map (fallback_term e lower (po_tierWeights opts)) words, pq_mustNot = [],
               pq_isPlain = (words \<noteq> [] \<and> \<not> has_structured opts \<and> \<not> has_tier_weights opts),
               pq_rawWords = words, pq_tierConflict = conflict\<rparr>
         else \<lparr>pq_must = must, pq_should = should, pq_mustNot = mustNot, pq_isPlain = plain,
               pq_rawWords = words, pq_tierConflict = conflict\<rparr>)"

definition should_tokens :: "parsed_query \<Rightarrow> wide list" where
  "should_tokens p = unique_list (concat (map term_tokens (pq_should p)))"

end
