(* ===== verification/MemoryQueryFacts.thy ===== *)
theory MemoryQueryFacts
  imports MemoryQuery
begin

text \<open>
  Facts about the query parser: how words and phrases are read, what a token contributes, and what the
  collector keeps of the contributions.
\<close>

section \<open>Words of a text\<close>

lemma split_words_Nil [simp]: "split_words [] = []"
  by (simp add: split_words.simps)

lemma split_words_space: "is_space c \<Longrightarrow> split_words (c # s) = split_words s"
  by (simp add: split_words.simps [of "c # s"] split_words.simps [of s])

lemma split_words_word: "\<not> is_space c \<Longrightarrow> split_words (c # s) =
    (c # takeWhile (\<lambda>x. \<not> is_space x) s) # split_words (dropWhile (\<lambda>x. \<not> is_space x) s)"
  by (simp add: split_words.simps [of "c # s"])

lemma split_words_stop: "dropWhile is_space s = [] \<Longrightarrow> split_words s = []"
  by (subst split_words.simps) (simp only: list.case)

lemma tokenize_raw_stop: "dropWhile is_space s = [] \<Longrightarrow> tokenize_raw s = []"
  by (subst tokenize_raw.simps) (simp only: list.case)

lemma words_have_no_space: "w \<in> set (split_words s) \<Longrightarrow> w \<noteq> [] \<and> (\<forall>c \<in> set w. \<not> is_space c)"
proof (induction s rule: split_words.induct)
  case (1 s)
  show ?case
  proof (cases "dropWhile is_space s")
    case Nil
    then show ?thesis using 1(2) by (simp only: split_words_stop list.set empty_iff)
  next
    case (Cons c cs)
    then have "\<not> is_space c" by (metis hd_dropWhile list.discI list.sel(1))
    then have first: "\<forall>x \<in> set (c # takeWhile (\<lambda>x. \<not> is_space x) cs). \<not> is_space x"
      by (metis set_ConsD set_takeWhileD)
    have "w = c # takeWhile (\<lambda>x. \<not> is_space x) cs \<or> w \<in> set (split_words (dropWhile (\<lambda>x. \<not> is_space x) cs))"
      using 1(2) by (subst (asm) split_words.simps) (simp add: Cons)
    then show ?thesis
    proof
      assume "w = c # takeWhile (\<lambda>x. \<not> is_space x) cs"
      then show ?thesis using first by blast
    next
      assume "w \<in> set (split_words (dropWhile (\<lambda>x. \<not> is_space x) cs))"
      then show ?thesis by (rule 1(1) [OF Cons])
    qed
  qed
qed

lemma trim_no_space: "\<forall>c \<in> set w. \<not> is_space c \<Longrightarrow> trim_text w = w"
proof -
  assume a: "\<forall>c \<in> set w. \<not> is_space c"
  have "dropWhile is_space v = v" if "\<forall>c \<in> set v. \<not> is_space c" for v
    using that by (cases v) simp_all
  from this [of w] this [of "rev w"] show ?thesis using a by (simp add: trim_text_def)
qed

lemma strip_sentinels_id: "NUL_SENTINEL \<notin> set s \<Longrightarrow> strip_sentinels s = s"
  by (induction s) (auto simp: strip_sentinels_def)

lemma strip_sentinels_append [simp]: "strip_sentinels (xs @ ys) = strip_sentinels xs @ strip_sentinels ys"
  by (simp add: strip_sentinels_def)

lemma read_word_plain:
  "BACKSLASH \<notin> set (takeWhile (\<lambda>x. \<not> is_space x) s)
   \<Longrightarrow> read_word s = (takeWhile (\<lambda>x. \<not> is_space x) s, dropWhile (\<lambda>x. \<not> is_space x) s)"
  by (induction s) (auto simp: Let_def split: prod.splits)

section \<open>Words without operators\<close>

definition plain_word :: "wide \<Rightarrow> bool" where
  "plain_word w \<longleftrightarrow> w \<noteq> [] \<and> hd w \<notin> {PLUS, MINUS, QUOTE} \<and> CARET \<notin> set w \<and> BACKSLASH \<notin> set w
     \<and> NUL_SENTINEL \<notin> set w \<and> \<not> is_reserved w"

lemma tokenize_plain:
  "list_all plain_word (split_words s) \<Longrightarrow> tokenize_raw s = map word_token (split_words s)"
proof (induction s rule: split_words.induct)
  case (1 s)
  show ?case
  proof (cases "dropWhile is_space s")
    case Nil
    then show ?thesis by (simp only: split_words_stop tokenize_raw_stop list.map)
  next
    case (Cons c cs)
    then have c: "\<not> is_space c" by (metis hd_dropWhile list.discI list.sel(1))
    have split: "split_words s = (c # takeWhile (\<lambda>x. \<not> is_space x) cs) # split_words (dropWhile (\<lambda>x. \<not> is_space x) cs)"
      by (simp add: split_words.simps [of s] Cons)
    have w: "plain_word (c # takeWhile (\<lambda>x. \<not> is_space x) cs)" using 1(2) by (simp add: split)
    have "read_word (c # cs) = (c # takeWhile (\<lambda>x. \<not> is_space x) cs, dropWhile (\<lambda>x. \<not> is_space x) cs)"
      using read_word_plain [of "c # cs"] w c by (simp add: plain_word_def del: read_word.simps)
    then have "read_token c cs = (word_token (c # takeWhile (\<lambda>x. \<not> is_space x) cs), dropWhile (\<lambda>x. \<not> is_space x) cs)"
      using w by (auto simp: read_token_def plain_word_def Let_def simp del: read_word.simps)
    then show ?thesis using 1(1) [OF Cons] 1(2)
      by (simp add: split tokenize_raw.simps [of s] Cons)
  qed
qed

lemma no_caret: "CARET \<notin> set s \<Longrightarrow> unescaped_carets s = []"
  unfolding unescaped_carets_def filter_empty_conv by (metis atLeastLessThan_iff nth_mem set_upt)

lemma plain_contribution:
  assumes "plain_word w" and "\<forall>c \<in> set w. \<not> is_space c"
  shows "inline_contribution e lower prev (word_token w) follow = [(lower w, soft_draft Should Med False)]"
proof -
  have w: "w \<noteq> []" "CARET \<notin> set w" "strip_sentinels w = w" "\<not> is_reserved w" "trim_text w = w"
    using assms by (simp_all add: plain_word_def strip_sentinels_id trim_no_space)
  have "inline_prefix w = (Should, w)"
    using assms(1) by (cases w) (auto simp: inline_prefix_def plain_word_def)
  then have "parse_inline_token e lower w = \<lparr>it_occur = Should, it_tier = Med, it_explicitWeight = None,
      it_explicitNumeric = False, it_body = w\<rparr>"
    using w by (simp add: parse_inline_token_def find_last_unescaped_caret_def no_caret)
  then show ?thesis using w by (simp add: inline_contribution_def word_token_def soft_draft_def)
qed

lemma plain_contributions:
  "list_all plain_word ws \<Longrightarrow> \<forall>w \<in> set ws. \<forall>c \<in> set w. \<not> is_space c \<Longrightarrow>
   inline_contributions e lower prev (map word_token ws) = map (\<lambda>w. (lower w, soft_draft Should Med False)) ws"
  by (induction ws arbitrary: prev) (simp_all add: plain_contribution)

section \<open>What the collector keeps\<close>

lemma collect_append: "collect_drafts (kds @ [kd]) = merge_draft kd (collect_drafts kds)"
  by (simp add: collect_drafts_def)

lemma collect_Nil [simp]: "collect_drafts [] = ([], [])"
  by (simp add: collect_drafts_def)

lemma better_draft_cases: "better_draft cur d = cur \<or> better_draft cur d = d"
  by (simp add: better_draft_def)

lemma occur_rank_inject: "occur_rank a = occur_rank b \<longleftrightarrow> a = b"
  by (cases a; cases b) simp_all

lemma map_put_member: "kv \<in> set (map_put k v m) \<Longrightarrow> kv = (k, v) \<or> kv \<in> set m"
  by (induction m) (auto split: if_splits)

lemma merge_cases:
  obtains w cs where "merge_draft (k, d) (ds, conflicts) = (map_put k w ds, conflicts @ cs)"
    "case map_of ds k of None \<Rightarrow> w = d \<and> cs = []
     | Some cur \<Rightarrow> (w = cur \<or> w = d) \<and> occur_rank (df_occur cur) \<le> occur_rank (df_occur w)
         \<and> occur_rank (df_occur d) \<le> occur_rank (df_occur w) \<and> (df_occur cur \<noteq> df_occur d \<longleftrightarrow> cs \<noteq> [])"
proof (cases "map_of ds k")
  case None
  then show ?thesis by (intro that [of d "[]"]) (simp_all add: merge_draft_def)
next
  case (Some cur)
  show ?thesis
  proof (cases "df_occur cur = df_occur d")
    case True
    then show ?thesis using Some better_draft_cases [of cur d]
      by (intro that [of "better_draft cur d" "[]"]) (auto simp: merge_draft_def)
  next
    case False
    then have "merge_draft (k, d) (ds, conflicts) =
      (map_put k (if occur_rank (df_occur d) > occur_rank (df_occur cur) then d else cur) ds,
       conflicts @ [if df_occur cur = Must \<and> df_occur d = MustNot \<or> df_occur cur = MustNot \<and> df_occur d = Must
         then MustAndMustNot k
         else BucketConflict k (df_occur cur) (df_occur d)
           (df_occur (if occur_rank (df_occur d) > occur_rank (df_occur cur) then d else cur))])"
      using Some by (simp add: merge_draft_def Let_def)
    then show ?thesis by (rule that) (use Some False in auto)
  qed
qed

definition collected_ok :: "(wide \<times> draft) list \<Rightarrow> collector \<Rightarrow> bool" where
  "collected_ok kds st \<longleftrightarrow> distinct (map fst (fst st)) \<and> set (map fst (fst st)) = set (map fst kds)
     \<and> set (fst st) \<subseteq> set kds
     \<and> (\<forall>(k, w) \<in> set (fst st). \<forall>(k', d) \<in> set kds. k' = k \<longrightarrow>
          occur_rank (df_occur d) \<le> occur_rank (df_occur w) \<and> (df_occur d \<noteq> df_occur w \<longrightarrow> snd st \<noteq> []))"

lemma collected: "collected_ok kds (collect_drafts kds)"
proof (induction kds rule: rev_induct)
  case Nil
  show ?case by (simp add: collected_ok_def)
next
  case (snoc kd kds)
  obtain k d where kd: "kd = (k, d)" by (cases kd)
  obtain ds conflicts where st: "collect_drafts kds = (ds, conflicts)" by (cases "collect_drafts kds")
  have dist: "distinct (map fst ds)" and keys: "set (map fst ds) = set (map fst kds)" and sub: "set ds \<subseteq> set kds"
    and best: "\<And>k w d. (k, w) \<in> set ds \<Longrightarrow> (k, d) \<in> set kds \<Longrightarrow>
      occur_rank (df_occur d) \<le> occur_rank (df_occur w) \<and> (df_occur d \<noteq> df_occur w \<longrightarrow> conflicts \<noteq> [])"
    using snoc unfolding collected_ok_def st by auto
  obtain w cs where m: "merge_draft (k, d) (ds, conflicts) = (map_put k w ds, conflicts @ cs)"
    and w: "case map_of ds k of None \<Rightarrow> w = d \<and> cs = []
     | Some cur \<Rightarrow> (w = cur \<or> w = d) \<and> occur_rank (df_occur cur) \<le> occur_rank (df_occur w)
         \<and> occur_rank (df_occur d) \<le> occur_rank (df_occur w) \<and> (df_occur cur \<noteq> df_occur d \<longleftrightarrow> cs \<noteq> [])"
    by (rule merge_cases)
  have dist': "distinct (map fst (map_put k w ds))" by (rule distinct_map_put [OF dist])
  have keys': "set (map fst (map_put k w ds)) = set (map fst (kds @ [(k, d)]))"
    using keys by (simp add: keys_map_put del: set_map)
  have member: "(k', v) \<in> set (map_put k w ds) \<Longrightarrow> (k' = k \<and> v = w) \<or> (k' \<noteq> k \<and> (k', v) \<in> set ds)" for k' v
    using dist' map_of_is_SomeI [of "map_put k w ds" k' v] map_of_SomeD [of ds k' v] by (auto split: if_splits)
  have origin: "(k, w) \<in> set (kds @ [(k, d)])"
    using w sub by (auto split: option.splits dest: map_of_SomeD)
  have new: "occur_rank (df_occur x) \<le> occur_rank (df_occur w) \<and> (df_occur x \<noteq> df_occur w \<longrightarrow> conflicts @ cs \<noteq> [])"
    if x: "(k, x) \<in> set (kds @ [(k, d)])" for x
  proof (cases "map_of ds k")
    case None
    then have "k \<notin> set (map fst kds)" using keys by (simp add: map_of_eq_None_iff)
    then have "(k, x) \<notin> set kds" by (metis fst_conv in_set_zipE zip_map_fst_snd)
    then show ?thesis using x w None by simp
  next
    case (Some cur)
    note cur = map_of_SomeD [OF Some]
    show ?thesis
    proof (cases "(k, x) \<in> set kds")
      case True
      then have "occur_rank (df_occur x) \<le> occur_rank (df_occur cur)" "df_occur x \<noteq> df_occur cur \<longrightarrow> conflicts \<noteq> []"
        using best [OF cur] by auto
      then show ?thesis using w Some by auto
    next
      case False
      then show ?thesis using x w Some by auto
    qed
  qed
  show ?case
    unfolding collected_ok_def collect_append kd st m fst_conv snd_conv
  proof (intro conjI)
    show "distinct (map fst (map_put k w ds))" by (rule dist')
    show "set (map fst (map_put k w ds)) = set (map fst (kds @ [(k, d)]))" by (rule keys')
    show "set (map_put k w ds) \<subseteq> set (kds @ [(k, d)])"
      using member origin sub by auto
    show "\<forall>(k', v) \<in> set (map_put k w ds). \<forall>(k'', x) \<in> set (kds @ [(k, d)]). k'' = k' \<longrightarrow>
      occur_rank (df_occur x) \<le> occur_rank (df_occur v) \<and> (df_occur x \<noteq> df_occur v \<longrightarrow> conflicts @ cs \<noteq> [])"
      using member new best by fastforce
  qed
qed

lemma collect_distinct: "distinct (map fst kds) \<Longrightarrow> collect_drafts kds = (kds, [])"
proof (induction kds rule: rev_induct)
  case (snoc kd kds)
  obtain k d where kd: "kd = (k, d)" by (cases kd)
  have "map_of kds k = None" using snoc.prems by (simp add: kd map_of_eq_None_iff)
  then show ?case using snoc by (simp add: collect_append kd merge_draft_def map_put_appends)
qed simp

text \<open>Equal soft drafts collapse to the distinct keys.\<close>

lemma unique_from_snoc: "unique_from seen (xs @ [x]) = unique_from seen xs @ (if x \<in> seen \<union> set xs then [] else [x])"
  by (induction xs arbitrary: seen) auto

lemma unique_list_snoc: "unique_list (xs @ [x]) = unique_list xs @ (if x \<in> set xs then [] else [x])"
  by (simp add: unique_list_def unique_from_snoc)

lemma map_put_same: "map_of m k = Some v \<Longrightarrow> map_put k v m = m"
  by (induction m) (auto split: if_splits)

lemma collect_constant: "collect_drafts (map (\<lambda>k. (k, soft_draft oc t ph)) ks) = (map (\<lambda>k. (k, soft_draft oc t ph)) (unique_list ks), [])"
proof (induction ks rule: rev_induct)
  case Nil
  show ?case by (simp add: unique_list_def)
next
  case (snoc k ks)
  let ?d = "soft_draft oc t ph"
  have look: "map_of (map (\<lambda>k. (k, ?d)) (unique_list ks)) k = (if k \<in> set ks then Some ?d else None)"
    by (auto simp: map_of_map_restrict restrict_map_def)
  have same: "better_draft ?d ?d = ?d" using better_draft_cases [of ?d ?d] by simp
  show ?case
  proof (cases "k \<in> set ks")
    case True
    then show ?thesis using snoc look
      by (simp add: collect_append merge_draft_def same unique_list_snoc map_put_same)
  next
    case False
    have "k \<notin> set (map fst (map (\<lambda>k. (k, ?d)) (unique_list ks)))" using False by auto
    then show ?thesis using snoc look False
      by (simp add: collect_append merge_draft_def unique_list_snoc map_put_appends del: set_map)
  qed
qed

end
