(* ===== verification/MemoryQueryText.thy ===== *)
theory MemoryQueryText
  imports MemoryQueryFacts
begin

text \<open>
  Writing a list of terms down as a query: operators in front, phrases in quotes, every other character behind a
  backslash, tiers as \<open>^h\<close> and \<open>^l\<close>. The tokeniser and the inline parser read it back.
\<close>

fun occur_prefix :: "occur \<Rightarrow> wide" where
  "occur_prefix Must = [PLUS]"
| "occur_prefix MustNot = [MINUS]"
| "occur_prefix Should = []"

fun tier_suffix :: "tier \<Rightarrow> wide" where
  "tier_suffix High = [CARET, 104]"
| "tier_suffix Low = [CARET, 108]"
| "tier_suffix Med = []"

definition quote_unit :: "int \<Rightarrow> wide" where
  "quote_unit c = (if c = QUOTE \<or> c = BACKSLASH then [BACKSLASH, c] else [c])"

definition written_text :: "int \<Rightarrow> wide \<Rightarrow> wide" where
  "written_text mark s = concat (map (\<lambda>c. [mark, c]) s)"

definition render_term :: "wide \<times> draft \<Rightarrow> wide" where
  "render_term kd =
     occur_prefix (df_occur (snd kd))
     @ (if df_phrase (snd kd) then [QUOTE] @ concat (map quote_unit (fst kd)) @ [QUOTE]
        else written_text BACKSLASH (fst kd))
     @ tier_suffix (df_tier (snd kd))"

definition render_query :: "(wide \<times> draft) list \<Rightarrow> wide" where
  "render_query kds = concat (map (\<lambda>kd. render_term kd @ [32]) kds)"

text \<open>
  The terms that can be written down: trimmed, lower-case texts, with the default weight of their tier, and a
  tier only where terms are ranked.
\<close>

definition writable :: "(wide \<Rightarrow> wide) \<Rightarrow> wide \<times> draft \<Rightarrow> bool" where
  "writable lower kd \<longleftrightarrow> fst kd \<noteq> [] \<and> trim_text (fst kd) = fst kd \<and> lower (fst kd) = fst kd
     \<and> NUL_SENTINEL \<notin> set (fst kd) \<and> \<not> is_reserved (fst kd)
     \<and> df_weight (snd kd) = None \<and> \<not> df_numeric (snd kd)
     \<and> (df_tier (snd kd) = Med \<or> df_occur (snd kd) = Should)"

definition written_caret :: "tier \<Rightarrow> wide option" where
  "written_caret t = (if t = Med then None else Some (tl (tier_suffix t)))"

text \<open>The token that a written term becomes.\<close>

definition term_token :: "wide \<times> draft \<Rightarrow> raw_token" where
  "term_token kd =
     (if df_phrase (snd kd)
      then phrase_token (fst kd) (case df_occur (snd kd) of Should \<Rightarrow> None | oc \<Rightarrow> Some oc)
             (written_caret (df_tier (snd kd)))
      else word_token (occur_prefix (df_occur (snd kd)) @ written_text NUL_SENTINEL (fst kd)
             @ tier_suffix (df_tier (snd kd))))"

lemma written_simps [simp]:
  "written_text m [] = []" "written_text m (c # s) = m # c # written_text m s"
  by (simp_all add: written_text_def)

lemma length_written: "length (written_text m s) = 2 * length s"
  by (induction s) simp_all

lemma strip_written [simp]: "NUL_SENTINEL \<notin> set s \<Longrightarrow> strip_sentinels (written_text NUL_SENTINEL s) = s"
  by (induction s) (auto simp: strip_sentinels_def)

lemma strip_affixes [simp]:
  "strip_sentinels (occur_prefix oc) = occur_prefix oc" "strip_sentinels (tier_suffix t) = tier_suffix t"
  by (cases oc; simp add: strip_sentinels_def char_codes) (cases t; simp add: strip_sentinels_def char_codes)

lemma space_codes [simp]:
  "is_space 32" "\<not> is_space PLUS" "\<not> is_space MINUS" "\<not> is_space QUOTE" "\<not> is_space BACKSLASH" "\<not> is_space CARET"
  "\<not> is_space 104" "\<not> is_space 108"
  by (simp_all add: is_space_def char_codes)

section \<open>Reading the characters\<close>

lemma read_written_quoted:
  "read_quoted_phrase (concat (map quote_unit s) @ QUOTE # rest) = (s, rest)"
proof (induction s)
  case (Cons c s)
  then show ?case by (auto simp: quote_unit_def char_codes)
qed simp

lemma attach_written_caret:
  "attach_phrase_caret (tier_suffix t @ 32 # rest) =
    (written_caret t, 32 # rest)"
  by (cases t) (simp_all add: written_caret_def attach_phrase_caret_def is_space_def char_codes)

lemma read_written_suffix: "read_word (tier_suffix t @ 32 # rest) = (tier_suffix t, 32 # rest)"
  by (cases t) (simp_all add: is_space_def char_codes)

lemma read_written_word:
  "read_word (written_text BACKSLASH s @ tier_suffix t @ 32 # rest) = (written_text NUL_SENTINEL s @ tier_suffix t, 32 # rest)"
proof (induction s)
  case Nil
  then show ?case by (simp add: read_written_suffix)
next
  case (Cons c s)
  then show ?case by simp
qed

lemma read_written_term:
  assumes "writable lower kd"
  shows "\<exists>c cs. render_term kd @ 32 # rest = c # cs \<and> \<not> is_space c \<and> read_token c cs = (term_token kd, 32 # rest)"
proof -
  obtain s d where kd: "kd = (s, d)" by (cases kd)
  obtain b s' where s: "s = b # s'" using assms by (cases s) (auto simp: writable_def kd)
  have phrase: "read_phrase oc (concat (map quote_unit s) @ QUOTE # tier_suffix (df_tier d) @ 32 # rest) =
    (phrase_token s oc (written_caret (df_tier d)), 32 # rest)" for oc
    by (simp add: read_phrase_def read_written_quoted attach_written_caret)
  show ?thesis
  proof (cases "df_phrase d")
    case True
    show ?thesis
    proof (cases "df_occur d")
      case Must
      then show ?thesis using True phrase [of "Some Must"]
        by (simp add: kd render_term_def term_token_def read_token_def)
    next
      case Should
      then show ?thesis using True phrase [of None]
        by (simp add: kd render_term_def term_token_def read_token_def) (simp add: char_codes is_space_def)
    next
      case MustNot
      then show ?thesis using True phrase [of "Some MustNot"]
        by (simp add: kd render_term_def term_token_def read_token_def) (simp add: char_codes is_space_def)
    qed
  next
    case False
    have word: "read_word (written_text BACKSLASH s @ tier_suffix (df_tier d) @ 32 # rest) =
      (written_text NUL_SENTINEL s @ tier_suffix (df_tier d), 32 # rest)" by (rule read_written_word)
    then have prefixed: "read_word (p # written_text BACKSLASH s @ tier_suffix (df_tier d) @ 32 # rest) =
      (p # written_text NUL_SENTINEL s @ tier_suffix (df_tier d), 32 # rest)" if "p = PLUS \<or> p = MINUS" for p
      using that by (auto simp: char_codes is_space_def)
    show ?thesis
    proof (cases "df_occur d")
      case Must
      then show ?thesis using False prefixed [of PLUS]
        by (simp add: kd s render_term_def term_token_def read_token_def del: read_word.simps) (simp add: char_codes del: read_word.simps)
    next
      case Should
      then show ?thesis using False word
        by (simp add: kd s render_term_def term_token_def read_token_def del: read_word.simps) (simp add: char_codes del: read_word.simps)
    next
      case MustNot
      then show ?thesis using False prefixed [of MINUS]
        by (simp add: kd s render_term_def term_token_def read_token_def del: read_word.simps) (simp add: char_codes del: read_word.simps)
    qed
  qed
qed

lemma tokenize_space: "tokenize_raw (32 # s) = tokenize_raw s"
  by (simp add: tokenize_raw.simps [of "32 # s"] tokenize_raw.simps [of s])

lemma tokenize_written:
  "list_all (writable lower) kds \<Longrightarrow> tokenize_raw (render_query kds) = map term_token kds"
proof (induction kds)
  case Nil
  then show ?case by (simp add: render_query_def tokenize_raw_stop)
next
  case (Cons kd kds)
  obtain c cs where c: "render_term kd @ 32 # render_query kds = c # cs" "\<not> is_space c"
    "read_token c cs = (term_token kd, 32 # render_query kds)"
    using read_written_term [of lower kd "render_query kds"] Cons.prems by auto
  have "render_query (kd # kds) = c # cs" using c(1) by (simp add: render_query_def)
  then have "tokenize_raw (render_query (kd # kds)) = term_token kd # tokenize_raw (32 # render_query kds)"
    using c by (simp add: tokenize_raw.simps [of "c # cs"])
  then show ?case using Cons by (simp add: tokenize_space)
qed

section \<open>Reading the operators\<close>

lemma nth_written_even: "i < length s \<Longrightarrow> (written_text m s @ r) ! (2 * i) = m"
proof (induction s arbitrary: i)
  case (Cons c s)
  then show ?case by (cases i) auto
qed simp

lemma nth_written_odd: "i < length s \<Longrightarrow> (written_text m s @ r) ! (2 * i + 1) = s ! i"
proof (induction s arbitrary: i)
  case (Cons c s)
  then show ?case by (cases i) auto
qed simp

lemma escaped_carets:
  assumes "i < 2 * length s" and "s' = written_text NUL_SENTINEL s @ r"
  shows "\<not> (s' ! i = CARET \<and> \<not> (0 < i \<and> s' ! (i - 1) = NUL_SENTINEL))"
proof (cases "even i")
  case True
  then obtain k where "i = 2 * k" by blast
  then show ?thesis using assms nth_written_even [of k s NUL_SENTINEL r] by (simp add: char_codes)
next
  case False
  then obtain k where "i = 2 * k + 1" by (rule oddE)
  then show ?thesis using assms nth_written_even [of k s NUL_SENTINEL r] by simp
qed

lemma carets_of_written: "unescaped_carets (written_text NUL_SENTINEL s) = []"
  using escaped_carets [of _ s _ "[]"] by (auto simp: unescaped_carets_def filter_empty_conv length_written)

lemma carets_of_suffixed:
  assumes "s \<noteq> []" and "NUL_SENTINEL \<notin> set s" and "x \<noteq> CARET"
  shows "unescaped_carets (written_text NUL_SENTINEL s @ [CARET, x]) = [2 * length s]"
proof -
  let ?w = "written_text NUL_SENTINEL s @ [CARET, x]"
  let ?p = "\<lambda>i. ?w ! i = CARET \<and> \<not> (0 < i \<and> ?w ! (i - 1) = NUL_SENTINEL)"
  define n where "n = length s"
  have n: "0 < n" using assms(1) by (simp add: n_def)
  have "filter ?p [0..<2 * n] = []"
    using escaped_carets [of _ s ?w "[CARET, x]"] by (auto simp: filter_empty_conv n_def)
  moreover have "?p (2 * n)"
  proof -
    have "?w ! (2 * n - 1) = s ! (n - 1)"
    proof -
      obtain m where m: "n = Suc m" using n by (cases n) auto
      then have "?w ! (2 * m + 1) = s ! m"
        by (intro nth_written_odd) (simp add: n_def)
      then show ?thesis by (simp add: m)
    qed
    moreover have "s ! (n - 1) \<noteq> NUL_SENTINEL" using n assms(2) by (metis n_def diff_less nth_mem zero_less_one)
    ultimately show ?thesis by (simp add: nth_append length_written n_def)
  qed
  moreover have "\<not> ?p (2 * n + 1)" using assms(3) by (simp add: nth_append length_written n_def)
  moreover have "length ?w = 2 * n + 2" by (simp add: length_written n_def)
  then have "[0..<length ?w] = [0..<2 * n] @ [2 * n, 2 * n + 1]" by (simp add: upt_rec [of "2 * n"])
  ultimately show ?thesis by (simp add: unescaped_carets_def n_def)
qed

lemma reserved_units: "is_reserved v \<Longrightarrow> PLUS \<notin> set v \<and> MINUS \<notin> set v \<and> CARET \<notin> set v"
  by (auto simp: is_reserved_def units_def char_codes)

lemma suffix_reads:
  assumes "lower (units ''h'') = units ''h''" and "lower (units ''l'') = units ''l''"
  shows "t \<noteq> Med \<Longrightarrow> \<exists>w. parse_caret_suffix e lower (tl (tier_suffix t)) = Some \<lparr>cs_tier = t, cs_weight = w, cs_numeric = False\<rparr>"
  using assms by (cases t) (simp_all add: parse_caret_suffix_def units_def)

lemma written_contribution:
  assumes "lower (units ''h'') = units ''h''" and "lower (units ''l'') = units ''l''" and "writable lower kd"
  shows "inline_contribution e lower prev (term_token kd) follow = [kd]"
proof -
  obtain s d where kd: "kd = (s, d)" by (cases kd)
  have s: "s \<noteq> []" "trim_text s = s" "lower s = s" "NUL_SENTINEL \<notin> set s" "\<not> is_reserved s"
    and d: "df_weight d = None" "\<not> df_numeric d" "df_tier d = Med \<or> df_occur d = Should"
    using assms(3) by (auto simp: writable_def kd)
  have soft: "d = soft_draft (df_occur d) (df_tier d) (df_phrase d)"
    using d by (simp add: soft_draft_def)
  show ?thesis
  proof (cases "df_phrase d")
    case True
    have "phrase_draft e lower (term_token kd) = d"
    proof (cases "df_tier d = Med")
      case True
      then show ?thesis using \<open>df_phrase d\<close> soft
        by (cases "df_occur d") (simp_all add: kd term_token_def phrase_token_def phrase_draft_def written_caret_def)
    next
      case False
      then obtain w where "parse_caret_suffix e lower (tl (tier_suffix (df_tier d))) =
        Some \<lparr>cs_tier = df_tier d, cs_weight = w, cs_numeric = False\<rparr>"
        using suffix_reads [OF assms(1,2)] by blast
      then show ?thesis using False d \<open>df_phrase d\<close> soft
        by (cases "df_tier d") (simp_all add: kd term_token_def phrase_token_def phrase_draft_def soft_draft_def written_caret_def)
    qed
    then show ?thesis using True s by (simp add: inline_contribution_def kd term_token_def phrase_token_def)
  next
    case False
    let ?p = "occur_prefix (df_occur d)" and ?t = "tier_suffix (df_tier d)"
    let ?w = "written_text NUL_SENTINEL s"
    have tok: "term_token kd = word_token (?p @ ?w @ ?t)" using False by (simp add: kd term_token_def)
    have visible: "strip_sentinels (?p @ ?w @ ?t) = ?p @ s @ ?t"
      using s(4) by simp
    have unreserved: "\<not> is_reserved (?p @ s @ ?t)"
    proof (cases "?p @ ?t = []")
      case True
      then show ?thesis using s(5) by simp
    next
      case False
      then have "PLUS \<in> set (?p @ s @ ?t) \<or> MINUS \<in> set (?p @ s @ ?t) \<or> CARET \<in> set (?p @ s @ ?t)"
        by (cases "df_occur d"; cases "df_tier d") simp_all
      then show ?thesis using reserved_units by blast
    qed
    have prefix: "inline_prefix (?p @ ?w @ ?t) = (df_occur d, ?w @ ?t)"
      using s(1) by (cases "df_occur d"; cases s) (simp_all add: inline_prefix_def char_codes)
    have parsed: "\<exists>w. parse_inline_token e lower (?p @ ?w @ ?t) = \<lparr>it_occur = df_occur d, it_tier = df_tier d,
      it_explicitWeight = w, it_explicitNumeric = False, it_body = s\<rparr>"
    proof (cases "df_tier d = Med")
      case True
      then show ?thesis using s(4) prefix
        by (simp add: parse_inline_token_def find_last_unescaped_caret_def carets_of_written)
    next
      case False
      then obtain x where t: "?t = [CARET, x]" "x \<noteq> CARET" "x \<noteq> NUL_SENTINEL"
        by (cases "df_tier d") (simp_all add: char_codes)
      have carets: "unescaped_carets (?w @ [CARET, x]) = [2 * length s]"
        by (rule carets_of_suffixed [OF s(1,4) t(2)])
      have cut: "take (2 * length s) (?w @ [CARET, x]) = ?w" "drop (Suc (2 * length s)) (?w @ [CARET, x]) = [x]"
        by (simp_all add: length_written)
      have count: "count_unescaped_caret (?w @ [CARET, x]) = 1" by (simp add: count_unescaped_caret_def carets)
      have x: "strip_sentinels [x] = tl ?t" using t by (simp add: strip_sentinels_def)
      obtain v where v: "parse_caret_suffix e lower (tl ?t) = Some \<lparr>cs_tier = df_tier d, cs_weight = v, cs_numeric = False\<rparr>"
        using suffix_reads [OF assms(1,2) False] by blast
      have "df_occur d = Should" using d(3) False by blast
      then show ?thesis using s(1,4) prefix v x
        unfolding parse_inline_token_def t(1)
        by (simp add: find_last_unescaped_caret_def count carets cut t(1) Let_def del: drop_append take_append)
    qed
    then obtain w where parsed: "parse_inline_token e lower (?p @ ?w @ ?t) = \<lparr>it_occur = df_occur d, it_tier = df_tier d,
      it_explicitWeight = w, it_explicitNumeric = False, it_body = s\<rparr>" by blast
    show ?thesis
      unfolding tok inline_contribution_def
      using False s soft unreserved by (simp add: word_token_def visible parsed kd soft_draft_def)
  qed
qed

lemma written_contributions:
  assumes "lower (units ''h'') = units ''h''" and "lower (units ''l'') = units ''l''"
  shows "list_all (writable lower) kds \<Longrightarrow> inline_contributions e lower prev (map term_token kds) = kds"
  by (induction kds arbitrary: prev) (simp_all add: written_contribution [OF assms])

end
