(* ===== verification/MemoryQueryProps.thy ===== *)
theory MemoryQueryProps
  imports MemoryQueryText
begin

text \<open>
  The properties of the query parser: a query without operators is the old list of words, terms that are
  written down are read back, every word ends in exactly one bucket, and required words always filter.
\<close>

section \<open>The result of the parser\<close>

definition contributions :: "weight_env \<Rightarrow> (wide \<Rightarrow> wide) \<Rightarrow> wide \<Rightarrow> parse_options \<Rightarrow> (wide \<times> draft) list" where
  "contributions e lower query opts =
     text_contributions e lower query opts @ structured_contributions lower (po_tiers opts)"

definition bucket :: "weight_env \<Rightarrow> (wide \<Rightarrow> wide) \<Rightarrow> tier_weights option \<Rightarrow> occur \<Rightarrow> (wide \<times> draft) list \<Rightarrow> query_term list" where
  "bucket e lower weights oc kds = map (term_of_draft e lower weights) (filter (\<lambda>kd. df_occur (snd kd) = oc) kds)"

lemma bucket_filter:
  "filter (\<lambda>t. term_occur t = oc) (map (term_of_draft e lower weights) kds) = bucket e lower weights oc kds"
  by (induction kds) (simp_all add: bucket_def term_of_draft_def case_prod_beta)

lemma buckets_empty: "bucket e lower weights Must kds = [] \<and> bucket e lower weights Should kds = []
    \<and> bucket e lower weights MustNot kds = [] \<longleftrightarrow> kds = []"
proof
  assume empty: "bucket e lower weights Must kds = [] \<and> bucket e lower weights Should kds = []
    \<and> bucket e lower weights MustNot kds = []"
  show "kds = []"
  proof (rule ccontr)
    assume "kds \<noteq> []"
    then obtain kd where "kd \<in> set kds" by (cases kds) auto
    then show False using empty by (cases "df_occur (snd kd)") (auto simp: bucket_def filter_empty_conv)
  qed
qed (simp add: bucket_def)

lemma parse_query_buckets:
  assumes "collect_drafts (contributions e lower query opts) = (kds, conflicts)" and "kds \<noteq> []"
  shows "pq_must (parse_query e lower query opts) = bucket e lower (po_tierWeights opts) Must kds"
    "pq_should (parse_query e lower query opts) = bucket e lower (po_tierWeights opts) Should kds"
    "pq_mustNot (parse_query e lower query opts) = bucket e lower (po_tierWeights opts) MustNot kds"
    "pq_tierConflict (parse_query e lower query opts) = (if conflicts \<noteq> [] then Some conflicts else None)"
    "pq_isPlain (parse_query e lower query opts) =
      (\<not> has_structured opts \<and> \<not> has_tier_weights opts \<and> bucket e lower (po_tierWeights opts) Must kds = []
       \<and> bucket e lower (po_tierWeights opts) MustNot kds = []
       \<and> \<not> list_ex (\<lambda>t. term_phrase t \<or> term_weight t \<noteq> TIER_WEIGHT_MED e \<or> term_tier t \<noteq> Med)
           (bucket e lower (po_tierWeights opts) Should kds)
       \<and> bucket e lower (po_tierWeights opts) Should kds \<noteq> [])"
  using assms buckets_empty [of e lower "po_tierWeights opts" kds]
  unfolding contributions_def parse_query_def by (simp_all only: Let_def bucket_filter prod.case if_not_P) auto

lemma parse_query_words: "pq_rawWords (parse_query e lower query opts) = raw_words lower query"
  by (simp add: parse_query_def Let_def case_prod_beta)

lemma parse_query_fallback:
  assumes "collect_drafts (contributions e lower query opts) = ([], conflicts)"
  shows "pq_must (parse_query e lower query opts) = []" "pq_mustNot (parse_query e lower query opts) = []"
    "pq_should (parse_query e lower query opts) = map (fallback_term e lower (po_tierWeights opts)) (raw_words lower query)"
    "pq_isPlain (parse_query e lower query opts) =
      (raw_words lower query \<noteq> [] \<and> \<not> has_structured opts \<and> \<not> has_tier_weights opts)"
    "pq_tierConflict (parse_query e lower query opts) = (if conflicts \<noteq> [] then Some conflicts else None)"
  using assms by (simp_all add: contributions_def parse_query_def Let_def)

section \<open>The sample query of the witnesses\<close>

definition ascii_lower :: "wide \<Rightarrow> wide" where
  "ascii_lower s = map (\<lambda>c. if 65 \<le> c \<and> c \<le> 90 then c + 32 else c) s"

definition demo_env :: weight_env where
  "demo_env = \<lparr>env_high = None, env_med = None, env_low = None\<rparr>"

definition no_options :: parse_options where
  "no_options = \<lparr>po_tiers = None, po_tierWeights = None, po_parseInline = None\<rparr>"

definition demo_tiers :: tier_input where
  "demo_tiers = \<lparr>ti_high = None, ti_med = None, ti_low = None, ti_required = Some [units '' Fox''], ti_exclude = Some [units ''dog'', units ''fox'']\<rparr>"

lemma demo_laws: "ascii_lower (units ''h'') = units ''h''" "ascii_lower (units ''l'') = units ''l''"
  by (simp_all add: ascii_lower_def units_def)

definition demo_terms :: "(wide \<times> draft) list" where
  "demo_terms = [(units ''fox'', soft_draft Must Med False), (units ''a dog'', soft_draft Should High True),
     (units ''x^2'', soft_draft MustNot Med False)]"

section \<open>The properties\<close>

text \<open>C34: A query in which no word has an operator is the list of its distinct lower-case words, whether inline operators are parsed or not: soft terms of the default weight, without a conflict, and plain if there is a word.\<close>

theorem query_without_operators_is_a_word_list:
  assumes "split_words (lower query) = map lower (split_words query)" and "list_all plain_word (split_words query)"
    and "opts = \<lparr>po_tiers = None, po_tierWeights = None, po_parseInline = inline\<rparr>"
  shows "parse_query e lower query opts =
    \<lparr>pq_must = [], pq_should = map (fallback_term e lower None) (unique_list (split_words (lower query))), pq_mustNot = [],
     pq_isPlain = (split_words (lower query) \<noteq> []), pq_rawWords = split_words (lower query), pq_tierConflict = None\<rparr>"
proof -
  define ws where "ws = split_words (lower query)"
  let ?d = "\<lambda>w. (w, soft_draft Should Med False)"
  have spaces: "\<forall>w \<in> set (split_words query). \<forall>c \<in> set w. \<not> is_space c"
    using words_have_no_space by blast
  have "contributions e lower query opts = map ?d ws"
    using plain_contributions [OF assms(2) spaces, of e lower None] assms(1)
    by (simp add: contributions_def text_contributions_def structured_contributions_def assms(3) ws_def raw_words_def
        tokenize_plain [OF assms(2)] comp_def)
  then have collect: "collect_drafts (contributions e lower query opts) = (map ?d (unique_list ws), [])"
    by (simp only: collect_constant)
  have weights: "po_tierWeights opts = None" "\<not> has_structured opts" "\<not> has_tier_weights opts"
    by (simp_all add: assms(3) has_structured_def has_tier_weights_def)
  have words: "raw_words lower query = ws" by (simp add: raw_words_def ws_def)
  show ?thesis
  proof (cases "ws = []")
    case True
    then have "collect_drafts (contributions e lower query opts) = ([], [])" using collect by (simp add: unique_list_def)
    note p = parse_query_fallback [OF this]
    show ?thesis
      by (rule parsed_query.equality) (use p weights words True in \<open>simp_all add: parse_query_words ws_def unique_list_def\<close>)
  next
    case False
    then have "map ?d (unique_list ws) \<noteq> []" by (metis Nil_is_map_conv set_empty set_unique_list)
    note p = parse_query_buckets [OF collect this]
    have buckets: "bucket e lower None Must (map ?d us) = []" "bucket e lower None MustNot (map ?d us) = []"
      "bucket e lower None Should (map ?d us) = map (fallback_term e lower None) us" for us
      by (induction us) (simp_all add: bucket_def soft_draft_def fallback_term_def)
    have soft: "\<not> list_ex (\<lambda>t. term_phrase t \<or> term_weight t \<noteq> TIER_WEIGHT_MED e \<or> term_tier t \<noteq> Med)
        (map (fallback_term e lower None) us)" for us
      by (induction us) (simp_all add: fallback_term_def term_of_draft_def soft_draft_def)
    have ne: "unique_list ws \<noteq> []" using False by (metis set_empty set_unique_list)
    show ?thesis
      by (rule parsed_query.equality)
        (use p [unfolded weights(1) buckets] weights words False ne soft [of "unique_list ws"] in \<open>simp_all add: parse_query_words ws_def [symmetric]\<close>)
  qed
qed

theorem query_without_operators_is_a_word_list_witness:
  "map term_raw (pq_should (parse_query demo_env ascii_lower (units ''Fox and well-known fox'') no_options)) =
     [units ''fox'', units ''and'', units ''well-known'']"
proof -
  let ?q = "units ''Fox and well-known fox''"
  have "parse_query demo_env ascii_lower ?q no_options =
    \<lparr>pq_must = [], pq_should = map (fallback_term demo_env ascii_lower None) (unique_list (split_words (ascii_lower ?q))),
     pq_mustNot = [], pq_isPlain = (split_words (ascii_lower ?q) \<noteq> []), pq_rawWords = split_words (ascii_lower ?q),
     pq_tierConflict = None\<rparr>"
  proof (rule query_without_operators_is_a_word_list)
    show "split_words (ascii_lower ?q) = map ascii_lower (split_words ?q)" by code_simp
    show "list_all plain_word (split_words ?q)" by code_simp
  qed (simp add: no_options_def)
  moreover have "map term_raw (map (fallback_term demo_env ascii_lower None) (unique_list (split_words (ascii_lower ?q)))) =
     [units ''fox'', units ''and'', units ''well-known'']"
    by code_simp
  ultimately show ?thesis by simp
qed

text \<open>C35: Terms that are written down with operators, quotes and escapes are read back in their buckets and in order, without a conflict.\<close>

theorem written_terms_are_read_back:
  assumes "list_all (writable lower) kds" and "distinct (map fst kds)" and "kds \<noteq> []"
    and "lower (units ''h'') = units ''h''" and "lower (units ''l'') = units ''l''"
  shows "pq_must (parse_query e lower (render_query kds) no_options) = bucket e lower None Must kds
    \<and> pq_should (parse_query e lower (render_query kds) no_options) = bucket e lower None Should kds
    \<and> pq_mustNot (parse_query e lower (render_query kds) no_options) = bucket e lower None MustNot kds
    \<and> pq_tierConflict (parse_query e lower (render_query kds) no_options) = None"
proof -
  have "contributions e lower (render_query kds) no_options = kds"
    using written_contributions [OF assms(4,5,1)] tokenize_written [OF assms(1)]
    by (simp add: contributions_def text_contributions_def structured_contributions_def no_options_def)
  then have "collect_drafts (contributions e lower (render_query kds) no_options) = (kds, [])"
    using collect_distinct [OF assms(2)] by simp
  from parse_query_buckets [OF this assms(3)] show ?thesis by (simp add: no_options_def)
qed

theorem written_terms_are_read_back_witness:
  "map term_raw (pq_should (parse_query demo_env ascii_lower (render_query demo_terms) no_options)) = [units ''a dog'']"
proof -
  have "pq_should (parse_query demo_env ascii_lower (render_query demo_terms) no_options) = bucket demo_env ascii_lower None Should demo_terms"
  proof (rule written_terms_are_read_back [THEN conjunct2, THEN conjunct1])
    show "list_all (writable ascii_lower) demo_terms" by code_simp
    show "distinct (map fst demo_terms)" by code_simp
  qed (simp_all add: demo_terms_def demo_laws)
  then show ?thesis by (simp add: demo_terms_def bucket_def term_of_draft_def soft_draft_def)
qed

text \<open>C36: The buckets hold exactly the words that the query and the tiers contribute, each in one bucket and once, or the words of the query if nothing is contributed.\<close>

theorem every_word_has_one_bucket:
  "let p = parse_query e lower query opts in list_all (\<lambda>t. term_occur t = Must) (pq_must p) \<and> list_all (\<lambda>t. term_occur t = Should) (pq_should p)
    \<and> list_all (\<lambda>t. term_occur t = MustNot) (pq_mustNot p)
    \<and> (if contributions e lower query opts = []
       then pq_must p @ pq_mustNot p = [] \<and> map term_raw (pq_should p) = raw_words lower query
       else distinct (map term_raw (pq_must p @ pq_should p @ pq_mustNot p))
         \<and> set (map term_raw (pq_must p @ pq_should p @ pq_mustNot p)) = set (map fst (contributions e lower query opts)))"
proof -
  define p where p: "p = parse_query e lower query opts"
  obtain kds conflicts where st: "collect_drafts (contributions e lower query opts) = (kds, conflicts)"
    by (cases "collect_drafts (contributions e lower query opts)")
  have ok: "distinct (map fst kds)" "set (map fst kds) = set (map fst (contributions e lower query opts))"
    using collected [of "contributions e lower query opts"] by (simp_all add: collected_ok_def st)
  have raw: "map term_raw (bucket e lower w oc ks) = map fst (filter (\<lambda>kd. df_occur (snd kd) = oc) ks)" for w oc ks
    by (simp add: bucket_def term_of_draft_def case_prod_beta)
  have oc: "list_all (\<lambda>t. term_occur t = oc) (bucket e lower w oc ks)" for w oc ks
    by (auto simp: bucket_def term_of_draft_def case_prod_beta list_all_iff)
  show ?thesis
  proof (cases "contributions e lower query opts = []")
    case True
    then have "collect_drafts (contributions e lower query opts) = ([], [])" by simp
    from parse_query_fallback [OF this] show ?thesis using True
      unfolding Let_def by (simp add: p fallback_term_def term_of_draft_def soft_draft_def list_all_iff comp_def)
  next
    case False
    then have ne: "kds \<noteq> []" using ok(2) by auto
    note q = parse_query_buckets [OF st ne, folded p]
    let ?terms = "filter (\<lambda>kd. df_occur (snd kd) = Must) kds @ filter (\<lambda>kd. df_occur (snd kd) = Should) kds
        @ filter (\<lambda>kd. df_occur (snd kd) = MustNot) kds"
    have same: "set ?terms = set kds" using occur.exhaust by auto
    have "distinct kds" using ok(1) by (simp add: distinct_map)
    then have "distinct ?terms" by auto
    moreover have "inj_on fst (set ?terms)" unfolding same using ok(1) by (simp add: distinct_map)
    ultimately have "distinct (map fst ?terms)" by (simp only: distinct_map simp_thms)
    moreover have "set (map fst ?terms) = set (map fst (contributions e lower query opts))"
      using same ok(2) by (simp only: set_map)
    moreover have "map term_raw (pq_must p @ pq_should p @ pq_mustNot p) = map fst ?terms"
      unfolding q map_append raw ..
    ultimately have "distinct (map term_raw (pq_must p @ pq_should p @ pq_mustNot p))
        \<and> set (map term_raw (pq_must p @ pq_should p @ pq_mustNot p)) = set (map fst (contributions e lower query opts))"
      by (simp only: simp_thms)
    moreover have "list_all (\<lambda>t. term_occur t = Must) (pq_must p) \<and> list_all (\<lambda>t. term_occur t = Should) (pq_should p)
        \<and> list_all (\<lambda>t. term_occur t = MustNot) (pq_mustNot p)"
      unfolding q by (intro conjI oc)
    ultimately show ?thesis using False unfolding Let_def p [symmetric] by (simp only: if_False simp_thms)
  qed
qed

text \<open>C37: A required word always filters, and an excluded word is excluded unless it is required as well, which is reported.\<close>

theorem structured_filters_hold:
  assumes "po_tiers opts = Some t" and "p = parse_query e lower query opts"
  shows "list_all (\<lambda>w. lower (trim_text w) = [] \<or> lower (trim_text w) \<in> set (map term_raw (pq_must p))) (given_words (ti_required t))
    \<and> list_all (\<lambda>w. lower (trim_text w) = [] \<or> lower (trim_text w) \<in> set (map term_raw (pq_mustNot p))
        \<or> lower (trim_text w) \<in> set (map term_raw (pq_must p)) \<and> pq_tierConflict p \<noteq> None) (given_words (ti_exclude t))"
proof -
  obtain kds conflicts where st: "collect_drafts (contributions e lower query opts) = (kds, conflicts)"
    by (cases "collect_drafts (contributions e lower query opts)")
  have placed: "\<exists>d. (k, d) \<in> set kds \<and> occur_rank oc \<le> occur_rank (df_occur d) \<and> (oc \<noteq> df_occur d \<longrightarrow> conflicts \<noteq> [])
      \<and> k \<in> set (map term_raw (bucket e lower (po_tierWeights opts) (df_occur d) kds)) \<and> kds \<noteq> []"
    if "(k, soft_draft oc High ph) \<in> set (contributions e lower query opts)" for k oc ph
  proof -
    have "k \<in> set (map fst (contributions e lower query opts))" using that by (metis fst_conv image_eqI set_map)
    then have "k \<in> set (map fst kds)"
      using collected [of "contributions e lower query opts"] by (simp add: collected_ok_def st)
    then obtain d where d: "(k, d) \<in> set kds" by auto
    have all: "\<forall>(k, w) \<in> set kds. \<forall>(k', d) \<in> set (contributions e lower query opts). k' = k \<longrightarrow>
          occur_rank (df_occur d) \<le> occur_rank (df_occur w) \<and> (df_occur d \<noteq> df_occur w \<longrightarrow> conflicts \<noteq> [])"
      using collected [of "contributions e lower query opts"] unfolding collected_ok_def st fst_conv snd_conv by blast
    have "\<forall>(k', x) \<in> set (contributions e lower query opts). k' = k \<longrightarrow>
          occur_rank (df_occur x) \<le> occur_rank (df_occur d) \<and> (df_occur x \<noteq> df_occur d \<longrightarrow> conflicts \<noteq> [])"
      using bspec [OF all d] by simp
    from bspec [OF this that] have "occur_rank oc \<le> occur_rank (df_occur d) \<and> (oc \<noteq> df_occur d \<longrightarrow> conflicts \<noteq> [])"
      by (simp add: soft_draft_def)
    moreover have "k \<in> set (map term_raw (bucket e lower (po_tierWeights opts) (df_occur d) kds))"
      using d unfolding bucket_def set_map set_filter
      by (intro image_eqI [where x = "term_of_draft e lower (po_tierWeights opts) (k, d)"] image_eqI [where x = "(k, d)"])
        (simp_all add: term_of_draft_def)
    moreover have "kds \<noteq> []" using d by auto
    ultimately show ?thesis using d by blast
  qed
  note p = parse_query_buckets [OF st, folded assms(2)]
  have required: "(lower (trim_text w), soft_draft Must High (list_ex is_space (lower (trim_text w)))) \<in> set (contributions e lower query opts)"
    if "w \<in> set (given_words (ti_required t))" "lower (trim_text w) \<noteq> []" for w
    using that by (force simp: contributions_def structured_contributions_def assms(1) add_structured_def Let_def)
  have excluded: "(lower (trim_text w), soft_draft MustNot High (list_ex is_space (lower (trim_text w)))) \<in> set (contributions e lower query opts)"
    if "w \<in> set (given_words (ti_exclude t))" "lower (trim_text w) \<noteq> []" for w
    using that by (force simp: contributions_def structured_contributions_def assms(1) add_structured_def Let_def)
  have must: "df_occur d = Must" if "occur_rank Must \<le> occur_rank (df_occur d)" for d using that by (cases "df_occur d") simp_all
  have mustNot: "df_occur d = Must \<or> df_occur d = MustNot" if "occur_rank MustNot \<le> occur_rank (df_occur d)" for d
    using that by (cases "df_occur d") simp_all
  show ?thesis
    unfolding list_all_iff
  proof (intro conjI ballI)
    fix w assume w: "w \<in> set (given_words (ti_required t))"
    show "lower (trim_text w) = [] \<or> lower (trim_text w) \<in> set (map term_raw (pq_must p))"
      using placed [OF required [OF w]] must p(1) by metis
  next
    fix w assume w: "w \<in> set (given_words (ti_exclude t))"
    show "lower (trim_text w) = [] \<or> lower (trim_text w) \<in> set (map term_raw (pq_mustNot p))
        \<or> lower (trim_text w) \<in> set (map term_raw (pq_must p)) \<and> pq_tierConflict p \<noteq> None"
      using placed [OF excluded [OF w]] mustNot p(1,3,4) by (metis occur.distinct(5) option.distinct(1))
  qed
qed

theorem structured_filters_hold_witness:
  "let p = parse_query demo_env ascii_lower (units ''-fox'') (no_options\<lparr>po_tiers := Some demo_tiers\<rparr>)
   in units ''fox'' \<in> set (map term_raw (pq_must p)) \<and> units ''dog'' \<in> set (map term_raw (pq_mustNot p))"
proof -
  define p where "p = parse_query demo_env ascii_lower (units ''-fox'') (no_options\<lparr>po_tiers := Some demo_tiers\<rparr>)"
  have keys: "ascii_lower (trim_text (units '' Fox'')) = units ''fox''" "ascii_lower (trim_text (units ''dog'')) = units ''dog''"
    by code_simp+
  have "units ''dog'' \<notin> set (map term_raw (pq_must p))" unfolding p_def by code_simp
  moreover have "po_tiers (no_options\<lparr>po_tiers := Some demo_tiers\<rparr>) = Some demo_tiers" by simp
  note structured_filters_hold [OF this p_def]
  ultimately have "units ''fox'' \<in> set (map term_raw (pq_must p)) \<and> units ''dog'' \<in> set (map term_raw (pq_mustNot p))"
    by (simp add: demo_tiers_def keys) (simp add: units_def)
  then show ?thesis by (simp add: p_def)
qed

section \<open>Three surprises\<close>

text \<open>An escaped \<open>AND\<close> is still the operator.\<close>

lemma escaped_operator_is_reserved:
  "map term_raw (pq_must (parse_query demo_env ascii_lower (units ''x '' @ [BACKSLASH] @ units ''AND y'') no_options)) =
     [units ''x'', units ''y'']"
  by code_simp

text \<open>A phrase beside \<open>AND\<close> is no phrase any more: its only token is the whole text.\<close>

lemma required_phrase_is_a_word:
  "map (\<lambda>t. (term_tokens t, term_phrase t))
     (pq_must (parse_query demo_env ascii_lower ([QUOTE] @ units ''big fox'' @ [QUOTE] @ units '' AND y'') no_options)) =
   [([units ''big fox''], False), ([units ''y''], False)]"
  by code_simp

text \<open>Every use of \<open>NOT\<close> reports a conflict of its operand with itself.\<close>

lemma negation_reports_a_conflict:
  "pq_tierConflict (parse_query demo_env ascii_lower (units ''x NOT y'') no_options) =
     Some [BucketConflict (units ''y'') MustNot Should MustNot]"
  by code_simp

end
