(* ===== verification/PageAdmission.thy ===== *)
theory PageAdmission
  imports ToolkitBase
begin

text \<open>
  The admission of browser pages (\<open>src/mcps/web-fetcher/src/page-admission.ts\<close>): class
  \<open>PageAdmissionController\<close> with its waiting requests, leases, debts of pages that were just closed, owner
  rotation and memory samples.

  A request is a ticket in the order of the calls of \<open>acquire\<close>; the settled promises are kept as a list of
  tickets with their outcomes. An operation reads the clock, the memory provider and the abort signals of its
  environment and takes no time. \<open>uuid\<close> gives the identifier of the n-th lease (\<open>randomUUID\<close>). Listeners, timers
  and the subscription to the provider are operations that call \<open>refresh\<close>; the promises settle after the call,
  so \<open>refresh\<close> is never entered twice and the flag \<open>draining\<close> is left out. The text of an error is its decision.
\<close>

section \<open>Data\<close>

datatype memory_mode = WindowsMode | UnsupportedMode

record memory_snapshot =
  ms_valid :: bool
  ms_mode :: memory_mode
  ms_sourceId :: string
  ms_sequence :: jnum
  ms_sampledAt :: jnum
  ms_physicalMB :: "jnum option"
  ms_commitMB :: "jnum option"
  ms_lowMemory :: "bool option"
  ms_reason :: "string option"

datatype page_blocker =
    PageLimit | MemorySampleStale | MemorySampleUnavailable | LowMemory | PhysicalMemory | CommitMemory
  | ControllerClosed | Cancelled | DeadlinePassed | QueueFull

record page_decision =
  pd_blockedBy :: "page_blocker option"
  pd_memoryMode :: memory_mode
  pd_sampleReason :: "string option"
  pd_sampleAgeMs :: "rat option"
  pd_sourceId :: string
  pd_sequence :: jnum
  pd_physicalMB :: "jnum option"
  pd_commitMB :: "jnum option"
  pd_projectedPhysicalMB :: "rat option"
  pd_projectedCommitMB :: "rat option"
  pd_uncoveredMB :: rat
  pd_estimateMB :: rat
  pd_minPhysicalMB :: rat
  pd_minCommitMB :: rat
  pd_slotsUsed :: nat
  pd_maxPages :: int
  pd_queueWaitMs :: rat

datatype page_code = PageClosed | PageCancelled | PageTimeout | PageQueueFull

datatype page_outcome =
    PageGranted string
  | PageRefused page_code page_decision
  | PageInvalid string

datatype lease_state = PageReserved | PageActive | PageClosing

record page_lease =
  pl_ownerId :: string
  pl_state :: lease_state
  pl_estimate :: rat
  pl_uncovered :: bool
  pl_grantSource :: string
  pl_grantSequence :: jnum
  pl_createdAt :: "rat option"
  pl_readyAt :: "rat option"

record page_waiter =
  pw_ticket :: nat
  pw_ownerId :: string
  pw_estimate :: rat
  pw_enqueuedAt :: rat
  pw_deadlineAt :: rat
  pw_lastDecision :: "page_decision option"

record closing_debt =
  cd_estimate :: rat
  cd_releasedAt :: rat

record page_request =
  pr_ownerId :: string
  pr_deadlineAt :: "jnum option"
  pr_timeoutMs :: "jnum option"
  pr_estimateMB :: "jnum option"

record page_config =
  pc_maxPages :: int
  pc_maxQueue :: int
  pc_queueTimeoutMs :: rat
  pc_estimate :: rat
  pc_minPhysicalMB :: rat
  pc_minCommitMB :: rat
  pc_sampleMaxAgeMs :: rat
  pc_startupWindowMs :: rat

record page_ctl =
  pg_leases :: "(string \<times> page_lease) list"
  pg_closingDebts :: "closing_debt list"
  pg_waiters :: "page_waiter list"
  pg_ownerTurns :: "(string \<times> int) list"
  pg_turn :: nat
  pg_lastSample :: "memory_snapshot option"
  pg_lastDecision :: "page_decision option"
  pg_timer :: "rat option"
  pg_disposed :: bool
  pg_nextTicket :: nat
  pg_settled :: "(nat \<times> page_outcome) list"

text \<open>
  What an operation reads: the clock, the provider's snapshot (\<open>None\<close> if it throws) and which requests have an
  aborted signal.
\<close>

record page_env =
  pe_now :: rat
  pe_snapshot :: "memory_snapshot option"
  pe_aborted :: "nat \<Rightarrow> bool"

section \<open>Options\<close>

record page_options =
  po_maxPages :: "jnum option"
  po_maxQueue :: "jnum option"
  po_queueTimeoutMs :: "jnum option"
  po_estimateMB :: "jnum option"
  po_minPhysicalMB :: "jnum option"
  po_minCommitMB :: "jnum option"
  po_sampleMaxAgeMs :: "jnum option"
  po_startupWindowMs :: "jnum option"

text \<open>The numbers of the process environment; a missing or blank variable is \<open>None\<close>.\<close>

type_synonym env_vars = "string \<Rightarrow> jnum option"

definition positive_of :: "jnum \<Rightarrow> rat option" where
  "positive_of v = (case finite_of v of None \<Rightarrow> None | Some q \<Rightarrow> if q > 0 then Some q else None)"

definition env_number :: "env_vars \<Rightarrow> string \<Rightarrow> jnum \<Rightarrow> jnum" where
  "env_number vars name fallback =
     (case vars name of
        None \<Rightarrow> fallback
      | Some v \<Rightarrow> (case positive_of v of None \<Rightarrow> fallback | Some _ \<Rightarrow> v))"

definition positive :: "string \<Rightarrow> jnum \<Rightarrow> string + rat" where
  "positive name v = (case positive_of v of None \<Rightarrow> Inl name | Some q \<Rightarrow> Inr q)"

fun given_or :: "jnum option \<Rightarrow> jnum \<Rightarrow> jnum" where
  "given_or None fallback = fallback"
| "given_or (Some v) fallback = v"

definition make_page_config :: "env_vars \<Rightarrow> page_options \<Rightarrow> string + page_config" where
  "make_page_config vars opts =
     and_then (positive ''maxPages'' (given_or (po_maxPages opts)
       (env_number vars ''WEB_FETCHER_MAX_CONCURRENT_PAGES'' (env_number vars ''WEB_FETCHER_MAX_PAGES'' (Fin 8))))) (\<lambda>pages.
     and_then (positive ''maxQueue'' (given_or (po_maxQueue opts) (env_number vars ''WEB_FETCHER_PAGE_QUEUE_LIMIT'' (Fin 32)))) (\<lambda>queue.
     and_then (ensure ''limits'' (min 64 \<lfloor>pages\<rfloor> \<ge> 1 \<and> \<lfloor>queue\<rfloor> \<ge> 1)) (\<lambda>_.
     and_then (positive ''queueTimeoutMs'' (given_or (po_queueTimeoutMs opts) (env_number vars ''WEB_FETCHER_PAGE_QUEUE_TIMEOUT_MS'' (Fin 8000)))) (\<lambda>timeout.
     and_then (positive ''estimatedMemoryMB'' (given_or (po_estimateMB opts) (env_number vars ''WEB_FETCHER_PAGE_ESTIMATE_MB'' (Fin 256)))) (\<lambda>estimate.
     and_then (positive ''minPhysicalMB'' (given_or (po_minPhysicalMB opts) (env_number vars ''WEB_FETCHER_MIN_PHYSICAL_MB'' (Fin 1024)))) (\<lambda>physical.
     and_then (positive ''minCommitMB'' (given_or (po_minCommitMB opts) (env_number vars ''WEB_FETCHER_MIN_COMMIT_MB'' (Fin 2048)))) (\<lambda>commit.
     and_then (positive ''sampleMaxAgeMs'' (given_or (po_sampleMaxAgeMs opts) (Fin 2000))) (\<lambda>age.
     and_then (positive ''startupWindowMs'' (given_or (po_startupWindowMs opts) (env_number vars ''WEB_FETCHER_PAGE_STARTUP_WINDOW_MS'' (Fin 5000)))) (\<lambda>window.
       Inr \<lparr>pc_maxPages = min 64 \<lfloor>pages\<rfloor>, pc_maxQueue = \<lfloor>queue\<rfloor>, pc_queueTimeoutMs = timeout, pc_estimate = estimate,
            pc_minPhysicalMB = physical, pc_minCommitMB = commit, pc_sampleMaxAgeMs = age, pc_startupWindowMs = window\<rparr>)))))))))"

definition new_page_ctl :: page_ctl where
  "new_page_ctl = \<lparr>pg_leases = [], pg_closingDebts = [], pg_waiters = [], pg_ownerTurns = [], pg_turn = 0,
     pg_lastSample = None, pg_lastDecision = None, pg_timer = None, pg_disposed = False, pg_nextTicket = 0,
     pg_settled = []\<rparr>"

section \<open>Samples\<close>

definition failed_snapshot :: memory_snapshot where
  "failed_snapshot = \<lparr>ms_valid = False, ms_mode = WindowsMode, ms_sourceId = ''unknown'', ms_sequence = Fin 0,
     ms_sampledAt = NegInf, ms_physicalMB = None, ms_commitMB = None, ms_lowMemory = None,
     ms_reason = Some ''memory_provider_failed''\<rparr>"

definition not_sampled :: memory_snapshot where
  "not_sampled = \<lparr>ms_valid = False, ms_mode = WindowsMode, ms_sourceId = ''not_sampled'', ms_sequence = Fin 0,
     ms_sampledAt = NegInf, ms_physicalMB = None, ms_commitMB = None, ms_lowMemory = None, ms_reason = None\<rparr>"

definition read_sample :: "page_env \<Rightarrow> memory_snapshot" where
  "read_sample e = (case pe_snapshot e of None \<Rightarrow> failed_snapshot | Some m \<Rightarrow> m)"

text \<open>The finite, nonnegative number of an optional field.\<close>

definition measured :: "jnum option \<Rightarrow> rat option" where
  "measured v = (case v of None \<Rightarrow> None | Some x \<Rightarrow>
     (case finite_of x of None \<Rightarrow> None | Some q \<Rightarrow> if q \<ge> 0 then Some q else None))"

definition sample_fresh :: "page_config \<Rightarrow> memory_snapshot \<Rightarrow> rat \<Rightarrow> bool" where
  "sample_fresh c m now =
     (ms_valid m \<and> ms_mode m = WindowsMode
      \<and> (case safe_integer_of (ms_sequence m) of None \<Rightarrow> False | Some i \<Rightarrow> i \<ge> 0)
      \<and> ms_sourceId m \<noteq> []
      \<and> (case finite_of (ms_sampledAt m) of None \<Rightarrow> False | Some t \<Rightarrow> t \<le> now \<and> now - t \<le> pc_sampleMaxAgeMs c)
      \<and> ms_lowMemory m \<noteq> None \<and> measured (ms_physicalMB m) \<noteq> None \<and> measured (ms_commitMB m) \<noteq> None)"

text \<open>\<open>x > y\<close> for a finite \<open>x\<close>.\<close>

fun exceeds_number :: "rat \<Rightarrow> jnum \<Rightarrow> bool" where
  "exceeds_number x (Fin q) \<longleftrightarrow> x > q"
| "exceeds_number x NegZero \<longleftrightarrow> x > 0"
| "exceeds_number x NegInf \<longleftrightarrow> True"
| "exceeds_number x _ \<longleftrightarrow> False"

definition sequence_exceeds :: "jnum \<Rightarrow> jnum \<Rightarrow> bool" where
  "sequence_exceeds x y = (case finite_of x of None \<Rightarrow> False | Some q \<Rightarrow> exceeds_number q y)"

text \<open>A fresh sample taken after a page had time to start covers it; one taken after a release covers the debt.\<close>

definition cover_lease :: "page_config \<Rightarrow> memory_snapshot \<Rightarrow> rat \<Rightarrow> page_lease \<Rightarrow> page_lease" where
  "cover_lease c m t l =
     (case (pl_createdAt l, pl_readyAt l) of
        (Some created, Some ready) \<Rightarrow>
          if pl_uncovered l \<and> t > max ready (created + pc_startupWindowMs c)
             \<and> (ms_sourceId m \<noteq> pl_grantSource l \<or> sequence_exceeds (ms_sequence m) (pl_grantSequence l))
          then l\<lparr>pl_uncovered := False\<rparr> else l
      | _ \<Rightarrow> l)"

definition retire_covered :: "page_config \<Rightarrow> memory_snapshot \<Rightarrow> rat \<Rightarrow> page_ctl \<Rightarrow> page_ctl" where
  "retire_covered c m now s =
     (if sample_fresh c m now
      then (case finite_of (ms_sampledAt m) of
              None \<Rightarrow> s
            | Some t \<Rightarrow> s\<lparr>pg_leases := map (\<lambda>(i, l). (i, cover_lease c m t l)) (pg_leases s),
                          pg_closingDebts := filter (\<lambda>d. t \<le> cd_releasedAt d) (pg_closingDebts s)\<rparr>)
      else s)"

definition uncovered_memory :: "page_ctl \<Rightarrow> rat" where
  "uncovered_memory s =
     sum_list (map cd_estimate (pg_closingDebts s))
     + sum_list (map (\<lambda>(i, l). if pl_uncovered l then pl_estimate l else 0) (pg_leases s))"

section \<open>Decisions\<close>

definition page_limit :: "page_config \<Rightarrow> memory_snapshot \<Rightarrow> int" where
  "page_limit c m = (if ms_mode m = UnsupportedMode then min 5 (pc_maxPages c) else pc_maxPages c)"

text \<open>\<open>blockedBy ??= b\<close> if the condition holds.\<close>

definition blocked_if :: "bool \<Rightarrow> page_blocker \<Rightarrow> page_blocker option \<Rightarrow> page_blocker option" where
  "blocked_if cond b cur = (if cond \<and> cur = None then Some b else cur)"

definition page_decision_for :: "page_config \<Rightarrow> page_ctl \<Rightarrow> page_waiter \<Rightarrow> memory_snapshot \<Rightarrow> rat \<Rightarrow> page_decision" where
  "page_decision_for c s w m now =
     (let uncovered = uncovered_memory s;
          slots = length (pg_leases s);
          limited = blocked_if (int slots \<ge> page_limit c m) PageLimit None;
          base = \<lparr>pd_blockedBy = limited, pd_memoryMode = ms_mode m, pd_sampleReason = ms_reason m,
                  pd_sampleAgeMs = map_option (\<lambda>t. max 0 (now - t)) (finite_of (ms_sampledAt m)),
                  pd_sourceId = ms_sourceId m, pd_sequence = ms_sequence m,
                  pd_physicalMB = ms_physicalMB m, pd_commitMB = ms_commitMB m,
                  pd_projectedPhysicalMB = None, pd_projectedCommitMB = None,
                  pd_uncoveredMB = uncovered, pd_estimateMB = pw_estimate w,
                  pd_minPhysicalMB = pc_minPhysicalMB c, pd_minCommitMB = pc_minCommitMB c,
                  pd_slotsUsed = slots, pd_maxPages = page_limit c m,
                  pd_queueWaitMs = max 0 (now - pw_enqueuedAt w)\<rparr>
      in if ms_mode m = UnsupportedMode then base
         else if \<not> sample_fresh c m now
         then base\<lparr>pd_blockedBy := blocked_if True (if ms_valid m then MemorySampleStale else MemorySampleUnavailable) limited\<rparr>
         else (case (measured (ms_physicalMB m), measured (ms_commitMB m)) of
                 (Some physical, Some commit) \<Rightarrow>
                   (let pp = physical - uncovered - pw_estimate w; pcm = commit - uncovered - pw_estimate w
                    in base\<lparr>pd_projectedPhysicalMB := Some pp, pd_projectedCommitMB := Some pcm,
                         pd_blockedBy :=
                           blocked_if (pcm < pc_minCommitMB c) CommitMemory
                             (blocked_if (pp < pc_minPhysicalMB c) PhysicalMemory
                               (blocked_if (ms_lowMemory m = Some True) LowMemory limited))\<rparr>)
               | _ \<Rightarrow> base))"

text \<open>\<open>error\<close>: the decision of a refusal, which is remembered.\<close>

definition refusal :: "page_config \<Rightarrow> page_env \<Rightarrow> page_ctl \<Rightarrow> page_waiter \<Rightarrow> page_blocker option \<Rightarrow> page_decision" where
  "refusal c e s w b =
     (let d = page_decision_for c s w (case pg_lastSample s of None \<Rightarrow> not_sampled | Some m \<Rightarrow> m) (pe_now e);
          earlier = (case pw_lastDecision w of None \<Rightarrow> None | Some x \<Rightarrow> pd_blockedBy x)
      in d\<lparr>pd_blockedBy := Some (case b of Some x \<Rightarrow> x | None \<Rightarrow>
             (case pd_blockedBy d of Some x \<Rightarrow> x | None \<Rightarrow> (case earlier of Some x \<Rightarrow> x | None \<Rightarrow> DeadlinePassed)))\<rparr>)"

definition settle :: "nat \<Rightarrow> page_outcome \<Rightarrow> page_ctl \<Rightarrow> page_ctl" where
  "settle i out s = s\<lparr>pg_settled := pg_settled s @ [(i, out)]\<rparr>"

definition refuse_waiter :: "page_config \<Rightarrow> page_env \<Rightarrow> page_waiter \<Rightarrow> page_code \<Rightarrow> page_blocker option \<Rightarrow> page_ctl \<Rightarrow> page_ctl" where
  "refuse_waiter c e w code b s =
     (let d = refusal c e s w b in settle (pw_ticket w) (PageRefused code d) (s\<lparr>pg_lastDecision := Some d\<rparr>))"

definition remove_waiter :: "page_waiter \<Rightarrow> page_ctl \<Rightarrow> page_ctl" where
  "remove_waiter w s = s\<lparr>pg_waiters := filter (\<lambda>x. pw_ticket x \<noteq> pw_ticket w) (pg_waiters s)\<rparr>"

section \<open>Refreshing\<close>

definition expired :: "page_env \<Rightarrow> page_waiter \<Rightarrow> bool" where
  "expired e w \<longleftrightarrow> pe_aborted e (pw_ticket w) \<or> pe_now e \<ge> pw_deadlineAt w"

text \<open>The end of a request that was aborted or is too late; \<open>late\<close> is the reason of a timeout.\<close>

definition expire_waiter :: "page_config \<Rightarrow> page_env \<Rightarrow> page_blocker option \<Rightarrow> page_waiter \<Rightarrow> page_ctl \<Rightarrow> page_ctl" where
  "expire_waiter c e late w s =
     (if pe_aborted e (pw_ticket w)
      then refuse_waiter c e w PageCancelled (Some Cancelled) (remove_waiter w s)
      else refuse_waiter c e w PageTimeout late (remove_waiter w s))"

definition expire_waiters :: "page_config \<Rightarrow> page_env \<Rightarrow> page_ctl \<Rightarrow> page_ctl" where
  "expire_waiters c e s =
     fold (\<lambda>w s. if expired e w then expire_waiter c e None w s else s) (pg_waiters s) s"

definition turn_of :: "page_ctl \<Rightarrow> string \<Rightarrow> int" where
  "turn_of s owner = (case map_of (pg_ownerTurns s) owner of None \<Rightarrow> 0 | Some t \<Rightarrow> t)"

definition ordered_owners :: "page_ctl \<Rightarrow> string list" where
  "ordered_owners s = sort_by (\<lambda>a b. turn_of s a - turn_of s b) (unique_list (map pw_ownerId (pg_waiters s)))"

definition remember_decision :: "page_waiter \<Rightarrow> page_decision \<Rightarrow> page_ctl \<Rightarrow> page_ctl" where
  "remember_decision w d s =
     s\<lparr>pg_waiters := map (\<lambda>x. if pw_ticket x = pw_ticket w then x\<lparr>pw_lastDecision := Some d\<rparr> else x) (pg_waiters s),
       pg_lastDecision := Some d\<rparr>"

text \<open>The first owner in turn whose first request is not blocked.\<close>

fun select_waiter :: "page_config \<Rightarrow> page_env \<Rightarrow> memory_snapshot \<Rightarrow> string list \<Rightarrow> page_ctl \<Rightarrow> page_waiter option \<times> page_ctl" where
  "select_waiter c e m [] s = (None, s)"
| "select_waiter c e m (owner # owners) s =
     (case find (\<lambda>w. pw_ownerId w = owner) (pg_waiters s) of
        None \<Rightarrow> select_waiter c e m owners s
      | Some w \<Rightarrow>
          (let d = page_decision_for c s w m (pe_now e); s' = remember_decision w d s
           in if pd_blockedBy d = None then (Some (w\<lparr>pw_lastDecision := Some d\<rparr>), s') else select_waiter c e m owners s'))"

definition reserve_page :: "(nat \<Rightarrow> string) \<Rightarrow> page_waiter \<Rightarrow> memory_snapshot \<Rightarrow> page_ctl \<Rightarrow> page_ctl" where
  "reserve_page uuid w m s =
     s\<lparr>pg_leases := map_put (uuid (pg_turn s))
         \<lparr>pl_ownerId = pw_ownerId w, pl_state = PageReserved, pl_estimate = pw_estimate w,
          pl_uncovered = (ms_mode m \<noteq> UnsupportedMode), pl_grantSource = ms_sourceId m,
          pl_grantSequence = ms_sequence m, pl_createdAt = None, pl_readyAt = None\<rparr> (pg_leases s)\<rparr>"

definition grant_page :: "(nat \<Rightarrow> string) \<Rightarrow> page_waiter \<Rightarrow> memory_snapshot \<Rightarrow> page_ctl \<Rightarrow> page_ctl" where
  "grant_page uuid w m s =
     (let s1 = reserve_page uuid w m (remove_waiter w s);
          turn = pg_turn s + 1
      in settle (pw_ticket w) (PageGranted (uuid (pg_turn s)))
           (s1\<lparr>pg_turn := turn, pg_ownerTurns := map_put (pw_ownerId w) (int turn) (pg_ownerTurns s1)\<rparr>))"

lemma select_waiter_member:
  "select_waiter c e m owners s = (Some w, s') \<Longrightarrow>
   length (pg_waiters s') = length (pg_waiters s) \<and> w \<in> set (pg_waiters s')"
proof (induction owners arbitrary: s)
  case (Cons owner owners)
  show ?case
  proof (cases "find (\<lambda>w. pw_ownerId w = owner) (pg_waiters s)")
    case None
    then show ?thesis using Cons by simp
  next
    case (Some x)
    then have x: "x \<in> set (pg_waiters s)" by (auto simp: find_Some_iff)
    define d where "d = page_decision_for c s x m (pe_now e)"
    show ?thesis
    proof (cases "pd_blockedBy d = None")
      case True
      then have "w = x\<lparr>pw_lastDecision := Some d\<rparr>" "s' = remember_decision x d s"
        using Cons.prems Some by (simp_all add: d_def [symmetric] Let_def)
      then show ?thesis using x by (force simp: remember_decision_def)
    next
      case False
      then have "select_waiter c e m owners (remember_decision x d s) = (Some w, s')"
        using Cons.prems Some by (simp add: d_def [symmetric] Let_def split: if_splits)
      from Cons.IH [OF this] show ?thesis by (simp add: remember_decision_def)
    qed
  qed
qed simp

lemma remove_waiter_shorter:
  "w \<in> set (pg_waiters s) \<Longrightarrow> length (pg_waiters (remove_waiter w s)) < length (pg_waiters s)"
  by (simp add: remove_waiter_def length_filter_less)

lemma waiters_after [simp]:
  "pg_waiters (expire_waiter c e late w s) = pg_waiters (remove_waiter w s)"
  "pg_waiters (grant_page uuid w m s) = pg_waiters (remove_waiter w s)"
  by (simp_all add: expire_waiter_def refuse_waiter_def settle_def grant_page_def reserve_page_def Let_def)

function drain_pages :: "page_config \<Rightarrow> (nat \<Rightarrow> string) \<Rightarrow> page_env \<Rightarrow> memory_snapshot \<Rightarrow> page_ctl \<Rightarrow> page_ctl" where
  "drain_pages c uuid e m s =
     (case select_waiter c e m (ordered_owners s) s of
        (None, s') \<Rightarrow> s'
      | (Some w, s') \<Rightarrow>
          if expired e w then drain_pages c uuid e m (expire_waiter c e (Some DeadlinePassed) w s')
          else drain_pages c uuid e m (grant_page uuid w m s'))"
  by pat_completeness auto

termination
proof (relation "measure (\<lambda>(c, uuid, e, m, s). length (pg_waiters s))")
  fix c :: page_config and uuid e m and s s' :: page_ctl and r w
  assume "(r, s') = select_waiter c e m (ordered_owners s) s" and "r = Some w"
  then have "length (pg_waiters s') = length (pg_waiters s) \<and> w \<in> set (pg_waiters s')"
    using select_waiter_member by metis
  then have "length (pg_waiters (remove_waiter w s')) < length (pg_waiters s)" using remove_waiter_shorter by metis
  then show "((c, uuid, e, m, expire_waiter c e (Some DeadlinePassed) w s'), c, uuid, e, m, s)
      \<in> measure (\<lambda>(c, uuid, e, m, s). length (pg_waiters s))"
    and "((c, uuid, e, m, grant_page uuid w m s'), c, uuid, e, m, s)
      \<in> measure (\<lambda>(c, uuid, e, m, s). length (pg_waiters s))"
    by simp_all
qed simp

declare drain_pages.simps [simp del]

text \<open>The end of \<open>refresh\<close>: turns of owners that are gone are dropped, and the timer is armed.\<close>

definition live_owners :: "page_ctl \<Rightarrow> string list" where
  "live_owners s = map pw_ownerId (pg_waiters s) @ map (\<lambda>(i, l). pl_ownerId l) (pg_leases s)"

definition timer_delay :: "page_env \<Rightarrow> page_ctl \<Rightarrow> rat option" where
  "timer_delay e s =
     (case map (\<lambda>w. pw_deadlineAt w - pe_now e) (pg_waiters s) of
        [] \<Rightarrow> None
      | d # ds \<Rightarrow> Some (max 1 (min 250 (fold min ds d))))"

definition finish_refresh :: "page_env \<Rightarrow> page_ctl \<Rightarrow> page_ctl" where
  "finish_refresh e s =
     s\<lparr>pg_ownerTurns := filter (\<lambda>(owner, _). owner \<in> set (live_owners s)) (pg_ownerTurns s),
       pg_timer := timer_delay e s\<rparr>"

definition refresh_pages :: "page_config \<Rightarrow> (nat \<Rightarrow> string) \<Rightarrow> page_env \<Rightarrow> page_ctl \<Rightarrow> page_ctl" where
  "refresh_pages c uuid e s =
     (if pg_disposed s then s
      else (let m = read_sample e;
                s1 = retire_covered c m (pe_now e) (s\<lparr>pg_lastSample := Some m\<rparr>)
            in finish_refresh e (drain_pages c uuid e m (expire_waiters c e s1))))"

section \<open>Requests\<close>

definition finite_given :: "jnum option \<Rightarrow> bool" where
  "finite_given v = (case v of None \<Rightarrow> True | Some x \<Rightarrow> finite_of x \<noteq> None)"

definition invalid_request :: "page_request \<Rightarrow> string option" where
  "invalid_request r =
     (if trim (pr_ownerId r) = [] then Some ''ownerId''
      else if \<not> finite_given (pr_deadlineAt r) then Some ''deadlineAt''
      else if (case pr_timeoutMs r of None \<Rightarrow> False | Some x \<Rightarrow> measured (Some x) = None) then Some ''timeoutMs''
      else if (case pr_estimateMB r of None \<Rightarrow> False | Some x \<Rightarrow> positive_of x = None) then Some ''estimatedMemoryMB''
      else None)"

definition value_or :: "jnum option \<Rightarrow> rat \<Rightarrow> rat" where
  "value_or v fallback = (case v of None \<Rightarrow> fallback | Some x \<Rightarrow> (case finite_of x of None \<Rightarrow> fallback | Some q \<Rightarrow> q))"

definition new_waiter :: "page_config \<Rightarrow> page_env \<Rightarrow> page_request \<Rightarrow> nat \<Rightarrow> page_waiter" where
  "new_waiter c e r ticket =
     (let late = pe_now e + min (value_or (pr_timeoutMs r) (pc_queueTimeoutMs c)) (pc_queueTimeoutMs c)
      in \<lparr>pw_ticket = ticket, pw_ownerId = pr_ownerId r, pw_estimate = value_or (pr_estimateMB r) (pc_estimate c),
          pw_enqueuedAt = pe_now e, pw_deadlineAt = min (value_or (pr_deadlineAt r) late) late, pw_lastDecision = None\<rparr>)"

text \<open>The promise exists from the call on: its ticket is the next one.\<close>

definition acquire_page :: "page_config \<Rightarrow> (nat \<Rightarrow> string) \<Rightarrow> page_env \<Rightarrow> page_request \<Rightarrow> page_ctl \<Rightarrow> page_ctl" where
  "acquire_page c uuid e r s =
     (let i = pg_nextTicket s; w = new_waiter c e r i;
          refuse = (\<lambda>code b s. refuse_waiter c e w code b (s\<lparr>pg_nextTicket := i + 1\<rparr>))
      in case invalid_request r of
           Some name \<Rightarrow> settle i (PageInvalid name) (s\<lparr>pg_nextTicket := i + 1\<rparr>)
         | None \<Rightarrow>
             if pg_disposed s then refuse PageClosed (Some ControllerClosed) s
             else if pe_aborted e i then refuse PageCancelled (Some Cancelled) s
             else if pe_now e \<ge> pw_deadlineAt w then refuse PageTimeout (Some DeadlinePassed) s
             else
               (let s1 = refresh_pages c uuid e s
                in if int (length (pg_waiters s1)) \<ge> pc_maxQueue c
                   then refuse PageQueueFull (Some QueueFull) s1
                   else refresh_pages c uuid e (s1\<lparr>pg_waiters := pg_waiters s1 @ [w], pg_nextTicket := i + 1\<rparr>)))"

text \<open>The abort listener of a request that waits.\<close>

definition abort_page_request :: "page_config \<Rightarrow> (nat \<Rightarrow> string) \<Rightarrow> page_env \<Rightarrow> nat \<Rightarrow> page_ctl \<Rightarrow> page_ctl" where
  "abort_page_request c uuid e i s =
     (case find (\<lambda>w. pw_ticket w = i) (pg_waiters s) of
        None \<Rightarrow> s
      | Some w \<Rightarrow> refresh_pages c uuid e (refuse_waiter c e w PageCancelled (Some Cancelled) (remove_waiter w s)))"

section \<open>Leases\<close>

definition update_page_lease :: "string \<Rightarrow> (page_lease \<Rightarrow> page_lease) \<Rightarrow> page_ctl \<Rightarrow> page_ctl" where
  "update_page_lease i f s = s\<lparr>pg_leases := map (\<lambda>(k, l). (k, if k = i then f l else l)) (pg_leases s)\<rparr>"

definition first_time :: "rat \<Rightarrow> rat option \<Rightarrow> rat option" where
  "first_time now t = (case t of None \<Rightarrow> Some now | Some x \<Rightarrow> Some x)"

definition mark_created :: "page_env \<Rightarrow> string \<Rightarrow> page_ctl \<Rightarrow> bool \<times> page_ctl" where
  "mark_created e i s =
     (case map_of (pg_leases s) i of
        None \<Rightarrow> (False, s)
      | Some _ \<Rightarrow> (True, update_page_lease i (\<lambda>l. l\<lparr>pl_createdAt := first_time (pe_now e) (pl_createdAt l),
                     pl_state := (if pl_state l = PageClosing then PageClosing else PageActive)\<rparr>) s))"

definition mark_ready :: "page_config \<Rightarrow> (nat \<Rightarrow> string) \<Rightarrow> page_env \<Rightarrow> string \<Rightarrow> page_ctl \<Rightarrow> bool \<times> page_ctl" where
  "mark_ready c uuid e i s =
     (case map_of (pg_leases s) i of
        None \<Rightarrow> (False, s)
      | Some l \<Rightarrow>
          if pl_createdAt l = None \<or> pl_state l = PageClosing then (False, s)
          else (True, refresh_pages c uuid e
                  (update_page_lease i (\<lambda>l. l\<lparr>pl_readyAt := first_time (pe_now e) (pl_readyAt l)\<rparr>) s)))"

definition mark_closing :: "string \<Rightarrow> page_ctl \<Rightarrow> bool \<times> page_ctl" where
  "mark_closing i s =
     (case map_of (pg_leases s) i of
        None \<Rightarrow> (False, s)
      | Some _ \<Rightarrow> (True, update_page_lease i (\<lambda>l. l\<lparr>pl_state := PageClosing\<rparr>) s))"

definition release_page :: "page_config \<Rightarrow> (nat \<Rightarrow> string) \<Rightarrow> page_env \<Rightarrow> string \<Rightarrow> page_ctl \<Rightarrow> bool \<times> page_ctl" where
  "release_page c uuid e i s =
     (case map_of (pg_leases s) i of
        None \<Rightarrow> (False, s)
      | Some l \<Rightarrow>
          (let s1 = s\<lparr>pg_leases := map_del i (pg_leases s)\<rparr>;
               s2 = (if pl_uncovered l \<and> pl_createdAt l \<noteq> None
                     then s1\<lparr>pg_closingDebts := pg_closingDebts s1 @ [\<lparr>cd_estimate = pl_estimate l, cd_releasedAt = pe_now e\<rparr>]\<rparr>
                     else s1)
           in (True, refresh_pages c uuid e s2)))"

section \<open>Reports and the end\<close>

record page_stats =
  st_reserved :: nat
  st_active :: nat
  st_closing :: nat
  st_queued :: nat
  st_used :: nat
  st_max :: int
  st_configuredMax :: int
  st_uncoveredMB :: rat
  st_lastBlockedBy :: "page_blocker option"
  st_lastDecision :: "page_decision option"
  st_memoryMode :: memory_mode
  st_disposed :: bool

definition page_stats_of :: "page_config \<Rightarrow> page_ctl \<Rightarrow> page_stats" where
  "page_stats_of c s =
     (let count = (\<lambda>st. length (filter (\<lambda>(i, l). pl_state l = st) (pg_leases s)));
          mode = (case pg_lastSample s of None \<Rightarrow> WindowsMode | Some m \<Rightarrow> ms_mode m)
      in \<lparr>st_reserved = count PageReserved, st_active = count PageActive, st_closing = count PageClosing,
          st_queued = length (pg_waiters s), st_used = length (pg_leases s),
          st_max = (if mode = UnsupportedMode then min 5 (pc_maxPages c) else pc_maxPages c),
          st_configuredMax = pc_maxPages c, st_uncoveredMB = uncovered_memory s,
          st_lastBlockedBy = (case pg_lastDecision s of None \<Rightarrow> None | Some d \<Rightarrow> pd_blockedBy d),
          st_lastDecision = pg_lastDecision s, st_memoryMode = mode, st_disposed = pg_disposed s\<rparr>)"

definition dispose_pages :: "page_config \<Rightarrow> page_env \<Rightarrow> page_ctl \<Rightarrow> page_ctl" where
  "dispose_pages c e s =
     (if pg_disposed s then s
      else fold (\<lambda>w s. refuse_waiter c e w PageClosed (Some ControllerClosed) (remove_waiter w s)) (pg_waiters s)
             (s\<lparr>pg_disposed := True, pg_timer := None\<rparr>))"

section \<open>Runs\<close>

datatype page_op =
    AcquirePage page_env page_request
  | AbortPage page_env nat
  | CreatedPage page_env string
  | ReadyPage page_env string
  | ClosingPage page_env string
  | ReleasePage page_env string
  | RefreshPages page_env
  | DisposePages page_env

fun page_step :: "page_config \<Rightarrow> (nat \<Rightarrow> string) \<Rightarrow> page_ctl \<Rightarrow> page_op \<Rightarrow> page_ctl" where
  "page_step c uuid s (AcquirePage e r) = acquire_page c uuid e r s"
| "page_step c uuid s (AbortPage e i) = abort_page_request c uuid e i s"
| "page_step c uuid s (CreatedPage e i) = snd (mark_created e i s)"
| "page_step c uuid s (ReadyPage e i) = snd (mark_ready c uuid e i s)"
| "page_step c uuid s (ClosingPage e i) = snd (mark_closing i s)"
| "page_step c uuid s (ReleasePage e i) = snd (release_page c uuid e i s)"
| "page_step c uuid s (RefreshPages e) = refresh_pages c uuid e s"
| "page_step c uuid s (DisposePages e) = dispose_pages c e s"

definition page_run :: "page_config \<Rightarrow> (nat \<Rightarrow> string) \<Rightarrow> page_op list \<Rightarrow> page_ctl" where
  "page_run c uuid ops = foldl (page_step c uuid) new_page_ctl ops"

end
