(* ===== verification/PageAdmissionFacts.thy ===== *)
theory PageAdmissionFacts
  imports PageAdmission "HOL-Library.Multiset"
begin

text \<open>
  The invariant of the page controller, that every operation keeps it, and the room that a grant leaves.
\<close>

section \<open>The invariant\<close>

text \<open>
  The leases have distinct identifiers of earlier grants and fit the limit, the queue fits its bound, and every
  ticket either waits or is settled, once.
\<close>

definition pages_ok :: "page_config \<Rightarrow> (nat \<Rightarrow> string) \<Rightarrow> page_ctl \<Rightarrow> bool" where
  "pages_ok c uuid s \<longleftrightarrow> distinct (map fst (pg_leases s)) \<and> int (length (pg_leases s)) \<le> pc_maxPages c
     \<and> set (map fst (pg_leases s)) \<subseteq> uuid ` {..<pg_turn s}
     \<and> int (length (pg_waiters s)) \<le> pc_maxQueue c
     \<and> mset (map pw_ticket (pg_waiters s)) + mset (map fst (pg_settled s)) = mset [0..<pg_nextTicket s]"

lemma tickets_distinct: "pages_ok c uuid s \<Longrightarrow> distinct (map pw_ticket (pg_waiters s) @ map fst (pg_settled s))"
  unfolding pages_ok_def by (metis distinct_upt mset_append mset_eq_imp_distinct_iff)

text \<open>What the invariant looks at.\<close>

definition same_pages :: "page_ctl \<Rightarrow> page_ctl \<Rightarrow> bool" where
  "same_pages s s' \<longleftrightarrow> map fst (pg_leases s') = map fst (pg_leases s) \<and> pg_turn s' = pg_turn s
     \<and> map pw_ticket (pg_waiters s') = map pw_ticket (pg_waiters s) \<and> pg_settled s' = pg_settled s
     \<and> pg_nextTicket s' = pg_nextTicket s"

lemma same_pages_refl [simp]: "same_pages s s"
  by (simp add: same_pages_def)

lemma same_pages_trans: "same_pages s t \<Longrightarrow> same_pages t u \<Longrightarrow> same_pages s u"
  by (simp add: same_pages_def)

lemma same_pages_ok: "same_pages s s' \<Longrightarrow> pages_ok c uuid s \<Longrightarrow> pages_ok c uuid s'"
  unfolding pages_ok_def same_pages_def by (metis length_map)

lemma remember_same: "same_pages s (remember_decision w d s)"
  by (auto simp: same_pages_def remember_decision_def)

lemma retire_same: "same_pages s (retire_covered c m now s)"
  by (auto simp: same_pages_def retire_covered_def split: option.splits)

lemma finish_same: "same_pages s (finish_refresh e s)"
  by (simp add: same_pages_def finish_refresh_def)

lemma update_same: "same_pages s (update_page_lease i f s)"
  by (auto simp: same_pages_def update_page_lease_def)

section \<open>Removing a request\<close>

lemma mset_remove_ticket:
  assumes "distinct (map pw_ticket ws)" and "t \<in> set (map pw_ticket ws)"
  shows "add_mset t (mset (map pw_ticket (filter (\<lambda>x. pw_ticket x \<noteq> t) ws))) = mset (map pw_ticket ws)"
  using assms
proof (induction ws)
  case (Cons w ws)
  show ?case
  proof (cases "pw_ticket w = t")
    case True
    have "pw_ticket w \<notin> set (map pw_ticket ws)" using Cons.prems(1) by simp
    then have "\<forall>x \<in> set ws. pw_ticket x \<noteq> t" using True by (metis image_eqI set_map)
    then have "filter (\<lambda>x. pw_ticket x \<noteq> t) ws = ws" by (rule filter_True)
    then show ?thesis using True by simp
  next
    case False
    then show ?thesis using Cons by (simp add: add_mset_commute)
  qed
qed simp

text \<open>A waiting request is settled: by a refusal, or by a grant that also adds a lease.\<close>

lemma settled_ok:
  assumes "pages_ok c uuid s" and "pw_ticket w \<in> set (map pw_ticket (pg_waiters s))"
    and "pg_waiters s' = pg_waiters (remove_waiter w s)" and "pg_settled s' = pg_settled s @ [(pw_ticket w, out)]"
    and "pg_nextTicket s' = pg_nextTicket s"
    and "distinct (map fst (pg_leases s'))" "int (length (pg_leases s')) \<le> pc_maxPages c"
      "set (map fst (pg_leases s')) \<subseteq> uuid ` {..<pg_turn s'}"
  shows "pages_ok c uuid s'"
proof -
  have "distinct (map pw_ticket (pg_waiters s))" using tickets_distinct [OF assms(1)] by simp
  then have "add_mset (pw_ticket w) (mset (map pw_ticket (pg_waiters s'))) = mset (map pw_ticket (pg_waiters s))"
    using mset_remove_ticket assms(2,3) by (simp add: remove_waiter_def del: mset_map)
  moreover have "mset (map fst (pg_settled s')) = add_mset (pw_ticket w) (mset (map fst (pg_settled s)))"
    using assms(4) by simp
  ultimately have "mset (map pw_ticket (pg_waiters s')) + mset (map fst (pg_settled s')) =
    mset (map pw_ticket (pg_waiters s)) + mset (map fst (pg_settled s))"
    by (metis union_mset_add_mset_left union_mset_add_mset_right)
  also have "\<dots> = mset [0..<pg_nextTicket s']" using assms(1) unfolding pages_ok_def assms(5) by blast
  finally have tickets: "mset (map pw_ticket (pg_waiters s')) + mset (map fst (pg_settled s')) = mset [0..<pg_nextTicket s']" .
  have "length (pg_waiters s') \<le> length (pg_waiters s)"
    using assms(3) by (simp add: remove_waiter_def)
  moreover have "int (length (pg_waiters s)) \<le> pc_maxQueue c" using assms(1) unfolding pages_ok_def by blast
  ultimately have "int (length (pg_waiters s')) \<le> pc_maxQueue c" by simp
  then show ?thesis unfolding pages_ok_def using assms(6-8) tickets by blast
qed

lemma refuse_fields [simp]:
  "pg_waiters (refuse_waiter c e w code b s) = pg_waiters s" "pg_leases (refuse_waiter c e w code b s) = pg_leases s"
  "pg_turn (refuse_waiter c e w code b s) = pg_turn s" "pg_nextTicket (refuse_waiter c e w code b s) = pg_nextTicket s"
  "pg_settled (refuse_waiter c e w code b s) = pg_settled s @ [(pw_ticket w, PageRefused code (refusal c e s w b))]"
  "pg_closingDebts (refuse_waiter c e w code b s) = pg_closingDebts s"
  "pg_disposed (refuse_waiter c e w code b s) = pg_disposed s"
  by (simp_all add: refuse_waiter_def settle_def Let_def)

lemma remove_fields [simp]:
  "pg_leases (remove_waiter w s) = pg_leases s" "pg_turn (remove_waiter w s) = pg_turn s"
  "pg_nextTicket (remove_waiter w s) = pg_nextTicket s" "pg_settled (remove_waiter w s) = pg_settled s"
  "pg_closingDebts (remove_waiter w s) = pg_closingDebts s" "pg_disposed (remove_waiter w s) = pg_disposed s"
  by (simp_all add: remove_waiter_def)

lemma refuse_removed_ok:
  "pages_ok c uuid s \<Longrightarrow> pw_ticket w \<in> set (map pw_ticket (pg_waiters s))
   \<Longrightarrow> pages_ok c uuid (refuse_waiter c' e w code b (remove_waiter w s))"
  by (rule settled_ok) (auto simp: pages_ok_def)

lemma expire_ok:
  "pages_ok c uuid s \<Longrightarrow> pw_ticket w \<in> set (map pw_ticket (pg_waiters s)) \<Longrightarrow> pages_ok c uuid (expire_waiter c' e late w s)"
  unfolding expire_waiter_def using refuse_removed_ok by (simp split: if_split)

text \<open>Settling some of the requests of a list, each by a step that removes only its own ticket.\<close>

lemma fold_settle_ok:
  assumes step: "\<And>w s. pages_ok c uuid s \<Longrightarrow> pw_ticket w \<in> set (map pw_ticket (pg_waiters s)) \<Longrightarrow> pages_ok c uuid (f w s)"
    and others: "\<And>w s t. t \<in> set (map pw_ticket (pg_waiters s)) \<Longrightarrow> t \<noteq> pw_ticket w \<Longrightarrow> t \<in> set (map pw_ticket (pg_waiters (f w s)))"
  shows "distinct (map pw_ticket ws) \<Longrightarrow> set (map pw_ticket ws) \<subseteq> set (map pw_ticket (pg_waiters s))
    \<Longrightarrow> pages_ok c uuid s \<Longrightarrow> pages_ok c uuid (fold f ws s)"
proof (induction ws arbitrary: s)
  case (Cons w ws)
  have "pages_ok c uuid (f w s)" using step Cons.prems by simp
  moreover have "set (map pw_ticket ws) \<subseteq> set (map pw_ticket (pg_waiters (f w s)))"
  proof
    fix t assume t: "t \<in> set (map pw_ticket ws)"
    then have "t \<noteq> pw_ticket w" using Cons.prems(1) by (metis distinct.simps(2) list.simps(9))
    then show "t \<in> set (map pw_ticket (pg_waiters (f w s)))" using others t Cons.prems(2) by auto
  qed
  ultimately show ?case using Cons by simp
qed simp

lemma removed_others:
  "t \<in> set (map pw_ticket (pg_waiters s)) \<Longrightarrow> t \<noteq> pw_ticket w \<Longrightarrow> t \<in> set (map pw_ticket (pg_waiters (remove_waiter w s)))"
  by (auto simp: remove_waiter_def)

lemma expire_waiters_ok: "pages_ok c uuid s \<Longrightarrow> pages_ok c uuid (expire_waiters c' e s)"
  unfolding expire_waiters_def
proof (rule fold_settle_ok)
  assume ok: "pages_ok c uuid s"
  show "distinct (map pw_ticket (pg_waiters s))" using tickets_distinct [OF ok] by simp
  show "pages_ok c uuid s" by (rule ok)
qed (auto simp only: waiters_after intro: expire_ok removed_others split: if_split)

section \<open>Granting\<close>

lemma decision_same:
  assumes "pg_leases s' = pg_leases s" and "pg_closingDebts s' = pg_closingDebts s"
    and "pw_estimate w' = pw_estimate w" and "pw_enqueuedAt w' = pw_enqueuedAt w"
  shows "page_decision_for c s' w' m now = page_decision_for c s w m now"
proof -
  have memory: "uncovered_memory s' = uncovered_memory s" using assms by (simp add: uncovered_memory_def)
  show ?thesis unfolding page_decision_for_def memory assms ..
qed

lemma select_waiter_shape:
  "select_waiter c e m owners s = (r, s') \<Longrightarrow> same_pages s s' \<and> pg_leases s' = pg_leases s \<and> pg_closingDebts s' = pg_closingDebts s
    \<and> pg_disposed s' = pg_disposed s
    \<and> (case r of None \<Rightarrow> True | Some w \<Rightarrow> w \<in> set (pg_waiters s') \<and> pd_blockedBy (page_decision_for c s' w m (pe_now e)) = None)"
proof (induction owners arbitrary: s)
  case (Cons owner owners)
  show ?case
  proof (cases "find (\<lambda>w. pw_ownerId w = owner) (pg_waiters s)")
    case None
    then show ?thesis using Cons by simp
  next
    case (Some x)
    then have x: "x \<in> set (pg_waiters s)" by (auto simp: find_Some_iff)
    define d where "d = page_decision_for c s x m (pe_now e)"
    have same: "same_pages s (remember_decision x d s)" "pg_leases (remember_decision x d s) = pg_leases s"
      "pg_closingDebts (remember_decision x d s) = pg_closingDebts s" "pg_disposed (remember_decision x d s) = pg_disposed s"
      by (simp add: remember_same) (simp_all add: remember_decision_def)
    show ?thesis
    proof (cases "pd_blockedBy d = None")
      case True
      then have r: "r = Some (x\<lparr>pw_lastDecision := Some d\<rparr>)" "s' = remember_decision x d s"
        using Cons.prems Some by (simp_all add: d_def [symmetric] Let_def)
      have "x\<lparr>pw_lastDecision := Some d\<rparr> \<in> set (pg_waiters s')" using x by (force simp: r remember_decision_def)
      moreover have "page_decision_for c s' (x\<lparr>pw_lastDecision := Some d\<rparr>) m (pe_now e) = d"
        unfolding d_def by (rule decision_same) (simp_all add: r remember_decision_def)
      ultimately show ?thesis using r same True by simp
    next
      case False
      then have "select_waiter c e m owners (remember_decision x d s) = (r, s')"
        using Cons.prems Some by (simp add: d_def [symmetric] Let_def split: if_splits)
      from Cons.IH [OF this] show ?thesis using same same_pages_trans by auto
    qed
  qed
qed simp

text \<open>The room that the limits leave for a sample.\<close>

definition room_left :: "page_config \<Rightarrow> memory_snapshot \<Rightarrow> rat \<Rightarrow> page_ctl \<Rightarrow> bool" where
  "room_left c m now s \<longleftrightarrow> int (length (pg_leases s)) \<le> page_limit c m
     \<and> (ms_mode m = UnsupportedMode
        \<or> sample_fresh c m now \<and> ms_lowMemory m = Some False
          \<and> (case (measured (ms_physicalMB m), measured (ms_commitMB m)) of
               (Some physical, Some commit) \<Rightarrow> uncovered_memory s + pc_minPhysicalMB c \<le> physical
                 \<and> uncovered_memory s + pc_minCommitMB c \<le> commit
             | _ \<Rightarrow> False))"

lemma blocked_if_None: "blocked_if b x cur = None \<longleftrightarrow> \<not> b \<and> cur = None"
  by (auto simp: blocked_if_def)

lemma uncovered_put:
  "i \<notin> set (map fst (pg_leases s)) \<Longrightarrow>
   uncovered_memory (s\<lparr>pg_leases := map_put i l (pg_leases s)\<rparr>) = uncovered_memory s + (if pl_uncovered l then pl_estimate l else 0)"
  by (simp add: uncovered_memory_def map_put_appends)

lemma fresh_identifier:
  assumes "pages_ok c uuid s" and "inj uuid"
  shows "uuid (pg_turn s) \<notin> set (map fst (pg_leases s))"
proof
  assume "uuid (pg_turn s) \<in> set (map fst (pg_leases s))"
  then have "uuid (pg_turn s) \<in> uuid ` {..<pg_turn s}" using assms(1) unfolding pages_ok_def by blast
  then show False using assms(2) by (auto dest: injD)
qed

lemma grant_fields:
  "pg_leases (grant_page uuid w m s) = map_put (uuid (pg_turn s))
     \<lparr>pl_ownerId = pw_ownerId w, pl_state = PageReserved, pl_estimate = pw_estimate w,
      pl_uncovered = (ms_mode m \<noteq> UnsupportedMode), pl_grantSource = ms_sourceId m,
      pl_grantSequence = ms_sequence m, pl_createdAt = None, pl_readyAt = None\<rparr> (pg_leases s)"
  "pg_closingDebts (grant_page uuid w m s) = pg_closingDebts s"
  "pg_turn (grant_page uuid w m s) = pg_turn s + 1" "pg_nextTicket (grant_page uuid w m s) = pg_nextTicket s"
  "pg_settled (grant_page uuid w m s) = pg_settled s @ [(pw_ticket w, PageGranted (uuid (pg_turn s)))]"
  "pg_disposed (grant_page uuid w m s) = pg_disposed s"
  by (simp_all add: grant_page_def reserve_page_def settle_def Let_def)

lemma grant_room:
  assumes "pages_ok c uuid s" and "inj uuid" and "pd_blockedBy (page_decision_for c s w m now) = None"
  shows "room_left c m now (grant_page uuid w m s)"
proof -
  note fresh = fresh_identifier [OF assms(1,2)]
  have slots: "int (length (pg_leases s)) < page_limit c m"
    using assms(3) by (auto simp: page_decision_for_def Let_def blocked_if_None split: if_splits option.splits)
  have len: "length (pg_leases (grant_page uuid w m s)) = length (pg_leases s) + 1"
    using fresh by (simp add: grant_fields map_put_appends)
  have unc: "uncovered_memory (grant_page uuid w m s) = uncovered_memory s + (if ms_mode m \<noteq> UnsupportedMode then pw_estimate w else 0)"
    using fresh by (simp add: uncovered_memory_def grant_fields map_put_appends)
  show ?thesis
  proof (cases "ms_mode m = UnsupportedMode")
    case True
    then show ?thesis using slots len by (simp add: room_left_def)
  next
    case False
    then have fresh_sample: "sample_fresh c m now"
      using assms(3) by (auto simp: page_decision_for_def Let_def blocked_if_None split: if_splits)
    then obtain p k where p: "measured (ms_physicalMB m) = Some p" "measured (ms_commitMB m) = Some k" and low: "ms_lowMemory m \<noteq> None"
      by (auto simp: sample_fresh_def)
    then have "\<not> k - uncovered_memory s - pw_estimate w < pc_minCommitMB c"
      "\<not> p - uncovered_memory s - pw_estimate w < pc_minPhysicalMB c" "ms_lowMemory m \<noteq> Some True"
      using assms(3) False fresh_sample by (simp_all add: page_decision_for_def Let_def blocked_if_None)
    then show ?thesis using slots len unc False fresh_sample p low by (auto simp: room_left_def)
  qed
qed

lemma page_limit_le: "page_limit c m \<le> pc_maxPages c"
  by (simp add: page_limit_def)

lemma grant_ok:
  assumes "pages_ok c uuid s" and "inj uuid" and "pd_blockedBy (page_decision_for c s w m now) = None"
    and "w \<in> set (pg_waiters s)"
  shows "pages_ok c uuid (grant_page uuid w m s)"
proof (rule settled_ok [OF assms(1), where w = w])
  note fresh = fresh_identifier [OF assms(1,2)]
  show "pw_ticket w \<in> set (map pw_ticket (pg_waiters s))" using assms(4) by simp
  show "distinct (map fst (pg_leases (grant_page uuid w m s)))"
    unfolding grant_fields using assms(1) by (intro distinct_map_put) (simp add: pages_ok_def)
  show "int (length (pg_leases (grant_page uuid w m s))) \<le> pc_maxPages c"
    using grant_room [OF assms(1-3)] page_limit_le [of c m] by (simp add: room_left_def)
  show "set (map fst (pg_leases (grant_page uuid w m s))) \<subseteq> uuid ` {..<pg_turn (grant_page uuid w m s)}"
    unfolding grant_fields keys_map_put using assms(1) unfolding pages_ok_def by (auto simp: lessThan_Suc)
qed (simp_all add: grant_fields)

lemma room_same:
  "pg_leases s' = pg_leases s \<Longrightarrow> pg_closingDebts s' = pg_closingDebts s \<Longrightarrow> room_left c m now s' = room_left c m now s"
proof -
  assume same: "pg_leases s' = pg_leases s" "pg_closingDebts s' = pg_closingDebts s"
  then have memory: "uncovered_memory s' = uncovered_memory s" by (simp add: uncovered_memory_def)
  show ?thesis unfolding room_left_def memory same ..
qed

lemma drain_ok:
  "inj uuid \<Longrightarrow> pages_ok c uuid s \<Longrightarrow> pages_ok c uuid (drain_pages c uuid e m s)
    \<and> (room_left c m (pe_now e) s \<longrightarrow> room_left c m (pe_now e) (drain_pages c uuid e m s))
    \<and> (pg_turn (drain_pages c uuid e m s) = pg_turn s \<or> room_left c m (pe_now e) (drain_pages c uuid e m s))
    \<and> pg_disposed (drain_pages c uuid e m s) = pg_disposed s \<and> pg_nextTicket (drain_pages c uuid e m s) = pg_nextTicket s"
proof (induction c uuid e m s rule: drain_pages.induct)
  case (1 c uuid e m s)
  obtain r s' where sel: "select_waiter c e m (ordered_owners s) s = (r, s')" by fastforce
  note shape = select_waiter_shape [OF sel]
  then have ok: "pages_ok c uuid s'" using 1(4) same_pages_ok by blast
  have room: "room_left c m (pe_now e) s' = room_left c m (pe_now e) s" using shape by (intro room_same) simp_all
  have turn: "pg_turn s' = pg_turn s" "pg_nextTicket s' = pg_nextTicket s" using shape by (simp_all add: same_pages_def)
  show ?case
  proof (cases r)
    case None
    then show ?thesis using sel ok room turn shape by (simp add: drain_pages.simps [of c uuid e m s])
  next
    case (Some w)
    then have w: "w \<in> set (pg_waiters s')" "pd_blockedBy (page_decision_for c s' w m (pe_now e)) = None" using shape by simp_all
    show ?thesis
    proof (cases "expired e w")
      case True
      have step: "drain_pages c uuid e m s = drain_pages c uuid e m (expire_waiter c e (Some DeadlinePassed) w s')"
        using sel Some True by (simp add: drain_pages.simps [of c uuid e m s])
      have ok2: "pages_ok c uuid (expire_waiter c e (Some DeadlinePassed) w s')" using expire_ok [OF ok] w by simp
      have fields: "pg_leases (expire_waiter c e (Some DeadlinePassed) w s') = pg_leases s'"
        "pg_closingDebts (expire_waiter c e (Some DeadlinePassed) w s') = pg_closingDebts s'"
        "pg_turn (expire_waiter c e (Some DeadlinePassed) w s') = pg_turn s'"
        "pg_disposed (expire_waiter c e (Some DeadlinePassed) w s') = pg_disposed s'"
        "pg_nextTicket (expire_waiter c e (Some DeadlinePassed) w s') = pg_nextTicket s'"
        by (simp_all add: expire_waiter_def)
      show ?thesis unfolding step
        using 1(1) [OF sel [symmetric] Some True 1(3) ok2] room turn room_same [OF fields(1,2)] fields shape by auto
    next
      case False
      have step: "drain_pages c uuid e m s = drain_pages c uuid e m (grant_page uuid w m s')"
        using sel Some False by (simp add: drain_pages.simps [of c uuid e m s])
      have ok2: "pages_ok c uuid (grant_page uuid w m s')" by (rule grant_ok [OF ok 1(3) w(2,1)])
      have "room_left c m (pe_now e) (grant_page uuid w m s')" by (rule grant_room [OF ok 1(3) w(2)])
      then show ?thesis unfolding step
        using 1(2) [OF sel [symmetric] Some False 1(3) ok2] shape turn by (simp add: grant_fields)
    qed
  qed
qed

section \<open>Operations\<close>

lemma retire_room_fields: "pg_nextTicket (retire_covered c m now s) = pg_nextTicket s" "pg_turn (retire_covered c m now s) = pg_turn s" "pg_disposed (retire_covered c m now s) = pg_disposed s"
  by (auto simp: retire_covered_def split: option.splits)

lemma expire_waiters_fields: "pg_turn (expire_waiters c e s) = pg_turn s \<and> pg_nextTicket (expire_waiters c e s) = pg_nextTicket s
  \<and> pg_disposed (expire_waiters c e s) = pg_disposed s"
proof -
  have "pg_turn (fold (\<lambda>w s. if expired e w then expire_waiter c e None w s else s) ws s) = pg_turn s
    \<and> pg_nextTicket (fold (\<lambda>w s. if expired e w then expire_waiter c e None w s else s) ws s) = pg_nextTicket s
    \<and> pg_disposed (fold (\<lambda>w s. if expired e w then expire_waiter c e None w s else s) ws s) = pg_disposed s" for ws
    by (induction ws arbitrary: s) (simp_all add: expire_waiter_def)
  then show ?thesis by (simp add: expire_waiters_def)
qed

lemma refreshed_pages_ok:
  assumes "inj uuid" and "pages_ok c uuid s"
  shows "pages_ok c uuid (refresh_pages c uuid e s)"
    and "pg_turn (refresh_pages c uuid e s) = pg_turn s \<or> room_left c (read_sample e) (pe_now e) (refresh_pages c uuid e s)"
    and "pg_nextTicket (refresh_pages c uuid e s) = pg_nextTicket s"
proof -
  let ?m = "read_sample e"
  define s1 where "s1 = expire_waiters c e (retire_covered c ?m (pe_now e) (s\<lparr>pg_lastSample := Some ?m\<rparr>))"
  have "same_pages s (s\<lparr>pg_lastSample := Some ?m\<rparr>)" by (simp add: same_pages_def)
  then have "pages_ok c uuid (retire_covered c ?m (pe_now e) (s\<lparr>pg_lastSample := Some ?m\<rparr>))"
    using assms(2) same_pages_ok retire_same by blast
  then have ok: "pages_ok c uuid s1" unfolding s1_def by (rule expire_waiters_ok)
  have turn: "pg_turn s1 = pg_turn s" "pg_nextTicket s1 = pg_nextTicket s"
    by (simp_all add: s1_def expire_waiters_fields retire_room_fields)
  note drain = drain_ok [OF assms(1) ok, of e ?m]
  define s2 where "s2 = finish_refresh e (drain_pages c uuid e ?m s1)"
  have s2: "refresh_pages c uuid e s = (if pg_disposed s then s else s2)"
    by (simp add: refresh_pages_def Let_def s1_def s2_def)
  have "pages_ok c uuid s2" unfolding s2_def using drain same_pages_ok [OF finish_same] by blast
  then show "pages_ok c uuid (refresh_pages c uuid e s)" using assms(2) by (simp add: s2)
  have "room_left c ?m (pe_now e) s2 = room_left c ?m (pe_now e) (drain_pages c uuid e ?m s1)" "pg_turn s2 = pg_turn (drain_pages c uuid e ?m s1)"
    unfolding s2_def by (intro room_same) (simp_all add: finish_refresh_def)
  then show "pg_turn (refresh_pages c uuid e s) = pg_turn s \<or> room_left c ?m (pe_now e) (refresh_pages c uuid e s)"
    using drain turn by (auto simp: s2)
  have "pg_nextTicket s2 = pg_nextTicket s" using drain turn(2) by (simp add: s2_def finish_refresh_def)
  then show "pg_nextTicket (refresh_pages c uuid e s) = pg_nextTicket s" by (simp add: s2)
qed

text \<open>A ticket that is settled at once.\<close>

lemma refuse_new_ok:
  assumes "pages_ok c uuid s" and "pg_nextTicket s = pw_ticket w"
  shows "pages_ok c uuid (refuse_waiter c' e w code b (s\<lparr>pg_nextTicket := pw_ticket w + 1\<rparr>))"
  using assms by (simp add: pages_ok_def)

lemma invalid_new_ok:
  "pages_ok c uuid s \<Longrightarrow> pages_ok c uuid (settle (pg_nextTicket s) out (s\<lparr>pg_nextTicket := pg_nextTicket s + 1\<rparr>))"
  by (simp add: pages_ok_def settle_def)

lemma push_ok:
  assumes "pages_ok c uuid s" and "pg_nextTicket s = pw_ticket w" and "int (length (pg_waiters s)) < pc_maxQueue c"
  shows "pages_ok c uuid (s\<lparr>pg_waiters := pg_waiters s @ [w], pg_nextTicket := pw_ticket w + 1\<rparr>)"
  using assms by (simp add: pages_ok_def)

lemma acquire_ok:
  assumes "inj uuid" and "pages_ok c uuid s"
  shows "pages_ok c uuid (acquire_page c uuid e r s)"
proof -
  define w where "w = new_waiter c e r (pg_nextTicket s)"
  have t: "pw_ticket w = pg_nextTicket s" by (simp add: w_def new_waiter_def Let_def)
  define s1 where "s1 = refresh_pages c uuid e s"
  have s1: "pages_ok c uuid s1" "pg_nextTicket s1 = pw_ticket w"
    using refreshed_pages_ok [OF assms] by (simp_all add: s1_def t)
  have refused: "pages_ok c uuid (refuse_waiter c e w code b (s'\<lparr>pg_nextTicket := pg_nextTicket s + 1\<rparr>))"
    if "pages_ok c uuid s'" "pg_nextTicket s' = pw_ticket w" for s' code b
    using refuse_new_ok [OF that] by (simp add: t)
  have pushed: "pages_ok c uuid (refresh_pages c uuid e (s1\<lparr>pg_waiters := pg_waiters s1 @ [w], pg_nextTicket := pg_nextTicket s + 1\<rparr>))"
    if "int (length (pg_waiters s1)) < pc_maxQueue c"
    using refreshed_pages_ok(1) [OF assms(1) push_ok [OF s1 that]] by (simp add: t)
  show ?thesis
    unfolding acquire_page_def Let_def w_def [symmetric] s1_def [symmetric]
    using refused [OF assms(2) t [symmetric]] refused [OF s1] pushed invalid_new_ok [OF assms(2)]
    by (simp split: option.split)
qed

lemma abort_ok:
  assumes "inj uuid" and "pages_ok c uuid s"
  shows "pages_ok c uuid (abort_page_request c uuid e i s)"
proof (cases "find (\<lambda>w. pw_ticket w = i) (pg_waiters s)")
  case None
  then show ?thesis using assms by (simp add: abort_page_request_def)
next
  case (Some w)
  then have "w \<in> set (pg_waiters s)" by (auto simp: find_Some_iff)
  then have "pages_ok c uuid (refuse_waiter c e w PageCancelled (Some Cancelled) (remove_waiter w s))"
    by (intro refuse_removed_ok [OF assms(2)]) simp
  then show ?thesis using refreshed_pages_ok(1) [OF assms(1)] Some by (simp add: abort_page_request_def)
qed

lemma updated_ok: "pages_ok c uuid s \<Longrightarrow> pages_ok c uuid (update_page_lease i f s)"
  by (rule same_pages_ok [OF update_same])

lemma release_ok:
  assumes "inj uuid" and "pages_ok c uuid s"
  shows "pages_ok c uuid (snd (release_page c uuid e i s))"
proof (cases "map_of (pg_leases s) i")
  case None
  then show ?thesis using assms by (simp add: release_page_def)
next
  case (Some l)
  have "length (map_del i (pg_leases s)) \<le> length (pg_leases s)" by (simp add: map_del_def)
  then have "pages_ok c uuid (s\<lparr>pg_leases := map_del i (pg_leases s)\<rparr>)"
    using assms(2) distinct_map_del [of "pg_leases s" i] keys_map_del [of i "pg_leases s"]
    unfolding pages_ok_def by auto
  then have "pages_ok c uuid (s\<lparr>pg_leases := map_del i (pg_leases s), pg_closingDebts := ds\<rparr>)" for ds
    by (rule same_pages_ok [rotated]) (simp add: same_pages_def)
  note kept = this [of "pg_closingDebts s"] this
  show ?thesis
    using Some kept refreshed_pages_ok(1) [OF assms(1)] by (simp add: release_page_def Let_def)
qed

lemma dispose_ok:
  assumes "pages_ok c uuid s"
  shows "pages_ok c uuid (dispose_pages c' e s)"
proof -
  let ?s = "s\<lparr>pg_disposed := True, pg_timer := None\<rparr>"
  have ok: "pages_ok c uuid ?s" using assms by (rule same_pages_ok [rotated]) (simp add: same_pages_def)
  have "pages_ok c uuid (fold (\<lambda>w s. refuse_waiter c' e w PageClosed (Some ControllerClosed) (remove_waiter w s)) (pg_waiters s) ?s)"
  proof (rule fold_settle_ok)
    show "distinct (map pw_ticket (pg_waiters s))" using tickets_distinct [OF assms] by simp
  qed (auto simp only: refuse_fields intro: refuse_removed_ok removed_others ok, simp)
  then show ?thesis using assms by (simp add: dispose_pages_def)
qed

lemma page_step_ok:
  assumes "inj uuid" and "pages_ok c uuid s"
  shows "pages_ok c uuid (page_step c uuid s op)"
  using assms
  by (cases op) (auto simp: mark_created_def mark_ready_def mark_closing_def acquire_ok abort_ok release_ok dispose_ok
      refreshed_pages_ok(1) updated_ok split: option.split)

lemma page_run_ok:
  assumes "inj uuid" and "0 \<le> pc_maxPages c" and "0 \<le> pc_maxQueue c"
  shows "pages_ok c uuid (page_run c uuid ops)"
  unfolding page_run_def
proof (induction ops rule: rev_induct)
  case Nil
  show ?case using assms by (simp add: pages_ok_def new_page_ctl_def)
next
  case (snoc op ops)
  then show ?case using page_step_ok [OF assms(1)] by simp
qed

lemma make_page_config_ok:
  "make_page_config vars opts = Inr c \<Longrightarrow> 1 \<le> pc_maxPages c \<and> pc_maxPages c \<le> 64 \<and> 1 \<le> pc_maxQueue c"
  by (auto simp: make_page_config_def result_simps)

section \<open>Nothing that fits is left\<close>

text \<open>What a decision reads of a request.\<close>

definition request_key :: "page_waiter \<Rightarrow> string \<times> rat \<times> rat" where
  "request_key w = (pw_ownerId w, pw_estimate w, pw_enqueuedAt w)"

lemma find_same_key:
  "map request_key ws' = map request_key ws \<Longrightarrow>
   map_option request_key (find (\<lambda>x. pw_ownerId x = owner) ws') = map_option request_key (find (\<lambda>x. pw_ownerId x = owner) ws)"
proof (induction ws arbitrary: ws')
  case (Cons w ws)
  then obtain w' vs where ws': "ws' = w' # vs" by (cases ws') auto
  then have k: "request_key w' = request_key w" "map request_key vs = map request_key ws" using Cons.prems by simp_all
  then have "pw_ownerId w' = pw_ownerId w" by (simp add: request_key_def)
  then show ?case using Cons.IH [OF k(2)] k(1) ws' by simp
qed simp

lemma remember_keys: "map request_key (pg_waiters (remember_decision w d s)) = map request_key (pg_waiters s)"
  by (simp add: remember_decision_def request_key_def)

lemma select_keys: "select_waiter c e m owners s = (r, s') \<Longrightarrow> map request_key (pg_waiters s') = map request_key (pg_waiters s)"
proof (induction owners arbitrary: s)
  case (Cons owner owners)
  show ?case
  proof (cases "find (\<lambda>w. pw_ownerId w = owner) (pg_waiters s)")
    case None
    then show ?thesis using Cons by simp
  next
    case (Some x)
    define d where "d = page_decision_for c s x m (pe_now e)"
    show ?thesis
    proof (cases "pd_blockedBy d = None")
      case True
      then have "s' = remember_decision x d s" using Cons.prems Some by (simp add: d_def [symmetric] Let_def)
      then show ?thesis by (simp add: remember_keys)
    next
      case False
      then have "select_waiter c e m owners (remember_decision x d s) = (r, s')"
        using Cons.prems Some by (simp add: d_def [symmetric] Let_def split: if_splits)
      from Cons.IH [OF this] show ?thesis by (simp add: remember_keys)
    qed
  qed
qed simp

lemma select_none_blocked:
  "select_waiter c e m owners s = (None, s') \<Longrightarrow> owner \<in> set owners \<Longrightarrow> find (\<lambda>x. pw_ownerId x = owner) (pg_waiters s') = Some w
    \<Longrightarrow> pd_blockedBy (page_decision_for c s' w m (pe_now e)) \<noteq> None"
proof (induction owners arbitrary: s)
  case (Cons o1 owners)
  note keys = find_same_key [OF select_keys [OF Cons.prems(1)], of owner]
  obtain x where x: "find (\<lambda>x. pw_ownerId x = owner) (pg_waiters s) = Some x" "request_key x = request_key w"
    using keys Cons.prems(3) by (cases "find (\<lambda>x. pw_ownerId x = owner) (pg_waiters s)") simp_all
  show ?case
  proof (cases "find (\<lambda>w. pw_ownerId w = o1) (pg_waiters s)")
    case None
    then have "owner \<noteq> o1" using x by auto
    then show ?thesis using Cons None by simp
  next
    case (Some y)
    define d where "d = page_decision_for c s y m (pe_now e)"
    have blocked: "pd_blockedBy d \<noteq> None" and rest: "select_waiter c e m owners (remember_decision y d s) = (None, s')"
      using Cons.prems(1) Some by (simp_all add: d_def [symmetric] Let_def split: if_splits)
    show ?thesis
    proof (cases "owner = o1")
      case True
      then have "y = x" using Some x by simp
      have "page_decision_for c s' w m (pe_now e) = page_decision_for c s x m (pe_now e)"
        using select_waiter_shape [OF Cons.prems(1)] x(2) by (intro decision_same) (simp_all add: request_key_def)
      then show ?thesis using blocked by (simp add: d_def \<open>y = x\<close>)
    next
      case False
      then show ?thesis using Cons.IH [OF rest] Cons.prems by simp
    qed
  qed
qed simp

lemma drained_blocked:
  "find (\<lambda>x. pw_ownerId x = owner) (pg_waiters (drain_pages c uuid e m s)) = Some w
   \<Longrightarrow> pd_blockedBy (page_decision_for c (drain_pages c uuid e m s) w m (pe_now e)) \<noteq> None"
proof (induction c uuid e m s rule: drain_pages.induct)
  case (1 c uuid e m s)
  obtain r s' where sel: "select_waiter c e m (ordered_owners s) s = (r, s')" by fastforce
  show ?case
  proof (cases r)
    case None
    then have drain: "drain_pages c uuid e m s = s'" using sel by (simp add: drain_pages.simps [of c uuid e m s])
    have "owner \<in> set (ordered_owners s)"
    proof -
      have "w \<in> set (pg_waiters s')" "pw_ownerId w = owner" using 1(3) by (auto simp: drain find_Some_iff)
      moreover have "map pw_ownerId (pg_waiters s') = map pw_ownerId (pg_waiters s)"
        using arg_cong [OF select_keys [OF sel], of "map fst"] by (simp add: request_key_def comp_def)
      ultimately have "owner \<in> set (map pw_ownerId (pg_waiters s))" by (metis image_eqI set_map)
      then show ?thesis by (simp add: ordered_owners_def)
    qed
    then show ?thesis using select_none_blocked [OF sel [unfolded None]] 1(3) by (simp add: drain)
  next
    case (Some v)
    show ?thesis
    proof (cases "expired e v")
      case True
      have step: "drain_pages c uuid e m s = drain_pages c uuid e m (expire_waiter c e (Some DeadlinePassed) v s')"
        using sel Some True by (simp add: drain_pages.simps [of c uuid e m s])
      show ?thesis using 1(1) [OF sel [symmetric] Some True] 1(3) unfolding step .
    next
      case False
      have step: "drain_pages c uuid e m s = drain_pages c uuid e m (grant_page uuid v m s')"
        using sel Some False by (simp add: drain_pages.simps [of c uuid e m s])
      show ?thesis using 1(2) [OF sel [symmetric] Some False] 1(3) unfolding step .
    qed
  qed
qed

end
