(* ===== verification/PageAdmissionProps.thy ===== *)
theory PageAdmissionProps
  imports PageAdmissionFacts
begin

text \<open>
  The properties of the page controller: limits and settled promises in every run, the memory that a grant leaves,
  and that a refresh leaves only requests that do not fit.
\<close>

section \<open>The sample run of the witnesses\<close>

definition demo_pages :: page_config where
  "demo_pages = \<lparr>pc_maxPages = 2, pc_maxQueue = 2, pc_queueTimeoutMs = 100, pc_estimate = 10, pc_minPhysicalMB = 20,
     pc_minCommitMB = 30, pc_sampleMaxAgeMs = 50, pc_startupWindowMs = 5\<rparr>"

definition demo_page_options :: page_options where
  "demo_page_options = \<lparr>po_maxPages = Some (Fin 2), po_maxQueue = Some (Fin 2), po_queueTimeoutMs = Some (Fin 100),
     po_estimateMB = Some (Fin 10), po_minPhysicalMB = Some (Fin 20), po_minCommitMB = Some (Fin 30),
     po_sampleMaxAgeMs = Some (Fin 50), po_startupWindowMs = Some (Fin 5)\<rparr>"

text \<open>At time 7 the provider reports 45 MB of physical and 60 MB of commit memory.\<close>

definition demo_page_env :: page_env where
  "demo_page_env = \<lparr>pe_now = 7, pe_snapshot = Some \<lparr>ms_valid = True, ms_mode = WindowsMode, ms_sourceId = ''s'',
     ms_sequence = Fin 1, ms_sampledAt = Fin 6, ms_physicalMB = Some (Fin 45), ms_commitMB = Some (Fin 60),
     ms_lowMemory = Some False, ms_reason = None\<rparr>, pe_aborted = (\<lambda>_. False)\<rparr>"

definition demo_page_request :: "string \<Rightarrow> page_request" where
  "demo_page_request owner = \<lparr>pr_ownerId = owner, pr_deadlineAt = None, pr_timeoutMs = None, pr_estimateMB = None\<rparr>"

definition demo_uuid :: "nat \<Rightarrow> string" where
  "demo_uuid n = replicate n (CHR ''x'')"

lemma demo_uuid_inj: "inj demo_uuid"
  by (rule injI) (metis demo_uuid_def length_replicate)

lemma demo_page_config: "make_page_config (\<lambda>_. None) demo_page_options = Inr demo_pages"
  by code_simp

definition demo_page_run :: "page_op list" where
  "demo_page_run = map (\<lambda>owner. AcquirePage demo_page_env (demo_page_request owner)) [''a'', ''b'']"

text \<open>A queue that waits: the sample of the first call was missing.\<close>

definition demo_waiting :: "page_op list" where
  "demo_waiting = [AcquirePage (demo_page_env\<lparr>pe_snapshot := None\<rparr>) (demo_page_request ''a'')]"

section \<open>The properties\<close>

text \<open>C38: In every run the pages and the queue stay within their limits, and every promise of \<open>acquire\<close> either waits or has been settled, exactly once.\<close>

theorem page_promises_settled_once:
  assumes "make_page_config vars opts = Inr c" and "inj uuid"
  shows "int (length (pg_leases (page_run c uuid ops))) \<le> pc_maxPages c \<and> pc_maxPages c \<le> 64
    \<and> distinct (map fst (pg_leases (page_run c uuid ops)))
    \<and> int (length (pg_waiters (page_run c uuid ops))) \<le> pc_maxQueue c
    \<and> mset (map pw_ticket (pg_waiters (page_run c uuid ops))) + mset (map fst (pg_settled (page_run c uuid ops)))
      = mset [0..<pg_nextTicket (page_run c uuid ops)]"
  using make_page_config_ok [OF assms(1)] page_run_ok [OF assms(2), of c ops] unfolding pages_ok_def by auto

theorem page_promises_settled_once_witness:
  "int (length (pg_leases (page_run demo_pages demo_uuid demo_page_run))) \<le> 2"
  using page_promises_settled_once [OF demo_page_config demo_uuid_inj, of demo_page_run] by (simp add: demo_pages_def)

text \<open>
  C39: A refresh that grants pages ends with at most \<open>maxPages\<close> pages. On a platform without memory samples it grants
  with no sample at all, and ends with at most five pages. On every other platform the sample of the refresh is fresh
  and without low memory, and its physical and commit memory cover the minimum and every page that no sample covers.
\<close>

theorem page_grants_leave_memory:
  assumes "make_page_config vars opts = Inr c" and "inj uuid" and "s = page_run c uuid ops"
    and "s' = refresh_pages c uuid e s" and "pg_turn s' \<noteq> pg_turn s"
  shows "int (length (pg_leases s')) \<le> pc_maxPages c \<and>
    (if ms_mode (read_sample e) = UnsupportedMode then int (length (pg_leases s')) \<le> 5
     else sample_fresh c (read_sample e) (pe_now e) \<and> ms_valid (read_sample e) \<and>
       (\<exists>t. finite_of (ms_sampledAt (read_sample e)) = Some t \<and> t \<le> pe_now e \<and> pe_now e - t \<le> pc_sampleMaxAgeMs c) \<and>
       ms_lowMemory (read_sample e) = Some False \<and>
       (\<exists>physical commit. measured (ms_physicalMB (read_sample e)) = Some physical \<and>
          measured (ms_commitMB (read_sample e)) = Some commit \<and>
          uncovered_memory s' + pc_minPhysicalMB c \<le> physical \<and> uncovered_memory s' + pc_minCommitMB c \<le> commit))"
proof -
  have "pages_ok c uuid s" using make_page_config_ok [OF assms(1)] unfolding assms(3) by (intro page_run_ok [OF assms(2)]) simp_all
  from refreshed_pages_ok(2) [OF assms(2) this, of e] assms(4,5) have "room_left c (read_sample e) (pe_now e) s'" by simp
  then show ?thesis by (auto simp: room_left_def page_limit_def sample_fresh_def split: option.splits)
qed

text \<open>On a platform without samples six requests wait for the first refresh, and five of them are granted.\<close>

definition unsupported_env :: page_env where
  "unsupported_env = demo_page_env\<lparr>pe_snapshot := map_option (\<lambda>m. m\<lparr>ms_mode := UnsupportedMode, ms_valid := False\<rparr>) (pe_snapshot demo_page_env)\<rparr>"

definition many_page_options :: page_options where
  "many_page_options = demo_page_options\<lparr>po_maxPages := Some (Fin 9), po_maxQueue := Some (Fin 9)\<rparr>"

definition many_pages :: page_config where
  "many_pages = demo_pages\<lparr>pc_maxPages := 9, pc_maxQueue := 9\<rparr>"

lemma many_page_config: "make_page_config (\<lambda>_. None) many_page_options = Inr many_pages"
  by code_simp

definition many_waiting :: "page_op list" where
  "many_waiting = map (\<lambda>owner. AcquirePage (demo_page_env\<lparr>pe_snapshot := None\<rparr>) (demo_page_request [owner])) ''abcdef''"

theorem page_grants_leave_memory_witness:
  "uncovered_memory (refresh_pages demo_pages demo_uuid demo_page_env (page_run demo_pages demo_uuid demo_waiting)) + 20 \<le> 45 \<and>
   (let s = page_run many_pages demo_uuid many_waiting
    in length (pg_waiters s) = 6 \<and> length (pg_leases (refresh_pages many_pages demo_uuid unsupported_env s)) = 5)"
proof -
  let ?s = "page_run demo_pages demo_uuid demo_waiting" and ?t = "page_run many_pages demo_uuid many_waiting"
  have "pg_turn (refresh_pages demo_pages demo_uuid demo_page_env ?s) \<noteq> pg_turn ?s" by code_simp
  from page_grants_leave_memory [OF demo_page_config demo_uuid_inj refl refl this]
  have one: "uncovered_memory (refresh_pages demo_pages demo_uuid demo_page_env ?s) + 20 \<le> 45"
    by (simp add: demo_pages_def demo_page_env_def read_sample_def measured_def split: if_splits)
  have "pg_turn (refresh_pages many_pages demo_uuid unsupported_env ?t) \<noteq> pg_turn ?t" by code_simp
  from page_grants_leave_memory [OF many_page_config demo_uuid_inj refl refl this]
  have "length (pg_leases (refresh_pages many_pages demo_uuid unsupported_env ?t)) \<le> 5"
    by (simp add: unsupported_env_def demo_page_env_def read_sample_def)
  moreover have "length (pg_waiters ?t) = 6 \<and> 5 \<le> length (pg_leases (refresh_pages many_pages demo_uuid unsupported_env ?t))" by code_simp
  ultimately show ?thesis using one by (simp add: Let_def)
qed

text \<open>C40: After a refresh of a controller that is not disposed, the first waiting request of every owner is blocked.\<close>

theorem refresh_leaves_only_blocked:
  assumes "\<not> pg_disposed s" and "find (\<lambda>x. pw_ownerId x = owner) (pg_waiters (refresh_pages c uuid e s)) = Some w"
  shows "pd_blockedBy (page_decision_for c (refresh_pages c uuid e s) w (read_sample e) (pe_now e)) \<noteq> None"
proof -
  define s1 where "s1 = drain_pages c uuid e (read_sample e)
    (expire_waiters c e (retire_covered c (read_sample e) (pe_now e) (s\<lparr>pg_lastSample := Some (read_sample e)\<rparr>)))"
  have r: "refresh_pages c uuid e s = finish_refresh e s1" using assms(1) by (simp add: refresh_pages_def Let_def s1_def)
  have "find (\<lambda>x. pw_ownerId x = owner) (pg_waiters s1) = Some w" using assms(2) by (simp add: r finish_refresh_def)
  then have "pd_blockedBy (page_decision_for c s1 w (read_sample e) (pe_now e)) \<noteq> None"
    unfolding s1_def by (rule drained_blocked)
  moreover have "page_decision_for c (finish_refresh e s1) w (read_sample e) (pe_now e) = page_decision_for c s1 w (read_sample e) (pe_now e)"
    by (rule decision_same) (simp_all add: finish_refresh_def)
  ultimately show ?thesis by (simp add: r)
qed

theorem refresh_leaves_only_blocked_witness:
  "case pg_waiters (refresh_pages demo_pages demo_uuid (demo_page_env\<lparr>pe_snapshot := None\<rparr>) (page_run demo_pages demo_uuid demo_waiting)) of
     [w] \<Rightarrow> pd_blockedBy (page_decision_for demo_pages
       (refresh_pages demo_pages demo_uuid (demo_page_env\<lparr>pe_snapshot := None\<rparr>) (page_run demo_pages demo_uuid demo_waiting)) w failed_snapshot 7) \<noteq> None
   | _ \<Rightarrow> False"
proof -
  let ?e = "demo_page_env\<lparr>pe_snapshot := None\<rparr>"
  let ?s = "page_run demo_pages demo_uuid demo_waiting"
  have one: "map pw_ownerId (pg_waiters (refresh_pages demo_pages demo_uuid ?e ?s)) = [''a'']" by code_simp
  then obtain w where w: "pg_waiters (refresh_pages demo_pages demo_uuid ?e ?s) = [w]" "pw_ownerId w = ''a''" by auto
  have "\<not> pg_disposed ?s" by code_simp
  from refresh_leaves_only_blocked [OF this, of "''a''" demo_pages demo_uuid ?e w] w show ?thesis
    by (simp add: read_sample_def demo_page_env_def)
qed

end
