(* ===== verification/Spec2Isabelle.thy ===== *)
theory Spec2Isabelle
  imports UnitProps UnitDispatchProps ResourceAdmissionProps SchedFairnessProps LedgerProps BudgetProps SchedQueueProps AgyWatermarkProps MemoryQueryProps PageAdmissionProps
begin

text \<open>
  A verification development of the TypeScript tool servers of this repository. The servers under
  \<open>src/mcps/\<close> give language-model agents tools: \<open>memory-store\<close> keeps conversation records and
  memories and generates records with model providers, \<open>sandbox\<close> runs commands and an agent server. Almost all of
  their code is input and output; the decisions are made by components that keep a state of their own and
  change it in synchronous methods. These components are modelled here, each as the code has it, and the
  theorems are about their definitions.

  The parts and how they interact. A record task of \<open>memory-store\<close> is a ledger: its data, state machines and
  consistency rules are \<open>record-scheduler-contracts.ts\<close> (theories \<open>Ledger...\<close>). The queue
  \<open>record-scheduler-queue.ts\<close> (\<open>SchedQueue...\<close>, over the ledger types) indexes ledgers and hands out prompts of
  units that may be dispatched; \<open>record-scheduler-fairness.ts\<close> (\<open>SchedFairness...\<close>) decides whose turn it is.
  The plan of one record, with its units, their dependencies, attempts, providers, splits and results, is
  \<open>record-unit-engine.ts\<close> (\<open>Unit...\<close>, \<open>RuntimeTree\<close>). \<open>agy-memory-watermark.ts\<close> (\<open>AgyWatermark...\<close>) limits
  the processes of a provider by the used memory. \<open>query-parser.ts\<close> (\<open>MemoryQuery...\<close>) parses the queries of
  the memory search. In \<open>sandbox\<close>, \<open>resource-admission.ts\<close> (\<open>ResourceAdmission...\<close>) admits commands by
  memory pressure, and \<open>agent-server/accounting/budget-ledger.ts\<close> (\<open>Budget...\<close>) keeps the budgets of runs.
  In \<open>web-fetcher\<close>, \<open>page-admission.ts\<close> (\<open>PageAdmission...\<close>) admits browser pages by the free memory.

  The theories.

  \<open>ToolkitBase\<close>, \<open>ToolkitState\<close>: what the sources take from the language. Errors are the left summand of a sum
  (\<open>and_then\<close>, \<open>ensure\<close>, \<open>each_ok\<close>, \<open>map_ok\<close>, inverted by the collection \<open>result_simps\<close>); a method that changes an
  object and may throw is a procedure from the object to its outcome and the object afterwards (\<open>proc\<close>, with
  \<open>succeeds\<close>, \<open>keeps\<close> and the collection \<open>proc_simps\<close>), since a throw keeps earlier changes. Numbers are exact
  rationals with the special values of a JavaScript number (\<open>jnum\<close>). Maps in insertion order are association
  lists (\<open>map_put\<close>, \<open>map_del\<close>). The locales \<open>comparator\<close>, \<open>strict_comparator\<close> and \<open>keyed_store\<close> are the
  interfaces of sorting and of maps, interpreted on the orders and the maps of the components.

  \<open>UnitJson\<close>, \<open>UnitTypes\<close>, \<open>UnitParse\<close>: canonical JSON, the data and the strict reader of a planning input.
  \<open>UnitGraph\<close> and \<open>UnitLayers\<close>: the graph checks and the correctness of Kahn's algorithm and of the chains.
  \<open>RuntimeTree\<close>: the persistent search tree of runtimes, in the locale \<open>collation\<close> of a strict string order, and the
  lookups of a built tree under a comparator that only tells the keys of the tree apart (\<open>tells_apart\<close>).
  \<open>UnitPlan\<close>, \<open>UnitRun\<close>, \<open>UnitSplit\<close>, \<open>UnitChain\<close>, \<open>UnitCompose\<close>: creating and validating a plan, starts,
  successes, failures, unknown outcomes, splits and composition, each function of the source as one definition of
  the same name. \<open>UnitPlanFacts\<close>, \<open>UnitRunFacts\<close>, \<open>UnitSplitFacts\<close>: what they keep. \<open>UnitEngine\<close>: the engine as a
  step relation with its reachable plans. \<open>UnitProps\<close>, \<open>UnitDispatchProps\<close>: the invariants of reachable plans, the
  acceptance of inputs, and what a dispatch guarantees. \<open>UnitDemo\<close> holds the run of the witnesses. \<open>host\<close>
  collects the parameters: \<open>sha256\<close>, the text of a number and \<open>localeCompare\<close>. The creation of a plan assumes that
  \<open>localeCompare\<close> tells the unit ids of the input apart; the properties of reachable plans assume a strict order on
  strings. ICU calls some distinct strings equal, and then an input that is accepted otherwise may be refused
  (\<open>confused_ids_are_rejected\<close>).

  \<open>ResourceAdmission\<close>: the class \<open>ResourceAdmissionController\<close>, with its options, leases, queue, aging, owner
  rotation, pressure samples and reports. Timers and abort listeners are operations of a run
  (\<open>ResourceAdmissionRun\<close>, where the locales \<open>admission_law\<close> and \<open>open_admission_law\<close> reduce an invariant of all
  runs to the single changes). \<open>ResourceAdmissionFacts\<close>, \<open>ResourceAdmissionProps\<close>: the ledgers of leases and of
  requests, capacity, headroom, completeness and fairness of draining.

  \<open>SchedFairness\<close>: records with service debt and waiting credit, windows, scores, grants with a permit callback,
  settlement, splits and snapshots. \<open>SchedFairnessFacts\<close>, \<open>SchedFairnessKeeps\<close>, \<open>SchedFairnessProps\<close>:
  well-formed states in calls that throw too, the windows, and that a record with an open window is served within
  a bound that counts the records before it.

  \<open>LedgerTypes\<close>, \<open>LedgerStates\<close>, \<open>LedgerValid\<close>, \<open>LedgerCommit\<close>, \<open>LedgerGraph\<close>, \<open>LedgerRules\<close>: the persisted data,
  the transition tables, the checks of the parts, of commits and of the whole ledger, and what a ledger allows.
  \<open>LedgerFacts\<close>, \<open>LedgerDemo\<close>, \<open>LedgerProps\<close>: what dispatch, success, cancellation and loss presuppose, and where
  the commit machine ends.

  \<open>BudgetTypes\<close>, \<open>BudgetLedger\<close>, \<open>BudgetCommands\<close>: the accounting state and its commands. \<open>BudgetFacts\<close>,
  \<open>BudgetTotals\<close> (the totals kept by loops are sums over the tables), \<open>BudgetInvariant\<close>, \<open>BudgetProps\<close>: calls and
  attempts within the budget, stopped budgets, replays.

  \<open>SchedQueue\<close>: index, eligibility, bounded store of prompts, claims and wakes. \<open>SchedQueueFacts\<close>,
  \<open>SchedQueueKeeps\<close>, \<open>SchedQueueProps\<close>: the invariant of every call, exclusive claims, and that neither a unit nor
  a wake is missed.

  \<open>AgyWatermark\<close>: the checks of a stored state, samples, freezes, clears and evidence hashes on 64-bit words.
  \<open>AgyWatermarkFacts\<close>, \<open>AgyWatermarkProps\<close>: round trip of stored states, the latch of a freeze, the rates of
  recovery and reduction, and the injectivity of the hash in each character.

  \<open>MemoryQuery\<close>: characters, numbers, tokens, inline operators, drafts and buckets. \<open>MemoryQueryFacts\<close>,
  \<open>MemoryQueryText\<close>, \<open>MemoryQueryProps\<close>: words without operators, writing terms down and reading them back, the
  merge of contributions, required and excluded words.

  \<open>PageAdmission\<close>: the class \<open>PageAdmissionController\<close>, with its memory snapshots, leases, waiting requests,
  owner turns, deadlines and promises. \<open>PageAdmissionFacts\<close>, \<open>PageAdmissionProps\<close>: a promise is settled once, a
  grant leaves the headroom, and after a refresh only requests that are blocked wait.

  Bounds and fuel. No definition uses fuel: loops are structural recursions or functions that terminate by the
  length of a text, the size of a queue, or the number of nodes that are left. A walk that the code guards by a
  set of visited nodes terminates by that set. Clocks, samples, random numbers, identifiers and callbacks are
  arguments of each operation, so a theorem holds for every behaviour of them. An operation that the code runs in a
  promise chain or a timer is an operation of a run, and a run is any list of operations.

  What the model leaves out of these files: rounding of IEEE doubles; the texts of error messages; shape checks of
  unknown JSON values where the declared types make them, except in the planning input of the unit engine, the
  options of the controllers and the states of the watermark, whose checks are modelled on raw values; and
  characters above U+00FF, except in the query parser, whose texts are lists of UTF-16 code units.

  Not modelled. The rest of \<open>memory-store\<close> reads and writes files, databases and processes: the scheduler's runtime,
  pump, coordinator and control (\<open>record-scheduler-runtime.ts\<close>, \<open>record-scheduler-production-pump.ts\<close>,
  \<open>record-scheduler-coordinator.ts\<close>, \<open>record-scheduler-control.ts\<close>), the tools (\<open>tools/record.ts\<close>,
  \<open>tools/conversation.ts\<close>), the provider clients (\<open>codex-client.ts\<close>, \<open>claude-code-client.ts\<close>, \<open>windsurf-client.ts\<close> and
  others), the conversation readers and the search engine. Where they decide, they
  call the components above; the rest is mostly the order of input and output, which needs a model of the file
  system, of SQLite and of the providers. The same holds for the sandbox's executors, sessions, agent server transport and providers, for
  the rest of \<open>web-fetcher\<close>, which drives a browser, for \<open>napcat-mcp\<close>, \<open>broker\<close>, \<open>mcp-subagent\<close> and \<open>wechat-docs-mcp\<close>, which
  forward to other programs, and for the scripts, skills, rules and documents.
\<close>

end
